(* ===== verification/Prelude.thy ===== *)
theory Prelude
  imports Main "HOL-Library.Word" "HOL-Library.List_Lexorder"
begin

text \<open>
  Shared ground of the development: the machine integer types of the code, the
  collections of rewrite rules that the component theories fill, and generic lemmas
  on lists that more than one component needs.
\<close>

section \<open>Machine integers\<close>

type_synonym u8 = "8 word"
type_synonym u16 = "16 word"
type_synonym u32 = "32 word"
type_synonym u64 = "64 word"
type_synonym bytes = "8 word list"

section \<open>Collections of facts\<close>

named_theorems frame_simps \<open>which fields of a state an operation leaves alone\<close>
named_theorems inv_intros \<open>operations preserve the invariant of their component\<close>

section \<open>Results and bytes\<close>

text \<open>A computation that may fail: \<open>Inl\<close> is the exception, \<open>Inr\<close> the result.\<close>

definition bindE :: "'e + 'a \<Rightarrow> ('a \<Rightarrow> 'e + 'b) \<Rightarrow> 'e + 'b" where
  "bindE x f = (case x of Inl e \<Rightarrow> Inl e | Inr a \<Rightarrow> f a)"

lemma bindE_simps [simp]: "bindE (Inl e) f = Inl e" "bindE (Inr a) f = f a"
  by (simp_all add: bindE_def)

lemma bindE_Inr_iff: "bindE x f = Inr b \<longleftrightarrow> (\<exists>a. x = Inr a \<and> f a = Inr b)"
  by (simp add: bindE_def split: sum.splits)

definition ascii :: "string \<Rightarrow> bytes" where
  "ascii s = map of_char s"

lemma u8_no_bit: "8 \<le> n \<Longrightarrow> \<not> bit (w :: u8) n"
  by (auto dest: bit_imp_le_length)

section \<open>Lists\<close>

lemma find_SomeD: "find P xs = Some x \<Longrightarrow> x \<in> set xs \<and> P x"
  by (induction xs) (auto split: if_splits)

lemma sorted_wrt_less_filter:
  "sorted_wrt (<) (map f xs) \<Longrightarrow> sorted_wrt (<) (map f (filter P xs))"
  by (induction xs) auto

lemma sorted_wrt_less_map_inj:
  fixes f :: "'a \<Rightarrow> 'b::linorder"
  assumes "sorted_wrt (<) (map f xs)" "x \<in> set xs" "y \<in> set xs" "f x = f y"
  shows "x = y"
proof -
  have "distinct (map f xs)"
    using assms(1) by (simp add: strict_sorted_iff)
  then have "inj_on f (set xs)"
    by (simp add: distinct_map)
  then show ?thesis
    using assms(2-4) by (meson inj_onD)
qed

lemma in_image_iff: "y \<in> f ` S \<longleftrightarrow> (\<exists>x\<in>S. f x = y)"
  by auto

lemma distinct_set_singleton: "distinct xs \<Longrightarrow> set xs = {x} \<Longrightarrow> xs = [x]"
  by (cases xs; cases "tl xs") auto

lemma takeWhile_append_all:
  "\<forall>x\<in>set xs. P x \<Longrightarrow> \<forall>y\<in>set ys. \<not> P y \<Longrightarrow> takeWhile P (xs @ ys) = xs"
  by (induction xs) (cases ys; simp)+

lemma distinct_remdups_adj_sorted: "sorted xs \<Longrightarrow> distinct (remdups_adj xs)"
  by (induction xs rule: remdups_adj.induct) (auto simp: order.antisym)

text \<open>
  \<open>std::sort\<close> followed by \<open>erase (unique (...))\<close> turns a vector into the sorted list of
  its distinct elements.
\<close>

definition sort_unique :: "('a::linorder) list \<Rightarrow> 'a list" where
  "sort_unique xs = remdups_adj (sort xs)"

lemma set_sort_unique [simp]: "set (sort_unique xs) = set xs"
  by (simp add: sort_unique_def)

lemma distinct_sort_unique [simp]: "distinct (sort_unique xs)"
  by (simp add: sort_unique_def distinct_remdups_adj_sorted)

lemma sorted_sort_unique [simp]: "sorted (sort_unique xs)"
  by (simp add: sort_unique_def)

end
