(* ===== verification/Messages.thy ===== *)
theory Messages
  imports Prelude
begin

text \<open>
  The messages that routers exchange: the header of \<open>router/MessageHeader.hpp\<close>, the
  flatbuffers tables of \<open>router/protocol/v2\<close> as the structs their generated headers
  declare, and the \<open>Message\<close> class of \<open>router/Message.hpp\<close>.
\<close>

section \<open>Header\<close>

record message_header =
  version :: u8
  htype :: u8
  unused :: u8
  ttl :: u8
  size :: u32
  source :: u32
  hdest :: u32

definition default_header :: message_header where
  "default_header =
     \<lparr>version = 0, htype = 0, unused = 0, ttl = 0, size = 0,
      source = 0xFFFFFFFF, hdest = 0xFFFFFFFF\<rparr>"

section \<open>Message bodies\<close>

record route =
  dest :: u32
  cost :: u32
  path :: "u32 list"

record hello_version =
  major_num :: u8
  minor_num :: u8
  patch_num :: u8
  vtag :: string
  revision :: string

record hello_message =
  hello_id :: u32
  hello_name :: string
  hello_version :: "hello_version option"
  hello_os :: u8

datatype message_body =
    UnknownMessage bytes
  | HelloMessage hello_message
  | RouteAdvertisement u32 "route list"
  | RouteRevocation u32 "route list"
  | ProxyClientConnect string
  | ServerClaim u32 u32
  | CoreMessage bytes

text \<open>
  \<open>boost::variant::which()\<close> is the position of the body's type in the \<open>Body\<close> typedef.
\<close>

fun which :: "message_body \<Rightarrow> u8" where
  "which (UnknownMessage _) = 0"
| "which (HelloMessage _) = 1"
| "which (RouteAdvertisement _ _) = 2"
| "which (RouteRevocation _ _) = 3"
| "which (ProxyClientConnect _) = 4"
| "which (ServerClaim _ _) = 5"
| "which (CoreMessage _) = 6"

section \<open>Message\<close>

text \<open>
  \<open>type_\<close> and \<open>ttl_\<close> are \<open>int\<close>s in the class, but private: they are assigned
  \<open>body_.which()\<close>, the constants 0 and 1, or a \<open>uint8_t\<close> field of a header
  (by \<open>MessageReader\<close>), so they are bytes here and the \<open>numeric_cast\<close>s of
  \<open>header()\<close> never throw.
\<close>

record message =
  body :: message_body
  mtype :: u8
  mttl :: u8

definition message_of :: "message_body \<Rightarrow> message" where
  "message_of b = \<lparr>body = b, mtype = which b, mttl = 1\<rparr>"

definition empty_message :: message where
  "empty_message = \<lparr>body = UnknownMessage [], mtype = 0, mttl = 1\<rparr>"

definition header_of :: "message \<Rightarrow> message_header" where
  "header_of m = default_header\<lparr>ttl := mttl m, htype := mtype m\<rparr>"

lemma header_of_simps [simp]:
  "ttl (header_of m) = mttl m" "htype (header_of m) = mtype m"
  "source (header_of m) = 0xFFFFFFFF" "hdest (header_of m) = 0xFFFFFFFF"
  by (simp_all add: header_of_def default_header_def)

lemma message_of_simps [simp]:
  "body (message_of b) = b" "mtype (message_of b) = which b" "mttl (message_of b) = 1"
  by (simp_all add: message_of_def)

end
