(* ===== verification/Ordered_Index.thy ===== *)
theory Ordered_Index
  imports Prelude
begin

text \<open>
  The router keeps its routes and its connections in \<open>boost::multi_index\<close> containers
  whose first index is ordered and unique on a composite key (the declarations in
  \<open>src/synergy/service/router/Router.hpp\<close>). The model keeps the contents of such a
  container as the list of its elements in index order. The operations below are the
  ones the router calls, with the documented behaviour of a unique ordered index:
  inserting an element whose key is present does nothing, erasing removes the one element
  with the key, iteration is in ascending key order.

  The interface is the locale \<open>unique_index\<close>; the components that declare a container
  interpret it at their own key function.
\<close>

section \<open>The container\<close>

fun idx_insert :: "('e \<Rightarrow> 'k::linorder) \<Rightarrow> 'e \<Rightarrow> 'e list \<Rightarrow> 'e list" where
  "idx_insert k e [] = [e]"
| "idx_insert k e (x # xs) =
     (if k e < k x then e # x # xs
      else if k e = k x then x # xs
      else x # idx_insert k e xs)"

fun idx_find :: "('e \<Rightarrow> 'k::linorder) \<Rightarrow> 'k \<Rightarrow> 'e list \<Rightarrow> 'e option" where
  "idx_find k q [] = None"
| "idx_find k q (x # xs) = (if k x = q then Some x else idx_find k q xs)"

fun idx_erase :: "('e \<Rightarrow> 'k::linorder) \<Rightarrow> 'k \<Rightarrow> 'e list \<Rightarrow> 'e list" where
  "idx_erase k q [] = []"
| "idx_erase k q (x # xs) = (if k x = q then xs else x # idx_erase k q xs)"

definition idx_has :: "('e \<Rightarrow> 'k::linorder) \<Rightarrow> 'k \<Rightarrow> 'e list \<Rightarrow> bool" where
  "idx_has k q xs = list_ex (\<lambda>x. k x = q) xs"

definition idx_wf :: "('e \<Rightarrow> 'k::linorder) \<Rightarrow> 'e list \<Rightarrow> bool" where
  "idx_wf k xs = sorted_wrt (<) (map k xs)"

section \<open>Its laws\<close>

lemma idx_has_iff: "idx_has k q xs \<longleftrightarrow> q \<in> k ` set xs"
  by (auto simp: idx_has_def list_ex_iff)

lemma idx_wf_Nil [simp]: "idx_wf k []"
  by (simp add: idx_wf_def)

lemma idx_wf_Cons [simp]: "idx_wf k (x # xs) \<longleftrightarrow> (\<forall>y\<in>set xs. k x < k y) \<and> idx_wf k xs"
  by (auto simp: idx_wf_def)

lemma idx_wf_append:
  "idx_wf k (xs @ ys) \<longleftrightarrow> idx_wf k xs \<and> idx_wf k ys \<and> (\<forall>x\<in>set xs. \<forall>y\<in>set ys. k x < k y)"
  by (auto simp: idx_wf_def sorted_wrt_append)

lemma set_idx_insert:
  "idx_wf k xs \<Longrightarrow>
   set (idx_insert k e xs) = (if k e \<in> k ` set xs then set xs else insert e (set xs))"
  by (induction xs) (auto simp: image_iff)

lemma set_idx_insert_subset: "set (idx_insert k e xs) \<subseteq> insert e (set xs)"
  by (induction xs) auto

lemma idx_wf_insert: "idx_wf k xs \<Longrightarrow> idx_wf k (idx_insert k e xs)"
  by (induction xs) (auto dest: set_idx_insert_subset[THEN subsetD])

lemma idx_insert_present: "idx_wf k xs \<Longrightarrow> k e \<in> k ` set xs \<Longrightarrow> idx_insert k e xs = xs"
  by (induction xs) auto

lemma length_idx_insert:
  "idx_wf k xs \<Longrightarrow>
   length (idx_insert k e xs) = (if k e \<in> k ` set xs then length xs else Suc (length xs))"
  by (induction xs) auto

lemma idx_insert_append_left:
  "\<forall>y\<in>set ys. k e < k y \<Longrightarrow> idx_insert k e (xs @ ys) = idx_insert k e xs @ ys"
  by (induction xs) (auto simp: neq_Nil_conv split: list.splits, (cases ys; auto))

lemma idx_insert_append_right:
  "\<forall>x\<in>set xs. k x < k e \<Longrightarrow> idx_insert k e (xs @ ys) = xs @ idx_insert k e ys"
  by (induction xs) auto

lemma idx_wf_unique:
  "idx_wf k xs \<Longrightarrow> x \<in> set xs \<Longrightarrow> y \<in> set xs \<Longrightarrow> k x = k y \<Longrightarrow> x = y"
  unfolding idx_wf_def by (rule sorted_wrt_less_map_inj)

lemma idx_find_Some: "idx_find k q xs = Some x \<Longrightarrow> x \<in> set xs \<and> k x = q"
  by (induction xs) (auto split: if_splits)

lemma idx_find_None: "idx_find k q xs = None \<longleftrightarrow> q \<notin> k ` set xs"
  by (induction xs) auto

lemma idx_find_eq:
  "idx_wf k xs \<Longrightarrow> idx_find k q xs = Some x \<longleftrightarrow> x \<in> set xs \<and> k x = q"
  by (induction xs) auto

lemma set_idx_erase: "idx_wf k xs \<Longrightarrow> set (idx_erase k q xs) = {x \<in> set xs. k x \<noteq> q}"
  by (induction xs) auto

lemma set_idx_erase_subset: "set (idx_erase k q xs) \<subseteq> set xs"
  by (induction xs) auto

lemma idx_wf_erase: "idx_wf k xs \<Longrightarrow> idx_wf k (idx_erase k q xs)"
  by (induction xs) (auto dest: set_idx_erase_subset[THEN subsetD])

lemma idx_erase_absent: "q \<notin> k ` set xs \<Longrightarrow> idx_erase k q xs = xs"
  by (induction xs) auto

lemma idx_erase_filter: "idx_wf k xs \<Longrightarrow> idx_erase k q xs = filter (\<lambda>x. k x \<noteq> q) xs"
proof (induction xs)
  case (Cons x xs)
  then show ?case by (cases "k x = q") (auto intro!: filter_True[symmetric])
qed simp

lemma idx_erase_insert:
  "idx_wf k xs \<Longrightarrow> k e \<notin> k ` set xs \<Longrightarrow> idx_erase k (k e) (idx_insert k e xs) = xs"
  by (induction xs) auto

lemma idx_wf_filter: "idx_wf k xs \<Longrightarrow> idx_wf k (filter P xs)"
  unfolding idx_wf_def by (rule sorted_wrt_less_filter)

lemma idx_wf_ext:
  assumes "idx_wf k xs" "idx_wf k ys" "set xs = set ys"
  shows "xs = ys"
  using assms
proof (induction xs arbitrary: ys)
  case Nil
  then show ?case by simp
next
  case (Cons x xs)
  then obtain y ys' where ys: "ys = y # ys'" by (cases ys) auto
  have xy: "x = y"
  proof (rule ccontr)
    assume "x \<noteq> y"
    with Cons.prems ys have "x \<in> set ys'" "y \<in> set xs" by auto
    with Cons.prems ys show False by (auto dest: order.strict_trans)
  qed
  have "set xs = set ys'"
    using Cons.prems ys xy by (auto simp: set_eq_iff)
  with Cons ys xy show ?case by auto
qed

section \<open>The interface\<close>

text \<open>
  What the router relies on: the elements after an insertion or an erasure, lookup by key,
  and that the contents always stay duplicate-free and ordered.
\<close>

locale unique_index =
  fixes key :: "'e \<Rightarrow> 'k::linorder"
    and ins :: "'e \<Rightarrow> 't \<Rightarrow> 't"
    and del :: "'k \<Rightarrow> 't \<Rightarrow> 't"
    and look :: "'k \<Rightarrow> 't \<Rightarrow> 'e option"
    and elems :: "'t \<Rightarrow> 'e list"
    and wf :: "'t \<Rightarrow> bool"
  assumes wf_sorted: "wf t \<Longrightarrow> sorted_wrt (<) (map key (elems t))"
    and elems_ins: "wf t \<Longrightarrow> set (elems (ins e t)) =
          (if key e \<in> key ` set (elems t) then set (elems t) else insert e (set (elems t)))"
    and elems_del: "wf t \<Longrightarrow> set (elems (del q t)) = {x \<in> set (elems t). key x \<noteq> q}"
    and look_iff: "wf t \<Longrightarrow> look q t = Some x \<longleftrightarrow> x \<in> set (elems t) \<and> key x = q"
    and wf_ins: "wf t \<Longrightarrow> wf (ins e t)"
    and wf_del: "wf t \<Longrightarrow> wf (del q t)"
begin

lemma key_unique: "wf t \<Longrightarrow> x \<in> set (elems t) \<Longrightarrow> y \<in> set (elems t) \<Longrightarrow> key x = key y \<Longrightarrow> x = y"
  by (rule sorted_wrt_less_map_inj[OF wf_sorted])

lemma distinct_elems: "wf t \<Longrightarrow> distinct (elems t)"
  using wf_sorted[of t] distinct_map[of key "elems t"] by (simp add: strict_sorted_iff)

lemma look_None: "wf t \<Longrightarrow> look q t = None \<longleftrightarrow> q \<notin> key ` set (elems t)"
  by (metis (mono_tags, lifting) imageE image_eqI look_iff option.exhaust option.simps(3))

lemma look_ins_same:
  assumes "wf t"
  shows "look (key e) (ins e t) = (case look (key e) t of None \<Rightarrow> Some e | Some x \<Rightarrow> Some x)"
proof (cases "look (key e) t")
  case None
  then have "look (key e) (ins e t) = Some e"
    using assms by (simp add: look_iff wf_ins elems_ins look_None)
  with None show ?thesis by simp
next
  case (Some x)
  then have "look (key e) (ins e t) = Some x"
    using assms by (auto simp: look_iff wf_ins elems_ins)
  with Some show ?thesis by simp
qed

lemma look_ins_other: "wf t \<Longrightarrow> q \<noteq> key e \<Longrightarrow> look q (ins e t) = look q t"
proof -
  assume wf: "wf t" and ne: "q \<noteq> key e"
  then have "\<And>x. look q (ins e t) = Some x \<longleftrightarrow> look q t = Some x"
    by (auto simp: look_iff wf_ins elems_ins)
  then show ?thesis by (metis not_Some_eq)
qed

lemma look_del_same: "wf t \<Longrightarrow> look q (del q t) = None"
  using look_iff[OF wf_del, of t q q] by (auto simp: elems_del not_Some_eq[symmetric])

lemma look_del_other: "wf t \<Longrightarrow> p \<noteq> q \<Longrightarrow> look p (del q t) = look p t"
proof -
  assume wf: "wf t" and ne: "p \<noteq> q"
  then have "\<And>x. look p (del q t) = Some x \<longleftrightarrow> look p t = Some x"
    by (auto simp: look_iff wf_del elems_del)
  then show ?thesis by (metis not_Some_eq)
qed

lemma ins_idem: "wf t \<Longrightarrow> set (elems (ins e (ins e t))) = set (elems (ins e t))"
  by (auto simp: elems_ins wf_ins)

lemma del_ins: "wf t \<Longrightarrow> look (key e) t = None \<Longrightarrow> set (elems (del (key e) (ins e t))) = set (elems t)"
proof -
  assume wf: "wf t" and none: "look (key e) t = None"
  then have "key e \<notin> key ` set (elems t)"
    by (simp add: look_None)
  moreover from this have "x \<in> set (elems t) \<Longrightarrow> key x \<noteq> key e" for x
    by (metis image_eqI)
  ultimately show ?thesis using wf by (auto simp: elems_del wf_ins elems_ins)
qed

end

text \<open>The list container satisfies the interface at every key function.\<close>

lemma unique_index_list:
  "unique_index k (idx_insert k) (idx_erase k) (idx_find k) (\<lambda>xs. xs) (idx_wf k)"
  by unfold_locales
     (auto simp: set_idx_insert set_idx_erase idx_find_eq idx_wf_insert idx_wf_erase, simp add: idx_wf_def)

end
