(* ===== verification/RouteTable.thy ===== *)
theory RouteTable
  imports Messages Ordered_Index
begin

text \<open>
  The route table of \<open>router/Router.hpp\<close>: its entries, the composite key of its ordered
  index, and the insertion of a route under the limit of three routes per destination
  (the table part of \<open>Router::integrate (Route, ...)\<close> in \<open>router/Router.cpp\<close>).
\<close>

section \<open>Entries and their key\<close>

text \<open>
  \<open>struct RouteTableEntry : Route\<close> with a \<open>Connection*\<close>. A connection is named by its
  id, which \<open>Connection::Connection\<close> draws from a counter; \<open>None\<close> is the null pointer.
\<close>

record route_entry = route +
  connection :: "u32 option"

datatype route_key = Route_Key (k_dest: u32) (k_cost: u32) (k_path: "u32 list")

text \<open>\<open>composite_key\<close> compares member by member, vectors lexicographically.\<close>

definition route_key_less :: "route_key \<Rightarrow> route_key \<Rightarrow> bool" where
  "route_key_less a b \<longleftrightarrow>
     k_dest a < k_dest b \<or>
     (k_dest a = k_dest b \<and>
       (k_cost a < k_cost b \<or> (k_cost a = k_cost b \<and> k_path a < k_path b)))"

instantiation route_key :: linorder
begin

definition less_route_key :: "route_key \<Rightarrow> route_key \<Rightarrow> bool" where
  "less_route_key = route_key_less"

definition less_eq_route_key :: "route_key \<Rightarrow> route_key \<Rightarrow> bool" where
  "less_eq_route_key a b \<longleftrightarrow> a < b \<or> a = (b :: route_key)"

instance
proof
  fix x y z :: route_key
  show "x < y \<longleftrightarrow> x \<le> y \<and> \<not> y \<le> x"
    by (cases x; cases y) (auto simp: less_eq_route_key_def less_route_key_def route_key_less_def)
  show "x \<le> x"
    by (simp add: less_eq_route_key_def)
  show "x \<le> y \<Longrightarrow> y \<le> z \<Longrightarrow> x \<le> z"
    by (cases x; cases y; cases z) (auto simp: less_eq_route_key_def less_route_key_def route_key_less_def)
  show "x \<le> y \<Longrightarrow> y \<le> x \<Longrightarrow> x = y"
    by (cases x; cases y) (auto simp: less_eq_route_key_def less_route_key_def route_key_less_def)
  show "x \<le> y \<or> y \<le> x"
    by (cases x; cases y) (auto simp: less_eq_route_key_def less_route_key_def route_key_less_def)
qed

end

definition rkey :: "'a route_scheme \<Rightarrow> route_key" where
  "rkey r = Route_Key (dest r) (cost r) (path r)"

definition mk_entry :: "route \<Rightarrow> u32 \<Rightarrow> route_entry" where
  "mk_entry r c = \<lparr>dest = dest r, cost = cost r, path = path r, connection = Some c\<rparr>"

definition to_route :: "'a route_scheme \<Rightarrow> route" where
  "to_route e = \<lparr>dest = dest e, cost = cost e, path = path e\<rparr>"

lemma rkey_eq_iff [simp]: "rkey a = rkey b \<longleftrightarrow> dest a = dest b \<and> cost a = cost b \<and> path a = path b"
  by (simp add: rkey_def)

lemma rkey_dest_less: "dest a < dest b \<Longrightarrow> rkey a < rkey b"
  by (simp add: rkey_def less_route_key_def route_key_less_def)

lemma rkey_less_dest: "rkey a < rkey b \<Longrightarrow> dest a \<le> dest b"
  by (auto simp: rkey_def less_route_key_def route_key_less_def)

lemma rkey_less_cost: "rkey a < rkey b \<Longrightarrow> dest a = dest b \<Longrightarrow> cost a \<le> cost b"
  by (auto simp: rkey_def less_route_key_def route_key_less_def)

lemma mk_entry_simps [simp]:
  "dest (mk_entry r c) = dest r" "cost (mk_entry r c) = cost r" "path (mk_entry r c) = path r"
  "connection (mk_entry r c) = Some c" "rkey (mk_entry r c) = rkey r"
  by (simp_all add: mk_entry_def)

lemma to_route_simps [simp]:
  "dest (to_route r) = dest r" "cost (to_route r) = cost r" "path (to_route r) = path r"
  "rkey (to_route r) = rkey r"
  by (simp_all add: to_route_def)

lemma to_route_mk_entry [simp]: "to_route (mk_entry r c) = r"
  by (simp add: to_route_def)

interpretation route_index: unique_index "rkey :: route_entry \<Rightarrow> route_key"
  "idx_insert rkey" "idx_erase rkey" "idx_find rkey" "\<lambda>xs. xs" "idx_wf rkey"
  by (rule unique_index_list)

section \<open>Ranges and ranks\<close>

text \<open>
  An iterator of the ranked index is modelled by its rank. \<open>equal_range (dest)\<close> is the
  pair of ranks of the first entry of the destination and of the first entry after it.
\<close>

type_synonym route_table = "route_entry list"

definition kDestRouteLimit :: nat where
  "kDestRouteLimit = 3"

definition rt_first :: "u32 \<Rightarrow> route_table \<Rightarrow> nat" where
  "rt_first d t = length (takeWhile (\<lambda>e. dest e < d) t)"

definition rt_second :: "u32 \<Rightarrow> route_table \<Rightarrow> nat" where
  "rt_second d t = length (takeWhile (\<lambda>e. dest e \<le> d) t)"

definition rt_rank :: "route_entry \<Rightarrow> route_table \<Rightarrow> nat" where
  "rt_rank e t = length (takeWhile (\<lambda>x. rkey x < rkey e) t)"

definition rt_erase_at :: "nat \<Rightarrow> route_table \<Rightarrow> route_table" where
  "rt_erase_at i t = take i t @ drop (Suc i) t"

definition rt_count :: "u32 \<Rightarrow> route_table \<Rightarrow> nat" where
  "rt_count d t = length (filter (\<lambda>e. dest e = d) t)"

text \<open>
  The table part of \<open>Router::integrate (Route, source)\<close>. The iterator
  \<open>existing_routes.second\<close> survives the insertion: it still points to the first entry of
  a later destination, so \<open>std::prev\<close> of it is the last entry of this one.
\<close>

definition rt_integrate :: "route_entry \<Rightarrow> route_table \<Rightarrow> route_table \<times> bool" where
  "rt_integrate entry t =
     (let rank_lower = rt_first (dest entry) t;
          rank_higher = rt_second (dest entry) t;
          route_limit_reached =
            (rank_lower \<noteq> rank_higher \<and> rank_higher - rank_lower = kDestRouteLimit);
          installed = (\<not> idx_has rkey (rkey entry) t);
          t1 = idx_insert rkey entry t
      in if route_limit_reached \<and> installed then
           (let rank_installed = rt_rank entry t1
            in if rank_installed < rank_higher
               then (rt_erase_at (rt_second (dest entry) t1 - 1) t1, True)
               else (rt_erase_at rank_installed t1, False))
         else (t1, installed))"

section \<open>What the insertion does\<close>

definition rt_group :: "u32 \<Rightarrow> route_table \<Rightarrow> route_table" where
  "rt_group d t = filter (\<lambda>e. dest e = d) t"

definition rt_before :: "u32 \<Rightarrow> route_table \<Rightarrow> route_table" where
  "rt_before d t = filter (\<lambda>e. dest e < d) t"

definition rt_after :: "u32 \<Rightarrow> route_table \<Rightarrow> route_table" where
  "rt_after d t = filter (\<lambda>e. d < dest e) t"

lemmas rt_parts = rt_before_def rt_group_def rt_after_def

text \<open>The table holds at most three routes per destination, ordered and without duplicates.\<close>

definition rt_ok :: "route_table \<Rightarrow> bool" where
  "rt_ok t \<longleftrightarrow> idx_wf rkey t \<and> (\<forall>d. rt_count d t \<le> kDestRouteLimit)"

lemma rt_split:
  assumes "idx_wf rkey t"
  shows "t = rt_before d t @ rt_group d t @ rt_after d t"
proof (rule idx_wf_ext[OF assms])
  show "idx_wf rkey (rt_before d t @ rt_group d t @ rt_after d t)"
    using assms by (auto simp: rt_parts idx_wf_append idx_wf_filter intro!: rkey_dest_less)
  show "set t = set (rt_before d t @ rt_group d t @ rt_after d t)"
    by (auto simp: rt_parts)
qed

lemma rt_first_split: "idx_wf rkey t \<Longrightarrow> rt_first d t = length (rt_before d t)"
  unfolding rt_first_def
  by (subst rt_split[of t d]; assumption?)
     (subst takeWhile_append_all; auto simp: rt_parts)

lemma rt_second_split:
  "idx_wf rkey t \<Longrightarrow> rt_second d t = length (rt_before d t) + length (rt_group d t)"
  unfolding rt_second_def append_assoc[symmetric]
  by (subst rt_split[of t d], assumption, subst append_assoc[symmetric])
     (subst takeWhile_append_all; auto simp: rt_parts)

lemma idx_insert_split:
  assumes "idx_wf rkey t" "dest e = d"
  shows "idx_insert rkey e t = rt_before d t @ idx_insert rkey e (rt_group d t) @ rt_after d t"
proof -
  have "idx_insert rkey e t = idx_insert rkey e (rt_before d t @ rt_group d t @ rt_after d t)"
    using rt_split[OF assms(1), of d] by simp
  also have "\<dots> = rt_before d t @ idx_insert rkey e (rt_group d t) @ rt_after d t"
    using assms(2)
    by (simp add: idx_insert_append_right idx_insert_append_left rt_parts rkey_dest_less)
  finally show ?thesis .
qed

lemma idx_has_group: "dest e = d \<Longrightarrow> idx_has rkey (rkey e) t \<longleftrightarrow> idx_has rkey (rkey e) (rt_group d t)"
  by (auto simp: idx_has_def list_ex_iff rt_parts)

text \<open>
  The specification: the entries of other destinations stay, and those of the entry's own
  destination become the three least of the old ones and the new one.
\<close>

definition best_routes :: "route_entry \<Rightarrow> route_table \<Rightarrow> route_table" where
  "best_routes e G = take kDestRouteLimit (idx_insert rkey e G)"

lemma rank_in_insert:
  assumes "idx_wf rkey G" "rkey e \<notin> rkey ` set G"
  shows "length (takeWhile (\<lambda>x. rkey x < rkey e) (idx_insert rkey e G)) < length (idx_insert rkey e G)"
    and "idx_insert rkey e G ! length (takeWhile (\<lambda>x. rkey x < rkey e) (idx_insert rkey e G)) = e"
  using assms by (induction G) auto

lemma rt_rank_split:
  assumes "idx_wf rkey t" "d = dest e"
  shows "rt_rank e (rt_before d t @ G @ rt_after d t) =
    length (rt_before d t) + length (takeWhile (\<lambda>x. rkey x < rkey e) (G @ rt_after d t))"
proof -
  have "\<forall>x\<in>set (rt_before d t). rkey x < rkey e"
    using assms by (auto simp: rt_parts rkey_dest_less)
  then show ?thesis
    by (simp add: rt_rank_def takeWhile_append2)
qed

lemma takeWhile_rank_append:
  assumes "idx_wf rkey G" "rkey e \<notin> rkey ` set G"
  shows "takeWhile (\<lambda>x. rkey x < rkey e) (idx_insert rkey e G @ ys) =
    takeWhile (\<lambda>x. rkey x < rkey e) (idx_insert rkey e G)"
  using assms by (induction G) auto

lemma erase_last_is_take:
  "length G = Suc n \<Longrightarrow> i = length L + n \<Longrightarrow> rt_erase_at i (L @ G @ R) = L @ take n G @ R"
  by (simp add: rt_erase_at_def)

lemma rt_second_replace:
  assumes "idx_wf rkey t" "\<forall>x\<in>set G. dest x = d"
  shows "rt_second d (rt_before d t @ G @ rt_after d t) = length (rt_before d t) + length G"
proof -
  have "takeWhile (\<lambda>e. dest e \<le> d) ((rt_before d t @ G) @ rt_after d t) = rt_before d t @ G"
    using assms(2) by (intro takeWhile_append_all) (auto simp: rt_parts)
  then show ?thesis by (simp add: rt_second_def)
qed

lemma rt_count_group: "rt_count d t = length (rt_group d t)"
  by (simp add: rt_count_def rt_group_def)

lemma rt_group_insert_dest: "\<forall>x\<in>set (idx_insert rkey e (rt_group (dest e) t)). dest x = dest e"
  using set_idx_insert_subset[of rkey e "rt_group (dest e) t"] by (auto simp: rt_parts)

lemma rt_integrate_present:
  "rkey e \<in> rkey ` set t \<Longrightarrow> idx_wf rkey t \<Longrightarrow> rt_integrate e t = (t, False)"
  by (simp add: rt_integrate_def Let_def idx_has_iff idx_insert_present)

lemma rt_ok_wf: "rt_ok t \<Longrightarrow> idx_wf rkey t"
  by (simp add: rt_ok_def)

lemma group_facts:
  assumes "rt_ok t"
  shows "idx_wf rkey (rt_group d t)" "length (rt_group d t) \<le> 3"
  using assms by (simp_all add: rt_ok_def rt_group_def idx_wf_filter kDestRouteLimit_def rt_count_def)

lemma key_in_group:
  "dest e = d \<Longrightarrow> rkey e \<in> rkey ` set (rt_group d t) \<longleftrightarrow> rkey e \<in> rkey ` set t"
  using idx_has_group[of e d t] by (simp add: idx_has_iff)

lemma rt_integrate_room:
  assumes ok: "rt_ok t" and new: "rkey e \<notin> rkey ` set t"
    and room: "length (rt_group (dest e) t) \<noteq> 3"
  shows "rt_integrate e t =
    (rt_before (dest e) t @ idx_insert rkey e (rt_group (dest e) t) @ rt_after (dest e) t, True)"
  using new room rt_ok_wf[OF ok]
  by (simp add: rt_integrate_def Let_def idx_has_iff rt_first_split rt_second_split
      idx_insert_split kDestRouteLimit_def)

lemma rt_rank_inserted:
  assumes "rt_ok t" "rkey e \<notin> rkey ` set t"
  shows "rt_rank e (rt_before (dest e) t @ idx_insert rkey e (rt_group (dest e) t) @ rt_after (dest e) t) =
    length (rt_before (dest e) t) +
    length (takeWhile (\<lambda>x. rkey x < rkey e) (idx_insert rkey e (rt_group (dest e) t)))"
  using rt_rank_split[OF rt_ok_wf[OF assms(1)] refl]
    takeWhile_rank_append[OF group_facts(1)[OF assms(1)]] assms(2)
  by (simp add: key_in_group)

lemma rt_integrate_full:
  fixes e t
  defines "G' \<equiv> idx_insert rkey e (rt_group (dest e) t)"
  assumes ok: "rt_ok t" and new: "rkey e \<notin> rkey ` set t"
    and full: "length (rt_group (dest e) t) = 3"
  shows "rt_integrate e t =
    (rt_before (dest e) t @ take 3 G' @ rt_after (dest e) t,
     length (takeWhile (\<lambda>x. rkey x < rkey e) G') < 3)"
proof -
  let ?d = "dest e" and ?w = "length (takeWhile (\<lambda>x. rkey x < rkey e) G')"
  let ?L = "rt_before ?d t" and ?R = "rt_after ?d t"
  note wf = rt_ok_wf[OF ok] group_facts(1)[OF ok, of ?d]
  have new': "rkey e \<notin> rkey ` set (rt_group ?d t)" using new by (simp add: key_in_group)
  have len: "length G' = Suc 3" and w: "?w < 4"
    using length_idx_insert[OF wf(2), of e] rank_in_insert(1)[OF wf(2) new'] new' full
    by (simp_all add: G'_def)
  have last: "rt_erase_at (length ?L + 3) (?L @ G' @ ?R) = ?L @ take 3 G' @ ?R"
    by (rule erase_last_is_take[OF len refl])
  have last': "rt_erase_at (3 + length ?L) (?L @ G' @ ?R) = ?L @ take 3 G' @ ?R"
    using last by (simp add: add.commute)
  have second: "rt_second ?d (?L @ G' @ ?R) = length ?L + length G'"
    unfolding G'_def using wf(1) rt_group_insert_dest by (rule rt_second_replace)
  have ins: "idx_insert rkey e t = ?L @ G' @ ?R"
    using idx_insert_split[OF wf(1) refl] by (simp add: G'_def)
  have "rt_rank e (?L @ G' @ ?R) = length ?L + ?w"
    using rt_rank_inserted[OF ok new] by (simp add: G'_def)
  moreover have "\<not> ?w < 3 \<Longrightarrow> ?w = 3" using w by simp
  ultimately show ?thesis
    using new wf full last last' second ins len
    by (auto simp: rt_integrate_def Let_def idx_has_iff rt_first_split rt_second_split kDestRouteLimit_def)
qed

lemma inserted_in_take:
  fixes e :: route_entry
  assumes "idx_wf rkey G" "rkey e \<notin> rkey ` set G" "n < length (idx_insert rkey e G)"
  shows "e \<in> set (take n (idx_insert rkey e G)) \<longleftrightarrow>
    length (takeWhile (\<lambda>x. rkey x < rkey e) (idx_insert rkey e G)) < n"
proof -
  let ?G = "idx_insert rkey e G" and ?w = "length (takeWhile (\<lambda>x. rkey x < rkey e) (idx_insert rkey e G))"
  have "distinct ?G" using route_index.distinct_elems[OF idx_wf_insert[OF assms(1)]] .
  then have "?G ! j = e \<longleftrightarrow> j = ?w" if "j < length ?G" for j
    using nth_eq_iff_index_eq[of ?G j ?w] rank_in_insert[OF assms(1,2)] that by metis
  then show ?thesis using assms(3) by (auto simp: in_set_conv_nth)
qed

theorem rt_integrate_eq:
  assumes ok: "rt_ok t"
  shows "rt_integrate e t =
    (rt_before (dest e) t @ best_routes e (rt_group (dest e) t) @ rt_after (dest e) t,
     rkey e \<notin> rkey ` set t \<and> e \<in> set (best_routes e (rt_group (dest e) t)))"
proof -
  let ?G = "rt_group (dest e) t"
  note G = rt_ok_wf[OF ok] group_facts[OF ok, of "dest e"]
  consider (present) "rkey e \<in> rkey ` set t"
    | (room) "rkey e \<notin> rkey ` set t" "length ?G \<noteq> 3" | (full) "rkey e \<notin> rkey ` set t" "length ?G = 3"
    by blast
  then show ?thesis
  proof cases
    case present
    then show ?thesis
      using G rt_split[OF G(1), of "dest e"] idx_insert_present[OF G(2), of e]
      by (simp add: rt_integrate_present best_routes_def kDestRouteLimit_def key_in_group)
  next
    case room
    then have "e \<in> set (idx_insert rkey e ?G)" "length (idx_insert rkey e ?G) \<le> 3"
      using G by (simp_all add: set_idx_insert length_idx_insert key_in_group)
    then show ?thesis
      using rt_integrate_room[OF ok room] room by (simp add: best_routes_def kDestRouteLimit_def)
  next
    case full
    then have "3 < length (idx_insert rkey e ?G)"
      using G by (simp add: length_idx_insert key_in_group)
    then show ?thesis
      using rt_integrate_full[OF ok full] full inserted_in_take[of ?G e 3] G
      by (simp add: best_routes_def kDestRouteLimit_def key_in_group)
  qed
qed

section \<open>Consequences\<close>

lemma set_best_routes: "set (best_routes e G) \<subseteq> insert e (set G)"
  using set_idx_insert_subset[of rkey e G] by (auto simp: best_routes_def dest: in_set_takeD)

lemma best_routes_dest: "\<forall>x\<in>set (best_routes e (rt_group (dest e) t)). dest x = dest e"
  using set_best_routes[of e "rt_group (dest e) t"] by (auto simp: rt_group_def)

lemma best_routes_nonempty [simp]: "best_routes e G \<noteq> []"
  by (cases G) (auto simp: best_routes_def kDestRouteLimit_def)

lemma length_best_routes: "length (best_routes e G) \<le> kDestRouteLimit"
  by (simp add: best_routes_def)

lemma idx_wf_take: "idx_wf k xs \<Longrightarrow> idx_wf k (take n xs)"
  by (induction xs arbitrary: n) (auto simp: take_Cons split: nat.splits dest: in_set_takeD)

lemma idx_wf_best_routes: "idx_wf rkey G \<Longrightarrow> idx_wf rkey (best_routes e G)"
  by (simp add: best_routes_def idx_wf_take idx_wf_insert)

lemma rt_group_append: "rt_group d (xs @ ys) = rt_group d xs @ rt_group d ys"
  by (simp add: rt_group_def)

lemma rt_group_Nil_iff: "rt_group d t = [] \<longleftrightarrow> d \<notin> dest ` set t"
  by (auto simp: rt_group_def filter_empty_conv in_image_iff)

lemma rt_group_same: "\<forall>x\<in>set xs. dest x = d \<Longrightarrow> rt_group d xs = xs"
  by (simp add: rt_group_def)

lemma rt_group_other: "\<forall>x\<in>set xs. dest x \<noteq> d \<Longrightarrow> rt_group d xs = []"
  by (auto simp: rt_group_Nil_iff)

lemma rt_group_integrate:
  assumes "rt_ok t"
  shows "rt_group d (fst (rt_integrate e t)) =
    (if d = dest e then best_routes e (rt_group d t) else rt_group d t)"
proof (cases "d = dest e")
  case True
  have "rt_group (dest e) (rt_before (dest e) t) = []" "rt_group (dest e) (rt_after (dest e) t) = []"
    by (auto simp: rt_parts filter_empty_conv)
  moreover have "rt_group (dest e) (best_routes e (rt_group (dest e) t)) = best_routes e (rt_group (dest e) t)"
    by (rule rt_group_same[OF best_routes_dest])
  ultimately show ?thesis
    using True by (simp add: rt_integrate_eq[OF assms] rt_group_append)
next
  case False
  have "rt_group d (best_routes e (rt_group (dest e) t)) = []"
  proof (rule rt_group_other, rule ballI)
    fix x assume "x \<in> set (best_routes e (rt_group (dest e) t))"
    then have "dest x = dest e" by (rule bspec[OF best_routes_dest])
    with False show "dest x \<noteq> d" by simp
  qed
  moreover have "rt_group d (rt_group (dest e) t) = []"
    using False by (auto simp: rt_parts filter_empty_conv)
  moreover have "rt_group d t =
    rt_group d (rt_before (dest e) t @ rt_group (dest e) t @ rt_after (dest e) t)"
    using rt_split[OF rt_ok_wf[OF assms], of "dest e"] by simp
  ultimately show ?thesis
    using False by (simp add: rt_integrate_eq[OF assms] rt_group_append)
qed

lemma rt_ok_integrate [inv_intros]:
  assumes "rt_ok t"
  shows "rt_ok (fst (rt_integrate e t))"
proof -
  have wf: "idx_wf rkey (fst (rt_integrate e t))"
    using rt_ok_wf[OF assms] best_routes_dest[of e t] group_facts(1)[OF assms, of "dest e"]
    by (auto simp: rt_integrate_eq[OF assms] idx_wf_append idx_wf_best_routes rt_before_def rt_after_def
        idx_wf_filter intro!: rkey_dest_less)
  have "length (rt_group d (fst (rt_integrate e t))) \<le> kDestRouteLimit" for d
    using assms by (simp add: rt_group_integrate length_best_routes rt_ok_def rt_count_group)
  with wf show ?thesis by (simp add: rt_ok_def rt_count_group)
qed

lemma set_rt_integrate: "rt_ok t \<Longrightarrow> set (fst (rt_integrate e t)) \<subseteq> insert e (set t)"
  using set_best_routes[of e "rt_group (dest e) t"]
  by (auto simp: rt_integrate_eq rt_parts)

lemma rt_integrate_dests:
  assumes "rt_ok t"
  shows "dest ` set (fst (rt_integrate e t)) = insert (dest e) (dest ` set t)"
proof (rule set_eqI)
  fix d
  have "d \<in> dest ` set (fst (rt_integrate e t)) \<longleftrightarrow> rt_group d (fst (rt_integrate e t)) \<noteq> []"
    by (simp add: rt_group_Nil_iff)
  also have "\<dots> \<longleftrightarrow> d \<in> insert (dest e) (dest ` set t)"
    by (simp add: rt_group_integrate[OF assms] rt_group_Nil_iff)
  finally show "d \<in> dest ` set (fst (rt_integrate e t)) \<longleftrightarrow> d \<in> insert (dest e) (dest ` set t)" .
qed

lemma rt_integrate_installed:
  assumes "rt_ok t"
  shows "snd (rt_integrate e t) \<longleftrightarrow> rkey e \<notin> rkey ` set t \<and> e \<in> set (fst (rt_integrate e t))"
proof -
  have "e \<notin> set (rt_before (dest e) t)" "e \<notin> set (rt_after (dest e) t)"
    by (simp_all add: rt_parts)
  then show ?thesis by (simp add: rt_integrate_eq[OF assms])
qed

lemma rt_integrate_not_installed:
  assumes "rt_ok t" "\<not> snd (rt_integrate e t)"
  shows "set (fst (rt_integrate e t)) \<subseteq> set t"
proof (cases "rkey e \<in> rkey ` set t")
  case True
  then show ?thesis by (simp add: rt_integrate_present rt_ok_wf[OF assms(1)])
next
  case False
  then have "e \<notin> set (fst (rt_integrate e t))"
    using assms by (simp add: rt_integrate_installed)
  then show ?thesis using set_rt_integrate[OF assms(1), of e] by blast
qed

lemma rt_new_dest_installed:
  assumes "rt_ok t" "dest e \<notin> dest ` set t"
  shows "snd (rt_integrate e t)"
proof -
  have "rkey e \<notin> rkey ` set t" "rt_group (dest e) t = []"
    using assms(2) by (auto simp: rt_group_Nil_iff in_image_iff)
  then show ?thesis
    by (simp add: rt_integrate_eq[OF assms(1)] best_routes_def kDestRouteLimit_def)
qed

lemma rt_ok_filter [inv_intros]: "rt_ok t \<Longrightarrow> rt_ok (filter P t)"
proof -
  assume ok: "rt_ok t"
  have "rt_count d (filter P t) \<le> rt_count d t" for d
    using length_filter_le[of P "filter (\<lambda>e. dest e = d) t"]
    by (simp add: rt_count_def conj_commute)
  with ok show ?thesis by (auto simp: rt_ok_def idx_wf_filter intro: order.trans)
qed

lemma rt_ok_erase [inv_intros]:
  assumes "rt_ok t"
  shows "rt_ok (idx_erase rkey q t)"
proof -
  have "length (filter P (idx_erase rkey q t)) \<le> length (filter P t)" for P
    by (induction t) auto
  with assms show ?thesis
    by (auto simp: rt_ok_def idx_wf_erase rt_count_def intro: order.trans)
qed

lemma rt_ok_Nil [simp]: "rt_ok []"
  by (simp add: rt_ok_def rt_count_def)

lemma rt_count_pos: "0 < rt_count d t \<longleftrightarrow> d \<in> dest ` set t"
  using rt_group_Nil_iff[of d t] by (simp add: rt_count_group)

end
