(* ===== verification/Router.thy ===== *)
theory Router
  imports RouteTable "HOL-Library.Product_Lexorder"
begin

text \<open>
  The router of \<open>router/Router.cpp\<close>: its state, every operation that changes it and the
  message handler. An operation returns the new state and the list of things it does to
  the outside, in order: messages handed to \<open>Connection::send\<close>, connections started or
  stopped, and emitted signals. The asynchronous loops (accepting, connecting, saying
  hello) are modelled one round at a time, with the outcome of the socket operations as
  an argument.
\<close>

section \<open>Connections and state\<close>

datatype ip_address = IPv4 (v4: u32) | IPv6 (v6: "128 word")

instantiation ip_address :: linorder
begin

fun less_ip_address :: "ip_address \<Rightarrow> ip_address \<Rightarrow> bool" where
  "less_ip_address (IPv4 a) (IPv4 b) = (a < b)"
| "less_ip_address (IPv6 a) (IPv6 b) = (a < b)"
| "less_ip_address (IPv4 a) (IPv6 b) = True"
| "less_ip_address (IPv6 a) (IPv4 b) = False"

definition less_eq_ip_address :: "ip_address \<Rightarrow> ip_address \<Rightarrow> bool" where
  "less_eq_ip_address a b \<longleftrightarrow> a < b \<or> a = (b :: ip_address)"

instance
proof
  fix x y z :: ip_address
  show "x < y \<longleftrightarrow> x \<le> y \<and> \<not> y \<le> x"
    by (cases x; cases y) (auto simp: less_eq_ip_address_def)
  show "x \<le> x"
    by (simp add: less_eq_ip_address_def)
  show "x \<le> y \<Longrightarrow> y \<le> z \<Longrightarrow> x \<le> z"
    by (cases x; cases y; cases z) (auto simp: less_eq_ip_address_def)
  show "x \<le> y \<Longrightarrow> y \<le> x \<Longrightarrow> x = y"
    by (cases x; cases y) (auto simp: less_eq_ip_address_def)
  show "x \<le> y \<or> y \<le> x"
    by (cases x; cases y) (auto simp: less_eq_ip_address_def)
qed

end

text \<open>What the router reads of a connection: its id and the two addresses of its socket.\<close>

record conn =
  conn_id :: u32
  remote_ip :: ip_address
  local_ip :: ip_address

definition ckey :: "conn \<Rightarrow> ip_address \<times> ip_address" where
  "ckey c = (remote_ip c, local_ip c)"

interpretation conn_index: unique_index ckey
  "idx_insert ckey" "idx_erase ckey" "idx_find ckey" "\<lambda>xs. xs" "idx_wf ckey"
  by (rule unique_index_list)

record router =
  rid :: u32
  rname :: string
  running :: bool
  route_table :: route_table
  connections :: "conn list"

datatype router_event =
    EvSend u32 message_header message
  | EvStart u32
  | EvStop u32
  | EvReachable u32
  | EvUnreachable u32
  | EvReceive message u32
  | EvConnect ip_address bool

definition init_router :: router where
  "init_router = \<lparr>rid = 0, rname = '''', running = False, route_table = [], connections = []\<rparr>"

definition kBroadcastId :: u32 where
  "kBroadcastId = 0xFFFFFFFF"

section \<open>Sending\<close>

text \<open>\<open>Connection::send (Message)\<close> uses the message's own header.\<close>

definition conn_send :: "conn \<Rightarrow> message \<Rightarrow> router_event" where
  "conn_send c m = EvSend (conn_id c) (header_of m) m"

fun flood_loop :: "bool \<Rightarrow> message \<Rightarrow> u32 \<Rightarrow> conn list \<Rightarrow> router_event list" where
  "flood_loop run m src [] = []"
| "flood_loop run m src (c # cs) =
     (if \<not> run then []
      else (if conn_id c \<noteq> src then [conn_send c m] else []) @ flood_loop run m src cs)"

definition flood :: "router \<Rightarrow> message \<Rightarrow> u32 \<Rightarrow> router_event list" where
  "flood r m src = flood_loop (running r) m src (connections r)"

fun broadcast_loop :: "bool \<Rightarrow> message \<Rightarrow> conn list \<Rightarrow> router_event list" where
  "broadcast_loop run m [] = []"
| "broadcast_loop run m (c # cs) =
     (if \<not> run then [] else conn_send c m # broadcast_loop run m cs)"

definition broadcast :: "router \<Rightarrow> message \<Rightarrow> router_event list" where
  "broadcast r m = broadcast_loop (running r) m (connections r)"

text \<open>
  \<open>find\<close> on the ordered index with a partial key returns the first entry of the
  destination. The result is the boolean the code returns and what it sends.
\<close>

definition forward :: "router \<Rightarrow> message_header \<Rightarrow> message \<Rightarrow> bool \<times> router_event list" where
  "forward r header m =
     (case find (\<lambda>e. dest e = hdest header) (route_table r) of
        None \<Rightarrow> (False, [])
      | Some route \<Rightarrow>
          (case connection route of
             None \<Rightarrow> (False, [])
           | Some c \<Rightarrow> (True, [EvSend c header m])))"

definition send :: "router \<Rightarrow> message \<Rightarrow> u32 \<Rightarrow> bool \<times> router_event list" where
  "send r m d = forward r ((header_of m)\<lparr>source := rid r, hdest := d\<rparr>) m"

fun notify_loop :: "router \<Rightarrow> message \<Rightarrow> u32 \<Rightarrow> route_table \<Rightarrow> router_event list" where
  "notify_loop r m lastDestId [] = []"
| "notify_loop r m lastDestId (e # es) =
     (if lastDestId \<noteq> dest e
      then snd (send r m (dest e)) @ notify_loop r m (dest e) es
      else notify_loop r m lastDestId es)"

definition notifyOtherNodes :: "router \<Rightarrow> message \<Rightarrow> router_event list" where
  "notifyOtherNodes r m = notify_loop r m (- 1) (route_table r)"

section \<open>Integrating routes\<close>

definition extend_route :: "u32 \<Rightarrow> route \<Rightarrow> route" where
  "extend_route sender route =
     \<lparr>dest = dest route, cost = cost route + 1, path = sender # path route\<rparr>"

definition integrate_route :: "router \<Rightarrow> route \<Rightarrow> u32 \<Rightarrow> router \<times> bool \<times> router_event list" where
  "integrate_route r route src =
     (let new_destination =
            (rt_first (dest route) (route_table r) = rt_second (dest route) (route_table r));
          (t, installed) = rt_integrate (mk_entry route src) (route_table r)
      in (r\<lparr>route_table := t\<rparr>, installed,
          if new_destination \<and> installed then [EvReachable (dest route)] else []))"

text \<open>
  The loop over the advertised routes: the router, the routes installed (in order), the
  flag \<open>routes_updated\<close> and the signals emitted.
\<close>

fun adv_loop :: "router \<Rightarrow> u32 \<Rightarrow> u32 \<Rightarrow> route list \<Rightarrow> router \<times> route list \<times> bool \<times> router_event list" where
  "adv_loop r sender src [] = (r, [], False, [])"
| "adv_loop r sender src (route # rs) =
     (if dest route = rid r then adv_loop r sender src rs
      else if rid r \<in> set (path route) then adv_loop r sender src rs
      else
        (let new_route = extend_route sender route;
             (r1, installed, evs) = integrate_route r new_route src;
             (r2, adv, updated, evs') = adv_loop r1 sender src rs
         in (r2, (if installed then new_route # adv else adv), installed \<or> updated, evs @ evs')))"

definition integrate_adv :: "router \<Rightarrow> u32 \<Rightarrow> route list \<Rightarrow> u32 \<Rightarrow> router \<times> router_event list" where
  "integrate_adv r sender routes src =
     (if sender = rid r then (r, [])
      else
        (let (r', adv, updated, evs) = adv_loop r sender src routes
         in (r', evs @ (if updated
                        then flood r' (message_of (RouteAdvertisement (rid r) adv)) src
                        else []))))"

section \<open>Revoking routes\<close>

fun rev_loop :: "u32 \<Rightarrow> u32 \<Rightarrow> route list \<Rightarrow> route_table \<Rightarrow> route_table \<times> route list \<times> u32 list \<times> bool" where
  "rev_loop me sender [] t = (t, [], [], False)"
| "rev_loop me sender (route # rs) t =
     (if dest route = me then rev_loop me sender rs t
      else if me \<in> set (path route) then rev_loop me sender rs t
      else
        (let new_route = extend_route sender route
         in case idx_find rkey (rkey new_route) t of
              None \<Rightarrow>
                (let (t', revs, dests, updated) = rev_loop me sender rs t
                 in (t', new_route # revs, dests, updated))
            | Some entry \<Rightarrow>
                (let (t', revs, dests, updated) = rev_loop me sender rs (idx_erase rkey (rkey new_route) t)
                 in (t', new_route # revs, dest entry # dests, True))))"

text \<open>The destinations that lost a route and have none left, once each, in order.\<close>

definition lost_dests :: "u32 list \<Rightarrow> route_table \<Rightarrow> u32 list" where
  "lost_dests effected t = filter (\<lambda>d. rt_count d t = 0) (sort_unique effected)"

definition integrate_rev :: "router \<Rightarrow> u32 \<Rightarrow> route list \<Rightarrow> u32 \<Rightarrow> router \<times> router_event list" where
  "integrate_rev r sender routes src =
     (if sender = rid r then (r, [])
      else
        (let (t, revs, dests, updated) = rev_loop (rid r) sender routes (route_table r);
             r' = r\<lparr>route_table := t\<rparr>
         in (r', (if updated then flood r' (message_of (RouteRevocation (rid r) revs)) src else [])
                 @ map EvUnreachable (lost_dests dests t))))"

text \<open>
  \<open>Router::remove\<close>. The hashed index does not order the entries of one connection; the
  model lists them in table order, which fixes the order of the revoked routes only.
\<close>

definition remove_conn :: "router \<Rightarrow> conn \<Rightarrow> router \<times> router_event list" where
  "remove_conn r c =
     (let dead = filter (\<lambda>e. connection e = Some (conn_id c)) (route_table r);
          t = filter (\<lambda>e. connection e \<noteq> Some (conn_id c)) (route_table r);
          r' = r\<lparr>route_table := t, connections := remove1 c (connections r)\<rparr>
      in (r', [EvStop (conn_id c)]
              @ (if dead \<noteq> [] then broadcast r' (message_of (RouteRevocation (rid r) (map to_route dead))) else [])
              @ map EvUnreachable (lost_dests (map dest dead) t)))"

section \<open>Connection events\<close>

definition get_known_routes :: "router \<Rightarrow> route list" where
  "get_known_routes r = map to_route (route_table r)"

definition self_route :: "router \<Rightarrow> route" where
  "self_route r = \<lparr>dest = rid r, cost = 0, path = []\<rparr>"

definition on_connected :: "router \<Rightarrow> conn \<Rightarrow> router_event list" where
  "on_connected r c =
     [conn_send c (message_of (RouteAdvertisement (rid r) (self_route r # get_known_routes r)))]"

definition add_conn :: "router \<Rightarrow> conn \<Rightarrow> router \<times> router_event list" where
  "add_conn r c =
     (if idx_has ckey (ckey c) (connections r) then (r, [])
      else
        (let r' = r\<lparr>connections := idx_insert ckey c (connections r)\<rparr>
         in (r', EvStart (conn_id c) # on_connected r' c)))"

definition add_peer :: "router \<Rightarrow> ip_address \<Rightarrow> bool \<Rightarrow> router_event list" where
  "add_peer r address immediate =
     (if list_ex (\<lambda>c. remote_ip c = address) (connections r) then []
      else [EvConnect address immediate])"

definition on_disconnect :: "router \<Rightarrow> conn \<Rightarrow> router \<times> router_event list" where
  "on_disconnect r c =
     (let (r', evs) = remove_conn r c in (r', evs @ add_peer r' (remote_ip c) False))"

fun handle_body :: "router \<Rightarrow> message_body \<Rightarrow> conn \<Rightarrow> router \<times> router_event list" where
  "handle_body r (HelloMessage hello) c =
     (if hello_id hello = rid r then remove_conn r c else (r, []))"
| "handle_body r (RouteAdvertisement sender routes) c = integrate_adv r sender routes (conn_id c)"
| "handle_body r (RouteRevocation sender routes) c = integrate_rev r sender routes (conn_id c)"
| "handle_body r _ c = (r, [])"

definition on_message :: "router \<Rightarrow> message_header \<Rightarrow> message \<Rightarrow> conn \<Rightarrow> router \<times> router_event list" where
  "on_message r header m c =
     (if hdest header \<noteq> rid r \<and> hdest header \<noteq> kBroadcastId
      then (r, snd (forward r header m))
      else
        (let (r', evs) = handle_body r (body m) c
         in (r', evs @ [EvReceive m (source header)])))"

section \<open>Starting and stopping\<close>

definition start :: "router \<Rightarrow> u32 \<Rightarrow> string \<Rightarrow> router" where
  "start r i name = (if running r then r else r\<lparr>rname := name, rid := i, running := True\<rparr>)"

fun remove_all :: "router \<Rightarrow> conn list \<Rightarrow> router \<times> router_event list" where
  "remove_all r [] = (r, [])"
| "remove_all r (c # cs) =
     (let (r1, evs) = remove_conn r c; (r2, evs') = remove_all r1 cs in (r2, evs @ evs'))"

definition shutdown :: "router \<Rightarrow> router \<times> router_event list" where
  "shutdown r = (let r' = r\<lparr>running := False\<rparr> in remove_all r' (connections r'))"

text \<open>One round of the hello thread.\<close>

definition hello_round :: "router \<Rightarrow> router_event list" where
  "hello_round r =
     broadcast r (message_of (HelloMessage
       \<lparr>hello_id = rid r, hello_name = rname r, hello_version = None, hello_os = 0\<rparr>))"

text \<open>
  One round of the accept thread: the outcome of \<open>async_accept\<close> and, for a connection that
  is not dropped, of the handshake. \<open>None\<close> is the exception that leaves the thread.
\<close>

datatype accept_outcome = AcceptAborted | AcceptError | Accepted conn bool

datatype loop_control = Continue | Break

fun accept_round :: "router \<Rightarrow> accept_outcome \<Rightarrow> (router \<times> router_event list \<times> loop_control) option" where
  "accept_round r AcceptAborted = Some (r, [], Break)"
| "accept_round r AcceptError = (if \<not> running r then Some (r, [], Break) else None)"
| "accept_round r (Accepted c handshake_ok) =
     (if \<not> running r then Some (r, [], Break)
      else if idx_has ckey (ckey c) (connections r) then Some (r, [], Continue)
      else if \<not> handshake_ok then Some (r, [], Continue)
      else (let (r', evs) = add_conn r c in Some (r', evs, Continue)))"

text \<open>
  The connect thread of \<open>add_peer\<close>. Other threads run while it waits, so the router it sees
  in attempt \<open>k\<close> is an argument, as is the outcome of the attempt. The result is why the
  thread ended, with the value of \<open>attempt\<close> at that point.
\<close>

definition kConnectRetryLimit :: nat where
  "kConnectRetryLimit = 10"

datatype connect_outcome = ConnectTimeout | ConnectError | Connected conn bool

datatype connect_result =
    RouterShutdown nat
  | DroppedDuplicate nat
  | HandshakeFailed nat
  | Established nat conn
  | GaveUp nat

function connect_loop :: "(nat \<Rightarrow> router) \<Rightarrow> (nat \<Rightarrow> connect_outcome) \<Rightarrow> nat \<Rightarrow> connect_result" where
  "connect_loop at out attempt =
     (if kConnectRetryLimit < attempt then GaveUp attempt
      else if \<not> running (at attempt) then RouterShutdown attempt
      else
        (case out attempt of
           ConnectTimeout \<Rightarrow> connect_loop at out (Suc attempt)
         | ConnectError \<Rightarrow> connect_loop at out (Suc attempt)
         | Connected c handshake_ok \<Rightarrow>
             (if idx_has ckey (ckey c) (connections (at attempt)) then DroppedDuplicate attempt
              else if \<not> handshake_ok then HandshakeFailed attempt
              else Established attempt c)))"
  by pat_completeness auto
termination
  by (relation "measure (\<lambda>(at, out, attempt). Suc kConnectRetryLimit - attempt)") auto

declare connect_loop.simps [simp del]

text \<open>
  The thread checks \<open>running_\<close> once before its optional delay (\<open>at 0\<close>).
\<close>

definition connect_thread :: "(nat \<Rightarrow> router) \<Rightarrow> (nat \<Rightarrow> connect_outcome) \<Rightarrow> connect_result" where
  "connect_thread at out = (if \<not> running (at 0) then RouterShutdown 0 else connect_loop at out 1)"

end
