(* ===== verification/Router_Facts.thy ===== *)
theory Router_Facts
  imports Router
begin

text \<open>
  What the operations of the router guarantee: which fields they leave alone, the
  invariant of the state, which signals they emit, and where messages go.
\<close>

section \<open>Observations\<close>

definition dests :: "router \<Rightarrow> u32 set" where
  "dests r = dest ` set (route_table r)"

definition reached :: "router_event list \<Rightarrow> u32 list" where
  "reached evs = concat (map (\<lambda>e. case e of EvReachable d \<Rightarrow> [d] | _ \<Rightarrow> []) evs)"

definition unreached :: "router_event list \<Rightarrow> u32 list" where
  "unreached evs = concat (map (\<lambda>e. case e of EvUnreachable d \<Rightarrow> [d] | _ \<Rightarrow> []) evs)"

definition sends :: "router_event list \<Rightarrow> (u32 \<times> message_header \<times> message) list" where
  "sends evs = concat (map (\<lambda>e. case e of EvSend c h m \<Rightarrow> [(c, h, m)] | _ \<Rightarrow> []) evs)"

lemma observe_append [simp]:
  "reached (xs @ ys) = reached xs @ reached ys"
  "unreached (xs @ ys) = unreached xs @ unreached ys"
  "sends (xs @ ys) = sends xs @ sends ys"
  by (simp_all add: reached_def unreached_def sends_def)

lemma observe_Nil [simp]: "reached [] = []" "unreached [] = []" "sends [] = []"
  by (simp_all add: reached_def unreached_def sends_def)

lemma observe_Cons [simp]:
  "reached (e # es) = (case e of EvReachable d \<Rightarrow> d # reached es | _ \<Rightarrow> reached es)"
  "unreached (e # es) = (case e of EvUnreachable d \<Rightarrow> d # unreached es | _ \<Rightarrow> unreached es)"
  "sends (e # es) = (case e of EvSend c h m \<Rightarrow> (c, h, m) # sends es | _ \<Rightarrow> sends es)"
  by (auto simp: reached_def unreached_def sends_def split: router_event.splits)

lemma observe_map_unreachable [simp]:
  "reached (map EvUnreachable ds) = []" "unreached (map EvUnreachable ds) = ds"
  "sends (map EvUnreachable ds) = []"
  by (induction ds) simp_all

section \<open>Sending loops\<close>

lemma flood_eq:
  "flood r m src =
    (if running r then map (\<lambda>c. conn_send c m) (filter (\<lambda>c. conn_id c \<noteq> src) (connections r)) else [])"
proof -
  have "flood_loop run m src cs =
    (if run then map (\<lambda>c. conn_send c m) (filter (\<lambda>c. conn_id c \<noteq> src) cs) else [])" for run cs
    by (cases run; induction cs) simp_all
  then show ?thesis by (simp add: flood_def)
qed

lemma broadcast_eq:
  "broadcast r m = (if running r then map (\<lambda>c. conn_send c m) (connections r) else [])"
proof -
  have "broadcast_loop run m cs = (if run then map (\<lambda>c. conn_send c m) cs else [])" for run cs
    by (cases run; induction cs) simp_all
  then show ?thesis by (simp add: broadcast_def)
qed

lemma observe_sends [simp]:
  "reached (map (\<lambda>c. conn_send c m) cs) = []" "unreached (map (\<lambda>c. conn_send c m) cs) = []"
  "sends (map (\<lambda>c. conn_send c m) cs) = map (\<lambda>c. (conn_id c, header_of m, m)) cs"
  by (induction cs) (simp_all add: conn_send_def)

lemma observe_flood [simp]: "reached (flood r m src) = []" "unreached (flood r m src) = []"
  by (simp_all add: flood_eq)

lemma observe_broadcast [simp]: "reached (broadcast r m) = []" "unreached (broadcast r m) = []"
  by (simp_all add: broadcast_eq)

section \<open>One route\<close>

lemma integrate_route_frame [frame_simps]:
  assumes "integrate_route r route src = (r', installed, evs)"
  shows "rid r' = rid r" "rname r' = rname r" "running r' = running r" "connections r' = connections r"
  using assms by (auto simp: integrate_route_def Let_def split: prod.splits)

lemma integrate_route_eq:
  "integrate_route r route src =
     (r\<lparr>route_table := fst (rt_integrate (mk_entry route src) (route_table r))\<rparr>,
      snd (rt_integrate (mk_entry route src) (route_table r)),
      if rt_first (dest route) (route_table r) = rt_second (dest route) (route_table r)
         \<and> snd (rt_integrate (mk_entry route src) (route_table r))
      then [EvReachable (dest route)] else [])"
  by (simp add: integrate_route_def Let_def split: prod.splits)

lemma no_routes_iff:
  "idx_wf rkey t \<Longrightarrow> rt_first d t = rt_second d t \<longleftrightarrow> d \<notin> dest ` set t"
  by (simp add: rt_first_split rt_second_split rt_group_Nil_iff[symmetric])

lemma integrate_route_reached:
  assumes "rt_ok (route_table r)" "integrate_route r route src = (r', installed, evs)"
  shows "reached evs = (if dest route \<in> dests r then [] else [dest route])"
    and "unreached evs = []" and "dests r' = insert (dest route) (dests r)"
  using assms rt_new_dest_installed[OF assms(1), of "mk_entry route src"]
    rt_integrate_dests[OF assms(1), of "mk_entry route src"]
  by (auto simp: integrate_route_eq dests_def no_routes_iff[OF rt_ok_wf[OF assms(1)]])

lemma integrate_route_table:
  assumes ok: "rt_ok (route_table r)" and eq: "integrate_route r route src = (r', installed, evs)"
  shows "rt_ok (route_table r')" "sends evs = []"
    "set (route_table r') \<subseteq> insert (mk_entry route src) (set (route_table r))"
proof -
  from eq have t: "route_table r' = fst (rt_integrate (mk_entry route src) (route_table r))"
    and evs: "sends evs = []"
    by (auto simp: integrate_route_eq)
  from t ok show "rt_ok (route_table r')" by (simp add: rt_ok_integrate)
  from evs show "sends evs = []" .
  from t show "set (route_table r') \<subseteq> insert (mk_entry route src) (set (route_table r))"
    using set_rt_integrate[OF ok] by simp
qed

section \<open>A whole advertisement\<close>

text \<open>The routes of an advertisement that are considered at all.\<close>

definition acceptable :: "u32 \<Rightarrow> route \<Rightarrow> bool" where
  "acceptable me route \<longleftrightarrow> dest route \<noteq> me \<and> me \<notin> set (path route)"

lemma adv_loop_Cons_acceptable:
  assumes "acceptable (rid r) route"
    and "integrate_route r (extend_route sender route) src = (r1, installed, evs)"
    and "adv_loop r1 sender src rs = (r2, adv, updated, evs')"
  shows "adv_loop r sender src (route # rs) =
    (r2, (if installed then extend_route sender route # adv else adv), installed \<or> updated, evs @ evs')"
  using assms by (simp add: acceptable_def)

lemma adv_loop_Cons_rejected:
  "\<not> acceptable (rid r) route \<Longrightarrow> adv_loop r sender src (route # rs) = adv_loop r sender src rs"
  by (auto simp: acceptable_def)

declare adv_loop.simps(2) [simp del]

lemma adv_loop_induct [case_names Nil Rejected Accepted]:
  assumes "\<And>r. P r [] (r, [], False, [])"
    and "\<And>r route rs. \<not> acceptable (rid r) route \<Longrightarrow> P r rs (adv_loop r sender src rs) \<Longrightarrow>
      P r (route # rs) (adv_loop r sender src rs)"
    and "\<And>r route rs r1 installed evs r2 adv updated evs'.
      acceptable (rid r) route \<Longrightarrow>
      integrate_route r (extend_route sender route) src = (r1, installed, evs) \<Longrightarrow>
      adv_loop r1 sender src rs = (r2, adv, updated, evs') \<Longrightarrow>
      P r1 rs (r2, adv, updated, evs') \<Longrightarrow>
      P r (route # rs)
        (r2, (if installed then extend_route sender route # adv else adv), installed \<or> updated, evs @ evs')"
  shows "P r rs (adv_loop r sender src rs)"
proof (induction rs arbitrary: r)
  case Nil
  then show ?case using assms(1) by simp
next
  case (Cons route rs)
  show ?case
  proof (cases "acceptable (rid r) route")
    case True
    obtain r1 installed evs where i: "integrate_route r (extend_route sender route) src = (r1, installed, evs)"
      using prod_cases3 by blast
    obtain r2 adv updated evs' where l: "adv_loop r1 sender src rs = (r2, adv, updated, evs')"
      using prod_cases4 by blast
    show ?thesis
      using assms(3)[OF True i l] Cons.IH[of r1] l adv_loop_Cons_acceptable[OF True i l] by simp
  next
    case False
    then show ?thesis using assms(2)[OF False Cons.IH] by (simp add: adv_loop_Cons_rejected)
  qed
qed

lemma adv_loop_frame:
  assumes "adv_loop r sender src rs = (r', adv, updated, evs)"
  shows "rid r' = rid r \<and> rname r' = rname r \<and> running r' = running r \<and> connections r' = connections r"
proof -
  have "case adv_loop r sender src rs of (r', _) \<Rightarrow>
      rid r' = rid r \<and> rname r' = rname r \<and> running r' = running r \<and> connections r' = connections r"
    by (induction rule: adv_loop_induct) (auto dest: integrate_route_frame)
  with assms show ?thesis by simp
qed

lemma adv_loop_ok:
  assumes "rt_ok (route_table r)" "adv_loop r sender src rs = (r', adv, updated, evs)"
  shows "rt_ok (route_table r')"
proof -
  have "rt_ok (route_table r) \<longrightarrow> (case adv_loop r sender src rs of (r', _) \<Rightarrow> rt_ok (route_table r'))"
    by (induction rule: adv_loop_induct) (auto simp: integrate_route_eq rt_ok_integrate)
  with assms show ?thesis by simp
qed

lemma adv_loop_signals:
  assumes "rt_ok (route_table r)" "adv_loop r sender src rs = (r', adv, updated, evs)"
  shows "distinct (reached evs) \<and> set (reached evs) = dests r' - dests r \<and> unreached evs = []
    \<and> dests r' = dests r \<union> dest ` {x \<in> set rs. acceptable (rid r) x}"
proof -
  have "rt_ok (route_table r) \<longrightarrow> (case adv_loop r sender src rs of (r', _, _, evs) \<Rightarrow>
      distinct (reached evs) \<and> set (reached evs) = dests r' - dests r \<and> unreached evs = []
      \<and> dests r' = dests r \<union> dest ` {x \<in> set rs. acceptable (rid r) x})"
  proof (induction rule: adv_loop_induct)
    case (Accepted r route rs r1 installed evs r2 adv updated evs')
    show ?case
    proof (intro impI, clarify)
      assume ok: "rt_ok (route_table r)"
      note one = integrate_route_reached[OF ok Accepted.hyps(2)]
        integrate_route_frame(1)[OF Accepted.hyps(2)]
      have "rt_ok (route_table r1)"
        using Accepted.hyps(2) ok by (auto simp: integrate_route_eq rt_ok_integrate)
      with Accepted.IH one Accepted.hyps(1) show "distinct (reached (evs @ evs')) \<and>
        set (reached (evs @ evs')) = dests r2 - dests r \<and> unreached (evs @ evs') = [] \<and>
        dests r2 = dests r \<union> dest ` {x \<in> set (route # rs). acceptable (rid r) x}"
        by (auto simp: extend_route_def)
    qed
  qed auto
  with assms show ?thesis by simp
qed

lemma adv_loop_routes:
  assumes "rt_ok (route_table r)" "adv_loop r sender src rs = (r', adv, updated, evs)"
  shows "set (route_table r') \<subseteq> set (route_table r) \<union>
      (\<lambda>x. mk_entry (extend_route sender x) src) ` {x \<in> set rs. acceptable (rid r) x}"
    and "set adv \<subseteq> extend_route sender ` {x \<in> set rs. acceptable (rid r) x}"
    and "updated \<longleftrightarrow> adv \<noteq> []" and "sends evs = []"
proof -
  have "rt_ok (route_table r) \<longrightarrow> (case adv_loop r sender src rs of (r', adv, updated, evs) \<Rightarrow>
      set (route_table r') \<subseteq> set (route_table r) \<union>
        (\<lambda>x. mk_entry (extend_route sender x) src) ` {x \<in> set rs. acceptable (rid r) x} \<and>
      set adv \<subseteq> extend_route sender ` {x \<in> set rs. acceptable (rid r) x} \<and>
      (updated \<longleftrightarrow> adv \<noteq> []) \<and> sends evs = [])"
  proof (induction rule: adv_loop_induct)
    case (Accepted r route rs r1 installed evs r2 adv updated evs')
    show ?case
    proof (intro impI, clarify)
      assume ok: "rt_ok (route_table r)"
      have r1: "rt_ok (route_table r1)" "rid r1 = rid r"
        "set (route_table r1) \<subseteq> insert (mk_entry (extend_route sender route) src) (set (route_table r))"
        "sends evs = []"
        using integrate_route_table[OF ok Accepted.hyps(2)] integrate_route_frame[OF Accepted.hyps(2)]
        by simp_all
      with Accepted.IH Accepted.hyps(1) show
        "set (route_table r2) \<subseteq> set (route_table r) \<union>
          (\<lambda>x. mk_entry (extend_route sender x) src) ` {x \<in> set (route # rs). acceptable (rid r) x} \<and>
        set (if installed then extend_route sender route # adv else adv) \<subseteq>
          extend_route sender ` {x \<in> set (route # rs). acceptable (rid r) x} \<and>
        ((installed \<or> updated) = ((if installed then extend_route sender route # adv else adv) \<noteq> [])) \<and>
        sends (evs @ evs') = []"
        by auto
    qed
  qed auto
  with assms show "set (route_table r') \<subseteq> set (route_table r) \<union>
      (\<lambda>x. mk_entry (extend_route sender x) src) ` {x \<in> set rs. acceptable (rid r) x}"
    and "set adv \<subseteq> extend_route sender ` {x \<in> set rs. acceptable (rid r) x}"
    and "updated \<longleftrightarrow> adv \<noteq> []" and "sends evs = []" by simp_all
qed

section \<open>A whole revocation\<close>

text \<open>The key under which an advertised or revoked route is kept by the receiver.\<close>

definition revoked_keys :: "u32 \<Rightarrow> u32 \<Rightarrow> route list \<Rightarrow> route_key set" where
  "revoked_keys me sender rs = (\<lambda>x. rkey (extend_route sender x)) ` {x \<in> set rs. acceptable me x}"

lemma revoked_keys_simps [simp]:
  "revoked_keys me sender [] = {}"
  "revoked_keys me sender (x # rs) =
     (if acceptable me x then insert (rkey (extend_route sender x)) (revoked_keys me sender rs)
      else revoked_keys me sender rs)"
  by (auto simp: revoked_keys_def)

lemma rev_loop_rejected:
  "\<not> acceptable me x \<Longrightarrow> rev_loop me sender (x # rs) t = rev_loop me sender rs t"
  by (auto simp: acceptable_def)

lemma rev_loop_accepted:
  assumes "acceptable me x" "idx_wf rkey t"
  shows "rev_loop me sender (x # rs) t =
    (let q = rkey (extend_route sender x);
         (t', revs, ds, updated) = rev_loop me sender rs (filter (\<lambda>e. rkey e \<noteq> q) t)
     in (t', extend_route sender x # revs,
         (if q \<in> rkey ` set t then dest x # ds else ds), q \<in> rkey ` set t \<or> updated))"
proof (cases "idx_find rkey (rkey (extend_route sender x)) t")
  case None
  then have absent: "rkey (extend_route sender x) \<notin> rkey ` set t"
    by (simp add: idx_find_None del: rkey_eq_iff)
  then have "filter (\<lambda>e. rkey e \<noteq> rkey (extend_route sender x)) t = t"
    by (auto simp: filter_id_conv in_image_iff simp del: rkey_eq_iff)
  with None absent assms show ?thesis
    by (simp add: acceptable_def Let_def del: rkey_eq_iff)
next
  case (Some e)
  then have found: "e \<in> set t" "rkey e = rkey (extend_route sender x)"
    using idx_find_Some[OF Some] by blast+
  then have "rkey (extend_route sender x) \<in> rkey ` set t" "dest e = dest x"
    by (metis image_eqI) (use found in \<open>simp add: extend_route_def\<close>)
  with Some assms show ?thesis
    by (simp add: acceptable_def Let_def idx_erase_filter del: rkey_eq_iff split: prod.splits)
qed

declare rev_loop.simps(2) [simp del]

lemma rev_loop_table:
  assumes "rev_loop me sender rs t = (t', revs, ds, updated)" "idx_wf rkey t"
  shows "t' = filter (\<lambda>e. rkey e \<notin> revoked_keys me sender rs) t \<and>
    set ds = dest ` {e \<in> set t. rkey e \<in> revoked_keys me sender rs} \<and>
    set revs = extend_route sender ` {x \<in> set rs. acceptable me x} \<and>
    (updated \<longleftrightarrow> (\<exists>e\<in>set t. rkey e \<in> revoked_keys me sender rs))"
  using assms
proof (induction rs arbitrary: t t' revs ds updated)
  case Nil
  then show ?case by simp
next
  case (Cons x rs)
  show ?case
  proof (cases "acceptable me x")
    case False
    have "{y. (y = x \<or> y \<in> set rs) \<and> acceptable me y} = {y \<in> set rs. acceptable me y}"
      using False by auto
    with False Cons show ?thesis by (simp add: rev_loop_rejected)
  next
    case True
    let ?q = "rkey (extend_route sender x)"
    let ?t = "filter (\<lambda>e. rkey e \<noteq> ?q) t"
    obtain u revs' ds' updated' where l: "rev_loop me sender rs ?t = (u, revs', ds', updated')"
      using prod_cases4 by blast
    note eq = Cons.prems(1)[unfolded rev_loop_accepted[OF True Cons.prems(2)] Let_def l prod.case]
    note IH = Cons.IH[OF l idx_wf_filter[OF Cons.prems(2)]]
    have d: "dest e = dest x" if "rkey e = ?q" for e :: route_entry
      using that by (simp add: extend_route_def)
    show ?thesis
    proof (intro conjI)
      show "t' = filter (\<lambda>e. rkey e \<notin> revoked_keys me sender (x # rs)) t"
        using eq IH True by (simp add: conj_commute del: rkey_eq_iff)
      show "set ds = dest ` {e \<in> set t. rkey e \<in> revoked_keys me sender (x # rs)}"
      proof -
        have "{e \<in> set t. rkey e \<in> revoked_keys me sender (x # rs)} =
          {e \<in> set t. rkey e = ?q} \<union> {e \<in> set ?t. rkey e \<in> revoked_keys me sender rs}"
          using True by (auto simp del: rkey_eq_iff)
        moreover have "dest ` {e \<in> set t. rkey e = ?q} = (if ?q \<in> rkey ` set t then {dest x} else {})"
          using d by (auto simp: in_image_iff simp del: rkey_eq_iff)
        ultimately show ?thesis
          using eq IH by (cases "?q \<in> rkey ` set t") (auto simp: image_Un simp del: rkey_eq_iff revoked_keys_simps)
      qed
      show "set revs = extend_route sender ` {y \<in> set (x # rs). acceptable me y}"
        using eq IH True by auto
      show "updated \<longleftrightarrow> (\<exists>e\<in>set t. rkey e \<in> revoked_keys me sender (x # rs))"
        using eq IH True by (auto simp: in_image_iff simp del: rkey_eq_iff)
    qed
  qed
qed

section \<open>The invariant\<close>

text \<open>
  The tables are well formed, connection ids are unique, every route belongs to a connection
  of the router, and no route leads to the router itself or through it.
\<close>

definition conns_ok :: "router \<Rightarrow> bool" where
  "conns_ok r \<longleftrightarrow> idx_wf ckey (connections r) \<and> distinct (map conn_id (connections r))"

definition owned :: "router \<Rightarrow> bool" where
  "owned r \<longleftrightarrow> (\<forall>e\<in>set (route_table r). \<exists>c\<in>set (connections r). connection e = Some (conn_id c))"

definition loop_free :: "router \<Rightarrow> bool" where
  "loop_free r \<longleftrightarrow> (\<forall>e\<in>set (route_table r). dest e \<noteq> rid r \<and> rid r \<notin> set (path e))"

definition core_ok :: "router \<Rightarrow> bool" where
  "core_ok r \<longleftrightarrow> rt_ok (route_table r) \<and> conns_ok r \<and> owned r"

definition router_ok :: "router \<Rightarrow> bool" where
  "router_ok r \<longleftrightarrow> core_ok r \<and> loop_free r"

lemma core_okD:
  assumes "core_ok r"
  shows "rt_ok (route_table r)" "idx_wf rkey (route_table r)" "conns_ok r" "owned r"
  using assms by (simp_all add: core_ok_def rt_ok_def)

lemma router_okD:
  assumes "router_ok r"
  shows "rt_ok (route_table r)" "idx_wf rkey (route_table r)" "conns_ok r" "owned r" "loop_free r"
    "core_ok r"
  using assms by (simp_all add: router_ok_def core_ok_def rt_ok_def)

lemma integrate_adv_state:
  assumes "integrate_adv r sender routes src = (r', evs)"
  shows "rid r' = rid r" "running r' = running r" "connections r' = connections r"
proof -
  obtain r1 adv updated evs1 where l: "adv_loop r sender src routes = (r1, adv, updated, evs1)"
    using prod_cases4 by blast
  show "rid r' = rid r" "running r' = running r" "connections r' = connections r"
    using assms adv_loop_frame[OF l] by (auto simp: integrate_adv_def l split: if_splits)
qed

lemma integrate_adv_routes:
  assumes "rt_ok (route_table r)" "integrate_adv r sender routes src = (r', evs)"
  shows "rt_ok (route_table r')"
    and "set (route_table r') \<subseteq> set (route_table r) \<union>
      (\<lambda>x. mk_entry (extend_route sender x) src) ` {x \<in> set routes. sender \<noteq> rid r \<and> acceptable (rid r) x}"
proof -
  obtain r1 adv updated evs1 where l: "adv_loop r sender src routes = (r1, adv, updated, evs1)"
    using prod_cases4 by blast
  note facts = adv_loop_ok[OF assms(1) l] adv_loop_routes[OF assms(1) l]
  show "rt_ok (route_table r')"
    using assms facts by (auto simp: integrate_adv_def l split: if_splits)
  show "set (route_table r') \<subseteq> set (route_table r) \<union>
      (\<lambda>x. mk_entry (extend_route sender x) src) ` {x \<in> set routes. sender \<noteq> rid r \<and> acceptable (rid r) x}"
    using assms(2) facts by (auto simp: integrate_adv_def l split: if_splits)
qed

lemma integrate_adv_core [inv_intros]:
  assumes ok: "core_ok r" and eq: "integrate_adv r sender routes src = (r', evs)"
    and src: "src \<in> conn_id ` set (connections r)"
  shows "core_ok r'"
proof -
  note D = core_okD[OF ok]
  note st = integrate_adv_state[OF eq] and rt = integrate_adv_routes[OF D(1) eq]
  have "owned r'"
    unfolding owned_def
  proof
    fix e assume "e \<in> set (route_table r')"
    then consider "e \<in> set (route_table r)" | "connection e = Some src"
      using rt(2) by auto
    then show "\<exists>c\<in>set (connections r'). connection e = Some (conn_id c)"
      using D(4) src st by cases (auto simp: owned_def)
  qed
  then show ?thesis using D(3) st rt(1) by (simp add: core_ok_def conns_ok_def)
qed

lemma integrate_adv_loop_free [inv_intros]:
  assumes "loop_free r" "rt_ok (route_table r)" "integrate_adv r sender routes src = (r', evs)"
  shows "loop_free r'"
  using assms(1) integrate_adv_routes(2)[OF assms(2,3)] integrate_adv_state(1)[OF assms(3)]
  by (fastforce simp: loop_free_def extend_route_def acceptable_def)

lemma integrate_rev_eq:
  assumes "idx_wf rkey (route_table r)" "integrate_rev r sender routes src = (r', evs)" "sender \<noteq> rid r"
  shows "r' = r\<lparr>route_table :=
    filter (\<lambda>e. rkey e \<notin> revoked_keys (rid r) sender routes) (route_table r)\<rparr>"
proof -
  obtain t revs ds updated where l: "rev_loop (rid r) sender routes (route_table r) = (t, revs, ds, updated)"
    using prod_cases4 by blast
  show ?thesis
    using assms rev_loop_table[OF l assms(1)] by (simp add: integrate_rev_def l Let_def)
qed

lemma fewer_routes:
  "core_ok r \<Longrightarrow> core_ok (r\<lparr>route_table := filter P (route_table r)\<rparr>)"
  "loop_free r \<Longrightarrow> loop_free (r\<lparr>route_table := filter P (route_table r)\<rparr>)"
  by (auto simp: core_ok_def conns_ok_def owned_def loop_free_def rt_ok_filter)

lemma integrate_rev_fewer:
  assumes "idx_wf rkey (route_table r)" "integrate_rev r sender routes src = (r', evs)"
  shows "\<exists>P. r' = r\<lparr>route_table := filter P (route_table r)\<rparr>"
proof (cases "sender = rid r")
  case True
  then have "r' = r\<lparr>route_table := filter (\<lambda>_. True) (route_table r)\<rparr>"
    using assms by (simp add: integrate_rev_def)
  then show ?thesis by blast
next
  case False
  then show ?thesis using integrate_rev_eq[OF assms] by blast
qed

lemma integrate_rev_inv [inv_intros]:
  assumes "idx_wf rkey (route_table r)" "integrate_rev r sender routes src = (r', evs)"
  shows "core_ok r \<Longrightarrow> core_ok r'" "loop_free r \<Longrightarrow> loop_free r'"
  using integrate_rev_fewer[OF assms] fewer_routes by blast+

lemma remove_conn_state:
  assumes "remove_conn r c = (r', evs)"
  shows "r' = r\<lparr>route_table := filter (\<lambda>e. connection e \<noteq> Some (conn_id c)) (route_table r),
    connections := remove1 c (connections r)\<rparr>"
  using assms by (auto simp: remove_conn_def Let_def)

lemma idx_wf_remove1: "idx_wf k xs \<Longrightarrow> idx_wf k (remove1 x xs)"
  by (induction xs) (auto dest: set_remove1_subset[THEN subsetD])

lemma distinct_map_remove1: "distinct (map f xs) \<Longrightarrow> distinct (map f (remove1 x xs))"
  by (induction xs) (auto dest: set_remove1_subset[THEN subsetD])

lemma conns_distinct: "conns_ok r \<Longrightarrow> distinct (connections r)"
  by (simp add: conns_ok_def distinct_map)

lemma remove_conn_core [inv_intros]:
  assumes ok: "core_ok r" and eq: "remove_conn r c = (r', evs)"
  shows "core_ok r'"
proof -
  note D = core_okD[OF ok] and st = remove_conn_state[OF eq]
  have "owned r'"
    using D(4) st conns_distinct[OF D(3)] by (auto simp: owned_def set_remove1_eq)
  moreover have "conns_ok r'"
    using D(3) st by (simp add: conns_ok_def idx_wf_remove1 distinct_map_remove1)
  ultimately show ?thesis
    using D st by (simp add: core_ok_def rt_ok_filter)
qed

lemma remove_conn_loop_free [inv_intros]:
  "loop_free r \<Longrightarrow> remove_conn r c = (r', evs) \<Longrightarrow> loop_free r'"
  by (drule remove_conn_state) (simp add: loop_free_def)

lemma add_conn_loop_free [inv_intros]:
  "loop_free r \<Longrightarrow> add_conn r c = (r', evs) \<Longrightarrow> loop_free r'"
  by (auto simp: add_conn_def Let_def loop_free_def split: if_splits)

lemma add_conn_core [inv_intros]:
  assumes ok: "core_ok r" and eq: "add_conn r c = (r', evs)"
    and fresh: "conn_id c \<notin> conn_id ` set (connections r)"
  shows "core_ok r'"
proof (cases "idx_has ckey (ckey c) (connections r)")
  case True
  then show ?thesis using assms by (simp add: add_conn_def)
next
  case False
  let ?cs = "idx_insert ckey c (connections r)"
  note D = core_okD[OF ok]
  have wf: "idx_wf ckey (connections r)" using D(3) by (simp add: conns_ok_def)
  have r': "r' = r\<lparr>connections := ?cs\<rparr>"
    using eq False by (auto simp: add_conn_def Let_def)
  have set: "set ?cs = insert c (set (connections r))"
    using False set_idx_insert[OF wf, of c] by (simp add: idx_has_iff)
  have "distinct (map conn_id ?cs)"
  proof -
    have "inj_on conn_id (set ?cs)"
      using D(3) fresh unfolding set by (simp add: conns_ok_def distinct_map image_iff)
    moreover have "distinct ?cs" using conn_index.distinct_elems[OF idx_wf_insert[OF wf]] .
    ultimately show ?thesis by (simp add: distinct_map)
  qed
  then show ?thesis
    using D r' set wf idx_wf_insert[OF wf, of c]
    by (auto simp: core_ok_def conns_ok_def owned_def)
qed

lemma handle_body_core:
  assumes "core_ok r" "handle_body r b c = (r', evs)" "c \<in> set (connections r)"
  shows "core_ok r'"
  using assms core_okD[OF assms(1)] by (cases b) (auto intro: inv_intros split: if_splits)

lemma handle_body_loop_free:
  assumes "loop_free r" "rt_ok (route_table r)" "handle_body r b c = (r', evs)"
  shows "loop_free r'"
  using assms rt_ok_wf[OF assms(2)] by (cases b) (auto intro: inv_intros split: if_splits)

lemma on_message_core [inv_intros]:
  assumes "core_ok r" "on_message r header m c = (r', evs)" "c \<in> set (connections r)"
  shows "core_ok r'"
  using assms by (auto simp: on_message_def split: if_splits prod.splits intro: handle_body_core)

lemma on_message_loop_free [inv_intros]:
  assumes "loop_free r" "rt_ok (route_table r)" "on_message r header m c = (r', evs)"
  shows "loop_free r'"
  using assms by (auto simp: on_message_def split: if_splits prod.splits intro: handle_body_loop_free)

lemma remove_all_inv:
  assumes "remove_all r cs = (r', evs)" "core_ok r"
  shows "core_ok r' \<and> (loop_free r \<longrightarrow> loop_free r')"
  using assms
proof (induction cs arbitrary: r r' evs)
  case (Cons c cs)
  obtain r1 evs1 where one: "remove_conn r c = (r1, evs1)" using prod.exhaust by blast
  obtain r2 evs2 where rest: "remove_all r1 cs = (r2, evs2)" using prod.exhaust by blast
  have "core_ok r1" "loop_free r \<longrightarrow> loop_free r1"
    using one Cons.prems(2) by (auto intro: inv_intros)
  then show ?case using Cons.IH[OF rest] Cons.prems(1) one rest by simp
qed simp

lemma not_running: "core_ok (r\<lparr>running := b\<rparr>) = core_ok r" "loop_free (r\<lparr>running := b\<rparr>) = loop_free r"
  by (simp_all add: core_ok_def conns_ok_def owned_def loop_free_def)

lemma shutdown_inv [inv_intros]:
  assumes "shutdown r = (r', evs)" "core_ok r"
  shows "core_ok r'" "loop_free r \<Longrightarrow> loop_free r'"
  using assms remove_all_inv[of "r\<lparr>running := False\<rparr>" "connections r" r' evs]
  by (auto simp: shutdown_def not_running)

end
