(* ===== verification/Best_Routes.thy ===== *)
theory Best_Routes
  imports Router_Facts
begin

text \<open>
  What a whole advertisement leaves in the table: of the keys that were there and those that were
  advertised, for every destination the three least, each with the entry it had.
\<close>

section \<open>The best keys of a set\<close>

definition better :: "route_key set \<Rightarrow> route_key \<Rightarrow> route_key set" where
  "better S k = {x \<in> S. k_dest x = k_dest k \<and> x < k}"

definition best_keys :: "route_key set \<Rightarrow> route_key set" where
  "best_keys S = {k \<in> S. card (better S k) < kDestRouteLimit}"

lemma finite_better [simp]: "finite S \<Longrightarrow> finite (better S k)"
  by (simp add: better_def)

lemma better_mono: "S \<subseteq> T \<Longrightarrow> better S k \<subseteq> better T k"
  by (auto simp: better_def)

lemma best_keys_subset: "best_keys S \<subseteq> S"
  by (auto simp: best_keys_def)

lemma best_keys_antimono:
  assumes "finite T" "S \<subseteq> T" "k \<in> S" "k \<in> best_keys T"
  shows "k \<in> best_keys S"
  using card_mono [OF finite_better [OF assms(1)] better_mono [OF assms(2)], of k] assms(3,4)
  by (auto simp: best_keys_def)

text \<open>If three keys are better than a key, then so are three of the best.\<close>

lemma best_are_enough:
  assumes "finite S" "n \<le> card (better S y)" "n \<le> kDestRouteLimit"
  shows "n \<le> card (better (best_keys S) y)"
proof -
  let ?B = "better S y" and ?xs = "sorted_list_of_set (better S y)"
  have xs: "sorted_wrt (<) ?xs" "set ?xs = ?B" "length ?xs = card ?B"
    using assms(1) by (simp_all add: strict_sorted_list_of_set)
  have "set (take n ?xs) \<subseteq> better (best_keys S) y"
  proof
    fix x
    assume "x \<in> set (take n ?xs)"
    then obtain i where i: "i < n" "i < length ?xs" "x = ?xs ! i"
      by (auto simp: in_set_conv_nth)
    then have x: "x \<in> ?B"
      using xs(2) nth_mem by blast
    have "better S x \<subseteq> set (take i ?xs)"
    proof
      fix z
      assume z: "z \<in> better S x"
      then have "z \<in> ?B"
        using x by (auto simp: better_def)
      then obtain j where j: "j < length ?xs" "z = ?xs ! j"
        using xs(2) by (metis in_set_conv_nth)
      have "j < i"
      proof (rule ccontr)
        assume "\<not> j < i"
        then have "i = j \<or> x < z"
          using sorted_wrt_nth_less [OF xs(1), of i j] i j by (cases "i = j") auto
        then show False
          using z i j by (auto simp: better_def)
      qed
      then show "z \<in> set (take i ?xs)"
        using i j by (auto simp: in_set_conv_nth intro: exI [of _ j])
    qed
    then have "card (better S x) \<le> i"
      using card_mono [of "set (take i ?xs)" "better S x"] card_length [of "take i ?xs"] by simp
    then have "x \<in> best_keys S"
      using i(1) assms(3) x by (auto simp: best_keys_def better_def)
    then show "x \<in> better (best_keys S) y"
      using x by (auto simp: better_def)
  qed
  moreover have "card (set (take n ?xs)) = n"
    using assms(2) xs by (simp add: distinct_card)
  moreover have "finite (better (best_keys S) y)"
    using assms(1) best_keys_subset finite_subset by (intro finite_better) blast
  ultimately show ?thesis
    using card_mono by metis
qed

text \<open>Choosing the best step by step is choosing the best at the end.\<close>

lemma best_absorb:
  assumes "finite S" "finite A"
  shows "best_keys (best_keys S \<union> A) = best_keys (S \<union> A)"
proof (rule set_eqI)
  fix x
  have fin: "finite (S \<union> A)" "finite (best_keys S \<union> A)"
    using assms best_keys_subset [of S] finite_subset by auto
  have sub: "best_keys S \<union> A \<subseteq> S \<union> A"
    using best_keys_subset [of S] by auto
  show "x \<in> best_keys (best_keys S \<union> A) \<longleftrightarrow> x \<in> best_keys (S \<union> A)"
  proof
    assume x: "x \<in> best_keys (S \<union> A)"
    then have "x \<in> best_keys S \<union> A"
      using best_keys_antimono [OF fin(1), of S x] by (auto simp: best_keys_def)
    then show "x \<in> best_keys (best_keys S \<union> A)"
      by (rule best_keys_antimono [OF fin(1) sub _ x])
  next
    assume x: "x \<in> best_keys (best_keys S \<union> A)"
    show "x \<in> best_keys (S \<union> A)"
    proof (rule ccontr)
      assume "x \<notin> best_keys (S \<union> A)"
      then have many: "kDestRouteLimit \<le> card (better (S \<union> A) x)"
        using x sub by (auto simp: best_keys_def)
      have "kDestRouteLimit \<le> card (better (best_keys S \<union> A) x)"
      proof (cases "better S x \<subseteq> best_keys S")
        case True
        then have "better (S \<union> A) x \<subseteq> better (best_keys S \<union> A) x"
          by (auto simp: better_def)
        then show ?thesis
          using many card_mono [OF finite_better [OF fin(2)]] le_trans by blast
      next
        case False
        then obtain y where y: "y \<in> better S x" "y \<notin> best_keys S"
          by blast
        then have "kDestRouteLimit \<le> card (better S y)"
          by (auto simp: best_keys_def better_def)
        then have "kDestRouteLimit \<le> card (better (best_keys S) y)"
          using best_are_enough [OF assms(1)] by blast
        moreover have "better (best_keys S) y \<subseteq> better (best_keys S \<union> A) x"
          using y(1) by (auto simp: better_def)
        ultimately show ?thesis
          using card_mono [OF finite_better [OF fin(2)]] le_trans by blast
      qed
      then show False
        using x by (simp add: best_keys_def)
    qed
  qed
qed

section \<open>The keys of a table\<close>

abbreviation keys_of :: "route_table \<Rightarrow> route_key set" where
  "keys_of t \<equiv> rkey ` set t"

lemma k_dest_rkey [simp]: "k_dest (rkey e) = dest e"
  by (simp add: rkey_def)

lemma keys_of_group: "keys_of (rt_group d t) = {k \<in> keys_of t. k_dest k = d}"
  by (auto simp: rt_group_def simp del: rkey_eq_iff)

lemma keys_of_take:
  "idx_wf rkey t \<Longrightarrow> keys_of (take n t) = {k \<in> keys_of t. card {x \<in> keys_of t. x < k} < n}"
proof (induction t arbitrary: n)
  case (Cons e t)
  show ?case
  proof (cases n)
    case (Suc m)
    have least: "{x \<in> keys_of (e # t). x < rkey e} = {}"
      using Cons.prems by (auto simp del: rkey_eq_iff)
    have more: "card {x \<in> keys_of (e # t). x < k} = Suc (card {x \<in> keys_of t. x < k})" if "k \<in> keys_of t" for k
    proof -
      have "{x \<in> keys_of (e # t). x < k} = insert (rkey e) {x \<in> keys_of t. x < k}"
        using Cons.prems that by (auto simp del: rkey_eq_iff)
      moreover have "rkey e \<notin> {x \<in> keys_of t. x < k}"
        using Cons.prems by (auto simp del: rkey_eq_iff)
      ultimately show ?thesis
        by simp
    qed
    have "k \<in> keys_of (take n (e # t)) \<longleftrightarrow>
        k \<in> keys_of (e # t) \<and> card {x \<in> keys_of (e # t). x < k} < n" for k
    proof (cases "k = rkey e")
      case True
      show ?thesis
        unfolding True least by (simp add: Suc)
    next
      case False
      have A: "k \<in> keys_of (take n (e # t)) \<longleftrightarrow> k \<in> keys_of t \<and> card {x \<in> keys_of t. x < k} < m"
        using Cons.IH [of m] Cons.prems False by (simp add: Suc del: rkey_eq_iff)
      have B: "k \<in> keys_of (e # t) \<longleftrightarrow> k \<in> keys_of t"
        using False by simp
      show ?thesis
      proof (cases "k \<in> keys_of t")
        case True
        show ?thesis
          unfolding Suc A [unfolded Suc] B more [OF True] Suc_less_eq ..
      next
        case False
        then show ?thesis
          unfolding A B by blast
      qed
    qed
    then show ?thesis
      by blast
  qed simp
qed simp

lemma better_in_group:
  assumes "rt_ok t" "k \<in> keys_of t"
  shows "card (better (keys_of t) k) < kDestRouteLimit"
proof -
  let ?G = "rt_group (k_dest k) t"
  have "better (keys_of t) k \<subseteq> keys_of ?G - {k}" "k \<in> keys_of ?G"
    using assms(2) by (auto simp: better_def keys_of_group simp del: rkey_eq_iff)
  then have "card (better (keys_of t) k) < card (keys_of ?G)"
    by (intro psubset_card_mono) auto
  also have "\<dots> \<le> length ?G"
    using card_length [of "map rkey ?G"] by simp
  also have "\<dots> \<le> kDestRouteLimit"
    using assms(1) by (simp add: rt_ok_def rt_count_group)
  finally show ?thesis .
qed

lemma best_keys_table: "rt_ok t \<Longrightarrow> best_keys (keys_of t) = keys_of t"
  by (auto simp: best_keys_def better_in_group simp del: rkey_eq_iff)

lemma keys_of_integrate:
  assumes "rt_ok t"
  shows "keys_of (fst (rt_integrate e t)) = best_keys (insert (rkey e) (keys_of t))"
proof (rule set_eqI)
  fix k
  let ?t = "fst (rt_integrate e t)" and ?d = "k_dest k"
  have k: "k \<in> keys_of ?t \<longleftrightarrow> k \<in> keys_of (rt_group ?d ?t)"
    by (simp add: keys_of_group)
  show "k \<in> keys_of ?t \<longleftrightarrow> k \<in> best_keys (insert (rkey e) (keys_of t))"
  proof (cases "?d = dest e")
    case True
    let ?G = "rt_group (dest e) t"
    have wf: "idx_wf rkey ?G"
      by (rule group_facts(1) [OF assms])
    have "keys_of (idx_insert rkey e ?G) = insert (rkey e) (keys_of ?G)"
      using set_idx_insert [OF wf, of e] by (auto simp del: rkey_eq_iff)
    then have "k \<in> keys_of ?t \<longleftrightarrow> k \<in> insert (rkey e) (keys_of ?G) \<and>
        card {x \<in> insert (rkey e) (keys_of ?G). x < k} < kDestRouteLimit"
      using keys_of_take [OF idx_wf_insert [OF wf, of e], of kDestRouteLimit]
      by (simp add: k rt_group_integrate [OF assms] True best_routes_def del: rkey_eq_iff)
    moreover have "{x \<in> insert (rkey e) (keys_of ?G). x < k} = better (insert (rkey e) (keys_of t)) k"
      using True by (auto simp: better_def keys_of_group simp del: rkey_eq_iff)
    moreover have "k \<in> insert (rkey e) (keys_of ?G) \<longleftrightarrow> k \<in> insert (rkey e) (keys_of t)"
      using True by (auto simp: keys_of_group simp del: rkey_eq_iff)
    ultimately show ?thesis
      by (simp add: best_keys_def del: rkey_eq_iff)
  next
    case False
    then have "k \<in> keys_of ?t \<longleftrightarrow> k \<in> keys_of t"
      by (simp add: k rt_group_integrate [OF assms] keys_of_group)
    moreover have "better (insert (rkey e) (keys_of t)) k = better (keys_of t) k" "k \<noteq> rkey e"
      using False by (auto simp: better_def simp del: rkey_eq_iff)
    ultimately show ?thesis
      using better_in_group [OF assms, of k] by (auto simp: best_keys_def simp del: rkey_eq_iff)
  qed
qed

lemma old_entry_stays:
  assumes "rt_ok t" "y \<in> set (fst (rt_integrate e t))" "rkey y \<in> keys_of t"
  shows "y \<in> set t"
proof (cases "rkey e \<in> keys_of t")
  case True
  then show ?thesis
    using rt_integrate_present [OF True rt_ok_wf [OF assms(1)]] assms(2) by simp
next
  case False
  then show ?thesis
    using set_rt_integrate [OF assms(1), of e] assms(2,3) by (auto simp del: rkey_eq_iff)
qed

section \<open>A whole advertisement\<close>

lemma adv_loop_keys:
  assumes "rt_ok (route_table r)" "adv_loop r sender src rs = (r', adv, updated, evs)"
  shows "keys_of (route_table r') = best_keys (keys_of (route_table r) \<union> revoked_keys (rid r) sender rs)"
    and "y \<in> set (route_table r') \<Longrightarrow> rkey y \<in> keys_of (route_table r) \<Longrightarrow> y \<in> set (route_table r)"
proof -
  have fin: "finite (revoked_keys me sender rs)" for me rs
    by (simp add: revoked_keys_def)
  have "rt_ok (route_table r) \<longrightarrow> (case adv_loop r sender src rs of (r', _) \<Rightarrow>
      keys_of (route_table r') = best_keys (keys_of (route_table r) \<union> revoked_keys (rid r) sender rs) \<and>
      (\<forall>y\<in>set (route_table r'). rkey y \<in> keys_of (route_table r) \<longrightarrow> y \<in> set (route_table r)))"
  proof (induction rule: adv_loop_induct)
    case (Nil r)
    then show ?case
      by (simp add: best_keys_table)
  next
    case (Rejected r route rs)
    then show ?case
      by simp
  next
    case (Accepted r route rs r1 installed evs r2 adv updated evs')
    let ?K = "keys_of (route_table r)" and ?K1 = "keys_of (route_table r1)" and ?A = "revoked_keys (rid r) sender rs"
    let ?e = "mk_entry (extend_route sender route) src"
    show ?case
    proof (intro impI)
      assume ok: "rt_ok (route_table r)"
      have r1: "route_table r1 = fst (rt_integrate ?e (route_table r))" "rid r1 = rid r"
        using Accepted.hyps(2) by (auto simp: integrate_route_eq)
      have ok1: "rt_ok (route_table r1)"
        unfolding r1 by (rule rt_ok_integrate [OF ok])
      have K1: "?K1 = best_keys (insert (rkey ?e) ?K)"
        unfolding r1 by (rule keys_of_integrate [OF ok])
      have K2: "keys_of (route_table r2) = best_keys (?K1 \<union> ?A)"
        and old: "\<forall>y\<in>set (route_table r2). rkey y \<in> ?K1 \<longrightarrow> y \<in> set (route_table r1)"
        using Accepted.IH ok1 by (simp_all add: r1(2) del: rkey_eq_iff)
      have all: "keys_of (route_table r2) = best_keys (insert (rkey ?e) ?K \<union> ?A)"
        unfolding K2 K1 by (rule best_absorb) (simp_all add: fin)
      have "y \<in> set (route_table r)" if y: "y \<in> set (route_table r2)" "rkey y \<in> ?K" for y
      proof -
        have best: "rkey y \<in> best_keys (insert (rkey ?e) ?K \<union> ?A)"
          unfolding all [symmetric] using y(1) by (rule imageI)
        have "rkey y \<in> ?K1"
          unfolding K1 by (rule best_keys_antimono [OF _ Un_upper1 insertI2 [OF y(2)] best]) (simp add: fin)
        then have "y \<in> set (route_table r1)"
          using old y(1) by blast
        then show ?thesis
          unfolding r1(1) by (rule old_entry_stays [OF ok _ y(2)])
      qed
      then show "case (r2, if installed then extend_route sender route # adv else adv, installed \<or> updated, evs @ evs') of
        (r', _) \<Rightarrow> keys_of (route_table r') = best_keys (?K \<union> revoked_keys (rid r) sender (route # rs)) \<and>
          (\<forall>y\<in>set (route_table r'). rkey y \<in> ?K \<longrightarrow> y \<in> set (route_table r))"
        using all Accepted.hyps(1) by (simp add: Un_commute del: rkey_eq_iff)
    qed
  qed
  note result = this [unfolded assms(2) prod.case, rule_format, OF assms(1)]
  show "keys_of (route_table r') = best_keys (keys_of (route_table r) \<union> revoked_keys (rid r) sender rs)"
    using result by blast
  show "y \<in> set (route_table r') \<Longrightarrow> rkey y \<in> keys_of (route_table r) \<Longrightarrow> y \<in> set (route_table r)"
    using result by blast
qed

lemma integrate_adv_keys:
  assumes "rt_ok (route_table r)" "integrate_adv r sender routes src = (r', evs)" "sender \<noteq> rid r"
  shows "r' = r\<lparr>route_table := route_table r'\<rparr>"
    and "keys_of (route_table r') = best_keys (keys_of (route_table r) \<union> revoked_keys (rid r) sender routes)"
    and "y \<in> set (route_table r') \<Longrightarrow> rkey y \<in> keys_of (route_table r) \<Longrightarrow> y \<in> set (route_table r)"
proof -
  obtain r1 adv updated evs1 where l: "adv_loop r sender src routes = (r1, adv, updated, evs1)"
    using prod_cases4 by blast
  have r': "r' = r1"
    using assms(2,3) by (simp add: integrate_adv_def l)
  show "r' = r\<lparr>route_table := route_table r'\<rparr>"
    using adv_loop_frame [OF l] by (simp add: r')
  show "keys_of (route_table r') = best_keys (keys_of (route_table r) \<union> revoked_keys (rid r) sender routes)"
    "y \<in> set (route_table r') \<Longrightarrow> rkey y \<in> keys_of (route_table r) \<Longrightarrow> y \<in> set (route_table r)"
    unfolding r' by (rule adv_loop_keys [OF assms(1) l], assumption?)+
qed

section \<open>An advertisement and its revocation\<close>

lemma revoked_after_advertised:
  assumes "rt_ok (route_table r)" "sender \<noteq> rid r"
    and "integrate_adv r sender routes src = (r1, evs)"
    and "integrate_rev r1 sender routes src' = (r2, evs')"
  shows "r2 = r\<lparr>route_table := filter (\<lambda>e. rkey e \<notin> revoked_keys (rid r) sender routes \<and>
    rkey e \<in> best_keys (keys_of (route_table r) \<union> revoked_keys (rid r) sender routes)) (route_table r)\<rparr>"
proof -
  let ?K = "revoked_keys (rid r) sender routes" and ?t = "route_table r" and ?t1 = "route_table r1"
  note adv = integrate_adv_keys [OF assms(1,3,2)]
  have ok1: "rt_ok ?t1"
    by (rule integrate_adv_routes(1) [OF assms(1,3)])
  have rid: "rid r1 = rid r"
    by (subst adv(1)) simp
  have "r2 = r1\<lparr>route_table := filter (\<lambda>e. rkey e \<notin> ?K) ?t1\<rparr>"
    using integrate_rev_eq [OF rt_ok_wf [OF ok1] assms(4)] assms(2) by (simp add: rid)
  then have r2: "r2 = r\<lparr>route_table := filter (\<lambda>e. rkey e \<notin> ?K) ?t1\<rparr>"
    by (subst (asm) adv(1)) simp
  have "filter (\<lambda>e. rkey e \<notin> ?K) ?t1 = filter (\<lambda>e. rkey e \<notin> ?K \<and> rkey e \<in> best_keys (keys_of ?t \<union> ?K)) ?t"
  proof (rule idx_wf_ext [of rkey])
    show "set (filter (\<lambda>e. rkey e \<notin> ?K) ?t1) =
        set (filter (\<lambda>e. rkey e \<notin> ?K \<and> rkey e \<in> best_keys (keys_of ?t \<union> ?K)) ?t)"
    proof (intro set_eqI iffI)
      fix e
      assume "e \<in> set (filter (\<lambda>e. rkey e \<notin> ?K) ?t1)"
      then have e: "e \<in> set ?t1" "rkey e \<notin> ?K"
        by (simp_all del: rkey_eq_iff)
      then have best: "rkey e \<in> best_keys (keys_of ?t \<union> ?K)"
        unfolding adv(2) [symmetric] by (intro imageI)
      then have "rkey e \<in> keys_of ?t"
        using e(2) best_keys_subset by blast
      then have "e \<in> set ?t"
        by (rule adv(3) [OF e(1)])
      then show "e \<in> set (filter (\<lambda>e. rkey e \<notin> ?K \<and> rkey e \<in> best_keys (keys_of ?t \<union> ?K)) ?t)"
        using e(2) best by (simp del: rkey_eq_iff)
    next
      fix e
      assume "e \<in> set (filter (\<lambda>e. rkey e \<notin> ?K \<and> rkey e \<in> best_keys (keys_of ?t \<union> ?K)) ?t)"
      then have e: "e \<in> set ?t" "rkey e \<notin> ?K" "rkey e \<in> keys_of ?t1"
        unfolding adv(2) by (simp_all del: rkey_eq_iff)
      obtain y where y: "y \<in> set ?t1" "rkey y = rkey e"
        using e(3) by (metis imageE)
      then have "y \<in> set ?t"
        using adv(3) [OF y(1)] imageI [OF e(1), of rkey] by (metis y(2))
      then have "y = e"
        using idx_wf_unique [OF rt_ok_wf [OF assms(1)] _ e(1) y(2)] by blast
      then show "e \<in> set (filter (\<lambda>e. rkey e \<notin> ?K) ?t1)"
        using y(1) e(2) by (simp del: rkey_eq_iff)
    qed
  qed (simp_all add: idx_wf_filter rt_ok_wf [OF assms(1)] rt_ok_wf [OF ok1])
  with r2 show ?thesis
    by simp
qed

text \<open>With room for all, every key is among the best.\<close>

lemma best_keys_all:
  assumes "finite S" "\<forall>d. card {k \<in> S. k_dest k = d} \<le> kDestRouteLimit"
  shows "best_keys S = S"
proof -
  have "card (better S k) < kDestRouteLimit" if "k \<in> S" for k
  proof -
    have "better S k \<subset> {x \<in> S. k_dest x = k_dest k}"
      using that by (auto simp: better_def)
    then have "card (better S k) < card {x \<in> S. k_dest x = k_dest k}"
      using assms(1) by (intro psubset_card_mono) simp_all
    then show ?thesis
      using assms(2) less_le_trans by blast
  qed
  then show ?thesis
    by (auto simp: best_keys_def)
qed

lemma best_keys_elsewhere:
  assumes "rt_ok t" "e \<in> set t" "dest e \<notin> k_dest ` K"
  shows "rkey e \<in> best_keys (keys_of t \<union> K)"
proof -
  have "better (keys_of t \<union> K) (rkey e) = better (keys_of t) (rkey e)"
  proof -
    have "x \<notin> K" if "k_dest x = dest e" for x
      using assms(3) that by (metis imageI)
    then show ?thesis
      by (auto simp: better_def simp del: rkey_eq_iff)
  qed
  then show ?thesis
    using better_in_group [OF assms(1), of "rkey e"] assms(2) by (simp add: best_keys_def del: rkey_eq_iff)
qed

end
