(* ===== verification/Router_Props.thy ===== *)
theory Router_Props
  imports Best_Routes
begin

text \<open>
  The properties of a single router, with their witnesses: the choice of routes, the
  reachability signals, route removal, forwarding, and the states a router can reach.
\<close>

section \<open>A concrete router\<close>

text \<open>Router 1 with two connections and routes to the nodes 2 and 3, used by the witnesses.\<close>

definition conn_a :: conn where
  "conn_a = \<lparr>conn_id = 10, remote_ip = IPv4 100, local_ip = IPv4 1\<rparr>"

definition conn_b :: conn where
  "conn_b = \<lparr>conn_id = 11, remote_ip = IPv4 200, local_ip = IPv4 1\<rparr>"

definition entry_of :: "u32 \<Rightarrow> u32 list \<Rightarrow> u32 \<Rightarrow> route_entry" where
  "entry_of d p c = \<lparr>dest = d, cost = of_nat (length p), path = p, connection = Some c\<rparr>"

definition demo_router :: router where
  "demo_router =
     \<lparr>rid = 1, rname = ''one'', running = True,
      route_table = [entry_of 2 [2] 10, entry_of 3 [2, 3] 10, entry_of 3 [4, 2, 3] 11],
      connections = [conn_a, conn_b]\<rparr>"

lemma demo_rt_ok: "rt_ok (route_table demo_router)"
proof -
  have "rt_count d (route_table demo_router) \<le> kDestRouteLimit" for d
    using length_filter_le[of "\<lambda>e. dest e = d" "route_table demo_router"]
    by (simp add: rt_count_def demo_router_def kDestRouteLimit_def)
  moreover have "idx_wf rkey (route_table demo_router)"
    by (simp add: demo_router_def entry_of_def rkey_def less_route_key_def route_key_less_def)
  ultimately show ?thesis by (simp add: rt_ok_def)
qed

lemma demo_ok: "router_ok demo_router"
  unfolding router_ok_def core_ok_def
  by (simp add: demo_rt_ok)
     (simp add: conns_ok_def owned_def loop_free_def demo_router_def conn_a_def conn_b_def
       entry_of_def ckey_def)

section \<open>Choosing routes\<close>

text \<open>
  C4. Integrating a route keeps, for its destination, the three least routes (by cost, then
  path) among those already known and the new one, leaves every other destination alone, and
  reports "installed" exactly when the route is new and among them.
\<close>

theorem integrate_keeps_best_three:
  assumes "rt_ok (route_table r)" "integrate_route r route src = (r', installed, evs)"
  shows "rt_group (dest route) (route_table r') =
      take 3 (idx_insert rkey (mk_entry route src) (rt_group (dest route) (route_table r)))
    \<and> (\<forall>d. d \<noteq> dest route \<longrightarrow> rt_group d (route_table r') = rt_group d (route_table r))
    \<and> (installed \<longleftrightarrow> rkey route \<notin> rkey ` set (route_table r) \<and>
        mk_entry route src \<in> set (route_table r'))"
  using assms
  by (auto simp: integrate_route_eq rt_group_integrate best_routes_def kDestRouteLimit_def
      rt_integrate_installed simp del: rkey_eq_iff)

theorem integrate_keeps_best_three_witness:
  "rt_group 3 (route_table (fst (integrate_route demo_router \<lparr>dest = 3, cost = 1, path = [3]\<rparr> 11)))
     = [entry_of 3 [3] 11, entry_of 3 [2, 3] 10, entry_of 3 [4, 2, 3] 11]
   \<and> fst (snd (integrate_route demo_router \<lparr>dest = 3, cost = 1, path = [3]\<rparr> 11))"
proof -
  let ?new = "\<lparr>dest = 3, cost = 1, path = [3]\<rparr> :: route"
  obtain r' i evs where eq: "integrate_route demo_router ?new 11 = (r', i, evs)"
    using prod_cases3 by blast
  have group: "rt_group 3 (route_table r') =
      [entry_of 3 [3] 11, entry_of 3 [2, 3] 10, entry_of 3 [4, 2, 3] 11]"
    using integrate_keeps_best_three[OF demo_rt_ok eq]
    by (simp add: rt_group_def demo_router_def entry_of_def mk_entry_def rkey_def less_route_key_def route_key_less_def)
  have "mk_entry ?new 11 \<in> set (rt_group 3 (route_table r'))"
    by (simp only: group) (simp add: entry_of_def mk_entry_def)
  then have "i"
    using integrate_keeps_best_three[OF demo_rt_ok eq]
    by (simp add: rt_group_def demo_router_def entry_of_def)
  with group eq show ?thesis by simp
qed

section \<open>Reachability signals\<close>

text \<open>
  A route advertisement makes \<open>on_node_reachable\<close> fire exactly for the destinations that
  had no route before and have one after, once each, and never fires \<open>on_node_unreachable\<close>.
\<close>

theorem advertisement_signals:
  assumes "rt_ok (route_table r)" "integrate_adv r sender routes src = (r', evs)"
  shows "distinct (reached evs) \<and> set (reached evs) = dests r' - dests r \<and> unreached evs = []
    \<and> dests r \<subseteq> dests r'"
proof -
  obtain r1 adv updated evs1 where l: "adv_loop r sender src routes = (r1, adv, updated, evs1)"
    using prod_cases4 by blast
  show ?thesis
    using assms(2) adv_loop_signals[OF assms(1) l]
    by (auto simp: integrate_adv_def l split: if_splits)
qed

theorem advertisement_signals_witness:
  "set (reached (snd (integrate_adv demo_router 2 [\<lparr>dest = 5, cost = 0, path = []\<rparr>] 10)))
     \<inter> dests demo_router = {}"
proof -
  obtain r' evs where eq: "integrate_adv demo_router 2 [\<lparr>dest = 5, cost = 0, path = []\<rparr>] 10 = (r', evs)"
    using prod.exhaust by blast
  show ?thesis
    using advertisement_signals[OF demo_rt_ok eq] eq by auto
qed

lemma lost_dests_facts:
  "set (lost_dests ds t) = set ds - dest ` set t" "distinct (lost_dests ds t)"
proof -
  have "rt_count d t = 0 \<longleftrightarrow> d \<notin> dest ` set t" for d
    using rt_count_pos[of d t] by auto
  then show "set (lost_dests ds t) = set ds - dest ` set t"
    by (auto simp: lost_dests_def)
qed (simp add: lost_dests_def)

text \<open>
  A route revocation makes \<open>on_node_unreachable\<close> fire exactly for the destinations that
  lose their last route, once each, and never fires \<open>on_node_reachable\<close>.
\<close>

theorem revocation_signals:
  assumes "idx_wf rkey (route_table r)" "integrate_rev r sender routes src = (r', evs)"
  shows "distinct (unreached evs) \<and> set (unreached evs) = dests r - dests r' \<and> reached evs = []
    \<and> dests r' \<subseteq> dests r"
proof (cases "sender = rid r")
  case True
  then show ?thesis using assms by (simp add: integrate_rev_def)
next
  case False
  obtain t revs ds updated where l: "rev_loop (rid r) sender routes (route_table r) = (t, revs, ds, updated)"
    using prod_cases4 by blast
  note L = rev_loop_table[OF l assms(1)]
  have "unreached evs = lost_dests ds t" "reached evs = []" "dests r' = dest ` set t"
    using assms(2) False by (auto simp: integrate_rev_def l Let_def dests_def)
  with L show ?thesis
    by (auto simp: lost_dests_facts dests_def simp del: rkey_eq_iff)
qed

theorem revocation_signals_witness:
  "unreached (snd (integrate_rev demo_router 2 [\<lparr>dest = 2, cost = 0, path = []\<rparr>] 10)) = [2]"
proof -
  obtain r' evs where eq: "integrate_rev demo_router 2 [\<lparr>dest = 2, cost = 0, path = []\<rparr>] 10 = (r', evs)"
    using prod.exhaust by blast
  have "dests demo_router - dests r' = {2}"
    using integrate_rev_eq[OF rt_ok_wf[OF demo_rt_ok] eq]
    by (auto simp: dests_def demo_router_def entry_of_def revoked_keys_def acceptable_def
        extend_route_def)
  then show ?thesis
    using revocation_signals[OF rt_ok_wf[OF demo_rt_ok] eq] eq
    by (simp add: distinct_set_singleton)
qed

section \<open>Removing a connection\<close>

text \<open>
  Removing a connection drops exactly the routes through it, revokes those routes on every
  remaining connection of a running router, and reports as unreachable exactly the
  destinations that have no route left.
\<close>

theorem remove_conn_effect:
  assumes ok: "rt_ok (route_table r)" and eq: "remove_conn r c = (r', evs)"
  shows "route_table r' = filter (\<lambda>e. connection e \<noteq> Some (conn_id c)) (route_table r)
    \<and> distinct (unreached evs) \<and> set (unreached evs) = dests r - dests r' \<and> reached evs = []
    \<and> sends evs =
      (let dead = filter (\<lambda>e. connection e = Some (conn_id c)) (route_table r);
           m = message_of (RouteRevocation (rid r) (map to_route dead))
       in if running r \<and> dead \<noteq> []
          then map (\<lambda>other. (conn_id other, header_of m, m)) (remove1 c (connections r)) else [])"
proof -
  let ?dead = "filter (\<lambda>e. connection e = Some (conn_id c)) (route_table r)"
  let ?t = "filter (\<lambda>e. connection e \<noteq> Some (conn_id c)) (route_table r)"
  have un: "unreached evs = lost_dests (map dest ?dead) ?t" "reached evs = []"
    using eq by (auto simp: remove_conn_def Let_def)
  have "set (unreached evs) = dests r - dests r'"
    using un remove_conn_state[OF eq] by (auto simp: lost_dests_facts dests_def)
  moreover have "sends evs = (if running r \<and> ?dead \<noteq> []
    then map (\<lambda>other. (conn_id other, header_of (message_of (RouteRevocation (rid r) (map to_route ?dead))),
      message_of (RouteRevocation (rid r) (map to_route ?dead)))) (remove1 c (connections r)) else [])"
    using eq by (auto simp: remove_conn_def Let_def broadcast_eq)
  ultimately show ?thesis
    using un remove_conn_state[OF eq] by (simp add: lost_dests_facts Let_def)
qed

theorem remove_conn_effect_witness:
  "dests (fst (remove_conn demo_router conn_a)) = {3}
   \<and> unreached (snd (remove_conn demo_router conn_a)) = [2]
   \<and> length (sends (snd (remove_conn demo_router conn_a))) = 1"
proof -
  obtain r' evs where eq: "remove_conn demo_router conn_a = (r', evs)"
    using prod.exhaust by blast
  note R = remove_conn_effect[OF demo_rt_ok eq]
  have d: "dests r' = {3}" "dests demo_router = {2, 3}"
    using R by (auto simp: dests_def demo_router_def entry_of_def conn_a_def)
  then have "set (unreached evs) = {2}" using R by auto
  then show ?thesis
    using R d eq by (simp add: distinct_set_singleton Let_def)
      (simp add: demo_router_def entry_of_def conn_a_def conn_b_def)
qed

lemma remove_all_effect:
  assumes "remove_all r cs = (r', evs)" "router_ok r" "set cs \<subseteq> set (connections r)" "distinct cs"
  shows "router_ok r' \<and> set (connections r') = set (connections r) - set cs \<and> running r' = running r
    \<and> (\<not> running r \<longrightarrow> sends evs = []) \<and> distinct (unreached evs)
    \<and> set (unreached evs) = dests r - dests r' \<and> dests r' \<subseteq> dests r"
  using assms
proof (induction cs arbitrary: r r' evs)
  case Nil
  then show ?case by auto
next
  case (Cons c cs)
  obtain r1 evs1 where one: "remove_conn r c = (r1, evs1)" using prod.exhaust by blast
  obtain r2 evs2 where rest: "remove_all r1 cs = (r2, evs2)" using prod.exhaust by blast
  have eq: "r' = r2" "evs = evs1 @ evs2" using Cons.prems(1) one rest by simp_all
  note st = remove_conn_state[OF one]
  have d: "distinct (connections r)"
    using conns_distinct[OF router_okD(3)[OF Cons.prems(2)]] .
  have ok: "router_ok r1"
    using Cons.prems(2) one by (auto simp: router_ok_def intro: inv_intros)
  have IH: "router_ok r2 \<and> set (connections r2) = set (connections r1) - set cs \<and> running r2 = running r1
    \<and> (\<not> running r1 \<longrightarrow> sends evs2 = []) \<and> distinct (unreached evs2)
    \<and> set (unreached evs2) = dests r1 - dests r2 \<and> dests r2 \<subseteq> dests r1"
    using Cons.IH[OF rest ok] Cons.prems(3,4) st d by (auto simp: set_remove1_eq)
  note R = remove_conn_effect[OF router_okD(1)[OF Cons.prems(2)] one]
  have "dests r1 \<subseteq> dests r" using R by (auto simp: dests_def)
  then show ?case
    using IH R eq st d by (auto simp: set_remove1_eq Let_def)
qed

text \<open>
  Shutting a router down leaves it without routes and connections, sends nothing, and
  reports every destination it knew as unreachable, once.
\<close>

theorem shutdown_clears:
  assumes "router_ok r" "shutdown r = (r', evs)"
  shows "route_table r' = [] \<and> connections r' = [] \<and> \<not> running r' \<and> sends evs = []
    \<and> distinct (unreached evs) \<and> set (unreached evs) = dests r"
proof -
  let ?r = "r\<lparr>running := False\<rparr>"
  have ok: "router_ok ?r" and d: "distinct (connections ?r)"
    using assms(1) conns_distinct[OF router_okD(3)[OF assms(1)]] by (simp_all add: router_ok_def not_running)
  have eq: "remove_all ?r (connections ?r) = (r', evs)"
    using assms(2) by (simp add: shutdown_def)
  note E = remove_all_effect[OF eq ok subset_refl d]
  then have "connections r' = []" by simp
  moreover from this E have "route_table r' = []"
    by (auto simp: router_ok_def core_ok_def owned_def neq_Nil_conv)
  ultimately show ?thesis using E by (simp add: dests_def)
qed

theorem shutdown_clears_witness:
  "set (unreached (snd (shutdown demo_router))) = {2, 3}"
proof -
  obtain r' evs where eq: "shutdown demo_router = (r', evs)" using prod.exhaust by blast
  have "dests demo_router = {2, 3}" by (auto simp: dests_def demo_router_def entry_of_def)
  then show ?thesis using shutdown_clears[OF demo_ok eq] eq by simp
qed

section \<open>Where messages go\<close>

lemma find_sorted_least:
  assumes "idx_wf rkey t" "find (\<lambda>e. dest e = d) t = Some e"
  shows "e \<in> set t \<and> dest e = d \<and> (\<forall>x\<in>set t. dest x = d \<longrightarrow> cost e \<le> cost x)"
  using assms
proof (induction t)
  case (Cons y t)
  then show ?case
    by (cases "dest y = d") (auto simp: rkey_less_cost)
qed simp

lemma find_None_dest: "find (\<lambda>e. dest e = d) t = None \<longleftrightarrow> d \<notin> dest ` set t"
  by (auto simp: find_None_iff)

text \<open>
  A message for a node is sent if, and only if, the table has a route to the node; it is
  then handed, header and body unchanged, to exactly one connection, that of a route of the
  least cost among the routes to the node.
\<close>

theorem forward_takes_cheapest_route:
  assumes "router_ok r"
  shows "case forward r header m of (sent, evs) \<Rightarrow>
     (sent \<longleftrightarrow> hdest header \<in> dests r) \<and> (\<not> sent \<longrightarrow> evs = []) \<and>
     (sent \<longrightarrow> (\<exists>e\<in>set (route_table r). \<exists>c\<in>set (connections r).
        evs = [EvSend (conn_id c) header m] \<and> connection e = Some (conn_id c) \<and> dest e = hdest header \<and>
        (\<forall>x\<in>set (route_table r). dest x = hdest header \<longrightarrow> cost e \<le> cost x)))"
proof (cases "find (\<lambda>e. dest e = hdest header) (route_table r)")
  case None
  then have "hdest header \<notin> dests r" using find_None_dest[of "hdest header" "route_table r"] by (simp add: dests_def)
  with None show ?thesis by (simp add: forward_def)
next
  case (Some e)
  note L = find_sorted_least[OF router_okD(2)[OF assms] Some]
  obtain c where c: "c \<in> set (connections r)" "connection e = Some (conn_id c)"
    using router_okD(4)[OF assms] L by (auto simp: owned_def)
  have "hdest header \<in> dests r"
    using L by (auto simp: dests_def in_image_iff)
  then show ?thesis
    using Some L c by (auto simp: forward_def)
qed

theorem forward_takes_cheapest_route_witness:
  "forward demo_router (default_header\<lparr>hdest := 3\<rparr>) empty_message =
     (True, [EvSend 10 (default_header\<lparr>hdest := 3\<rparr>) empty_message])
   \<and> 3 \<in> dests demo_router"
proof -
  have "case forward demo_router (default_header\<lparr>hdest := 3\<rparr>) empty_message of (sent, evs) \<Rightarrow>
      sent \<longleftrightarrow> 3 \<in> dests demo_router"
    using forward_takes_cheapest_route[OF demo_ok, of "default_header\<lparr>hdest := 3\<rparr>" empty_message]
    by (auto split: prod.splits)
  then show ?thesis
    by (simp add: forward_def demo_router_def entry_of_def)
qed

lemma send_to_known:
  assumes "router_ok r" "d \<in> dests r"
  shows "\<exists>c. snd (send r m d) = [EvSend c ((header_of m)\<lparr>source := rid r, hdest := d\<rparr>) m]"
  using forward_takes_cheapest_route[OF assms(1), of "(header_of m)\<lparr>source := rid r, hdest := d\<rparr>" m]
    assms(2)
  by (auto simp: send_def split: prod.splits)

definition notified :: "router_event list \<Rightarrow> u32 list" where
  "notified evs = map (\<lambda>(c, h, m). hdest h) (sends evs)"

lemma notify_loop_dests:
  assumes "router_ok r" "set es \<subseteq> set (route_table r)"
  shows "remdups_adj (lst # map dest es) = lst # notified (notify_loop r m lst es)"
  using assms(2)
proof (induction es arbitrary: lst)
  case Nil
  then show ?case by (simp add: notified_def)
next
  case (Cons e es)
  then have "dest e \<in> dests r" by (auto simp: dests_def)
  then obtain c where "snd (send r m (dest e)) = [EvSend c ((header_of m)\<lparr>source := rid r, hdest := dest e\<rparr>) m]"
    using send_to_known[OF assms(1)] by blast
  with Cons show ?case by (simp add: notified_def)
qed

lemma sorted_table_dests: "idx_wf rkey t \<Longrightarrow> sorted (map dest t)"
  by (induction t) (auto dest: rkey_less_dest)

text \<open>
  \<open>notifyOtherNodes\<close> sends the message exactly once to every node that has a route, in
  ascending order of the node ids (the broadcast id is not a node).
\<close>

theorem notify_each_node_once:
  assumes "router_ok r" "kBroadcastId \<notin> dests r"
  shows "notified (notifyOtherNodes r m) = sorted_list_of_set (dests r)"
proof -
  let ?ds = "map dest (route_table r)"
  have m1: "(- 1 :: u32) = kBroadcastId" by (simp add: kBroadcastId_def)
  have "- 1 # notified (notifyOtherNodes r m) = remdups_adj (- 1 # ?ds)"
    using notify_loop_dests[OF assms(1) subset_refl, of "- 1" m] by (simp add: notifyOtherNodes_def)
  also have "\<dots> = - 1 # remdups_adj ?ds"
    using assms(2) by (cases "route_table r") (auto simp: m1 dests_def)
  finally have "notified (notifyOtherNodes r m) = remdups_adj ?ds" by simp
  moreover have "sorted ?ds"
    by (rule sorted_table_dests[OF router_okD(2)[OF assms(1)]])
  ultimately show ?thesis
    using sorted_list_of_set.idem_if_sorted_distinct[of "remdups_adj ?ds"]
    by (simp add: distinct_remdups_adj_sorted dests_def)
qed

theorem notify_each_node_once_witness:
  "notified (notifyOtherNodes demo_router empty_message) = [2, 3]"
proof -
  have d: "dests demo_router = {2, 3}" by (auto simp: dests_def demo_router_def entry_of_def)
  have "notified (notifyOtherNodes demo_router empty_message) = sorted_list_of_set (dests demo_router)"
    by (rule notify_each_node_once[OF demo_ok]) (simp add: d kBroadcastId_def)
  then show ?thesis by (simp add: d)
qed

text \<open>
  A message for another node is never handled here: it leaves the router unchanged, is not
  delivered to \<open>on_receive\<close>, and is forwarded whatever its TTL.
\<close>

theorem foreign_message_only_forwarded:
  assumes "hdest header \<noteq> rid r" "hdest header \<noteq> kBroadcastId"
  shows "on_message r header m c = (r, snd (forward r header m))
    \<and> (\<forall>m' s. EvReceive m' s \<notin> set (snd (on_message r header m c)))
    \<and> fst (forward r (header\<lparr>ttl := t\<rparr>) m) = fst (forward r header m)"
  using assms by (auto simp: on_message_def forward_def split: option.splits)

theorem foreign_message_only_forwarded_witness:
  "on_message demo_router (default_header\<lparr>hdest := 2, ttl := 0\<rparr>) empty_message conn_b =
     (demo_router, [EvSend 10 (default_header\<lparr>hdest := 2, ttl := 0\<rparr>) empty_message])"
proof -
  have "hdest (default_header\<lparr>hdest := 2, ttl := 0\<rparr>) \<noteq> rid demo_router"
    and "hdest (default_header\<lparr>hdest := 2, ttl := 0\<rparr>) \<noteq> kBroadcastId"
    by (simp_all add: demo_router_def kBroadcastId_def)
  then have "on_message demo_router (default_header\<lparr>hdest := 2, ttl := 0\<rparr>) empty_message conn_b =
     (demo_router, snd (forward demo_router (default_header\<lparr>hdest := 2, ttl := 0\<rparr>) empty_message))"
    using foreign_message_only_forwarded by blast
  then show ?thesis by (simp add: forward_def demo_router_def entry_of_def)
qed

section \<open>A revocation undoes an advertisement\<close>

text \<open>
  C40. If a neighbour, whose identifier is not the router's own, advertises some routes to a router
  with a well-formed table, as every reachable one is, and then revokes them, on whatever connection,
  the router is as before but for its table, and that has,
  with their connections and in their order, exactly the routes from before that are not among the
  advertised ones and that were among the three best of the known and the advertised routes of
  their destination. So the routes to all other destinations are untouched, and when the advertised
  routes were new and no destination had more than three with them, the router is exactly as it was.
\<close>

theorem revocation_undoes_advertisement:
  assumes "rt_ok (route_table r)" "sender \<noteq> rid r"
    and "integrate_adv r sender routes src = (r1, evs)"
    and "integrate_rev r1 sender routes src' = (r2, evs')"
  shows "r2 = r\<lparr>route_table := filter (\<lambda>e. rkey e \<notin> revoked_keys (rid r) sender routes \<and>
      rkey e \<in> best_keys (keys_of (route_table r) \<union> revoked_keys (rid r) sender routes)) (route_table r)\<rparr>
    \<and> (\<forall>d. d \<notin> k_dest ` revoked_keys (rid r) sender routes \<longrightarrow>
        rt_group d (route_table r2) = rt_group d (route_table r))
    \<and> (revoked_keys (rid r) sender routes \<inter> keys_of (route_table r) = {} \<and>
       (\<forall>d. card {k \<in> keys_of (route_table r) \<union> revoked_keys (rid r) sender routes. k_dest k = d}
          \<le> kDestRouteLimit) \<longrightarrow> r2 = r)"
proof -
  let ?K = "revoked_keys (rid r) sender routes" and ?t = "route_table r"
  note r2 = revoked_after_advertised [OF assms]
  have "rt_group d (route_table r2) = rt_group d ?t" if "d \<notin> k_dest ` ?K" for d
  proof -
    have "rkey e \<notin> ?K \<and> rkey e \<in> best_keys (keys_of ?t \<union> ?K)" if "e \<in> set ?t" "dest e = d" for e
      using best_keys_elsewhere [OF assms(1) that(1)] that \<open>d \<notin> _\<close> by (metis imageI k_dest_rkey)
    then show ?thesis
      by (auto simp: r2 rt_group_def intro!: filter_cong simp del: rkey_eq_iff)
  qed
  moreover have "r2 = r"
    if "?K \<inter> keys_of ?t = {}" "\<forall>d. card {k \<in> keys_of ?t \<union> ?K. k_dest k = d} \<le> kDestRouteLimit"
  proof -
    have "best_keys (keys_of ?t \<union> ?K) = keys_of ?t \<union> ?K"
      by (rule best_keys_all [OF _ that(2)]) (simp add: revoked_keys_def)
    moreover have "rkey e \<notin> ?K \<and> rkey e \<in> keys_of ?t \<union> ?K" if "e \<in> set ?t" for e
      using \<open>?K \<inter> keys_of ?t = {}\<close> imageI [OF that, of rkey] by blast
    ultimately have "filter (\<lambda>e. rkey e \<notin> ?K \<and> rkey e \<in> best_keys (keys_of ?t \<union> ?K)) ?t = ?t"
      by (simp only: filter_id_conv) blast
    with r2 show ?thesis
      by simp
  qed
  ultimately show ?thesis
    using r2 by blast
qed

theorem revocation_undoes_advertisement_witness:
  "fst (integrate_rev (fst (integrate_adv demo_router 4 [\<lparr>dest = 9, cost = 0, path = []\<rparr>] 11))
      4 [\<lparr>dest = 9, cost = 0, path = []\<rparr>] 11) = demo_router"
proof -
  let ?rs = "[\<lparr>dest = 9, cost = 0, path = []\<rparr>] :: route list"
  let ?K = "revoked_keys (rid demo_router) 4 ?rs" and ?t = "route_table demo_router"
  obtain r1 evs where a: "integrate_adv demo_router 4 ?rs 11 = (r1, evs)" using prod.exhaust by blast
  obtain r2 evs' where b: "integrate_rev r1 4 ?rs 11 = (r2, evs')" using prod.exhaust by blast
  have "4 \<noteq> rid demo_router" by (simp add: demo_router_def)
  note result = revocation_undoes_advertisement[OF demo_rt_ok this a b]
  have K: "?K = {Route_Key 9 1 [4]}"
    by (simp add: acceptable_def demo_router_def extend_route_def rkey_def)
  have t: "k_dest k \<noteq> 9" if "k \<in> keys_of ?t" for k
    using that by (auto simp: demo_router_def entry_of_def)
  have "card {k \<in> keys_of ?t \<union> ?K. k_dest k = d} \<le> kDestRouteLimit" for d
  proof (cases "d = 9")
    case True
    then have "{k \<in> keys_of ?t \<union> ?K. k_dest k = d} = ?K"
      using t by (auto simp: K simp del: revoked_keys_simps)
    then show ?thesis
      by (simp add: K kDestRouteLimit_def)
  next
    case False
    then have "{k \<in> keys_of ?t \<union> ?K. k_dest k = d} = rkey ` set (rt_group d ?t)"
      unfolding K keys_of_group by auto
    then show ?thesis
      using card_length [of "map rkey (rt_group d ?t)"] group_facts(2) [OF demo_rt_ok, of d]
      by (simp add: kDestRouteLimit_def)
  qed
  moreover have "?K \<inter> keys_of ?t = {}"
    unfolding K using t by fastforce
  ultimately have "r2 = demo_router"
    using result by blast
  with a b show ?thesis by simp
qed

section \<open>The connect thread\<close>

lemma connect_loop_gave_up:
  assumes "1 \<le> k" "k \<le> Suc kConnectRetryLimit"
  shows "connect_loop at out k = GaveUp n \<longleftrightarrow>
    n = 11 \<and> (\<forall>j\<in>{k..10}. running (at j) \<and> (out j = ConnectTimeout \<or> out j = ConnectError))"
  using assms
proof (induction at out k rule: connect_loop.induct)
  case (1 at out k)
  have split: "{k..10::nat} = insert k {Suc k..10}" if "k \<le> 10" using that by auto
  show ?case
  proof (cases "k \<le> 10 \<and> running (at k)")
    case False
    with "1.prems" show ?thesis
      by (subst connect_loop.simps) (auto simp: kConnectRetryLimit_def)
  next
    case True
    then have ih: "out k = ConnectTimeout \<or> out k = ConnectError \<Longrightarrow>
      connect_loop at out (Suc k) = GaveUp n \<longleftrightarrow>
      n = 11 \<and> (\<forall>j\<in>{Suc k..10}. running (at j) \<and> (out j = ConnectTimeout \<or> out j = ConnectError))"
      using "1.IH" by (auto simp: kConnectRetryLimit_def)
    have "\<not> kConnectRetryLimit < k" using True by (simp add: kConnectRetryLimit_def)
    with True ih split show ?thesis
      by (subst connect_loop.simps) (auto split: connect_outcome.splits)
  qed
qed

text \<open>
  The connect thread makes at most ten attempts. It gives up exactly when the router runs
  throughout and all ten attempts fail or time out.
\<close>

theorem connect_thread_gives_up:
  "connect_thread at out = GaveUp n \<longleftrightarrow>
    running (at 0) \<and> n = 11 \<and>
    (\<forall>j\<in>{1..10}. running (at j) \<and> (out j = ConnectTimeout \<or> out j = ConnectError))"
  using connect_loop_gave_up[of 1 at out n] by (simp add: connect_thread_def kConnectRetryLimit_def)

theorem connect_thread_gives_up_witness:
  "connect_thread (\<lambda>_. demo_router) (\<lambda>k. if even k then ConnectTimeout else ConnectError) = GaveUp 11"
  by (rule connect_thread_gives_up[THEN iffD2]) (simp add: demo_router_def)

section \<open>The states a router can reach\<close>

text \<open>
  What can happen to a router. A message arrives on, and a disconnection is of, one of its
  connections; a new connection has an id that none of them has (ids come from the counter
  \<open>next_connection_id_\<close>). A connection can be added whether or not the router is running: the
  connect thread tests \<open>running_\<close> only before it waits for the socket and the handshake.
\<close>

datatype router_op =
    OpStart u32 string
  | OpConnect conn
  | OpMessage message_header message conn
  | OpDisconnect conn
  | OpHello
  | OpShutdown

inductive router_step :: "router \<Rightarrow> router_op \<Rightarrow> router \<Rightarrow> router_event list \<Rightarrow> bool" where
  step_start: "router_step r (OpStart i name) (start r i name) []"
| step_connect: "conn_id c \<notin> conn_id ` set (connections r) \<Longrightarrow> add_conn r c = (r', evs) \<Longrightarrow>
    router_step r (OpConnect c) r' evs"
| step_message: "c \<in> set (connections r) \<Longrightarrow> on_message r header m c = (r', evs) \<Longrightarrow>
    router_step r (OpMessage header m c) r' evs"
| step_disconnect: "c \<in> set (connections r) \<Longrightarrow> on_disconnect r c = (r', evs) \<Longrightarrow>
    router_step r (OpDisconnect c) r' evs"
| step_hello: "router_step r OpHello r (hello_round r)"
| step_shutdown: "shutdown r = (r', evs) \<Longrightarrow> router_step r OpShutdown r' evs"

inductive_cases router_step_cases: "router_step r op r' evs"

inductive router_reachable :: "(router \<Rightarrow> router_op \<Rightarrow> bool) \<Rightarrow> router \<Rightarrow> bool"
  for allowed :: "router \<Rightarrow> router_op \<Rightarrow> bool" where
  reach_init: "router_reachable allowed init_router"
| reach_step: "router_reachable allowed r \<Longrightarrow> allowed r op \<Longrightarrow> router_step r op r' evs \<Longrightarrow>
    router_reachable allowed r'"

lemma on_disconnect_state:
  "on_disconnect r c = (r', evs) \<Longrightarrow> \<exists>evs'. remove_conn r c = (r', evs')"
  by (auto simp: on_disconnect_def split: prod.splits)

lemma start_core: "core_ok r \<Longrightarrow> core_ok (start r i name)"
  by (simp add: start_def core_ok_def conns_ok_def owned_def)

lemma router_step_core: "router_step r op r' evs \<Longrightarrow> core_ok r \<Longrightarrow> core_ok r'"
  by (elim router_step_cases)
     (auto dest: on_disconnect_state intro: inv_intros start_core)

lemma init_router_ok: "core_ok init_router" "loop_free init_router"
  by (simp_all add: init_router_def core_ok_def conns_ok_def owned_def loop_free_def)

text \<open>
  In every state a router can reach, its table is ordered, free of duplicates and holds at
  most three routes per destination, its connections are distinct in address pair and id, and
  every route belongs to a connection the router still has.
\<close>

theorem reachable_core_ok:
  assumes "router_reachable allowed r"
  shows "idx_wf rkey (route_table r) \<and> (\<forall>d. rt_count d (route_table r) \<le> 3)
    \<and> idx_wf ckey (connections r) \<and> distinct (map conn_id (connections r))
    \<and> (\<forall>e\<in>set (route_table r). \<exists>c\<in>set (connections r). connection e = Some (conn_id c))"
proof -
  have "core_ok r"
    using assms by (induction rule: router_reachable.induct) (auto intro: router_step_core init_router_ok)
  then show ?thesis
    by (simp add: core_ok_def rt_ok_def conns_ok_def owned_def kDestRouteLimit_def)
qed

text \<open>
  A concrete run: router 1 starts, gets a connection, and node 2 advertises itself on it.
\<close>

definition demo_advert :: message where
  "demo_advert = message_of (RouteAdvertisement 2 [\<lparr>dest = 2, cost = 0, path = []\<rparr>])"

definition demo_run :: "router \<Rightarrow> router" where
  "demo_run r = fst (on_message (fst (add_conn r conn_a)) (header_of demo_advert) demo_advert conn_a)"

lemma start_init: "start init_router 1 ''one'' =
    \<lparr>rid = 1, rname = ''one'', running = True, route_table = [], connections = []\<rparr>"
  by (simp add: start_def init_router_def)

lemma demo_run_eq:
  assumes "rid r = 1" "route_table r = []" "connections r = []"
  shows "demo_run r = r\<lparr>route_table := [entry_of 2 [2] 10], connections := [conn_a]\<rparr>"
proof -
  let ?r = "r\<lparr>connections := [conn_a]\<rparr>"
  have add: "fst (add_conn r conn_a) = ?r"
    using assms by (simp add: add_conn_def idx_has_def Let_def)
  have "rt_integrate (mk_entry (extend_route 2 \<lparr>dest = 2, cost = 0, path = []\<rparr>) 10) [] =
      ([entry_of 2 [2] 10], True)"
    by (simp add: rt_integrate_def rt_first_def rt_second_def idx_has_def extend_route_def
        mk_entry_def entry_of_def Let_def)
  then obtain evs where "integrate_adv ?r 2 [\<lparr>dest = 2, cost = 0, path = []\<rparr>] 10 =
      (?r\<lparr>route_table := [entry_of 2 [2] 10]\<rparr>, evs)"
    using assms by (simp add: integrate_adv_def adv_loop.simps(2) integrate_route_eq Let_def)
  moreover have "conn_id conn_a = 10" by (simp add: conn_a_def)
  ultimately show ?thesis
    unfolding demo_run_def add
    by (simp add: on_message_def demo_advert_def kBroadcastId_def)
qed

lemma reachable_demo_run:
  assumes "router_reachable allowed r" "connections r = []"
    and "\<And>r. allowed r (OpConnect conn_a)" "\<And>r. allowed r (OpMessage (header_of demo_advert) demo_advert conn_a)"
  shows "router_reachable allowed (demo_run r)"
proof -
  obtain r1 evs where a: "add_conn r conn_a = (r1, evs)" using prod.exhaust by blast
  obtain r2 evs' where b: "on_message r1 (header_of demo_advert) demo_advert conn_a = (r2, evs')"
    using prod.exhaust by blast
  have "router_reachable allowed r1"
    using assms(1,3) by (rule reach_step) (use a assms(2) in \<open>auto intro: step_connect\<close>)
  moreover have "conn_a \<in> set (connections r1)"
    using a assms(2) by (auto simp: add_conn_def idx_has_def Let_def)
  ultimately have "router_reachable allowed r2"
    using assms(4) b by (blast intro: reach_step step_message)
  then show ?thesis using a b by (simp add: demo_run_def)
qed

lemma demo_run_reachable:
  assumes "\<And>r. allowed r (OpConnect conn_a)" "\<And>r. allowed r (OpMessage (header_of demo_advert) demo_advert conn_a)"
    and "allowed init_router (OpStart 1 ''one'')"
  shows "router_reachable allowed (demo_run (start init_router 1 ''one''))"
proof (rule reachable_demo_run)
  show "router_reachable allowed (start init_router 1 ''one'')"
    using reach_init assms(3) step_start by (rule reach_step)
qed (simp_all add: assms(1,2) start_init)

theorem reachable_core_ok_witness:
  "route_table (demo_run (start init_router 1 ''one'')) = [entry_of 2 [2] 10]
   \<and> idx_wf rkey (route_table (demo_run (start init_router 1 ''one'')))"
  using reachable_core_ok[OF demo_run_reachable[of "\<lambda>_ _. True"]]
  by (simp add: demo_run_eq start_init)

text \<open>A start that does not give a router with routes a new identity.\<close>

definition clean_start :: "router \<Rightarrow> router_op \<Rightarrow> bool" where
  "clean_start r op \<longleftrightarrow>
     (case op of OpStart i _ \<Rightarrow> running r \<or> rid r = i \<or> route_table r = [] | _ \<Rightarrow> True)"

lemma router_step_loop_free:
  "router_step r op r' evs \<Longrightarrow> clean_start r op \<Longrightarrow> core_ok r \<Longrightarrow> loop_free r \<Longrightarrow> loop_free r'"
proof (elim router_step_cases)
  fix i name
  assume "clean_start r op" "loop_free r" "op = OpStart i name" "r' = start r i name"
  then show "loop_free r'" by (auto simp: clean_start_def start_def loop_free_def)
qed (auto dest: on_disconnect_state core_okD intro: inv_intros)

text \<open>
  As long as a router that holds routes is not restarted under another id, no route it
  holds leads to the router itself or passes through it.
\<close>

theorem reachable_loop_free:
  assumes "router_reachable clean_start r" "e \<in> set (route_table r)"
  shows "dest e \<noteq> rid r \<and> rid r \<notin> set (path e)"
proof -
  have "core_ok r \<and> loop_free r"
    using assms(1)
    by (induction rule: router_reachable.induct)
       (auto intro: router_step_core router_step_loop_free init_router_ok)
  then show ?thesis using assms(2) by (auto simp: loop_free_def)
qed

theorem reachable_loop_free_witness:
  "entry_of 2 [2] 10 \<in> set (route_table (demo_run (start init_router 1 ''one'')))
   \<and> rid (demo_run (start init_router 1 ''one'')) \<notin> set (path (entry_of 2 [2] 10))"
proof -
  have "router_reachable clean_start (demo_run (start init_router 1 ''one''))"
    by (rule demo_run_reachable) (simp_all add: clean_start_def init_router_def)
  moreover have "entry_of 2 [2] 10 \<in> set (route_table (demo_run (start init_router 1 ''one'')))"
    by (simp add: demo_run_eq start_init)
  ultimately show ?thesis
    using reachable_loop_free by blast
qed

text \<open>
  The condition of that property is needed: the connect thread can add a connection after the shutdown, and a
  message on it fills the table of the stopped router. If the router then starts as node 2, it
  holds a route to itself.
\<close>

theorem late_connection_breaks_loop_freedom:
  "\<exists>r. router_reachable (\<lambda>_ _. True) r \<and> running r \<and> \<not> loop_free r"
proof -
  let ?stopped = "fst (shutdown (start init_router 1 ''one''))"
  let ?r = "start (demo_run ?stopped) 2 ''two''"
  have st: "?stopped = \<lparr>rid = 1, rname = ''one'', running = False, route_table = [], connections = []\<rparr>"
    by (simp add: start_init shutdown_def)
  have "router_reachable (\<lambda>_ _. True) (start init_router 1 ''one'')"
    by (rule reach_step[OF reach_init TrueI step_start])
  then have "router_reachable (\<lambda>_ _. True) ?stopped"
    using reach_step[OF _ TrueI step_shutdown] by (metis prod.collapse)
  then have "router_reachable (\<lambda>_ _. True) (demo_run ?stopped)"
    by (rule reachable_demo_run) (simp_all add: st)
  then have "router_reachable (\<lambda>_ _. True) ?r"
    by (rule reach_step[OF _ TrueI step_start])
  moreover have "demo_run ?stopped = ?stopped\<lparr>route_table := [entry_of 2 [2] 10], connections := [conn_a]\<rparr>"
    by (rule demo_run_eq) (simp_all add: st)
  then have "running ?r \<and> \<not> loop_free ?r"
    unfolding st by (simp add: start_def loop_free_def entry_of_def)
  ultimately have "router_reachable (\<lambda>_ _. True) ?r \<and> running ?r \<and> \<not> loop_free ?r"
    by blast
  then show ?thesis by blast
qed

end
