(* ===== verification/Network.thy ===== *)
theory Network
  imports Router_Props
begin

text \<open>
  A network of routers. Node \<open>i\<close> is a started router with id \<open>i\<close>; the pool holds every
  message a router has handed to a connection. A message of the pool may be delivered to
  any node, on any of its connections, any number of times and in any order, with any TTL,
  so the runs of this system include every topology, loss, duplication and reordering.
  The reader decrements the TTL of a header, which plays no part in routing.
\<close>

section \<open>The system\<close>

record net =
  nodes :: "u32 \<Rightarrow> router"
  pool :: "(message_header \<times> message) list"

definition posted :: "router_event list \<Rightarrow> (message_header \<times> message) list" where
  "posted evs = map (\<lambda>(c, h, m). (h, m)) (sends evs)"

definition deliverable :: "net \<Rightarrow> u32 \<Rightarrow> router_op \<Rightarrow> bool" where
  "deliverable n i op \<longleftrightarrow>
     (case op of
        OpStart j _ \<Rightarrow> j = i
      | OpMessage h m _ \<Rightarrow> (\<exists>t. (h\<lparr>ttl := t\<rparr>, m) \<in> set (pool n))
      | _ \<Rightarrow> True)"

inductive net_step :: "net \<Rightarrow> net \<Rightarrow> bool" where
  "deliverable n i op \<Longrightarrow> router_step (nodes n i) op r' evs \<Longrightarrow>
   net_step n (n\<lparr>nodes := (nodes n)(i := r'), pool := posted evs @ pool n\<rparr>)"

definition init_net :: "(u32 \<Rightarrow> string) \<Rightarrow> net" where
  "init_net names = \<lparr>nodes = (\<lambda>i. start init_router i (names i)), pool = []\<rparr>"

inductive net_reachable :: "net \<Rightarrow> bool" where
  net_init: "net_reachable (init_net names)"
| net_trans: "net_reachable n \<Longrightarrow> net_step n n' \<Longrightarrow> net_reachable n'"

section \<open>The invariant\<close>

text \<open>A route of node \<open>i\<close>: a simple path that avoids \<open>i\<close>, ends at the destination, at its cost.\<close>

definition simple_route :: "u32 \<Rightarrow> 'a route_scheme \<Rightarrow> bool" where
  "simple_route i r \<longleftrightarrow>
     path r \<noteq> [] \<and> distinct (path r) \<and> last (path r) = dest r \<and> i \<notin> set (path r)
     \<and> cost r = of_nat (length (path r))"

definition advertised_route :: "u32 \<Rightarrow> route \<Rightarrow> bool" where
  "advertised_route i r \<longleftrightarrow> r = \<lparr>dest = i, cost = 0, path = []\<rparr> \<or> simple_route i r"

fun good_body :: "message_body \<Rightarrow> bool" where
  "good_body (RouteAdvertisement sender routes) = (\<forall>r\<in>set routes. advertised_route sender r)"
| "good_body _ = True"

definition good_router :: "u32 \<Rightarrow> router \<Rightarrow> bool" where
  "good_router i r \<longleftrightarrow> rid r = i \<and> core_ok r \<and> (\<forall>e\<in>set (route_table r). simple_route i e)"

definition good_posts :: "(message_header \<times> message) list \<Rightarrow> bool" where
  "good_posts ps \<longleftrightarrow> (\<forall>(h, m)\<in>set ps. good_body (body m))"

definition good_net :: "net \<Rightarrow> bool" where
  "good_net n \<longleftrightarrow> (\<forall>i. good_router i (nodes n i)) \<and> good_posts (pool n)"

lemma simple_route_extend:
  assumes "advertised_route s r" "acceptable i r" "s \<noteq> i"
  shows "simple_route i (extend_route s r)"
  using assms by (auto simp: advertised_route_def simple_route_def acceptable_def extend_route_def)

lemma simple_route_transfer [simp]:
  "simple_route i (mk_entry r c) = simple_route i r" "simple_route i (to_route e) = simple_route i e"
  by (simp_all add: simple_route_def)

lemma good_posts_simps [simp]:
  "good_posts []" "good_posts (xs @ ys) \<longleftrightarrow> good_posts xs \<and> good_posts ys"
  "good_posts (map (\<lambda>c. (h, m)) cs) \<longleftrightarrow> (cs \<noteq> [] \<longrightarrow> good_body (body m))"
  by (auto simp: good_posts_def)

lemma posted_simps [simp]:
  "posted [] = []" "posted (xs @ ys) = posted xs @ posted ys" "posted (map EvUnreachable ds) = []"
  "posted (e # es) = (case e of EvSend c h m \<Rightarrow> (h, m) # posted es | _ \<Rightarrow> posted es)"
  by (simp_all add: posted_def split: router_event.splits)

lemma posted_flood: "good_body (body m) \<Longrightarrow> good_posts (posted (flood r m src))"
  by (auto simp: posted_def flood_eq good_posts_def)

lemma posted_broadcast: "good_body (body m) \<Longrightarrow> good_posts (posted (broadcast r m))"
  by (auto simp: posted_def broadcast_eq good_posts_def)

section \<open>Every operation keeps it\<close>

lemma good_integrate_adv:
  assumes good: "good_router i r" and adv: "\<forall>x\<in>set routes. advertised_route sender x"
    and eq: "integrate_adv r sender routes src = (r', evs)"
  shows "\<forall>e\<in>set (route_table r'). simple_route i e" and "good_posts (posted evs)"
proof -
  have ok: "rt_ok (route_table r)" "rid r = i" using good by (auto simp: good_router_def core_ok_def)
  have ext: "simple_route i (extend_route sender x)"
    if "x \<in> set routes" "sender \<noteq> rid r" "acceptable (rid r) x" for x
    using that adv ok by (auto intro: simple_route_extend)
  show "\<forall>e\<in>set (route_table r'). simple_route i e"
    using integrate_adv_routes(2)[OF ok(1) eq] good ext by (fastforce simp: good_router_def)
  obtain r1 ads updated evs1 where l: "adv_loop r sender src routes = (r1, ads, updated, evs1)"
    using prod_cases4 by blast
  note L = adv_loop_routes[OF ok(1) l]
  have "posted evs1 = []" using L(4) by (simp add: posted_def)
  moreover have "good_body (RouteAdvertisement i ads)" if "sender \<noteq> rid r"
    using L(2) ext that by (auto simp: advertised_route_def)
  ultimately show "good_posts (posted evs)"
    using eq ok adv_loop_frame[OF l] by (auto simp: integrate_adv_def l posted_flood split: if_splits)
qed

lemma good_integrate_rev:
  assumes "integrate_rev r sender routes src = (r', evs)"
  shows "good_posts (posted evs)"
  using assms by (auto simp: integrate_rev_def Let_def posted_flood split: if_splits prod.splits)

lemma good_remove_conn:
  assumes "remove_conn r c = (r', evs)"
  shows "good_posts (posted evs)"
  using assms by (auto simp: remove_conn_def Let_def posted_broadcast)

lemma good_remove_all: "remove_all r cs = (r', evs) \<Longrightarrow> good_posts (posted evs)"
proof (induction cs arbitrary: r r' evs)
  case (Cons c cs)
  then show ?case by (auto split: prod.splits dest: good_remove_conn)
qed simp

lemma good_add_conn:
  assumes "good_router i r" "add_conn r c = (r', evs)"
  shows "good_posts (posted evs)"
  using assms
  by (auto simp: add_conn_def Let_def on_connected_def conn_send_def good_posts_def get_known_routes_def
      self_route_def advertised_route_def good_router_def split: if_splits)

lemma subset_routes:
  "remove_conn r c = (r', evs) \<Longrightarrow> set (route_table r') \<subseteq> set (route_table r) \<and> rid r' = rid r"
  by (drule remove_conn_state) auto

lemma subset_routes_all:
  "remove_all r cs = (r', evs) \<Longrightarrow> set (route_table r') \<subseteq> set (route_table r) \<and> rid r' = rid r"
proof (induction cs arbitrary: r r' evs)
  case (Cons c cs)
  then show ?case by (auto split: prod.splits dest!: subset_routes) blast+
qed simp

lemma good_integrate_rev_routes:
  assumes "idx_wf rkey (route_table r)" "integrate_rev r sender routes src = (r', evs)"
  shows "set (route_table r') \<subseteq> set (route_table r) \<and> rid r' = rid r"
  using integrate_rev_fewer[OF assms] by auto

lemma good_routerD:
  assumes "good_router i r"
  shows "rid r = i" "core_ok r" "rt_ok (route_table r)" "idx_wf rkey (route_table r)"
    "\<And>e. e \<in> set (route_table r) \<Longrightarrow> simple_route i e"
  using assms by (simp_all add: good_router_def core_ok_def rt_ok_def)

lemma good_router_fewer:
  assumes "good_router i r" "core_ok r'" "set (route_table r') \<subseteq> set (route_table r) \<and> rid r' = rid r"
  shows "good_router i r'"
  using assms by (auto simp: good_router_def)

lemma good_handle_body:
  assumes good: "good_router i r" and body: "good_body b" and c: "c \<in> set (connections r)"
    and eq: "handle_body r b c = (r', evs)"
  shows "good_router i r' \<and> good_posts (posted evs)"
proof -
  note D = good_routerD[OF good]
  have core: "core_ok r'" using D(2) eq c by (rule handle_body_core)
  show ?thesis
  proof (cases b)
    case (RouteAdvertisement sender routes)
    with body have adv: "\<forall>x\<in>set routes. advertised_route sender x" by simp
    from eq RouteAdvertisement have e: "integrate_adv r sender routes (conn_id c) = (r', evs)" by simp
    show ?thesis
      using good_integrate_adv[OF good adv e] integrate_adv_state(1)[OF e] core D(1)
      by (simp add: good_router_def)
  next
    case (RouteRevocation sender routes)
    with eq have e: "integrate_rev r sender routes (conn_id c) = (r', evs)" by simp
    show ?thesis
      using good_integrate_rev_routes[OF D(4) e] good_integrate_rev[OF e] core good
      by (blast intro: good_router_fewer)
  next
    case (HelloMessage hello)
    with eq good core show ?thesis
      by (auto dest: subset_routes good_remove_conn intro: good_router_fewer split: if_splits)
  qed (use eq good in auto)
qed

lemma good_message:
  assumes good: "good_router i r" and body: "good_body (body m)" and c: "c \<in> set (connections r)"
    and eq: "on_message r h m c = (r', evs)"
  shows "good_router i r' \<and> good_posts (posted evs)"
proof (cases "hdest h \<noteq> rid r \<and> hdest h \<noteq> kBroadcastId")
  case True
  then have "on_message r h m c = (r, snd (forward r h m))" by (simp add: on_message_def)
  with eq have "r' = r \<and> evs = snd (forward r h m)" by (metis prod.inject)
  with good body show ?thesis
    by (auto simp: forward_def good_posts_def split: option.splits)
next
  case False
  obtain r1 evs1 where b: "handle_body r (body m) c = (r1, evs1)" using prod.exhaust by blast
  with False eq have "r' = r1" "evs = evs1 @ [EvReceive m (source h)]"
    by (auto simp: on_message_def)
  with good_handle_body[OF good body c b] show ?thesis by simp
qed

lemma good_step:
  assumes good: "good_router i r" and step: "router_step r op r' evs"
    and own: "\<And>j name. op = OpStart j name \<Longrightarrow> j = i"
    and msg: "\<And>h m c. op = OpMessage h m c \<Longrightarrow> good_body (body m)"
  shows "good_router i r' \<and> good_posts (posted evs)"
proof -
  note D = good_routerD[OF good]
  have core: "core_ok r'" using step D(2) by (rule router_step_core)
  from step show ?thesis
  proof (cases rule: router_step.cases)
    case (step_start j name)
    with good own core show ?thesis by (auto simp: good_router_def start_def)
  next
    case (step_connect c)
    then have "set (route_table r') \<subseteq> set (route_table r) \<and> rid r' = rid r"
      by (auto simp: add_conn_def Let_def split: if_splits)
    with good core good_add_conn[OF good step_connect(3)] show ?thesis by (blast intro: good_router_fewer)
  next
    case (step_message c h m)
    show ?thesis by (rule good_message[OF good msg[OF step_message(1)] step_message(2,3)])
  next
    case (step_disconnect c)
    then obtain r1 evs1 where rem: "remove_conn r c = (r1, evs1)"
      and r': "r' = r1" and evs: "evs = evs1 @ add_peer r1 (remote_ip c) False"
      by (auto simp: on_disconnect_def split: prod.splits)
    have "good_posts (posted evs)"
      using good_remove_conn[OF rem] evs by (simp add: add_peer_def)
    with good core subset_routes[OF rem] r' show ?thesis by (blast intro: good_router_fewer)
  next
    case step_hello
    with good show ?thesis by (simp add: hello_round_def posted_broadcast)
  next
    case step_shutdown
    then have "remove_all (r\<lparr>running := False\<rparr>) (connections r) = (r', evs)"
      by (simp add: shutdown_def Let_def)
    from subset_routes_all[OF this] good_remove_all[OF this] good core show ?thesis
      by (auto intro: good_router_fewer)
  qed
qed

lemma good_net_step: "net_step n n' \<Longrightarrow> good_net n \<Longrightarrow> good_net n'"
proof (induction rule: net_step.induct)
  case (1 n i op r' evs)
  then have good: "good_router i (nodes n i)" and pool: "good_posts (pool n)"
    by (simp_all add: good_net_def)
  from good 1(2) have "good_router i r' \<and> good_posts (posted evs)"
  proof (rule good_step)
    fix j name
    assume "op = OpStart j name"
    then show "j = i" using 1(1) by (simp add: deliverable_def)
  next
    fix h m c
    assume "op = OpMessage h m c"
    then show "good_body (body m)" using 1(1) pool by (auto simp: deliverable_def good_posts_def)
  qed
  with 1(3) show ?case by (simp add: good_net_def)
qed

lemma reachable_good: "net_reachable n \<Longrightarrow> good_net n"
proof (induction rule: net_reachable.induct)
  case (net_init names)
  show ?case
    by (simp add: init_net_def good_net_def good_router_def start_def init_router_def core_ok_def
        conns_ok_def owned_def)
qed (rule good_net_step)

section \<open>What holds in every network\<close>

text \<open>
  C1. However messages are lost, repeated, reordered or delivered to the wrong peer, every
  route a node holds is a simple path: it is not empty, visits no node twice, avoids the node
  itself and ends at the destination of the route.
\<close>

theorem network_routes_simple:
  assumes "net_reachable n" "e \<in> set (route_table (nodes n i))"
  shows "path e \<noteq> [] \<and> distinct (path e) \<and> i \<notin> set (path e) \<and> last (path e) = dest e"
proof -
  have "simple_route i e"
    using reachable_good[OF assms(1)] assms(2) by (auto simp: good_net_def good_router_def)
  then show ?thesis by (simp add: simple_route_def)
qed

lemma distinct_avoiding_length:
  fixes xs :: "u32 list"
  assumes "distinct xs" "i \<notin> set xs"
  shows "length xs < 2 ^ 32"
proof -
  have "length (i # xs) = card (set (i # xs))"
    by (subst distinct_card) (use assms in simp_all)
  also have "\<dots> \<le> card (UNIV :: u32 set)"
    by (rule card_mono) simp_all
  also have "\<dots> = 2 ^ 32" by (simp add: card_word)
  finally show ?thesis by simp
qed

text \<open>
  C11. The cost of every route in the network is the length of its path: the 32-bit sum that
  computes it never wraps around.
\<close>

theorem network_cost_is_path_length:
  assumes "net_reachable n" "e \<in> set (route_table (nodes n i))"
  shows "unat (cost e) = length (path e)"
proof -
  have r: "simple_route i e"
    using reachable_good[OF assms(1)] assms(2) by (auto simp: good_net_def good_router_def)
  then have "length (path e) < 2 ^ 32"
    using distinct_avoiding_length by (auto simp only: simple_route_def)
  with r show ?thesis by (simp add: simple_route_def unat_of_nat take_bit_nat_eq_self)
qed

text \<open>
  Nodes 1 and 2 connect. Node 2 advertises itself in the message \<open>demo_advert\<close>, and node 1
  takes it from the pool.
\<close>

definition conn_b :: conn where
  "conn_b = \<lparr>conn_id = 10, remote_ip = IPv4 1, local_ip = IPv4 2\<rparr>"

lemma net_node_step:
  assumes "net_reachable n" "deliverable n i op" "router_step (nodes n i) op r' evs"
  shows "net_reachable (n\<lparr>nodes := (nodes n)(i := r'), pool := posted evs @ pool n\<rparr>)"
  using assms by (blast intro: net_trans net_step.intros)

lemma demo_net:
  "\<exists>n. net_reachable n \<and> entry_of 2 [2] 10 \<in> set (route_table (nodes n 1))"
proof -
  let ?n0 = "init_net (\<lambda>_. ''one'')"
  let ?two = "nodes ?n0 2"
  obtain r2 where two: "add_conn ?two conn_b = (r2, [EvStart 10, EvSend 10 (header_of demo_advert) demo_advert])"
    by (simp add: init_net_def start_def init_router_def add_conn_def idx_has_def Let_def on_connected_def
        get_known_routes_def self_route_def conn_send_def demo_advert_def conn_b_def)
  define n1 where "n1 = ?n0\<lparr>nodes := (nodes ?n0)(2 := r2),
    pool := posted [EvStart 10, EvSend 10 (header_of demo_advert) demo_advert] @ pool ?n0\<rparr>"
  have "net_reachable n1"
    unfolding n1_def
    by (rule net_node_step[where op = "OpConnect conn_b", OF net_init])
       (use two in \<open>auto simp: deliverable_def init_net_def start_def init_router_def intro: step_connect\<close>)
  have one: "nodes n1 1 = start init_router 1 ''one''" by (simp add: n1_def init_net_def)
  have pool: "pool n1 = [(header_of demo_advert, demo_advert)]" by (simp add: n1_def init_net_def)
  obtain r1 evs where c: "add_conn (nodes n1 1) conn_a = (r1, evs)" using prod.exhaust by blast
  obtain r1' evs' where m: "on_message r1 (header_of demo_advert) demo_advert conn_a = (r1', evs')"
    using prod.exhaust by blast
  define n2 where "n2 = n1\<lparr>nodes := (nodes n1)(1 := r1), pool := posted evs @ pool n1\<rparr>"
  have "net_reachable n2"
    unfolding n2_def
    by (rule net_node_step[where op = "OpConnect conn_a", OF \<open>net_reachable n1\<close>])
       (use c one in \<open>auto simp: deliverable_def start_init intro: step_connect\<close>)
  define n3 where "n3 = n2\<lparr>nodes := (nodes n2)(1 := r1'), pool := posted evs' @ pool n2\<rparr>"
  have "net_reachable n3"
    unfolding n3_def
  proof (rule net_node_step[where op = "OpMessage (header_of demo_advert) demo_advert conn_a", OF \<open>net_reachable n2\<close>])
    have "(header_of demo_advert)\<lparr>ttl := ttl (header_of demo_advert)\<rparr> = header_of demo_advert" by simp
    then show "deliverable n2 1 (OpMessage (header_of demo_advert) demo_advert conn_a)"
      using pool by (simp add: n2_def deliverable_def)
        (metis \<open>(header_of demo_advert)\<lparr>ttl := ttl (header_of demo_advert)\<rparr> = header_of demo_advert\<close>)
    have "conn_a \<in> set (connections r1)"
      using c one by (auto simp: start_init add_conn_def idx_has_def Let_def)
    then show "router_step (nodes n2 1) (OpMessage (header_of demo_advert) demo_advert conn_a) r1' evs'"
      using m by (auto simp: n2_def intro: step_message)
  qed
  moreover have "r1' = demo_run (nodes n1 1)"
    using m c by (simp add: demo_run_def)
  then have "entry_of 2 [2] 10 \<in> set (route_table (nodes n3 1))"
    using one by (simp add: n3_def demo_run_eq start_init)
  ultimately show ?thesis by blast
qed

theorem network_routes_simple_witness:
  "\<exists>n. net_reachable n \<and> entry_of 2 [2] 10 \<in> set (route_table (nodes n 1))
    \<and> 1 \<notin> set (path (entry_of 2 [2] 10))"
  using demo_net network_routes_simple by blast

theorem network_cost_is_path_length_witness:
  "\<exists>n. net_reachable n \<and> entry_of 2 [2] 10 \<in> set (route_table (nodes n 1))
    \<and> unat (cost (entry_of 2 [2] 10)) = length (path (entry_of 2 [2] 10))"
  using demo_net network_cost_is_path_length by blast

end
