(* ===== verification/Wire.thy ===== *)
theory Wire
  imports Messages
begin

text \<open>
  The wire format of the router: headers as bytes (\<open>MessageHeader\<close>, little endian), the
  message writer (\<open>router/MessageWriter.hpp\<close>) and the message reader
  (\<open>router/MessageReader.hpp\<close>) on a socket whose data arrives in pieces of any size.
  Packing, verifying and unpacking the body are arguments, \<open>pack\<close> and \<open>unpack\<close>; what the generated code
  makes of them is in \<open>Encoding\<close>.
\<close>

unbundle bit_operations_syntax

section \<open>Headers as bytes\<close>

definition le32 :: "u32 \<Rightarrow> bytes" where
  "le32 w = [ucast w, ucast (drop_bit 8 w), ucast (drop_bit 16 w), ucast (drop_bit 24 w)]"

fun of_le32 :: "bytes \<Rightarrow> u32" where
  "of_le32 [a, b, c, d] =
     ucast a OR push_bit 8 (ucast b) OR push_bit 16 (ucast c) OR push_bit 24 (ucast d)"
| "of_le32 _ = 0"

definition encode_header :: "message_header \<Rightarrow> bytes" where
  "encode_header h =
     [version h, htype h, unused h, ttl h] @ le32 (size h) @ le32 (source h) @ le32 (hdest h)"

definition decode_header :: "bytes \<Rightarrow> message_header" where
  "decode_header bs =
     \<lparr>version = bs ! 0, htype = bs ! 1, unused = bs ! 2, ttl = bs ! 3,
      size = of_le32 (take 4 (drop 4 bs)), source = of_le32 (take 4 (drop 8 bs)),
      hdest = of_le32 (take 4 (drop 12 bs))\<rparr>"

lemma length_le32 [simp]: "length (le32 w) = 4"
  by (simp add: le32_def)

lemma of_le32_le32 [simp]: "of_le32 (le32 w) = w"
proof (rule bit_word_eqI)
  fix n
  assume "n < LENGTH(32)"
  then consider "n < 8" | "8 \<le> n" "n < 16" | "16 \<le> n" "n < 24" | "24 \<le> n" "n < 32"
    by fastforce
  then show "bit (of_le32 (le32 w)) n \<longleftrightarrow> bit w n"
    by cases (auto simp: le32_def bit_simps)
qed

lemma le32_of_le32:
  assumes "length bs = 4"
  shows "le32 (of_le32 bs) = bs"
proof -
  obtain a b c d where bs: "bs = [a, b, c, d]"
    using assms by (auto simp: numeral_eq_Suc length_Suc_conv)
  show ?thesis
    unfolding bs le32_def by (auto intro!: bit_word_eqI simp: bit_simps u8_no_bit)
qed

lemma length_encode_header [simp]: "length (encode_header h) = 16"
  by (simp add: encode_header_def)

lemma decode_encode_header: "decode_header (encode_header h @ bs) = h"
  by (cases h) (simp add: decode_header_def encode_header_def le32_def[symmetric] drop_Cons')

section \<open>The body by index\<close>

text \<open>
  \<open>make_variant_of_nth\<close>: the index in the variant of the body that is read for a type. A
  type without a body is read as index 0. The recursion of the helper template is kept.
\<close>

fun emplace_helper :: "nat \<Rightarrow> nat \<Rightarrow> nat" where
  "emplace_helper 0 n = 0"
| "emplace_helper (Suc N) n = (if n = Suc N then Suc N else emplace_helper N n)"

definition kBodyTypes :: nat where
  "kBodyTypes = 7"

definition variant_index :: "u8 \<Rightarrow> nat" where
  "variant_index t = emplace_helper (kBodyTypes - 1) (if unat t > kBodyTypes - 1 then 0 else unat t)"

lemma emplace_helper_eq: "emplace_helper N n = (if n \<le> N then n else 0)"
  by (induction N n rule: emplace_helper.induct) auto

lemma variant_index_eq: "variant_index t = (if unat t \<le> 6 then unat t else 0)"
  by (simp add: variant_index_def emplace_helper_eq kBodyTypes_def)

lemma variant_index_which [simp]: "variant_index (which b) = unat (which b)"
  by (cases b) (simp_all add: variant_index_eq)

text \<open>The body that \<open>nth_type ()\<close> constructs; it is what a failed read leaves.\<close>

definition default_body :: "nat \<Rightarrow> message_body" where
  "default_body n =
     (if n = 1 then HelloMessage \<lparr>hello_id = 0, hello_name = '''', hello_version = None, hello_os = 0\<rparr>
      else if n = 2 then RouteAdvertisement 0 []
      else if n = 3 then RouteRevocation 0 []
      else if n = 4 then ProxyClientConnect ''''
      else if n = 5 then ServerClaim 0 0
      else if n = 6 then CoreMessage []
      else UnknownMessage [])"

section \<open>The writer\<close>

definition body_bytes :: "(message_body \<Rightarrow> bytes) \<Rightarrow> message_body \<Rightarrow> bytes" where
  "body_bytes pack b = (case b of UnknownMessage bs \<Rightarrow> bs | _ \<Rightarrow> pack b)"

text \<open>\<open>do_write\<close>: the buffers handed to \<open>async_write\<close>, the size field cut to 32 bits.\<close>

definition write_bytes :: "(message_body \<Rightarrow> bytes) \<Rightarrow> message_header \<Rightarrow> message \<Rightarrow> bytes" where
  "write_bytes pack h m =
     (let bs = body_bytes pack (body m)
      in encode_header (h\<lparr>size := of_nat (length bs)\<rparr>) @ bs)"

section \<open>The socket\<close>

datatype sock_error = OperationAborted | SockError u32

text \<open>
  What a socket will deliver: pieces of data and errors, in order. An empty list is a socket
  on which nothing more arrives.
\<close>

datatype arrival = Data bytes | Fail sock_error

fun read_some :: "nat \<Rightarrow> arrival list \<Rightarrow> (bytes \<times> sock_error option \<times> arrival list) option" where
  "read_some k [] = None"
| "read_some k (Data bs # as) =
     Some (take k bs, None, if k < length bs then Data (drop k bs) # as else as)"
| "read_some k (Fail e # as) = Some ([], Some e, as)"

fun arrivals_size :: "arrival list \<Rightarrow> nat" where
  "arrivals_size [] = 0"
| "arrivals_size (Data bs # as) = Suc (length bs) + arrivals_size as"
| "arrivals_size (Fail e # as) = Suc (arrivals_size as)"

lemma read_some_less:
  "read_some k as = Some (bs, ec, as') \<Longrightarrow> 0 < k \<Longrightarrow> arrivals_size as' < arrivals_size as"
  by (induction k as rule: read_some.induct) (auto split: if_splits)

section \<open>The reader\<close>

record reader =
  read_size :: nat
  started :: bool
  rerror :: "sock_error option"

definition init_reader :: reader where
  "init_reader = \<lparr>read_size = 0, started = False, rerror = None\<rparr>"

definition reset :: "reader \<Rightarrow> reader" where
  "reset r = r\<lparr>read_size := 0, started := False\<rparr>"

definition default_max_transfer_size :: nat where
  "default_max_transfer_size = 65536"

text \<open>
  \<open>read_chunk\<close>, the completion condition of \<open>async_read\<close>. Its timer cancels the socket, which
  then fails with \<open>OperationAborted\<close>: that is one of the arrivals.
\<close>

definition read_chunk :: "reader \<Rightarrow> sock_error option \<Rightarrow> nat \<Rightarrow> reader \<times> nat" where
  "read_chunk r ec bytes_transferred =
     (if ec \<noteq> None \<or> bytes_transferred \<ge> read_size r then (r, 0)
      else
        (let r' = (if \<not> started r \<and> 0 < bytes_transferred then r\<lparr>started := True\<rparr> else r);
             bytes_left = read_size r - bytes_transferred
         in (r', min bytes_left default_max_transfer_size)))"

text \<open>
  \<open>asio::async_read\<close> reads pieces until the condition returns 0 or a piece is empty. \<open>None\<close>
  says that it waits for data that never arrives.
\<close>

function read_loop ::
  "reader \<Rightarrow> nat \<Rightarrow> bytes \<Rightarrow> arrival list \<Rightarrow> (reader \<times> bytes \<times> arrival list) option" where
  "read_loop r mx acc as =
     (if mx = 0 then Some (r, acc, as)
      else
        (case read_some mx as of
           None \<Rightarrow> None
         | Some (bs, ec, as') \<Rightarrow>
             (let r1 = r\<lparr>rerror := ec\<rparr>
              in if ec = None \<and> bs = [] then Some (r1, acc, as')
                 else
                   (let (r2, mx') = read_chunk r1 ec (length (acc @ bs))
                    in read_loop r2 mx' (acc @ bs) as'))))"
  by pat_completeness auto
termination
  by (relation "measure (\<lambda>(r, mx, acc, as). arrivals_size as)") (auto dest: read_some_less)

declare read_loop.simps [simp del]

definition async_read :: "reader \<Rightarrow> arrival list \<Rightarrow> (reader \<times> bytes \<times> arrival list) option" where
  "async_read r as =
     (let (r', mx) = read_chunk (r\<lparr>rerror := None\<rparr>) None 0 in read_loop r' mx [] as)"

text \<open>The header, when all of its bytes arrived, with its TTL decremented.\<close>

definition dec_ttl :: "message_header \<Rightarrow> message_header" where
  "dec_ttl h = (if ttl h \<noteq> 0 then h\<lparr>ttl := ttl h - 1\<rparr> else h)"

definition read_header ::
  "reader \<Rightarrow> arrival list \<Rightarrow> (reader \<times> message_header option \<times> arrival list) option" where
  "read_header r as =
     (case async_read (r\<lparr>read_size := 16\<rparr>) as of
        None \<Rightarrow> None
      | Some (r', bs, as') \<Rightarrow>
          if length bs \<noteq> 16 then Some (reset r', None, as')
          else Some (r', Some (dec_ttl (decode_header bs)), as'))"

text \<open>
  \<open>read_body\<close>: the bytes of the body, then for a flatbuffer the verifier and the unpacking,
  which is \<open>unpack i bs\<close> for the type of index \<open>i\<close>. The result has the success flag.
\<close>

definition parse_body :: "(nat \<Rightarrow> bytes \<Rightarrow> message_body option) \<Rightarrow> nat \<Rightarrow> bytes \<Rightarrow> message_body option" where
  "parse_body unpack i bs = (if i = 0 then Some (UnknownMessage bs) else unpack i bs)"

definition read_body ::
  "(nat \<Rightarrow> bytes \<Rightarrow> message_body option) \<Rightarrow> reader \<Rightarrow> message_header \<Rightarrow> arrival list
    \<Rightarrow> (reader \<times> message \<times> bool \<times> arrival list) option" where
  "read_body unpack r h as =
     (let i = variant_index (htype h);
          n = unat (size h);
          failed = \<lparr>body = default_body i, mtype = htype h, mttl = ttl h\<rparr>
      in case async_read (r\<lparr>read_size := n\<rparr>) as of
           None \<Rightarrow> None
         | Some (r', bs, as') \<Rightarrow>
             if length bs \<noteq> n then Some (reset r', failed, False, as')
             else
               (case parse_body unpack i bs of
                  None \<Rightarrow> Some (reset r', failed, False, as')
                | Some b \<Rightarrow> Some (reset r', failed\<lparr>body := b\<rparr>, True, as')))"

end
