(* ===== verification/Connection.thy ===== *)
theory Connection
  imports Wire
begin

text \<open>
  A connection (\<open>router/Connection.cpp\<close>): its receive loop, the queue of messages to send
  with the coroutine that writes them, and \<open>stop\<close>.
\<close>

section \<open>Reading what was written\<close>

text \<open>All data, in order, of arrivals without an error or an empty piece.\<close>

definition data_only :: "arrival list \<Rightarrow> bool" where
  "data_only as \<longleftrightarrow> (\<forall>a\<in>set as. case a of Data bs \<Rightarrow> bs \<noteq> [] | Fail _ \<Rightarrow> False)"

fun stream :: "arrival list \<Rightarrow> bytes" where
  "stream [] = []"
| "stream (Data bs # as) = bs @ stream as"
| "stream (Fail e # as) = stream as"

lemma data_only_simps [simp]:
  "data_only []" "data_only (Data bs # as) \<longleftrightarrow> bs \<noteq> [] \<and> data_only as" "\<not> data_only (Fail e # as)"
  by (simp_all add: data_only_def)

lemma read_some_data:
  assumes "data_only as" "0 < k" "stream as \<noteq> []"
  obtains bs as' where "read_some k as = Some (bs, None, as')" "bs \<noteq> []" "length bs \<le> k"
    "data_only as'" "stream as = bs @ stream as'"
proof (cases as)
  case (Cons a as1)
  with assms(1) obtain b where a: "a = Data b" by (cases a) auto
  show thesis
  proof (rule that)
    show "read_some k as = Some (take k b, None, if k < length b then Data (drop k b) # as1 else as1)"
      using Cons a by simp
  qed (use assms Cons a in auto)
qed (use assms in auto)

lemma read_chunk_None:
  assumes "n < read_size r"
  obtains r' where "read_chunk r None n = (r', min (read_size r - n) default_max_transfer_size)"
    "read_size r' = read_size r" "rerror r' = rerror r"
  using assms by (cases "\<not> started r \<and> 0 < n") (auto simp: read_chunk_def)

lemma read_loop_done:
  assumes "read_some mx as = Some (bs, None, as')" "bs \<noteq> []" "0 < mx"
    and "read_size r \<le> length (acc @ bs)"
  shows "read_loop r mx acc as = Some (r\<lparr>rerror := None\<rparr>, acc @ bs, as')"
  using assms by (subst read_loop.simps) (simp add: read_chunk_def read_loop.simps)

lemma read_loop_more:
  assumes "read_some mx as = Some (bs, None, as')" "bs \<noteq> []" "0 < mx"
    and "read_chunk (r\<lparr>rerror := None\<rparr>) None (length (acc @ bs)) = (r', mx')"
  shows "read_loop r mx acc as = read_loop r' mx' (acc @ bs) as'"
  using assms by (subst read_loop.simps) simp

lemma read_loop_data:
  assumes "data_only as" "length acc < read_size r"
    and "0 < mx" "mx \<le> read_size r - length acc" "read_size r - length acc \<le> length (stream as)"
  shows "\<exists>r' as'. read_loop r mx acc as = Some (r', acc @ take (read_size r - length acc) (stream as), as')
    \<and> read_size r' = read_size r \<and> rerror r' = None
    \<and> data_only as' \<and> stream as' = drop (read_size r - length acc) (stream as)"
  using assms
proof (induction "length (stream as)" arbitrary: r mx acc as rule: less_induct)
  case less
  from less.prems have "stream as \<noteq> []" by auto
  with less.prems obtain bs as' where rs: "read_some mx as = Some (bs, None, as')" "bs \<noteq> []" "length bs \<le> mx"
    "data_only as'" "stream as = bs @ stream as'"
    by (metis read_some_data)
  let ?n = "read_size r - length acc"
  show ?case
  proof (cases "length (acc @ bs) < read_size r")
    case True
    obtain r1 where c: "read_chunk (r\<lparr>rerror := None\<rparr>) None (length (acc @ bs)) =
        (r1, min (read_size r - length (acc @ bs)) default_max_transfer_size)" "read_size r1 = read_size r"
      using read_chunk_None[of "length (acc @ bs)" "r\<lparr>rerror := None\<rparr>"] True by auto
    have less: "length (stream as') < length (stream as)" using rs(2,5) by simp
    have "\<exists>r' as''. read_loop r1 (min (read_size r - length (acc @ bs)) default_max_transfer_size) (acc @ bs) as' =
        Some (r', (acc @ bs) @ take (read_size r1 - length (acc @ bs)) (stream as'), as'')
        \<and> read_size r' = read_size r1 \<and> rerror r' = None
        \<and> data_only as'' \<and> stream as'' = drop (read_size r1 - length (acc @ bs)) (stream as')"
      by (rule less.hyps[OF less rs(4)])
         (use True c(2) rs(5) less.prems(5) in \<open>auto simp: default_max_transfer_size_def\<close>)
    moreover have "take ?n (stream as) = bs @ take (read_size r - length (acc @ bs)) (stream as')"
      "drop ?n (stream as) = drop (read_size r - length (acc @ bs)) (stream as')"
      using rs(3,5) True by simp_all
    ultimately show ?thesis
      unfolding read_loop_more[OF rs(1,2) less.prems(3) c(1)] c(2) by simp
  next
    case False
    with rs(3) less.prems(2,4) have len: "length bs = ?n" by simp
    then have "take ?n (stream as) = bs" "drop ?n (stream as) = stream as'"
      using rs(5) by simp_all
    with read_loop_done[OF rs(1,2) less.prems(3)] False rs(4) show ?thesis by simp
  qed
qed

text \<open>However the data is cut into pieces, \<open>async_read\<close> returns the next bytes of the stream.\<close>

lemma async_read_data:
  assumes "data_only as" "read_size r \<le> length (stream as)"
  shows "\<exists>r' as'. async_read r as = Some (r', take (read_size r) (stream as), as')
    \<and> read_size r' = read_size r \<and> rerror r' = None
    \<and> data_only as' \<and> stream as' = drop (read_size r) (stream as)"
proof (cases "read_size r = 0")
  case True
  then have "async_read r as = Some (r\<lparr>rerror := None\<rparr>, [], as)"
    by (simp add: async_read_def read_chunk_def read_loop.simps)
  with True assms show ?thesis by simp
next
  case False
  obtain r1 where c: "read_chunk (r\<lparr>rerror := None\<rparr>) None 0 =
      (r1, min (read_size r) default_max_transfer_size)" "read_size r1 = read_size r"
    using read_chunk_None[of 0 "r\<lparr>rerror := None\<rparr>"] False by auto
  show ?thesis
    using read_loop_data[of as "[]" r1 "min (read_size r) default_max_transfer_size"] assms False c
    by (simp add: async_read_def default_max_transfer_size_def)
qed

section \<open>The receive loop\<close>

text \<open>One turn of the loop in \<open>Connection::start\<close>: what it hands to \<open>on_message\<close>, if anything.\<close>

definition receive_one ::
  "(nat \<Rightarrow> bytes \<Rightarrow> message_body option) \<Rightarrow> reader \<Rightarrow> arrival list
    \<Rightarrow> (reader \<times> (message_header \<times> message) option \<times> arrival list) option" where
  "receive_one unpack r as =
     (case read_header r as of
        None \<Rightarrow> None
      | Some (r1, None, as1) \<Rightarrow> Some (r1, None, as1)
      | Some (r1, Some h, as1) \<Rightarrow>
          (case read_body unpack r1 h as1 of
             None \<Rightarrow> None
           | Some (r2, m, success, as2) \<Rightarrow> Some (r2, if success then Some (h, m) else None, as2)))"

datatype receive_end = WaitingForData | StoppedProcessing | Cancelled | Disconnected

lemma read_loop_size:
  "read_loop r mx acc as = Some (r', bs, as') \<Longrightarrow>
    arrivals_size as' \<le> arrivals_size as \<and> (0 < mx \<longrightarrow> arrivals_size as' < arrivals_size as)"
proof (induction r mx acc as rule: read_loop.induct)
  case (1 r mx acc as)
  show ?case
  proof (cases "0 < mx \<and> read_some mx as \<noteq> None")
    case False
    with "1.prems" show ?thesis by (auto simp: read_loop.simps[of r mx acc as] split: if_splits option.splits)
  next
    case True
    then obtain b ec as1 where rs: "read_some mx as = Some (b, ec, as1)" by auto
    then have less: "arrivals_size as1 < arrivals_size as" using True by (auto dest: read_some_less)
    show ?thesis
    proof (cases "ec = None \<and> b = []")
      case True
      with "1.prems" rs less \<open>0 < mx \<and> _\<close> show ?thesis by (subst (asm) read_loop.simps) simp
    next
      case False
      obtain r2 mx2 where c: "read_chunk (r\<lparr>rerror := ec\<rparr>) ec (length (acc @ b)) = (r2, mx2)"
        using prod.exhaust by blast
      with "1.prems" rs False \<open>0 < mx \<and> _\<close> have "read_loop r2 mx2 (acc @ b) as1 = Some (r', bs, as')"
        by (subst (asm) read_loop.simps) (simp add: Let_def)
      with "1.IH"[OF _ rs refl refl refl False c[symmetric] refl] \<open>0 < mx \<and> _\<close> less show ?thesis by auto
    qed
  qed
qed

lemma async_read_size:
  assumes "async_read r as = Some (r', bs, as')"
  shows "arrivals_size as' \<le> arrivals_size as \<and> (0 < read_size r \<longrightarrow> arrivals_size as' < arrivals_size as)"
  using assms
  by (auto simp: async_read_def read_chunk_def default_max_transfer_size_def Let_def
      dest!: read_loop_size split: if_splits)

lemma receive_one_size:
  assumes "receive_one unpack r as = Some (r', x, as')"
  shows "arrivals_size as' < arrivals_size as"
  using assms
  by (fastforce simp: receive_one_def read_header_def read_body_def Let_def
      dest!: async_read_size split: option.splits if_splits prod.splits)

text \<open>
  The loop. \<open>en k\<close> is the value of \<open>enabled_\<close> that turn \<open>k\<close> finds after its message has
  been handled. \<open>on_disconnect\<close> is emitted exactly when the result is \<open>Disconnected\<close>.
\<close>

function receive_loop ::
  "(nat \<Rightarrow> bytes \<Rightarrow> message_body option) \<Rightarrow> (nat \<Rightarrow> bool) \<Rightarrow> nat \<Rightarrow> reader \<Rightarrow> arrival list
    \<Rightarrow> (message_header \<times> message) list \<times> receive_end" where
  "receive_loop unpack en k r as =
     (case receive_one unpack r as of
        None \<Rightarrow> ([], WaitingForData)
      | Some (r', msg, as') \<Rightarrow>
          (let out = (case msg of None \<Rightarrow> [] | Some hm \<Rightarrow> [hm])
           in if \<not> en k then (out, StoppedProcessing)
              else
                (case rerror r' of
                   Some OperationAborted \<Rightarrow> (out, Cancelled)
                 | Some (SockError _) \<Rightarrow> (out, Disconnected)
                 | None \<Rightarrow>
                     (let (more, end) = receive_loop unpack en (Suc k) r' as'
                      in (out @ more, end)))))"
  by pat_completeness auto
termination
  by (relation "measure (\<lambda>(u, en, k, r, as). arrivals_size as)") (auto dest: receive_one_size)

declare receive_loop.simps [simp del]

section \<open>The send queue\<close>

record connection =
  cid :: u32
  enabled :: bool
  message_queue :: "(message_header \<times> message) list"
  writers :: nat

text \<open>
  The constructor takes the next id of a counter; the receive coroutine begins by enabling the
  connection. \<open>writers\<close> counts the running write coroutines.
\<close>

definition new_connection :: "u32 \<Rightarrow> connection \<times> u32" where
  "new_connection next_connection_id =
     (let i = next_connection_id + 1
      in (\<lparr>cid = i, enabled = False, message_queue = [], writers = 0\<rparr>, i))"

definition begin_receiving :: "connection \<Rightarrow> connection" where
  "begin_receiving c = c\<lparr>enabled := True\<rparr>"

text \<open>\<open>stop\<close>, with whether it cancels the socket.\<close>

definition stop :: "connection \<Rightarrow> connection \<times> bool" where
  "stop c = (if \<not> enabled c then (c, False) else (c\<lparr>enabled := False\<rparr>, True))"

definition send_message :: "connection \<Rightarrow> message_header \<Rightarrow> message \<Rightarrow> connection" where
  "send_message c h m =
     (let c' = c\<lparr>message_queue := message_queue c @ [(h, m)]\<rparr>
      in if length (message_queue c') = 1 then c'\<lparr>writers := Suc (writers c')\<rparr> else c')"

text \<open>
  A write coroutine completes the write of the front message, pops it, and ends if the queue
  is then empty. The result of the write is not used.
\<close>

definition write_done :: "connection \<Rightarrow> connection \<times> (message_header \<times> message)" where
  "write_done c =
     (let msg_pair = hd (message_queue c);
          c' = c\<lparr>message_queue := tl (message_queue c)\<rparr>
      in (if message_queue c' = [] then c'\<lparr>writers := writers c' - 1\<rparr> else c', msg_pair))"

inductive queue_run ::
  "connection \<Rightarrow> (message_header \<times> message) list \<Rightarrow> (message_header \<times> message) list \<Rightarrow> bool" where
  queue_new: "queue_run (fst (new_connection n)) [] []"
| queue_send: "queue_run c sent written \<Longrightarrow> queue_run (send_message c h m) (sent @ [(h, m)]) written"
| queue_written: "queue_run c sent written \<Longrightarrow> 0 < writers c \<Longrightarrow> write_done c = (c', hm) \<Longrightarrow>
    queue_run c' sent (written @ [hm])"
| queue_begin: "queue_run c sent written \<Longrightarrow> queue_run (begin_receiving c) sent written"
| queue_stop: "queue_run c sent written \<Longrightarrow> stop c = (c', cancelled) \<Longrightarrow> queue_run c' sent written"

section \<open>Properties\<close>

text \<open>
  A connection writes the messages in the order in which they were sent, each once, and has
  at most one writer: one exactly when a message waits.
\<close>

theorem send_queue_in_order:
  assumes "queue_run c sent written"
  shows "sent = written @ message_queue c \<and> writers c = (if message_queue c = [] then 0 else 1)"
  using assms
proof (induction rule: queue_run.induct)
  case (queue_written c sent written c' hm)
  then obtain x xs where "message_queue c = x # xs"
    by (cases "message_queue c") auto
  with queue_written show ?case by (auto simp: write_done_def Let_def split: if_splits)
qed (auto simp: new_connection_def send_message_def begin_receiving_def stop_def Let_def split: if_splits)

theorem send_queue_in_order_witness:
  "\<exists>c. queue_run c [(default_header, empty_message), (default_header, message_of (ServerClaim 1 2))]
      [(default_header, empty_message)]
    \<and> message_queue c = [(default_header, message_of (ServerClaim 1 2))] \<and> writers c = 1"
proof -
  let ?m = "(default_header, empty_message)" and ?n = "(default_header, message_of (ServerClaim 1 2))"
  let ?c = "send_message (send_message (fst (new_connection 0)) default_header empty_message)
      default_header (message_of (ServerClaim 1 2))"
  have run: "queue_run ?c ([] @ [?m] @ [?n]) []"
    using queue_send[OF queue_send[OF queue_new]] by simp
  have w: "write_done ?c = (\<lparr>cid = 1, enabled = False, message_queue = [?n], writers = 1\<rparr>, ?m)"
    by (simp add: write_done_def send_message_def new_connection_def Let_def)
  have "0 < writers ?c" by (simp add: send_message_def new_connection_def Let_def)
  from queue_written[OF run this w] have
    q: "queue_run \<lparr>cid = 1, enabled = False, message_queue = [?n], writers = 1\<rparr> [?m, ?n] [?m]"
    by simp
  from send_queue_in_order[OF q] q show ?thesis by auto
qed

text \<open>What the peer is handed for a message that was sent.\<close>

definition received :: "(message_body \<Rightarrow> bytes) \<Rightarrow> message_header \<times> message \<Rightarrow> message_header \<times> message" where
  "received pack hm =
     (case hm of (h, m) \<Rightarrow>
        (let h' = dec_ttl (h\<lparr>size := of_nat (length (body_bytes pack (body m)))\<rparr>)
         in (h', \<lparr>body = body m, mtype = htype h, mttl = ttl h'\<rparr>)))"

text \<open>
  What the code relies on: the type of the header selects the type of the body, the length of
  the body fits the size field, and unpacking a packed flatbuffer gives it back.
\<close>

definition sendable ::
  "(message_body \<Rightarrow> bytes) \<Rightarrow> (nat \<Rightarrow> bytes \<Rightarrow> message_body option) \<Rightarrow> message_header \<times> message \<Rightarrow> bool" where
  "sendable pack unpack hm \<longleftrightarrow>
     (case hm of (h, m) \<Rightarrow>
        variant_index (htype h) = unat (which (body m))
        \<and> length (body_bytes pack (body m)) < 2 ^ 32
        \<and> (which (body m) \<noteq> 0 \<longrightarrow> unpack (unat (which (body m))) (pack (body m)) = Some (body m)))"

lemma parse_body_bytes:
  "sendable pack unpack (h, m) \<Longrightarrow>
    parse_body unpack (variant_index (htype h)) (body_bytes pack (body m)) = Some (body m)"
  by (cases "body m") (auto simp: sendable_def parse_body_def body_bytes_def)

lemma dec_ttl_simps [simp]:
  "size (dec_ttl h) = size h" "htype (dec_ttl h) = htype h"
  by (simp_all add: dec_ttl_def)

lemma receive_one_message:
  assumes "data_only as" "stream as = write_bytes pack h m @ rest" "sendable pack unpack (h, m)"
  shows "\<exists>r' as'. receive_one unpack r as = Some (r', Some (received pack (h, m)), as')
    \<and> rerror r' = None \<and> data_only as' \<and> stream as' = rest"
proof -
  let ?b = "body_bytes pack (body m)" let ?h = "h\<lparr>size := of_nat (length ?b)\<rparr>"
  have s: "stream as = encode_header ?h @ ?b @ rest"
    using assms(2) by (simp add: write_bytes_def Let_def)
  have len: "unat (of_nat (length ?b) :: u32) = length ?b"
    using assms(3) by (simp add: sendable_def unat_of_nat take_bit_nat_eq_self)
  obtain r1 as1 where h: "async_read (r\<lparr>read_size := 16\<rparr>) as = Some (r1, encode_header ?h, as1)"
    "data_only as1" "stream as1 = ?b @ rest"
    using async_read_data[OF assms(1), of "r\<lparr>read_size := 16\<rparr>"] s by auto
  have dec: "decode_header (encode_header ?h) = ?h"
    using decode_encode_header[of ?h "[]"] by simp
  have rh: "read_header r as = Some (r1, Some (dec_ttl ?h), as1)"
    using h(1) by (simp add: read_header_def dec)
  obtain r2 as2 where b: "async_read (r1\<lparr>read_size := length ?b\<rparr>) as1 = Some (r2, ?b, as2)"
    "rerror r2 = None" "data_only as2" "stream as2 = rest"
    using async_read_data[OF h(2), of "r1\<lparr>read_size := length ?b\<rparr>"] h(3) by auto
  have "read_body unpack r1 (dec_ttl ?h) as1 =
      Some (reset r2, \<lparr>body = body m, mtype = htype h, mttl = ttl (dec_ttl ?h)\<rparr>, True, as2)"
    using b(1) parse_body_bytes[OF assms(3)] by (simp add: read_body_def len Let_def)
  with rh have "receive_one unpack r as = Some (reset r2, Some (received pack (h, m)), as2)"
    by (simp add: receive_one_def received_def Let_def)
  with b show ?thesis by (simp add: reset_def)
qed

lemma receive_one_nothing: "receive_one unpack r [] = None"
  by (simp add: receive_one_def read_header_def async_read_def read_chunk_def read_loop.simps
      default_max_transfer_size_def)

lemma receive_loop_messages:
  assumes "data_only as" "stream as = concat (map (\<lambda>(h, m). write_bytes pack h m) ms)"
    and "\<forall>hm\<in>set ms. sendable pack unpack hm" "\<forall>j<k + length ms. en j"
  shows "receive_loop unpack en k r as = (map (received pack) ms, WaitingForData)"
  using assms
proof (induction ms arbitrary: as k r)
  case Nil
  then have "as = []" by (cases as rule: stream.cases) auto
  then show ?case by (simp add: receive_loop.simps receive_one_nothing)
next
  case (Cons hm ms)
  obtain h m where hm: "hm = (h, m)" using prod.exhaust by blast
  from Cons.prems hm have s: "stream as = write_bytes pack h m @ concat (map (\<lambda>(h, m). write_bytes pack h m) ms)"
    and ok: "sendable pack unpack (h, m)" by simp_all
  obtain r' as' where one: "receive_one unpack r as = Some (r', Some (received pack (h, m)), as')"
    "rerror r' = None" "data_only as'" "stream as' = concat (map (\<lambda>(h, m). write_bytes pack h m) ms)"
    using receive_one_message[OF Cons.prems(1) s ok] by blast
  have "receive_loop unpack en (Suc k) r' as' = (map (received pack) ms, WaitingForData)"
    by (rule Cons.IH[OF one(3,4)]) (use Cons.prems in auto)
  moreover have "en k" using Cons.prems(4) by simp
  ultimately show ?case
    by (subst receive_loop.simps) (simp add: one(1,2) hm)
qed

text \<open>
  Whatever the sizes of the pieces in which the bytes of some written messages arrive, the
  receive loop hands exactly these messages to \<open>on_message\<close>, in order, with the TTL decremented
  and the size filled in, and then waits for more.
\<close>

lemma wire_round_trip:
  assumes "data_only as" "stream as = concat (map (\<lambda>(h, m). write_bytes pack h m) ms)"
    and "\<forall>hm\<in>set ms. sendable pack unpack hm" "\<forall>k. en k"
  shows "receive_loop unpack en 0 init_reader as = (map (received pack) ms, WaitingForData)"
  using assms by (intro receive_loop_messages) auto

end
