(* ===== verification/Delivery.thy ===== *)
theory Delivery
  imports Network Connection
begin

text \<open>
  Delivery of messages across the network. Connections now join two nodes: what a router hands to a
  connection travels on a wire to the peer's end of it, where the receive loop hands it to the
  router (the header with its TTL decremented, by \<open>wire_round_trip\<close>). Wires may lose, repeat and
  reorder. The network only grows: routers come up, connections are made, and messages flow, but no
  connection is lost. Then what a node advertises stays true, so that every route leads to a node
  that is closer to the destination, and a message that is sent arrives.
\<close>

section \<open>Links and wires\<close>

text \<open>The node at the other end of a connection of a node, and that node's own end.\<close>

type_synonym links = "u32 \<Rightarrow> u32 \<Rightarrow> (u32 \<times> conn) option"

definition own_end :: "links \<Rightarrow> u32 \<Rightarrow> conn \<Rightarrow> bool" where
  "own_end L i a \<longleftrightarrow>
     (case L i (conn_id a) of None \<Rightarrow> False | Some (j, b) \<Rightarrow> L j (conn_id b) = Some (i, a))"

definition links_ok :: "links \<Rightarrow> bool" where
  "links_ok L \<longleftrightarrow> (\<forall>i c j b. L i c = Some (j, b) \<longrightarrow>
     i \<noteq> j \<and> (\<exists>a. conn_id a = c \<and> L j (conn_id b) = Some (i, a)))"

record wired =
  w_nodes :: "u32 \<Rightarrow> router"
  w_wires :: "(u32 \<times> conn \<times> message_header \<times> message) list"

definition carried ::
    "(message_body \<Rightarrow> bytes) \<Rightarrow> links \<Rightarrow> u32 \<Rightarrow> router_event list \<Rightarrow>
     (u32 \<times> conn \<times> message_header \<times> message) list" where
  "carried pack L i evs =
     concat (map (\<lambda>(c, h, m). case L i c of None \<Rightarrow> [] | Some (j, b) \<Rightarrow> [(j, b, received pack (h, m))])
       (sends evs))"

definition wire ::
    "(message_body \<Rightarrow> bytes) \<Rightarrow> links \<Rightarrow> u32 \<Rightarrow> router \<times> router_event list \<Rightarrow> wired \<Rightarrow> wired" where
  "wire pack L i result w =
     w\<lparr>w_nodes := (w_nodes w)(i := fst result), w_wires := carried pack L i (snd result) @ w_wires w\<rparr>"

text \<open>The messages that the other parts of the service send to one node.\<close>

fun application :: "message_body \<Rightarrow> bool" where
  "application (HelloMessage h) = False"
| "application (RouteAdvertisement s rs) = False"
| "application (RouteRevocation s rs) = False"
| "application _ = True"

definition new_wired :: "(u32 \<Rightarrow> string) \<Rightarrow> wired" where
  "new_wired names = \<lparr>w_nodes = (\<lambda>i. start init_router i (names i)), w_wires = []\<rparr>"

inductive wired_reach :: "(message_body \<Rightarrow> bytes) \<Rightarrow> links \<Rightarrow> wired \<Rightarrow> bool" for pack L where
  Wire_new: "wired_reach pack L (new_wired names)"
| Wire_connect: "wired_reach pack L w \<Longrightarrow> own_end L i c \<Longrightarrow>
    wired_reach pack L (wire pack L i (add_conn (w_nodes w i) c) w)"
| Wire_hello: "wired_reach pack L w \<Longrightarrow>
    wired_reach pack L (wire pack L i (w_nodes w i, hello_round (w_nodes w i)) w)"
| Wire_send: "wired_reach pack L w \<Longrightarrow> application (body m) \<Longrightarrow>
    wired_reach pack L (wire pack L i (w_nodes w i, snd (send (w_nodes w i) m d)) w)"
| Wire_deliver: "wired_reach pack L w \<Longrightarrow> (i, c, h, m) \<in> set (w_wires w) \<Longrightarrow>
    c \<in> set (connections (w_nodes w i)) \<Longrightarrow>
    wired_reach pack L (wire pack L i (on_message (w_nodes w i) h m c) w)"

section \<open>How near a destination is\<close>

definition near :: "route_table \<Rightarrow> u32 \<Rightarrow> u32 \<Rightarrow> bool" where
  "near t d n \<longleftrightarrow> (\<exists>e\<in>set t. dest e = d \<and> cost e \<le> n)"

lemma near_mono: "near t d n \<Longrightarrow> n \<le> n' \<Longrightarrow> near t d n'"
  by (auto simp: near_def)

text \<open>The first of a sorted table is the least, and it is one of the best routes.\<close>

lemma best_routes_first:
  assumes "idx_wf rkey G" "x \<in> set (idx_insert rkey e G)" "\<forall>y\<in>insert e (set G). dest y = dest e"
  shows "\<exists>y\<in>set (best_routes e G). cost y \<le> cost x"
proof -
  obtain y ys where S: "idx_insert rkey e G = y # ys"
    using assms(2) by (cases "idx_insert rkey e G") auto
  have "idx_wf rkey (y # ys)"
    using idx_wf_insert [OF assms(1), of e] S by simp
  moreover have "dest x = dest y"
    using assms(2,3) set_idx_insert_subset [of rkey e G] S by (metis list.set_intros(1) subsetD)
  ultimately have "cost y \<le> cost x"
    using assms(2) by (auto simp: S rkey_less_cost dest!: rkey_less_cost)
  then show ?thesis
    by (auto simp: best_routes_def S kDestRouteLimit_def numeral_3_eq_3)
qed

lemma near_group: "near t d n \<longleftrightarrow> (\<exists>e\<in>set (rt_group d t). cost e \<le> n)"
  by (auto simp: near_def rt_group_def)

lemma near_integrate:
  assumes "rt_ok t"
  shows "near t d n \<Longrightarrow> near (fst (rt_integrate e t)) d n"
    and "near (fst (rt_integrate e t)) (dest e) (cost e)"
proof -
  let ?G = "rt_group (dest e) t"
  have G: "idx_wf rkey ?G" "\<forall>y\<in>insert e (set ?G). dest y = dest e"
    using assms by (auto simp: rt_ok_def rt_group_def idx_wf_filter)
  have S: "\<exists>x\<in>set (idx_insert rkey e ?G). cost x = cost e" "set ?G \<subseteq> set (idx_insert rkey e ?G)"
    using set_idx_insert [OF G(1), of e] by (auto split: if_splits)
  show "near (fst (rt_integrate e t)) (dest e) (cost e)"
    using S(1) best_routes_first [OF G(1) _ G(2)] by (fastforce simp: near_group rt_group_integrate [OF assms])
  show "near (fst (rt_integrate e t)) d n" if near: "near t d n"
  proof (cases "d = dest e")
    case True
    obtain x where x: "x \<in> set ?G" "cost x \<le> n"
      using near True by (auto simp: near_group)
    obtain y where "y \<in> set (best_routes e ?G)" "cost y \<le> cost x"
      using best_routes_first [OF G(1) _ G(2)] x(1) S(2) by blast
    moreover have "cost y \<le> n"
      using calculation(2) x(2) by (rule order.trans)
    ultimately show ?thesis
      using True by (auto simp: near_group rt_group_integrate [OF assms])
  qed (use near in \<open>simp add: near_group rt_group_integrate [OF assms]\<close>)
qed

lemma adv_loop_near:
  assumes "rt_ok (route_table r)" "adv_loop r sender src rs = (r', adv, updated, evs)"
  shows "near (route_table r) d n \<Longrightarrow> near (route_table r') d n"
    and "x \<in> set adv \<Longrightarrow> near (route_table r') (dest x) (cost x)"
proof -
  have "rt_ok (route_table r) \<longrightarrow> (case adv_loop r sender src rs of (r', adv, updated, evs) \<Rightarrow>
      (\<forall>d n. near (route_table r) d n \<longrightarrow> near (route_table r') d n) \<and>
      (\<forall>x\<in>set adv. near (route_table r') (dest x) (cost x)))"
  proof (induction rule: adv_loop_induct)
    case (Accepted r route rs r1 installed evs r2 adv updated evs')
    show ?case
    proof (intro impI, clarify)
      assume ok: "rt_ok (route_table r)"
      have t: "route_table r1 = fst (rt_integrate (mk_entry (extend_route sender route) src) (route_table r))"
        using Accepted.hyps(2) by (auto simp: integrate_route_eq)
      have "rt_ok (route_table r1)"
        unfolding t by (rule rt_ok_integrate [OF ok])
      then show "(\<forall>d n. near (route_table r) d n \<longrightarrow> near (route_table r2) d n) \<and>
          (\<forall>x\<in>set (if installed then extend_route sender route # adv else adv).
             near (route_table r2) (dest x) (cost x))"
        using Accepted.IH near_integrate [OF ok, where e = "mk_entry (extend_route sender route) src"]
        by (auto simp: t)
    qed
  qed auto
  with assms show "near (route_table r) d n \<Longrightarrow> near (route_table r') d n"
    "x \<in> set adv \<Longrightarrow> near (route_table r') (dest x) (cost x)"
    by auto
qed

section \<open>What is on the wires is true\<close>

definition backed :: "(u32 \<Rightarrow> router) \<Rightarrow> u32 \<Rightarrow> u32 \<Rightarrow> u32 \<Rightarrow> bool" where
  "backed ns j d n \<longleftrightarrow> d = j \<or> near (route_table (ns j)) d n"

definition entry_ok :: "links \<Rightarrow> (u32 \<Rightarrow> router) \<Rightarrow> u32 \<Rightarrow> route_entry \<Rightarrow> bool" where
  "entry_ok L ns i e \<longleftrightarrow>
     (\<exists>c j b. connection e = Some c \<and> L i c = Some (j, b) \<and> b \<in> set (connections (ns j)) \<and>
        backed ns j (dest e) (cost e - 1))"

fun told :: "(u32 \<Rightarrow> router) \<Rightarrow> u32 \<Rightarrow> message_body \<Rightarrow> bool" where
  "told ns j (HelloMessage hello) = (hello_id hello = j)"
| "told ns j (RouteAdvertisement s rs) = (s = j \<and> (\<forall>x\<in>set rs. backed ns j (dest x) (cost x)))"
| "told ns j (RouteRevocation s rs) = False"
| "told ns j _ = True"

definition post_ok :: "(u32 \<Rightarrow> router) \<Rightarrow> u32 \<Rightarrow> message_header \<times> message \<Rightarrow> bool" where
  "post_ok ns j hm \<longleftrightarrow>
     good_body (body (snd hm)) \<and> told ns j (body (snd hm)) \<and>
     (\<not> application (body (snd hm)) \<longrightarrow> hdest (fst hm) = kBroadcastId)"

definition wire_ok :: "links \<Rightarrow> (u32 \<Rightarrow> router) \<Rightarrow> u32 \<times> conn \<times> message_header \<times> message \<Rightarrow> bool" where
  "wire_ok L ns x \<longleftrightarrow>
     (case x of (i, b, h, m) \<Rightarrow>
        \<exists>j a. L i (conn_id b) = Some (j, a) \<and> L j (conn_id a) = Some (i, b) \<and>
          a \<in> set (connections (ns j)) \<and> post_ok ns j (h, m))"

definition node_ok :: "links \<Rightarrow> (u32 \<Rightarrow> router) \<Rightarrow> u32 \<Rightarrow> bool" where
  "node_ok L ns i \<longleftrightarrow>
     good_router i (ns i) \<and> (\<forall>c\<in>set (connections (ns i)). own_end L i c) \<and>
     (\<forall>e\<in>set (route_table (ns i)). entry_ok L ns i e)"

definition wired_ok :: "links \<Rightarrow> wired \<Rightarrow> bool" where
  "wired_ok L w \<longleftrightarrow> (\<forall>i. node_ok L (w_nodes w) i) \<and> (\<forall>x\<in>set (w_wires w). wire_ok L (w_nodes w) x)"

text \<open>A router that grows keeps its connections, and no destination gets farther away.\<close>

definition grows :: "router \<Rightarrow> router \<Rightarrow> bool" where
  "grows r r' \<longleftrightarrow>
     set (connections r) \<subseteq> set (connections r') \<and>
     (\<forall>d n. near (route_table r) d n \<longrightarrow> near (route_table r') d n)"

lemma grows_refl [simp]: "grows r r"
  by (simp add: grows_def)

lemma grows_backed:
  "grows (ns i) r' \<Longrightarrow> backed ns j d n \<Longrightarrow> backed (ns(i := r')) j d n"
  by (auto simp: backed_def grows_def)

lemma grows_told: "grows (ns i) r' \<Longrightarrow> told ns j b \<Longrightarrow> told (ns(i := r')) j b"
  by (cases b) (auto intro: grows_backed)

lemma grows_conn:
  "grows (ns i) r' \<Longrightarrow> a \<in> set (connections (ns j)) \<Longrightarrow> a \<in> set (connections ((ns(i := r')) j))"
  by (auto simp: grows_def)

lemma grows_entry: "grows (ns i) r' \<Longrightarrow> entry_ok L ns j e \<Longrightarrow> entry_ok L (ns(i := r')) j e"
  unfolding entry_ok_def by (blast intro: grows_backed grows_conn)

lemma grows_post: "grows (ns i) r' \<Longrightarrow> post_ok ns j hm \<Longrightarrow> post_ok (ns(i := r')) j hm"
  by (simp add: post_ok_def grows_told)

lemma grows_wire: "grows (ns i) r' \<Longrightarrow> wire_ok L ns x \<Longrightarrow> wire_ok L (ns(i := r')) x"
  unfolding wire_ok_def by (cases x) (simp only: prod.case, blast intro: grows_post grows_conn)

lemma received_simps [simp]:
  "body (snd (received pack hm)) = body (snd hm)" "hdest (fst (received pack hm)) = hdest (fst hm)"
  "source (fst (received pack hm)) = source (fst hm)" "mtype (snd (received pack hm)) = htype (fst hm)"
  by (simp_all add: received_def dec_ttl_def Let_def split: prod.splits)

text \<open>One router makes a step; this is all there is to show of it.\<close>

lemma wired_ok_step:
  assumes ok: "wired_ok L w" and new: "good_router i r'" "\<forall>c\<in>set (connections r'). own_end L i c"
    "\<forall>e\<in>set (route_table r'). entry_ok L ((w_nodes w)(i := r')) i e" and grown: "grows (w_nodes w i) r'"
    and posts: "\<forall>(c, h, m)\<in>set (sends evs). c \<in> conn_id ` set (connections r') \<and>
      post_ok ((w_nodes w)(i := r')) i (h, m)"
  shows "wired_ok L (wire pack L i (r', evs) w)"
proof -
  let ?ns = "(w_nodes w)(i := r')"
  have "node_ok L ?ns j" for j
    using ok new grown by (cases "j = i") (auto simp: node_ok_def wired_ok_def intro: grows_entry)
  moreover have "wire_ok L ?ns x" if "x \<in> set (w_wires w)" for x
    using ok grown that by (simp add: wired_ok_def grows_wire)
  moreover have "wire_ok L ?ns x" if x: "x \<in> set (carried pack L i evs)" for x
  proof -
    obtain c h m j b where s: "(c, h, m) \<in> set (sends evs)" "L i c = Some (j, b)"
      "x = (j, b, received pack (h, m))"
      using x by (auto simp: carried_def split: option.splits)
    obtain a where a: "a \<in> set (connections r')" "c = conn_id a"
      using posts s(1) by auto
    have "own_end L i a"
      using new(2) a(1) by simp
    then have "L j (conn_id b) = Some (i, a)"
      using s(2) a(2) by (simp add: own_end_def)
    moreover have "post_ok ?ns i (received pack (h, m))"
      using posts s(1) by (auto simp: post_ok_def)
    ultimately show ?thesis
      unfolding wire_ok_def s(3) using s(2) a by (cases "received pack (h, m)") simp
  qed
  ultimately show ?thesis
    by (auto simp: wired_ok_def wire_def)
qed

section \<open>Every operation of a growing network\<close>

lemma wired_okD:
  assumes "wired_ok L w"
  shows "good_router i (w_nodes w i)" "\<And>c. c \<in> set (connections (w_nodes w i)) \<Longrightarrow> own_end L i c"
    "\<And>e. e \<in> set (route_table (w_nodes w i)) \<Longrightarrow> entry_ok L (w_nodes w) i e"
    "\<And>x. x \<in> set (w_wires w) \<Longrightarrow> wire_ok L (w_nodes w) x" "rid (w_nodes w i) = i"
  using assms by (auto simp: wired_ok_def node_ok_def good_router_def)

text \<open>A step that leaves the router as it is.\<close>

lemma wired_ok_same:
  assumes ok: "wired_ok L w"
    and posts: "\<forall>(c, h, m)\<in>set (sends evs). c \<in> conn_id ` set (connections (w_nodes w i)) \<and>
      post_ok (w_nodes w) i (h, m)"
  shows "wired_ok L (wire pack L i (w_nodes w i, evs) w)"
  by (rule wired_ok_step [OF ok]) (use wired_okD [OF ok] posts in \<open>auto simp: fun_upd_triv\<close>)

lemma sends_broadcast:
  "sends (broadcast r m) = (if running r then map (\<lambda>c. (conn_id c, header_of m, m)) (connections r) else [])"
  by (simp add: broadcast_eq)

lemma sends_flood:
  "set (sends (flood r m src)) \<subseteq> (\<lambda>c. (conn_id c, header_of m, m)) ` set (connections r)"
  by (auto simp: flood_eq)

lemma wired_ok_hello:
  assumes ok: "wired_ok L w"
  shows "wired_ok L (wire pack L i (w_nodes w i, hello_round (w_nodes w i)) w)"
  by (rule wired_ok_same [OF ok])
    (use wired_okD(5) [OF ok, of i] in
      \<open>auto simp: hello_round_def sends_broadcast post_ok_def kBroadcastId_def\<close>)

lemma forward_conn:
  assumes "owned r" "(c, h', m') \<in> set (sends (snd (forward r h m)))"
  shows "c \<in> conn_id ` set (connections r)" "h' = h" "m' = m"
  using assms find_SomeD [of "\<lambda>e. dest e = hdest h" "route_table r"]
  by (fastforce simp: forward_def owned_def split: option.splits)+

lemma wired_ok_forward:
  assumes ok: "wired_ok L w" and app: "application (body m)"
  shows "wired_ok L (wire pack L i (w_nodes w i, snd (forward (w_nodes w i) h m)) w)"
proof (rule wired_ok_same [OF ok], clarify)
  fix c h' m'
  assume s: "(c, h', m') \<in> set (sends (snd (forward (w_nodes w i) h m)))"
  have "owned (w_nodes w i)"
    using wired_okD(1) [OF ok] good_routerD(2) core_okD(4) by blast
  note f = forward_conn [OF this s]
  have "good_body (body m)" "told (w_nodes w) i (body m)"
    using app by (cases "body m"; simp)+
  then show "c \<in> conn_id ` set (connections (w_nodes w i)) \<and> post_ok (w_nodes w) i (h', m')"
    using f app by (simp add: post_ok_def)
qed

lemma own_end_unique:
  "own_end L i a \<Longrightarrow> own_end L i c \<Longrightarrow> conn_id a = conn_id c \<Longrightarrow> a = c"
  by (auto simp: own_end_def split: option.splits)

lemma near_self: "e \<in> set t \<Longrightarrow> near t (dest e) (cost e)"
  by (auto simp: near_def)

lemma wired_ok_connect:
  assumes ok: "wired_ok L w" and c: "own_end L i c"
  shows "wired_ok L (wire pack L i (add_conn (w_nodes w i) c) w)"
proof (cases "idx_has ckey (ckey c) (connections (w_nodes w i))")
  case True
  then show ?thesis
    using wired_ok_same [OF ok, of "[]" i pack] by (simp add: add_conn_def)
next
  case False
  let ?r = "w_nodes w i"
  obtain r' evs where a: "add_conn ?r c = (r', evs)"
    using prod.exhaust by blast
  have core: "core_ok ?r" and wf: "idx_wf ckey (connections ?r)"
    using wired_okD(1) [OF ok] good_routerD(2) core_okD(3) by (auto simp: conns_ok_def)
  have r': "r' = ?r\<lparr>connections := idx_insert ckey c (connections ?r)\<rparr>"
    and evs: "evs = EvStart (conn_id c) # on_connected r' c"
    using a False by (auto simp: add_conn_def Let_def)
  have conns: "set (connections r') = insert c (set (connections ?r))"
    using False set_idx_insert [OF wf, of c] by (simp add: r' idx_has_iff)
  have "conn_id c \<notin> conn_id ` set (connections ?r)"
  proof
    assume "conn_id c \<in> conn_id ` set (connections ?r)"
    then obtain a where "a \<in> set (connections ?r)" "conn_id a = conn_id c"
      by auto
    moreover from this have "a = c"
      using own_end_unique wired_okD(2) [OF ok] c by blast
    ultimately show False
      using False by (simp add: idx_has_iff)
  qed
  then have good: "good_router i r'"
    using add_conn_core [OF core a] wired_okD(1) [OF ok, of i] by (simp add: good_router_def r')
  have grown: "grows ?r r'"
    unfolding grows_def conns by (auto simp: r')
  have "good_posts (posted evs)"
    by (rule good_add_conn [OF wired_okD(1) [OF ok] a])
  then have body: "good_body (RouteAdvertisement i (self_route r' # get_known_routes r'))"
    using good by (simp add: evs on_connected_def conn_send_def good_posts_def good_router_def)
  have "told ((w_nodes w)(i := r')) i (RouteAdvertisement i (self_route r' # get_known_routes r'))"
    using good by (auto simp: backed_def self_route_def get_known_routes_def good_router_def near_self)
  then have posts: "\<forall>(c', h, m)\<in>set (sends evs). c' \<in> conn_id ` set (connections r') \<and>
      post_ok ((w_nodes w)(i := r')) i (h, m)"
    using body good conns
    by (simp add: evs on_connected_def conn_send_def post_ok_def good_router_def kBroadcastId_def)
  show ?thesis
    unfolding a
  proof (rule wired_ok_step [OF ok good _ _ grown posts])
    show "\<forall>c\<in>set (connections r'). own_end L i c"
      using c wired_okD(2) [OF ok] conns by auto
    show "\<forall>e\<in>set (route_table r'). entry_ok L ((w_nodes w)(i := r')) i e"
      using wired_okD(3) [OF ok, of _ i] grows_entry [of "w_nodes w" i r', OF grown] by (simp add: r')
  qed
qed

text \<open>The advertisement of the peer: its routes lead over the connection on which it came.\<close>

lemma wired_ok_advertised:
  assumes ok: "wired_ok L w" and links: "L i (conn_id b) = Some (j, a)" "a \<in> set (connections (w_nodes w j))"
    "b \<in> set (connections (w_nodes w i))" "i \<noteq> j"
    and told: "told (w_nodes w) j (RouteAdvertisement j rs)" "good_body (RouteAdvertisement j rs)"
    and eq: "integrate_adv (w_nodes w i) j rs (conn_id b) = (r', evs)"
    and good: "good_router i r'" "good_posts (posted evs)"
  shows "wired_ok L (wire pack L i (r', evs @ [EvReceive m s]) w)"
proof -
  let ?r = "w_nodes w i" and ?ns = "(w_nodes w)(i := r')"
  have rt: "rt_ok (route_table ?r)" and me: "rid ?r = i" "rid r' = i"
    using wired_okD(1,5) [OF ok, of i] good_routerD(3) good(1) by (auto simp: good_router_def)
  obtain r1 adv updated evs1 where l: "adv_loop ?r j (conn_id b) rs = (r1, adv, updated, evs1)"
    using prod_cases4 by blast
  note near = adv_loop_near [OF rt l] and loop = adv_loop_routes [OF rt l] adv_loop_frame [OF l]
  have r1: "r1 = r'" and evs: "evs = evs1 @ (if updated then flood r' (message_of (RouteAdvertisement i adv)) (conn_id b) else [])"
    using eq me links(4) by (auto simp: integrate_adv_def l)
  have conns: "connections r' = connections ?r"
    using integrate_adv_state(3) [OF eq] .
  have grown: "grows ?r r'"
    using near(1) r1 conns by (simp add: grows_def)
  have entries: "\<forall>e\<in>set (route_table r'). entry_ok L ?ns i e"
  proof
    fix e
    assume "e \<in> set (route_table r')"
    then consider "e \<in> set (route_table ?r)"
      | x where "x \<in> set rs" "e = mk_entry (extend_route j x) (conn_id b)"
      using loop(1) r1 by auto
    then show "entry_ok L ?ns i e"
    proof cases
      case 1
      then show ?thesis
        by (rule grows_entry [of "w_nodes w" i r', OF grown, OF wired_okD(3) [OF ok]])
    next
      case 2
      then have "backed ?ns j (dest x) (cost x)"
        using told(1) grows_backed [of "w_nodes w" i r', OF grown] by simp
      then show ?thesis
        using 2 links by (auto simp: entry_ok_def extend_route_def)
    qed
  qed
  have "\<forall>(c, h, m)\<in>set (sends evs). c \<in> conn_id ` set (connections r') \<and> post_ok ?ns i (h, m)"
  proof clarify
    fix c h m
    assume s: "(c, h, m) \<in> set (sends evs)"
    then have f: "c \<in> conn_id ` set (connections r')" "h = header_of m" "m = message_of (RouteAdvertisement i adv)"
      using loop(4) subsetD [OF sends_flood] by (fastforce simp: evs split: if_splits)+
    have "told ?ns i (RouteAdvertisement i adv)"
      using near(2) r1 by (auto simp: backed_def)
    moreover have "good_body (body m)"
      using good(2) s by (auto simp: good_posts_def posted_def)
    ultimately show "c \<in> conn_id ` set (connections r') \<and> post_ok ?ns i (h, m)"
      using f by (simp add: post_ok_def kBroadcastId_def)
  qed
  then have posts: "\<forall>(c, h, m)\<in>set (sends (evs @ [EvReceive m s])).
      c \<in> conn_id ` set (connections r') \<and> post_ok ?ns i (h, m)"
    by simp
  show ?thesis
    by (rule wired_ok_step [OF ok good(1) _ entries grown posts]) (simp add: conns wired_okD(2) [OF ok])
qed

lemma handle_application: "application b \<Longrightarrow> handle_body r b c = (r, [])"
  by (cases b) auto

lemma wired_ok_deliver:
  assumes ok: "wired_ok L w" and L: "links_ok L" and x: "(i, b, h, m) \<in> set (w_wires w)"
    and b: "b \<in> set (connections (w_nodes w i))"
  shows "wired_ok L (wire pack L i (on_message (w_nodes w i) h m b) w)"
proof -
  let ?r = "w_nodes w i"
  obtain j a where j: "L i (conn_id b) = Some (j, a)" "a \<in> set (connections (w_nodes w j))"
    and post: "post_ok (w_nodes w) j (h, m)"
    using wired_okD(4) [OF ok x] by (auto simp: wire_ok_def)
  have ij: "i \<noteq> j"
    using L j(1) by (auto simp: links_ok_def)
  have me: "rid ?r = i" and good: "good_router i ?r"
    using wired_okD(1,5) [OF ok] by simp_all
  have received: "wired_ok L (wire pack L i (?r, [EvReceive m s]) w)" for s
    by (rule wired_ok_same [OF ok]) simp
  show ?thesis
  proof (cases "application (body m)")
    case True
    then show ?thesis
      using wired_ok_forward [OF ok True, of pack i h] received [of "source h"] me
      by (simp add: on_message_def handle_application)
  next
    case False
    then have mine: "hdest h = kBroadcastId"
      using post by (simp add: post_ok_def)
    obtain r' evs where h: "handle_body ?r (body m) b = (r', evs)"
      using prod.exhaust by blast
    then have res: "on_message ?r h m b = (r', evs @ [EvReceive m (source h)])"
      using mine by (simp add: on_message_def)
    have g: "good_router i r'" "good_posts (posted evs)"
      using good_handle_body [OF good _ b h] post by (simp_all add: post_ok_def)
    show ?thesis
    proof (cases "body m")
      case (HelloMessage hello)
      then show ?thesis
        using post ij me received [of "source h"] by (simp add: on_message_def mine post_ok_def)
    next
      case (RouteAdvertisement s rs)
      then have "s = j"
        using post by (simp add: post_ok_def)
      then show ?thesis
        unfolding res using RouteAdvertisement post h
        by (intro wired_ok_advertised [OF ok j b ij _ _ _ g]) (auto simp: post_ok_def)
    qed (use False post in \<open>auto simp: post_ok_def\<close>)
  qed
qed

lemma wired_reach_ok:
  assumes "links_ok L" "wired_reach pack L w"
  shows "wired_ok L w"
  using assms(2)
proof induction
  case (Wire_new names)
  then show ?case
    by (auto simp: wired_ok_def node_ok_def new_wired_def good_router_def start_def init_router_def core_ok_def
        conns_ok_def owned_def)
next
  case (Wire_send w m i d)
  then show ?case
    by (simp add: send_def wired_ok_forward)
qed (simp_all add: wired_ok_connect wired_ok_hello wired_ok_deliver [OF _ assms(1)])

section \<open>Messages arrive\<close>

text \<open>The way of a message through the network as it is, from the events of the node that sent it: the
  node that receives it, with what its router hands on. The fuel is the number of hops.\<close>

fun travel ::
    "(message_body \<Rightarrow> bytes) \<Rightarrow> links \<Rightarrow> (u32 \<Rightarrow> router) \<Rightarrow> nat \<Rightarrow> u32 \<Rightarrow> router_event list \<Rightarrow>
     (u32 \<times> message \<times> u32) option" where
  "travel pack L ns 0 i evs = None"
| "travel pack L ns (Suc k) i evs =
     (case carried pack L i evs of
        [(j, b, h, m)] \<Rightarrow>
          (if b \<in> set (connections (ns j))
           then (let evs' = snd (on_message (ns j) h m b) in
                 case evs' of [EvReceive m' s] \<Rightarrow> Some (j, m', s) | _ \<Rightarrow> travel pack L ns k j evs')
           else None)
      | _ \<Rightarrow> None)"

lemma entry_cost_pos:
  assumes "good_router i r" "e \<in> set (route_table r)"
  shows "0 < unat (cost e)"
proof -
  have r: "simple_route i e"
    by (rule good_routerD(5) [OF assms])
  then have "length (path e) < 2 ^ 32" "path e \<noteq> []"
    using distinct_avoiding_length by (auto simp only: simple_route_def)
  with r show ?thesis
    by (simp add: simple_route_def unat_of_nat take_bit_nat_eq_self)
qed

lemma cost_drops:
  assumes "0 < unat (c :: u32)" "c \<le> n"
  shows "unat (c - 1) < unat n"
proof -
  have "unat (c - 1) = unat c - 1"
    using assms(1) by (metis unat_minus_one unat_0 less_numeral_extra(3))
  moreover have "unat c \<le> unat n"
    using assms(2) by (simp only: word_le_nat_alt)
  ultimately show ?thesis
    using assms(1) by linarith
qed

lemma near_find:
  assumes "near t d n" "idx_wf rkey t"
  shows "\<exists>e. find (\<lambda>e. dest e = d) t = Some e \<and> e \<in> set t \<and> dest e = d \<and> cost e \<le> n"
proof -
  obtain x where x: "x \<in> set t" "dest x = d" "cost x \<le> n"
    using assms(1) by (auto simp: near_def)
  then obtain e where e: "find (\<lambda>e. dest e = d) t = Some e"
    using find_None_dest [of d t] by (cases "find (\<lambda>e. dest e = d) t") auto
  have "cost e \<le> cost x"
    using find_sorted_least [OF assms(2) e] x by blast
  then show ?thesis
    using find_sorted_least [OF assms(2) e] e x(3) order.trans by blast
qed

lemma travel_arrives:
  assumes ok: "wired_ok L w" and "near (route_table (w_nodes w i)) d n"
    and "hdest h = d" "d \<noteq> kBroadcastId" "application (body m)"
  shows "\<exists>k\<le>unat n. \<exists>m'. travel pack L (w_nodes w) k i (snd (forward (w_nodes w i) h m)) =
    Some (d, m', source h) \<and> body m' = body m"
  using assms(2-)
proof (induction "unat n" arbitrary: i h m n rule: less_induct)
  case less
  let ?ns = "w_nodes w"
  have good: "good_router i (?ns i)"
    by (rule wired_okD(1) [OF ok])
  obtain e where e: "find (\<lambda>e. dest e = d) (route_table (?ns i)) = Some e" "e \<in> set (route_table (?ns i))"
    "dest e = d" "cost e \<le> n"
    using near_find [OF less.prems(1) good_routerD(4) [OF good]] by blast
  obtain c j b where c: "connection e = Some c" "L i c = Some (j, b)" "b \<in> set (connections (?ns j))"
    "backed ?ns j d (cost e - 1)"
    using wired_okD(3) [OF ok e(2)] e(3) by (auto simp: entry_ok_def)
  have cost: "unat (cost e - 1) < unat n" "0 < unat n"
    using cost_drops [OF entry_cost_pos [OF good e(2)] e(4)] by simp_all
  obtain h1 m1 where r: "received pack (h, m) = (h1, m1)"
    using prod.exhaust by blast
  have r1: "hdest h1 = d" "source h1 = source h" "body m1 = body m"
    using received_simps [of pack "(h, m)"] r less.prems(2) by simp_all
  have sent: "carried pack L i (snd (forward (?ns i) h m)) = [(j, b, h1, m1)]"
    using e(1) c(1,2) r less.prems(2) by (simp add: forward_def carried_def)
  have j: "rid (?ns j) = j"
    by (rule wired_okD(5) [OF ok])
  show ?case
  proof (cases "d = j")
    case True
    then have "travel pack L ?ns (Suc 0) i (snd (forward (?ns i) h m)) = Some (d, m1, source h)"
      using sent c(3) r1 j less.prems(4) by (simp add: on_message_def handle_application)
    then show ?thesis
      using r1(3) cost(2) by (intro exI [of _ "Suc 0"]) auto
  next
    case False
    then have "near (route_table (?ns j)) d (cost e - 1)"
      using c(4) by (simp add: backed_def)
    from less.hyps [OF cost(1) this r1(1) less.prems(3), of m1] obtain k m' where
      k: "k \<le> unat (cost e - 1)" "travel pack L ?ns k j (snd (forward (?ns j) h1 m1)) = Some (d, m', source h)"
      "body m' = body m"
      using less.prems(4) r1 by auto
    have on: "snd (on_message (?ns j) h1 m1 b) = snd (forward (?ns j) h1 m1)"
      using False r1(1) j less.prems(3) by (simp add: on_message_def)
    have "travel pack L ?ns (Suc k) i (snd (forward (?ns i) h m)) = Some (d, m', source h)"
      using sent c(3) on k(2) by (auto simp: Let_def forward_def split: option.splits)
    then show ?thesis
      using k cost(1) by (intro exI [of _ "Suc k"]) auto
  qed
qed

lemma travel_of_send:
  assumes "links_ok L" "wired_reach pack L w"
    and "e \<in> set (route_table (w_nodes w i))" "dest e = d" "d \<noteq> kBroadcastId" "application (body m)"
  shows "\<exists>hops\<le>length (path e). \<exists>m'.
    travel pack L (w_nodes w) hops i (snd (send (w_nodes w i) m d)) = Some (d, m', i) \<and> body m' = body m"
proof -
  have ok: "wired_ok L w"
    by (rule wired_reach_ok [OF assms(1,2)])
  have r: "simple_route i e"
    using good_routerD(5) [OF wired_okD(1) [OF ok] assms(3)] .
  then have "length (path e) < 2 ^ 32"
    using distinct_avoiding_length by (auto simp only: simple_route_def)
  then have "unat (cost e) = length (path e)"
    using r by (simp add: simple_route_def unat_of_nat take_bit_nat_eq_self)
  moreover have "near (route_table (w_nodes w i)) d (cost e)"
    using near_self [OF assms(3)] assms(4) by simp
  ultimately show ?thesis
    using travel_arrives [OF ok _ _ assms(5,6), of i "cost e" "(header_of m)\<lparr>source := i, hdest := d\<rparr>" pack]
      wired_okD(5) [OF ok, of i] by (simp add: send_def)
qed

text \<open>C2. In a growing network every message arrives: when a node knows any route to a destination, then
  what it sends there reaches the router of that destination, with its content and the sender's id,
  in at most as many hops as the route is long. No router on the way drops it, sends it in a
  circle, or takes it for itself, whatever was lost, repeated or reordered while the routes were
  built.\<close>

theorem sent_message_arrives:
  assumes "links_ok L" "wired_reach pack L w"
    and "e \<in> set (route_table (w_nodes w i))" "dest e = d" "d \<noteq> kBroadcastId" "application (body m)"
  shows "\<exists>hops\<le>length (path e). \<exists>m'.
    travel pack L (w_nodes w) hops i (snd (send (w_nodes w i) m d)) = Some (d, m', i) \<and> body m' = body m"
  by (rule travel_of_send [OF assms])

text \<open>Three nodes in a line: the first learns of the third from the second.\<close>

definition line_conn :: "u32 \<Rightarrow> u32 \<Rightarrow> u32 \<Rightarrow> conn" where
  "line_conn c there here = \<lparr>conn_id = c, remote_ip = IPv4 there, local_ip = IPv4 here\<rparr>"

definition line_links :: links where
  "line_links i c =
     (if i = 1 \<and> c = 12 then Some (2, line_conn 21 1 2)
      else if i = 2 \<and> c = 21 then Some (1, line_conn 12 2 1)
      else if i = 2 \<and> c = 23 then Some (3, line_conn 32 2 3)
      else if i = 3 \<and> c = 32 then Some (2, line_conn 23 3 2)
      else None)"

lemma line_links_ok: "links_ok line_links"
  by (auto simp: links_ok_def line_links_def line_conn_def)

definition line_pack :: "message_body \<Rightarrow> bytes" where
  "line_pack b = []"

definition line_connect :: "u32 \<Rightarrow> conn \<Rightarrow> wired \<Rightarrow> wired" where
  "line_connect i c w = wire line_pack line_links i (add_conn (w_nodes w i) c) w"

definition line_deliver :: "wired \<Rightarrow> wired" where
  "line_deliver w =
     (case hd (w_wires w) of
        (i, c, h, m) \<Rightarrow> wire line_pack line_links i (on_message (w_nodes w i) h m c) w)"

definition line_ready :: "wired \<Rightarrow> bool" where
  "line_ready w = (case w_wires w of [] \<Rightarrow> False | (i, c, h, m) # xs \<Rightarrow> c \<in> set (connections (w_nodes w i)))"

definition line_connected :: wired where
  "line_connected =
     line_connect 3 (line_conn 32 2 3) (line_connect 2 (line_conn 23 3 2)
       (line_connect 2 (line_conn 21 1 2) (line_connect 1 (line_conn 12 2 1) (new_wired (\<lambda>i. ''node'')))))"

lemma line_delivered:
  assumes "wired_reach line_pack line_links w" "line_ready w"
  shows "wired_reach line_pack line_links (line_deliver w)"
proof -
  obtain i c h m xs where "w_wires w = (i, c, h, m) # xs" "c \<in> set (connections (w_nodes w i))"
    using assms(2) by (auto simp: line_ready_def split: list.splits)
  then show ?thesis
    using Wire_deliver [OF assms(1), of i c h m] by (simp add: line_deliver_def)
qed

lemma line_reach: "wired_reach line_pack line_links (line_deliver (line_deliver line_connected))"
proof (rule line_delivered [OF line_delivered])
  have ends: "own_end line_links 1 (line_conn 12 2 1)" "own_end line_links 2 (line_conn 21 1 2)"
    "own_end line_links 2 (line_conn 23 3 2)" "own_end line_links 3 (line_conn 32 2 3)"
    by (simp_all add: own_end_def line_links_def line_conn_def)
  show "wired_reach line_pack line_links line_connected"
    unfolding line_connected_def line_connect_def by (intro Wire_connect Wire_new ends)
  show "line_ready line_connected" "line_ready (line_deliver line_connected)"
    by code_simp+
qed

lemma line_route:
  "map (\<lambda>e. (dest e, path e)) (route_table (w_nodes (line_deliver (line_deliver line_connected)) 1)) = [(3, [2, 3])]"
  by code_simp

theorem sent_message_arrives_witness:
  "\<exists>hops m'. hops \<le> 2 \<and> body m' = ServerClaim 7 8 \<and>
    travel line_pack line_links (w_nodes (line_deliver (line_deliver line_connected))) hops 1
      (snd (send (w_nodes (line_deliver (line_deliver line_connected)) 1) (message_of (ServerClaim 7 8)) 3)) =
    Some (3, m', 1)"
proof -
  let ?w = "line_deliver (line_deliver line_connected)"
  obtain e where "route_table (w_nodes ?w 1) = [e]" "dest e = 3" "path e = [2, 3]"
    using line_route by auto
  moreover have "(3 :: u32) \<noteq> kBroadcastId"
    by (simp add: kBroadcastId_def)
  ultimately obtain hops m' where "hops \<le> Suc (Suc 0)" "body m' = ServerClaim 7 8"
    "travel line_pack line_links (w_nodes ?w) hops 1 (snd (send (w_nodes ?w 1) (message_of (ServerClaim 7 8)) 3)) =
      Some (3, m', 1)"
    using sent_message_arrives [OF line_links_ok line_reach, of e 1 3 "message_of (ServerClaim 7 8)"]
    by auto
  then show ?thesis
    by (intro exI [of _ hops] exI [of _ m']) auto
qed

end
