(* ===== verification/CodecV1.thy ===== *)
theory CodecV1
  imports Prelude
begin

text \<open>
  The codec of the version 1 protocol, the messages the core programs exchange:
  \<open>protocol/v1/MessageCodec.hpp\<close> (integers, strings and vectors as bytes) and the message
  types of \<open>protocol/v1/MessageTypes.hpp\<close> and \<open>MessageTypes.cpp\<close>. The code writes through a
  moving \<open>char*\<close> and reads from a pointer and a remaining size; here a writer returns its bytes
  and a reader the rest of its buffer. The sums of sizes are those of a 64-bit \<open>size_t\<close>.
\<close>

unbundle bit_operations_syntax

section \<open>Fields\<close>

datatype field_type = TU8 | TS16 | TU16 | TU32 | TStr | TVec | TVer

text \<open>A signed 16-bit integer is kept as its bits, which is all that the codec uses of it.\<close>

datatype field =
    FU8 u8 | FS16 u16 | FU16 u16 | FU32 u32 | FStr bytes | FVec "u32 list" | FVer u16 u16

fun field_type_of :: "field \<Rightarrow> field_type" where
  "field_type_of (FU8 _) = TU8"
| "field_type_of (FS16 _) = TS16"
| "field_type_of (FU16 _) = TU16"
| "field_type_of (FU32 _) = TU32"
| "field_type_of (FStr _) = TStr"
| "field_type_of (FVec _) = TVec"
| "field_type_of (FVer _ _) = TVer"

datatype codec_error = IntegerBounds | StringBounds | ArrayBounds | BadHeader | BadNumericCast

fun size_of :: "field \<Rightarrow> nat" where
  "size_of (FU8 _) = 1"
| "size_of (FS16 _) = 2"
| "size_of (FU16 _) = 2"
| "size_of (FU32 _) = 4"
| "size_of (FStr s) = 4 + length s"
| "size_of (FVec v) = 4 + length v * 4"
| "size_of (FVer _ _) = 2 + 2"

section \<open>Integers\<close>

definition be16 :: "u16 \<Rightarrow> bytes" where
  "be16 w = [ucast (drop_bit 8 w), ucast w]"

definition be32 :: "u32 \<Rightarrow> bytes" where
  "be32 w = [ucast (drop_bit 24 w), ucast (drop_bit 16 w), ucast (drop_bit 8 w), ucast w]"

fun of_be16 :: "bytes \<Rightarrow> u16" where
  "of_be16 [a, b] = push_bit 8 (ucast a) OR ucast b"
| "of_be16 _ = 0"

fun of_be32 :: "bytes \<Rightarrow> u32" where
  "of_be32 [a, b, c, d] =
     push_bit 24 (ucast a) OR push_bit 16 (ucast b) OR push_bit 8 (ucast c) OR ucast d"
| "of_be32 _ = 0"

text \<open>The bounds check and the copy that every integer read starts with.\<close>

definition take_int :: "nat \<Rightarrow> bytes \<Rightarrow> codec_error + bytes \<times> bytes" where
  "take_int n buf = (if length buf < n then Inl IntegerBounds else Inr (take n buf, drop n buf))"

fun read_ints :: "nat \<Rightarrow> bytes \<Rightarrow> codec_error + u32 list \<times> bytes" where
  "read_ints 0 buf = Inr ([], buf)"
| "read_ints (Suc n) buf =
     bindE (take_int 4 buf) (\<lambda>(x, buf).
       bindE (read_ints n buf) (\<lambda>(xs, buf). Inr (of_be32 x # xs, buf)))"

section \<open>Reading and writing a field\<close>

fun read_field :: "field_type \<Rightarrow> bytes \<Rightarrow> codec_error + field \<times> bytes" where
  "read_field TU8 buf = bindE (take_int 1 buf) (\<lambda>(x, buf). Inr (FU8 (hd x), buf))"
| "read_field TS16 buf = bindE (take_int 2 buf) (\<lambda>(x, buf). Inr (FS16 (of_be16 x), buf))"
| "read_field TU16 buf = bindE (take_int 2 buf) (\<lambda>(x, buf). Inr (FU16 (of_be16 x), buf))"
| "read_field TU32 buf = bindE (take_int 4 buf) (\<lambda>(x, buf). Inr (FU32 (of_be32 x), buf))"
| "read_field TStr buf =
     bindE (take_int 4 buf) (\<lambda>(x, buf).
       let n = unat (of_be32 x)
       in if length buf < n then Inl StringBounds else Inr (FStr (take n buf), drop n buf))"
| "read_field TVec buf =
     bindE (take_int 4 buf) (\<lambda>(x, buf).
       let n = unat (of_be32 x)
       in if length buf < n * 4 then Inl ArrayBounds
          else bindE (read_ints n buf) (\<lambda>(xs, buf). Inr (FVec xs, buf)))"
| "read_field TVer buf =
     bindE (take_int 2 buf) (\<lambda>(x, buf).
       bindE (take_int 2 buf) (\<lambda>(y, buf). Inr (FVer (of_be16 x) (of_be16 y), buf)))"

fun read_fields :: "field_type list \<Rightarrow> bytes \<Rightarrow> codec_error + field list \<times> bytes" where
  "read_fields [] buf = Inr ([], buf)"
| "read_fields (t # ts) buf =
     bindE (read_field t buf) (\<lambda>(f, buf).
       bindE (read_fields ts buf) (\<lambda>(fs, buf). Inr (f # fs, buf)))"

text \<open>\<open>numeric_cast\<close> of a length to 32 bits.\<close>

definition write_length :: "nat \<Rightarrow> codec_error + bytes" where
  "write_length n = (if n < 2 ^ 32 then Inr (be32 (of_nat n)) else Inl BadNumericCast)"

fun write_field :: "field \<Rightarrow> codec_error + bytes" where
  "write_field (FU8 w) = Inr [w]"
| "write_field (FS16 w) = Inr (be16 w)"
| "write_field (FU16 w) = Inr (be16 w)"
| "write_field (FU32 w) = Inr (be32 w)"
| "write_field (FStr s) = bindE (write_length (length s)) (\<lambda>n. Inr (n @ s))"
| "write_field (FVec v) = bindE (write_length (length v)) (\<lambda>n. Inr (n @ concat (map be32 v)))"
| "write_field (FVer a b) = Inr (be16 a @ be16 b)"

fun write_fields :: "field list \<Rightarrow> codec_error + bytes" where
  "write_fields [] = Inr []"
| "write_fields (f # fs) =
     bindE (write_field f) (\<lambda>b. bindE (write_fields fs) (\<lambda>bs. Inr (b @ bs)))"

section \<open>Messages\<close>

datatype v1_type =
    Hello | HelloBack | Noop | Close | Enter | Leave | ClipboardGrab | Screensaver |
    ResetOptions | InfoAck | KeepAlive | KeyDown | KeyRepeat | KeyUp | MouseDown | MouseUp |
    MouseMove | MouseRelMove | MouseWheelMove | ClipboardData | Info | SetOptions |
    FileTransfer | DragInfo | InfoQuery | Incompatible | Busy | Unknown | Bad

definition all_types :: "v1_type list" where
  "all_types =
     [Hello, HelloBack, Noop, Close, Enter, Leave, ClipboardGrab, Screensaver, ResetOptions,
      InfoAck, KeepAlive, KeyDown, KeyRepeat, KeyUp, MouseDown, MouseUp, MouseMove,
      MouseRelMove, MouseWheelMove, ClipboardData, Info, SetOptions, FileTransfer, DragInfo,
      InfoQuery, Incompatible, Busy, Unknown, Bad]"

fun type_tag :: "v1_type \<Rightarrow> bytes" where
  "type_tag Hello = ascii ''Synergy''"
| "type_tag HelloBack = ascii ''Synergy''"
| "type_tag Noop = ascii ''CNOP''"
| "type_tag Close = ascii ''CBYE''"
| "type_tag Enter = ascii ''CINN''"
| "type_tag Leave = ascii ''COUT''"
| "type_tag ClipboardGrab = ascii ''CCLP''"
| "type_tag Screensaver = ascii ''CSEC''"
| "type_tag ResetOptions = ascii ''CROP''"
| "type_tag InfoAck = ascii ''CIAK''"
| "type_tag KeepAlive = ascii ''CALV''"
| "type_tag KeyDown = ascii ''DKDN''"
| "type_tag KeyRepeat = ascii ''DKRP''"
| "type_tag KeyUp = ascii ''DKUP''"
| "type_tag MouseDown = ascii ''DMDN''"
| "type_tag MouseUp = ascii ''DMUP''"
| "type_tag MouseMove = ascii ''DMMV''"
| "type_tag MouseRelMove = ascii ''DMRM''"
| "type_tag MouseWheelMove = ascii ''DMWM''"
| "type_tag ClipboardData = ascii ''DCLP''"
| "type_tag Info = ascii ''DINF''"
| "type_tag SetOptions = ascii ''DSOP''"
| "type_tag FileTransfer = ascii ''DFTR''"
| "type_tag DragInfo = ascii ''DDRG''"
| "type_tag InfoQuery = ascii ''QINF''"
| "type_tag Incompatible = ascii ''EICV''"
| "type_tag Busy = ascii ''EBSY''"
| "type_tag Unknown = ascii ''EUNK''"
| "type_tag Bad = ascii ''EBAD''"

fun schema :: "v1_type \<Rightarrow> field_type list" where
  "schema Hello = [TVer]"
| "schema HelloBack = [TVer, TStr]"
| "schema Noop = []"
| "schema Close = []"
| "schema Enter = [TS16, TS16, TU32, TU16]"
| "schema Leave = []"
| "schema ClipboardGrab = [TU8, TU32]"
| "schema Screensaver = [TU8]"
| "schema ResetOptions = []"
| "schema InfoAck = []"
| "schema KeepAlive = []"
| "schema KeyDown = [TU16, TU16, TU16]"
| "schema KeyRepeat = [TU16, TU16, TU16, TU16]"
| "schema KeyUp = [TU16, TU16, TU16]"
| "schema MouseDown = [TU8]"
| "schema MouseUp = [TU8]"
| "schema MouseMove = [TS16, TS16]"
| "schema MouseRelMove = [TS16, TS16]"
| "schema MouseWheelMove = [TS16, TS16]"
| "schema ClipboardData = [TU8, TU32, TU8, TStr]"
| "schema Info = [TS16, TS16, TU16, TU16, TU16, TS16, TS16]"
| "schema SetOptions = [TVec]"
| "schema FileTransfer = [TU8, TStr]"
| "schema DragInfo = [TU16, TStr]"
| "schema InfoQuery = []"
| "schema Incompatible = [TVer]"
| "schema Busy = []"
| "schema Unknown = []"
| "schema Bad = []"

record v1_message =
  vtype :: v1_type
  args :: "field list"

definition message_size :: "v1_message \<Rightarrow> nat" where
  "message_size m = length (type_tag (vtype m)) + sum_list (map size_of (args m))"

definition write_to :: "v1_message \<Rightarrow> codec_error + bytes" where
  "write_to m = bindE (write_fields (args m)) (\<lambda>bs. Inr (type_tag (vtype m) @ bs))"

text \<open>
  \<open>read_from (header, data, end)\<close> on a new message of type \<open>t\<close>: the bytes from \<open>header\<close> to
  \<open>data\<close>, and those from \<open>data\<close> to \<open>end\<close>. Bytes after the last argument are ignored.
\<close>

definition read_from :: "v1_type \<Rightarrow> bytes \<Rightarrow> bytes \<Rightarrow> codec_error + v1_message" where
  "read_from t header data =
     (if length header \<noteq> length (type_tag t) \<or> header \<noteq> type_tag t then Inl BadHeader
      else bindE (read_fields (schema t) data) (\<lambda>(fs, rest). Inr \<lparr>vtype = t, args = fs\<rparr>))"

definition well_typed :: "v1_message \<Rightarrow> bool" where
  "well_typed m \<longleftrightarrow> map field_type_of (args m) = schema (vtype m)"

section \<open>Integers round trip\<close>

lemma length_be [simp]: "length (be16 v) = 2" "length (be32 w) = 4"
  by (simp_all add: be16_def be32_def)

lemma of_be16_be16 [simp]: "of_be16 (be16 w) = w"
proof (rule bit_word_eqI)
  fix n
  assume "n < LENGTH(16)"
  then consider "n < 8" | "8 \<le> n" "n < 16" by fastforce
  then show "bit (of_be16 (be16 w)) n \<longleftrightarrow> bit w n"
    by cases (auto simp: be16_def bit_simps)
qed

lemma of_be32_be32 [simp]: "of_be32 (be32 w) = w"
proof (rule bit_word_eqI)
  fix n
  assume "n < LENGTH(32)"
  then consider "n < 8" | "8 \<le> n" "n < 16" | "16 \<le> n" "n < 24" | "24 \<le> n" "n < 32" by fastforce
  then show "bit (of_be32 (be32 w)) n \<longleftrightarrow> bit w n"
    by cases (auto simp: be32_def bit_simps)
qed

lemma be16_of_be16:
  assumes "length bs = 2"
  shows "be16 (of_be16 bs) = bs"
proof -
  obtain a b where bs: "bs = [a, b]"
    using assms by (auto simp: numeral_eq_Suc length_Suc_conv)
  show ?thesis
    unfolding bs be16_def by (auto intro!: bit_word_eqI simp: bit_simps u8_no_bit)
qed

lemma be32_of_be32:
  assumes "length bs = 4"
  shows "be32 (of_be32 bs) = bs"
proof -
  obtain a b c d where bs: "bs = [a, b, c, d]"
    using assms by (auto simp: numeral_eq_Suc length_Suc_conv)
  show ?thesis
    unfolding bs be32_def by (auto intro!: bit_word_eqI simp: bit_simps u8_no_bit)
qed

section \<open>Fields round trip\<close>

lemma take_int_append [simp]: "length x = n \<Longrightarrow> take_int n (x @ buf) = Inr (x, buf)"
  by (auto simp: take_int_def)

lemma take_int_Inr: "take_int n buf = Inr (x, rest) \<longleftrightarrow> buf = x @ rest \<and> length x = n"
  by (auto simp: take_int_def)

lemma write_length_Inr: "write_length n = Inr bs \<longleftrightarrow> n < 2 ^ 32 \<and> bs = be32 (of_nat n)"
  by (auto simp: write_length_def)

lemma length_unat: "n < 2 ^ 32 \<Longrightarrow> unat (of_nat n :: u32) = n"
  by (simp add: unat_of_nat take_bit_nat_eq_self)

lemma read_ints_be32: "read_ints (length v) (concat (map be32 v) @ buf) = Inr (v, buf)"
  by (induction v) simp_all

lemma length_be32s [simp]: "length (concat (map be32 v)) = length v * 4"
  by (induction v) simp_all

lemma read_field_write:
  assumes "write_field f = Inr bs"
  shows "read_field (field_type_of f) (bs @ buf) = Inr (f, buf)"
proof (cases f)
  case (FU8 w)
  with assms show ?thesis by (auto simp: take_int_append[of "[w]" 1, simplified])
qed (use assms in \<open>auto simp: bindE_Inr_iff write_length_Inr length_unat read_ints_be32\<close>)

lemma read_fields_write:
  "write_fields fs = Inr bs \<Longrightarrow> read_fields (map field_type_of fs) (bs @ buf) = Inr (fs, buf)"
  by (induction fs arbitrary: bs) (auto simp: bindE_Inr_iff read_field_write)

lemma read_ints_Inr:
  "read_ints n buf = Inr (v, rest) \<Longrightarrow> buf = concat (map be32 v) @ rest \<and> length v = n"
  by (induction n arbitrary: buf v) (fastforce simp: bindE_Inr_iff take_int_Inr be32_of_be32)+

lemma length_of_be32:
  assumes "length x = 4" "n = unat (of_be32 x)"
  shows "write_length n = Inr x"
proof -
  have "unat (of_be32 x) < 2 ^ LENGTH(32)" by (rule unsigned_less)
  with assms show ?thesis by (simp add: write_length_def be32_of_be32)
qed

lemma read_field_Inr:
  assumes "read_field t buf = Inr (f, rest)"
  shows "field_type_of f = t \<and> (\<exists>bs. write_field f = Inr bs \<and> buf = bs @ rest)"
proof (cases t)
  case TU8
  with assms show ?thesis by (auto simp: bindE_Inr_iff take_int_Inr length_Suc_conv)
next
  case TStr
  with assms obtain x buf1 where x: "buf = x @ buf1" "length x = 4" "unat (of_be32 x) \<le> length buf1"
    "f = FStr (take (unat (of_be32 x)) buf1)" "rest = drop (unat (of_be32 x)) buf1"
    by (auto simp: bindE_Inr_iff take_int_Inr Let_def split: if_splits)
  then have "write_length (length (take (unat (of_be32 x)) buf1)) = Inr x"
    by (intro length_of_be32) simp_all
  with x TStr show ?thesis by simp
next
  case TVec
  with assms obtain x buf1 v where x: "buf = x @ buf1" "length x = 4" "f = FVec v"
    "read_ints (unat (of_be32 x)) buf1 = Inr (v, rest)"
    by (auto simp: bindE_Inr_iff take_int_Inr Let_def split: if_splits)
  from read_ints_Inr[OF x(4)] x(2) have "write_length (length v) = Inr x"
    by (intro length_of_be32) simp_all
  with x TVec read_ints_Inr[OF x(4)] show ?thesis by simp
qed (use assms in \<open>auto simp: bindE_Inr_iff take_int_Inr be16_of_be16 be32_of_be32\<close>)

lemma read_fields_Inr:
  "read_fields ts buf = Inr (fs, rest) \<Longrightarrow>
    map field_type_of fs = ts \<and> (\<exists>bs. write_fields fs = Inr bs \<and> buf = bs @ rest)"
  by (induction ts arbitrary: buf fs) (fastforce simp: bindE_Inr_iff dest!: read_field_Inr)+

lemma write_field_size: "write_field f = Inr bs \<Longrightarrow> length bs = size_of f"
  by (cases f) (auto simp: bindE_Inr_iff write_length_Inr)

lemma write_fields_size: "write_fields fs = Inr bs \<Longrightarrow> length bs = sum_list (map size_of fs)"
  by (induction fs arbitrary: bs) (auto simp: bindE_Inr_iff write_field_size)

section \<open>Properties\<close>

lemma codec_reads:
  assumes "well_typed m" "write_to m = Inr bs"
  shows "take (length (type_tag (vtype m))) bs = type_tag (vtype m)"
    and "read_from (vtype m) (type_tag (vtype m)) (drop (length (type_tag (vtype m))) bs @ junk) = Inr m"
    and "read_from (vtype m) (type_tag (vtype m)) (drop (length (type_tag (vtype m))) bs) = Inr m"
proof -
  obtain fs where fs: "write_fields (args m) = Inr fs" "bs = type_tag (vtype m) @ fs"
    using assms(2) by (auto simp: write_to_def bindE_Inr_iff)
  have r: "read_fields (schema (vtype m)) (fs @ junk) = Inr (args m, junk)" for junk
    using read_fields_write[OF fs(1), of junk] assms(1) by (simp add: well_typed_def)
  show "take (length (type_tag (vtype m))) bs = type_tag (vtype m)" using fs(2) by simp
  show "read_from (vtype m) (type_tag (vtype m)) (drop (length (type_tag (vtype m))) bs @ junk) = Inr m"
    using r[of junk] by (simp add: read_from_def fs(2))
  show "read_from (vtype m) (type_tag (vtype m)) (drop (length (type_tag (vtype m))) bs) = Inr m"
    using r[of "[]"] by (simp add: read_from_def fs(2))
qed

text \<open>
  Reading the arguments of a message from the bytes that \<open>write_to\<close> produced gives the
  message back, whatever follows them in the buffer.
\<close>

theorem codec_round_trip:
  assumes "well_typed m" "write_to m = Inr bs"
  shows "take (length (type_tag (vtype m))) bs = type_tag (vtype m)
    \<and> read_from (vtype m) (type_tag (vtype m)) (drop (length (type_tag (vtype m))) bs @ junk) = Inr m"
  using codec_reads[OF assms] by blast

definition demo_clipboard :: v1_message where
  "demo_clipboard = \<lparr>vtype = ClipboardData, args = [FU8 1, FU32 7, FU8 2, FStr [104, 105]]\<rparr>"

lemma demo_clipboard_bytes:
  "well_typed demo_clipboard"
  "write_to demo_clipboard = Inr (ascii ''DCLP'' @ [1, 0, 0, 0, 7, 2, 0, 0, 0, 2, 104, 105])"
  by (simp_all add: demo_clipboard_def well_typed_def write_to_def write_length_def be32_def drop_bit_eq_div)

theorem codec_round_trip_witness:
  "read_from ClipboardData (ascii ''DCLP'') [1, 0, 0, 0, 7, 2, 0, 0, 0, 2, 104, 105, 99] = Inr demo_clipboard"
proof -
  have "vtype demo_clipboard = ClipboardData" by (simp add: demo_clipboard_def)
  then show ?thesis
    using codec_round_trip[OF demo_clipboard_bytes, of "[99]"] by simp
qed

text \<open>
  Whenever the arguments of a message can be read, the result has the fields of its type,
  and the bytes read are the encoding of the result: no two byte strings decode alike, and
  nothing beyond the buffer is used.
\<close>

theorem codec_reads_its_encoding:
  assumes "read_from t header data = Inr m"
  shows "vtype m = t \<and> well_typed m \<and> (\<exists>bs rest. write_to m = Inr bs \<and> header @ data = bs @ rest)"
proof -
  obtain fs rest where fs: "header = type_tag t" "read_fields (schema t) data = Inr (fs, rest)"
    "m = \<lparr>vtype = t, args = fs\<rparr>"
    using assms by (auto simp: read_from_def bindE_Inr_iff split: if_splits)
  with read_fields_Inr[OF fs(2)] show ?thesis
    by (auto simp: well_typed_def write_to_def)
qed

theorem codec_reads_its_encoding_witness:
  "\<exists>m bs rest. read_from MouseDown (ascii ''DMDN'') [3, 4] = Inr m \<and> write_to m = Inr bs
    \<and> ascii ''DMDN'' @ [3, 4] = bs @ rest"
proof -
  have "read_from MouseDown (ascii ''DMDN'') [3, 4] = Inr \<lparr>vtype = MouseDown, args = [FU8 3]\<rparr>"
    by (simp add: read_from_def take_int_def)
  with codec_reads_its_encoding[OF this] show ?thesis by blast
qed

text \<open>
  \<open>write_to\<close> fails only for a string or vector of 2^32 elements or more. Otherwise it writes
  exactly \<open>size ()\<close> bytes, so the buffer that the handler allocates with that size is filled and
  not overrun.
\<close>

theorem write_fills_the_buffer:
  "(\<exists>bs. write_to m = Inr bs \<and> length bs = message_size m) \<or>
   (write_to m = Inl BadNumericCast \<and>
     (\<exists>f\<in>set (args m). (case f of FStr s \<Rightarrow> 2 ^ 32 \<le> length s | FVec v \<Rightarrow> 2 ^ 32 \<le> length v | _ \<Rightarrow> False)))"
proof -
  have field: "(\<exists>bs. write_field f = Inr bs) \<or> (write_field f = Inl BadNumericCast \<and>
      (case f of FStr s \<Rightarrow> 2 ^ 32 \<le> length s | FVec v \<Rightarrow> 2 ^ 32 \<le> length v | _ \<Rightarrow> False))" for f
    by (cases f) (auto simp: write_length_def)
  have "(\<exists>bs. write_fields fs = Inr bs) \<or> (write_fields fs = Inl BadNumericCast \<and>
      (\<exists>f\<in>set fs. (case f of FStr s \<Rightarrow> 2 ^ 32 \<le> length s | FVec v \<Rightarrow> 2 ^ 32 \<le> length v | _ \<Rightarrow> False)))" for fs
  proof (induction fs)
    case (Cons f fs)
    then show ?case using field[of f] by auto
  qed simp
  from this[of "args m"] show ?thesis
    by (auto simp: write_to_def message_size_def dest: write_fields_size)
qed

end
