(* ===== verification/ScannerV1.thy ===== *)
theory ScannerV1
  imports CodecV1
begin

text \<open>
  The scanner of the version 1 protocol, \<open>protocol/v1/Scanner.cpp\<close>: the state machine that
  cuts a buffer into messages and hands each to the handler. The labels \<open>stN\<close>, \<open>trN\<close> and
  \<open>case N\<close> of \<open>process\<close> are entries of tables, with the order of the file; the \<open>goto\<close>s between
  them are followed by \<open>scan_go\<close>.
\<close>

section \<open>The machine\<close>

datatype flow = STC | CTS

text \<open>What the code of a transition does: the actions of the grammar, and a finished token.\<close>

datatype scan_action =
    SetData | SetDsize u64 | DlenInit | DlenShift | DlenOr | SkipData
  | EndHere v1_type | EndBefore v1_type

datatype scan_goto = St nat | Tr nat

text \<open>
  The code after \<open>case N\<close>: a jump, actions and a jump, a switch on the byte, a switch on the byte
  widened by the direction for one byte, a test of \<open>dlen\<close>.
\<close>

datatype scan_edges =
    Always scan_goto
  | Act "scan_action list" nat
  | OnByte "(nat \<times> scan_goto) list"
  | OnFlow nat "(nat \<times> scan_goto) list"
  | OnSafe scan_goto scan_goto

definition scan_trans_1 :: "(nat \<times> scan_action list \<times> nat) list" where
  "scan_trans_1 =
     [(19, [EndHere ClipboardGrab], 168), (33, [EndHere Enter], 168),
      (42, [SetData, EndHere Screensaver], 168), (92, [EndHere Info], 168),
      (102, [EndHere KeyDown], 168), (111, [EndHere KeyRepeat], 168),
      (118, [EndHere KeyUp], 168), (125, [SetData, EndHere MouseDown], 168),
      (130, [EndHere MouseMove], 168), (135, [EndHere MouseRelMove], 168),
      (137, [SetData, EndHere MouseUp], 168), (142, [EndHere MouseWheelMove], 168),
      (161, [EndHere Incompatible], 168), (190, [EndHere Hello], 168),
      (197, [SetData, EndBefore KeepAlive], 168), (198, [SetData, EndBefore Close], 168),
      (199, [SetData, EndBefore InfoAck], 168), (200, [SetData, EndBefore Noop], 168),
      (201, [SetData, EndBefore Leave], 168), (202, [SetData, EndBefore ResetOptions], 168),
      (203, [EndBefore ClipboardData], 168), (204, [SkipData, EndHere ClipboardData], 168),
      (205, [EndBefore DragInfo], 168), (206, [SkipData, EndHere DragInfo], 168),
      (207, [EndBefore FileTransfer], 168), (208, [SkipData, EndHere FileTransfer], 168),
      (209, [EndBefore SetOptions], 168), (210, [SkipData, EndHere SetOptions], 168)]"

definition scan_trans_2 :: "(nat \<times> scan_action list \<times> nat) list" where
  "scan_trans_2 =
     [(211, [SetData, EndBefore Bad], 168), (212, [SetData, EndBefore Busy], 168),
      (213, [SetData, EndBefore Unknown], 168), (214, [SetData, EndBefore InfoQuery], 168),
      (215, [EndBefore HelloBack], 168), (216, [SkipData, EndHere HelloBack], 168)]"

definition scan_states_1 :: "(nat \<times> scan_edges) list" where
  "scan_states_1 =
     [(168, OnFlow 83 [(67, St 1), (68, St 35), (69, St 129), (81, St 141), (339, St 144), (595, St 158)]),
      (1, OnByte [(65, St 2), (66, St 4), (67, St 6), (73, St 13), (78, St 26), (79, St 28), (82, St 30), (83, St 32)]),
      (2, OnByte [(76, St 3)]), (3, OnByte [(86, St 169)]), (169, Always (Tr 197)),
      (4, OnByte [(89, St 5)]), (5, OnByte [(69, St 170)]), (170, Always (Tr 198)),
      (6, OnByte [(76, St 7)]), (7, OnByte [(80, St 8)]), (8, Always (Tr 15)),
      (9, Always (St 10)), (10, Always (St 11)), (11, Always (St 12)), (12, Always (Tr 19)),
      (13, OnByte [(65, St 14), (78, St 15)]), (14, OnByte [(75, St 171)]),
      (171, Always (Tr 199))]"

definition scan_states_2 :: "(nat \<times> scan_edges) list" where
  "scan_states_2 =
     [(15, OnByte [(78, St 16)]), (16, Always (Tr 24)), (17, Always (St 18)),
      (18, Always (St 19)), (19, Always (St 20)), (20, Always (St 21)), (21, Always (St 22)),
      (22, Always (St 23)), (23, Always (St 24)), (24, Always (St 25)), (25, Always (Tr 33)),
      (26, OnByte [(79, St 27)]), (27, OnByte [(80, St 172)]), (172, Always (Tr 200)),
      (28, OnByte [(85, St 29)]), (29, OnByte [(84, St 173)]), (173, Always (Tr 201)),
      (30, OnByte [(79, St 31)]), (31, OnByte [(80, St 174)]), (174, Always (Tr 202)),
      (32, OnByte [(69, St 33)]), (33, OnByte [(67, St 34)]), (34, Always (Tr 42))]"

definition scan_states_3 :: "(nat \<times> scan_edges) list" where
  "scan_states_3 =
     [(35, OnByte [(67, St 36), (68, St 48), (70, St 56), (73, St 63), (75, St 79), (77, St 103), (83, St 123)]),
      (36, OnByte [(76, St 37)]), (37, OnByte [(80, St 38)]), (38, Always (Tr 52)),
      (39, Always (St 40)), (40, Always (St 41)), (41, Always (St 42)), (42, Always (St 43)),
      (43, Always (St 44)), (44, Always (Tr 58)), (45, Act [DlenShift, DlenOr] 46),
      (46, Act [DlenShift, DlenOr] 47), (47, Act [DlenShift, DlenOr] 175),
      (175, OnSafe (Tr 204) (Tr 203)), (48, OnByte [(82, St 49)]), (49, OnByte [(71, St 50)]),
      (50, Always (Tr 64)), (51, Always (St 52))]"

definition scan_states_4 :: "(nat \<times> scan_edges) list" where
  "scan_states_4 =
     [(52, Always (Tr 66)), (53, Act [DlenShift, DlenOr] 54), (54, Act [DlenShift, DlenOr] 55),
      (55, Act [DlenShift, DlenOr] 176), (176, OnSafe (Tr 206) (Tr 205)),
      (56, OnByte [(84, St 57)]), (57, OnByte [(82, St 58)]), (58, Always (Tr 72)),
      (59, Always (Tr 73)), (60, Act [DlenShift, DlenOr] 61), (61, Act [DlenShift, DlenOr] 62),
      (62, Act [DlenShift, DlenOr] 177), (177, OnSafe (Tr 208) (Tr 207)),
      (63, OnByte [(78, St 64)]), (64, OnByte [(70, St 65)])]"

definition scan_states_5 :: "(nat \<times> scan_edges) list" where
  "scan_states_5 =
     [(65, Always (Tr 79)), (66, Always (St 67)), (67, Always (St 68)), (68, Always (St 69)),
      (69, Always (St 70)), (70, Always (St 71)), (71, Always (St 72)), (72, Always (St 73)),
      (73, Always (St 74)), (74, Always (St 75)), (75, Always (St 76)), (76, Always (St 77)),
      (77, Always (St 78)), (78, Always (Tr 92)),
      (79, OnByte [(68, St 80), (82, St 87), (85, St 96)]), (80, OnByte [(78, St 81)]),
      (81, Always (Tr 97)), (82, Always (St 83)), (83, Always (St 84)), (84, Always (St 85)),
      (85, Always (St 86)), (86, Always (Tr 102)), (87, OnByte [(80, St 88)]),
      (88, Always (Tr 104))]"

definition scan_states_6 :: "(nat \<times> scan_edges) list" where
  "scan_states_6 =
     [(89, Always (St 90)), (90, Always (St 91)), (91, Always (St 92)), (92, Always (St 93)),
      (93, Always (St 94)), (94, Always (St 95)), (95, Always (Tr 111)),
      (96, OnByte [(80, St 97)]), (97, Always (Tr 113)), (98, Always (St 99)),
      (99, Always (St 100)), (100, Always (St 101)), (101, Always (St 102)),
      (102, Always (Tr 118)),
      (103, OnByte [(68, St 104), (77, St 106), (82, St 111), (85, St 116), (87, St 118)]),
      (104, OnByte [(78, St 105)]), (105, Always (Tr 125)), (106, OnByte [(86, St 107)]),
      (107, Always (Tr 127)), (108, Always (St 109)), (109, Always (St 110)),
      (110, Always (Tr 130)), (111, OnByte [(77, St 112)]), (112, Always (Tr 132))]"

definition scan_states_7 :: "(nat \<times> scan_edges) list" where
  "scan_states_7 =
     [(113, Always (St 114)), (114, Always (St 115)), (115, Always (Tr 135)),
      (116, OnByte [(80, St 117)]), (117, Always (Tr 137)), (118, OnByte [(77, St 119)]),
      (119, Always (Tr 139)), (120, Always (St 121)), (121, Always (St 122)),
      (122, Always (Tr 142)), (123, OnByte [(79, St 124)]), (124, OnByte [(80, St 125)]),
      (125, Always (Tr 145)), (126, Act [DlenShift, DlenOr] 127),
      (127, Act [DlenShift, DlenOr] 128), (128, Act [DlenShift, DlenOr] 178),
      (178, OnSafe (Tr 210) (Tr 209)), (129, OnByte [(66, St 130), (73, St 133), (85, St 139)]),
      (130, OnByte [(65, St 131), (83, St 132)])]"

definition scan_states_8 :: "(nat \<times> scan_edges) list" where
  "scan_states_8 =
     [(131, OnByte [(68, St 179)]), (179, Always (Tr 211)), (132, OnByte [(89, St 180)]),
      (180, Always (Tr 212)), (133, OnByte [(67, St 134)]), (134, OnByte [(86, St 135)]),
      (135, Always (Tr 158)), (136, Always (St 137)), (137, Always (St 138)),
      (138, Always (Tr 161)), (139, OnByte [(78, St 140)]), (140, OnByte [(75, St 181)]),
      (181, Always (Tr 213)), (141, OnByte [(73, St 142)]), (142, OnByte [(78, St 143)]),
      (143, OnByte [(70, St 182)]), (182, Always (Tr 214)), (144, OnFlow 121 [(377, St 145)]),
      (145, OnFlow 110 [(366, St 146)])]"

definition scan_states_9 :: "(nat \<times> scan_edges) list" where
  "scan_states_9 =
     [(146, OnFlow 101 [(357, St 147)]), (147, OnFlow 114 [(370, St 148)]),
      (148, OnFlow 103 [(359, St 149)]), (149, OnFlow 121 [(377, St 150)]),
      (150, Always (Tr 173)), (151, Always (St 152)), (152, Always (St 153)),
      (153, Always (St 154)), (154, Always (Tr 177)), (155, Act [DlenShift, DlenOr] 156),
      (156, Act [DlenShift, DlenOr] 157), (157, Act [DlenShift, DlenOr] 183),
      (183, OnSafe (Tr 216) (Tr 215)), (158, OnFlow 121 [(633, St 159)])]"

definition scan_states_10 :: "(nat \<times> scan_edges) list" where
  "scan_states_10 =
     [(159, OnFlow 110 [(622, St 160)]), (160, OnFlow 101 [(613, St 161)]),
      (161, OnFlow 114 [(626, St 162)]), (162, OnFlow 103 [(615, St 163)]),
      (163, OnFlow 121 [(633, St 164)]), (164, Always (Tr 187)), (165, Always (St 166)),
      (166, Always (St 167)), (167, Always (Tr 190))]"

definition scan_trans_3 :: "(nat \<times> scan_action list \<times> nat) list" where
  "scan_trans_3 =
     [(15, [SetData], 9), (24, [SetData], 17), (52, [SetData], 39),
      (58, [SetDsize 1, DlenInit], 45), (64, [SetData], 51), (66, [SetDsize 1, DlenInit], 53),
      (72, [SetData], 59), (73, [SetDsize 1, DlenInit], 60), (79, [SetData], 66),
      (97, [SetData], 82), (104, [SetData], 89), (113, [SetData], 98), (127, [SetData], 108),
      (132, [SetData], 113), (139, [SetData], 120), (145, [SetData, SetDsize 4, DlenInit], 126),
      (158, [SetData], 136), (173, [SetData], 151), (177, [SetDsize 1, DlenInit], 155),
      (187, [SetData], 165)]"

definition scan_eof :: "(nat \<times> nat) list" where
  "scan_eof =
     [(169, 197), (170, 198), (171, 199), (172, 200), (173, 201), (174, 202), (175, 203),
      (176, 205), (177, 207), (178, 209), (179, 211), (180, 212), (181, 213), (182, 214),
      (183, 215)]"

definition scan_states :: "(nat \<times> scan_edges) list" where
  "scan_states =
     scan_states_1 @ scan_states_2 @ scan_states_3 @ scan_states_4 @ scan_states_5 @
     scan_states_6 @ scan_states_7 @ scan_states_8 @ scan_states_9 @ scan_states_10"

definition scan_trans :: "(nat \<times> scan_action list \<times> nat) list" where
  "scan_trans = scan_trans_1 @ scan_trans_2 @ scan_trans_3"

text \<open>The code at a label, if there is such a label.\<close>

definition state_at :: "nat \<Rightarrow> scan_edges option" where
  "state_at n = map_of scan_states n"

definition trans_at :: "nat \<Rightarrow> (scan_action list \<times> nat) option" where
  "trans_at t = map_of scan_trans t"

definition eof_at :: "nat \<Rightarrow> nat option" where
  "eof_at n = map_of scan_eof n"

section \<open>Running it\<close>

text \<open>The local variables of \<open>process\<close>. Pointers into the message are indices.\<close>

record scanner =
  pos :: nat
  tok_start :: nat
  tok_end :: nat
  data :: nat
  dlen :: u64
  dsize :: u64

datatype 's scan_result = Returned bool 's | Threw codec_error 's | OutOfFuel

definition init_scanner :: scanner where
  "init_scanner = \<lparr>pos = 0, tok_start = 0, tok_end = 0, data = 0, dlen = 0, dsize = 0\<rparr>"

definition slice :: "bytes \<Rightarrow> nat \<Rightarrow> nat \<Rightarrow> bytes" where
  "slice msg a b = take (b - a) (drop a msg)"

text \<open>
  The macro \<open>PROC\<close>: read the arguments of the token and call the handler. \<open>Inl\<close> is a result
  that ends \<open>process\<close>.
\<close>

definition proc ::
  "('s \<Rightarrow> v1_message \<Rightarrow> bool \<times> 's) \<Rightarrow> bytes \<Rightarrow> v1_type \<Rightarrow> scanner \<Rightarrow> 's \<Rightarrow> 's scan_result + 's" where
  "proc handle msg t \<sigma> s =
     (case read_from t (slice msg (tok_start \<sigma>) (data \<sigma>)) (slice msg (data \<sigma>) (tok_end \<sigma>)) of
        Inl e \<Rightarrow> Inl (Threw e s)
      | Inr m \<Rightarrow> (case handle s m of (ok, s') \<Rightarrow> if ok then Inr s' else Inl (Returned False s')))"

fun scan_act ::
  "('s \<Rightarrow> v1_message \<Rightarrow> bool \<times> 's) \<Rightarrow> bytes \<Rightarrow> scan_action \<Rightarrow> scanner \<Rightarrow> 's \<Rightarrow> 's scan_result + scanner \<times> 's" where
  "scan_act handle msg SetData \<sigma> s = Inr (\<sigma>\<lparr>data := pos \<sigma>\<rparr>, s)"
| "scan_act handle msg (SetDsize n) \<sigma> s = Inr (\<sigma>\<lparr>dsize := n\<rparr>, s)"
| "scan_act handle msg DlenInit \<sigma> s = Inr (\<sigma>\<lparr>dlen := ucast (msg ! pos \<sigma>)\<rparr>, s)"
| "scan_act handle msg DlenShift \<sigma> s = Inr (\<sigma>\<lparr>dlen := push_bit 8 (dlen \<sigma>)\<rparr>, s)"
| "scan_act handle msg DlenOr \<sigma> s = Inr (\<sigma>\<lparr>dlen := dlen \<sigma> OR ucast (msg ! pos \<sigma>)\<rparr>, s)"
| "scan_act handle msg SkipData \<sigma> s = Inr (\<sigma>\<lparr>pos := pos \<sigma> - 1 + unat (dlen \<sigma> * dsize \<sigma>)\<rparr>, s)"
| "scan_act handle msg (EndHere t) \<sigma> s =
     (let \<sigma>' = \<sigma>\<lparr>tok_end := pos \<sigma> + 1\<rparr>
      in bindE (proc handle msg t \<sigma>' s) (\<lambda>s'. Inr (\<sigma>', s')))"
| "scan_act handle msg (EndBefore t) \<sigma> s =
     (let \<sigma>' = \<sigma>\<lparr>tok_end := pos \<sigma>, pos := pos \<sigma> - 1\<rparr>
      in bindE (proc handle msg t \<sigma>' s) (\<lambda>s'. Inr (\<sigma>', s')))"

fun scan_acts ::
  "('s \<Rightarrow> v1_message \<Rightarrow> bool \<times> 's) \<Rightarrow> bytes \<Rightarrow> scan_action list \<Rightarrow> scanner \<Rightarrow> 's \<Rightarrow> 's scan_result + scanner \<times> 's" where
  "scan_acts handle msg [] \<sigma> s = Inr (\<sigma>, s)"
| "scan_acts handle msg (a # as) \<sigma> s =
     bindE (scan_act handle msg a \<sigma> s) (\<lambda>(\<sigma>', s'). scan_acts handle msg as \<sigma>' s')"

definition edge_for :: "nat \<Rightarrow> (nat \<times> scan_goto) list \<Rightarrow> scan_goto" where
  "edge_for c es = (case map_of es c of Some g \<Rightarrow> g | None \<Rightarrow> St 0)"

definition dlen_is_safe :: "bytes \<Rightarrow> scanner \<Rightarrow> bool" where
  "dlen_is_safe msg \<sigma> \<longleftrightarrow> 0 < dlen \<sigma> \<and> unat (dlen \<sigma> * dsize \<sigma>) \<le> length msg - pos \<sigma>"

text \<open>The jump that the code after \<open>case N\<close> makes for the byte \<open>*p\<close>, with \<open>_widec\<close> computed.\<close>

fun scan_edge :: "flow \<Rightarrow> bytes \<Rightarrow> scanner \<Rightarrow> scan_edges \<Rightarrow> scan_action list \<times> scan_goto" where
  "scan_edge flow msg \<sigma> (Always g) = ([], g)"
| "scan_edge flow msg \<sigma> (Act as n) = (as, St n)"
| "scan_edge flow msg \<sigma> (OnByte es) = ([], edge_for (unat (msg ! pos \<sigma>)) es)"
| "scan_edge flow msg \<sigma> (OnFlow b es) =
     (let c = unat (msg ! pos \<sigma>);
          widec = (if b \<le> c \<and> c \<le> b then 256 + c + (if flow = STC then 256 else 0) else c)
      in ([], edge_for widec es))"
| "scan_edge flow msg \<sigma> (OnSafe g h) =
     (let widec = 768 + unat (msg ! pos \<sigma>) + (if dlen_is_safe msg \<sigma> then 256 else 0)
      in ([], if 1024 \<le> widec \<and> widec \<le> 1279 then g else h))"

text \<open>
  Following the \<open>goto\<close>s. Every step uses one unit of fuel; \<open>scan_fuel\<close> is enough for any
  message, as the theorems below show. A state without an entry is \<open>st0\<close>, the error state; the
  last test of \<open>process\<close> is in \<open>scan_finish\<close>.
\<close>

definition scan_finish :: "bytes \<Rightarrow> nat \<Rightarrow> scanner \<Rightarrow> 's \<Rightarrow> 's scan_result" where
  "scan_finish msg cs \<sigma> s = Returned (\<not> (cs < 168 \<or> pos \<sigma> \<noteq> length msg)) s"

fun scan_go ::
  "('s \<Rightarrow> v1_message \<Rightarrow> bool \<times> 's) \<Rightarrow> flow \<Rightarrow> bytes \<Rightarrow> nat \<Rightarrow> scan_goto \<Rightarrow> scanner \<Rightarrow> 's \<Rightarrow> 's scan_result"
and scan_case ::
  "('s \<Rightarrow> v1_message \<Rightarrow> bool \<times> 's) \<Rightarrow> flow \<Rightarrow> bytes \<Rightarrow> nat \<Rightarrow> nat \<Rightarrow> scanner \<Rightarrow> 's \<Rightarrow> 's scan_result" where
  "scan_go handle flow msg 0 g \<sigma> s = OutOfFuel"
| "scan_go handle flow msg (Suc k) (Tr t) \<sigma> s =
     (case trans_at t of
        None \<Rightarrow> scan_finish msg 0 \<sigma> s
      | Some (as, n) \<Rightarrow>
          (case scan_acts handle msg as \<sigma> s of
             Inl r \<Rightarrow> r
           | Inr (\<sigma>', s') \<Rightarrow> scan_go handle flow msg k (St n) \<sigma>' s'))"
| "scan_go handle flow msg (Suc k) (St n) \<sigma> s =
     (if n = 0 then scan_finish msg 0 \<sigma> s
      else
        (let \<sigma>' = \<sigma>\<lparr>pos := pos \<sigma> + 1\<rparr>
         in if pos \<sigma>' = length msg then
              (case eof_at n of
                 None \<Rightarrow> scan_finish msg n \<sigma>' s
               | Some t \<Rightarrow> scan_go handle flow msg k (Tr t) \<sigma>' s)
            else scan_case handle flow msg k n \<sigma>' s))"
| "scan_case handle flow msg 0 n \<sigma> s = OutOfFuel"
| "scan_case handle flow msg (Suc k) n \<sigma> s =
     (let \<sigma>' = (if n = 168 then \<sigma>\<lparr>tok_start := pos \<sigma>\<rparr> else \<sigma>)
      in case state_at n of
           None \<Rightarrow> scan_finish msg 0 \<sigma>' s
         | Some e \<Rightarrow>
             (case scan_edge flow msg \<sigma>' e of
                (as, g) \<Rightarrow>
                  (case scan_acts handle msg as \<sigma>' s of
                     Inl r \<Rightarrow> r
                   | Inr (\<sigma>'', s') \<Rightarrow> scan_go handle flow msg k g \<sigma>'' s')))"

definition scan_fuel :: "bytes \<Rightarrow> nat" where
  "scan_fuel msg = 5 * length msg + 8"

definition process :: "('s \<Rightarrow> v1_message \<Rightarrow> bool \<times> 's) \<Rightarrow> flow \<Rightarrow> bytes \<Rightarrow> 's \<Rightarrow> 's scan_result" where
  "process handle flow msg s =
     (if msg = [] then scan_finish msg 168 init_scanner s
      else scan_case handle flow msg (scan_fuel msg) 168 init_scanner s)"

end
