(* ===== verification/ScannerV1_Facts.thy ===== *)
theory ScannerV1_Facts
  imports ScannerV1
begin

text \<open>
  The scanner against the grammar: \<open>parse_messages\<close> reads one message after the other by the
  tags and fields of the message types, and the state machine does the same on every input.
\<close>

section \<open>The grammar\<close>

definition flow_ok :: "flow \<Rightarrow> v1_type \<Rightarrow> bool" where
  "flow_ok flow t \<longleftrightarrow> (t = Hello \<longrightarrow> flow = STC) \<and> (t = HelloBack \<longrightarrow> flow = CTS)"

definition has_prefix :: "bytes \<Rightarrow> bytes \<Rightarrow> bool" where
  "has_prefix w bs \<longleftrightarrow> take (length w) bs = w"

definition find_type :: "flow \<Rightarrow> bytes \<Rightarrow> v1_type option" where
  "find_type flow bs = find (\<lambda>t. flow_ok flow t \<and> has_prefix (type_tag t) bs) all_types"

section \<open>What each state means\<close>

datatype scan_ann = InTag "flow option" bytes | InData v1_type nat

definition scan_ann :: "(nat \<times> scan_ann) list" where
  "scan_ann =
     [(1, InTag None [67]), (2, InTag None [67, 65]), (3, InTag None [67, 65, 76]),
      (4, InTag None [67, 66]), (5, InTag None [67, 66, 89]), (6, InTag None [67, 67]),
      (7, InTag None [67, 67, 76]), (8, InData ClipboardGrab 4), (9, InData ClipboardGrab 5),
      (10, InData ClipboardGrab 6), (11, InData ClipboardGrab 7), (12, InData ClipboardGrab 8),
      (13, InTag None [67, 73]), (14, InTag None [67, 73, 65]), (15, InTag None [67, 73, 78]),
      (16, InData Enter 4), (17, InData Enter 5), (18, InData Enter 6), (19, InData Enter 7),
      (20, InData Enter 8), (21, InData Enter 9), (22, InData Enter 10), (23, InData Enter 11),
      (24, InData Enter 12), (25, InData Enter 13), (26, InTag None [67, 78]),
      (27, InTag None [67, 78, 79]), (28, InTag None [67, 79]), (29, InTag None [67, 79, 85]),
      (30, InTag None [67, 82]), (31, InTag None [67, 82, 79]), (32, InTag None [67, 83]),
      (33, InTag None [67, 83, 69]), (34, InData Screensaver 4), (35, InTag None [68]),
      (36, InTag None [68, 67]), (37, InTag None [68, 67, 76]), (38, InData ClipboardData 4),
      (39, InData ClipboardData 5), (40, InData ClipboardData 6), (41, InData ClipboardData 7),
      (42, InData ClipboardData 8), (43, InData ClipboardData 9), (44, InData ClipboardData 10),
      (45, InData ClipboardData 11), (46, InData ClipboardData 12),
      (47, InData ClipboardData 13), (48, InTag None [68, 68]), (49, InTag None [68, 68, 82]),
      (50, InData DragInfo 4), (51, InData DragInfo 5), (52, InData DragInfo 6),
      (53, InData DragInfo 7), (54, InData DragInfo 8), (55, InData DragInfo 9),
      (56, InTag None [68, 70]), (57, InTag None [68, 70, 84]), (58, InData FileTransfer 4),
      (59, InData FileTransfer 5), (60, InData FileTransfer 6), (61, InData FileTransfer 7),
      (62, InData FileTransfer 8), (63, InTag None [68, 73]), (64, InTag None [68, 73, 78]),
      (65, InData Info 4), (66, InData Info 5), (67, InData Info 6), (68, InData Info 7),
      (69, InData Info 8), (70, InData Info 9), (71, InData Info 10), (72, InData Info 11),
      (73, InData Info 12), (74, InData Info 13), (75, InData Info 14), (76, InData Info 15),
      (77, InData Info 16), (78, InData Info 17), (79, InTag None [68, 75]),
      (80, InTag None [68, 75, 68]), (81, InData KeyDown 4), (82, InData KeyDown 5),
      (83, InData KeyDown 6), (84, InData KeyDown 7), (85, InData KeyDown 8),
      (86, InData KeyDown 9), (87, InTag None [68, 75, 82]), (88, InData KeyRepeat 4),
      (89, InData KeyRepeat 5), (90, InData KeyRepeat 6), (91, InData KeyRepeat 7),
      (92, InData KeyRepeat 8), (93, InData KeyRepeat 9), (94, InData KeyRepeat 10),
      (95, InData KeyRepeat 11), (96, InTag None [68, 75, 85]), (97, InData KeyUp 4),
      (98, InData KeyUp 5), (99, InData KeyUp 6), (100, InData KeyUp 7), (101, InData KeyUp 8),
      (102, InData KeyUp 9), (103, InTag None [68, 77]), (104, InTag None [68, 77, 68]),
      (105, InData MouseDown 4), (106, InTag None [68, 77, 77]), (107, InData MouseMove 4),
      (108, InData MouseMove 5), (109, InData MouseMove 6), (110, InData MouseMove 7),
      (111, InTag None [68, 77, 82]), (112, InData MouseRelMove 4),
      (113, InData MouseRelMove 5), (114, InData MouseRelMove 6), (115, InData MouseRelMove 7),
      (116, InTag None [68, 77, 85]), (117, InData MouseUp 4), (118, InTag None [68, 77, 87]),
      (119, InData MouseWheelMove 4), (120, InData MouseWheelMove 5),
      (121, InData MouseWheelMove 6), (122, InData MouseWheelMove 7),
      (123, InTag None [68, 83]), (124, InTag None [68, 83, 79]), (125, InData SetOptions 4),
      (126, InData SetOptions 5), (127, InData SetOptions 6), (128, InData SetOptions 7),
      (129, InTag None [69]), (130, InTag None [69, 66]), (131, InTag None [69, 66, 65]),
      (132, InTag None [69, 66, 83]), (133, InTag None [69, 73]),
      (134, InTag None [69, 73, 67]), (135, InData Incompatible 4),
      (136, InData Incompatible 5), (137, InData Incompatible 6), (138, InData Incompatible 7),
      (139, InTag None [69, 85]), (140, InTag None [69, 85, 78]), (141, InTag None [81]),
      (142, InTag None [81, 73]), (143, InTag None [81, 73, 78]), (144, InTag (Some CTS) [83]),
      (145, InTag (Some CTS) [83, 121]), (146, InTag (Some CTS) [83, 121, 110]),
      (147, InTag (Some CTS) [83, 121, 110, 101]),
      (148, InTag (Some CTS) [83, 121, 110, 101, 114]),
      (149, InTag (Some CTS) [83, 121, 110, 101, 114, 103]), (150, InData HelloBack 7),
      (151, InData HelloBack 8), (152, InData HelloBack 9), (153, InData HelloBack 10),
      (154, InData HelloBack 11), (155, InData HelloBack 12), (156, InData HelloBack 13),
      (157, InData HelloBack 14), (158, InTag (Some STC) [83]),
      (159, InTag (Some STC) [83, 121]), (160, InTag (Some STC) [83, 121, 110]),
      (161, InTag (Some STC) [83, 121, 110, 101]),
      (162, InTag (Some STC) [83, 121, 110, 101, 114]),
      (163, InTag (Some STC) [83, 121, 110, 101, 114, 103]), (164, InData Hello 7),
      (165, InData Hello 8), (166, InData Hello 9), (167, InData Hello 10),
      (169, InData KeepAlive 4), (170, InData Close 4), (171, InData InfoAck 4),
      (172, InData Noop 4), (173, InData Leave 4), (174, InData ResetOptions 4),
      (175, InData ClipboardData 14), (176, InData DragInfo 10), (177, InData FileTransfer 9),
      (178, InData SetOptions 8), (179, InData Bad 4), (180, InData Busy 4),
      (181, InData Unknown 4), (182, InData InfoQuery 4), (183, InData HelloBack 15)]"

definition ann_at :: "nat \<Rightarrow> scan_ann option" where
  "ann_at n = map_of scan_ann n"

definition tag_of :: "flow \<Rightarrow> bytes \<Rightarrow> v1_type option" where
  "tag_of flow w = find (\<lambda>t. flow_ok flow t \<and> type_tag t = w) all_types"

fun fixed_size :: "field_type \<Rightarrow> nat" where
  "fixed_size TU8 = 1"
| "fixed_size TS16 = 2"
| "fixed_size TU16 = 2"
| "fixed_size TU32 = 4"
| "fixed_size TStr = 4"
| "fixed_size TVec = 4"
| "fixed_size TVer = 4"

definition tag_len :: "v1_type \<Rightarrow> nat" where
  "tag_len t = length (type_tag t)"

definition head_len :: "v1_type \<Rightarrow> nat" where
  "head_len t = tag_len t + sum_list (map fixed_size (schema t))"

definition elem_size :: "v1_type \<Rightarrow> nat option" where
  "elem_size t =
     (if schema t = [] then None
      else (case last (schema t) of TStr \<Rightarrow> Some 1 | TVec \<Rightarrow> Some 4 | _ \<Rightarrow> None))"

text \<open>What an annotated state must do next.\<close>

fun ann_for :: "flow \<Rightarrow> scan_ann option \<Rightarrow> bytes \<Rightarrow> bool" where
  "ann_for flow None w = False"
| "ann_for flow (Some (InTag f w')) w \<longleftrightarrow> tag_of flow w = None \<and> w' = w \<and> (f = None \<or> f = Some flow)"
| "ann_for flow (Some (InData t j)) w \<longleftrightarrow> tag_of flow w = Some t \<and> j = length w"

fun byte_edges :: "flow \<Rightarrow> scan_edges \<Rightarrow> (nat \<times> scan_goto) list option" where
  "byte_edges flow (OnByte es) = Some es"
| "byte_edges flow (OnFlow b es) =
     Some ((case map_of es (256 + b + (if flow = STC then 256 else 0)) of
              None \<Rightarrow> [] | Some g \<Rightarrow> [(b, g)]) @ filter (\<lambda>(c, g). c < 256 \<and> c \<noteq> b) es)"
| "byte_edges flow _ = None"

fun goes_to :: "scan_edges \<Rightarrow> (scan_action list \<times> nat) option" where
  "goes_to (Always (St n)) = Some ([], n)"
| "goes_to (Always (Tr t)) = trans_at t"
| "goes_to (Act as n) = Some (as, n)"
| "goes_to _ = None"

definition check_bytes :: "flow \<Rightarrow> bytes \<Rightarrow> (nat \<times> scan_goto) list \<Rightarrow> bool" where
  "check_bytes flow w es \<longleftrightarrow>
     (\<forall>(c, g)\<in>set es. c < 256 \<and>
        (case g of Tr _ \<Rightarrow> False | St m \<Rightarrow> m \<noteq> 0 \<and> m \<noteq> 168 \<and> ann_for flow (ann_at m) (w @ [of_nat c])))
     \<and> (\<forall>t\<in>set all_types. flow_ok flow t \<longrightarrow>
          \<not> has_prefix (type_tag t) w
          \<and> (has_prefix w (type_tag t) \<longrightarrow> unat (type_tag t ! length w) \<in> fst ` set es))"

definition check_tag :: "flow \<Rightarrow> nat \<Rightarrow> bytes \<Rightarrow> scan_edges \<Rightarrow> bool" where
  "check_tag flow n w e \<longleftrightarrow> n < 168 \<and> eof_at n = None \<and>
     (case byte_edges flow e of None \<Rightarrow> False | Some es \<Rightarrow> check_bytes flow w es)"

definition data_acts :: "v1_type \<Rightarrow> nat \<Rightarrow> scan_action list" where
  "data_acts t j =
     (if j = tag_len t then [SetData] else []) @
     (case elem_size t of
        None \<Rightarrow> []
      | Some d \<Rightarrow> if j + 4 < head_len t then []
                  else if j + 4 = head_len t then [SetDsize (of_nat d), DlenInit] else [DlenShift, DlenOr])"

definition check_data :: "nat \<Rightarrow> v1_type \<Rightarrow> nat \<Rightarrow> scan_edges \<Rightarrow> bool" where
  "check_data n t j e \<longleftrightarrow> tag_len t \<le> j \<and>
     (if elem_size t = None \<and> j = head_len t then
        j = tag_len t \<and> goes_to e = Some ([SetData, EndBefore t], 168) \<and>
        (case eof_at n of None \<Rightarrow> False | Some a \<Rightarrow> trans_at a = Some ([SetData, EndBefore t], 168))
      else if j = head_len t then
        tag_len t < j \<and>
        (case e of
           OnSafe (Tr a) (Tr b) \<Rightarrow>
             trans_at a = Some ([SkipData, EndHere t], 168) \<and>
             trans_at b = Some ([EndBefore t], 168) \<and> eof_at n = Some b
         | _ \<Rightarrow> False)
      else
        n < 168 \<and> eof_at n = None \<and> j < head_len t \<and>
        (case goes_to e of
           None \<Rightarrow> False
         | Some (as, m) \<Rightarrow>
             if elem_size t = None \<and> Suc j = head_len t then as = data_acts t j @ [EndHere t] \<and> m = 168
             else as = data_acts t j \<and> m \<noteq> 0 \<and> m \<noteq> 168 \<and> ann_at m = Some (InData t (Suc j))))"

text \<open>An entry of the state table, under the annotation of its state.\<close>

definition check_state :: "flow \<Rightarrow> nat \<times> scan_edges \<Rightarrow> bool" where
  "check_state flow ne \<longleftrightarrow>
     (case ne of (n, e) \<Rightarrow>
        (case ann_at n of
           None \<Rightarrow> n = 168
         | Some (InTag f w) \<Rightarrow> f = None \<or> f = Some flow \<longrightarrow> check_tag flow n w e
         | Some (InData t j) \<Rightarrow> check_data n t j e))"

section \<open>The tables pass\<close>

lemma tag_len_eq: "tag_len t = (if t = Hello \<or> t = HelloBack then 7 else 4)"
  by (cases t) (simp_all add: tag_len_def ascii_def)

lemma elem_size_eq:
  "elem_size t = (if t \<in> {HelloBack, ClipboardData, FileTransfer, DragInfo} then Some 1
     else if t = SetOptions then Some 4 else None)"
  by (cases t) (simp_all add: elem_size_def)

lemma head_len_num:
  "head_len Hello = 11" "head_len HelloBack = 15" "head_len Noop = 4" "head_len Close = 4"
  "head_len Enter = 14" "head_len Leave = 4" "head_len ClipboardGrab = 9"
  "head_len Screensaver = 5" "head_len ResetOptions = 4" "head_len InfoAck = 4"
  "head_len KeepAlive = 4" "head_len KeyDown = 10" "head_len KeyRepeat = 12" "head_len KeyUp = 10"
  "head_len MouseDown = 5" "head_len MouseUp = 5" "head_len MouseMove = 8"
  "head_len MouseRelMove = 8" "head_len MouseWheelMove = 8" "head_len ClipboardData = 14"
  "head_len Info = 18" "head_len SetOptions = 8" "head_len FileTransfer = 9"
  "head_len DragInfo = 10" "head_len InfoQuery = 4" "head_len Incompatible = 8"
  "head_len Busy = 4" "head_len Unknown = 4" "head_len Bad = 4"
  by (simp_all add: head_len_def tag_len_eq)

lemma type_tag_num:
  "type_tag Hello = [83, 121, 110, 101, 114, 103, 121]"
  "type_tag HelloBack = [83, 121, 110, 101, 114, 103, 121]" "type_tag Noop = [67, 78, 79, 80]"
  "type_tag Close = [67, 66, 89, 69]" "type_tag Enter = [67, 73, 78, 78]"
  "type_tag Leave = [67, 79, 85, 84]" "type_tag ClipboardGrab = [67, 67, 76, 80]"
  "type_tag Screensaver = [67, 83, 69, 67]" "type_tag ResetOptions = [67, 82, 79, 80]"
  "type_tag InfoAck = [67, 73, 65, 75]" "type_tag KeepAlive = [67, 65, 76, 86]"
  "type_tag KeyDown = [68, 75, 68, 78]" "type_tag KeyRepeat = [68, 75, 82, 80]"
  "type_tag KeyUp = [68, 75, 85, 80]" "type_tag MouseDown = [68, 77, 68, 78]"
  "type_tag MouseUp = [68, 77, 85, 80]" "type_tag MouseMove = [68, 77, 77, 86]"
  "type_tag MouseRelMove = [68, 77, 82, 77]" "type_tag MouseWheelMove = [68, 77, 87, 77]"
  "type_tag ClipboardData = [68, 67, 76, 80]" "type_tag Info = [68, 73, 78, 70]"
  "type_tag SetOptions = [68, 83, 79, 80]" "type_tag FileTransfer = [68, 70, 84, 82]"
  "type_tag DragInfo = [68, 68, 82, 71]" "type_tag InfoQuery = [81, 73, 78, 70]"
  "type_tag Incompatible = [69, 73, 67, 86]" "type_tag Busy = [69, 66, 83, 89]"
  "type_tag Unknown = [69, 85, 78, 75]" "type_tag Bad = [69, 66, 65, 68]"
  by (simp_all add: ascii_def)

lemmas scan_states_defs =
  scan_states_1_def scan_states_2_def scan_states_3_def scan_states_4_def scan_states_5_def
  scan_states_6_def scan_states_7_def scan_states_8_def scan_states_9_def scan_states_10_def

lemmas scan_trans_defs = scan_trans_def scan_trans_1_def scan_trans_2_def scan_trans_3_def

text \<open>Every entry of a table is found under its number.\<close>

lemma map_of_entries: "distinct (map fst xs) \<Longrightarrow> list_all (\<lambda>(n, a). map_of xs n = Some a) xs"
  by (auto simp: list_all_iff)

lemma distinct_scan_ann: "distinct (map fst scan_ann)"
  by (simp add: scan_ann_def)

lemma distinct_scan_states: "distinct (map fst scan_states)"
  by (simp add: scan_states_def scan_states_defs)

lemma distinct_scan_trans: "distinct (map fst scan_trans)"
  by (simp add: scan_trans_defs)

lemma ann_at_all: "list_all (\<lambda>(n, a). ann_at n = Some a) scan_ann"
  using map_of_entries[OF distinct_scan_ann] by (simp add: ann_at_def)

lemma trans_at_all: "list_all (\<lambda>(n, a). trans_at n = Some a) scan_trans"
  using map_of_entries[OF distinct_scan_trans] by (simp add: trans_at_def)

lemmas ann_at_num = ann_at_all[unfolded scan_ann_def list.pred_inject prod.case]
lemmas trans_at_num = trans_at_all[unfolded scan_trans_defs append.simps list.pred_inject prod.case]

lemma ann_at_168: "ann_at 168 = None"
  by (simp add: ann_at_def map_of_eq_None_iff scan_ann_def)

lemma eof_at_all: "list_all (\<lambda>(n, a). eof_at n = Some a) scan_eof"
  unfolding eof_at_def by (rule map_of_entries) (simp add: scan_eof_def)

lemmas eof_at_num = eof_at_all[unfolded scan_eof_def list.pred_inject prod.case]

lemma eof_at_None: "n \<le> 168 \<Longrightarrow> eof_at n = None"
  by (simp add: eof_at_def map_of_eq_None_iff scan_eof_def)

lemmas check_simps =
  check_state_def check_data_def check_tag_def check_bytes_def data_acts_def tag_of_def
  all_types_def flow_ok_def has_prefix_def eof_at_num eof_at_None
  tag_len_eq elem_size_eq head_len_num type_tag_num ann_at_num ann_at_168 trans_at_num

lemma check_1: "list_all (check_state flow) scan_states_1"
  by (cases flow) (simp_all add: check_simps scan_states_1_def del: type_tag.simps One_nat_def)

lemma check_2: "list_all (check_state flow) scan_states_2"
  by (cases flow) (simp_all add: check_simps scan_states_2_def del: type_tag.simps One_nat_def)

lemma check_3: "list_all (check_state flow) scan_states_3"
  by (cases flow) (simp_all add: check_simps scan_states_3_def del: type_tag.simps One_nat_def)

lemma check_4: "list_all (check_state flow) scan_states_4"
  by (cases flow) (simp_all add: check_simps scan_states_4_def del: type_tag.simps One_nat_def)

lemma check_5: "list_all (check_state flow) scan_states_5"
  by (cases flow) (simp_all add: check_simps scan_states_5_def del: type_tag.simps One_nat_def)

lemma check_6: "list_all (check_state flow) scan_states_6"
  by (cases flow) (simp_all add: check_simps scan_states_6_def del: type_tag.simps One_nat_def)

lemma check_7: "list_all (check_state flow) scan_states_7"
  by (cases flow) (simp_all add: check_simps scan_states_7_def del: type_tag.simps One_nat_def)

lemma check_8: "list_all (check_state flow) scan_states_8"
  by (cases flow) (simp_all add: check_simps scan_states_8_def del: type_tag.simps One_nat_def)

lemma check_9: "list_all (check_state flow) scan_states_9"
  by (cases flow) (simp_all add: check_simps scan_states_9_def del: type_tag.simps One_nat_def)

lemma check_10: "list_all (check_state flow) scan_states_10"
  by (cases flow) (simp_all add: check_simps scan_states_10_def del: type_tag.simps One_nat_def)

lemma check_states: "(n, e) \<in> set scan_states \<Longrightarrow> check_state flow (n, e)"
  using check_1[of flow] check_2[of flow] check_3[of flow] check_4[of flow] check_5[of flow]
    check_6[of flow] check_7[of flow] check_8[of flow] check_9[of flow] check_10[of flow]
  by (auto simp: scan_states_def list_all_iff)

lemma annotated_states: "fst ` set scan_ann \<subseteq> fst ` set scan_states"
proof -
  have "list_all (\<lambda>n. n \<in> set (map fst scan_states)) (map fst scan_ann)"
    by (simp add: scan_ann_def scan_states_def scan_states_defs)
  then show ?thesis by (auto simp: list_all_iff)
qed

lemma ann_at_0: "ann_at 0 = None"
  by (simp add: ann_at_def map_of_eq_None_iff scan_ann_def)

lemma annotated:
  assumes "ann_at n = Some a"
  obtains e where "state_at n = Some e" "check_state flow (n, e)" "n \<noteq> 0" "n \<noteq> 168"
proof -
  have "n \<in> fst ` set scan_states"
    using assms annotated_states by (force simp: ann_at_def dest: map_of_SomeD)
  then obtain e where e: "(n, e) \<in> set scan_states" by auto
  then have "state_at n = Some e"
    by (simp add: state_at_def map_of_is_SomeI[OF distinct_scan_states])
  moreover have "n \<noteq> 0" "n \<noteq> 168" using assms ann_at_0 ann_at_168 by (metis option.distinct(1))+
  ultimately show thesis using that e check_states by blast
qed

lemma start_state: "state_at 168 = Some (OnFlow 83
    [(67, St 1), (68, St 35), (69, St 129), (81, St 141), (339, St 144), (595, St 158)])"
  by (simp add: state_at_def scan_states_def scan_states_1_def)

lemma check_start:
  "byte_edges flow (OnFlow 83 [(67, St 1), (68, St 35), (69, St 129), (81, St 141), (339, St 144), (595, St 158)])
     = Some es \<Longrightarrow> check_bytes flow [] es"
  by (cases flow) (auto simp: check_simps simp del: type_tag.simps One_nat_def)

end
