(* ===== verification/ScannerV1_Props.thy ===== *)
theory ScannerV1_Props
  imports ScannerV1_Facts
begin

text \<open>
  The scanner does what the grammar says: \<open>process\<close> and \<open>parse_messages\<close> agree on every input.
\<close>

section \<open>Parsing by the grammar\<close>

text \<open>
  The length of the message of type \<open>t\<close> at the front of a buffer: the tag and the fixed part,
  with the data of a last string or vector when it fits the buffer.
\<close>

definition data_len :: "v1_type \<Rightarrow> bytes \<Rightarrow> nat" where
  "data_len t bs =
     (case elem_size t of
        None \<Rightarrow> 0
      | Some d \<Rightarrow> unat (of_be32 (take 4 (drop (head_len t - 4) bs))) * d)"

definition message_len :: "v1_type \<Rightarrow> bytes \<Rightarrow> nat" where
  "message_len t bs =
     (if data_len t bs \<le> length bs - head_len t then head_len t + data_len t bs else head_len t)"

lemma head_len_pos: "0 < head_len t" "tag_len t \<le> head_len t"
  by (auto simp: head_len_def tag_len_eq)

lemma message_len_pos: "0 < message_len t bs"
  using head_len_pos[of t] by (auto simp: message_len_def)

function parse_messages ::
  "('s \<Rightarrow> v1_message \<Rightarrow> bool \<times> 's) \<Rightarrow> flow \<Rightarrow> bytes \<Rightarrow> 's \<Rightarrow> 's scan_result" where
  "parse_messages handle flow bs s =
     (if bs = [] then Returned True s
      else
        (case find_type flow bs of
           None \<Rightarrow> Returned False s
         | Some t \<Rightarrow>
             if length bs < head_len t then Returned False s
             else
               (let n = message_len t bs
                in case read_from t (type_tag t) (drop (tag_len t) (take n bs)) of
                     Inl e \<Rightarrow> Threw e s
                   | Inr m \<Rightarrow>
                       (case handle s m of
                          (ok, s') \<Rightarrow>
                            if ok then parse_messages handle flow (drop n bs) s' else Returned False s'))))"
  by pat_completeness auto
termination
  by (relation "measure (\<lambda>(h, f, bs, s). length bs)") (simp_all add: message_len_pos)

declare parse_messages.simps [simp del]

section \<open>Types and tags\<close>

lemma find_Some: "find P xs = Some x \<Longrightarrow> P x"
  by (induction xs) (auto split: if_splits)

lemma all_types_UNIV: "set all_types = UNIV"
proof -
  have "t \<in> set all_types" for t by (cases t) (simp_all add: all_types_def)
  then show ?thesis by auto
qed

lemma find_Some_unique:
  assumes "P x" "x \<in> set xs" "\<And>y. P y \<Longrightarrow> y = x"
  shows "find P xs = Some x"
  using assms(2)
proof (induction xs)
  case (Cons a xs)
  show ?case
  proof (cases "P a")
    case True
    then have "a = x" by (rule assms(3))
    with True show ?thesis by simp
  next
    case False
    with Cons assms(1) show ?thesis by auto
  qed
qed simp

lemma find_type_None: "find_type flow bs = None \<longleftrightarrow> (\<forall>t. flow_ok flow t \<longrightarrow> \<not> has_prefix (type_tag t) bs)"
  by (auto simp: find_type_def find_None_iff all_types_UNIV)

lemma has_prefix_iff: "has_prefix w bs \<longleftrightarrow> (\<exists>us. bs = w @ us)"
proof
  assume "has_prefix w bs"
  then have "bs = w @ drop (length w) bs" by (metis append_take_drop_id has_prefix_def)
  then show "\<exists>us. bs = w @ us" by blast
qed (auto simp: has_prefix_def)

lemma has_prefix_take: "has_prefix w bs \<Longrightarrow> n \<le> length w \<Longrightarrow> take n bs = take n w"
  by (metis has_prefix_def min.absorb1 take_take)

lemma distinct_tags: "distinct (map (\<lambda>t. take 4 (type_tag t)) (tl all_types))"
  by (simp add: all_types_def type_tag_num del: type_tag.simps)

lemma tag_take_inj:
  assumes "take 4 (type_tag t) = take 4 (type_tag u)" "t \<noteq> Hello" "u \<noteq> Hello"
  shows "t = u"
proof -
  have "set (tl all_types) = UNIV - {Hello}"
    using all_types_UNIV by (auto simp: all_types_def)
  with distinct_tags have "inj_on (\<lambda>t. take 4 (type_tag t)) (UNIV - {Hello})"
    by (simp add: distinct_map)
  with assms show ?thesis by (auto dest: inj_onD)
qed

lemma tags_clash:
  assumes "flow_ok flow t" "flow_ok flow u" "has_prefix (type_tag t) bs" "has_prefix (type_tag u) bs"
  shows "t = u"
proof -
  have "4 \<le> length (type_tag x)" for x using tag_len_eq[of x] by (simp add: tag_len_def)
  then have eq: "take 4 (type_tag t) = take 4 (type_tag u)"
    using assms(3,4) has_prefix_take by metis
  have hello: "take 4 (type_tag HelloBack) = take 4 (type_tag Hello)" by simp
  consider "t \<noteq> Hello" "u \<noteq> Hello" | "t = Hello" "u = Hello" | "t = Hello" "u \<noteq> Hello" | "t \<noteq> Hello" "u = Hello"
    by blast
  then show ?thesis
  proof cases
    case 1
    with eq show ?thesis by (rule tag_take_inj)
  next
    case 3
    with eq hello have "u = HelloBack" by (intro tag_take_inj) (simp_all only: v1_type.distinct not_False_eq_True)
    with 3 assms(1,2) show ?thesis by (simp add: flow_ok_def)
  next
    case 4
    with eq hello have "t = HelloBack" by (intro tag_take_inj) (simp_all only: v1_type.distinct not_False_eq_True)
    with 4 assms(1,2) show ?thesis by (simp add: flow_ok_def)
  qed simp
qed

lemma find_type_Some: "find_type flow bs = Some t \<longleftrightarrow> flow_ok flow t \<and> has_prefix (type_tag t) bs"
proof
  assume "flow_ok flow t \<and> has_prefix (type_tag t) bs"
  then show "find_type flow bs = Some t"
    unfolding find_type_def by (intro find_Some_unique) (auto simp: all_types_UNIV dest: tags_clash)
qed (auto simp: find_type_def dest: find_Some)

lemma tag_of_Some: "tag_of flow w = Some t \<longleftrightarrow> flow_ok flow t \<and> type_tag t = w"
proof
  assume t: "flow_ok flow t \<and> type_tag t = w"
  then have "has_prefix (type_tag t) w" by (simp add: has_prefix_def)
  with t show "tag_of flow w = Some t"
    unfolding tag_of_def
    by (intro find_Some_unique) (use t in \<open>auto simp: all_types_UNIV has_prefix_def intro: tags_clash[where bs = w]\<close>)
qed (auto simp: tag_of_def dest: find_Some)

lemma tag_of_None: "tag_of flow w = None \<longleftrightarrow> (\<forall>t. flow_ok flow t \<longrightarrow> type_tag t \<noteq> w)"
  by (auto simp: tag_of_def find_None_iff all_types_UNIV)

section \<open>The machine and the grammar\<close>

lemma u8_bitD: "bit (w :: u8) n \<Longrightarrow> n < 8"
  using u8_no_bit[of n w] by fastforce

definition be_val :: "bytes \<Rightarrow> u64" where
  "be_val bs = foldl (\<lambda>a b. push_bit 8 a OR ucast b) 0 bs"

lemma be_val_simps: "be_val [b] = ucast b" "be_val (xs @ [b]) = push_bit 8 (be_val xs) OR ucast b"
  by (simp_all add: be_val_def)

lemma be_val_4:
  assumes "length bs = 4"
  shows "be_val bs = ucast (of_be32 bs)"
proof -
  obtain a b c d where bs: "bs = [a, b, c, d]"
    using assms by (auto simp: numeral_eq_Suc length_Suc_conv)
  show ?thesis
    unfolding bs be_val_def by (rule bit_word_eqI) (auto simp: bit_simps u8_no_bit dest: u8_bitD)
qed

text \<open>What holds when a state is entered, before its byte is looked at.\<close>

definition scan_inv :: "flow \<Rightarrow> bytes \<Rightarrow> scan_ann \<Rightarrow> scanner \<Rightarrow> bool" where
  "scan_inv flow msg a \<sigma> \<longleftrightarrow>
     (let ts = tok_start \<sigma>; bs = drop ts msg in
      pos \<sigma> < length msg \<and>
      (case a of
         InTag f w \<Rightarrow> w \<noteq> [] \<and> (f = None \<or> f = Some flow) \<and> pos \<sigma> + 1 = ts + length w \<and> has_prefix w bs
       | InData t j \<Rightarrow>
           pos \<sigma> + 1 = ts + j \<and> flow_ok flow t \<and> has_prefix (type_tag t) bs \<and>
           (tag_len t < j \<longrightarrow> data \<sigma> = ts + tag_len t) \<and>
           (\<forall>d. elem_size t = Some d \<and> head_len t < j + 4 \<longrightarrow>
              dsize \<sigma> = of_nat d \<and> dlen \<sigma> = be_val (take (j + 4 - head_len t) (drop (head_len t - 4) bs)))))"

lemma check_stateD:
  "check_state flow (n, e) \<Longrightarrow> ann_at n = Some (InTag f w) \<Longrightarrow> f = None \<or> f = Some flow \<Longrightarrow> check_tag flow n w e"
  "check_state flow (n, e) \<Longrightarrow> ann_at n = Some (InData t j) \<Longrightarrow> check_data n t j e"
  by (auto simp: check_state_def)

lemma scan_go_St:
  "n \<noteq> 0 \<Longrightarrow> scan_go handle flow msg (Suc k) (St n) \<sigma> s =
    (if pos \<sigma> + 1 = length msg then
       (case eof_at n of
          None \<Rightarrow> scan_finish msg n (\<sigma>\<lparr>pos := pos \<sigma> + 1\<rparr>) s
        | Some t \<Rightarrow> scan_go handle flow msg k (Tr t) (\<sigma>\<lparr>pos := pos \<sigma> + 1\<rparr>) s)
     else scan_case handle flow msg k n (\<sigma>\<lparr>pos := pos \<sigma> + 1\<rparr>) s)"
  by (cases "eof_at n") (simp_all add: Let_def)

lemma scan_case_goes:
  assumes "state_at n = Some e" "goes_to e = Some (as, m)" "n \<noteq> 168"
  obtains k' where "k \<le> k'" "k' \<le> Suc k"
    "scan_case handle flow msg (Suc (Suc k)) n \<sigma> s =
      (case scan_acts handle msg as \<sigma> s of
         Inl r \<Rightarrow> r | Inr (\<sigma>', s') \<Rightarrow> scan_go handle flow msg k' (St m) \<sigma>' s')"
proof (cases e rule: goes_to.cases)
  case (2 t)
  with assms(2) have "trans_at t = Some (as, m)" by simp
  with 2 assms that[of k] show thesis by simp
qed (use assms that[of "Suc k"] in auto)

lemma drop_nth: "pos \<sigma> = tok_start \<sigma> + j \<Longrightarrow> pos \<sigma> < length msg \<Longrightarrow> msg ! pos \<sigma> = drop (tok_start \<sigma>) msg ! j"
  by simp

lemma byte_edges_dispatch:
  assumes "byte_edges flow e = Some es" "\<forall>(c, g)\<in>set es. c < 256"
  shows "scan_edge flow msg \<sigma> e = ([], edge_for (unat (msg ! pos \<sigma>)) es)"
proof (cases e)
  case (OnFlow b es')
  let ?c = "unat (msg ! pos \<sigma>)"
  have c: "?c < 256" using unsigned_less[of "msg ! pos \<sigma>"] by simp
  have filt: "map_of (filter (\<lambda>(c, g). c < 256 \<and> c \<noteq> b') xs) c = (if c < 256 \<and> c \<noteq> b' then map_of xs c else None)"
    for b' c :: nat and xs :: "(nat \<times> scan_goto) list"
    by (induction xs) auto
  show ?thesis
    using assms(1) OnFlow c
    by (cases flow; cases "?c = b"; cases "map_of es' (256 + b + (if flow = STC then 256 else 0))")
       (auto simp: edge_for_def filt Let_def add.commute)
qed (use assms in \<open>auto simp: edge_for_def\<close>)

lemma has_prefix_snoc:
  assumes "has_prefix w bs" "length w < length bs"
  shows "has_prefix (w @ [bs ! length w]) bs"
  using assms by (simp add: has_prefix_def take_Suc_conv_app_nth)

text \<open>A switch on a byte of the tag: the next state is annotated, or no tag matches.\<close>

lemma tag_step:
  assumes chk: "check_bytes flow w es" and pre: "has_prefix w bs" and len: "length w < length bs"
  shows "(\<exists>m a. edge_for (unat (bs ! length w)) es = St m \<and> ann_at m = Some a \<and>
      m \<noteq> 0 \<and> m \<noteq> 168 \<and> ann_for flow (Some a) (w @ [bs ! length w]))
    \<or> (edge_for (unat (bs ! length w)) es = St 0 \<and> find_type flow bs = None)"
proof (cases "map_of es (unat (bs ! length w))")
  case (Some g)
  then have "(unat (bs ! length w), g) \<in> set es" by (rule map_of_SomeD)
  with chk have "case g of Tr _ \<Rightarrow> False | St m \<Rightarrow> m \<noteq> 0 \<and> m \<noteq> 168 \<and>
      ann_for flow (ann_at m) (w @ [of_nat (unat (bs ! length w))])"
    unfolding check_bytes_def by blast
  then obtain m where m: "g = St m" "m \<noteq> 0" "m \<noteq> 168"
      "ann_for flow (ann_at m) (w @ [of_nat (unat (bs ! length w))])"
    by (cases g) auto
  then obtain a where "ann_at m = Some a" by (cases "ann_at m") auto
  with m Some show ?thesis by (auto simp: edge_for_def)
next
  case None
  have "\<not> has_prefix (type_tag t) bs" if ok: "flow_ok flow t" for t
  proof
    assume tp: "has_prefix (type_tag t) bs"
    have c: "\<not> has_prefix (type_tag t) w"
      "has_prefix w (type_tag t) \<longrightarrow> unat (type_tag t ! length w) \<in> fst ` set es"
      using chk ok all_types_UNIV by (auto simp: check_bytes_def)
    from tp pre c(1) obtain us where us: "type_tag t = w @ us" "us \<noteq> []"
      by (auto simp: has_prefix_iff append_eq_append_conv2)
    with tp have "type_tag t ! length w = bs ! length w"
      by (auto simp: has_prefix_iff nth_append)
    with c(2) us have "unat (bs ! length w) \<in> fst ` set es" by (auto simp: has_prefix_iff)
    with None show False by (simp add: map_of_eq_None_iff)
  qed
  then have "find_type flow bs = None" by (simp add: find_type_None)
  with None show ?thesis by (simp add: edge_for_def)
qed

section \<open>One step\<close>

lemma scan_invD:
  assumes "scan_inv flow msg (InData t j) \<sigma>"
  shows "pos \<sigma> < length msg" "pos \<sigma> + 1 = tok_start \<sigma> + j" "flow_ok flow t"
    "has_prefix (type_tag t) (drop (tok_start \<sigma>) msg)"
    "tag_len t < j \<Longrightarrow> data \<sigma> = tok_start \<sigma> + tag_len t"
    "elem_size t = Some d \<Longrightarrow> head_len t < j + 4 \<Longrightarrow> dsize \<sigma> = of_nat d \<and>
      dlen \<sigma> = be_val (take (j + 4 - head_len t) (drop (head_len t - 4) (drop (tok_start \<sigma>) msg)))"
  using assms by (simp_all add: scan_inv_def Let_def)

lemma elem_size_head: "elem_size t = Some d \<Longrightarrow> tag_len t + 4 \<le> head_len t \<and> (d = 1 \<or> d = 4)"
  by (cases t) (simp_all add: elem_size_eq tag_len_eq head_len_num)

text \<open>The actions of a state inside the data: \<open>data\<close> and \<open>dlen\<close> are kept up to date.\<close>

lemma data_acts_inv:
  assumes inv: "scan_inv flow msg (InData t j) \<sigma>" and more: "pos \<sigma> + 1 < length msg"
    and j: "tag_len t \<le> j" "j < head_len t"
  shows "\<exists>\<sigma>'. scan_acts handle msg (data_acts t j) (\<sigma>\<lparr>pos := pos \<sigma> + 1\<rparr>) s = Inr (\<sigma>', s)
    \<and> tok_start \<sigma>' = tok_start \<sigma> \<and> scan_inv flow msg (InData t (Suc j)) \<sigma>'"
proof -
  note D = scan_invD[OF inv]
  let ?bs = "drop (tok_start \<sigma>) msg"
  have byte: "msg ! (pos \<sigma> + 1) = ?bs ! j" and lj: "j < length ?bs"
    using D(2) more by simp_all
  have data: "data \<sigma> = tok_start \<sigma> + tag_len t" if "j \<noteq> tag_len t" using D(5) that j by simp
  show ?thesis
  proof (cases "elem_size t")
    case None
    show ?thesis
      using D more data None by (auto simp: data_acts_def scan_inv_def Let_def)
  next
    case (Some d)
    note head = elem_size_head[OF Some]
    have nxt: "take (Suc j + 4 - head_len t) (drop (head_len t - 4) ?bs) =
        take (j + 4 - head_len t) (drop (head_len t - 4) ?bs) @ [?bs ! j]" if "head_len t \<le> j + 4"
    proof -
      have "Suc j + 4 - head_len t = Suc (j + 4 - head_len t)" using that by simp
      moreover have "j + 4 - head_len t < length (drop (head_len t - 4) ?bs)" using lj head that by simp
      moreover have "drop (head_len t - 4) ?bs ! (j + 4 - head_len t) = ?bs ! j"
        using lj head that by (simp add: add.commute)
      ultimately show ?thesis by (simp only: take_Suc_conv_app_nth)
    qed
    consider "j + 4 < head_len t" | "j + 4 = head_len t" | "head_len t < j + 4" by linarith
    then show ?thesis
    proof cases
      case 1
      then show ?thesis
        using D more data Some by (auto simp: data_acts_def scan_inv_def Let_def)
    next
      case 2
      with nxt have "take (Suc j + 4 - head_len t) (drop (head_len t - 4) ?bs) = [?bs ! j]" by simp
      then show ?thesis
        using D more data Some 2 byte be_val_simps(1) by (auto simp: data_acts_def scan_inv_def Let_def)
    next
      case 3
      then have "j \<noteq> tag_len t" using head by simp
      with 3 show ?thesis
        using D(1-5) D(6)[OF Some] more data Some byte nxt be_val_simps(2)
        by (auto simp: data_acts_def scan_inv_def Let_def)
    qed
  qed
qed

text \<open>A finished token: \<open>PROC\<close> does what the grammar does for one message.\<close>

lemma proc_message:
  assumes "find_type flow bs = Some t" "head_len t \<le> length bs" "bs = drop (tok_start \<sigma>) msg"
    and "data \<sigma> = tok_start \<sigma> + tag_len t" "tok_end \<sigma> = tok_start \<sigma> + message_len t bs"
  shows "parse_messages handle flow bs s =
    (case proc handle msg t \<sigma> s of
       Inl r \<Rightarrow> r | Inr s' \<Rightarrow> parse_messages handle flow (drop (message_len t bs) bs) s')"
proof -
  have "bs \<noteq> []" using assms(2) head_len_pos[of t] by auto
  moreover have "slice msg (tok_start \<sigma>) (data \<sigma>) = type_tag t"
    using assms find_type_Some[of flow bs t] by (simp add: slice_def has_prefix_def tag_len_def)
  moreover have "slice msg (data \<sigma>) (tok_end \<sigma>) = drop (tag_len t) (take (message_len t bs) bs)"
    using assms by (simp add: slice_def drop_take add.commute)
  ultimately show ?thesis
    using assms(1,2)
    by (subst parse_messages.simps) (simp add: proc_def Let_def split: sum.splits prod.splits)
qed

text \<open>What the run from a state must give with \<open>k\<close> units of fuel, if they are enough.\<close>

definition start_ok :: "('s \<Rightarrow> v1_message \<Rightarrow> bool \<times> 's) \<Rightarrow> flow \<Rightarrow> bytes \<Rightarrow> nat \<Rightarrow> bool" where
  "start_ok handle flow msg k \<longleftrightarrow>
     (\<forall>\<sigma> s. pos \<sigma> < length msg \<longrightarrow> 5 * (length msg - pos \<sigma>) \<le> k \<longrightarrow>
        scan_go handle flow msg k (St 168) \<sigma> s = parse_messages handle flow (drop (pos \<sigma> + 1) msg) s)"

definition ann_ok :: "('s \<Rightarrow> v1_message \<Rightarrow> bool \<times> 's) \<Rightarrow> flow \<Rightarrow> bytes \<Rightarrow> nat \<Rightarrow> bool" where
  "ann_ok handle flow msg k \<longleftrightarrow>
     (\<forall>n a \<sigma> s. ann_at n = Some a \<longrightarrow> scan_inv flow msg a \<sigma> \<longrightarrow> 5 * (length msg - pos \<sigma>) + 3 \<le> k \<longrightarrow>
        scan_go handle flow msg k (St n) \<sigma> s = parse_messages handle flow (drop (tok_start \<sigma>) msg) s)"

lemma parse_nothing: "parse_messages handle flow [] s = Returned True s"
  by (simp add: parse_messages.simps)

lemma parse_no_type:
  "find_type flow bs = None \<Longrightarrow> bs \<noteq> [] \<Longrightarrow> parse_messages handle flow bs s = Returned False s"
  by (simp add: parse_messages.simps)

lemma parse_too_short:
  "find_type flow bs = Some t \<Longrightarrow> bs \<noteq> [] \<Longrightarrow> length bs < head_len t \<Longrightarrow>
    parse_messages handle flow bs s = Returned False s"
  by (simp add: parse_messages.simps)

lemma end_token:
  assumes "find_type flow bs = Some t" "head_len t \<le> length bs" "bs = drop (tok_start \<sigma>) msg"
    and "data \<sigma> = tok_start \<sigma> + tag_len t" "tok_end \<sigma> = tok_start \<sigma> + message_len t bs"
    and "pos \<sigma> + 1 = tok_end \<sigma>" "start_ok handle flow msg k" "5 * (length msg - pos \<sigma>) \<le> k"
  shows "(case bindE (proc handle msg t \<sigma> s) (\<lambda>s'. Inr (\<sigma>, s')) of
      Inl r \<Rightarrow> r | Inr (\<sigma>', s') \<Rightarrow> scan_go handle flow msg k (St 168) \<sigma>' s')
    = parse_messages handle flow bs s"
proof -
  have "message_len t bs \<le> length bs" using assms(2) by (auto simp: message_len_def)
  moreover have "length bs = length msg - tok_start \<sigma>" "bs \<noteq> []"
    using assms(2,3) head_len_pos(1)[of t] by auto
  ultimately have "pos \<sigma> < length msg" using assms(5,6) by (cases bs) auto
  then have "scan_go handle flow msg k (St 168) \<sigma> s' =
      parse_messages handle flow (drop (message_len t bs) bs) s'" for s'
    using assms(3,5-8) unfolding start_ok_def by (simp add: add.commute)
  with proc_message[OF assms(1-5), of handle s] show ?thesis
    by (cases "proc handle msg t \<sigma> s") simp_all
qed

lemma ann_for_inv:
  assumes "ann_for flow (Some a) w" "has_prefix w (drop (tok_start \<sigma>) msg)" "w \<noteq> []"
    and "pos \<sigma> + 1 = tok_start \<sigma> + length w" "pos \<sigma> < length msg"
  shows "scan_inv flow msg a \<sigma>"
proof (cases a)
  case (InData t j)
  with assms have "flow_ok flow t" "type_tag t = w" "j = length w" by (auto simp: tag_of_Some)
  with InData assms elem_size_head[of t] show ?thesis
    by (auto simp: scan_inv_def Let_def tag_len_def)
qed (use assms in \<open>auto simp: scan_inv_def Let_def\<close>)

text \<open>A state inside a tag, or the start state, at a byte of the message.\<close>

lemma tag_case:
  assumes e: "state_at n = Some e" "byte_edges flow e = Some es" "check_bytes flow w es"
    and \<sigma>: "\<sigma>' = (if n = 168 then \<sigma>\<lparr>tok_start := pos \<sigma>\<rparr> else \<sigma>)"
    and w: "pos \<sigma> = tok_start \<sigma>' + length w" "pos \<sigma> < length msg" "has_prefix w (drop (tok_start \<sigma>') msg)"
    and ok: "ann_ok handle flow msg k" "5 * (length msg - pos \<sigma>) + 3 \<le> k"
  shows "scan_case handle flow msg (Suc k) n \<sigma> s = parse_messages handle flow (drop (tok_start \<sigma>') msg) s"
proof -
  let ?bs = "drop (tok_start \<sigma>') msg"
  have p: "pos \<sigma>' = pos \<sigma>" using \<sigma> by simp
  have byte: "msg ! pos \<sigma>' = ?bs ! length w" and len: "length w < length ?bs"
    using w p by (simp_all)
  have "\<forall>(c, g)\<in>set es. c < 256" using e(3) by (auto simp: check_bytes_def)
  from byte_edges_dispatch[OF e(2) this]
  have step: "scan_case handle flow msg (Suc k) n \<sigma> s =
      scan_go handle flow msg k (edge_for (unat (?bs ! length w)) es) \<sigma>' s"
    using e(1) \<sigma> byte by simp
  from tag_step[OF e(3) w(3) len] show ?thesis
  proof
    assume "\<exists>m a. edge_for (unat (?bs ! length w)) es = St m \<and> ann_at m = Some a \<and>
      m \<noteq> 0 \<and> m \<noteq> 168 \<and> ann_for flow (Some a) (w @ [?bs ! length w])"
    then obtain m a where m: "edge_for (unat (?bs ! length w)) es = St m" "ann_at m = Some a"
      "ann_for flow (Some a) (w @ [?bs ! length w])" by blast
    have "scan_inv flow msg a \<sigma>'"
      by (rule ann_for_inv[OF m(3) has_prefix_snoc[OF w(3) len]]) (use w p in auto)
    with m ok p show ?thesis unfolding step ann_ok_def by simp
  next
    assume no: "edge_for (unat (?bs ! length w)) es = St 0 \<and> find_type flow ?bs = None"
    obtain k' where "k = Suc k'" using ok(2) by (cases k) auto
    with no have "scan_go handle flow msg k (edge_for (unat (?bs ! length w)) es) \<sigma>' s = Returned False s"
      by (simp add: scan_finish_def)
    moreover have "?bs \<noteq> []" using len by auto
    ultimately show ?thesis unfolding step using no by (simp add: parse_no_type)
  qed
qed

lemma start_step:
  assumes "ann_ok handle flow msg k" "pos \<sigma> < length msg" "5 * (length msg - pos \<sigma>) \<le> Suc (Suc k)"
  shows "scan_go handle flow msg (Suc (Suc k)) (St 168) \<sigma> s =
    parse_messages handle flow (drop (pos \<sigma> + 1) msg) s"
proof (cases "pos \<sigma> + 1 = length msg")
  case True
  then show ?thesis
    by (simp add: scan_go_St eof_at_None scan_finish_def parse_nothing del: scan_go.simps)
next
  case False
  let ?\<sigma> = "\<sigma>\<lparr>pos := pos \<sigma> + 1\<rparr>"
  obtain es where es: "byte_edges flow (OnFlow 83
      [(67, St 1), (68, St 35), (69, St 129), (81, St 141), (339, St 144), (595, St 158)]) = Some es"
    by simp
  have "scan_case handle flow msg (Suc k) 168 ?\<sigma> s =
      parse_messages handle flow (drop (tok_start (?\<sigma>\<lparr>tok_start := pos ?\<sigma>\<rparr>)) msg) s"
    by (rule tag_case[OF start_state es check_start[OF es]])
       (use assms False in \<open>auto simp: has_prefix_def\<close>)
  with False show ?thesis by (simp add: scan_go_St del: scan_go.simps scan_case.simps)
qed

lemma tag_state_step:
  assumes chk: "state_at n = Some e" "check_tag flow n w e" "n \<noteq> 0" "n \<noteq> 168"
    and inv: "scan_inv flow msg (InTag f w) \<sigma>"
    and ok: "ann_ok handle flow msg k" "5 * (length msg - pos \<sigma>) + 3 \<le> Suc (Suc k)"
  shows "scan_go handle flow msg (Suc (Suc k)) (St n) \<sigma> s =
    parse_messages handle flow (drop (tok_start \<sigma>) msg) s"
proof -
  let ?bs = "drop (tok_start \<sigma>) msg"
  from inv have I: "w \<noteq> []" "pos \<sigma> < length msg" "pos \<sigma> + 1 = tok_start \<sigma> + length w" "has_prefix w ?bs"
    by (auto simp: scan_inv_def Let_def)
  from chk(2) obtain es where es: "n < 168" "eof_at n = None" "byte_edges flow e = Some es" "check_bytes flow w es"
    by (auto simp: check_tag_def split: option.splits)
  show ?thesis
  proof (cases "pos \<sigma> + 1 = length msg")
    case True
    with I(2-4) have "?bs = w" by (auto simp: has_prefix_def)
    moreover have "find_type flow w = None"
      using es(4) all_types_UNIV by (auto simp: find_type_None check_bytes_def)
    ultimately show ?thesis
      using True chk(3) es(1,2) I(1)
      by (simp add: scan_go_St scan_finish_def parse_no_type del: scan_go.simps)
  next
    case False
    have "scan_case handle flow msg (Suc k) n (\<sigma>\<lparr>pos := pos \<sigma> + 1\<rparr>) s =
        parse_messages handle flow (drop (tok_start (\<sigma>\<lparr>pos := pos \<sigma> + 1\<rparr>)) msg) s"
      by (rule tag_case[OF chk(1) es(3,4)]) (use I False ok chk(4) in auto)
    with False chk(3) show ?thesis by (simp add: scan_go_St del: scan_go.simps scan_case.simps)
  qed
qed

lemma scan_acts_append:
  "scan_acts handle msg (xs @ ys) \<sigma> s =
    bindE (scan_acts handle msg xs \<sigma> s) (\<lambda>(\<sigma>', s'). scan_acts handle msg ys \<sigma>' s')"
proof (induction xs arbitrary: \<sigma> s)
  case (Cons a xs)
  then show ?case by (cases "scan_act handle msg a \<sigma> s") (simp_all split: prod.splits)
qed simp

text \<open>The three ways in which a state inside the data goes on.\<close>

lemma data_state_plain:
  assumes chk: "state_at n = Some e" "check_data n t j e" "n \<noteq> 0" "n \<noteq> 168" "j < head_len t"
    and inv: "scan_inv flow msg (InData t j) \<sigma>"
    and ok: "\<And>k'. k \<le> k' \<Longrightarrow> k' \<le> Suc k \<Longrightarrow> ann_ok handle flow msg k' \<and> start_ok handle flow msg k'"
      "5 * (length msg - pos \<sigma>) \<le> k"
  shows "scan_go handle flow msg (Suc (Suc (Suc k))) (St n) \<sigma> s =
    parse_messages handle flow (drop (tok_start \<sigma>) msg) s"
proof -
  let ?bs = "drop (tok_start \<sigma>) msg"
  note D = scan_invD[OF inv]
  have ft: "find_type flow ?bs = Some t" using D(3,4) by (simp add: find_type_Some)
  from chk(2,5) obtain as m where c: "tag_len t \<le> j" "n < 168" "eof_at n = None" "goes_to e = Some (as, m)"
    "if elem_size t = None \<and> Suc j = head_len t then as = data_acts t j @ [EndHere t] \<and> m = 168
     else as = data_acts t j \<and> m \<noteq> 0 \<and> m \<noteq> 168 \<and> ann_at m = Some (InData t (Suc j))"
    by (auto simp: check_data_def split: option.splits)
  have "?bs \<noteq> []" using D(1,2) c(1) tag_len_eq[of t] by (auto split: if_splits)
  show ?thesis
  proof (cases "pos \<sigma> + 1 = length msg")
    case True
    then have "length ?bs < head_len t" using D(2) chk(5) by simp
    with True ft \<open>?bs \<noteq> []\<close> c(2,3) chk(3) show ?thesis
      by (simp add: scan_go_St scan_finish_def parse_too_short del: scan_go.simps)
  next
    case False
    let ?\<sigma> = "\<sigma>\<lparr>pos := pos \<sigma> + 1\<rparr>"
    have more: "pos \<sigma> + 1 < length msg" using False D(1) by simp
    obtain \<sigma>' where acts: "scan_acts handle msg (data_acts t j) ?\<sigma> s = Inr (\<sigma>', s)"
      "tok_start \<sigma>' = tok_start \<sigma>" "scan_inv flow msg (InData t (Suc j)) \<sigma>'"
      using data_acts_inv[OF inv more c(1) chk(5), of handle s] by (elim exE conjE)
    note D' = scan_invD[OF acts(3)]
    obtain k' where k': "k \<le> k'" "k' \<le> Suc k" "scan_case handle flow msg (Suc (Suc k)) n ?\<sigma> s =
        (case scan_acts handle msg as ?\<sigma> s of
           Inl r \<Rightarrow> r | Inr (\<sigma>', s') \<Rightarrow> scan_go handle flow msg k' (St m) \<sigma>' s')"
      by (rule scan_case_goes[OF chk(1) c(4) chk(4)])
    have go: "scan_go handle flow msg (Suc (Suc (Suc k))) (St n) \<sigma> s =
        scan_case handle flow msg (Suc (Suc k)) n ?\<sigma> s"
      using False chk(3) by (simp add: scan_go_St del: scan_go.simps scan_case.simps)
    have fuel: "5 * (length msg - pos \<sigma>') + 3 \<le> k'" using D'(2) D(2) acts(2) D(1) more ok(2) k'(1) by simp
    show ?thesis
    proof (cases "elem_size t = None \<and> Suc j = head_len t")
      case True
      let ?\<tau> = "\<sigma>'\<lparr>tok_end := pos \<sigma>' + 1\<rparr>"
      have A: "scan_acts handle msg as ?\<sigma> s = bindE (proc handle msg t ?\<tau> s) (\<lambda>s'. Inr (?\<tau>, s'))"
        using True c(5) acts(1) by (cases "proc handle msg t ?\<tau> s") (simp_all add: scan_acts_append)
      have B: "(case bindE (proc handle msg t ?\<tau> s) (\<lambda>s'. Inr (?\<tau>, s')) of
          Inl r \<Rightarrow> r | Inr (\<sigma>', s') \<Rightarrow> scan_go handle flow msg k' (St 168) \<sigma>' s')
          = parse_messages handle flow ?bs s"
      proof (rule end_token[OF ft])
        show "head_len t \<le> length ?bs" using D'(1,2) acts(2) True by simp
        show "data ?\<tau> = tok_start ?\<tau> + tag_len t" using D'(5) c(1) by simp
        show "tok_end ?\<tau> = tok_start ?\<tau> + message_len t ?bs"
          using D'(2) True acts(2) by (simp add: message_len_def data_len_def)
      qed (use acts(2) ok(1) k' fuel in auto)
      have m: "m = 168" using c(5) True by auto
      show ?thesis unfolding go k'(3) A m by (rule B)
    next
      case False
      with c(5) have m: "as = data_acts t j" "ann_at m = Some (InData t (Suc j))" by auto
      then have "scan_go handle flow msg k' (St m) \<sigma>' s = parse_messages handle flow ?bs s"
        using ok(1)[OF k'(1,2)] acts(2,3) fuel unfolding ann_ok_def by metis
      with m(1) acts(1) show ?thesis unfolding go k'(3) by simp
    qed
  qed
qed

text \<open>The token ends before the byte that is looked at, or at the end of the message.\<close>

lemma end_before:
  assumes t: "find_type flow bs = Some t" "bs = drop (tok_start \<sigma>) msg" "head_len t \<le> length bs"
    and pos: "pos \<sigma> = tok_start \<sigma> + head_len t" "message_len t bs = head_len t"
    and data: "if pre = [] then data \<sigma> = tok_start \<sigma> + tag_len t else pre = [SetData] \<and> head_len t = tag_len t"
    and ok: "start_ok handle flow msg k" "5 * (length msg - pos \<sigma>) + 5 \<le> k"
  shows "(case scan_acts handle msg (pre @ [EndBefore t]) \<sigma> s of
      Inl r \<Rightarrow> r | Inr (\<sigma>', s') \<Rightarrow> scan_go handle flow msg k (St 168) \<sigma>' s')
    = parse_messages handle flow bs s"
proof -
  let ?\<tau> = "\<sigma>\<lparr>data := tok_start \<sigma> + tag_len t, tok_end := pos \<sigma>, pos := pos \<sigma> - 1\<rparr>"
  have "scan_acts handle msg (pre @ [EndBefore t]) \<sigma> s = bindE (proc handle msg t ?\<tau> s) (\<lambda>s'. Inr (?\<tau>, s'))"
  proof (cases "pre = []")
    case True
    then have "\<sigma>\<lparr>tok_end := pos \<sigma>, pos := pos \<sigma> - 1\<rparr> = ?\<tau>" using data by (cases \<sigma>) simp
    with True show ?thesis by (cases "proc handle msg t ?\<tau> s") (simp_all add: Let_def)
  next
    case False
    with data have "pre = [SetData]" "pos \<sigma> = tok_start \<sigma> + tag_len t" using pos by auto
    then show ?thesis by (cases "proc handle msg t ?\<tau> s") (simp_all add: Let_def)
  qed
  moreover have "(case bindE (proc handle msg t ?\<tau> s) (\<lambda>s'. Inr (?\<tau>, s')) of
      Inl r \<Rightarrow> r | Inr (\<sigma>', s') \<Rightarrow> scan_go handle flow msg k (St 168) \<sigma>' s')
    = parse_messages handle flow bs s"
    by (rule end_token[OF t(1,3)]) (use t(2) pos ok head_len_pos(1)[of t] in auto)
  ultimately show ?thesis by simp
qed

lemma scan_go_Tr:
  "trans_at t = Some (as, n) \<Longrightarrow> scan_go handle flow msg (Suc k) (Tr t) \<sigma> s =
    (case scan_acts handle msg as \<sigma> s of
       Inl r \<Rightarrow> r | Inr (\<sigma>', s') \<Rightarrow> scan_go handle flow msg k (St n) \<sigma>' s')"
  by simp

lemma data_state_final:
  assumes chk: "state_at n = Some e" "check_data n t (head_len t) e" "elem_size t = None" "n \<noteq> 0" "n \<noteq> 168"
    and inv: "scan_inv flow msg (InData t (head_len t)) \<sigma>"
    and ok: "\<And>k'. k \<le> k' \<Longrightarrow> k' \<le> Suc k \<Longrightarrow> start_ok handle flow msg k'"
      "5 * (length msg - pos \<sigma>) \<le> k"
  shows "scan_go handle flow msg (Suc (Suc (Suc k))) (St n) \<sigma> s =
    parse_messages handle flow (drop (tok_start \<sigma>) msg) s"
proof -
  let ?bs = "drop (tok_start \<sigma>) msg" and ?\<sigma> = "\<sigma>\<lparr>pos := pos \<sigma> + 1\<rparr>"
  note D = scan_invD[OF inv]
  have ft: "find_type flow ?bs = Some t" using D(3,4) by (simp add: find_type_Some)
  from chk(2,3) obtain a where c: "head_len t = tag_len t" "goes_to e = Some ([SetData, EndBefore t], 168)"
    "eof_at n = Some a" "trans_at a = Some ([SetData, EndBefore t], 168)"
    by (auto simp: check_data_def split: option.splits)
  have go: "(case scan_acts handle msg ([SetData] @ [EndBefore t]) ?\<sigma> s of
      Inl r \<Rightarrow> r | Inr (\<sigma>', s') \<Rightarrow> scan_go handle flow msg k' (St 168) \<sigma>' s') = parse_messages handle flow ?bs s"
    if "k \<le> k'" "k' \<le> Suc k" for k'
    by (rule end_before[OF ft])
       (use D(1,2) c(1) ok(1)[OF that] ok(2) that chk(3) in \<open>auto simp: message_len_def data_len_def\<close>)
  show ?thesis
  proof (cases "pos \<sigma> + 1 = length msg")
    case True
    then have "scan_go handle flow msg (Suc (Suc (Suc k))) (St n) \<sigma> s =
        scan_go handle flow msg (Suc (Suc k)) (Tr a) ?\<sigma> s"
      using c(3) chk(4) by (simp add: scan_go_St del: scan_go.simps)
    also have "\<dots> = parse_messages handle flow ?bs s"
      using go[of "Suc k"] by (simp only: scan_go_Tr[OF c(4)] append.simps le_SucI order_refl)
    finally show ?thesis .
  next
    case False
    obtain k' where k': "k \<le> k'" "k' \<le> Suc k" "scan_case handle flow msg (Suc (Suc k)) n ?\<sigma> s =
        (case scan_acts handle msg [SetData, EndBefore t] ?\<sigma> s of
           Inl r \<Rightarrow> r | Inr (\<sigma>', s') \<Rightarrow> scan_go handle flow msg k' (St 168) \<sigma>' s')"
      by (rule scan_case_goes[OF chk(1) c(2) chk(5)])
    with False chk(4) go[OF k'(1,2)] show ?thesis
      by (simp add: scan_go_St del: scan_go.simps scan_case.simps scan_acts.simps)
  qed
qed

text \<open>After the length of a string or vector: the data is skipped if it fits.\<close>

lemma dlen_is_safe_iff:
  assumes d: "elem_size t = Some d" and inv: "scan_inv flow msg (InData t (head_len t)) \<sigma>"
  shows "unat (dlen \<sigma> * dsize \<sigma>) = data_len t (drop (tok_start \<sigma>) msg)"
    and "dlen \<sigma> = 0 \<longrightarrow> data_len t (drop (tok_start \<sigma>) msg) = 0"
proof -
  let ?x = "take 4 (drop (head_len t - 4) (drop (tok_start \<sigma>) msg))"
  note D = scan_invD[OF inv] and head = elem_size_head[OF d]
  have "length ?x = 4" using D(1,2) head by auto
  then have x: "dlen \<sigma> = ucast (of_be32 ?x)" "dsize \<sigma> = of_nat d"
    using D(6)[OF d] be_val_4[of ?x] by auto
  have lt: "unat (of_be32 ?x) < 2 ^ LENGTH(32)" by (rule unsigned_less)
  then have u: "unat (dlen \<sigma>) = unat (of_be32 ?x)"
    unfolding x(1) by (simp add: unsigned_ucast_eq take_bit_nat_eq_self)
  with lt have "unat (dlen \<sigma>) < 2 ^ 32" by simp
  then have "unat (dlen \<sigma>) * d < 2 ^ 64" using head by auto
  then have "unat (dlen \<sigma> * dsize \<sigma>) = unat (dlen \<sigma>) * d"
    using x(2) head by (auto simp: unat_word_ariths)
  then show "unat (dlen \<sigma> * dsize \<sigma>) = data_len t (drop (tok_start \<sigma>) msg)"
    using u d by (simp add: data_len_def)
  show "dlen \<sigma> = 0 \<longrightarrow> data_len t (drop (tok_start \<sigma>) msg) = 0"
  proof
    assume "dlen \<sigma> = 0"
    with u have "unat (of_be32 ?x) = 0" by simp
    with d show "data_len t (drop (tok_start \<sigma>) msg) = 0" by (simp add: data_len_def)
  qed
qed

lemma data_state_var:
  assumes chk: "state_at n = Some e" "check_data n t (head_len t) e" "elem_size t = Some d" "n \<noteq> 0" "n \<noteq> 168"
    and inv: "scan_inv flow msg (InData t (head_len t)) \<sigma>"
    and ok: "\<And>k'. k \<le> k' \<Longrightarrow> k' \<le> Suc k \<Longrightarrow> start_ok handle flow msg k'"
      "5 * (length msg - pos \<sigma>) \<le> k"
  shows "scan_go handle flow msg (Suc (Suc (Suc k))) (St n) \<sigma> s =
    parse_messages handle flow (drop (tok_start \<sigma>) msg) s"
proof -
  let ?bs = "drop (tok_start \<sigma>) msg" and ?\<sigma> = "\<sigma>\<lparr>pos := pos \<sigma> + 1\<rparr>"
  note D = scan_invD[OF inv] and head = elem_size_head[OF chk(3)] and safe = dlen_is_safe_iff[OF chk(3) inv]
  have ft: "find_type flow ?bs = Some t" using D(3,4) by (simp add: find_type_Some)
  have len: "head_len t \<le> length ?bs" "length ?bs - head_len t = length msg - (pos \<sigma> + 1)" using D(1,2) by auto
  from chk(2,3) obtain a b where c: "e = OnSafe (Tr a) (Tr b)" "trans_at a = Some ([SkipData, EndHere t], 168)"
    "trans_at b = Some ([EndBefore t], 168)" "eof_at n = Some b"
    by (auto simp: check_data_def split: scan_edges.splits scan_goto.splits)
  have data: "data \<sigma> = tok_start \<sigma> + tag_len t" using D(5) head by simp
  have before: "(case scan_acts handle msg ([] @ [EndBefore t]) ?\<sigma> s of
      Inl r \<Rightarrow> r | Inr (\<sigma>', s') \<Rightarrow> scan_go handle flow msg k' (St 168) \<sigma>' s') = parse_messages handle flow ?bs s"
    if "k \<le> k'" "k' \<le> Suc k" "message_len t ?bs = head_len t" for k'
    by (rule end_before[OF ft]) (use D(1,2) len ok(1)[OF that(1,2)] ok(2) that data in auto)
  show ?thesis
  proof (cases "pos \<sigma> + 1 = length msg")
    case True
    then have "message_len t ?bs = head_len t" using len by (auto simp: message_len_def)
    moreover have "scan_go handle flow msg (Suc (Suc (Suc k))) (St n) \<sigma> s =
        scan_go handle flow msg (Suc (Suc k)) (Tr b) ?\<sigma> s"
      using True c(4) chk(4) by (simp add: scan_go_St del: scan_go.simps)
    ultimately show ?thesis
      using before[of "Suc k"] by (simp only: scan_go_Tr[OF c(3)] append.simps le_SucI order_refl)
  next
    case False
    let ?safe = "dlen_is_safe msg ?\<sigma>"
    have byte: "unat (msg ! (pos \<sigma> + 1)) < 256" using unsigned_less[of "msg ! (pos \<sigma> + 1)"] by simp
    have go: "scan_go handle flow msg (Suc (Suc (Suc k))) (St n) \<sigma> s =
        scan_go handle flow msg (Suc k) (if ?safe then Tr a else Tr b) ?\<sigma> s"
      using False chk(1,4,5) c(1) byte by (simp add: scan_go_St Let_def del: scan_go.simps)
    show ?thesis
    proof (cases ?safe)
      case True
      then have dl: "data_len t ?bs \<le> length ?bs - head_len t"
        using safe(1) len(2) by (simp add: dlen_is_safe_def)
      let ?\<tau> = "?\<sigma>\<lparr>pos := pos \<sigma> + data_len t ?bs, tok_end := pos \<sigma> + data_len t ?bs + 1\<rparr>"
      have A: "scan_acts handle msg [SkipData, EndHere t] ?\<sigma> s = bindE (proc handle msg t ?\<tau> s) (\<lambda>s'. Inr (?\<tau>, s'))"
        using safe(1) by (cases "proc handle msg t ?\<tau> s") (simp_all add: Let_def)
      have B: "(case bindE (proc handle msg t ?\<tau> s) (\<lambda>s'. Inr (?\<tau>, s')) of
          Inl r \<Rightarrow> r | Inr (\<sigma>', s') \<Rightarrow> scan_go handle flow msg k (St 168) \<sigma>' s') = parse_messages handle flow ?bs s"
        by (rule end_token[OF ft]) (use D(1,2) len data dl ok in \<open>auto simp: message_len_def\<close>)
      show ?thesis unfolding go using True by (simp only: if_True scan_go_Tr[OF c(2)] A B)
    next
      case False
      then have "message_len t ?bs = head_len t"
        using safe len(2) by (auto simp: dlen_is_safe_def message_len_def word_gt_0)
      with False before[of k] show ?thesis
        unfolding go by (simp only: if_False scan_go_Tr[OF c(3)] append.simps le_SucI order_refl)
    qed
  qed
qed

section \<open>The scanner implements the grammar\<close>

lemma scan_correct: "start_ok handle flow msg k \<and> ann_ok handle flow msg k"
proof (induction k rule: less_induct)
  case (less k)
  have "start_ok handle flow msg k"
    unfolding start_ok_def
  proof (intro allI impI)
    fix \<sigma> :: scanner and s
    assume p: "pos \<sigma> < length msg" "5 * (length msg - pos \<sigma>) \<le> k"
    then have "k = Suc (Suc (k - 2))" by simp
    then obtain k' where k: "k = Suc (Suc k')" by blast
    show "scan_go handle flow msg k (St 168) \<sigma> s = parse_messages handle flow (drop (pos \<sigma> + 1) msg) s"
      unfolding k by (rule start_step) (use less.IH[of k'] p k in auto)
  qed
  moreover have "ann_ok handle flow msg k"
    unfolding ann_ok_def
  proof (intro allI impI)
    fix n a and \<sigma> :: scanner and s
    assume a: "ann_at n = Some a" "scan_inv flow msg a \<sigma>" "5 * (length msg - pos \<sigma>) + 3 \<le> k"
    have "k = Suc (Suc (Suc (k - 3)))" using a(3) by simp
    then obtain k' where k: "k = Suc (Suc (Suc k'))" by blast
    obtain e where e: "state_at n = Some e" "check_state flow (n, e)" "n \<noteq> 0" "n \<noteq> 168"
      using a(1) by (rule annotated)
    have ih: "\<And>k''. k' \<le> k'' \<Longrightarrow> k'' \<le> Suc k' \<Longrightarrow> ann_ok handle flow msg k'' \<and> start_ok handle flow msg k''"
      using less.IH k by simp
    show "scan_go handle flow msg k (St n) \<sigma> s = parse_messages handle flow (drop (tok_start \<sigma>) msg) s"
    proof (cases a)
      case (InTag f w)
      with a(2) have "f = None \<or> f = Some flow" by (simp add: scan_inv_def Let_def)
      with e a(1) InTag have "check_tag flow n w e" by (blast intro: check_stateD)
      then show ?thesis
        unfolding k by (rule tag_state_step[OF e(1) _ e(3,4)]) (use a InTag ih[of "Suc k'"] k in auto)
    next
      case (InData t j)
      with e(2) a(1) have chk: "check_data n t j e" by (blast intro: check_stateD)
      consider "j < head_len t" | "j = head_len t" "elem_size t = None" | d where "j = head_len t" "elem_size t = Some d"
        using chk by (cases "elem_size t") (auto simp: check_data_def split: if_splits)
      then show ?thesis
      proof cases
        case 1
        show ?thesis
          unfolding k by (rule data_state_plain[OF e(1) chk e(3,4) 1]) (use a k ih InData in auto)
      next
        case 2
        show ?thesis
          unfolding k by (rule data_state_final[OF e(1) _ 2(2) e(3,4)]) (use a k ih InData chk 2 in auto)
      next
        case (3 d)
        show ?thesis
          unfolding k by (rule data_state_var[OF e(1) _ 3(2) e(3,4)]) (use a k ih InData chk 3 in auto)
      qed
    qed
  qed
  ultimately show ?case ..
qed

lemma process_is_parse:
  "process handle flow msg s = parse_messages handle flow msg s"
proof (cases "msg = []")
  case True
  then show ?thesis by (simp add: process_def scan_finish_def init_scanner_def parse_nothing)
next
  case False
  obtain es where es: "byte_edges flow (OnFlow 83
      [(67, St 1), (68, St 35), (69, St 129), (81, St 141), (339, St 144), (595, St 158)]) = Some es"
    by simp
  have f: "scan_fuel msg = Suc (5 * length msg + 7)" by (simp add: scan_fuel_def)
  have "scan_case handle flow msg (Suc (5 * length msg + 7)) 168 init_scanner s =
      parse_messages handle flow (drop (tok_start (init_scanner\<lparr>tok_start := pos init_scanner\<rparr>)) msg) s"
    by (rule tag_case[OF start_state es check_start[OF es]])
       (use False scan_correct in \<open>auto simp: has_prefix_def init_scanner_def\<close>)
  with False show ?thesis by (simp add: process_def f init_scanner_def del: scan_case.simps)
qed

lemma parse_returns: "parse_messages handle flow bs s \<noteq> OutOfFuel"
proof (induction handle flow bs s rule: parse_messages.induct)
  case (1 handle flow bs s)
  then show ?case
    by (subst parse_messages.simps) (auto simp: Let_def split: option.splits sum.splits prod.splits)
qed

text \<open>
  C5. On every message, in both directions and for every handler, the state machine of
  \<open>Scanner.cpp\<close> does what the grammar says: it hands over the messages of the buffer one by one,
  stops at the first that the handler rejects, fails on anything else, and throws exactly when the
  length of a last string or vector exceeds the buffer. It always terminates.
\<close>

theorem scanner_implements_grammar:
  "process handle flow msg s = parse_messages handle flow msg s \<and> process handle flow msg s \<noteq> OutOfFuel"
  using process_is_parse parse_returns by metis

text \<open>The bytes of a message have the length that the grammar computes from them.\<close>

lemma write_field_fixed:
  "write_field f = Inr bs \<Longrightarrow> field_type_of f \<noteq> TStr \<Longrightarrow> field_type_of f \<noteq> TVec \<Longrightarrow>
    length bs = fixed_size (field_type_of f)"
  by (cases f) auto

lemma write_fields_append:
  "write_fields (xs @ ys) = bindE (write_fields xs) (\<lambda>b. bindE (write_fields ys) (\<lambda>c. Inr (b @ c)))"
  by (induction xs) (auto simp: bindE_def split: sum.splits)

lemma write_fields_fixed:
  "write_fields fs = Inr bs \<Longrightarrow> TStr \<notin> set (map field_type_of fs) \<Longrightarrow> TVec \<notin> set (map field_type_of fs) \<Longrightarrow>
    length bs = sum_list (map fixed_size (map field_type_of fs))"
proof (induction fs arbitrary: bs)
  case (Cons f fs)
  then obtain b c where b: "write_field f = Inr b" "write_fields fs = Inr c" "bs = b @ c"
    by (auto simp: bindE_Inr_iff)
  with Cons show ?case using write_field_fixed[OF b(1)] by auto
qed simp

lemma schema_fixed: "TStr \<notin> set (butlast (schema t)) \<and> TVec \<notin> set (butlast (schema t))"
  by (cases t) simp_all

lemma schema_last: "elem_size t = None \<longleftrightarrow> TStr \<notin> set (schema t) \<and> TVec \<notin> set (schema t)"
  by (cases t) (simp_all add: elem_size_eq)

lemma elem_size_last:
  "elem_size t = Some d \<Longrightarrow> schema t \<noteq> [] \<and> (last (schema t) = TStr \<and> d = 1 \<or> last (schema t) = TVec \<and> d = 4)"
  by (cases t) (simp_all add: elem_size_eq)

lemma encoded_length:
  assumes m: "well_typed m" "write_to m = Inr bs"
  shows "head_len (vtype m) \<le> length bs \<and> message_len (vtype m) (bs @ rest) = length bs"
proof -
  let ?t = "vtype m"
  obtain fs where fs: "write_fields (args m) = Inr fs" "bs = type_tag ?t @ fs"
    using m(2) by (auto simp: write_to_def bindE_Inr_iff)
  have types: "map field_type_of (args m) = schema ?t" using m(1) by (simp add: well_typed_def)
  show ?thesis
  proof (cases "elem_size ?t")
    case None
    then have "length fs = sum_list (map fixed_size (schema ?t))"
      using write_fields_fixed[OF fs(1)] types schema_last[of ?t] by simp
    then show ?thesis
      using None fs(2) by (simp add: message_len_def data_len_def head_len_def tag_len_def)
  next
    case (Some d)
    note el = elem_size_last[OF Some]
    then have ne: "schema ?t \<noteq> []" by simp
    with types have ne': "args m \<noteq> []" by auto
    let ?f = "last (args m)"
    have lastf: "field_type_of ?f = last (schema ?t)" using types ne' by (metis last_map)
    obtain b c where b: "write_fields (butlast (args m)) = Inr b" "write_field ?f = Inr c" "fs = b @ c"
      using fs(1) write_fields_append[of "butlast (args m)" "[?f]"]
      unfolding append_butlast_last_id[OF ne'] by (fastforce simp: bindE_Inr_iff)
    have "length b = sum_list (map fixed_size (butlast (schema ?t)))"
      using write_fields_fixed[OF b(1)] types schema_fixed[of ?t] by (simp add: map_butlast)
    moreover obtain n x where c: "c = be32 (of_nat n) @ x" "n < 2 ^ 32" "length x = n * d"
      and last4: "fixed_size (last (schema ?t)) = 4"
      using b(2) lastf el by (cases ?f) (auto simp: bindE_Inr_iff write_length_Inr)
    moreover have "sum_list (map fixed_size (schema ?t)) =
        sum_list (map fixed_size (butlast (schema ?t))) + fixed_size (last (schema ?t))"
      using ne by (subst append_butlast_last_id[OF ne, symmetric]) (simp del: append_butlast_last_id)
    ultimately have len: "head_len ?t = tag_len ?t + length b + 4" "length bs = head_len ?t + n * d"
      using fs(2) b(3) by (simp_all add: head_len_def tag_len_def)
    have "take 4 (drop (head_len ?t - 4) (bs @ rest)) = be32 (of_nat n)"
      using fs(2) b(3) c(1) len(1) by (simp add: tag_len_def)
    then have "data_len ?t (bs @ rest) = n * d" using Some c(2) by (simp add: data_len_def length_unat)
    then show ?thesis using len(2) by (simp add: message_len_def)
  qed
qed

lemma parse_encoded:
  assumes m: "well_typed m" "write_to m = Inr bs" "flow_ok flow (vtype m)"
  shows "parse_messages handle flow (bs @ rest) s =
    (case handle s m of (ok, s') \<Rightarrow> if ok then parse_messages handle flow rest s' else Returned False s')"
proof -
  let ?t = "vtype m"
  note len = encoded_length[OF m(1,2), of rest]
  have tag: "take (tag_len ?t) bs = type_tag ?t" "read_from ?t (type_tag ?t) (drop (tag_len ?t) bs) = Inr m"
    using codec_reads[OF m(1,2)] by (simp_all add: tag_len_def)
  have "bs \<noteq> []" using len head_len_pos(1)[of ?t] by auto
  moreover have "find_type flow (bs @ rest) = Some ?t"
    using m(3) tag(1) len head_len_pos(2)[of ?t] by (simp add: find_type_Some has_prefix_def tag_len_def)
  ultimately show ?thesis
    using len tag(2) by (subst parse_messages.simps) (cases "handle s m", simp)
qed

definition collect :: "v1_message list \<Rightarrow> v1_message \<Rightarrow> bool \<times> v1_message list" where
  "collect seen m = (True, seen @ [m])"

lemma collect_app: "collect seen m = (True, seen @ [m])"
  by (simp add: collect_def)

lemma parse_encodings:
  "list_all2 (\<lambda>m bs. well_typed m \<and> flow_ok flow (vtype m) \<and> write_to m = Inr bs) ms bss \<Longrightarrow>
    parse_messages collect flow (concat bss) seen = Returned True (seen @ ms)"
proof (induction ms bss arbitrary: seen rule: list_all2_induct)
  case (Cons m ms bs bss)
  have "parse_messages collect flow (bs @ concat bss) seen = parse_messages collect flow (concat bss) (seen @ [m])"
    using Cons.hyps(1) parse_encoded[of m bs flow collect "concat bss" seen] by (simp add: collect_app)
  with Cons.IH[of "seen @ [m]"] show ?case by simp
qed (simp add: parse_nothing)

text \<open>
  C9. A buffer made of the encodings of any messages of its direction is cut back into exactly
  these messages: the handler sees each once, in order, and \<open>process\<close> returns true.
\<close>

theorem scanner_recovers_messages:
  assumes "list_all2 (\<lambda>m bs. well_typed m \<and> flow_ok flow (vtype m) \<and> write_to m = Inr bs) ms bss"
  shows "process collect flow (concat bss) [] = Returned True ms"
  using parse_encodings[OF assms, of "[]"] by (simp add: process_is_parse)

theorem scanner_recovers_messages_witness:
  "process collect STC (concat [ascii ''DCLP'' @ [1, 0, 0, 0, 7, 2, 0, 0, 0, 2, 104, 105], ascii ''CNOP'']) []
    = Returned True [demo_clipboard, \<lparr>vtype = Noop, args = []\<rparr>]"
proof (rule scanner_recovers_messages)
  have "well_typed \<lparr>vtype = Noop, args = []\<rparr>" "write_to \<lparr>vtype = Noop, args = []\<rparr> = Inr (ascii ''CNOP'')"
    by (simp_all add: well_typed_def write_to_def)
  moreover have "vtype demo_clipboard = ClipboardData" by (simp add: demo_clipboard_def)
  ultimately show "list_all2 (\<lambda>m bs. well_typed m \<and> flow_ok STC (vtype m) \<and> write_to m = Inr bs)
      [demo_clipboard, \<lparr>vtype = Noop, args = []\<rparr>]
      [ascii ''DCLP'' @ [1, 0, 0, 0, 7, 2, 0, 0, 0, 2, 104, 105], ascii ''CNOP'']"
    using demo_clipboard_bytes by (simp add: flow_ok_def)
qed

end
