(* ===== verification/Proxy.thy ===== *)
theory Proxy
  imports Router_Facts Connection ScannerV1_Props
begin

text \<open>
  The proxies between the local core processes and the router: \<open>router/ServerProxy.cpp\<close> (a core
  client connects to it and its messages go to the server's node), \<open>router/ClientProxy.cpp\<close> (it
  connects to the local core server on behalf of remote clients), and the message handler they
  share, \<open>protocol/v1/Scanner.hpp\<close>.
\<close>

section \<open>The handler\<close>

text \<open>What handling a message does: messages sent by the router, and frames written back.\<close>

record proxy_io =
  routed :: "router_event list"
  written :: "bytes list"

definition text_of :: "bytes \<Rightarrow> string" where
  "text_of bs = map (\<lambda>b. char_of (unat b)) bs"

text \<open>
  The bytes that the handler writes into a buffer of \<open>size ()\<close>. For a message that was read,
  \<open>write_to\<close> does not throw (\<open>codec_reads_its_encoding\<close>).
\<close>

definition core_bytes :: "v1_message \<Rightarrow> bytes" where
  "core_bytes m = (case write_to m of Inr bs \<Rightarrow> bs | Inl _ \<Rightarrow> [])"

definition screen_name :: "v1_message \<Rightarrow> bytes" where
  "screen_name m = (case args m of [FVer _ _, FStr s] \<Rightarrow> s | _ \<Rightarrow> [])"

text \<open>The result of a signal is true if, and only if, no slot returns false.\<close>

fun all_true :: "bool list \<Rightarrow> bool" where
  "all_true [] = True"
| "all_true (r # rs) = (if r = False then False else all_true rs)"

text \<open>\<open>Handler::operator ()\<close>; the slots of its two signals are arguments.\<close>

definition v1_handler ::
  "router \<Rightarrow> u32 \<Rightarrow> (bytes \<Rightarrow> proxy_io \<Rightarrow> bool list \<times> proxy_io) \<Rightarrow> (proxy_io \<Rightarrow> bool list \<times> proxy_io)
    \<Rightarrow> proxy_io \<Rightarrow> v1_message \<Rightarrow> bool \<times> proxy_io" where
  "v1_handler r server hello_back hello io m =
     (case vtype m of
        HelloBack \<Rightarrow> (let (rs, io') = hello_back (screen_name m) io in (all_true rs, io'))
      | Hello \<Rightarrow> (let (rs, io') = hello io in (all_true rs, io'))
      | _ \<Rightarrow> (let (ok, evs) = send r (message_of (CoreMessage (core_bytes m))) server
              in (ok, io\<lparr>routed := routed io @ evs\<rparr>)))"

text \<open>
  The server proxy announces the screen of a core client to the proxy's current server; nothing
  is connected to \<open>on_hello\<close>.
\<close>

definition server_handler :: "router \<Rightarrow> u32 \<Rightarrow> u32 \<Rightarrow> proxy_io \<Rightarrow> v1_message \<Rightarrow> bool \<times> proxy_io" where
  "server_handler r server current =
     v1_handler r server
       (\<lambda>screen io. let (ok, evs) = send r (message_of (ProxyClientConnect (text_of screen))) current
                    in ([ok], io\<lparr>routed := routed io @ evs\<rparr>))
       (\<lambda>io. ([], io))"

text \<open>The client proxy answers a hello of the core server with the screen of the remote client.\<close>

definition client_handler :: "router \<Rightarrow> u32 \<Rightarrow> bytes \<Rightarrow> proxy_io \<Rightarrow> v1_message \<Rightarrow> bool \<times> proxy_io" where
  "client_handler r client screen =
     v1_handler r client
       (\<lambda>_ io. ([], io))
       (\<lambda>io. ([True], io\<lparr>written := written io @
          [core_bytes \<lparr>vtype = HelloBack, args = [FVer 1 6, FStr screen]\<rparr>]\<rparr>))"

section \<open>The read loops\<close>

text \<open>
  \<open>async_read\<close> with \<open>transfer_exactly\<close> asks for the same pieces as the reader of the router, without
  its timer.
\<close>

definition read_exactly :: "nat \<Rightarrow> arrival list \<Rightarrow> (sock_error option \<times> bytes \<times> arrival list) option" where
  "read_exactly n as =
     (case async_read (init_reader\<lparr>read_size := n\<rparr>) as of
        None \<Rightarrow> None
      | Some (r, bs, as') \<Rightarrow> Some (rerror r, bs, as'))"

lemma read_exactly_size:
  "read_exactly n as = Some (ec, bs, as') \<Longrightarrow> arrivals_size as' \<le> arrivals_size as \<and>
    (0 < n \<longrightarrow> arrivals_size as' < arrivals_size as)"
  by (auto simp: read_exactly_def dest!: async_read_size split: option.splits)

lemma read_exactly_data:
  assumes "data_only as" "n \<le> length (stream as)"
  obtains as' where "read_exactly n as = Some (None, take n (stream as), as')" "data_only as'"
    "stream as' = drop n (stream as)"
  using async_read_data[of as "init_reader\<lparr>read_size := n\<rparr>"] assms by (auto simp: read_exactly_def)

text \<open>
  Why a loop ends. The client proxy keeps the length in an \<open>int32_t\<close>, so from 2^31 on the resize of
  its buffer throws; it throws a read error that is neither a cancellation nor a reset.
\<close>

datatype proxy_end = AwaitingFrame | ProxyDisconnected | ProxyThrew

datatype proxy_kind = ServerSide | ClientSide

definition kConnectionReset :: u32 where
  "kConnectionReset = 104"

definition body_error :: "proxy_kind \<Rightarrow> sock_error \<Rightarrow> proxy_end" where
  "body_error kind e =
     (case kind of
        ServerSide \<Rightarrow> ProxyDisconnected
      | ClientSide \<Rightarrow>
          (case e of
             OperationAborted \<Rightarrow> ProxyDisconnected
           | SockError c \<Rightarrow> if c = kConnectionReset then ProxyDisconnected else ProxyThrew))"

function proxy_loop ::
  "proxy_kind \<Rightarrow> ('s \<Rightarrow> v1_message \<Rightarrow> bool \<times> 's) \<Rightarrow> arrival list \<Rightarrow> 's \<Rightarrow> 's \<times> proxy_end" where
  "proxy_loop kind handle as s =
     (case read_exactly 4 as of
        None \<Rightarrow> (s, AwaitingFrame)
      | Some (Some e, _, _) \<Rightarrow> (s, ProxyDisconnected)
      | Some (None, bs, as1) \<Rightarrow>
          (let size = of_be32 bs
           in if kind = ClientSide \<and> 2 ^ 31 \<le> unat size then (s, ProxyThrew)
              else
                (case read_exactly (unat size) as1 of
                   None \<Rightarrow> (s, AwaitingFrame)
                 | Some (Some e, _, _) \<Rightarrow> (s, body_error kind e)
                 | Some (None, buffer, as2) \<Rightarrow>
                     (case process handle (if kind = ServerSide then CTS else STC) buffer s of
                        Returned True s' \<Rightarrow> proxy_loop kind handle as2 s'
                      | Returned False s' \<Rightarrow> (s', ProxyDisconnected)
                      | Threw e s' \<Rightarrow> proxy_loop kind handle as2 s'
                      | OutOfFuel \<Rightarrow> (s, ProxyThrew)))))"
  by pat_completeness auto
termination
  by (relation "measure (\<lambda>(kind, h, as, s). arrivals_size as)") (force dest!: read_exactly_size)+

declare proxy_loop.simps [simp del]

text \<open>A frame, as the core programs and \<open>write ()\<close> send it.\<close>

definition frame :: "bytes \<Rightarrow> bytes" where
  "frame bs = be32 (of_nat (length bs)) @ bs"

section \<open>The server proxy\<close>

record server_proxy =
  server_id :: int
  proxy_connections :: "nat list"
  accepting :: nat

definition init_server_proxy :: server_proxy where
  "init_server_proxy = \<lparr>server_id = -1, proxy_connections = [], accepting = 0\<rparr>"

datatype proxy_error = LogicError | NumericCastError

text \<open>\<open>stop\<close> cancels the acceptor, which ends its loop, and closes and drops the connections.\<close>

definition proxy_stop :: "server_proxy \<Rightarrow> server_proxy" where
  "proxy_stop p = p\<lparr>accepting := 0, proxy_connections := []\<rparr>"

definition proxy_start :: "int \<Rightarrow> server_proxy \<Rightarrow> proxy_error option \<times> server_proxy" where
  "proxy_start sid p =
     (if sid < -1 then (Some LogicError, p)
      else if sid = server_id p then (None, p)
      else if sid = -1 then (None, (proxy_stop p)\<lparr>server_id := -1\<rparr>)
      else
        (let p' = proxy_stop p
         in if 2 ^ 32 \<le> sid then (Some NumericCastError, p')
            else (None, p'\<lparr>server_id := sid, accepting := Suc (accepting p')\<rparr>)))"

definition proxy_accept :: "nat \<Rightarrow> server_proxy \<Rightarrow> server_proxy" where
  "proxy_accept c p = p\<lparr>proxy_connections := proxy_connections p @ [c]\<rparr>"

definition proxy_disconnect :: "nat \<Rightarrow> server_proxy \<Rightarrow> server_proxy" where
  "proxy_disconnect c p = p\<lparr>proxy_connections := remove1 c (proxy_connections p)\<rparr>"

text \<open>A core message of the router is written to the newest connection.\<close>

definition server_on_message :: "server_proxy \<Rightarrow> message \<Rightarrow> (nat \<times> bytes) list" where
  "server_on_message p m =
     (case body m of
        CoreMessage bs \<Rightarrow> if proxy_connections p \<noteq> [] then [(last (proxy_connections p), bs)] else []
      | _ \<Rightarrow> [])"

section \<open>The client proxy\<close>

record client_connection =
  cc_id :: nat
  client_id :: u32
  cc_screen :: string

datatype client_event = StopClient nat | ConnectClient u32 string | WriteClient nat bytes

definition client_on_message :: "client_connection list \<Rightarrow> message \<Rightarrow> u32 \<Rightarrow> client_event list" where
  "client_on_message cs m src =
     (case body m of
        ProxyClientConnect screen \<Rightarrow>
          (case find (\<lambda>c. client_id c = src) cs of None \<Rightarrow> [] | Some c \<Rightarrow> [StopClient (cc_id c)])
          @ [ConnectClient src screen]
      | CoreMessage bs \<Rightarrow>
          (case find (\<lambda>c. client_id c = src) cs of None \<Rightarrow> [] | Some c \<Rightarrow> [WriteClient (cc_id c) bs])
      | _ \<Rightarrow> [])"

definition kClientRetryLimit :: nat where
  "kClientRetryLimit = 20"

text \<open>The connect coroutine: the attempt that succeeds, if one does.\<close>

function client_connect :: "(nat \<Rightarrow> bool) \<Rightarrow> nat \<Rightarrow> nat option" where
  "client_connect connects attempt =
     (if kClientRetryLimit < attempt then None
      else if connects attempt then Some attempt
      else client_connect connects (Suc attempt))"
  by pat_completeness auto
termination
  by (relation "measure (\<lambda>(c, attempt). Suc kClientRetryLimit - attempt)") auto

declare client_connect.simps [simp del]

definition client_connected :: "nat \<Rightarrow> u32 \<Rightarrow> string \<Rightarrow> client_connection list \<Rightarrow> client_connection list" where
  "client_connected i src screen cs = cs @ [\<lparr>cc_id = i, client_id = src, cc_screen = screen\<rparr>]"

definition client_disconnected :: "nat \<Rightarrow> client_connection list \<Rightarrow> client_connection list" where
  "client_disconnected i cs = filter (\<lambda>c. cc_id c \<noteq> i) cs"

end
