(* ===== verification/Proxy_Props.thy ===== *)
theory Proxy_Props
  imports Proxy
begin

text \<open>
  The proxies are transparent: what a core program sends in frames is what the router carries,
  and what the handler re-encodes is what was read; the hello back of a core client goes to the
  server as the announcement of its screen.
\<close>

section \<open>A buffer of messages\<close>

definition encodes :: "flow \<Rightarrow> v1_message list \<Rightarrow> bytes \<Rightarrow> bool" where
  "encodes flow ms buf \<longleftrightarrow>
     (\<exists>bss. buf = concat bss \<and>
        list_all2 (\<lambda>m bs. well_typed m \<and> flow_ok flow (vtype m) \<and> write_to m = Inr bs) ms bss)"

fun handle_all :: "('s \<Rightarrow> v1_message \<Rightarrow> bool \<times> 's) \<Rightarrow> v1_message list \<Rightarrow> 's \<Rightarrow> bool \<times> 's" where
  "handle_all handle [] s = (True, s)"
| "handle_all handle (m # ms) s =
     (case handle s m of (ok, s') \<Rightarrow> if ok then handle_all handle ms s' else (False, s'))"

lemma handle_all_append:
  "handle_all handle (xs @ ys) s =
    (case handle_all handle xs s of (ok, s') \<Rightarrow> if ok then handle_all handle ys s' else (False, s'))"
  by (induction xs arbitrary: s) (auto split: prod.splits)

lemma process_encoded:
  assumes "encodes flow ms buf"
  shows "process handle flow buf s = (case handle_all handle ms s of (ok, s') \<Rightarrow> Returned ok s')"
proof -
  obtain bss where "buf = concat bss"
    and all: "list_all2 (\<lambda>m bs. well_typed m \<and> flow_ok flow (vtype m) \<and> write_to m = Inr bs) ms bss"
    using assms by (auto simp: encodes_def)
  from all have "parse_messages handle flow (concat bss) s =
      (case handle_all handle ms s of (ok, s') \<Rightarrow> Returned ok s')"
  proof (induction ms bss arbitrary: s rule: list_all2_induct)
    case (Cons m ms bs bss)
    have "parse_messages handle flow (bs @ concat bss) s =
        (case handle s m of (ok, s') \<Rightarrow> if ok then parse_messages handle flow (concat bss) s' else Returned False s')"
      using Cons.hyps(1) by (simp add: parse_encoded)
    with Cons.IH show ?case by (cases "handle s m") simp
  qed (simp add: parse_nothing)
  with \<open>buf = concat bss\<close> show ?thesis by (simp add: process_is_parse)
qed

lemma encodes_bytes: "encodes flow ms buf \<Longrightarrow> concat (map core_bytes ms) = buf"
proof -
  have "concat (map core_bytes ms) = concat bss"
    if "list_all2 (\<lambda>m bs. well_typed m \<and> flow_ok flow (vtype m) \<and> write_to m = Inr bs) ms bss" for bss
    using that by (induction ms bss rule: list_all2_induct) (simp_all add: core_bytes_def)
  then show "encodes flow ms buf \<Longrightarrow> concat (map core_bytes ms) = buf"
    by (auto simp: encodes_def)
qed

section \<open>Handling messages\<close>

text \<open>The first route to a node, as \<open>forward\<close> finds it.\<close>

definition next_hop :: "router \<Rightarrow> u32 \<Rightarrow> u32 option" where
  "next_hop r d = (case find (\<lambda>e. dest e = d) (route_table r) of None \<Rightarrow> None | Some e \<Rightarrow> connection e)"

lemma send_next_hop:
  "send r m d =
    (case next_hop r d of
       None \<Rightarrow> (False, [])
     | Some c \<Rightarrow> (True, [EvSend c ((header_of m)\<lparr>source := rid r, hdest := d\<rparr>) m]))"
  by (auto simp: send_def forward_def next_hop_def split: option.splits)

definition core_send :: "router \<Rightarrow> u32 \<Rightarrow> u32 \<Rightarrow> v1_message \<Rightarrow> router_event" where
  "core_send r d c m =
     (let msg = message_of (CoreMessage (core_bytes m))
      in EvSend c ((header_of msg)\<lparr>source := rid r, hdest := d\<rparr>) msg)"

lemma v1_handler_core:
  assumes "next_hop r d = Some c" "vtype m \<noteq> Hello" "vtype m \<noteq> HelloBack"
  shows "v1_handler r d hb h io m = (True, io\<lparr>routed := routed io @ [core_send r d c m]\<rparr>)"
  using assms by (cases "vtype m") (simp_all add: v1_handler_def send_next_hop core_send_def Let_def)

section \<open>Frames\<close>

lemma stream_frames_Cons:
  assumes "data_only as" "stream as = frame buf @ rest" "length buf < 2 ^ 32"
  obtains as1 as2 where "read_exactly 4 as = Some (None, be32 (of_nat (length buf)), as1)"
    "read_exactly (length buf) as1 = Some (None, buf, as2)" "data_only as2" "stream as2 = rest"
proof -
  obtain as1 where as1: "read_exactly 4 as = Some (None, be32 (of_nat (length buf)), as1)" "data_only as1"
    "stream as1 = buf @ rest"
    using read_exactly_data[OF assms(1), of 4] assms(2) by (auto simp: frame_def)
  obtain as2 where "read_exactly (length buf) as1 = Some (None, buf, as2)" "data_only as2" "stream as2 = rest"
    using read_exactly_data[OF as1(2), of "length buf"] as1(3) by auto
  with as1(1) show thesis by (rule that)
qed

definition flow_of :: "proxy_kind \<Rightarrow> flow" where
  "flow_of kind = (if kind = ServerSide then CTS else STC)"

lemma read_exactly_nothing: "read_exactly 4 [] = None"
  by (simp add: read_exactly_def async_read_def read_chunk_def read_loop.simps init_reader_def
      default_max_transfer_size_def)

lemma proxy_loop_frames:
  assumes "data_only as" "stream as = concat (map frame bufs)"
    and "\<forall>buf\<in>set bufs. length buf < 2 ^ 31"
    and "list_all2 (encodes (flow_of kind)) mss bufs"
    and "handle_all handle (concat mss) s = (True, s')"
  shows "proxy_loop kind handle as s = (s', AwaitingFrame)"
  using assms(4,1-3,5)
proof (induction mss bufs arbitrary: as s rule: list_all2_induct)
  case Nil
  then have "as = []" by (cases as rule: stream.cases) auto
  with Nil show ?case by (simp add: proxy_loop.simps read_exactly_nothing)
next
  case (Cons ms mss buf bufs)
  obtain s1 where s1: "handle_all handle ms s = (True, s1)" "handle_all handle (concat mss) s1 = (True, s')"
    using Cons.prems(4) by (auto simp: handle_all_append split: prod.splits if_splits)
  have len: "length buf < 2 ^ 31" "length buf < 2 ^ 32" using Cons.prems(3) by simp_all
  obtain as1 as2 where r: "read_exactly 4 as = Some (None, be32 (of_nat (length buf)), as1)"
    "read_exactly (length buf) as1 = Some (None, buf, as2)" "data_only as2"
    "stream as2 = concat (map frame bufs)"
    using stream_frames_Cons[OF Cons.prems(1) _ len(2)] Cons.prems(2) by (metis concat.simps(2) list.simps(9))
  have p: "process handle (if kind = ServerSide then CTS else STC) buf s = Returned True s1"
    using process_encoded[OF Cons.hyps(1), of handle s] s1(1) unfolding flow_of_def by simp
  have "proxy_loop kind handle as s = proxy_loop kind handle as2 s1"
    using r p len by (subst proxy_loop.simps) (simp add: length_unat)
  also have "\<dots> = (s', AwaitingFrame)"
    by (rule Cons.IH) (use r s1 Cons.prems in auto)
  finally show ?case .
qed

section \<open>Frames of any content\<close>

text \<open>
  Two handlers of which one simulates the other see the same messages.
\<close>

lemma parse_simulates:
  assumes "\<And>s m. flow_ok flow (vtype m) \<Longrightarrow> h' (F s) m = map_prod id F (h s m)"
  shows "parse_messages h' flow bs (F s) = map_scan_result F (parse_messages h flow bs s)"
  using assms
proof (induction h flow bs s rule: parse_messages.induct)
  case (1 h flow bs s)
  note sim = "1.prems"
  show ?case
  proof (cases "find_type flow bs")
    case None
    then show ?thesis
      by (simp add: parse_messages.simps)
  next
    case (Some t)
    define n where "n = message_len t bs"
    define r where "r = read_from t (type_tag t) (drop (tag_len t) (take n bs))"
    show ?thesis
    proof (cases "bs = [] \<or> length bs < head_len t \<or> (\<exists>e. r = Inl e)")
      case True
      then show ?thesis
        using Some by (auto simp: parse_messages.simps [of _ flow bs] Let_def n_def r_def)
    next
      case False
      then obtain m where m: "r = Inr m"
        by (cases r) auto
      then have "flow_ok flow (vtype m)"
        using Some by (auto simp: r_def read_from_def find_type_Some bindE_Inr_iff split: if_splits)
      then have step: "h' (F s) m = map_prod id F (h s m)"
        by (rule sim)
      obtain ok s' where h: "h s m = (ok, s')"
        by (cases "h s m")
      have "parse_messages h' flow (drop n bs) (F s') = map_scan_result F (parse_messages h flow (drop n bs) s')"
        if ok
        using "1.IH" [OF _ Some _ n_def m [unfolded r_def] h [symmetric] _ sim] False that by simp
      then show ?thesis
        using False Some m h step
        by (simp add: parse_messages.simps [of _ flow bs] Let_def flip: n_def r_def)
    qed
  qed
qed

lemma process_simulates:
  assumes "\<And>s m. flow_ok flow (vtype m) \<Longrightarrow> h' (F s) m = map_prod id F (h s m)"
  shows "process h' flow buf (F s) = map_scan_result F (process h flow buf s)"
  unfolding process_is_parse by (rule parse_simulates [where h' = h' and F = F and h = h]) (rule assms)

text \<open>The messages that the scanner finds in a frame, and whether it reads the frame to its end or
  throws; a frame with anything else in it ends the connection.\<close>

definition frame_messages :: "flow \<Rightarrow> bytes \<Rightarrow> v1_message list" where
  "frame_messages flow buf =
     (case process collect flow buf [] of Returned ok ms \<Rightarrow> ms | Threw e ms \<Rightarrow> ms | OutOfFuel \<Rightarrow> [])"

definition frame_accepted :: "flow \<Rightarrow> bytes \<Rightarrow> bool" where
  "frame_accepted flow buf = (case process collect flow buf [] of Returned ok ms \<Rightarrow> ok | _ \<Rightarrow> True)"

fun frames_read :: "flow \<Rightarrow> bytes list \<Rightarrow> bytes list" where
  "frames_read flow [] = []"
| "frames_read flow (buf # bufs) = buf # (if frame_accepted flow buf then frames_read flow bufs else [])"

lemma frame_messages_encoded:
  assumes "encodes flow ms buf"
  shows "frame_messages flow buf = ms" "frame_accepted flow buf"
proof -
  have "handle_all collect ms seen = (True, seen @ ms)" for seen
    by (induction ms arbitrary: seen) (simp_all add: collect_app)
  then have "process collect flow buf [] = Returned True ms"
    using process_encoded [OF assms, of collect "[]"] by simp
  then show "frame_messages flow buf = ms" "frame_accepted flow buf"
    by (simp_all add: frame_messages_def frame_accepted_def)
qed

lemma frames_encoded:
  assumes "list_all2 (encodes flow) mss bufs"
  shows "map (frame_messages flow) bufs = mss" "frames_read flow bufs = bufs"
    "list_all (frame_accepted flow) bufs" "concat (map core_bytes (concat mss)) = concat bufs"
  using assms
  by (induction mss bufs rule: list_all2_induct) (simp_all add: frame_messages_encoded encodes_bytes)

lemma process_collected:
  assumes "\<And>seen m. flow_ok flow (vtype m) \<Longrightarrow> handle (F seen) m = (True, F (seen @ [m]))"
  shows "process handle flow buf (F seen) =
    map_scan_result (\<lambda>ms. F (seen @ ms)) (process collect flow buf [])"
proof -
  have "process handle flow buf ((\<lambda>ms. F (seen @ ms)) []) =
      map_scan_result (\<lambda>ms. F (seen @ ms)) (process collect flow buf [])"
    by (rule process_simulates) (simp add: assms collect_app)
  then show ?thesis
    by simp
qed

lemma proxy_loop_any:
  assumes "\<And>seen m. flow_ok (flow_of kind) (vtype m) \<Longrightarrow> handle (F seen) m = (True, F (seen @ [m]))"
    and "data_only as" "stream as = concat (map frame bufs)"
    and "\<forall>buf\<in>set bufs. length buf < (if kind = ClientSide then 2 ^ 31 else 2 ^ 32)"
  shows "proxy_loop kind handle as (F seen) =
    (F (seen @ concat (map (frame_messages (flow_of kind)) (frames_read (flow_of kind) bufs))),
     if list_all (frame_accepted (flow_of kind)) bufs then AwaitingFrame else ProxyDisconnected)"
  using assms(2-)
proof (induction bufs arbitrary: as seen)
  case Nil
  then have "as = []"
    by (cases as rule: stream.cases) auto
  then show ?case
    by (simp add: proxy_loop.simps read_exactly_nothing)
next
  case (Cons buf bufs)
  have len: "kind = ClientSide \<longrightarrow> length buf < 2 ^ 31" "length buf < 2 ^ 32"
    using Cons.prems(3) by (auto split: if_splits)
  obtain as1 as2 where r: "read_exactly 4 as = Some (None, be32 (of_nat (length buf)), as1)"
    "read_exactly (length buf) as1 = Some (None, buf, as2)" "data_only as2"
    "stream as2 = concat (map frame bufs)"
    using stream_frames_Cons [OF Cons.prems(1) _ len(2)] Cons.prems(2) by (metis concat.simps(2) list.simps(9))
  let ?flow = "flow_of kind"
  let ?next = "F (seen @ frame_messages ?flow buf)"
  have loop: "proxy_loop kind handle as (F seen) =
      (if frame_accepted ?flow buf then proxy_loop kind handle as2 ?next else (?next, ProxyDisconnected))"
    using r len process_collected [of ?flow handle F buf seen, OF assms(1)] parse_returns [of collect ?flow buf "[]"]
    by (subst proxy_loop.simps)
       (auto simp: length_unat frame_messages_def frame_accepted_def process_is_parse flow_of_def [symmetric]
          split: scan_result.splits)
  have "proxy_loop kind handle as2 ?next =
      (F ((seen @ frame_messages ?flow buf) @ concat (map (frame_messages ?flow) (frames_read ?flow bufs))),
       if list_all (frame_accepted ?flow) bufs then AwaitingFrame else ProxyDisconnected)"
    by (rule Cons.IH [OF r(3,4)]) (use Cons.prems(3) in simp)
  then show ?case
    by (simp add: loop)
qed

section \<open>The server proxy\<close>

text \<open>What the server proxy sends for a message of a core client: its screen, announced to the
  current server, or the message as it is, to the server of the connection.\<close>

definition announcement :: "router \<Rightarrow> u32 \<Rightarrow> u32 \<Rightarrow> v1_message \<Rightarrow> router_event" where
  "announcement r d c m =
     (let msg = message_of (ProxyClientConnect (text_of (screen_name m)))
      in EvSend c ((header_of msg)\<lparr>source := rid r, hdest := d\<rparr>) msg)"

definition relay_event :: "router \<Rightarrow> u32 \<Rightarrow> u32 \<Rightarrow> u32 \<Rightarrow> u32 \<Rightarrow> v1_message \<Rightarrow> router_event" where
  "relay_event r server c current c' m =
     (if vtype m = HelloBack then announcement r current c' m else core_send r server c m)"

lemma server_handler_relays:
  assumes "next_hop r server = Some c" "next_hop r current = Some c'" "flow_ok CTS (vtype m)"
  shows "server_handler r server current io m =
    (True, io\<lparr>routed := routed io @ [relay_event r server c current c' m]\<rparr>)"
proof (cases "vtype m = HelloBack")
  case True
  then show ?thesis
    using assms(2)
    by (simp add: server_handler_def v1_handler_def relay_event_def announcement_def send_next_hop Let_def)
next
  case False
  then have "vtype m \<noteq> Hello"
    using assms(3) by (auto simp: flow_ok_def)
  with False show ?thesis
    unfolding server_handler_def v1_handler_core [OF assms(1) \<open>vtype m \<noteq> Hello\<close> False]
    by (simp add: relay_event_def)
qed

lemma server_proxy_relays:
  assumes "data_only as" "stream as = concat (map frame bufs)" "\<forall>buf\<in>set bufs. length buf < 2 ^ 32"
    and "next_hop r server = Some c" "next_hop r current = Some c'"
  shows "proxy_loop ServerSide (server_handler r server current) as io =
    (io\<lparr>routed := routed io @ map (relay_event r server c current c')
        (concat (map (frame_messages CTS) (frames_read CTS bufs)))\<rparr>,
     if list_all (frame_accepted CTS) bufs then AwaitingFrame else ProxyDisconnected)"
  using proxy_loop_any [of ServerSide "server_handler r server current"
      "\<lambda>ms. io\<lparr>routed := routed io @ map (relay_event r server c current c') ms\<rparr>" as bufs "[]"]
    assms(1-3) server_handler_relays [OF assms(4,5)]
  by (simp add: flow_of_def)

section \<open>Properties\<close>

text \<open>
  C20. Whatever the pieces in which its frames arrive and whatever is in them, the router sends one
  message for each that the scanner finds in the frames of a core client, in order, each on the first
  route: its screen to the current server for a hello back, the message itself to the server of the
  connection for any other. A frame that the scanner rejects is the last that is read; otherwise the
  proxy waits for the next frame. When the frames are encodings of client messages, these are the
  messages, none is rejected, and the data of the messages, put together, are exactly the bytes of the
  frames. The router must know routes to both servers, and a frame is shorter than 2^32 bytes.
\<close>

theorem server_proxy_is_transparent:
  assumes "data_only as" "stream as = concat (map frame bufs)" "\<forall>buf\<in>set bufs. length buf < 2 ^ 32"
    and "next_hop r server = Some c" "next_hop r current = Some c'"
  shows "proxy_loop ServerSide (server_handler r server current) as io =
      (io\<lparr>routed := routed io @ map (relay_event r server c current c')
          (concat (map (frame_messages CTS) (frames_read CTS bufs)))\<rparr>,
       if list_all (frame_accepted CTS) bufs then AwaitingFrame else ProxyDisconnected)
    \<and> (\<forall>mss. list_all2 (encodes CTS) mss bufs \<longrightarrow>
        map (frame_messages CTS) bufs = mss \<and> frames_read CTS bufs = bufs \<and>
        list_all (frame_accepted CTS) bufs \<and> concat (map core_bytes (concat mss)) = concat bufs)"
  using server_proxy_relays [OF assms] frames_encoded [of CTS _ bufs] by blast

lemma demo_messages:
  "well_typed \<lparr>vtype = MouseDown, args = [FU8 3]\<rparr>"
  "write_to \<lparr>vtype = MouseDown, args = [FU8 3]\<rparr> = Inr (ascii ''DMDN'' @ [3])"
  "well_typed \<lparr>vtype = KeepAlive, args = []\<rparr>"
  "write_to \<lparr>vtype = KeepAlive, args = []\<rparr> = Inr (ascii ''CALV'')"
  "well_typed \<lparr>vtype = Hello, args = [FVer 1 6]\<rparr>"
  "write_to \<lparr>vtype = Hello, args = [FVer 1 6]\<rparr> = Inr (ascii ''Synergy'' @ [0, 1, 0, 6])"
  by (simp_all add: well_typed_def write_to_def be16_def)

lemma encodes_one:
  "well_typed m \<Longrightarrow> write_to m = Inr bs \<Longrightarrow> flow_ok flow (vtype m) \<Longrightarrow> encodes flow [m] bs"
  unfolding encodes_def by (rule exI[of _ "[bs]"]) simp

definition proxy_router :: router where
  "proxy_router = \<lparr>rid = 1, rname = ''one'', running = True,
     route_table = [\<lparr>dest = 4, cost = 1, path = [4], connection = Some 10\<rparr>], connections = []\<rparr>"

lemma data_only_one: "bs \<noteq> [] \<Longrightarrow> data_only [Data bs] \<and> stream [Data bs] = bs"
  by simp

definition hello_back_of :: "bytes \<Rightarrow> v1_message" where
  "hello_back_of screen = \<lparr>vtype = HelloBack, args = [FVer 1 6, FStr screen]\<rparr>"

lemma hello_back_bytes:
  "length screen < 2 ^ 32 \<Longrightarrow> core_bytes (hello_back_of screen) =
    ascii ''Synergy'' @ be16 1 @ be16 6 @ be32 (of_nat (length screen)) @ screen"
  by (simp add: core_bytes_def write_to_def write_length_def hello_back_of_def)

lemma hello_back_encodes:
  "length screen < 2 ^ 32 \<Longrightarrow> encodes CTS [hello_back_of screen] (core_bytes (hello_back_of screen))"
  by (intro encodes_one) (auto simp: hello_back_of_def well_typed_def write_to_def write_length_def
      core_bytes_def flow_ok_def)

theorem server_proxy_is_transparent_witness:
  "proxy_loop ServerSide (server_handler proxy_router 4 4)
      [Data (frame (core_bytes (hello_back_of (ascii ''left'')))),
       Data (frame (ascii ''DMDN'' @ [3]) @ frame (ascii ''CALV''))] \<lparr>routed = [], written = []\<rparr>
    = (\<lparr>routed = [announcement proxy_router 4 10 (hello_back_of (ascii ''left'')),
        core_send proxy_router 4 10 \<lparr>vtype = MouseDown, args = [FU8 3]\<rparr>,
        core_send proxy_router 4 10 \<lparr>vtype = KeepAlive, args = []\<rparr>], written = []\<rparr>, AwaitingFrame)"
proof -
  let ?hb = "hello_back_of (ascii ''left'')"
  let ?h = "core_bytes ?hb"
  let ?bufs = "[?h, ascii ''DMDN'' @ [3], ascii ''CALV'']"
  let ?mss = "[[?hb], [\<lparr>vtype = MouseDown, args = [FU8 3]\<rparr>], [\<lparr>vtype = KeepAlive, args = []\<rparr>]]"
  let ?as = "[Data (frame ?h), Data (frame (ascii ''DMDN'' @ [3]) @ frame (ascii ''CALV''))]"
  have h: "length (ascii ''left'') < 2 ^ 32" "length ?h < 2 ^ 32"
    by (simp_all add: ascii_def hello_back_bytes)
  have as: "data_only ?as" "stream ?as = concat (map frame ?bufs)" by (simp_all add: frame_def be32_def)
  have len: "\<forall>buf\<in>set ?bufs. length buf < 2 ^ 32" using h(2) by (simp add: ascii_def)
  have enc: "list_all2 (encodes CTS) ?mss ?bufs"
    using hello_back_encodes [OF h(1)] by (simp add: encodes_one demo_messages flow_ok_def)
  have hop: "next_hop proxy_router 4 = Some 10" by (simp add: next_hop_def proxy_router_def)
  note result = server_proxy_is_transparent [OF as len hop hop, of "\<lparr>routed = [], written = []\<rparr>"]
  have "map (frame_messages CTS) ?bufs = ?mss" "frames_read CTS ?bufs = ?bufs" and acc: "list_all (frame_accepted CTS) ?bufs"
    using conjunct2 [OF result] enc by blast+
  then have msgs: "concat (map (frame_messages CTS) (frames_read CTS ?bufs)) = concat ?mss"
    by (simp only:)
  show ?thesis
    unfolding conjunct1 [OF result] msgs if_P [OF acc] by (simp add: relay_event_def hello_back_of_def)
qed

lemma client_handle_all:
  assumes "next_hop r d = Some c" "\<forall>m\<in>set ms. vtype m \<noteq> HelloBack"
  shows "handle_all (client_handler r d screen) ms io =
    (True, io\<lparr>routed := routed io @ map (core_send r d c) (filter (\<lambda>m. vtype m \<noteq> Hello) ms),
       written := written io @ map (\<lambda>_. core_bytes (hello_back_of screen)) (filter (\<lambda>m. vtype m = Hello) ms)\<rparr>)"
  using assms(2)
proof (induction ms arbitrary: io)
  case (Cons m ms)
  show ?case
  proof (cases "vtype m = Hello")
    case True
    then have "client_handler r d screen io m =
        (True, io\<lparr>written := written io @ [core_bytes (hello_back_of screen)]\<rparr>)"
      by (simp add: client_handler_def v1_handler_def hello_back_of_def)
    with True Cons show ?thesis by simp
  next
    case False
    then have "client_handler r d screen io m = (True, io\<lparr>routed := routed io @ [core_send r d c m]\<rparr>)"
      using Cons.prems by (simp add: client_handler_def v1_handler_core[OF assms(1)])
    with False Cons show ?thesis by simp
  qed
qed simp

text \<open>
  C23. The client proxy answers each hello of the core server with a frame that a core server
  reads as the hello back of the remote screen, and sends every other message to the remote
  client's node, in order and whatever the pieces in which the frames arrive.
\<close>

theorem client_proxy_relays:
  assumes "data_only as" "stream as = concat (map frame bufs)"
    and "\<forall>buf\<in>set bufs. length buf < 2 ^ 31"
    and "list_all2 (encodes STC) mss bufs" "\<forall>m\<in>set (concat mss). vtype m \<noteq> HelloBack"
    and "next_hop r client = Some c" "length screen < 2 ^ 32"
  shows "proxy_loop ClientSide (client_handler r client screen) as io =
      (io\<lparr>routed := routed io @ map (core_send r client c) (filter (\<lambda>m. vtype m \<noteq> Hello) (concat mss)),
         written := written io @ map (\<lambda>_. core_bytes (hello_back_of screen)) (filter (\<lambda>m. vtype m = Hello) (concat mss))\<rparr>,
       AwaitingFrame)
    \<and> process collect CTS (core_bytes (hello_back_of screen)) [] = Returned True [hello_back_of screen]"
proof
  show "proxy_loop ClientSide (client_handler r client screen) as io =
      (io\<lparr>routed := routed io @ map (core_send r client c) (filter (\<lambda>m. vtype m \<noteq> Hello) (concat mss)),
         written := written io @ map (\<lambda>_. core_bytes (hello_back_of screen)) (filter (\<lambda>m. vtype m = Hello) (concat mss))\<rparr>,
       AwaitingFrame)"
    by (rule proxy_loop_frames[OF assms(1-3)])
       (use assms(4) client_handle_all[OF assms(6,5)] in \<open>auto simp: flow_of_def\<close>)
  have "encodes CTS [hello_back_of screen] (core_bytes (hello_back_of screen))"
    using assms(7) by (rule hello_back_encodes)
  from process_encoded[OF this, of collect "[]"]
  show "process collect CTS (core_bytes (hello_back_of screen)) [] = Returned True [hello_back_of screen]"
    by (simp add: collect_def)
qed

theorem client_proxy_relays_witness:
  "fst (proxy_loop ClientSide (client_handler proxy_router 4 (ascii ''left''))
      [Data (frame (ascii ''Synergy'' @ [0, 1, 0, 6])), Data (frame (ascii ''CALV''))] \<lparr>routed = [], written = []\<rparr>)
    = \<lparr>routed = [core_send proxy_router 4 10 \<lparr>vtype = KeepAlive, args = []\<rparr>],
       written = [core_bytes (hello_back_of (ascii ''left''))]\<rparr>"
proof -
  let ?bufs = "[ascii ''Synergy'' @ [0, 1, 0, 6], ascii ''CALV'']"
  let ?mss = "[[\<lparr>vtype = Hello, args = [FVer 1 6]\<rparr>], [\<lparr>vtype = KeepAlive, args = []\<rparr>]]"
  let ?as = "[Data (frame (ascii ''Synergy'' @ [0, 1, 0, 6])), Data (frame (ascii ''CALV''))]"
  have "data_only ?as" "stream ?as = concat (map frame ?bufs)" by (simp_all add: frame_def be32_def)
  moreover have "\<forall>buf\<in>set ?bufs. length buf < 2 ^ 31" by (simp add: ascii_def)
  moreover have "list_all2 (encodes STC) ?mss ?bufs"
    by (simp add: encodes_one demo_messages flow_ok_def)
  moreover have "next_hop proxy_router 4 = Some 10" by (simp add: next_hop_def proxy_router_def)
  ultimately show ?thesis
    using client_proxy_relays[of ?as ?bufs ?mss proxy_router 4 10 "ascii ''left''" "\<lparr>routed = [], written = []\<rparr>"]
    by (simp add: ascii_def)
qed

section \<open>Small guarantees\<close>

text \<open>Core messages of a node reach only connections made for that node.\<close>

lemma client_write_isolated:
  "WriteClient i bs \<in> set (client_on_message cs m src) \<Longrightarrow>
    body m = CoreMessage bs \<and> (\<exists>c\<in>set cs. cc_id c = i \<and> client_id c = src)"
proof -
  have find: "x \<in> set cs \<and> client_id x = src" if "find (\<lambda>c. client_id c = src) cs = Some x" for x
    using that by (auto simp: find_Some_iff in_set_conv_nth)
  show "WriteClient i bs \<in> set (client_on_message cs m src) \<Longrightarrow>
      body m = CoreMessage bs \<and> (\<exists>c\<in>set cs. cc_id c = i \<and> client_id c = src)"
    using find by (fastforce simp: client_on_message_def split: message_body.splits option.splits)
qed

lemma client_connect_bounds:
  "client_connect connects k = Some n \<Longrightarrow> k \<le> n \<and> n \<le> 20 \<and> connects n \<and> (\<forall>j. k \<le> j \<and> j < n \<longrightarrow> \<not> connects j)"
proof (induction connects k rule: client_connect.induct)
  case (1 connects k)
  show ?case
  proof (cases "kClientRetryLimit < k \<or> connects k")
    case True
    with "1.prems" show ?thesis
      by (subst (asm) client_connect.simps) (auto simp: kClientRetryLimit_def split: if_splits)
  next
    case False
    with "1.prems" have "client_connect connects (Suc k) = Some n"
      by (subst (asm) client_connect.simps) simp
    with "1.IH" False show ?thesis by (auto simp: Suc_le_eq nat_less_le)
  qed
qed

end
