(* ===== verification/Streams.thy ===== *)
theory Streams
  imports Delivery Proxy_Props "HOL-Library.Sublist"
begin

text \<open>
  The order of messages. A TCP connection delivers in the order of writing, so a connection
  is a queue here; the routing tables are at rest, and any number of nodes send what they like
  meanwhile, interleaved in any way. What one node sends to another takes one way through the network
  and arrives in the order in which it was sent.
\<close>

section \<open>Connections as queues\<close>

record traffic =
  tr_queue :: "u32 \<times> u32 \<Rightarrow> (message_header \<times> message) list"
  tr_handed :: "(u32 \<times> u32 \<times> message) list"
  tr_sent :: "(u32 \<times> u32 \<times> message_body) list"

definition no_traffic :: traffic where
  "no_traffic = \<lparr>tr_queue = (\<lambda>p. []), tr_handed = [], tr_sent = []\<rparr>"

definition requeue ::
    "u32 \<times> u32 \<Rightarrow> (message_header \<times> message) list \<Rightarrow> traffic \<Rightarrow> traffic" where
  "requeue p q s = s\<lparr>tr_queue := (tr_queue s)(p := q)\<rparr>"

definition hand_on :: "u32 \<Rightarrow> message \<Rightarrow> u32 \<Rightarrow> traffic \<Rightarrow> traffic" where
  "hand_on i m src s = s\<lparr>tr_handed := tr_handed s @ [(i, src, m)]\<rparr>"

text \<open>What a node does with the events of its router: messages join the queues of its connections,
  and what the router hands on is recorded with the node and the source.\<close>

fun emit :: "u32 \<Rightarrow> router_event list \<Rightarrow> traffic \<Rightarrow> traffic" where
  "emit i [] s = s"
| "emit i (EvSend c h m # evs) s =
     emit i evs (requeue (i, c) (tr_queue s (i, c) @ [(h, m)]) s)"
| "emit i (EvReceive m src # evs) s = emit i evs (hand_on i m src s)"
| "emit i (ev # evs) s = emit i evs s"

definition submit :: "router \<Rightarrow> message \<Rightarrow> u32 \<Rightarrow> traffic \<Rightarrow> traffic" where
  "submit r m d s = emit (rid r) (snd (send r m d)) (s\<lparr>tr_sent := tr_sent s @ [(rid r, d, body m)]\<rparr>)"

definition deliver_head ::
    "(message_body \<Rightarrow> bytes) \<Rightarrow> (u32 \<Rightarrow> router) \<Rightarrow> u32 \<times> u32 \<Rightarrow> u32 \<Rightarrow> conn \<Rightarrow> traffic \<Rightarrow> traffic" where
  "deliver_head pack ns p j b s =
     (case tr_queue s p of
        [] \<Rightarrow> s
      | x # q \<Rightarrow>
          (let (h, m) = received pack x
           in emit j (snd (on_message (ns j) h m b)) (requeue p q s)))"

inductive traffic_reach :: "(message_body \<Rightarrow> bytes) \<Rightarrow> links \<Rightarrow> (u32 \<Rightarrow> router) \<Rightarrow> traffic \<Rightarrow> bool"
  for pack L ns where
  Traffic_none: "traffic_reach pack L ns no_traffic"
| Traffic_send: "traffic_reach pack L ns s \<Longrightarrow> application (body m) \<Longrightarrow> d \<noteq> kBroadcastId \<Longrightarrow>
    fst (send (ns i) m d) \<Longrightarrow> traffic_reach pack L ns (submit (ns i) m d s)"
| Traffic_deliver: "traffic_reach pack L ns s \<Longrightarrow> L (fst p) (snd p) = Some (j, b) \<Longrightarrow>
    b \<in> set (connections (ns j)) \<Longrightarrow> traffic_reach pack L ns (deliver_head pack ns p j b s)"

section \<open>The stream from one node to another\<close>

definition stream_sent :: "u32 \<Rightarrow> u32 \<Rightarrow> traffic \<Rightarrow> message_body list" where
  "stream_sent i d s = map (snd \<circ> snd) (filter (\<lambda>(a, b, x). a = i \<and> b = d) (tr_sent s))"

definition stream_handed :: "u32 \<Rightarrow> u32 \<Rightarrow> traffic \<Rightarrow> message list" where
  "stream_handed i d s = map (snd \<circ> snd) (filter (\<lambda>(a, b, x). a = d \<and> b = i) (tr_handed s))"

text \<open>Of a message, only this matters to a stream.\<close>

definition stream_part :: "u32 \<Rightarrow> u32 \<Rightarrow> message_header \<times> message \<Rightarrow> message_body list" where
  "stream_part i d x = (if source (fst x) = i \<and> hdest (fst x) = d then [body (snd x)] else [])"

definition queued :: "u32 \<Rightarrow> u32 \<Rightarrow> traffic \<Rightarrow> u32 \<times> u32 \<Rightarrow> message_body list" where
  "queued i d s p = concat (map (stream_part i d) (tr_queue s p))"

definition all_arrived :: "u32 \<Rightarrow> u32 \<Rightarrow> traffic \<Rightarrow> bool" where
  "all_arrived i d s \<longleftrightarrow> (\<forall>p. queued i d s p = [])"

text \<open>The way from a node to a destination: the connections on which the routers forward.\<close>

fun way :: "links \<Rightarrow> (u32 \<Rightarrow> router) \<Rightarrow> u32 \<Rightarrow> u32 \<Rightarrow> (u32 \<times> u32) list \<Rightarrow> bool" where
  "way L ns d i [] \<longleftrightarrow> i = d"
| "way L ns d i (p # ps) \<longleftrightarrow>
     i \<noteq> d \<and> fst p = i \<and> next_hop (ns i) d = Some (snd p) \<and>
     (case L i (snd p) of
        None \<Rightarrow> False
      | Some (j, b) \<Rightarrow> b \<in> set (connections (ns j)) \<and> way L ns d j ps)"

lemma way_unique: "way L ns d i ps \<Longrightarrow> way L ns d i qs \<Longrightarrow> ps = qs"
proof (induction L ns d i ps arbitrary: qs rule: way.induct)
  case (2 L ns d i p ps)
  then obtain q qs' where "qs = q # qs'"
    by (cases qs) auto
  with 2 show ?case
    by (auto simp: prod_eq_iff split: option.splits)
qed (case_tac qs; simp)

lemma way_suffix: "way L ns d i (xs @ p # ys) \<Longrightarrow> way L ns d (fst p) (p # ys)"
proof (induction xs arbitrary: i)
  case (Cons x xs)
  then obtain j where "way L ns d j (xs @ p # ys)"
    by (auto split: option.splits)
  then show ?case
    by (rule Cons.IH)
qed simp

lemma way_distinct: "way L ns d i ps \<Longrightarrow> distinct ps"
proof (rule ccontr)
  assume w: "way L ns d i ps" "\<not> distinct ps"
  then obtain xs ys zs p where ps: "ps = xs @ [p] @ ys @ [p] @ zs"
    using not_distinct_decomp by blast
  have "way L ns d (fst p) (p # ys @ p # zs)" "way L ns d (fst p) (p # zs)"
    using w(1) way_suffix [of L ns d i xs p "ys @ p # zs"] way_suffix [of L ns d i "xs @ p # ys" p zs]
    by (simp_all add: ps)
  then show False
    using way_unique by fastforce
qed

lemma way_exists:
  assumes ok: "wired_ok L w" and "near (route_table (w_nodes w i)) d n" "i \<noteq> d"
  shows "\<exists>ps. way L (w_nodes w) d i ps"
  using assms(2-)
proof (induction "unat n" arbitrary: i n rule: less_induct)
  case less
  let ?ns = "w_nodes w"
  have good: "good_router i (?ns i)"
    by (rule wired_okD(1) [OF ok])
  obtain e where e: "find (\<lambda>e. dest e = d) (route_table (?ns i)) = Some e" "e \<in> set (route_table (?ns i))"
    "dest e = d" "cost e \<le> n"
    using near_find [OF less.prems(1) good_routerD(4) [OF good]] by blast
  obtain c j b where c: "connection e = Some c" "L i c = Some (j, b)" "b \<in> set (connections (?ns j))"
    "backed ?ns j d (cost e - 1)"
    using wired_okD(3) [OF ok e(2)] e(3) by (auto simp: entry_ok_def)
  have "unat (cost e - 1) < unat n"
    using entry_cost_pos [OF good e(2)] e(4) by (rule cost_drops)
  then have "\<exists>ps. way L ?ns d j ps"
    using less.hyps c(4) by (cases "d = j") (auto simp: backed_def intro: exI [of _ "[]"])
  then obtain ps where "way L ?ns d j ps"
    by blast
  then have "way L ?ns d i ((i, c) # ps)"
    using c e(1) less.prems(2) by (simp add: next_hop_def)
  then show ?case
    by blast
qed

section \<open>Steps\<close>

text \<open>What is in flight on a way, the oldest first.\<close>

definition in_flight :: "u32 \<Rightarrow> u32 \<Rightarrow> traffic \<Rightarrow> (u32 \<times> u32) list \<Rightarrow> message_body list" where
  "in_flight i d s ps = concat (map (queued i d s) (rev ps))"

definition in_order :: "u32 \<Rightarrow> u32 \<Rightarrow> (u32 \<times> u32) list \<Rightarrow> traffic \<Rightarrow> bool" where
  "in_order i d ps s \<longleftrightarrow>
     map body (stream_handed i d s) @ in_flight i d s ps = stream_sent i d s \<and>
     (\<forall>p. p \<notin> set ps \<longrightarrow> queued i d s p = [])"

definition plain :: "message_header \<times> message \<Rightarrow> bool" where
  "plain x \<longleftrightarrow> application (body (snd x)) \<and> hdest (fst x) \<noteq> kBroadcastId"

definition only_application :: "traffic \<Rightarrow> bool" where
  "only_application s \<longleftrightarrow> (\<forall>p. list_all plain (tr_queue s p))"

lemma queued_requeue:
  "queued i d (requeue p q s) = (queued i d s)(p := concat (map (stream_part i d) q))"
  by (auto simp: queued_def requeue_def)

lemma requeue_simps [simp]:
  "tr_queue (requeue p q s) = (tr_queue s)(p := q)"
  "tr_sent (requeue p q s) = tr_sent s"
  "tr_handed (requeue p q s) = tr_handed s"
  "stream_handed i d (requeue p q s) = stream_handed i d s"
  "stream_sent i d (requeue p q s) = stream_sent i d s"
  "requeue p q (requeue p q' s) = requeue p q s"
  by (auto simp: stream_handed_def stream_sent_def requeue_def)

lemma log_simps [simp]:
  "stream_sent i d (tr_handed_update g s) = stream_sent i d s"
  "stream_handed i d (tr_sent_update g' s) = stream_handed i d s"
  "queued i d (tr_handed_update g s) = queued i d s"
  "queued i d (tr_sent_update g' s) = queued i d s"
  "in_flight i d (tr_handed_update g s) ps = in_flight i d s ps"
  "in_flight i d (tr_sent_update g' s) ps = in_flight i d s ps"
  "only_application (tr_handed_update g s) = only_application s"
  "only_application (tr_sent_update g' s) = only_application s"
  by (simp_all add: stream_handed_def stream_sent_def queued_def [abs_def] in_flight_def only_application_def)

lemma hand_on_simps [simp]:
  "stream_handed i d (hand_on j m src s) = stream_handed i d s @ (if j = d \<and> src = i then [m] else [])"
  "stream_sent i d (hand_on j m src s) = stream_sent i d s"
  "queued i d (hand_on j m src s) = queued i d s"
  "in_flight i d (hand_on j m src s) ps = in_flight i d s ps"
  "only_application (hand_on j m src s) = only_application s"
  by (simp_all add: hand_on_def) (simp_all add: stream_handed_def)

lemma in_flight_simps [simp]:
  "in_flight i d s [] = []"
  "in_flight i d s (ps @ qs) = in_flight i d s qs @ in_flight i d s ps"
  "in_flight i d s (p # ps) = in_flight i d s ps @ queued i d s p"
  by (simp_all add: in_flight_def)

lemma in_flight_requeue: "p \<notin> set ps \<Longrightarrow> in_flight i d (requeue p q s) ps = in_flight i d s ps"
  by (induction ps) (auto simp: queued_requeue)

lemma only_application_requeue:
  "only_application s \<Longrightarrow> list_all plain q \<Longrightarrow> only_application (requeue p q s)"
  by (simp add: only_application_def)

lemma only_application_queue: "only_application s \<Longrightarrow> list_all plain (tr_queue s p)"
  unfolding only_application_def by (erule spec)

text \<open>What a router does with an application message: it hands it on or forwards it.\<close>

definition handles :: "router \<Rightarrow> message_header \<Rightarrow> message \<Rightarrow> router_event list" where
  "handles r h m =
     (if hdest h = rid r then [EvReceive m (source h)]
      else case next_hop r (hdest h) of None \<Rightarrow> [] | Some c \<Rightarrow> [EvSend c h m])"

lemma on_message_application:
  assumes "application (body m)" "hdest h \<noteq> kBroadcastId"
  shows "snd (on_message r h m b) = handles r h m"
  using assms
  by (auto simp: on_message_def handle_application forward_def next_hop_def handles_def split: option.splits)

lemma deliver_head_Cons:
  assumes "tr_queue s p = (h, m) # q" "application (body m)" "hdest h \<noteq> kBroadcastId"
  obtains h1 m1 where "body m1 = body m" "hdest h1 = hdest h" "source h1 = source h"
    "deliver_head pack ns p j b s = emit j (handles (ns j) h1 m1) (requeue p q s)"
proof -
  obtain h1 m1 where r: "received pack (h, m) = (h1, m1)"
    using prod.exhaust by blast
  have m: "body m1 = body m" "hdest h1 = hdest h" "source h1 = source h"
    using received_simps [of pack "(h, m)"] r by simp_all
  have on: "snd (on_message (ns j) h1 m1 b) = handles (ns j) h1 m1"
    using on_message_application [of m1 h1 "ns j" b] assms(2,3) m by simp
  show thesis
    by (rule that [OF m]) (simp only: deliver_head_def assms(1) list.case r Let_def prod.case on)
qed

lemma submit_application:
  assumes "fst (send r m d)"
  obtains c h where "next_hop r d = Some c" "source h = rid r" "hdest h = d"
    "submit r m d s =
       requeue (rid r, c) (tr_queue s (rid r, c) @ [(h, m)]) (s\<lparr>tr_sent := tr_sent s @ [(rid r, d, body m)]\<rparr>)"
proof -
  obtain c where c: "next_hop r d = Some c"
    using assms by (auto simp: send_next_hop split: option.splits)
  show thesis
    by (rule that [OF c, of "(header_of m)\<lparr>source := rid r, hdest := d\<rparr>"])
       (simp_all add: submit_def send_next_hop c)
qed

lemma only_application_reach: "traffic_reach pack L ns s \<Longrightarrow> only_application s"
proof (induction rule: traffic_reach.induct)
  case Traffic_none
  then show ?case
    by (simp add: only_application_def no_traffic_def)
next
  case (Traffic_send s m d i)
  obtain c h where "hdest h = d" "submit (ns i) m d s = requeue (rid (ns i), c)
      (tr_queue s (rid (ns i), c) @ [(h, m)]) (s\<lparr>tr_sent := tr_sent s @ [(rid (ns i), d, body m)]\<rparr>)"
    by (rule submit_application [OF Traffic_send.hyps(4)])
  with Traffic_send show ?case
    by (simp add: only_application_requeue only_application_queue plain_def)
next
  case (Traffic_deliver s p j b)
  show ?case
  proof (cases "tr_queue s p")
    case Nil
    with Traffic_deliver show ?thesis
      by (simp add: deliver_head_def)
  next
    case (Cons x q)
    obtain h m where x: "x = (h, m)"
      by (cases x)
    have q: "list_all plain ((h, m) # q)"
      using only_application_queue [OF Traffic_deliver.IH, of p] Cons x by simp
    then have hm: "application (body m)" "hdest h \<noteq> kBroadcastId"
      by (simp_all add: plain_def)
    have s: "only_application (requeue p q s)"
      using Traffic_deliver.IH q by (simp add: only_application_requeue)
    obtain h1 m1 where d: "body m1 = body m" "hdest h1 = hdest h"
      "deliver_head pack ns p j b s = emit j (handles (ns j) h1 m1) (requeue p q s)"
      using deliver_head_Cons [OF _ hm, of s p q pack ns j b] Cons x by metis
    have "list_all plain (tr_queue (requeue p q s) p' @ [(h1, m1)])" for p'
      using only_application_queue [OF s] d(1,2) hm by (simp add: plain_def)
    then show ?thesis
      using only_application_requeue [OF s] s unfolding d(3) handles_def
      by (simp split: option.split)
  qed
qed

text \<open>A send keeps the stream in order.\<close>

lemma in_order_send:
  assumes inv: "in_order i d ps s" and way: "way L ns d i ps" and "i \<noteq> d"
    and rid: "\<And>j. rid (ns j) = j" and sent: "fst (send (ns a) m d')"
  shows "in_order i d ps (submit (ns a) m d' s)"
proof -
  obtain c h where c: "next_hop (ns a) d' = Some c" "source h = a" "hdest h = d'"
    "submit (ns a) m d' s =
      requeue (a, c) (tr_queue s (a, c) @ [(h, m)]) (s\<lparr>tr_sent := tr_sent s @ [(a, d', body m)]\<rparr>)"
    using submit_application [OF sent] rid by metis
  have part: "stream_part i d (h, m) = (if a = i \<and> d' = d then [body m] else [])"
    using c(2,3) by (simp add: stream_part_def)
  have log: "stream_sent i d (s\<lparr>tr_sent := tr_sent s @ [(a, d', body m)]\<rparr>) =
      stream_sent i d s @ (if a = i \<and> d' = d then [body m] else [])"
    by (simp add: stream_sent_def)
  show ?thesis
  proof (cases "a = i \<and> d' = d")
    case True
    then obtain ps' where ps: "ps = (i, c) # ps'"
      using way \<open>i \<noteq> d\<close> c(1) by (cases ps) (auto simp: prod_eq_iff)
    then have "(i, c) \<notin> set ps'"
      using way_distinct [OF way] by simp
    then show ?thesis
      using inv part log True
      by (auto simp: c(4) [unfolded conjunct1 [OF True] conjunct2 [OF True]] ps in_order_def
          in_flight_requeue queued_requeue queued_def)
  next
    case False
    then have "queued i d (submit (ns a) m d' s) = queued i d s"
      using part by (auto simp: c(4) queued_requeue queued_def)
    with False show ?thesis
      using inv log by (simp add: in_order_def in_flight_def) (simp add: c(4))
  qed
qed

text \<open>So does a delivery, on the way of the stream or elsewhere.\<close>

lemma in_order_elsewhere:
  assumes inv: "in_order i d ps s" and q: "tr_queue s p = (h, m) # q"
    and not: "stream_part i d (h, m) = []" and rid: "rid (ns j) = j"
    and hm: "hdest h1 = hdest h" "source h1 = source h" "body m1 = body m"
  shows "in_order i d ps (emit j (handles (ns j) h1 m1) (requeue p q s))"
proof -
  let ?s = "requeue p q s"
  have not1: "stream_part i d (h1, m1) = []" and off: "\<not> (source h = i \<and> hdest h = d)"
    using not hm by (auto simp: stream_part_def split: if_splits)
  have "queued i d ?s = queued i d s"
    using q not by (auto simp: queued_requeue queued_def)
  moreover have "queued i d (requeue p' (tr_queue ?s p' @ [(h1, m1)]) ?s) = queued i d ?s" for p'
    using not1 by (auto simp: queued_requeue queued_def)
  ultimately show ?thesis
    using inv off hm rid
    by (auto simp: handles_def in_order_def in_flight_def split: option.split)
qed

text \<open>The next router on the way passes a message of the stream to the next connection, the last one
  hands it on.\<close>

fun pass_on :: "u32 \<Rightarrow> u32 \<Rightarrow> (u32 \<times> u32) list \<Rightarrow> message_header \<times> message \<Rightarrow> traffic \<Rightarrow> traffic" where
  "pass_on i d [] x s = hand_on d (snd x) i s"
| "pass_on i d (p # ps) x s = requeue p (tr_queue s p @ [x]) s"

lemma handles_on_the_way:
  assumes "way L ns d j ps" "rid (ns j) = j" "source h = i" "hdest h = d"
  shows "emit j (handles (ns j) h m) s = pass_on i d ps (h, m) s"
proof (cases ps)
  case Nil
  with assms show ?thesis
    by (simp add: handles_def)
next
  case (Cons p ps')
  then have "j \<noteq> d" "next_hop (ns j) d = Some (snd p)" "(j, snd p) = p"
    using assms(1) by auto
  with Cons assms show ?thesis
    by (simp add: handles_def)
qed

lemma deliver_stream:
  assumes way: "way L ns d i (xs @ p # ys)" and q: "tr_queue s p = x # q" and plain: "plain x"
    and x: "stream_part i d x \<noteq> []" and L: "L (fst p) (snd p) = Some (j, b)"
    and rid: "\<And>j. rid (ns j) = j"
  obtains y where "stream_part i d x = [body (snd y)]" "stream_part i d y = [body (snd y)]"
    "deliver_head pack ns p j b s = pass_on i d ys y (requeue p q s)"
proof -
  obtain h m where hm: "x = (h, m)"
    by (cases x)
  have "tr_queue s p = (h, m) # q" "application (body m)" "hdest h \<noteq> kBroadcastId"
    using q plain hm by (simp_all add: plain_def)
  from deliver_head_Cons [OF this, of pack ns j b] obtain h1 m1 where
    y: "body m1 = body m" "hdest h1 = hdest h" "source h1 = source h"
    and d: "deliver_head pack ns p j b s = emit j (handles (ns j) h1 m1) (requeue p q s)"
    by metis
  have h: "source h = i" "hdest h = d"
    using x by (auto simp: hm stream_part_def split: if_splits)
  have "way L ns d j ys"
    using way_suffix [OF way] L by simp
  then have "deliver_head pack ns p j b s = pass_on i d ys (h1, m1) (requeue p q s)"
    unfolding d using h y by (intro handles_on_the_way [OF _ rid]) simp_all
  moreover have "stream_part i d x = [body (snd (h1, m1))]" "stream_part i d (h1, m1) = [body (snd (h1, m1))]"
    using h y by (simp_all add: hm stream_part_def)
  ultimately show thesis
    by (rule that [rotated -1])
qed

lemma in_order_on_the_way:
  assumes inv: "in_order i d (xs @ p # ys) s" and dist: "distinct (xs @ p # ys)"
    and q: "tr_queue s p = x # q" and x: "stream_part i d x = [body (snd y)]" "stream_part i d y = [body (snd y)]"
  shows "in_order i d (xs @ p # ys) (pass_on i d ys y (requeue p q s))"
proof (cases ys)
  case Nil
  then show ?thesis
    using inv dist q x by (auto simp: in_order_def in_flight_requeue queued_requeue) (simp_all add: queued_def)
next
  case (Cons p' ys')
  then have "p' \<noteq> p" "p' \<notin> set xs" "p' \<notin> set ys'" "p \<notin> set xs" "p \<notin> set ys'"
    using dist by auto
  with Cons show ?thesis
    using inv q x by (auto simp: in_order_def in_flight_requeue queued_requeue) (simp_all add: queued_def)
qed

lemma in_order_deliver:
  assumes inv: "in_order i d ps s" and way: "way L ns d i ps" and app: "only_application s"
    and rid: "\<And>j. rid (ns j) = j" and L: "L (fst p) (snd p) = Some (j, b)"
  shows "in_order i d ps (deliver_head pack ns p j b s)"
proof (cases "tr_queue s p")
  case Nil
  with inv show ?thesis
    by (simp add: deliver_head_def)
next
  case q: (Cons x q)
  have x: "plain x"
    using only_application_queue [OF app, of p] q by simp
  show ?thesis
  proof (cases "stream_part i d x = []")
    case True
    obtain h m where hm: "x = (h, m)"
      by (cases x)
    have "tr_queue s p = (h, m) # q" "application (body m)" "hdest h \<noteq> kBroadcastId"
      using q x hm by (simp_all add: plain_def)
    from deliver_head_Cons [OF this, of pack ns j b] show ?thesis
      using in_order_elsewhere [OF inv, of p h m q ns j] True q rid hm by metis
  next
    case False
    then have "queued i d s p \<noteq> []"
      by (simp add: queued_def q)
    moreover have "queued i d s p = []" if "p \<notin> set ps"
      using inv that unfolding in_order_def by blast
    ultimately obtain xs ys where ps: "ps = xs @ p # ys"
      by (meson split_list)
    from deliver_stream [OF way [unfolded ps] q x False L rid, of pack] show ?thesis
      using in_order_on_the_way [OF inv [unfolded ps] way_distinct [OF way [unfolded ps]] q] ps by metis
  qed
qed

lemma stream_in_order:
  assumes "traffic_reach pack L ns s" "way L ns d i ps" "i \<noteq> d" "\<And>j. rid (ns j) = j"
  shows "in_order i d ps s"
  using assms(1)
proof induction
  case Traffic_none
  have "in_flight i d no_traffic ps = []"
    by (induction ps) (simp_all add: queued_def no_traffic_def)
  then show ?case
    by (simp add: in_order_def stream_handed_def stream_sent_def queued_def no_traffic_def)
next
  case (Traffic_send s m d' a)
  then show ?case
    by (intro in_order_send [OF _ assms(2,3,4)])
next
  case (Traffic_deliver s p j b)
  then show ?case
    by (intro in_order_deliver [OF _ assms(2) only_application_reach assms(4)])
qed

section \<open>A schedule in which everything arrives\<close>

text \<open>Only the stream is on its way; each delivery brings it nearer.\<close>

definition lone :: "u32 \<Rightarrow> u32 \<Rightarrow> traffic \<Rightarrow> bool" where
  "lone i d s \<longleftrightarrow> (\<forall>p. list_all (\<lambda>x. stream_part i d x \<noteq> []) (tr_queue s p))"

fun hops_left :: "traffic \<Rightarrow> (u32 \<times> u32) list \<Rightarrow> nat" where
  "hops_left s [] = 0"
| "hops_left s (p # ps) = length (tr_queue s p) * Suc (length ps) + hops_left s ps"

lemma hops_left_requeue: "p \<notin> set ps \<Longrightarrow> hops_left (requeue p q s) ps = hops_left s ps"
  by (induction ps) auto

lemma hops_left_hand_on [simp]: "hops_left (hand_on j m src s) ps = hops_left s ps"
  by (induction ps) (simp_all add: hand_on_def)

lemma hops_left_prefix:
  "\<forall>p\<in>set xs. tr_queue s' p = tr_queue s p \<Longrightarrow> hops_left s' zs < hops_left s zs \<Longrightarrow>
    hops_left s' (xs @ zs) < hops_left s (xs @ zs)"
  by (induction xs) simp_all

lemma lone_requeue:
  "lone i d s \<Longrightarrow> list_all (\<lambda>x. stream_part i d x \<noteq> []) q \<Longrightarrow> lone i d (requeue p q s)"
  by (simp add: lone_def)

lemma pass_on_nearer:
  assumes "distinct (xs @ p # ys)" "tr_queue s p = x # q" "lone i d s" "stream_part i d y \<noteq> []"
  shows "hops_left (pass_on i d ys y (requeue p q s)) (xs @ p # ys) < hops_left s (xs @ p # ys)"
    and "lone i d (pass_on i d ys y (requeue p q s))"
    and "stream_sent i d (pass_on i d ys y (requeue p q s)) = stream_sent i d s"
proof -
  let ?s = "requeue p q s"
  have all: "list_all (\<lambda>x. stream_part i d x \<noteq> []) (tr_queue s p')" for p'
    using assms(3) unfolding lone_def by (rule spec)
  have s: "lone i d ?s"
    using lone_requeue [OF assms(3)] all [of p] assms(2) by simp
  show "lone i d (pass_on i d ys y ?s)"
  proof (cases ys)
    case Nil
    with s show ?thesis
      by (simp add: lone_def hand_on_def)
  next
    case (Cons p' ys')
    have "list_all (\<lambda>x. stream_part i d x \<noteq> []) (tr_queue ?s p' @ [y])"
      using all [of p'] all [of p] assms(2,4) by simp
    with Cons show ?thesis
      using lone_requeue [OF s] by simp
  qed
  show "hops_left (pass_on i d ys y ?s) (xs @ p # ys) < hops_left s (xs @ p # ys)"
  proof (rule hops_left_prefix)
    show "\<forall>p'\<in>set xs. tr_queue (pass_on i d ys y ?s) p' = tr_queue s p'"
      using assms(1) by (cases ys) (auto simp: hand_on_def)
    show "hops_left (pass_on i d ys y ?s) (p # ys) < hops_left s (p # ys)"
      using assms(1,2) by (cases ys) (auto simp: hops_left_requeue hand_on_def [of d "snd y" i ?s])
  qed
  show "stream_sent i d (pass_on i d ys y ?s) = stream_sent i d s"
    by (cases ys) simp_all
qed

lemma schedule_ends:
  assumes "traffic_reach pack L ns s" "way L ns d i ps" "i \<noteq> d" "\<And>j. rid (ns j) = j" "lone i d s"
  shows "\<exists>s'. traffic_reach pack L ns s' \<and> stream_sent i d s' = stream_sent i d s \<and> all_arrived i d s'"
  using assms(1,5)
proof (induction "hops_left s ps" arbitrary: s rule: less_induct)
  case less
  show ?case
  proof (cases "all_arrived i d s")
    case True
    with less.prems show ?thesis
      by blast
  next
    case False
    then obtain p where p: "queued i d s p \<noteq> []"
      unfolding all_arrived_def by blast
    moreover have "queued i d s p = []" if "p \<notin> set ps"
      using stream_in_order [OF less.prems(1) assms(2-4)] that unfolding in_order_def by blast
    ultimately obtain xs ys where ps: "ps = xs @ p # ys"
      by (meson split_list)
    note way = assms(2) [unfolded ps]
    obtain x q where q: "tr_queue s p = x # q"
      using p by (cases "tr_queue s p") (auto simp: queued_def)
    have "list_all (\<lambda>x. stream_part i d x \<noteq> []) (tr_queue s p)"
      using less.prems(2) unfolding lone_def by (rule spec)
    then have x: "plain x" "stream_part i d x \<noteq> []"
      using only_application_queue [OF only_application_reach [OF less.prems(1)], of p] q by simp_all
    obtain j b where L: "L (fst p) (snd p) = Some (j, b)" "b \<in> set (connections (ns j))"
      using way_suffix [OF way] by (auto split: option.splits)
    obtain y where y: "stream_part i d y = [body (snd y)]"
      "deliver_head pack ns p j b s = pass_on i d ys y (requeue p q s)"
      using deliver_stream [OF way q x L(1) assms(4), of pack] by metis
    let ?s = "deliver_head pack ns p j b s"
    have "traffic_reach pack L ns ?s"
      by (rule Traffic_deliver [OF less.prems(1) L])
    moreover note pass_on_nearer [OF way_distinct [OF way] q less.prems(2), of y, folded y(2) ps]
    ultimately show ?thesis
      using less.hyps [of ?s] y(1) by fastforce
  qed
qed

lemma all_submitted:
  assumes "\<forall>m\<in>set ms. application (body m)" "d \<noteq> kBroadcastId" "next_hop (ns i) d = Some c" "rid (ns i) = i"
    "traffic_reach pack L ns s" "lone i d s"
  shows "traffic_reach pack L ns (fold (\<lambda>m. submit (ns i) m d) ms s) \<and>
    lone i d (fold (\<lambda>m. submit (ns i) m d) ms s) \<and>
    stream_sent i d (fold (\<lambda>m. submit (ns i) m d) ms s) = stream_sent i d s @ map body ms"
  using assms(1,5,6)
proof (induction ms arbitrary: s)
  case (Cons m ms)
  have ok: "fst (send (ns i) m d)"
    by (simp add: send_next_hop assms(3))
  obtain c' h where h: "source h = i" "hdest h = d"
    "submit (ns i) m d s = requeue (i, c') (tr_queue s (i, c') @ [(h, m)]) (s\<lparr>tr_sent := tr_sent s @ [(i, d, body m)]\<rparr>)"
    using submit_application [OF ok] assms(4) by metis
  have "list_all (\<lambda>x. stream_part i d x \<noteq> []) (tr_queue s (i, c') @ [(h, m)])"
    using Cons.prems(3) h(1,2) by (auto simp: lone_def stream_part_def)
  moreover have "lone i d (s\<lparr>tr_sent := tr_sent s @ [(i, d, body m)]\<rparr>)"
    using Cons.prems(3) by (simp add: lone_def)
  ultimately have "lone i d (submit (ns i) m d s)"
    unfolding h(3) by (intro lone_requeue)
  moreover have "stream_sent i d (submit (ns i) m d s) = stream_sent i d s @ [body m]"
    by (simp add: h(3)) (simp add: stream_sent_def)
  moreover have "traffic_reach pack L ns (submit (ns i) m d s)"
    by (rule Traffic_send [OF Cons.prems(2) _ assms(2) ok]) (use Cons.prems(1) in simp)
  ultimately show ?case
    using Cons.IH [of "submit (ns i) m d s"] Cons.prems(1) by simp
qed simp

lemma lone_no_traffic: "lone i d no_traffic" "stream_sent i d no_traffic = []"
  by (simp_all add: lone_def no_traffic_def stream_sent_def)

lemma messages_can_arrive:
  fixes ms :: "message list"
  assumes "way L ns d i ps" "i \<noteq> d" "\<And>j. rid (ns j) = j" "d \<noteq> kBroadcastId"
    "\<forall>m\<in>set ms. application (body m)"
  shows "\<exists>s. traffic_reach pack L ns s \<and> stream_sent i d s = map body ms \<and> all_arrived i d s"
proof -
  obtain c where "next_hop (ns i) d = Some c"
    using assms(1,2) by (cases ps) auto
  from all_submitted [where ns = ns and i = i, OF assms(5,4) this assms(3) [of i] Traffic_none lone_no_traffic(1)]
  obtain s where "traffic_reach pack L ns s" "lone i d s" "stream_sent i d s = map body ms"
    by (auto simp: lone_no_traffic(2))
  with schedule_ends [OF _ assms(1-3)] show ?thesis
    by metis
qed

text \<open>What is handed on is a beginning of what was sent, and all of it when nothing is in flight.\<close>

lemma arrived_in_order:
  assumes "traffic_reach pack L ns s" "way L ns d i ps" "i \<noteq> d" "\<And>j. rid (ns j) = j"
  shows "prefix (map body (stream_handed i d s)) (stream_sent i d s)"
    and "all_arrived i d s \<Longrightarrow> map body (stream_handed i d s) = stream_sent i d s"
proof -
  note inv = stream_in_order [OF assms]
  then show "prefix (map body (stream_handed i d s)) (stream_sent i d s)"
    by (auto simp: in_order_def intro: prefixI [OF sym])
  assume "all_arrived i d s"
  then have "queued i d s p = []" for p
    unfolding all_arrived_def by (rule spec)
  then have "in_flight i d s ps = []"
    by (induction ps) simp_all
  with inv show "map body (stream_handed i d s) = stream_sent i d s"
    by (simp add: in_order_def)
qed

end
