(* ===== verification/Relay.thy ===== *)
theory Relay
  imports Streams
begin

text \<open>
  The way of a core client's bytes across the network: from its frames through the server proxy of
  its own node, the routers on the way and the client proxy of the server's node, to the connection
  of that proxy with the core server. This puts together \<open>server_proxy_relays\<close>,
  \<open>arrived_in_order\<close> and the message slot of the client proxy.
\<close>

lemma next_hop_known:
  assumes "e \<in> set (route_table r)" "dest e = d" "owned r"
  shows "\<exists>c. next_hop r d = Some c"
proof -
  obtain x where "find (\<lambda>e. dest e = d) (route_table r) = Some x"
    using assms(1,2) find_None_dest [of d "route_table r"] by (cases "find (\<lambda>e. dest e = d) (route_table r)") auto
  moreover from this have "\<exists>c. connection x = Some c"
    using find_SomeD assms(3) by (fastforce simp: owned_def)
  ultimately show ?thesis
    by (auto simp: next_hop_def)
qed

definition bytes_written :: "client_event list \<Rightarrow> bytes" where
  "bytes_written evs = concat (map (\<lambda>e. case e of WriteClient i bs \<Rightarrow> bs | _ \<Rightarrow> []) evs)"

text \<open>The message that the server proxy gives the router for a message of its core client.\<close>

definition relay_message :: "v1_message \<Rightarrow> message" where
  "relay_message m =
     message_of (if vtype m = HelloBack then ProxyClientConnect (text_of (screen_name m))
                 else CoreMessage (core_bytes m))"

lemma body_relay_message [simp]:
  "body (relay_message m) =
    (if vtype m = HelloBack then ProxyClientConnect (text_of (screen_name m)) else CoreMessage (core_bytes m))"
  by (simp add: relay_message_def)

lemma relay_event_send:
  "next_hop r d = Some c \<Longrightarrow> [relay_event r d c d c m] = snd (send r (relay_message m) d)"
  by (simp add: send_next_hop relay_event_def announcement_def core_send_def relay_message_def Let_def)

section \<open>The client proxy\<close>

text \<open>What the client proxy goes through: messages that its router hands on, connections with the core
  server that are made, and connections that end.\<close>

datatype proxy_input = Routed message u32 | Made nat u32 string | Ended nat

fun client_run :: "client_connection list \<Rightarrow> proxy_input list \<Rightarrow> client_event list" where
  "client_run cs [] = []"
| "client_run cs (Routed m src # xs) = client_on_message cs m src @ client_run cs xs"
| "client_run cs (Made n src screen # xs) = client_run (client_connected n src screen cs) xs"
| "client_run cs (Ended n # xs) = client_run (client_disconnected n cs) xs"

definition connection_of :: "client_connection list \<Rightarrow> u32 \<Rightarrow> client_connection option" where
  "connection_of cs i = find (\<lambda>c. client_id c = i) cs"

text \<open>A session: the announcement, on which the connection of an earlier session is stopped and ends
  and a new one is made, and then everything else.\<close>

definition stopped_ends :: "client_connection list \<Rightarrow> u32 \<Rightarrow> proxy_input list" where
  "stopped_ends cs i = (case connection_of cs i of None \<Rightarrow> [] | Some k \<Rightarrow> [Ended (cc_id k)])"

definition after_stop :: "client_connection list \<Rightarrow> u32 \<Rightarrow> client_connection list" where
  "after_stop cs i = (case connection_of cs i of None \<Rightarrow> cs | Some k \<Rightarrow> client_disconnected (cc_id k) cs)"

definition session_inputs ::
    "client_connection list \<Rightarrow> u32 \<Rightarrow> nat \<Rightarrow> string \<Rightarrow> message list \<Rightarrow> proxy_input list" where
  "session_inputs cs i n screen ms =
     Routed (hd ms) i # stopped_ends cs i @ Made n i screen # map (\<lambda>m. Routed m i) (tl ms)"

definition stop_events :: "client_connection list \<Rightarrow> u32 \<Rightarrow> client_event list" where
  "stop_events cs i = (case connection_of cs i of None \<Rightarrow> [] | Some k \<Rightarrow> [StopClient (cc_id k)])"

lemma connection_of_new:
  "connection_of cs i = None \<Longrightarrow>
    connection_of (client_connected n i screen cs) i = Some \<lparr>cc_id = n, client_id = i, cc_screen = screen\<rparr>"
  by (induction cs) (auto simp: connection_of_def client_connected_def)

lemma client_run_data:
  assumes "connection_of cs i = Some k" "map body ms = map (\<lambda>m. CoreMessage (core_bytes m)) xs"
  shows "client_run cs (map (\<lambda>m. Routed m i) ms) = map (\<lambda>m. WriteClient (cc_id k) (core_bytes m)) xs"
  using assms(2)
proof (induction ms arbitrary: xs)
  case (Cons m ms)
  then obtain x xs' where "xs = x # xs'" "body m = CoreMessage (core_bytes x)"
    "map body ms = map (\<lambda>m. CoreMessage (core_bytes m)) xs'"
    by (cases xs) auto
  with Cons.IH assms(1) show ?case
    by (simp add: client_on_message_def connection_of_def)
qed simp

lemma client_run_ends:
  "client_run cs (stopped_ends cs i @ xs) = client_run (after_stop cs i) xs"
  by (simp add: stopped_ends_def after_stop_def split: option.split)

lemma client_run_session:
  assumes "map body ms = map (body \<circ> relay_message) (hb # later)" "vtype hb = HelloBack"
    "\<forall>m\<in>set later. vtype m \<noteq> HelloBack" "connection_of (after_stop cs i) i = None"
  shows "client_run cs (session_inputs cs i n screen ms) =
    stop_events cs i @ [ConnectClient i (text_of (screen_name hb))]
    @ map (\<lambda>m. WriteClient n (core_bytes m)) later"
proof -
  obtain a ds where ms: "ms = a # ds" "body a = ProxyClientConnect (text_of (screen_name hb))"
    "map body ds = map (\<lambda>m. CoreMessage (core_bytes m)) later"
    using assms(1-3) by (cases ms) (auto cong: map_cong)
  have "client_on_message cs a i = stop_events cs i @ [ConnectClient i (text_of (screen_name hb))]"
    by (simp add: client_on_message_def ms(2) stop_events_def connection_of_def split: option.split)
  then show ?thesis
    using client_run_data [OF connection_of_new [OF assms(4)] ms(3), of n screen]
    by (simp add: session_inputs_def ms(1) client_run_ends)
qed

section \<open>From one core program to the other\<close>

text \<open>C3. A core client's session crosses the network unchanged and in order. When the node of a core
  client knows a route to the server, which is also the current one of its proxy, the client's
  frames hold encodings of client messages, and the first message is the hello back and no other
  is, then, whatever the pieces in which the frames arrive, the node's router sends one message
  for each; each takes at most as many hops as the route is long. Connections deliver in order and
  the routes are at rest, but other traffic of all nodes may be interleaved in any way: there is a
  schedule in which all messages arrive, and in every schedule in which they have arrived, the
  client proxy of the server's node is handed the announcement of the screen, on which it stops an
  earlier connection of that client and connects to the core server, and then, in the order in
  which they were sent, the other messages, whose bytes it writes to that connection, which is
  made before they arrive (what arrives earlier is dropped); with the hello back these are exactly
  the bytes of the frames.\<close>

theorem client_bytes_reach_the_server:
  assumes "links_ok L" "wired_reach pack L w"
    and "e \<in> set (route_table (w_nodes w i))" "dest e = server" "server \<noteq> kBroadcastId"
    and "data_only as" "stream as = concat (map frame bufs)" "\<forall>buf\<in>set bufs. length buf < 2 ^ 32"
    and "list_all2 (encodes CTS) mss bufs" "concat mss = hb # later"
    and "vtype hb = HelloBack" "\<forall>m\<in>set later. vtype m \<noteq> HelloBack"
    and "connection_of (after_stop cs i) i = None"
  shows "\<exists>ms.
    proxy_loop ServerSide (server_handler (w_nodes w i) server server) as \<lparr>routed = [], written = []\<rparr> =
      (\<lparr>routed = concat (map (\<lambda>m. snd (send (w_nodes w i) m server)) ms), written = []\<rparr>, AwaitingFrame) \<and>
    (\<forall>m\<in>set ms. \<exists>hops\<le>length (path e). \<exists>m'.
      travel pack L (w_nodes w) hops i (snd (send (w_nodes w i) m server)) = Some (server, m', i)) \<and>
    (\<exists>s. traffic_reach pack L (w_nodes w) s \<and> stream_sent i server s = map body ms \<and> all_arrived i server s) \<and>
    (\<forall>s. traffic_reach pack L (w_nodes w) s \<and> stream_sent i server s = map body ms \<and> all_arrived i server s \<longrightarrow>
      client_run cs (session_inputs cs i n screen (stream_handed i server s)) =
        stop_events cs i @ [ConnectClient i (text_of (screen_name hb))]
        @ map (\<lambda>m. WriteClient n (core_bytes m)) later) \<and>
    core_bytes hb @ bytes_written (map (\<lambda>m. WriteClient n (core_bytes m)) later) = concat bufs"
proof -
  let ?r = "w_nodes w i" and ?ms = "map relay_message (concat mss)"
  have ok: "wired_ok L w"
    by (rule wired_reach_ok [OF assms(1,2)])
  have "owned ?r"
    using wired_okD(1) [OF ok] good_routerD(2) core_okD(4) by blast
  then obtain c where c: "next_hop ?r server = Some c"
    using next_hop_known assms(3,4) by blast
  have "i \<noteq> server"
    using good_routerD(5) [OF wired_okD(1) [OF ok] assms(3)] assms(4) last_in_set [of "path e"]
    by (auto simp: simple_route_def)
  obtain ps where way: "way L (w_nodes w) server i ps"
    using way_exists [OF ok _ \<open>i \<noteq> server\<close>] near_self [OF assms(3)] assms(4) by blast
  note rid = wired_okD(5) [OF ok]
  note enc = frames_encoded [OF assms(9)]
  have "concat (map (frame_messages CTS) (frames_read CTS bufs)) = concat mss"
    by (simp only: enc)
  then have "proxy_loop ServerSide (server_handler ?r server server) as \<lparr>routed = [], written = []\<rparr> =
      (\<lparr>routed = concat (map (\<lambda>m. snd (send ?r m server)) ?ms), written = []\<rparr>, AwaitingFrame)"
    using server_proxy_relays [OF assms(6-8) c c, of "\<lparr>routed = [], written = []\<rparr>"] enc(3)
    by (simp add: o_def flip: relay_event_send [OF c])
  moreover have app: "\<forall>m\<in>set ?ms. application (body m)"
    by auto
  then have "\<forall>m\<in>set ?ms. \<exists>hops\<le>length (path e). \<exists>m'.
      travel pack L (w_nodes w) hops i (snd (send ?r m server)) = Some (server, m', i)"
    using travel_of_send [OF assms(1-5)] by blast
  moreover have "\<exists>s. traffic_reach pack L (w_nodes w) s \<and> stream_sent i server s = map body ?ms \<and> all_arrived i server s"
    by (rule messages_can_arrive [OF way \<open>i \<noteq> server\<close> rid assms(5) app])
  moreover have "client_run cs (session_inputs cs i n screen (stream_handed i server s)) =
        stop_events cs i @ [ConnectClient i (text_of (screen_name hb))]
        @ map (\<lambda>m. WriteClient n (core_bytes m)) later"
    if "traffic_reach pack L (w_nodes w) s \<and> stream_sent i server s = map body ?ms \<and> all_arrived i server s" for s
  proof (rule client_run_session [OF _ assms(11-13)])
    show "map body (stream_handed i server s) = map (body \<circ> relay_message) (hb # later)"
      using arrived_in_order(2) [OF _ way \<open>i \<noteq> server\<close> rid, of pack s] that by (simp add: assms(10))
  qed
  moreover have "core_bytes hb @ bytes_written (map (\<lambda>m. WriteClient n (core_bytes m)) later) = concat bufs"
    using enc(4) by (simp add: assms(10) bytes_written_def o_def)
  ultimately show ?thesis
    by (intro exI [of _ ?ms]) blast
qed

theorem client_bytes_reach_the_server_witness:
  "\<exists>ms s.
    fst (proxy_loop ServerSide (server_handler (w_nodes (line_deliver (line_deliver line_connected)) 1) 3 3)
      [Data (frame (core_bytes (hello_back_of (ascii ''left'')))),
       Data (frame (ascii ''DMDN'' @ [3]) @ frame (ascii ''CALV''))] \<lparr>routed = [], written = []\<rparr>) =
      \<lparr>routed = concat (map (\<lambda>m. snd (send (w_nodes (line_deliver (line_deliver line_connected)) 1) m 3)) ms),
        written = []\<rparr> \<and>
    traffic_reach line_pack line_links (w_nodes (line_deliver (line_deliver line_connected))) s \<and>
    stream_sent 1 3 s = map body ms \<and>
    client_run [\<lparr>cc_id = 5, client_id = 1, cc_screen = ''left''\<rparr>]
      (session_inputs [\<lparr>cc_id = 5, client_id = 1, cc_screen = ''left''\<rparr>] 1 6 ''left'' (stream_handed 1 3 s)) =
      [StopClient 5, ConnectClient 1 ''left'', WriteClient 6 (ascii ''DMDN'' @ [3]), WriteClient 6 (ascii ''CALV'')]"
proof -
  let ?w = "line_deliver (line_deliver line_connected)"
  let ?hb = "hello_back_of (ascii ''left'')"
  let ?later = "[\<lparr>vtype = MouseDown, args = [FU8 3]\<rparr>, \<lparr>vtype = KeepAlive, args = []\<rparr>]"
  let ?bufs = "[core_bytes ?hb, ascii ''DMDN'' @ [3], ascii ''CALV'']"
  let ?mss = "[[?hb], [\<lparr>vtype = MouseDown, args = [FU8 3]\<rparr>], [\<lparr>vtype = KeepAlive, args = []\<rparr>]]"
  let ?as = "[Data (frame (core_bytes ?hb)), Data (frame (ascii ''DMDN'' @ [3]) @ frame (ascii ''CALV''))]"
  let ?cs = "[\<lparr>cc_id = 5, client_id = 1, cc_screen = ''left''\<rparr>]"
  obtain e where e: "route_table (w_nodes ?w 1) = [e]" "dest e = 3" "path e = [2, 3]"
    using line_route by auto
  then have route: "e \<in> set (route_table (w_nodes ?w 1))"
    by simp
  have h: "length (ascii ''left'') < 2 ^ 32" "length (core_bytes ?hb) < 2 ^ 32"
    by (simp_all add: ascii_def hello_back_bytes)
  have as: "data_only ?as" "stream ?as = concat (map frame ?bufs)"
    by (simp_all add: frame_def be32_def)
  have len: "\<forall>buf\<in>set ?bufs. length buf < 2 ^ 32"
    using h(2) by (simp add: ascii_def)
  have enc: "list_all2 (encodes CTS) ?mss ?bufs"
    using hello_back_encodes [OF h(1)] by (simp add: encodes_one demo_messages flow_ok_def)
  have to: "(3 :: u32) \<noteq> kBroadcastId"
    by (simp add: kBroadcastId_def)
  have msgs: "concat ?mss = ?hb # ?later" "vtype ?hb = HelloBack" "\<forall>m\<in>set ?later. vtype m \<noteq> HelloBack"
    by (simp_all add: hello_back_of_def)
  have free: "connection_of (after_stop ?cs 1) 1 = None"
    by code_simp
  have screen: "text_of (screen_name ?hb) = ''left''"
    by code_simp
  have events: "stop_events ?cs 1 @ [ConnectClient 1 (text_of (screen_name ?hb))]
      @ map (\<lambda>m. WriteClient 6 (core_bytes m)) ?later =
      [StopClient 5, ConnectClient 1 ''left'', WriteClient 6 (ascii ''DMDN'' @ [3]), WriteClient 6 (ascii ''CALV'')]"
    by (simp add: stop_events_def connection_of_def core_bytes_def demo_messages screen)
  from client_bytes_reach_the_server [OF line_links_ok line_reach route e(2) to as len enc msgs free, of 6 "''left''"]
  show ?thesis
    unfolding events by force
qed

end
