(* ===== verification/ConfigGen.thy ===== *)
theory ConfigGen
  imports Prelude Complex_Main
begin

text \<open>
  The configuration of the core server: screens (\<open>common/Screen.cpp\<close>, \<open>ScreenStatus.h\<close>), the
  links between their edges (\<open>common/ScreenLinks.h\<close>) and \<open>common/ConfigGen.cpp\<close>, which computes
  the links from the positions of the screens and prints the configuration. Coordinates are
  \<open>int64_t\<close> in the code and integers here: the sums of two of them are assumed not to overflow.
\<close>

section \<open>Screens\<close>

datatype screen_status = SConnected | SConnecting | SDisconnected | SInactive

text \<open>\<open>None\<close> is the rethrow without an exception, which terminates the program.\<close>

definition stringToScreenStatus :: "string \<Rightarrow> screen_status option" where
  "stringToScreenStatus str =
     (if str = ''Connected'' then Some SConnected
      else if str = ''Connecting'' \<or> str = ''ConnectingWithError'' then Some SConnecting
      else if str = ''Disconnected'' then Some SDisconnected
      else if str = ''Inactive'' then Some SInactive
      else None)"

fun screenStatusToString :: "screen_status \<Rightarrow> string" where
  "screenStatusToString SConnected = ''Connected''"
| "screenStatusToString SConnecting = ''Connecting''"
| "screenStatusToString SDisconnected = ''Disconnected''"
| "screenStatusToString SInactive = ''Inactive''"

lemma screen_status_round_trip: "stringToScreenStatus (screenStatusToString s) = Some s"
  by (cases s) (simp_all add: stringToScreenStatus_def)

record screen =
  sid :: int
  sname :: string
  sactive :: bool
  sx :: int
  sy :: int
  swidth :: int
  sheight :: int
  sstatus :: screen_status
  sip_list :: string
  serror_code :: u32
  serror_message :: string

definition new_screen :: "int \<Rightarrow> screen" where
  "new_screen i =
     \<lparr>sid = i, sname = '''', sactive = False, sx = 0, sy = 0, swidth = 0, sheight = 0,
      sstatus = SDisconnected, sip_list = '''', serror_code = 0, serror_message = ''''\<rparr>"

definition kScreenWidth :: int where "kScreenWidth = 86"
definition kScreenHeight :: int where "kScreenHeight = 58"

text \<open>\<open>boost::algorithm::join\<close> with a comma, and the setter that reports a change.\<close>

fun join_comma :: "string list \<Rightarrow> string" where
  "join_comma [] = ''''"
| "join_comma [s] = s"
| "join_comma (s # ss) = s @ '','' @ join_comma ss"

definition set_ip_list :: "string list \<Rightarrow> screen \<Rightarrow> bool \<times> screen" where
  "set_ip_list ips s =
     (let l = join_comma ips; changed = (sip_list s \<noteq> l)
      in (changed, if changed then s\<lparr>sip_list := l\<rparr> else s))"

record screen_snapshot =
  ss_id :: int
  ss_name :: string
  ss_x_pos :: int
  ss_y_pos :: int
  ss_active :: bool
  ss_status :: string
  ss_ipList :: string
  ss_version :: u64
  ss_error_code :: u32
  ss_error_message :: string

definition apply_snapshot :: "screen_snapshot \<Rightarrow> screen \<Rightarrow> screen option" where
  "apply_snapshot ss s =
     (case stringToScreenStatus (ss_status ss) of
        None \<Rightarrow> None
      | Some st \<Rightarrow> Some (s\<lparr>sid := ss_id ss, sname := ss_name ss, sactive := ss_active ss,
          sx := ss_x_pos ss, sy := ss_y_pos ss, swidth := kScreenWidth, sheight := kScreenHeight,
          sstatus := st, sip_list := ss_ipList ss, serror_code := ss_error_code ss,
          serror_message := ss_error_message ss\<rparr>))"

section \<open>Linking the edges of the screens\<close>

text \<open>
  A \<open>ScreenEdge\<close> is an \<open>interval_map\<close> of the Boost library: the operations below take its \<open>set\<close>,
  its empty map and the list of its segments as parameters. \<open>std::sort\<close> leaves the order of equal
  keys open, so it is a parameter as well. A \<open>ScreenLinkMap\<close> is a position in the vectors of
  screens and links, which stands for the addresses, and the screen.
\<close>

datatype Direction = Up | Right | Down | Left

type_synonym 'm ScreenLinks = "Direction \<Rightarrow> 'm"

type_synonym ScreenLinkMap = "nat \<times> screen"

type_synonym sorter = "(ScreenLinkMap \<Rightarrow> int) \<Rightarrow> ScreenLinkMap list \<Rightarrow> ScreenLinkMap list"

definition removeSource :: "ScreenLinkMap \<Rightarrow> ScreenLinkMap list \<Rightarrow> ScreenLinkMap list" where
  "removeSource source targets = filter (\<lambda>p. fst p \<noteq> fst source) targets"

definition removeLeft :: "ScreenLinkMap \<Rightarrow> ScreenLinkMap list \<Rightarrow> ScreenLinkMap list" where
  "removeLeft source targets =
     filter (\<lambda>t. \<not> sx (snd t) + swidth (snd t) \<le> sx (snd source)) targets"

definition removeRight :: "ScreenLinkMap \<Rightarrow> ScreenLinkMap list \<Rightarrow> ScreenLinkMap list" where
  "removeRight source targets =
     filter (\<lambda>t. \<not> sx (snd source) + swidth (snd source) \<le> sx (snd t)) targets"

definition removeAbove :: "ScreenLinkMap \<Rightarrow> ScreenLinkMap list \<Rightarrow> ScreenLinkMap list" where
  "removeAbove source targets =
     filter (\<lambda>t. \<not> sy (snd t) + sheight (snd t) \<le> sy (snd source)) targets"

definition removeBelow :: "ScreenLinkMap \<Rightarrow> ScreenLinkMap list \<Rightarrow> ScreenLinkMap list" where
  "removeBelow source targets =
     filter (\<lambda>t. \<not> sy (snd source) + sheight (snd source) \<le> sy (snd t)) targets"

text \<open>The intervals that the loops set for a target: its overlap with the source along the edge.\<close>

definition y_overlap :: "screen \<Rightarrow> screen \<Rightarrow> int \<times> int" where
  "y_overlap s t = (max (sy s) (sy t), min (sy s + sheight s) (sy t + sheight t))"

definition x_overlap :: "screen \<Rightarrow> screen \<Rightarrow> int \<times> int" where
  "x_overlap s t = (max (sx s) (sx t), min (sx s + swidth s) (sx t + swidth t))"

definition linkLeft ::
    "sorter \<Rightarrow> (int \<Rightarrow> int \<Rightarrow> int \<Rightarrow> 'm \<Rightarrow> 'm) \<Rightarrow> ScreenLinkMap \<Rightarrow> ScreenLinkMap list \<Rightarrow>
     'm ScreenLinks \<Rightarrow> 'm ScreenLinks" where
  "linkLeft srt set_iv source targets edges =
     (let targets = removeBelow source (removeAbove source (removeRight source (removeSource source targets)));
          targets = srt (\<lambda>t. sx (snd t)) targets
      in edges(Left := fold (\<lambda>t. case y_overlap (snd source) (snd t) of (l, u) \<Rightarrow> set_iv l u (sid (snd t)))
                            targets (edges Left)))"

definition linkRight ::
    "sorter \<Rightarrow> (int \<Rightarrow> int \<Rightarrow> int \<Rightarrow> 'm \<Rightarrow> 'm) \<Rightarrow> ScreenLinkMap \<Rightarrow> ScreenLinkMap list \<Rightarrow>
     'm ScreenLinks \<Rightarrow> 'm ScreenLinks" where
  "linkRight srt set_iv source targets edges =
     (let targets = removeBelow source (removeAbove source (removeLeft source (removeSource source targets)));
          targets = srt (\<lambda>t. - sx (snd t)) targets
      in edges(Right := fold (\<lambda>t. case y_overlap (snd source) (snd t) of (l, u) \<Rightarrow> set_iv l u (sid (snd t)))
                             targets (edges Right)))"

definition linkUp ::
    "sorter \<Rightarrow> (int \<Rightarrow> int \<Rightarrow> int \<Rightarrow> 'm \<Rightarrow> 'm) \<Rightarrow> ScreenLinkMap \<Rightarrow> ScreenLinkMap list \<Rightarrow>
     'm ScreenLinks \<Rightarrow> 'm ScreenLinks" where
  "linkUp srt set_iv source targets edges =
     (let targets = removeBelow source (removeRight source (removeLeft source (removeSource source targets)));
          targets = srt (\<lambda>t. sy (snd t)) targets
      in edges(Up := fold (\<lambda>t. case x_overlap (snd source) (snd t) of (l, u) \<Rightarrow> set_iv l u (sid (snd t)))
                          targets (edges Up)))"

definition linkDown ::
    "sorter \<Rightarrow> (int \<Rightarrow> int \<Rightarrow> int \<Rightarrow> 'm \<Rightarrow> 'm) \<Rightarrow> ScreenLinkMap \<Rightarrow> ScreenLinkMap list \<Rightarrow>
     'm ScreenLinks \<Rightarrow> 'm ScreenLinks" where
  "linkDown srt set_iv source targets edges =
     (let targets = removeAbove source (removeRight source (removeLeft source (removeSource source targets)));
          targets = srt (\<lambda>t. - sy (snd t)) targets
      in edges(Down := fold (\<lambda>t. case x_overlap (snd source) (snd t) of (l, u) \<Rightarrow> set_iv l u (sid (snd t)))
                            targets (edges Down)))"

definition link_all ::
    "sorter \<Rightarrow> (int \<Rightarrow> int \<Rightarrow> int \<Rightarrow> 'm \<Rightarrow> 'm) \<Rightarrow> ScreenLinkMap \<Rightarrow> ScreenLinkMap list \<Rightarrow>
     'm ScreenLinks \<Rightarrow> 'm ScreenLinks" where
  "link_all srt set_iv target targets edges =
     linkLeft srt set_iv target targets (linkDown srt set_iv target targets
       (linkRight srt set_iv target targets (linkUp srt set_iv target targets edges)))"

definition linkScreens ::
    "sorter \<Rightarrow> (int \<Rightarrow> int \<Rightarrow> int \<Rightarrow> 'm \<Rightarrow> 'm) \<Rightarrow> 'm \<Rightarrow> screen list \<Rightarrow> 'm ScreenLinks list" where
  "linkScreens srt set_iv empty_edge screens =
     (let targets = zip [0..<length screens] screens
      in fold (\<lambda>target links. links[fst target := link_all srt set_iv target targets (links ! fst target)])
           targets (replicate (length screens) (\<lambda>_. empty_edge)))"

section \<open>Printing the configuration\<close>

text \<open>
  The output is a list of lines. The percentages of a link are computed in floating point by the
  code and are exact rationals here. A link to an unknown screen is a failed assertion, \<open>None\<close>.
\<close>

datatype config_line = Line string | Link_Line Direction rat rat string rat rat

definition percent :: "int \<Rightarrow> int \<Rightarrow> int \<Rightarrow> rat" where
  "percent p origin extent = of_int (p - origin) * 100 / of_int extent"

definition print_link ::
    "Direction \<Rightarrow> screen \<Rightarrow> screen list \<Rightarrow> int \<times> int \<times> int \<Rightarrow> config_line option" where
  "print_link edge s screens link =
     (case link of (lower, upper, dest) \<Rightarrow>
        (case find (\<lambda>t. sid t = dest) screens of
           None \<Rightarrow> None
         | Some t \<Rightarrow>
             (if edge = Up \<or> edge = Down
              then Some (Link_Line edge (percent lower (sx s) (swidth s)) (percent upper (sx s) (swidth s))
                          (sname t) (percent lower (sx t) (swidth t)) (percent upper (sx t) (swidth t)))
              else Some (Link_Line edge (percent lower (sy s) (sheight s)) (percent upper (sy s) (sheight s))
                          (sname t) (percent lower (sy t) (sheight t)) (percent upper (sy t) (sheight t))))))"

fun all_some :: "'a option list \<Rightarrow> 'a list option" where
  "all_some [] = Some []"
| "all_some (None # xs) = None"
| "all_some (Some x # xs) = map_option (Cons x) (all_some xs)"

definition printScreenLinks ::
    "('m \<Rightarrow> (int \<times> int \<times> int) list) \<Rightarrow> screen list \<Rightarrow> 'm ScreenLinks list \<Rightarrow> nat \<Rightarrow> config_line list option" where
  "printScreenLinks segs screens links i =
     (let s = screens ! i in
      map_option (Cons (Line (''  '' @ sname s @ '':'')))
        (all_some (concat (map (\<lambda>edge. map (print_link edge s screens) (segs ((links ! i) edge)))
                               [Up, Right, Down, Left]))))"

definition screen_lines :: "screen \<Rightarrow> config_line list" where
  "screen_lines s = map Line
     [''  '' @ sname s @ '':'', ''    halfDuplexCapsLock = false'', ''    halfDuplexNumLock = false'',
      ''    halfDuplexScrollLock = false'', ''    xtestIsXineramaUnaware = false'',
      ''    switchCorners = none'', ''    switchCornerSize = 0'']"

definition option_lines :: "config_line list" where
  "option_lines = map Line
     [''section: options'', ''  relativeMouseMoves = false'', ''  screenSaverSync = true'',
      ''  win32KeepForeground = false'', ''  switchCorners = none'', ''  switchCornerSize = 0'', ''end'']"

definition printConfig ::
    "sorter \<Rightarrow> (int \<Rightarrow> int \<Rightarrow> int \<Rightarrow> 'm \<Rightarrow> 'm) \<Rightarrow> 'm \<Rightarrow> ('m \<Rightarrow> (int \<times> int \<times> int) list) \<Rightarrow>
     screen list \<Rightarrow> config_line list option" where
  "printConfig srt set_iv empty_edge segs screens =
     (let links = linkScreens srt set_iv empty_edge screens in
      case all_some (map (printScreenLinks segs screens links) [0..<length screens]) of
        None \<Rightarrow> None
      | Some link_lines \<Rightarrow> Some
          ([Line ''section: screens''] @ concat (map screen_lines screens) @ [Line ''end'', Line ''''] @
           [Line ''section: links''] @ concat link_lines @ [Line ''end'', Line ''''] @ option_lines))"

text \<open>The file is emptied and written; a file that cannot be opened is silently left as it is. A failed
  assertion, \<open>None\<close>, ends the program before the file is closed.\<close>

definition createConfigFile ::
    "sorter \<Rightarrow> (int \<Rightarrow> int \<Rightarrow> int \<Rightarrow> 'm \<Rightarrow> 'm) \<Rightarrow> 'm \<Rightarrow> ('m \<Rightarrow> (int \<times> int \<times> int) list) \<Rightarrow> (string \<Rightarrow> bool) \<Rightarrow>
     string \<Rightarrow> screen list \<Rightarrow> (string \<Rightarrow> config_line list option) \<Rightarrow> (string \<Rightarrow> config_line list option) option" where
  "createConfigFile srt set_iv empty_edge segs opens file screens files =
     map_option (\<lambda>ls. if opens file then files(file \<mapsto> ls) else files)
       (printConfig srt set_iv empty_edge segs screens)"

end
