(* ===== verification/ConfigGen_Props.thy ===== *)
theory ConfigGen_Props
  imports ConfigGen "HOL-Library.Multiset"
begin

text \<open>
  What the generated configuration means: every point of a screen's edge leads to the nearest
  screen that lies across it, and the printed percentages stay on the edges of both screens.
\<close>

section \<open>The geometry of a link\<close>

text \<open>A screen that the removals leave as a target of \<open>s\<close>, its sort key, and its interval.\<close>

fun reaches :: "Direction \<Rightarrow> screen \<Rightarrow> screen \<Rightarrow> bool" where
  "reaches Left s t =
     (sx t < sx s + swidth s \<and> sy s < sy t + sheight t \<and> sy t < sy s + sheight s)"
| "reaches Right s t =
     (sx s < sx t + swidth t \<and> sy s < sy t + sheight t \<and> sy t < sy s + sheight s)"
| "reaches Up s t =
     (sy t < sy s + sheight s \<and> sx s < sx t + swidth t \<and> sx t < sx s + swidth s)"
| "reaches Down s t =
     (sy s < sy t + sheight t \<and> sx s < sx t + swidth t \<and> sx t < sx s + swidth s)"

fun depth :: "Direction \<Rightarrow> screen \<Rightarrow> int" where
  "depth Left t = sx t"
| "depth Right t = - sx t"
| "depth Up t = sy t"
| "depth Down t = - sy t"

fun origin :: "Direction \<Rightarrow> screen \<Rightarrow> int" where
  "origin Left t = sy t"
| "origin Right t = sy t"
| "origin Up t = sx t"
| "origin Down t = sx t"

fun extent :: "Direction \<Rightarrow> screen \<Rightarrow> int" where
  "extent Left t = sheight t"
| "extent Right t = sheight t"
| "extent Up t = swidth t"
| "extent Down t = swidth t"

definition overlap_lo :: "Direction \<Rightarrow> screen \<Rightarrow> screen \<Rightarrow> int" where
  "overlap_lo d s t = max (origin d s) (origin d t)"

definition overlap_hi :: "Direction \<Rightarrow> screen \<Rightarrow> screen \<Rightarrow> int" where
  "overlap_hi d s t = min (origin d s + extent d s) (origin d t + extent d t)"

text \<open>Screen \<open>j\<close> lies across the point \<open>p\<close> of the edge \<open>d\<close> of screen \<open>i\<close>.\<close>

definition faces :: "screen list \<Rightarrow> Direction \<Rightarrow> nat \<Rightarrow> nat \<Rightarrow> int \<Rightarrow> bool" where
  "faces screens d i j p \<longleftrightarrow>
     j < length screens \<and> j \<noteq> i \<and> reaches d (screens ! i) (screens ! j) \<and>
     overlap_lo d (screens ! i) (screens ! j) \<le> p \<and> p \<le> overlap_hi d (screens ! i) (screens ! j)"

section \<open>Every edge is one run of interval assignments\<close>

definition run_sets :: "(int \<Rightarrow> int \<Rightarrow> int \<Rightarrow> 'm \<Rightarrow> 'm) \<Rightarrow> (int \<times> int \<times> int) list \<Rightarrow> 'm \<Rightarrow> 'm" where
  "run_sets set_iv ivs m = fold (\<lambda>(l, u, v). set_iv l u v) ivs m"

definition target_list :: "sorter \<Rightarrow> Direction \<Rightarrow> ScreenLinkMap \<Rightarrow> ScreenLinkMap list \<Rightarrow> ScreenLinkMap list" where
  "target_list srt d source targets =
     srt (\<lambda>t. depth d (snd t)) (filter (\<lambda>t. fst t \<noteq> fst source \<and> reaches d (snd source) (snd t)) targets)"

definition target_iv :: "Direction \<Rightarrow> screen \<Rightarrow> screen \<Rightarrow> int \<times> int \<times> int" where
  "target_iv d s t = (overlap_lo d s t, overlap_hi d s t, sid t)"

lemma fold_run_sets:
  "fold (\<lambda>t. set_iv (overlap_lo d s (snd t)) (overlap_hi d s (snd t)) (sid (snd t))) ts m =
     run_sets set_iv (map (\<lambda>t. target_iv d s (snd t)) ts) m"
  by (simp add: run_sets_def fold_map target_iv_def o_def)

lemma survivors:
  "removeBelow a (removeAbove a (removeRight a (removeSource a ts))) =
     filter (\<lambda>t. fst t \<noteq> fst a \<and> reaches Left (snd a) (snd t)) ts"
  "removeBelow a (removeAbove a (removeLeft a (removeSource a ts))) =
     filter (\<lambda>t. fst t \<noteq> fst a \<and> reaches Right (snd a) (snd t)) ts"
  "removeBelow a (removeRight a (removeLeft a (removeSource a ts))) =
     filter (\<lambda>t. fst t \<noteq> fst a \<and> reaches Up (snd a) (snd t)) ts"
  "removeAbove a (removeRight a (removeLeft a (removeSource a ts))) =
     filter (\<lambda>t. fst t \<noteq> fst a \<and> reaches Down (snd a) (snd t)) ts"
  unfolding removeSource_def removeLeft_def removeRight_def removeAbove_def removeBelow_def
    filter_filter reaches.simps not_le
  by (rule filter_cong[OF refl], blast)+

lemma overlap_simps:
  "y_overlap s t = (overlap_lo Left s t, overlap_hi Left s t)"
  "y_overlap s t = (overlap_lo Right s t, overlap_hi Right s t)"
  "x_overlap s t = (overlap_lo Up s t, overlap_hi Up s t)"
  "x_overlap s t = (overlap_lo Down s t, overlap_hi Down s t)"
  by (simp_all add: y_overlap_def x_overlap_def overlap_lo_def overlap_hi_def)

lemma linkLeft_run:
  "linkLeft srt set_iv a ts edges =
     edges(Left := run_sets set_iv (map (\<lambda>t. target_iv Left (snd a) (snd t)) (target_list srt Left a ts)) (edges Left))"
  unfolding linkLeft_def Let_def survivors overlap_simps(1) prod.case target_list_def depth.simps
    fold_run_sets by (rule refl)

lemma linkRight_run:
  "linkRight srt set_iv a ts edges =
     edges(Right := run_sets set_iv (map (\<lambda>t. target_iv Right (snd a) (snd t)) (target_list srt Right a ts)) (edges Right))"
  unfolding linkRight_def Let_def survivors overlap_simps(2) prod.case target_list_def depth.simps
    fold_run_sets by (rule refl)

lemma linkUp_run:
  "linkUp srt set_iv a ts edges =
     edges(Up := run_sets set_iv (map (\<lambda>t. target_iv Up (snd a) (snd t)) (target_list srt Up a ts)) (edges Up))"
  unfolding linkUp_def Let_def survivors overlap_simps(3) prod.case target_list_def depth.simps
    fold_run_sets by (rule refl)

lemma linkDown_run:
  "linkDown srt set_iv a ts edges =
     edges(Down := run_sets set_iv (map (\<lambda>t. target_iv Down (snd a) (snd t)) (target_list srt Down a ts)) (edges Down))"
  unfolding linkDown_def Let_def survivors overlap_simps(4) prod.case target_list_def depth.simps
    fold_run_sets by (rule refl)

lemma link_all_run:
  "link_all srt set_iv a ts edges d =
     run_sets set_iv (map (\<lambda>t. target_iv d (snd a) (snd t)) (target_list srt d a ts)) (edges d)"
  by (cases d) (simp_all add: link_all_def linkLeft_run linkRight_run linkUp_run linkDown_run)

text \<open>One step per screen, each on the entry of its own position.\<close>

lemma fold_own_position:
  assumes "distinct (map fst ts)" "(i, s) \<in> set ts" "\<forall>t\<in>set ts. fst t < length ls"
  shows "fold (\<lambda>t ls. ls[fst t := f t (ls ! fst t)]) ts ls ! i = f (i, s) (ls ! i)"
proof -
  have keep: "i \<notin> fst ` set ts \<Longrightarrow> fold (\<lambda>t ls. ls[fst t := f t (ls ! fst t)]) ts ls ! i = ls ! i" for ts ls
    by (induction ts arbitrary: ls) auto
  show ?thesis
    using assms
  proof (induction ts arbitrary: ls)
    case (Cons t ts)
    show ?case
    proof (cases "t = (i, s)")
      case True
      with Cons.prems show ?thesis by (simp add: keep)
    next
      case False
      with Cons.prems have m: "(i, s) \<in> set ts" by simp
      then have "i \<in> fst ` set ts" by force
      with Cons.prems have "fst t \<noteq> i" by auto
      with m Cons.prems show ?thesis by (simp add: Cons.IH)
    qed
  qed simp
qed

definition screen_targets :: "screen list \<Rightarrow> ScreenLinkMap list" where
  "screen_targets screens = zip [0..<length screens] screens"

lemma screen_targets_iff: "(j, t) \<in> set (screen_targets screens) \<longleftrightarrow> j < length screens \<and> t = screens ! j"
  by (force simp: screen_targets_def set_zip)

definition edge_ivs :: "sorter \<Rightarrow> screen list \<Rightarrow> nat \<Rightarrow> Direction \<Rightarrow> (int \<times> int \<times> int) list" where
  "edge_ivs srt screens i d =
     map (\<lambda>t. target_iv d (screens ! i) (snd t))
       (target_list srt d (i, screens ! i) (screen_targets screens))"

lemma linkScreens_edge:
  assumes "i < length screens"
  shows "(linkScreens srt set_iv e screens ! i) d = run_sets set_iv (edge_ivs srt screens i d) e"
proof -
  have m: "(i, screens ! i) \<in> set (screen_targets screens)" using assms by (simp add: screen_targets_iff)
  have f: "\<forall>t\<in>set (screen_targets screens). fst t < length (replicate (length screens) (\<lambda>_::Direction. e))"
    by (auto simp: screen_targets_iff)
  have D: "distinct (map fst (screen_targets screens))" by (simp add: screen_targets_def)
  have "linkScreens srt set_iv e screens ! i =
      link_all srt set_iv (i, screens ! i) (screen_targets screens)
        (replicate (length screens) (\<lambda>_. e) ! i)"
    unfolding linkScreens_def Let_def screen_targets_def [symmetric]
    by (rule fold_own_position[OF D m f])
  with assms show ?thesis by (simp add: link_all_run edge_ivs_def)
qed

section \<open>What a run of assignments stores\<close>

text \<open>The documented behaviour of \<open>interval_map\<close>: \<open>set\<close> overwrites the points of its interval; the
  identity element, zero, is absorbed and never stored.\<close>

definition interval_map_laws :: "('m \<Rightarrow> int \<Rightarrow> int option) \<Rightarrow> (int \<Rightarrow> int \<Rightarrow> int \<Rightarrow> 'm \<Rightarrow> 'm) \<Rightarrow> 'm \<Rightarrow> bool" where
  "interval_map_laws lookup set_iv e \<longleftrightarrow>
     (\<forall>p. lookup e p = None) \<and>
     (\<forall>l u v m p. v \<noteq> 0 \<longrightarrow> lookup (set_iv l u v m) p = (if l \<le> p \<and> p \<le> u then Some v else lookup m p))"

text \<open>And of its iteration: as long as no value repeats, a segment is a part of the interval that
  was set with its value, given by its bounds.\<close>

definition segment_law :: "(int \<Rightarrow> int \<Rightarrow> int \<Rightarrow> 'm \<Rightarrow> 'm) \<Rightarrow> 'm \<Rightarrow> ('m \<Rightarrow> (int \<times> int \<times> int) list) \<Rightarrow> bool" where
  "segment_law set_iv e segs \<longleftrightarrow>
     (\<forall>ivs. distinct (map (\<lambda>iv. snd (snd iv)) ivs) \<longrightarrow>
        (\<forall>(a, b, w)\<in>set (segs (run_sets set_iv ivs e)).
           a \<le> b \<and> (\<exists>l u. (l, u, w) \<in> set ivs \<and> l \<le> a \<and> b \<le> u)))"

definition sorter_law :: "sorter \<Rightarrow> bool" where
  "sorter_law srt \<longleftrightarrow> (\<forall>k xs. mset (srt k xs) = mset xs \<and> sorted (map k (srt k xs)))"

definition covers :: "int \<Rightarrow> int \<times> int \<times> int \<Rightarrow> bool" where
  "covers p iv \<longleftrightarrow> fst iv \<le> p \<and> p \<le> fst (snd iv)"

lemma lookup_run_sets:
  assumes "interval_map_laws lookup set_iv e" "\<forall>iv\<in>set ivs. snd (snd iv) \<noteq> 0"
  shows "lookup (run_sets set_iv ivs e) p =
    (case filter (covers p) ivs of [] \<Rightarrow> None | c # cs \<Rightarrow> Some (snd (snd (last (c # cs)))))"
  using assms(2)
proof (induction ivs rule: rev_induct)
  case Nil
  with assms(1) show ?case by (simp add: run_sets_def interval_map_laws_def)
next
  case (snoc iv ivs)
  obtain l u v where iv: "iv = (l, u, v)" using prod_cases3 by blast
  with assms(1) snoc.prems have
    "lookup (run_sets set_iv (ivs @ [iv]) e) p =
      (if covers p iv then Some v else lookup (run_sets set_iv ivs e) p)"
    by (simp add: run_sets_def interval_map_laws_def covers_def)
  with snoc iv show ?case by (auto split: list.splits)
qed

text \<open>The last of a sorted list that satisfies a condition has the greatest key.\<close>

lemma last_of_sorted:
  assumes "sorted (map k xs)" "x \<in> set xs"
  shows "k x \<le> k (last xs)"
proof -
  from assms(2) have ne: "xs \<noteq> []" by auto
  from assms(2) obtain i where i: "i < length xs" "xs ! i = x" by (auto simp: in_set_conv_nth)
  then have "map k xs ! i \<le> map k xs ! (length xs - 1)"
    by (intro sorted_nth_mono[OF assms(1)]) auto
  with i ne show ?thesis by (simp add: last_conv_nth)
qed

lemma target_list_props:
  assumes "sorter_law srt"
  shows "set (target_list srt d a ts) = {t \<in> set ts. fst t \<noteq> fst a \<and> reaches d (snd a) (snd t)}"
    and "sorted (map (\<lambda>t. depth d (snd t)) (target_list srt d a ts))"
proof -
  from assms have m: "mset (srt k xs) = mset xs" and s: "sorted (map k (srt k xs))" for k xs
    by (simp_all add: sorter_law_def)
  from mset_eq_setD[OF m] show "set (target_list srt d a ts) =
      {t \<in> set ts. fst t \<noteq> fst a \<and> reaches d (snd a) (snd t)}"
    by (simp add: target_list_def)
  from s show "sorted (map (\<lambda>t. depth d (snd t)) (target_list srt d a ts))"
    by (simp add: target_list_def)
qed

lemma faces_iff:
  assumes "sorter_law srt"
  shows "faces screens d i j p \<longleftrightarrow>
    (j, screens ! j) \<in> set (target_list srt d (i, screens ! i) (screen_targets screens)) \<and>
    covers p (target_iv d (screens ! i) (screens ! j))"
  by (auto simp: faces_def target_list_props(1)[OF assms] screen_targets_iff covers_def target_iv_def)

definition facing :: "sorter \<Rightarrow> screen list \<Rightarrow> Direction \<Rightarrow> nat \<Rightarrow> int \<Rightarrow> ScreenLinkMap list" where
  "facing srt screens d i p =
     filter (\<lambda>t. covers p (target_iv d (screens ! i) (snd t)))
       (target_list srt d (i, screens ! i) (screen_targets screens))"

lemma facing_props:
  assumes "sorter_law srt"
  shows "t \<in> set (facing srt screens d i p) \<longleftrightarrow> snd t = screens ! fst t \<and> faces screens d i (fst t) p"
    and "sorted (map (\<lambda>t. depth d (snd t)) (facing srt screens d i p))"
proof -
  show "t \<in> set (facing srt screens d i p) \<longleftrightarrow> snd t = screens ! fst t \<and> faces screens d i (fst t) p"
    by (cases t) (auto simp: facing_def faces_iff[OF assms] target_list_props(1)[OF assms] screen_targets_iff)
  show "sorted (map (\<lambda>t. depth d (snd t)) (facing srt screens d i p))"
    unfolding facing_def by (rule sorted_filter) (rule target_list_props(2)[OF assms])
qed

lemma edge_lookup:
  assumes "interval_map_laws lookup set_iv e" "sorter_law srt" "0 \<notin> sid ` set screens" "i < length screens"
  shows "lookup ((linkScreens srt set_iv e screens ! i) d) p =
    (case facing srt screens d i p of [] \<Rightarrow> None | c # cs \<Rightarrow> Some (sid (snd (last (c # cs)))))"
proof -
  have nz: "\<forall>iv\<in>set (edge_ivs srt screens i d). snd (snd iv) \<noteq> 0"
    using assms(3)
    by (auto simp: edge_ivs_def target_iv_def target_list_props(1)[OF assms(2)] screen_targets_iff)
  have "filter (covers p) (edge_ivs srt screens i d) =
      map (\<lambda>t. target_iv d (screens ! i) (snd t)) (facing srt screens d i p)"
    by (simp add: edge_ivs_def facing_def filter_map o_def)
  then show ?thesis
    unfolding linkScreens_edge[OF assms(4)] lookup_run_sets[OF assms(1) nz]
    by (cases "facing srt screens d i p") (simp_all add: last_map target_iv_def)
qed

text \<open>
  C7. Every point of an edge of a screen is linked exactly when some other screen lies across it,
  and then it is linked to the nearest of these: in the order in which the direction sorts the
  screens, none that lies across the point comes after the one it is linked to. A screen is never
  linked to itself.
\<close>

theorem links_go_to_nearest_screen:
  assumes "interval_map_laws lookup set_iv e" "sorter_law srt" "0 \<notin> sid ` set screens" "i < length screens"
  shows "case lookup ((linkScreens srt set_iv e screens ! i) d) p of
      None \<Rightarrow> \<not> (\<exists>j. faces screens d i j p)
    | Some w \<Rightarrow> \<exists>j. j \<noteq> i \<and> sid (screens ! j) = w \<and> faces screens d i j p \<and>
        (\<forall>k. faces screens d i k p \<longrightarrow> depth d (screens ! k) \<le> depth d (screens ! j))"
proof (cases "facing srt screens d i p")
  case Nil
  then have "\<not> faces screens d i j p" for j
    using facing_props(1)[OF assms(2), of "(j, screens ! j)" screens d i p] by simp
  with Nil show ?thesis by (simp add: edge_lookup[OF assms])
next
  case (Cons c cs)
  define t where "t = last (facing srt screens d i p)"
  have t: "t \<in> set (facing srt screens d i p)" unfolding t_def using Cons by (intro last_in_set) simp
  have "depth d (screens ! k) \<le> depth d (snd t)" if "faces screens d i k p" for k
    unfolding t_def
    using last_of_sorted[OF facing_props(2)[OF assms(2)], of "(k, screens ! k)"]
      facing_props(1)[OF assms(2), of "(k, screens ! k)"] that by simp
  moreover have "lookup ((linkScreens srt set_iv e screens ! i) d) p = Some (sid (snd t))"
    unfolding edge_lookup[OF assms] t_def Cons by simp
  moreover have "fst t \<noteq> i" using t by (simp add: facing_props(1)[OF assms(2)] faces_def)
  ultimately show ?thesis using t by (auto simp: facing_props(1)[OF assms(2)] intro!: exI[of _ "fst t"])
qed

definition fun_set :: "int \<Rightarrow> int \<Rightarrow> int \<Rightarrow> (int \<Rightarrow> int option) \<Rightarrow> int \<Rightarrow> int option" where
  "fun_set l u v m p = (if l \<le> p \<and> p \<le> u then Some v else m p)"

definition three_screens :: "screen list" where
  "three_screens =
     [(new_screen 1)\<lparr>swidth := 86, sheight := 58\<rparr>,
      (new_screen 2)\<lparr>sx := 86, sy := 20, swidth := 86, sheight := 58\<rparr>,
      (new_screen 3)\<lparr>sx := 172, swidth := 86, sheight := 58\<rparr>]"

lemma sort_key_sorter: "sorter_law sort_key"
  by (simp add: sorter_law_def)

theorem links_go_to_nearest_screen_witness:
  "(linkScreens sort_key fun_set (\<lambda>_. None) three_screens ! 0) Right 10 = Some 3 \<and>
   (linkScreens sort_key fun_set (\<lambda>_. None) three_screens ! 0) Right 40 = Some 2 \<and>
   (case (linkScreens sort_key fun_set (\<lambda>_. None) three_screens ! 0) Right 10 of
      None \<Rightarrow> \<not> (\<exists>j. faces three_screens Right 0 j 10)
    | Some w \<Rightarrow> \<exists>j. j \<noteq> 0 \<and> sid (three_screens ! j) = w \<and> faces three_screens Right 0 j 10 \<and>
        (\<forall>k. faces three_screens Right 0 k 10 \<longrightarrow> depth Right (three_screens ! k) \<le> depth Right (three_screens ! j)))"
  using links_go_to_nearest_screen[of "\<lambda>m. m" fun_set "\<lambda>_. None" sort_key three_screens 0 Right 10]
  by (simp add: sort_key_sorter interval_map_laws_def fun_set_def three_screens_def new_screen_def
      linkScreens_def link_all_def linkRight_run linkLeft_run linkUp_run linkDown_run target_list_def
      run_sets_def target_iv_def overlap_lo_def overlap_hi_def)

section \<open>The printed links\<close>

lemma percent_range:
  assumes "0 < e" "org \<le> a" "a \<le> b" "b \<le> org + e"
  shows "0 \<le> percent a org e" "percent a org e \<le> percent b org e" "percent b org e \<le> 100"
proof -
  from assms have e: "(0::rat) < of_int e" by simp
  from assms have ab: "(0::rat) \<le> of_int (a - org)" "(of_int (a - org)::rat) \<le> of_int (b - org)"
      "(of_int (b - org)::rat) \<le> of_int e"
    by (simp_all only: of_int_le_iff of_int_0_le_iff)
  from e ab show "0 \<le> percent a org e" by (simp only: percent_def) simp
  from e ab show "percent a org e \<le> percent b org e"
    by (simp only: percent_def) (simp add: divide_right_mono)
  from e ab show "percent b org e \<le> 100"
    by (simp only: percent_def) (simp add: pos_divide_le_eq)
qed

fun line_ok :: "screen list \<Rightarrow> config_line \<Rightarrow> bool" where
  "line_ok screens (Line _) = True"
| "line_ok screens (Link_Line d a b n a' b') \<longleftrightarrow>
     0 \<le> a \<and> a \<le> b \<and> b \<le> 100 \<and> 0 \<le> a' \<and> a' \<le> b' \<and> b' \<le> 100 \<and> n \<in> sname ` set screens"

text \<open>The two branches of the printing loop read the same origin and extent.\<close>

lemma print_link_geometry:
  assumes "find (\<lambda>t. sid t = w) screens = Some t"
  shows "print_link d s screens (a, b, w) =
    Some (Link_Line d (percent a (origin d s) (extent d s)) (percent b (origin d s) (extent d s)) (sname t)
           (percent a (origin d t) (extent d t)) (percent b (origin d t) (extent d t)))"
  using assms by (cases d) (simp_all add: print_link_def)

lemma find_by_id:
  assumes "distinct (map sid screens)" "t \<in> set screens"
  shows "find (\<lambda>u. sid u = sid t) screens = Some t"
  using assms by (induction screens) (auto simp: image_iff)

lemma edge_ivs_distinct:
  assumes "sorter_law srt" "distinct (map sid screens)"
  shows "distinct (map (\<lambda>iv. snd (snd iv)) (edge_ivs srt screens i d))"
proof -
  let ?f = "\<lambda>t. sid (snd t)"
  let ?xs = "filter (\<lambda>t. fst t \<noteq> i \<and> reaches d (screens ! i) (snd t)) (screen_targets screens)"
  have "map ?f (screen_targets screens) = map sid (map snd (screen_targets screens))" by simp
  also have "\<dots> = map sid screens" by (simp add: screen_targets_def del: map_map)
  finally have "distinct (map ?f ?xs)" using assms(2) by (simp add: distinct_map_filter)
  moreover have "mset (map ?f (srt (\<lambda>t. depth d (snd t)) ?xs)) = mset (map ?f ?xs)"
    using assms(1) by (simp add: sorter_law_def)
  ultimately have "distinct (map ?f (srt (\<lambda>t. depth d (snd t)) ?xs))"
    using mset_eq_imp_distinct_iff by blast
  then show ?thesis by (simp add: edge_ivs_def target_iv_def target_list_def o_def)
qed

lemma all_some_ok:
  "\<forall>x\<in>set xs. \<exists>y. x = Some y \<and> P y \<Longrightarrow> \<exists>ys. all_some xs = Some ys \<and> (\<forall>y\<in>set ys. P y)"
  by (induction xs) auto

lemma print_edge_ok:
  assumes "segment_law set_iv e segs" "sorter_law srt" "distinct (map sid screens)"
    and pos: "\<forall>s\<in>set screens. 0 < swidth s \<and> 0 < sheight s"
    and i: "i < length screens" and iv: "iv \<in> set (segs ((linkScreens srt set_iv e screens ! i) d))"
  shows "\<exists>line. print_link d (screens ! i) screens iv = Some line \<and> line_ok screens line"
proof -
  obtain a b w where abw: "iv = (a, b, w)" using prod_cases3 by blast
  with iv have "(a, b, w) \<in> set (segs (run_sets set_iv (edge_ivs srt screens i d) e))"
    by (simp add: linkScreens_edge[OF i])
  with assms(1) edge_ivs_distinct[OF assms(2,3), of i d] obtain l u where
    ab: "a \<le> b" "(l, u, w) \<in> set (edge_ivs srt screens i d)" "l \<le> a" "b \<le> u"
    unfolding segment_law_def by blast
  then obtain t where t: "t \<in> set screens" "(l, u, w) = target_iv d (screens ! i) t"
    by (auto simp: edge_ivs_def target_list_props(1)[OF assms(2)] screen_targets_iff) (metis nth_mem)
  have s: "screens ! i \<in> set screens" using i by simp
  have ext: "0 < extent d r" if "r \<in> set screens" for r
    using pos that by (cases d) auto
  from t ab have bounds: "origin d (screens ! i) \<le> a" "b \<le> origin d (screens ! i) + extent d (screens ! i)"
      "origin d t \<le> a" "b \<le> origin d t + extent d t"
    by (auto simp: target_iv_def overlap_lo_def overlap_hi_def)
  from t have w: "w = sid t" by (simp add: target_iv_def)
  show ?thesis
    unfolding abw w print_link_geometry[OF find_by_id[OF assms(3) t(1)]]
    using percent_range[OF ext[OF s] bounds(1) ab(1) bounds(2)] percent_range[OF ext[OF t(1)] bounds(3) ab(1) bounds(4)] t(1)
    by simp
qed

lemma print_screen_ok:
  assumes "segment_law set_iv e segs" "sorter_law srt" "distinct (map sid screens)"
    "\<forall>s\<in>set screens. 0 < swidth s \<and> 0 < sheight s" "i < length screens"
  shows "\<exists>ls. printScreenLinks segs screens (linkScreens srt set_iv e screens) i = Some ls \<and>
    (\<forall>l\<in>set ls. line_ok screens l)"
proof -
  let ?ls = "concat (map (\<lambda>edge. map (print_link edge (screens ! i) screens)
      (segs ((linkScreens srt set_iv e screens ! i) edge))) [Up, Right, Down, Left])"
  have "\<forall>x\<in>set ?ls. \<exists>y. x = Some y \<and> line_ok screens y"
    using print_edge_ok[OF assms] by fastforce
  from all_some_ok[OF this] obtain ys where "all_some ?ls = Some ys" "\<forall>y\<in>set ys. line_ok screens y" by blast
  then show ?thesis by (simp only: printScreenLinks_def Let_def) simp
qed

text \<open>
  Printing the configuration never fails on a link to an unknown screen, and each printed link
  names a screen of the list and gives, for the source as for the target, an interval of
  percentages that lies within 0 to 100 with its ends in order.
\<close>

theorem printed_links_stay_on_edges:
  assumes "segment_law set_iv e segs" "sorter_law srt" "distinct (map sid screens)"
    "\<forall>s\<in>set screens. 0 < swidth s \<and> 0 < sheight s"
  shows "\<exists>ls. printConfig srt set_iv e segs screens = Some ls \<and> (\<forall>l\<in>set ls. line_ok screens l)"
proof -
  let ?links = "linkScreens srt set_iv e screens"
  have "\<forall>x\<in>set (map (printScreenLinks segs screens ?links) [0..<length screens]).
      \<exists>ls. x = Some ls \<and> (\<forall>l\<in>set ls. line_ok screens l)"
    using print_screen_ok[OF assms] by auto
  from all_some_ok[OF this] obtain lss where
    "all_some (map (printScreenLinks segs screens ?links) [0..<length screens]) = Some lss"
    "\<forall>ls\<in>set lss. \<forall>l\<in>set ls. line_ok screens l" by blast
  then show ?thesis
    by (auto simp: printConfig_def screen_lines_def option_lines_def)
qed

definition list_set :: "int \<Rightarrow> int \<Rightarrow> int \<Rightarrow> (int \<times> int \<times> int) list \<Rightarrow> (int \<times> int \<times> int) list" where
  "list_set l u v m = (if l \<le> u then m @ [(l, u, v)] else m)"

lemma list_set_law: "segment_law list_set [] (\<lambda>m. m)"
proof -
  have "iv \<in> set (run_sets list_set ivs m) \<Longrightarrow>
      iv \<in> set m \<or> (iv \<in> set ivs \<and> fst iv \<le> fst (snd iv))" for iv ivs m
    by (induction ivs arbitrary: m) (fastforce simp: run_sets_def list_set_def split: if_splits)+
  then show ?thesis unfolding segment_law_def by fastforce
qed

theorem printed_links_stay_on_edges_witness:
  "\<exists>ls. printConfig sort_key list_set [] (\<lambda>m. m) three_screens = Some ls \<and> (\<forall>l\<in>set ls. line_ok three_screens l)"
  by (rule printed_links_stay_on_edges[OF list_set_law sort_key_sorter])
    (simp_all add: three_screens_def new_screen_def)

end
