(* ===== verification/Profile.thy ===== *)
theory Profile
  imports ConfigGen
begin

text \<open>
  A profile and its screens (\<open>common/Profile.h\<close>, \<open>common/ProfileConfig.cpp\<close>). The signals that
  \<open>compare\<close> raises are the events it returns, in the order in which it raises them. What the
  comparison promises: it reports a difference exactly when one can be seen, the events account
  for every change of the screens that are online, and applying a profile settles.
\<close>

section \<open>Data\<close>

record profile =
  profile_id :: int
  profile_version :: int
  profile_server :: int
  profile_name :: string

record profile_config =
  profile_of :: profile
  screens_of :: "screen list"

definition init_profile :: profile where
  "init_profile = \<lparr>profile_id = -1, profile_version = -1, profile_server = -1, profile_name = ''''\<rparr>"

definition init_profile_config :: profile_config where
  "init_profile_config = \<lparr>profile_of = init_profile, screens_of = []\<rparr>"

record profile_snapshot =
  ps_id :: int
  ps_name :: string
  ps_server :: int
  ps_configVersion :: int

record profile_config_snapshot =
  pcs_profile :: profile_snapshot
  pcs_screens :: "screen_snapshot list"

text \<open>The part after the JSON text has been read; a status that is no status ends the program.\<close>

definition from_snapshot :: "profile_config_snapshot \<Rightarrow> profile_config option" where
  "from_snapshot snap =
     (let p = pcs_profile snap in
      map_option
        (\<lambda>ss. \<lparr>profile_of = \<lparr>profile_id = ps_id p, profile_version = ps_configVersion p,
                             profile_server = ps_server p, profile_name = ps_name p\<rparr>,
               screens_of = ss\<rparr>)
        (all_some (map (\<lambda>ss. apply_snapshot ss (new_screen 0)) (pcs_screens snap))))"

section \<open>Comparing\<close>

datatype profile_event =
    ProfileIdChanged int
  | ProfileNameChanged string
  | ProfileServerChanged int
  | ScreenNameChanged int
  | ScreenOnline screen
  | ScreenOffline screen
  | ScreenIPSetChanged screen
  | ScreenPositionChanged int
  | ScreenStatusChanged int
  | ScreenSetChanged "screen list" "screen list"

definition header_events :: "profile \<Rightarrow> profile \<Rightarrow> profile_event list" where
  "header_events p t =
     (if profile_id t \<noteq> profile_id p then [ProfileIdChanged (profile_id t)] else []) @
     (if profile_name t \<noteq> profile_name p then [ProfileNameChanged (profile_name t)] else []) @
     (if profile_server t \<noteq> profile_server p then [ProfileServerChanged (profile_server t)] else [])"

definition screen_events :: "screen \<Rightarrow> screen \<Rightarrow> profile_event list" where
  "screen_events s t =
     (if sname s \<noteq> sname t then [ScreenNameChanged (sid t)] else []) @
     (if sactive s \<noteq> sactive t then [if sactive t then ScreenOnline t else ScreenOffline t] else []) @
     (if sip_list s \<noteq> sip_list t then [ScreenIPSetChanged t] else []) @
     (if sx s \<noteq> sx t \<or> sy s \<noteq> sy t then [ScreenPositionChanged (sid t)] else []) @
     (if sstatus s \<noteq> sstatus t then [ScreenStatusChanged (sid t)] else [])"

text \<open>The inner loop: every screen of this profile with the identifier of the target screen.\<close>

definition match_events :: "screen list \<Rightarrow> screen \<Rightarrow> profile_event list" where
  "match_events ss t = concat (map (\<lambda>s. if sid s = sid t then screen_events s t else []) ss)"

definition screens_without :: "screen list \<Rightarrow> screen list \<Rightarrow> screen list" where
  "screens_without ts ss = filter (\<lambda>t. \<not> list_ex (\<lambda>s. sid s = sid t) ss) ts"

definition set_events :: "screen list \<Rightarrow> screen list \<Rightarrow> profile_event list" where
  "set_events added removed =
     (if added \<noteq> [] \<or> removed \<noteq> []
      then ScreenSetChanged added removed # map ScreenOnline (filter sactive added)
      else [])"

text \<open>Each branch of the code that raises a signal, and no other, sets the result.\<close>

definition compare :: "profile_config \<Rightarrow> profile_config \<Rightarrow> bool \<times> profile_event list" where
  "compare this target =
     (if profile_version (profile_of target) < profile_version (profile_of this) then (False, [])
      else
        (let evs = header_events (profile_of this) (profile_of target) @
                   concat (map (match_events (screens_of this)) (screens_of target)) @
                   set_events (screens_without (screens_of target) (screens_of this))
                              (screens_without (screens_of this) (screens_of target))
         in (evs \<noteq> [], evs)))"

definition apply_config :: "profile_config \<Rightarrow> profile_config \<Rightarrow> profile_config \<times> profile_event list" where
  "apply_config src this =
     (let (different, evs) = compare this src in (if different then src else this, evs))"

definition clear_config :: "profile_config \<Rightarrow> profile_config" where
  "clear_config this = this\<lparr>profile_of := init_profile, screens_of := []\<rparr>"

text \<open>\<open>getScreen\<close> throws when there is no such screen; it returns a reference, so writing through it
  changes the first screen with the identifier.\<close>

definition getScreen :: "int \<Rightarrow> profile_config \<Rightarrow> string + screen" where
  "getScreen i this =
     (case find (\<lambda>s. sid s = i) (screens_of this) of
        None \<Rightarrow> Inl ''Can't find screen''
      | Some s \<Rightarrow> Inr s)"

fun update_first :: "('a \<Rightarrow> bool) \<Rightarrow> ('a \<Rightarrow> 'a) \<Rightarrow> 'a list \<Rightarrow> 'a list" where
  "update_first P f [] = []"
| "update_first P f (x # xs) = (if P x then f x # xs else x # update_first P f xs)"

definition updateScreen :: "int \<Rightarrow> (screen \<Rightarrow> screen) \<Rightarrow> profile_config \<Rightarrow> profile_config" where
  "updateScreen i f this = this\<lparr>screens_of := update_first (\<lambda>s. sid s = i) f (screens_of this)\<rparr>"

definition claimServer :: "int \<Rightarrow> profile_config \<Rightarrow> profile_config" where
  "claimServer serverId this = this\<lparr>profile_of := (profile_of this)\<lparr>profile_server := serverId\<rparr>\<rparr>"

section \<open>Facts about the comparison\<close>

lemma screen_events_Nil:
  "screen_events s t = [] \<longleftrightarrow>
     sname s = sname t \<and> sactive s = sactive t \<and> sip_list s = sip_list t \<and> sx s = sx t \<and> sy s = sy t \<and>
     sstatus s = sstatus t"
  by (auto simp: screen_events_def)

lemma screens_without_Nil: "screens_without ts ss = [] \<longleftrightarrow> sid ` set ts \<subseteq> sid ` set ss"
proof -
  have "screens_without ts ss = [] \<longleftrightarrow> (\<forall>t\<in>set ts. \<exists>s\<in>set ss. sid s = sid t)"
    by (simp add: screens_without_def filter_empty_conv list_ex_iff)
  also have "\<dots> \<longleftrightarrow> sid ` set ts \<subseteq> sid ` set ss"
    by (simp add: image_subset_iff image_iff eq_commute)
  finally show ?thesis .
qed

lemma set_events_Nil: "set_events a r = [] \<longleftrightarrow> a = [] \<and> r = []"
  by (simp add: set_events_def)

lemma match_events_distinct:
  assumes "distinct (map sid ss)"
  shows "match_events ss t =
    (case find (\<lambda>s. sid s = sid t) ss of None \<Rightarrow> [] | Some s \<Rightarrow> screen_events s t)"
  using assms
proof (induction ss)
  case (Cons s ss)
  have other: "match_events ss t = []" if "sid s = sid t"
    using Cons.prems that by (auto simp: match_events_def image_iff)
  have "match_events (s # ss) t = (if sid s = sid t then screen_events s t else []) @ match_events ss t"
    by (simp add: match_events_def)
  with Cons other show ?case by simp
qed (simp add: match_events_def)

lemma find_sid_self:
  assumes "distinct (map sid ss)" "s \<in> set ss"
  shows "find (\<lambda>u. sid u = sid s) ss = Some s"
  using assms by (induction ss) (auto simp: image_iff)

lemma compare_self:
  assumes "distinct (map sid (screens_of c))"
  shows "compare c c = (False, [])"
proof -
  have "match_events (screens_of c) s = []" if "s \<in> set (screens_of c)" for s
    by (simp add: match_events_distinct[OF assms] find_sid_self[OF assms that] screen_events_def)
  moreover have "screens_without (screens_of c) (screens_of c) = []"
    by (simp add: screens_without_Nil)
  ultimately show ?thesis by (simp add: compare_def header_events_def set_events_def)
qed

text \<open>
  Applying a profile settles: whatever the profile before, applying the same source a second
  time raises no signal and changes nothing, and the version never decreases.
\<close>

theorem apply_settles:
  assumes "distinct (map sid (screens_of src))" "apply_config src c = (c', evs)"
  shows "apply_config src c' = (c', []) \<and> profile_version (profile_of c) \<le> profile_version (profile_of c')"
proof
  show "apply_config src c' = (c', [])"
  proof (cases "fst (compare c src)")
    case True
    with assms(2) have "c' = src" by (simp add: apply_config_def split: prod.splits)
    then show ?thesis by (simp add: apply_config_def compare_self[OF assms(1)])
  next
    case False
    then have "compare c src = (False, [])" by (auto simp: compare_def Let_def split: if_splits)
    with assms(2) show ?thesis by (simp add: apply_config_def)
  qed
  show "profile_version (profile_of c) \<le> profile_version (profile_of c')"
    using assms(2) by (auto simp: apply_config_def compare_def Let_def split: if_splits)
qed

definition demo_profile :: "profile_config" where
  "demo_profile =
     \<lparr>profile_of = \<lparr>profile_id = 7, profile_version = 3, profile_server = 1, profile_name = ''home''\<rparr>,
      screens_of = [(new_screen 1)\<lparr>sname := ''desk'', sactive := True\<rparr>, (new_screen 2)\<lparr>sname := ''lap''\<rparr>]\<rparr>"

definition demo_profile' :: "profile_config" where
  "demo_profile' =
     \<lparr>profile_of = \<lparr>profile_id = 7, profile_version = 4, profile_server = 2, profile_name = ''home''\<rparr>,
      screens_of = [(new_screen 2)\<lparr>sname := ''lap'', sactive := True\<rparr>, (new_screen 3)\<lparr>sactive := True\<rparr>]\<rparr>"

lemmas demo_profile_defs = demo_profile_def demo_profile'_def new_screen_def

lemma demo_compare:
  "compare demo_profile demo_profile' =
     (True, [ProfileServerChanged 2, ScreenOnline (screens_of demo_profile' ! 0),
        ScreenSetChanged [screens_of demo_profile' ! 1] [screens_of demo_profile ! 0],
        ScreenOnline (screens_of demo_profile' ! 1)])"
  by (simp add: demo_profile_defs compare_def header_events_def match_events_def screen_events_def
      screens_without_def set_events_def)

theorem apply_settles_witness:
  "apply_config demo_profile' demo_profile' = (demo_profile', []) \<and>
   profile_version (profile_of demo_profile) \<le> profile_version (profile_of demo_profile')"
  by (rule apply_settles[of demo_profile' demo_profile demo_profile' "snd (compare demo_profile demo_profile')"])
    (simp_all add: apply_config_def demo_compare, simp add: demo_profile_defs)

section \<open>What a comparison reports\<close>

text \<open>The part of a screen that is compared.\<close>

definition screen_view :: "screen \<Rightarrow> int \<times> string \<times> bool \<times> string \<times> int \<times> int \<times> screen_status" where
  "screen_view s = (sid s, sname s, sactive s, sip_list s, sx s, sy s, sstatus s)"

lemma screen_view_eq: "screen_view s = screen_view t \<longleftrightarrow> sid s = sid t \<and> screen_events s t = []"
  by (auto simp: screen_view_def screen_events_Nil)

lemma match_events_Nil:
  assumes "distinct (map sid ss)" "sid t \<in> sid ` set ss"
  shows "match_events ss t = [] \<longleftrightarrow> screen_view t \<in> screen_view ` set ss"
proof -
  from assms(2) obtain s where s: "s \<in> set ss" "sid s = sid t" by auto
  have u: "u = s" if "u \<in> set ss" "sid u = sid t" for u
    using assms(1) s that by (metis find_sid_self option.inject)
  have "match_events ss t = screen_events s t"
    using match_events_distinct[OF assms(1)] find_sid_self[OF assms(1) s(1)] s(2) by simp
  then show ?thesis
    using s u screen_view_eq by (metis (mono_tags, lifting) image_iff)
qed

text \<open>
  C27. A comparison with a profile that is not older reports no difference exactly when the two
  profiles agree: the same identifier, name and server, and the same screens with the same name,
  activity, addresses, position and status, in whatever order. With an older profile it reports
  none.
\<close>

theorem compare_reports_differences:
  assumes "distinct (map sid (screens_of c))" "distinct (map sid (screens_of t))"
  shows "fst (compare c t) \<longleftrightarrow>
    profile_version (profile_of c) \<le> profile_version (profile_of t) \<and>
    \<not> (profile_id (profile_of c) = profile_id (profile_of t) \<and>
       profile_name (profile_of c) = profile_name (profile_of t) \<and>
       profile_server (profile_of c) = profile_server (profile_of t) \<and>
       screen_view ` set (screens_of c) = screen_view ` set (screens_of t))"
proof -
  let ?c = "screens_of c" and ?t = "screens_of t"
  have sid_view: "sid ` set ss = fst ` screen_view ` set ss" for ss
    by (auto simp: screen_view_def image_iff)
  have "(\<forall>u\<in>set ?t. match_events ?c u = []) \<and> sid ` set ?t = sid ` set ?c \<longleftrightarrow>
      screen_view ` set ?c = screen_view ` set ?t" (is "?L \<longleftrightarrow> ?R")
  proof
    assume L: ?L
    then have "screen_view ` set ?t \<subseteq> screen_view ` set ?c"
      using match_events_Nil[OF assms(1)] by blast
    moreover have "screen_view s \<in> screen_view ` set ?t" if s: "s \<in> set ?c" for s
    proof -
      from L s obtain u where u: "u \<in> set ?t" "sid u = sid s" by (metis (no_types, lifting) image_iff)
      with L have "screen_events s u = []"
        using match_events_distinct[OF assms(1), of u] find_sid_self[OF assms(1) s] by simp
      with u screen_view_eq[of s u] show ?thesis by simp
    qed
    ultimately show ?R by blast
  next
    assume R: ?R
    then have ids: "sid ` set ?t = sid ` set ?c" by (simp add: sid_view)
    with R match_events_Nil[OF assms(1)] show ?L by blast
  qed
  then show ?thesis
    by (auto simp: compare_def Let_def header_events_def set_events_Nil screens_without_Nil)
qed

theorem compare_reports_differences_witness: "fst (compare demo_profile demo_profile')"
  using compare_reports_differences[of demo_profile demo_profile'] by (simp add: demo_profile_defs)

section \<open>Following the screens that are online\<close>

definition active_ids :: "profile_config \<Rightarrow> int set" where
  "active_ids c = sid ` set (filter sactive (screens_of c))"

text \<open>An observer that keeps the set of the screens that are online.\<close>

fun track_event :: "profile_event \<Rightarrow> int set \<Rightarrow> int set" where
  "track_event (ScreenOnline s) A = insert (sid s) A"
| "track_event (ScreenOffline s) A = A - {sid s}"
| "track_event (ScreenSetChanged added removed) A = A - sid ` set removed"
| "track_event _ A = A"

lemma track_header: "fold track_event (header_events p q) A = A"
  by (simp add: header_events_def)

lemma track_screen:
  "fold track_event (screen_events s t) A =
    (if sactive s = sactive t then A else if sactive t then insert (sid t) A else A - {sid t})"
  by (simp add: screen_events_def)

lemma track_match_other:
  "i \<noteq> sid t \<Longrightarrow> distinct (map sid ss) \<Longrightarrow> i \<in> fold track_event (match_events ss t) A \<longleftrightarrow> i \<in> A"
  by (simp add: match_events_distinct track_screen split: option.splits)

lemma track_matches:
  assumes "distinct (map sid ss)" "distinct (map sid ts)"
  shows "i \<in> fold track_event (concat (map (match_events ss) ts)) A \<longleftrightarrow>
    (case find (\<lambda>t. sid t = i) ts of
       None \<Rightarrow> i \<in> A
     | Some t \<Rightarrow> i \<in> fold track_event (match_events ss t) A)"
  using assms(2)
proof (induction ts arbitrary: A)
  case (Cons t ts)
  show ?case
  proof (cases "sid t = i")
    case True
    with Cons.prems have "find (\<lambda>t. sid t = i) ts = None" by (auto simp: find_None_iff image_iff)
    with Cons True show ?thesis by simp
  next
    case False
    then have "i \<in> fold track_event (match_events ss u) (fold track_event (match_events ss t) A) \<longleftrightarrow>
        i \<in> fold track_event (match_events ss u) A" if "sid u = i" for u
      using that track_match_other[of i t ss] assms(1)
      by (simp add: match_events_distinct track_screen split: option.splits)
    with Cons False track_match_other[of i t ss] assms(1) show ?thesis
      by (auto split: option.splits dest: find_SomeD)
  qed
qed simp

lemma track_online: "fold track_event (map ScreenOnline ss) A = A \<union> sid ` set ss"
  by (induction ss arbitrary: A) auto

lemma track_set_events:
  "fold track_event (set_events a r) A = (A - sid ` set r) \<union> sid ` set (filter sactive a)"
  by (simp add: set_events_def track_online)

lemma in_sids:
  assumes "distinct (map sid ss)"
  shows "i \<in> sid ` {s \<in> set ss. P s} \<longleftrightarrow> (case find (\<lambda>s. sid s = i) ss of None \<Rightarrow> False | Some s \<Rightarrow> P s)"
proof (cases "find (\<lambda>s. sid s = i) ss")
  case None
  then have "i \<notin> sid ` {s \<in> set ss. P s}" by (auto simp: find_None_iff)
  with None show ?thesis by simp
next
  case (Some s)
  then have s: "s \<in> set ss" "sid s = i" by (auto dest: find_SomeD)
  have "u = s" if "u \<in> set ss" "sid u = i" for u
    using find_sid_self[OF assms that(1)] that(2) Some by simp
  then have "i \<in> sid ` {s \<in> set ss. P s} \<longleftrightarrow> P s" using s by blast
  with Some show ?thesis by simp
qed

lemma in_screens_without:
  "t \<in> set (screens_without ts ss) \<longleftrightarrow> t \<in> set ts \<and> find (\<lambda>s. sid s = sid t) ss = None"
  by (auto simp: screens_without_def list_ex_iff find_None_iff)

lemma in_sids_without:
  assumes "distinct (map sid ts)"
  shows "i \<in> sid ` {t \<in> set (screens_without ts ss). P t} \<longleftrightarrow>
    (case find (\<lambda>t. sid t = i) ts of None \<Rightarrow> False | Some t \<Rightarrow> P t \<and> find (\<lambda>s. sid s = i) ss = None)"
proof -
  have "{t \<in> set (screens_without ts ss). P t} =
      {t \<in> set ts. P t \<and> find (\<lambda>s. sid s = sid t) ss = None}"
    by (auto simp: in_screens_without)
  then show ?thesis
    using in_sids[OF assms, of i "\<lambda>t. P t \<and> find (\<lambda>s. sid s = sid t) ss = None"]
    by (auto split: option.splits dest: find_SomeD)
qed

text \<open>
  C25. The signals of a comparison are a complete account of which screens are online: an observer
  that adds a screen on \<open>screenOnline\<close> and drops it on \<open>screenOffline\<close>, or when the set of screens
  changes without it, ends with exactly the active screens of the new profile.
\<close>

theorem events_track_active_screens:
  assumes "distinct (map sid (screens_of c))" "distinct (map sid (screens_of t))"
    "profile_version (profile_of c) \<le> profile_version (profile_of t)"
  shows "fold track_event (snd (compare c t)) (active_ids c) = active_ids t"
proof (rule set_eqI)
  fix i
  let ?c = "screens_of c" and ?t = "screens_of t"
  let ?A = "fold track_event (concat (map (match_events ?c) ?t)) (active_ids c)"
  have act: "i \<in> active_ids p \<longleftrightarrow> (case find (\<lambda>s. sid s = i) (screens_of p) of None \<Rightarrow> False | Some s \<Rightarrow> sactive s)"
    if "distinct (map sid (screens_of p))" for p
    using in_sids[OF that, of i sactive] by (simp add: active_ids_def)
  have removed: "i \<in> sid ` set (screens_without ?c ?t) \<longleftrightarrow>
      (case find (\<lambda>s. sid s = i) ?c of None \<Rightarrow> False | Some s \<Rightarrow> find (\<lambda>u. sid u = i) ?t = None)"
    using in_sids_without[OF assms(1), of i ?t "\<lambda>_. True"] by (auto split: option.splits)
  have added: "i \<in> sid ` set (filter sactive (screens_without ?t ?c)) \<longleftrightarrow>
      (case find (\<lambda>u. sid u = i) ?t of None \<Rightarrow> False | Some u \<Rightarrow> sactive u \<and> find (\<lambda>s. sid s = i) ?c = None)"
    using in_sids_without[OF assms(2), of i ?c sactive] by simp
  have evs: "snd (compare c t) = header_events (profile_of c) (profile_of t) @
      concat (map (match_events ?c) ?t) @ set_events (screens_without ?t ?c) (screens_without ?c ?t)"
    using assms(3) by (simp add: compare_def Let_def)
  have "i \<in> fold track_event (snd (compare c t)) (active_ids c) \<longleftrightarrow>
      (i \<in> ?A \<and> i \<notin> sid ` set (screens_without ?c ?t)) \<or> i \<in> sid ` set (filter sactive (screens_without ?t ?c))"
    by (simp only: evs fold_append o_apply track_header track_set_events Un_iff Diff_iff)
  also have "\<dots> \<longleftrightarrow> i \<in> active_ids t"
    unfolding removed added track_matches[OF assms(1,2)] act[OF assms(1)] act[OF assms(2)]
    by (auto simp: match_events_distinct[OF assms(1)] track_screen act[OF assms(1)]
        split: option.splits dest: find_SomeD)
  finally show "i \<in> fold track_event (snd (compare c t)) (active_ids c) \<longleftrightarrow> i \<in> active_ids t" .
qed

theorem events_track_active_screens_witness:
  "fold track_event (snd (compare demo_profile demo_profile')) {1} = {2, 3}"
  using events_track_active_screens[of demo_profile demo_profile']
  by (simp add: active_ids_def demo_profile_defs)

end
