(* ===== verification/UserConfig.thy ===== *)
theory UserConfig
  imports Prelude Complex_Main
begin

text \<open>
  The settings of the user (\<open>common/UserConfig.cpp\<close>), their reading through \<open>common/ConfigParser.cpp\<close>,
  and the command lines of the core processes (\<open>common/ProcessCommand.cpp\<close>). The TOML library is
  third-party code: a document is a map from sections to keys and values, and the printer and the
  parser are parameters.
\<close>

section \<open>Documents\<close>

text \<open>\<open>TOther\<close> is a value of a type that the variant does not hold; a key may also be a table or an
  array, which is no value.\<close>

datatype toml_value = TString string | TInt int | TDouble rat | TBool bool | TOther | TNoValue

type_synonym toml_table = "string \<Rightarrow> toml_value option"

type_synonym toml = "string \<Rightarrow> toml_table option"

datatype config_error = ParseError | ValueMissing | NoConfigValue | BadGet

definition get_section :: "string \<Rightarrow> toml \<Rightarrow> toml_table option" where
  "get_section key doc = doc key"

definition get_value_ptr :: "string \<Rightarrow> toml_table \<Rightarrow> toml_value option" where
  "get_value_ptr key t =
     (case t key of None \<Rightarrow> None | Some TNoValue \<Rightarrow> None | Some v \<Rightarrow> Some v)"

definition get_value_of :: "toml_value option \<Rightarrow> config_error + toml_value" where
  "get_value_of p =
     (case p of
        None \<Rightarrow> Inl ValueMissing
      | Some TOther \<Rightarrow> Inl NoConfigValue
      | Some v \<Rightarrow> Inr v)"

text \<open>\<open>boost::get\<close> on the variant, by type.\<close>

fun as_int :: "toml_value \<Rightarrow> config_error + int" where
  "as_int (TInt i) = Inr i"
| "as_int _ = Inl BadGet"

fun as_string :: "toml_value \<Rightarrow> config_error + string" where
  "as_string (TString s) = Inr s"
| "as_string _ = Inl BadGet"

fun as_bool :: "toml_value \<Rightarrow> config_error + bool" where
  "as_bool (TBool b) = Inr b"
| "as_bool _ = Inl BadGet"

definition get_value :: "(toml_value \<Rightarrow> config_error + 'a) \<Rightarrow> string \<Rightarrow> toml_table \<Rightarrow> config_error + 'a" where
  "get_value as key t = bindE (get_value_of (get_value_ptr key t)) as"

definition get_value_or ::
    "(toml_value \<Rightarrow> config_error + 'a) \<Rightarrow> string \<Rightarrow> 'a \<Rightarrow> toml_table \<Rightarrow> config_error + 'a" where
  "get_value_or as key init t =
     (case get_value_ptr key t of None \<Rightarrow> Inr init | Some v \<Rightarrow> bindE (get_value_of (Some v)) as)"

section \<open>The settings\<close>

text \<open>The debug level is the integer behind the enumeration, \<open>kInfo\<close> being 3.\<close>

record user_config =
  userToken :: string
  httpProxy :: string
  userId :: int
  profileId :: int
  screenId :: int
  systemUid :: string
  hasDeveloperConfig :: bool
  versionCheck :: bool
  debugLevel :: int
  dragAndDrop :: bool

definition kInfo :: int where "kInfo = 3"

definition reset_config :: "user_config \<Rightarrow> user_config" where
  "reset_config c =
     c\<lparr>userToken := '''', userId := -1, profileId := -1, screenId := -1, debugLevel := kInfo,
       dragAndDrop := False\<rparr>"

text \<open>The constructor runs the member initialisers and then \<open>reset\<close>.\<close>

definition new_user_config :: user_config where
  "new_user_config = reset_config
     \<lparr>userToken = '''', httpProxy = '''', userId = -1, profileId = -1, screenId = -1, systemUid = '''',
      hasDeveloperConfig = False, versionCheck = True, debugLevel = kInfo, dragAndDrop = True\<rparr>"

section \<open>Loading\<close>

text \<open>An assignment from a value that may fail to be read: the exception leaves what was assigned
  before it.\<close>

type_synonym loading = "config_error option \<times> user_config"

definition assign :: "config_error + 'a \<Rightarrow> ('a \<Rightarrow> user_config \<Rightarrow> user_config) \<Rightarrow> loading \<Rightarrow> loading" where
  "assign v f l =
     (case l of
        (Some e, c) \<Rightarrow> (Some e, c)
      | (None, c) \<Rightarrow> (case v of Inl e \<Rightarrow> (Some e, c) | Inr x \<Rightarrow> (None, f x c)))"

definition with_section :: "toml_table option \<Rightarrow> (toml_table \<Rightarrow> loading \<Rightarrow> loading) \<Rightarrow> loading \<Rightarrow> loading" where
  "with_section sec f l = (case sec of None \<Rightarrow> l | Some t \<Rightarrow> f t l)"

definition update_auth :: "toml_table \<Rightarrow> loading \<Rightarrow> loading" where
  "update_auth t l =
     assign (get_value as_string ''user-token'' t) (\<lambda>x c. c\<lparr>userToken := x\<rparr>)
       (assign (get_value as_int ''user-id'' t) (\<lambda>x c. c\<lparr>userId := x\<rparr>) l)"

definition update_profile :: "toml_table \<Rightarrow> loading \<Rightarrow> loading" where
  "update_profile t l =
     assign (get_value as_int ''debug-level'' t) (\<lambda>x c. c\<lparr>debugLevel := x\<rparr>)
       (assign (get_value as_bool ''drag-and-drop'' t) (\<lambda>x c. c\<lparr>dragAndDrop := x\<rparr>)
         (assign (get_value as_int ''screen-id'' t) (\<lambda>x c. c\<lparr>screenId := x\<rparr>)
           (assign (get_value as_int ''profile-id'' t) (\<lambda>x c. c\<lparr>profileId := x\<rparr>) l)))"

definition update_system :: "toml_table \<Rightarrow> loading \<Rightarrow> loading" where
  "update_system t l = assign (get_value as_string ''uid'' t) (\<lambda>x c. c\<lparr>systemUid := x\<rparr>) l"

definition update_developer :: "toml_table \<Rightarrow> loading \<Rightarrow> loading" where
  "update_developer t l = assign (get_value as_bool ''version-check'' t) (\<lambda>x c. c\<lparr>versionCheck := x\<rparr>) l"

definition update_network :: "toml_table \<Rightarrow> loading \<Rightarrow> loading" where
  "update_network t l = assign (get_value_or as_string ''httpProxy'' '''' t) (\<lambda>x c. c\<lparr>httpProxy := x\<rparr>) l"

text \<open>The result is the settings, with the error that stopped the loading if there was one; without
  one the signal \<open>updated\<close> is raised.\<close>

definition update :: "toml \<Rightarrow> user_config \<Rightarrow> loading" where
  "update doc c =
     (let l = with_section (get_section ''auth'' doc) update_auth (None, c);
          l = with_section (get_section ''profile'' doc) update_profile l;
          l = with_section (get_section ''system'' doc) update_system l;
          dev = get_section ''developer'' doc;
          l = assign (Inr (dev \<noteq> None)) (\<lambda>b c. c\<lparr>hasDeveloperConfig := b\<rparr>) l;
          l = with_section dev update_developer l
      in with_section (get_section ''network'' doc) update_network l)"

definition load :: "('f \<Rightarrow> toml option) \<Rightarrow> 'f \<Rightarrow> user_config \<Rightarrow> loading" where
  "load parse file c = (case parse file of None \<Rightarrow> (Some ParseError, c) | Some doc \<Rightarrow> update doc c)"

text \<open>Loading by file name does nothing when the file does not exist.\<close>

definition load_path :: "('f \<Rightarrow> toml option) \<Rightarrow> 'f option \<Rightarrow> user_config \<Rightarrow> loading" where
  "load_path parse file c = (case file of None \<Rightarrow> (None, c) | Some f \<Rightarrow> load parse f c)"

section \<open>Saving\<close>

definition makeTable :: "user_config \<Rightarrow> toml" where
  "makeTable c =
     (let root = [''auth'' \<mapsto> [''user-id'' \<mapsto> TInt (userId c), ''user-token'' \<mapsto> TString (userToken c)],
                  ''profile'' \<mapsto> [''profile-id'' \<mapsto> TInt (profileId c), ''screen-id'' \<mapsto> TInt (screenId c),
                                 ''drag-and-drop'' \<mapsto> TBool (dragAndDrop c),
                                 ''debug-level'' \<mapsto> TInt (debugLevel c)],
                  ''system'' \<mapsto> [''uid'' \<mapsto> TString (systemUid c)]];
          root = (if httpProxy c \<noteq> '''' then root(''network'' \<mapsto> [''httpProxy'' \<mapsto> TString (httpProxy c)]) else root)
      in if hasDeveloperConfig c then root(''developer'' \<mapsto> [''version-check'' \<mapsto> TBool (versionCheck c)])
         else root)"

definition save :: "(toml \<Rightarrow> 'f) \<Rightarrow> user_config \<Rightarrow> 'f" where
  "save print c = print (makeTable c)"

lemmas value_defs = get_value_def get_value_or_def get_value_of_def get_value_ptr_def

lemmas update_defs = update_auth_def update_profile_def update_system_def update_developer_def
  update_network_def with_section_def assign_def get_section_def

lemma load_saved:
  assumes "\<And>doc. parse (print doc) = Some doc"
  shows "load parse (save print c) c0 =
    (None, c\<lparr>httpProxy := (if httpProxy c = '''' then httpProxy c0 else httpProxy c),
             versionCheck := (if hasDeveloperConfig c then versionCheck c else versionCheck c0)\<rparr>)"
  using assms by (simp add: load_def save_def update_def makeTable_def update_defs value_defs)

text \<open>
  Loading what was saved gives back every setting, into whatever object it is loaded, except
  that an empty proxy is not saved and the version check only goes with a developer section: these
  two keep the value of the object that loads.
\<close>

theorem settings_round_trip:
  assumes "\<And>doc. parse (print doc) = Some doc"
  shows "load parse (save print c) c0 =
    (None, c\<lparr>httpProxy := (if httpProxy c = '''' then httpProxy c0 else httpProxy c),
             versionCheck := (if hasDeveloperConfig c then versionCheck c else versionCheck c0)\<rparr>)"
  using assms by (rule load_saved)

definition demo_user :: user_config where
  "demo_user = new_user_config\<lparr>userToken := ''t0ken'', userId := 4, screenId := 9, httpProxy := ''proxy:8080''\<rparr>"

theorem settings_round_trip_witness:
  "load Some (save (\<lambda>doc. doc) demo_user) new_user_config = (None, demo_user)"
  using settings_round_trip[of Some "\<lambda>doc. doc" demo_user new_user_config]
  by (simp add: demo_user_def new_user_config_def reset_config_def)

end
