(* ===== verification/ProcessCommand.thy ===== *)
theory ProcessCommand
  imports Prelude
begin

text \<open>
  The command lines of the core processes (\<open>common/ProcessCommand.cpp\<close>). The directories, and how
  the path library joins them, come from the environment.
\<close>

datatype platform = Linux | Windows | MacOS

record environment =
  platform :: platform
  profileDir :: string
  installDir :: string
  systemLogDir :: string
  slash :: "string \<Rightarrow> string \<Rightarrow> string"
  parent_path :: "string \<Rightarrow> string"

record process_command =
  runAsUid :: string
  display :: string

definition init_process_command :: process_command where
  "init_process_command = \<lparr>runAsUid = '''', display = ''''\<rparr>"

definition kCoreProgram :: "environment \<Rightarrow> string" where
  "kCoreProgram env = (if platform env = Windows then ''synergy-core.exe'' else ''synergy-core'')"

definition kCoreConfigFile :: string where "kCoreConfigFile = ''synergy.conf''"
definition kCoreLogFile :: string where "kCoreLogFile = ''synergy-core.log''"
definition kCoreDebugLevel :: string where "kCoreDebugLevel = ''DEBUG''"

text \<open>\<open>kServerPort\<close> and \<open>kServerProxyPort\<close> in decimal.\<close>

definition kServerPort :: string where "kServerPort = ''24800''"
definition kServerProxyPort :: string where "kServerProxyPort = ''24801''"

definition uid_args :: "environment \<Rightarrow> process_command \<Rightarrow> string list" where
  "uid_args env pc =
     (if platform env = Linux
      then (if runAsUid pc \<noteq> '''' then [''--run-as-uid'', runAsUid pc] else []) @
           (if display pc \<noteq> '''' then [''--display'', display pc] else [])
      else [])"

text \<open>A missing host name is the exception, \<open>None\<close>.\<close>

definition generate :: "environment \<Rightarrow> process_command \<Rightarrow> bool \<Rightarrow> string \<Rightarrow> string list option" where
  "generate env pc serverMode localHostname =
     (let dir = (if platform env = MacOS then slash env (parent_path env (installDir env)) ''Resources''
                 else installDir env);
          args = [slash env dir (kCoreProgram env)] @ [if serverMode then ''--server'' else ''--client''] @
                 [''-f''] @ uid_args env pc @ [''--debug'', kCoreDebugLevel]
      in if localHostname = '''' then None
         else Some (args @ [''--name'', localHostname] @ [''--enable-drag-drop''] @
                [''--profile-dir'', profileDir env] @ [''--log'', slash env (systemLogDir env) kCoreLogFile] @
                (if serverMode
                 then [''-c'', slash env (profileDir env) kCoreConfigFile,
                       ''--address'', ''127.0.0.1:'' @ kServerPort]
                 else [''127.0.0.1:'' @ kServerProxyPort])))"

definition serverCmd :: "environment \<Rightarrow> process_command \<Rightarrow> string \<Rightarrow> string list option" where
  "serverCmd env pc localHostname = generate env pc True localHostname"

definition clientCmd :: "environment \<Rightarrow> process_command \<Rightarrow> string \<Rightarrow> string list option" where
  "clientCmd env pc localHostname = generate env pc False localHostname"

text \<open>The setters tell whether the value changed.\<close>

definition setRunAsUid :: "string \<Rightarrow> process_command \<Rightarrow> bool \<times> process_command" where
  "setRunAsUid u pc = (runAsUid pc \<noteq> u, pc\<lparr>runAsUid := u\<rparr>)"

definition setDisplay :: "string \<Rightarrow> process_command \<Rightarrow> bool \<times> process_command" where
  "setDisplay d pc = (display pc \<noteq> d, pc\<lparr>display := d\<rparr>)"

lemma generate_Some_iff: "(\<exists>args. generate env pc m h = Some args) \<longleftrightarrow> h \<noteq> ''''"
  by (simp add: generate_def Let_def)

lemma generate_nonempty: "generate env pc m h = Some args \<Longrightarrow> args \<noteq> []"
  by (auto simp: generate_def Let_def split: if_splits)

text \<open>A server command is never a client command: their second arguments differ.\<close>

lemma generate_mode:
  assumes "generate env pc m h = Some args"
  shows "args ! 1 = (if m then ''--server'' else ''--client'')"
  using assms by (auto simp: generate_def Let_def split: if_splits)

end
