(* ===== verification/Core.thy ===== *)
theory Core
  imports Profile UserConfig ProcessCommand Proxy
begin

text \<open>
  The life of the core process on one machine: \<open>service/CoreProcess.cpp\<close> and \<open>CoreProcessImpl.cpp\<close>,
  the status monitor \<open>service/CoreStatusMonitor.cpp\<close>, and \<open>service/CoreManager.cpp\<close>, which decides
  whether the machine runs a server or a client. Their states are one record, so that a signal
  and the slot it calls act on the same state, in the order of the code. An exception that leaves a
  handler leaves the loop of the service and ends it: an operation returns the error, if any, and
  the state at that point. Functions posted to the \<open>io_service\<close> form a queue. The handlers that
  \<open>shutdown\<close> runs early, through \<open>poll\<close>, are taken to run after it.
\<close>

section \<open>State\<close>

datatype process_mode = MServer | MClient | MUnknown

record core_impl =
  icommand :: "string list"
  expecting :: bool

datatype core_task =
    LocalInputTask
  | SwitchTask int
  | ServerRestartTask
  | ScreensAddedTask "screen list"

text \<open>What the outside sees: requests to the system, to the cloud, and to the router.\<close>

datatype core_output =
    Spawned "string list"
  | Terminated
  | ConfigWritten "screen list"
  | CloudStatus int screen_status
  | ClaimSent int int
  | ProfileModified
  | LogPublished string

datatype core_error = ScreenMissing | NoHostname | SpawnFailed | ServerProxyError proxy_error

record core =
  user :: user_config
  local_profile :: profile_config
  command :: process_command
  impl :: "core_impl option"
  retry :: "string list option"
  mode :: process_mode
  server :: int
  next_command :: "string list"
  last_command :: "string list"
  monitored :: "(process_mode \<times> int) option"
  screen_states :: "int \<Rightarrow> screen_status option"
  disabled :: bool
  sproxy :: server_proxy
  client_proxy_started :: bool
  tasks :: "core_task list"
  children :: "string list list"
  outbox :: "core_output list"

text \<open>\<open>children\<close> is the system's list of running core processes, which the code does not see. A core
  starts with no process; the client proxy starts as soon as the screen has an identifier.\<close>

definition init_core :: "user_config \<Rightarrow> core" where
  "init_core u =
     \<lparr>user = u, local_profile = init_profile_config, command = init_process_command, impl = None,
      retry = None, mode = MUnknown, server = -1, next_command = [], last_command = [],
      monitored = None, screen_states = (\<lambda>_. None), disabled = False, sproxy = init_server_proxy,
      client_proxy_started = (screenId u \<noteq> -1), tasks = [], children = [], outbox = []\<rparr>"

type_synonym act = "core \<Rightarrow> core_error option \<times> core"

definition ok :: act where "ok s = (None, s)"

definition throw :: "core_error \<Rightarrow> act" where "throw e s = (Some e, s)"

definition andThen :: "act \<Rightarrow> act \<Rightarrow> act" where
  "andThen f g s = (case f s of (None, s') \<Rightarrow> g s' | (Some e, s') \<Rightarrow> (Some e, s'))"

definition emit :: "core_output \<Rightarrow> act" where
  "emit x s = (None, s\<lparr>outbox := outbox s @ [x]\<rparr>)"

definition post :: "core_task list \<Rightarrow> act" where
  "post ts s = (None, s\<lparr>tasks := tasks s @ ts\<rparr>)"

section \<open>Screen status\<close>

text \<open>The slot of the core manager for \<open>screenStatusChanged\<close>. The slot of the error notifier, which
  runs after it, only clears an error on a copy of the screen.\<close>

definition screenStatusChanged :: "int \<Rightarrow> screen_status \<Rightarrow> act" where
  "screenStatusChanged sc st s =
     (case getScreen sc (local_profile s) of
        Inl _ \<Rightarrow> throw ScreenMissing s
      | Inr scr \<Rightarrow>
          if sstatus scr = st \<and> st = SConnecting then ok s
          else if st = SDisconnected \<and> sstatus scr \<noteq> SConnected then ok s
          else emit (CloudStatus sc st)
                 (s\<lparr>local_profile := updateScreen sc (\<lambda>x. x\<lparr>sstatus := st\<rparr>) (local_profile s)\<rparr>))"

text \<open>The monitor keeps the statuses in a map, whose \<open>operator[]\<close> makes a missing one connected.\<close>

definition update_status :: "int \<Rightarrow> screen_status \<Rightarrow> act" where
  "update_status sc st s =
     (let original = (case screen_states s sc of None \<Rightarrow> SConnected | Some x \<Rightarrow> x);
          s' = s\<lparr>screen_states := (screen_states s)(sc \<mapsto> st)\<rparr>
      in if st \<noteq> original then screenStatusChanged sc st s' else ok s')"

text \<open>\<open>monitor\<close> replaces the connected slots by those of the mode, with the screen it captures.\<close>

definition monitor :: act where
  "monitor s =
     ok (s\<lparr>monitored := (if mode s = MUnknown then None else Some (mode s, screenId (user s)))\<rparr>)"

definition contains :: "string \<Rightarrow> string \<Rightarrow> bool" where
  "contains line pat = list_ex (\<lambda>k. take (length pat) (drop k line) = pat) [0..<Suc (length line)]"

definition when_contains :: "string \<Rightarrow> string \<Rightarrow> act \<Rightarrow> act" where
  "when_contains line pat f = (if contains line pat then f else ok)"

text \<open>The slots were connected at the front, so the last one connected runs first.\<close>

definition monitor_line :: "string \<Rightarrow> act" where
  "monitor_line line s =
     (case monitored s of
        Some (MClient, sc) \<Rightarrow>
          andThen (when_contains line ''suspend'' (update_status sc SDisconnected))
            (andThen (when_contains line ''connecting to'' (update_status sc SConnecting))
              (when_contains line ''connected to server'' (update_status sc SConnected))) s
      | Some (MServer, sc) \<Rightarrow>
          when_contains line ''started server, waiting for clients'' (update_status sc SConnected) s
      | _ \<Rightarrow> ok s)"

section \<open>The core process\<close>

definition shutdown_process :: act where
  "shutdown_process s =
     (case impl s of
        None \<Rightarrow> ok s
      | Some i \<Rightarrow> if expecting i then ok s
                  else emit Terminated (s\<lparr>impl := Some (i\<lparr>expecting := True\<rparr>)\<rparr>))"

text \<open>Starting the process of the implementation; \<open>spawns\<close> tells whether the system can start it.\<close>

definition impl_start :: "(string list \<Rightarrow> bool) \<Rightarrow> string list \<Rightarrow> act" where
  "impl_start spawns cmd s =
     (if spawns cmd then emit (Spawned cmd) (s\<lparr>children := children s @ [cmd]\<rparr>)
      else throw SpawnFailed s)"

definition start_process :: "(string list \<Rightarrow> bool) \<Rightarrow> string list \<Rightarrow> act" where
  "start_process spawns cmd s =
     (if disabled s then ok s
      else
        (let s1 = s\<lparr>retry := None\<rparr>
         in if impl s \<noteq> None then shutdown_process (s1\<lparr>next_command := cmd\<rparr>)
            else andThen (update_status (screenId (user s)) SConnecting)
                   (andThen monitor (impl_start spawns cmd))
                   (s1\<lparr>last_command := cmd, impl := Some \<lparr>icommand = cmd, expecting = False\<rparr>\<rparr>)))"

text \<open>The common part of the two start operations: the command for the name of the local screen. A
  failure drops the implementation before it is thrown on.\<close>

definition start_command ::
    "(string list \<Rightarrow> bool) \<Rightarrow> (process_command \<Rightarrow> string \<Rightarrow> string list option) \<Rightarrow> act" where
  "start_command spawns build s =
     (case (case getScreen (screenId (user s)) (local_profile s) of
              Inl _ \<Rightarrow> throw ScreenMissing s
            | Inr scr \<Rightarrow> (case build (command s) (sname scr) of
                            None \<Rightarrow> throw NoHostname s
                          | Some cmd \<Rightarrow> start_process spawns cmd s)) of
        (None, s') \<Rightarrow> (None, s')
      | (Some e, s') \<Rightarrow> throw e (s'\<lparr>impl := None\<rparr>))"

definition startServer :: "environment \<Rightarrow> (string list \<Rightarrow> bool) \<Rightarrow> act" where
  "startServer env spawns s =
     (if disabled s then ok s
      else andThen (emit (ConfigWritten (screens_of (local_profile s))))
             (start_command spawns (serverCmd env))
             (s\<lparr>mode := MServer, server := screenId (user s)\<rparr>))"

definition startClient :: "environment \<Rightarrow> (string list \<Rightarrow> bool) \<Rightarrow> int \<Rightarrow> act" where
  "startClient env spawns serverId s =
     (if disabled s then ok s
      else start_command spawns (clientCmd env) (s\<lparr>mode := MClient, server := serverId\<rparr>))"

text \<open>The exit of the process: after a shutdown the next command runs; otherwise the last one is
  started again by the retry timer.\<close>

definition process_exit :: "(string list \<Rightarrow> bool) \<Rightarrow> act" where
  "process_exit spawns s =
     (case impl s of
        None \<Rightarrow> ok s
      | Some i \<Rightarrow>
          (let s1 = s\<lparr>impl := None, children := tl (children s)\<rparr>
           in if expecting i
              then (if next_command s \<noteq> []
                    then start_process spawns (next_command s) (s1\<lparr>next_command := []\<rparr>) else ok s1)
              else (if last_command s \<noteq> []
                    then ok (s1\<lparr>retry := Some (last_command s), last_command := []\<rparr>) else ok s1)))"

definition retry_timer :: "(string list \<Rightarrow> bool) \<Rightarrow> act" where
  "retry_timer spawns s =
     (case retry s of None \<Rightarrow> ok s | Some cmd \<Rightarrow> start_process spawns cmd (s\<lparr>retry := None\<rparr>))"

section \<open>The core manager\<close>

definition start_proxy :: "int \<Rightarrow> act" where
  "start_proxy serverId s =
     (case proxy_start serverId (sproxy s) of
        (None, p) \<Rightarrow> ok (s\<lparr>sproxy := p\<rparr>)
      | (Some e, p) \<Rightarrow> throw (ServerProxyError e) (s\<lparr>sproxy := p\<rparr>))"

definition follow_server :: "environment \<Rightarrow> (string list \<Rightarrow> bool) \<Rightarrow> int \<Rightarrow> act" where
  "follow_server env spawns serverId = andThen (start_proxy serverId) (startClient env spawns serverId)"

definition switchServer :: "environment \<Rightarrow> (string list \<Rightarrow> bool) \<Rightarrow> int \<Rightarrow> act" where
  "switchServer env spawns serverId s =
     (case mode s of
        MServer \<Rightarrow> if screenId (user s) \<noteq> serverId then follow_server env spawns serverId s else ok s
      | MClient \<Rightarrow> if screenId (user s) = serverId then startServer env spawns s
                   else follow_server env spawns serverId s
      | MUnknown \<Rightarrow> if screenId (user s) = serverId then startServer env spawns s
                    else follow_server env spawns serverId s)"

definition notifyServerClaim :: "int \<Rightarrow> act" where
  "notifyServerClaim serverId s = emit (ClaimSent (profileId (user s)) serverId) s"

definition restart_core :: "environment \<Rightarrow> (string list \<Rightarrow> bool) \<Rightarrow> act" where
  "restart_core env spawns s =
     (case mode s of
        MUnknown \<Rightarrow> ok s
      | MServer \<Rightarrow> startServer env spawns s
      | MClient \<Rightarrow> startClient env spawns (server s) s)"

definition setDisabled :: "bool \<Rightarrow> act" where
  "setDisabled b s = ok (s\<lparr>disabled := b\<rparr>)"

definition pause_core :: act where
  "pause_core = andThen (setDisabled True) shutdown_process"

definition resume_core :: "environment \<Rightarrow> (string list \<Rightarrow> bool) \<Rightarrow> act" where
  "resume_core env spawns = andThen (setDisabled False) (restart_core env spawns)"

definition set_run_as_uid :: "environment \<Rightarrow> (string list \<Rightarrow> bool) \<Rightarrow> string \<Rightarrow> act" where
  "set_run_as_uid env spawns u s =
     (case setRunAsUid u (command s) of
        (changed, pc) \<Rightarrow> (if changed then restart_core env spawns else ok) (s\<lparr>command := pc\<rparr>))"

definition set_display :: "environment \<Rightarrow> (string list \<Rightarrow> bool) \<Rightarrow> string \<Rightarrow> act" where
  "set_display env spawns d s =
     (case setDisplay d (command s) of
        (changed, pc) \<Rightarrow> (if changed then restart_core env spawns else ok) (s\<lparr>command := pc\<rparr>))"

text \<open>The handler of the router messages: a claim of another profile is ignored.\<close>

definition on_claim :: "environment \<Rightarrow> (string list \<Rightarrow> bool) \<Rightarrow> int \<Rightarrow> int \<Rightarrow> act" where
  "on_claim env spawns prof sc s =
     (if prof \<noteq> profileId (user s) then ok s else switchServer env spawns sc s)"

text \<open>The slots that the manager connects to the signals of the local profile post these functions.\<close>

fun profile_tasks :: "profile_event \<Rightarrow> core_task list" where
  "profile_tasks (ProfileServerChanged i) = [SwitchTask i]"
| "profile_tasks (ScreenPositionChanged i) = [ServerRestartTask]"
| "profile_tasks (ScreenSetChanged added removed) = [ScreensAddedTask added, ServerRestartTask]"
| "profile_tasks _ = []"

fun run_task :: "environment \<Rightarrow> (string list \<Rightarrow> bool) \<Rightarrow> core_task \<Rightarrow> act" where
  "run_task env spawns LocalInputTask s =
     andThen (switchServer env spawns (screenId (user s))) (notifyServerClaim (screenId (user s))) s"
| "run_task env spawns (SwitchTask i) s = switchServer env spawns i s"
| "run_task env spawns ServerRestartTask s =
     (if mode s = MServer
      then andThen (startServer env spawns) (\<lambda>s'. notifyServerClaim (screenId (user s')) s') s
      else ok s)"
| "run_task env spawns (ScreensAddedTask added) s =
     (if list_ex (\<lambda>t. sid t = screenId (user s)) added
      then andThen (setDisabled False) (restart_core env spawns) s
      else ok s)"

text \<open>A line of output: the monitor, the detection of local input, the readiness of the server, which
  claims the local profile, and the log, in the order of the slots.\<close>

definition server_ready :: act where
  "server_ready s =
     emit ProfileModified (s\<lparr>local_profile := claimServer (screenId (user s)) (local_profile s)\<rparr>)"

definition output_line :: "string \<Rightarrow> act" where
  "output_line line =
     andThen (monitor_line line)
       (andThen (when_contains line ''local input detected'' (post [LocalInputTask]))
         (andThen (when_contains line ''started server, waiting for clients'' server_ready)
           (emit (LogPublished line))))"

section \<open>Steps\<close>

datatype core_input =
    ClaimMessage int int
  | ClaimRequest int
  | Pause
  | Resume
  | RunAsUid string
  | Display string
  | ProfileApplied profile_config
  | SettingsUpdated user_config
  | NextTask
  | ProcessExit
  | RetryTimer
  | OutputLine string

fun core_step :: "environment \<Rightarrow> (string list \<Rightarrow> bool) \<Rightarrow> core_input \<Rightarrow> act" where
  "core_step env spawns (ClaimMessage p sc) s = on_claim env spawns p sc s"
| "core_step env spawns (ClaimRequest sc) s = andThen (switchServer env spawns sc) (notifyServerClaim sc) s"
| "core_step env spawns Pause s = pause_core s"
| "core_step env spawns Resume s = resume_core env spawns s"
| "core_step env spawns (RunAsUid u) s = set_run_as_uid env spawns u s"
| "core_step env spawns (Display d) s = set_display env spawns d s"
| "core_step env spawns (ProfileApplied src) s =
     (case apply_config src (local_profile s) of
        (p, evs) \<Rightarrow> post (concat (map profile_tasks evs)) (s\<lparr>local_profile := p\<rparr>))"
| "core_step env spawns (SettingsUpdated u) s =
     ok (s\<lparr>user := u, client_proxy_started := client_proxy_started s \<or> screenId u \<noteq> -1\<rparr>)"
| "core_step env spawns NextTask s =
     (case tasks s of [] \<Rightarrow> ok s | t # ts \<Rightarrow> run_task env spawns t (s\<lparr>tasks := ts\<rparr>))"
| "core_step env spawns ProcessExit s = process_exit spawns s"
| "core_step env spawns RetryTimer s = retry_timer spawns s"
| "core_step env spawns (OutputLine line) s = (if impl s = None then ok s else output_line line s)"

text \<open>The states of a service that has not been ended by an exception.\<close>

inductive core_reachable :: "environment \<Rightarrow> (string list \<Rightarrow> bool) \<Rightarrow> core \<Rightarrow> bool" for env spawns where
  init: "core_reachable env spawns (init_core u)"
| step: "core_reachable env spawns s \<Longrightarrow> core_step env spawns inp s = (None, s') \<Longrightarrow>
    core_reachable env spawns s'"

end
