(* ===== verification/Core_Props.thy ===== *)
theory Core_Props
  imports Core
begin

text \<open>
  What the core manager guarantees: one core process at a time, which after a switch is the one the
  claim asks for; a paused service starts none; a claim that every machine receives elects one
  server, while two claims that cross can leave none.
\<close>

section \<open>Sequences of actions\<close>

lemmas act_defs = ok_def throw_def emit_def post_def

lemma andThen_None_iff:
  "andThen f g s = (None, s'') \<longleftrightarrow> (\<exists>s'. f s = (None, s') \<and> g s' = (None, s''))"
  by (auto simp: andThen_def split: prod.splits option.splits)

lemma andThen_ok: "f s = (None, s') \<Longrightarrow> andThen f g s = g s'"
  by (simp add: andThen_def)

text \<open>Status changes only touch the profile, the map of statuses and the output.\<close>

definition same_process :: "core \<Rightarrow> core \<Rightarrow> bool" where
  "same_process s s' \<longleftrightarrow>
     impl s' = impl s \<and> retry s' = retry s \<and> next_command s' = next_command s \<and>
     last_command s' = last_command s \<and> children s' = children s \<and> disabled s' = disabled s \<and>
     mode s' = mode s \<and> server s' = server s \<and> user s' = user s \<and> command s' = command s \<and>
     sproxy s' = sproxy s"

lemma same_process_refl [simp]: "same_process s s"
  by (simp add: same_process_def)

lemma same_process_trans: "same_process s t \<Longrightarrow> same_process t u \<Longrightarrow> same_process s u"
  by (simp add: same_process_def)

lemma screenStatusChanged_same: "screenStatusChanged sc st s = (e, s') \<Longrightarrow> same_process s s' \<and> tasks s' = tasks s"
  by (auto simp: screenStatusChanged_def act_defs same_process_def split: sum.splits if_splits)

lemma update_status_same: "update_status sc st s = (e, s') \<Longrightarrow> same_process s s' \<and> tasks s' = tasks s"
  by (auto simp: update_status_def Let_def act_defs same_process_def
      dest!: screenStatusChanged_same split: if_splits)

lemma when_contains_same:
  assumes "\<And>s e s'. f s = (e, s') \<Longrightarrow> same_process s s'" "when_contains line pat f s = (e, s')"
  shows "same_process s s'"
  using assms by (auto simp: when_contains_def ok_def split: if_splits)

lemma andThen_same:
  assumes "\<And>s e s'. f s = (e, s') \<Longrightarrow> same_process s s'" "\<And>s e s'. g s = (e, s') \<Longrightarrow> same_process s s'"
    "andThen f g s = (e, s')"
  shows "same_process s s'"
  using assms same_process_trans by (fastforce simp: andThen_def split: prod.splits option.splits)

lemma monitor_line_same: "monitor_line line s = (e, s') \<Longrightarrow> same_process s s'"
proof -
  have U: "update_status sc st s = (e, s') \<Longrightarrow> same_process s s'" for sc st s e s'
    using update_status_same by blast
  assume "monitor_line line s = (e, s')"
  then show ?thesis
    by (auto simp: monitor_line_def ok_def split: option.splits process_mode.splits
        elim!: andThen_same[rotated 2] when_contains_same[rotated] intro: U)
qed

lemma output_line_same: "output_line line s = (e, s') \<Longrightarrow> same_process s s'"
proof -
  have P: "post ts s = (e, s') \<Longrightarrow> same_process s s'" for ts s e s'
    by (auto simp: post_def same_process_def)
  have R: "server_ready s = (e, s') \<Longrightarrow> same_process s s'" for s e s'
    by (auto simp: server_ready_def emit_def same_process_def)
  have L: "emit x s = (e, s') \<Longrightarrow> same_process s s'" for x s e s'
    by (auto simp: emit_def same_process_def)
  assume "output_line line s = (e, s')"
  then show ?thesis
    unfolding output_line_def
    by (elim andThen_same[rotated 2]) (blast intro: monitor_line_same andThen_same when_contains_same P R L)+
qed

section \<open>One process at a time\<close>

definition core_inv :: "core \<Rightarrow> bool" where
  "core_inv s \<longleftrightarrow>
     (impl s = None \<longrightarrow> children s = [] \<and> next_command s = []) \<and>
     (\<forall>i. impl s = Some i \<longrightarrow>
        children s = [icommand i] \<and> retry s = None \<and> last_command s = icommand i \<and> icommand i \<noteq> [] \<and>
        (\<not> expecting i \<longrightarrow> next_command s = [])) \<and>
     (\<forall>cmd. retry s = Some cmd \<longrightarrow> cmd \<noteq> [])"

lemma core_inv_same: "core_inv s \<Longrightarrow> same_process s s' \<Longrightarrow> core_inv s'"
  by (simp add: core_inv_def same_process_def)

text \<open>A change of the fields that the invariant does not read.\<close>

lemma core_inv_frame [simp]:
  "core_inv (s\<lparr>user := u\<rparr>) = core_inv s"
  "core_inv (s\<lparr>local_profile := p\<rparr>) = core_inv s"
  "core_inv (s\<lparr>command := c\<rparr>) = core_inv s"
  "core_inv (s\<lparr>mode := m\<rparr>) = core_inv s"
  "core_inv (s\<lparr>server := i\<rparr>) = core_inv s"
  "core_inv (s\<lparr>disabled := b\<rparr>) = core_inv s"
  "core_inv (s\<lparr>sproxy := q\<rparr>) = core_inv s"
  "core_inv (s\<lparr>tasks := ts\<rparr>) = core_inv s"
  "core_inv (s\<lparr>client_proxy_started := b\<rparr>) = core_inv s"
  "core_inv (s\<lparr>outbox := os\<rparr>) = core_inv s"
  by (simp_all add: core_inv_def)

text \<open>An action that keeps the invariant whenever it returns.\<close>

definition keeps :: "act \<Rightarrow> bool" where
  "keeps f \<longleftrightarrow> (\<forall>s s'. core_inv s \<longrightarrow> f s = (None, s') \<longrightarrow> core_inv s')"

lemma keepsI: "(\<And>s s'. core_inv s \<Longrightarrow> f s = (None, s') \<Longrightarrow> core_inv s') \<Longrightarrow> keeps f"
  by (auto simp: keeps_def)

lemma keepsD: "keeps f \<Longrightarrow> core_inv s \<Longrightarrow> f s = (None, s') \<Longrightarrow> core_inv s'"
  by (auto simp: keeps_def)

lemma keeps_andThen [inv_intros]: "keeps f \<Longrightarrow> keeps g \<Longrightarrow> keeps (andThen f g)"
  unfolding keeps_def andThen_None_iff by blast

lemma keeps_basic [inv_intros]:
  "keeps ok" "keeps (emit x)" "keeps (post ts)" "keeps (setDisabled b)" "keeps (notifyServerClaim i)"
  by (auto simp: keeps_def act_defs setDisabled_def notifyServerClaim_def)

lemma start_first_process:
  assumes "impl s = None" "\<not> disabled s" "start_process spawns cmd s = (None, s')"
  shows "impl s' = Some \<lparr>icommand = cmd, expecting = False\<rparr> \<and> children s' = children s @ [cmd] \<and>
    last_command s' = cmd \<and> next_command s' = next_command s \<and> retry s' = None \<and>
    mode s' = mode s \<and> server s' = server s \<and> user s' = user s \<and> disabled s' = disabled s \<and> sproxy s' = sproxy s"
proof -
  let ?s1 = "s\<lparr>retry := None, last_command := cmd, impl := Some \<lparr>icommand = cmd, expecting = False\<rparr>\<rparr>"
  from assms obtain s2 s3 where
    "update_status (screenId (user s)) SConnecting ?s1 = (None, s2)" "monitor s2 = (None, s3)"
    "impl_start spawns cmd s3 = (None, s')"
    by (auto simp: start_process_def andThen_None_iff)
  with update_status_same[of _ _ ?s1] show ?thesis
    by (fastforce simp: same_process_def monitor_def impl_start_def act_defs split: if_splits)
qed

lemma start_over_process:
  assumes "impl s = Some i" "\<not> disabled s"
  shows "start_process spawns cmd s =
    (None, s\<lparr>retry := None, next_command := cmd, impl := Some (i\<lparr>expecting := True\<rparr>),
             outbox := outbox s @ (if expecting i then [] else [Terminated])\<rparr>)"
  using assms by (cases i) (simp add: start_process_def Let_def shutdown_process_def act_defs)

lemma keeps_start_process: "cmd \<noteq> [] \<Longrightarrow> keeps (start_process spawns cmd)"
proof (rule keepsI)
  fix s s' assume cmd: "cmd \<noteq> []" and inv: "core_inv s" and st: "start_process spawns cmd s = (None, s')"
  show "core_inv s'"
  proof (cases "disabled s")
    case True
    with inv st show ?thesis by (simp add: start_process_def ok_def)
  next
    case False
    show ?thesis
    proof (cases "impl s")
      case None
      from start_first_process[OF None False st] inv None cmd show ?thesis
        by (simp add: core_inv_def)
    next
      case (Some i)
      with inv start_over_process[OF Some False, of spawns cmd] st show ?thesis
        by (auto simp: core_inv_def)
    qed
  qed
qed

lemma start_command_None_iff:
  "start_command spawns build s = (None, s') \<longleftrightarrow>
    (\<exists>scr cmd. getScreen (screenId (user s)) (local_profile s) = Inr scr \<and>
       build (command s) (sname scr) = Some cmd \<and> start_process spawns cmd s = (None, s'))"
  by (auto simp: start_command_def throw_def split: sum.splits option.splits prod.splits)

lemma keeps_start_command:
  assumes "\<And>pc h cmd. build pc h = Some cmd \<Longrightarrow> cmd \<noteq> []"
  shows "keeps (start_command spawns build)"
proof (rule keepsI)
  fix s s' assume inv: "core_inv s" and st: "start_command spawns build s = (None, s')"
  from st obtain scr :: screen and cmd where "build (command s) (sname scr) = Some cmd"
    "start_process spawns cmd s = (None, s')"
    unfolding start_command_None_iff by blast
  with keepsD[OF keeps_start_process inv] assms show "core_inv s'" by blast
qed

lemma keeps_starts [inv_intros]:
  "keeps (startServer env spawns)" "keeps (startClient env spawns i)"
proof -
  have S: "keeps (start_command spawns (serverCmd env))"
    by (rule keeps_start_command) (auto simp: serverCmd_def dest: generate_nonempty)
  have C: "keeps (start_command spawns (clientCmd env))"
    by (rule keeps_start_command) (auto simp: clientCmd_def dest: generate_nonempty)
  have E: "keeps (andThen (emit (ConfigWritten ss)) (start_command spawns (serverCmd env)))" for ss
    by (intro inv_intros S)
  show "keeps (startServer env spawns)"
    by (rule keepsI) (auto simp: startServer_def ok_def split: if_splits elim!: keepsD[OF E, rotated])
  show "keeps (startClient env spawns i)"
    by (rule keepsI) (auto simp: startClient_def ok_def split: if_splits elim!: keepsD[OF C, rotated])
qed

lemma keeps_start_proxy [inv_intros]: "keeps (start_proxy i)"
  by (rule keepsI) (auto simp: start_proxy_def act_defs split: prod.splits option.splits)

lemma keeps_switch [inv_intros]: "keeps (switchServer env spawns i)"
proof (rule keepsI)
  fix s s' assume inv: "core_inv s" and sw: "switchServer env spawns i s = (None, s')"
  have F: "keeps (follow_server env spawns i)" unfolding follow_server_def by (intro inv_intros)
  from sw consider "follow_server env spawns i s = (None, s')" | "startServer env spawns s = (None, s')" | "s' = s"
    by (auto simp: switchServer_def ok_def split: process_mode.splits if_splits)
  then show "core_inv s'"
    by cases (use inv keepsD[OF F inv] keepsD[OF keeps_starts(1) inv] in \<open>simp_all\<close>)
qed

lemma keeps_restart [inv_intros]: "keeps (restart_core env spawns)"
  by (rule keepsI)
    (auto simp: restart_core_def ok_def split: process_mode.splits elim: keepsD[OF keeps_starts(1)] keepsD[OF keeps_starts(2)])

lemma keeps_shutdown [inv_intros]: "keeps shutdown_process"
  by (rule keepsI) (auto simp: shutdown_process_def act_defs core_inv_def split: option.splits if_splits)

lemma keeps_exit [inv_intros]: "keeps (process_exit spawns)"
proof (rule keepsI)
  fix s s' assume inv: "core_inv s" and ex: "process_exit spawns s = (None, s')"
  show "core_inv s'"
  proof (cases "impl s")
    case None
    with inv ex show ?thesis by (simp add: process_exit_def ok_def)
  next
    case (Some i)
    show ?thesis
    proof (cases "expecting i \<and> next_command s \<noteq> []")
      case True
      have "core_inv (s\<lparr>impl := None, children := tl (children s), next_command := []\<rparr>)"
        using inv Some by (simp add: core_inv_def)
      moreover have "start_process spawns (next_command s)
          (s\<lparr>impl := None, children := tl (children s), next_command := []\<rparr>) = (None, s')"
        using ex Some True by (simp add: process_exit_def)
      ultimately show ?thesis using keepsD[OF keeps_start_process] True by blast
    next
      case False
      with inv ex Some show ?thesis
        by (auto simp: process_exit_def Let_def core_inv_def ok_def split: if_splits)
    qed
  qed
qed

lemma keeps_retry [inv_intros]: "keeps (retry_timer spawns)"
proof (rule keepsI)
  fix s s' assume inv: "core_inv s" and ex: "retry_timer spawns s = (None, s')"
  show "core_inv s'"
  proof (cases "retry s")
    case (Some cmd)
    with inv have "core_inv (s\<lparr>retry := None\<rparr>)" "cmd \<noteq> []"
      by (auto simp: core_inv_def split: option.splits)
    with ex Some keepsD[OF keeps_start_process, of cmd "s\<lparr>retry := None\<rparr>"] show ?thesis
      by (simp add: retry_timer_def)
  qed (use inv ex in \<open>simp add: retry_timer_def ok_def\<close>)
qed

lemma keeps_task [inv_intros]: "keeps (run_task env spawns t)"
proof (cases t)
  case LocalInputTask
  have "keeps (andThen (switchServer env spawns i) (notifyServerClaim j))" for i j by (intro inv_intros)
  with LocalInputTask show ?thesis by (auto simp: keeps_def)
next
  case (SwitchTask i)
  with keeps_switch show ?thesis by (auto simp: keeps_def)
next
  case ServerRestartTask
  have "keeps (\<lambda>s. notifyServerClaim (screenId (user s)) s)"
    by (auto simp: keeps_def notifyServerClaim_def emit_def)
  then have "keeps (andThen (startServer env spawns) (\<lambda>s. notifyServerClaim (screenId (user s)) s))"
    by (intro inv_intros)
  with ServerRestartTask show ?thesis by (auto simp: keeps_def ok_def)
next
  case (ScreensAddedTask added)
  have "keeps (andThen (setDisabled False) (restart_core env spawns))" by (intro inv_intros)
  with ScreensAddedTask show ?thesis by (auto simp: keeps_def ok_def)
qed

lemma keeps_step: "keeps (core_step env spawns inp)"
proof (rule keepsI)
  fix s s' assume inv: "core_inv s" and st: "core_step env spawns inp s = (None, s')"
  have P: "keeps pause_core" unfolding pause_core_def by (intro inv_intros)
  have R: "keeps (resume_core env spawns)" unfolding resume_core_def by (intro inv_intros)
  have C: "keeps (andThen (switchServer env spawns i) (notifyServerClaim i))" for i by (intro inv_intros)
  show "core_inv s'"
  proof (cases inp)
    case (ClaimRequest i)
    with st keepsD[OF C inv] show ?thesis by simp
  next
    case (ClaimMessage p i)
    with st inv show ?thesis
      by (auto simp: on_claim_def ok_def split: if_splits elim: keepsD[OF keeps_switch])
  next
    case Pause
    with st keepsD[OF P inv] show ?thesis by simp
  next
    case Resume
    with st keepsD[OF R inv] show ?thesis by simp
  next
    case (RunAsUid u)
    with st inv show ?thesis
      by (auto simp: set_run_as_uid_def ok_def split: prod.splits if_splits elim!: keepsD[OF keeps_restart, rotated])
  next
    case (Display d)
    with st inv show ?thesis
      by (auto simp: set_display_def ok_def split: prod.splits if_splits elim!: keepsD[OF keeps_restart, rotated])
  next
    case (ProfileApplied src)
    with st inv show ?thesis by (auto simp: post_def split: prod.splits)
  next
    case (SettingsUpdated u)
    with st inv show ?thesis by (auto simp: ok_def)
  next
    case NextTask
    with st inv show ?thesis
      by (auto simp: ok_def split: list.splits elim!: keepsD[OF keeps_task, rotated])
  next
    case ProcessExit
    with st keepsD[OF keeps_exit inv] show ?thesis by simp
  next
    case RetryTimer
    with st keepsD[OF keeps_retry inv] show ?thesis by simp
  next
    case (OutputLine line)
    with st inv output_line_same core_inv_same show ?thesis
      by (auto simp: ok_def split: if_splits)
  qed
qed

lemma reachable_core_inv: "core_reachable env spawns s \<Longrightarrow> core_inv s"
proof (induction rule: core_reachable.induct)
  case (init u)
  show ?case by (simp add: core_inv_def init_core_def)
next
  case (step s inp s')
  with keepsD[OF keeps_step] show ?case by blast
qed

text \<open>
  C18. At every moment of the life of the service at most one core process is running; it is the one
  whose command the implementation holds, none is running when there is no implementation, and
  a retry is only pending while none is running.
\<close>

theorem one_core_process:
  assumes "core_reachable env spawns s"
  shows "length (children s) \<le> 1 \<and> (impl s = None \<longleftrightarrow> children s = []) \<and>
    (\<forall>i. impl s = Some i \<longrightarrow> children s = [icommand i]) \<and> (retry s \<noteq> None \<longrightarrow> children s = [])"
  using reachable_core_inv[OF assms] by (cases "impl s") (auto simp: core_inv_def)

section \<open>Starting a command\<close>

text \<open>The circumstances under which the manager can start a process: it is not paused, the local screen
  is in the profile under a name, and the system can start processes.\<close>

definition ready :: "(string list \<Rightarrow> bool) \<Rightarrow> core \<Rightarrow> bool" where
  "ready spawns s \<longleftrightarrow> \<not> disabled s \<and> (\<forall>cmd. spawns cmd) \<and>
     (\<exists>scr. getScreen (screenId (user s)) (local_profile s) = Inr scr \<and> sname scr \<noteq> '''')"

definition local_name :: "core \<Rightarrow> string" where
  "local_name s = (case getScreen (screenId (user s)) (local_profile s) of Inl _ \<Rightarrow> '''' | Inr scr \<Rightarrow> sname scr)"

lemma find_update_first:
  "(\<And>x. P (f x) = P x) \<Longrightarrow> find P (update_first P f xs) = map_option f (find P xs)"
  by (induction xs) auto

lemma getScreen_status:
  assumes "getScreen i p = Inr scr"
  shows "\<exists>scr'. getScreen i (updateScreen i (\<lambda>x. x\<lparr>sstatus := st\<rparr>) p) = Inr scr' \<and> sname scr' = sname scr"
  using assms by (auto simp: getScreen_def updateScreen_def find_update_first split: option.splits)

lemma update_status_ok:
  assumes "getScreen i (local_profile s) = Inr scr"
  shows "\<exists>s' scr'. update_status i st s = (None, s') \<and> getScreen i (local_profile s') = Inr scr' \<and>
    sname scr' = sname scr"
  using assms getScreen_status[OF assms, of st]
  by (simp add: update_status_def Let_def screenStatusChanged_def act_defs)

text \<open>The part of the state that decides what runs next.\<close>

definition same_plan :: "core \<Rightarrow> core \<Rightarrow> bool" where
  "same_plan s s' \<longleftrightarrow> mode s' = mode s \<and> server s' = server s \<and> user s' = user s \<and>
     disabled s' = disabled s \<and> sproxy s' = sproxy s \<and> local_name s' = local_name s \<and>
     (\<exists>scr. getScreen (screenId (user s')) (local_profile s') = Inr scr)"

lemma same_plan_trans: "same_plan s t \<Longrightarrow> same_plan t u \<Longrightarrow> same_plan s u"
  by (auto simp: same_plan_def)

lemma ready_plan: "ready spawns s \<Longrightarrow> same_plan s s' \<Longrightarrow> ready spawns s'"
  by (auto simp: ready_def same_plan_def local_name_def split: sum.splits)

lemma start_first_ok:
  assumes "ready spawns s" "impl s = None"
  shows "\<exists>s'. start_process spawns cmd s = (None, s') \<and> same_plan s s'"
proof -
  let ?s1 = "s\<lparr>retry := None, last_command := cmd, impl := Some \<lparr>icommand = cmd, expecting = False\<rparr>\<rparr>"
  from assms(1) obtain scr where scr: "getScreen (screenId (user s)) (local_profile s) = Inr scr"
    and sp: "spawns cmd" "\<not> disabled s" by (auto simp: ready_def)
  then obtain s2 scr' where s2: "update_status (screenId (user s)) SConnecting ?s1 = (None, s2)"
      "getScreen (screenId (user s)) (local_profile s2) = Inr scr'" "sname scr' = sname scr"
    using update_status_ok[of "screenId (user s)" ?s1 scr SConnecting] by auto
  have same: "same_process ?s1 s2" using update_status_same[OF s2(1)] by simp
  have "start_process spawns cmd s = andThen monitor (impl_start spawns cmd) s2"
    using assms(2) sp s2(1) by (simp add: start_process_def Let_def andThen_def)
  also have "\<dots> = impl_start spawns cmd
      (s2\<lparr>monitored := (if mode s2 = MUnknown then None else Some (mode s2, screenId (user s2)))\<rparr>)"
    by (simp add: andThen_def monitor_def ok_def)
  finally show ?thesis
    using sp(1) scr s2 same
    by (simp add: impl_start_def emit_def same_plan_def local_name_def same_process_def)
qed

text \<open>A start, and the exit of the process that was running before it, leave the new command running.\<close>

definition settles_on :: "(string list \<Rightarrow> bool) \<Rightarrow> core \<Rightarrow> core \<Rightarrow> string list \<Rightarrow> bool" where
  "settles_on spawns s s' cmd \<longleftrightarrow>
     (\<exists>s''. (if impl s = None then s'' = s' else process_exit spawns s' = (None, s'')) \<and>
        children s'' = [cmd] \<and> same_plan s' s'')"

lemma start_process_settles:
  assumes "core_inv s" "ready spawns s" "cmd \<noteq> []"
  shows "\<exists>s'. start_process spawns cmd s = (None, s') \<and> same_plan s s' \<and> settles_on spawns s s' cmd"
proof (cases "impl s")
  case None
  from start_first_ok[OF assms(2) None] obtain s' where
    s': "start_process spawns cmd s = (None, s')" "same_plan s s'" by blast
  have "\<not> disabled s" using assms(2) by (simp add: ready_def)
  from start_first_process[OF None this s'(1)] have "children s' = [cmd]"
    using assms(1) None by (simp add: core_inv_def)
  with s' None show ?thesis by (auto simp: settles_on_def same_plan_def)
next
  case (Some i)
  let ?s' = "s\<lparr>retry := None, next_command := cmd, impl := Some (i\<lparr>expecting := True\<rparr>),
             outbox := outbox s @ (if expecting i then [] else [Terminated])\<rparr>"
  have d: "\<not> disabled s" using assms(2) by (simp add: ready_def)
  have ch: "children s = [icommand i]" using assms(1) Some by (simp add: core_inv_def)
  let ?s1 = "?s'\<lparr>impl := None, children := [], next_command := []\<rparr>"
  have plan: "same_plan s ?s'" "same_plan ?s' ?s1"
    using assms(2) by (auto simp: same_plan_def local_name_def ready_def)
  have r1: "ready spawns ?s1" by (rule ready_plan[OF ready_plan[OF assms(2) plan(1)] plan(2)])
  from start_first_ok[OF r1, of cmd] obtain s'' where
    s'': "start_process spawns cmd ?s1 = (None, s'')" "same_plan ?s1 s''" by auto
  have "process_exit spawns ?s' = (None, s'')"
    using s''(1) assms(3) ch by (simp add: process_exit_def Let_def)
  moreover have "children s'' = [cmd]"
    using start_first_process[OF _ _ s''(1)] d by simp
  moreover have "same_plan ?s' s''" by (rule same_plan_trans[OF plan(2) s''(2)])
  ultimately have "settles_on spawns s ?s' cmd" using Some by (auto simp: settles_on_def)
  with start_over_process[OF Some d, of spawns cmd] plan(1) show ?thesis by blast
qed

lemma start_command_settles:
  assumes "core_inv s" "ready spawns s" "build (command s) (local_name s) = Some cmd" "cmd \<noteq> []"
  shows "\<exists>s'. start_command spawns build s = (None, s') \<and> same_plan s s' \<and> settles_on spawns s s' cmd"
proof -
  from assms(2) obtain scr where scr: "getScreen (screenId (user s)) (local_profile s) = Inr scr"
    by (auto simp: ready_def)
  from start_process_settles[OF assms(1,2,4)] obtain s' where
    s': "start_process spawns cmd s = (None, s')" "same_plan s s'" "settles_on spawns s s' cmd" by blast
  have "build (command s) (sname scr) = Some cmd" using assms(3) scr by (simp add: local_name_def)
  with s' scr show ?thesis using start_command_None_iff by blast
qed

lemma ready_name: "ready spawns s \<Longrightarrow> local_name s \<noteq> ''''"
  by (auto simp: ready_def local_name_def)

lemma ready_frame [simp]:
  "ready spawns (s\<lparr>mode := m\<rparr>) = ready spawns s"
  "ready spawns (s\<lparr>server := i\<rparr>) = ready spawns s"
  "ready spawns (s\<lparr>sproxy := q\<rparr>) = ready spawns s"
  "ready spawns (s\<lparr>outbox := os\<rparr>) = ready spawns s"
  by (simp_all add: ready_def)

lemma local_name_frame [simp]:
  "local_name (s\<lparr>mode := m\<rparr>) = local_name s"
  "local_name (s\<lparr>server := i\<rparr>) = local_name s"
  "local_name (s\<lparr>sproxy := q\<rparr>) = local_name s"
  "local_name (s\<lparr>outbox := os\<rparr>) = local_name s"
  by (simp_all add: local_name_def)

text \<open>The command for a role of the machine.\<close>

definition role_command :: "environment \<Rightarrow> core \<Rightarrow> bool \<Rightarrow> string list option" where
  "role_command env s as_server = generate env (command s) as_server (local_name s)"

lemma role_command_some:
  assumes "ready spawns s"
  shows "\<exists>cmd. role_command env s m = Some cmd \<and> cmd \<noteq> []"
proof -
  obtain cmd where "generate env (command s) m (local_name s) = Some cmd"
    using ready_name[OF assms] generate_Some_iff[of env "command s" m "local_name s"] by blast
  then show ?thesis unfolding role_command_def by (simp add: generate_nonempty)
qed

lemma startServer_settles:
  assumes "core_inv s" "ready spawns s"
  shows "\<exists>s' cmd. startServer env spawns s = (None, s') \<and> role_command env s True = Some cmd \<and>
    settles_on spawns s s' cmd \<and> mode s' = MServer \<and> server s' = screenId (user s) \<and> user s' = user s \<and>
    sproxy s' = sproxy s \<and> ready spawns s'"
proof -
  let ?s1 = "s\<lparr>mode := MServer, server := screenId (user s)\<rparr>"
  let ?s2 = "?s1\<lparr>outbox := outbox s @ [ConfigWritten (screens_of (local_profile s))]\<rparr>"
  from role_command_some[OF assms(2)] obtain cmd where
    cmd: "role_command env s True = Some cmd" "cmd \<noteq> []" by blast
  have "core_inv ?s2" "ready spawns ?s2" using assms by simp_all
  moreover have "serverCmd env (command ?s2) (local_name ?s2) = Some cmd"
    using cmd(1) by (simp add: role_command_def serverCmd_def)
  ultimately obtain s' where s': "start_command spawns (serverCmd env) ?s2 = (None, s')"
      "same_plan ?s2 s'" "settles_on spawns ?s2 s' cmd"
    using start_command_settles cmd(2) by blast
  have "startServer env spawns s = (None, s')"
    using s'(1) assms(2) by (simp add: startServer_def andThen_def emit_def ready_def)
  moreover have "settles_on spawns s s' cmd" using s'(3) by (simp add: settles_on_def)
  moreover have "ready spawns s'" by (rule ready_plan[OF _ s'(2)]) (simp add: assms)
  ultimately show ?thesis using s'(2) cmd(1) by (auto simp: same_plan_def)
qed

lemma startClient_settles:
  assumes "core_inv s" "ready spawns s"
  shows "\<exists>s' cmd. startClient env spawns i s = (None, s') \<and> role_command env s False = Some cmd \<and>
    settles_on spawns s s' cmd \<and> mode s' = MClient \<and> server s' = i \<and> user s' = user s \<and>
    sproxy s' = sproxy s \<and> ready spawns s'"
proof -
  let ?s1 = "s\<lparr>mode := MClient, server := i\<rparr>"
  from role_command_some[OF assms(2)] obtain cmd where
    cmd: "role_command env s False = Some cmd" "cmd \<noteq> []" by blast
  have "core_inv ?s1" "ready spawns ?s1" using assms by simp_all
  moreover have "clientCmd env (command ?s1) (local_name ?s1) = Some cmd"
    using cmd(1) by (simp add: role_command_def clientCmd_def)
  ultimately obtain s' where s': "start_command spawns (clientCmd env) ?s1 = (None, s')"
      "same_plan ?s1 s'" "settles_on spawns ?s1 s' cmd"
    using start_command_settles cmd(2) by blast
  have "startClient env spawns i s = (None, s')"
    using s'(1) assms(2) by (simp add: startClient_def ready_def)
  moreover have "settles_on spawns s s' cmd" using s'(3) by (simp add: settles_on_def)
  moreover have "ready spawns s'" by (rule ready_plan[OF _ s'(2)]) (simp add: assms)
  ultimately show ?thesis using s'(2) cmd(1) by (auto simp: same_plan_def)
qed

lemma proxy_start_valid:
  assumes "0 \<le> i" "i < 2 ^ 32"
  shows "\<exists>p. proxy_start i q = (None, p) \<and> server_id p = i"
  using assms by (auto simp: proxy_start_def Let_def)

lemma follow_server_settles:
  assumes "core_inv s" "ready spawns s" "0 \<le> i" "i < 2 ^ 32"
  shows "\<exists>s' cmd. follow_server env spawns i s = (None, s') \<and> role_command env s False = Some cmd \<and>
    settles_on spawns s s' cmd \<and> mode s' = MClient \<and> server s' = i \<and> user s' = user s \<and>
    server_id (sproxy s') = i \<and> ready spawns s'"
proof -
  from proxy_start_valid[OF assms(3,4)] obtain p where
    p: "proxy_start i (sproxy s) = (None, p)" "server_id p = i" by blast
  let ?s1 = "s\<lparr>sproxy := p\<rparr>"
  have "core_inv ?s1" "ready spawns ?s1" using assms by simp_all
  from startClient_settles[OF this, of env i] obtain s' cmd where
    s': "startClient env spawns i ?s1 = (None, s')" "role_command env ?s1 False = Some cmd"
    "settles_on spawns ?s1 s' cmd" "mode s' = MClient" "server s' = i" "user s' = user ?s1"
    "sproxy s' = sproxy ?s1" "ready spawns s'" by blast
  have "follow_server env spawns i s = (None, s')"
    using p(1) s'(1) by (simp add: follow_server_def andThen_def start_proxy_def ok_def)
  moreover have "role_command env s False = Some cmd" using s'(2) by (simp add: role_command_def)
  moreover have "settles_on spawns s s' cmd" using s'(3) by (simp add: settles_on_def)
  moreover have "user s' = user s" "server_id (sproxy s') = i" using s'(6,7) p(2) by simp_all
  ultimately show ?thesis using s'(4,5,8) by blast
qed

lemma switch_settles:
  assumes "core_inv s" "ready spawns s" "0 \<le> i" "i < 2 ^ 32" "mode s = MServer \<Longrightarrow> i \<noteq> screenId (user s)"
  shows "\<exists>s' cmd. switchServer env spawns i s = (None, s') \<and>
    role_command env s (i = screenId (user s)) = Some cmd \<and> settles_on spawns s s' cmd \<and>
    mode s' = (if i = screenId (user s) then MServer else MClient) \<and> server s' = i \<and> user s' = user s \<and>
    (i \<noteq> screenId (user s) \<longrightarrow> server_id (sproxy s') = i) \<and> ready spawns s'"
proof (cases "i = screenId (user s)")
  case True
  with startServer_settles[OF assms(1,2), of env] assms(5) show ?thesis
    by (auto simp: switchServer_def split: process_mode.splits)
next
  case False
  with follow_server_settles[OF assms(1-4), of env] show ?thesis
    by (auto simp: switchServer_def split: process_mode.splits)
qed


section \<open>A run\<close>

fun core_run :: "environment \<Rightarrow> (string list \<Rightarrow> bool) \<Rightarrow> core_input list \<Rightarrow> act" where
  "core_run env spawns [] s = ok s"
| "core_run env spawns (i # is) s = andThen (core_step env spawns i) (core_run env spawns is) s"

lemma reachable_core_run:
  "core_reachable env spawns s \<Longrightarrow> core_run env spawns inps s = (None, s') \<Longrightarrow> core_reachable env spawns s'"
  by (induction inps arbitrary: s) (auto simp: ok_def andThen_None_iff intro: core_reachable.step)

definition demo_env :: environment where
  "demo_env = \<lparr>platform = Linux, profileDir = ''/p'', installDir = ''/i'', systemLogDir = ''/l'',
     slash = (\<lambda>a b. a @ ''/'' @ b), parent_path = (\<lambda>a. a)\<rparr>"

definition demo_home :: profile_config where
  "demo_home =
     \<lparr>profile_of = \<lparr>profile_id = 7, profile_version = 1, profile_server = -1, profile_name = ''home''\<rparr>,
      screens_of = [(new_screen 1)\<lparr>sname := ''desk''\<rparr>, (new_screen 2)\<lparr>sname := ''lap''\<rparr>]\<rparr>"

definition demo_core :: "int \<Rightarrow> core" where
  "demo_core i = (init_core (new_user_config\<lparr>profileId := 7, screenId := i\<rparr>))
     \<lparr>local_profile := demo_home,
      tasks := [ScreensAddedTask (screens_of demo_home), ServerRestartTask]\<rparr>"

lemmas demo_core_defs = demo_core_def demo_home_def init_core_def new_user_config_def reset_config_def
  new_screen_def

lemma demo_core_run:
  "core_run demo_env (\<lambda>_. True) [ProfileApplied demo_home]
     (init_core (new_user_config\<lparr>profileId := 7, screenId := i\<rparr>)) = (None, demo_core i)"
  by (simp add: andThen_def act_defs apply_config_def compare_def header_events_def match_events_def
      set_events_def screens_without_def init_profile_config_def init_profile_def demo_core_defs)

lemma demo_core_reachable: "core_reachable demo_env (\<lambda>_. True) (demo_core i)"
  by (rule reachable_core_run[OF core_reachable.init demo_core_run])

lemma demo_core_ready: "i \<in> {1, 2} \<Longrightarrow> ready (\<lambda>_. True) (demo_core i)"
  by (auto simp: ready_def getScreen_def demo_core_defs)


definition demo_server :: core where
  "demo_server = snd (core_run demo_env (\<lambda>_. True) [ClaimRequest 1, ProcessExit] (demo_core 1))"

lemma demo_server_run:
  "core_run demo_env (\<lambda>_. True) [ClaimRequest 1, ProcessExit] (demo_core 1) = (None, demo_server)"
  by (simp add: demo_server_def andThen_def act_defs switchServer_def startServer_def start_command_def
      getScreen_def start_process_def Let_def update_status_def screenStatusChanged_def updateScreen_def
      monitor_def impl_start_def notifyServerClaim_def process_exit_def serverCmd_def generate_def
      demo_core_defs)

theorem one_core_process_witness:
  "length (children demo_server) \<le> 1 \<and> (impl demo_server = None \<longleftrightarrow> children demo_server = [])"
  using one_core_process[OF reachable_core_run[OF demo_core_reachable demo_server_run]] by simp

section \<open>A paused service\<close>

text \<open>The inputs that can end a pause: resuming, and the functions posted for added screens.\<close>

fun wakes :: "core \<Rightarrow> core_input \<Rightarrow> bool" where
  "wakes s Resume = True"
| "wakes s NextTask = (case tasks s of ScreensAddedTask added # ts \<Rightarrow> True | _ \<Rightarrow> False)"
| "wakes s _ = False"

text \<open>Nothing starts a process while the flag is set.\<close>

definition asleep :: "core \<Rightarrow> bool" where
  "asleep s \<longleftrightarrow> disabled s \<and> impl s = None \<and> children s = []"

lemma asleep_start:
  assumes "disabled s"
  shows "start_process spawns cmd s = (None, s)" "startServer env spawns s = (None, s)"
    "startClient env spawns i s = (None, s)"
  using assms by (simp_all add: start_process_def startServer_def startClient_def ok_def)

lemma asleep_frame [simp]:
  "asleep (s\<lparr>user := u\<rparr>) = asleep s"
  "asleep (s\<lparr>local_profile := p\<rparr>) = asleep s"
  "asleep (s\<lparr>command := c\<rparr>) = asleep s"
  "asleep (s\<lparr>sproxy := q\<rparr>) = asleep s"
  "asleep (s\<lparr>tasks := ts\<rparr>) = asleep s"
  "asleep (s\<lparr>client_proxy_started := b\<rparr>) = asleep s"
  "asleep (s\<lparr>outbox := os\<rparr>) = asleep s"
  "asleep (s\<lparr>retry := r\<rparr>) = asleep s"
  by (simp_all add: asleep_def)

lemma asleep_andThen:
  "asleep (snd (f s)) \<Longrightarrow> (\<And>s. asleep s \<Longrightarrow> asleep (snd (g s))) \<Longrightarrow> asleep (snd (andThen f g s))"
  by (auto simp: andThen_def split: prod.splits option.splits)

lemma asleep_basic:
  assumes "asleep s"
  shows "asleep (snd (notifyServerClaim i s))" "asleep (snd (startServer env spawns s))"
    "asleep (snd (startClient env spawns i s))" "asleep (snd (start_process spawns cmd s))"
    "asleep (snd (start_proxy i s))"
proof -
  have "disabled s" using assms by (simp add: asleep_def)
  with assms show "asleep (snd (startServer env spawns s))" "asleep (snd (startClient env spawns i s))"
    "asleep (snd (start_process spawns cmd s))"
    by (simp_all add: asleep_start)
  show "asleep (snd (notifyServerClaim i s))" "asleep (snd (start_proxy i s))"
    using assms by (auto simp: notifyServerClaim_def act_defs start_proxy_def split: prod.splits option.splits)
qed

lemma asleep_switch: "asleep s \<Longrightarrow> asleep (snd (switchServer env spawns i s))"
  by (auto simp: switchServer_def follow_server_def ok_def asleep_basic asleep_andThen split: process_mode.splits)

lemma asleep_restart: "asleep s \<Longrightarrow> asleep (snd (restart_core env spawns s))"
  by (auto simp: restart_core_def ok_def asleep_basic split: process_mode.splits)

lemma asleep_step:
  assumes "asleep s" "\<not> wakes s inp"
  shows "asleep (snd (core_step env spawns inp s))"
proof (cases inp)
  case (ClaimMessage p i)
  with assms show ?thesis by (simp add: on_claim_def ok_def asleep_switch)
next
  case (ClaimRequest i)
  with assms show ?thesis by (auto intro!: asleep_andThen asleep_switch asleep_basic)
next
  case Pause
  with assms show ?thesis
    by (simp add: pause_core_def setDisabled_def ok_def andThen_def shutdown_process_def asleep_def)
next
  case (RunAsUid u)
  with assms show ?thesis by (simp add: set_run_as_uid_def setRunAsUid_def ok_def asleep_restart)
next
  case (Display d)
  with assms show ?thesis by (simp add: set_display_def setDisplay_def ok_def asleep_restart)
next
  case (ProfileApplied src)
  with assms show ?thesis by (simp add: post_def split: prod.splits)
next
  case (SettingsUpdated u)
  with assms show ?thesis by (simp add: ok_def)
next
  case NextTask
  show ?thesis
  proof (cases "tasks s")
    case (Cons t ts)
    with NextTask assms(2) have "\<nexists>added. t = ScreensAddedTask added" by (auto split: core_task.splits)
    with assms(1) Cons NextTask show ?thesis
      by (cases t) (auto simp: ok_def intro!: asleep_andThen asleep_switch asleep_basic)
  qed (use NextTask assms in \<open>simp add: ok_def\<close>)
next
  case ProcessExit
  with assms show ?thesis by (simp add: process_exit_def ok_def asleep_def)
next
  case RetryTimer
  with assms show ?thesis by (auto simp: retry_timer_def ok_def asleep_basic split: option.splits)
next
  case (OutputLine line)
  with assms show ?thesis by (simp add: asleep_def ok_def)
qed (use assms in simp)

text \<open>A sequence of inputs in which none ends the pause.\<close>

fun dozes :: "environment \<Rightarrow> (string list \<Rightarrow> bool) \<Rightarrow> core_input list \<Rightarrow> core \<Rightarrow> bool" where
  "dozes env spawns [] s = True"
| "dozes env spawns (i # is) s = (\<not> wakes s i \<and> dozes env spawns is (snd (core_step env spawns i s)))"

lemma asleep_run:
  "asleep s \<Longrightarrow> dozes env spawns inps s \<Longrightarrow> asleep (snd (core_run env spawns inps s))"
proof (induction inps arbitrary: s)
  case (Cons i inps)
  then have "asleep (snd (core_step env spawns i s))" by (simp add: asleep_step)
  with Cons show ?case by (auto simp: andThen_def split: prod.splits option.splits)
qed (simp add: ok_def)

text \<open>
  C32. Pausing holds: the pause itself does not fail, the running process is asked to end, and after
  it has exited no claim, setting, output, timer or posted function starts another one, until the
  service is resumed or the functions for added screens run.
\<close>

theorem pause_holds:
  assumes "core_reachable env spawns s"
  shows "\<exists>s1 s2. pause_core s = (None, s1) \<and> (\<forall>i. impl s1 = Some i \<longrightarrow> expecting i) \<and>
    process_exit spawns s1 = (None, s2) \<and>
    (\<forall>inps. dozes env spawns inps s2 \<longrightarrow> children (snd (core_run env spawns inps s2)) = [])"
proof -
  have inv: "core_inv s" by (rule reachable_core_inv[OF assms])
  have "\<exists>s1 s2. pause_core s = (None, s1) \<and> (\<forall>i. impl s1 = Some i \<longrightarrow> expecting i) \<and>
      process_exit spawns s1 = (None, s2) \<and> asleep s2"
  proof (cases "impl s")
    case None
    with inv show ?thesis
      by (simp add: pause_core_def setDisabled_def ok_def andThen_def shutdown_process_def process_exit_def
          asleep_def core_inv_def)
  next
    case (Some i)
    with inv show ?thesis
      by (simp add: pause_core_def setDisabled_def act_defs andThen_def shutdown_process_def process_exit_def
          asleep_def core_inv_def Let_def start_process_def)
  qed
  then show ?thesis using asleep_run unfolding asleep_def by metis
qed

theorem pause_holds_witness:
  "\<exists>s1 s2. pause_core demo_server = (None, s1) \<and> process_exit (\<lambda>_. True) s1 = (None, s2) \<and>
    children (snd (core_run demo_env (\<lambda>_. True) [RetryTimer, ClaimRequest 2] s2)) = []"
proof -
  have "dozes demo_env (\<lambda>_. True) [RetryTimer, ClaimRequest 2] s" for s by simp
  with pause_holds[OF reachable_core_run[OF demo_core_reachable demo_server_run]] show ?thesis by blast
qed

section \<open>Claims between machines\<close>

text \<open>A machine in server mode has itself as its server.\<close>

definition mode_ok :: "core \<Rightarrow> bool" where
  "mode_ok s \<longleftrightarrow> (mode s = MServer \<longrightarrow> server s = screenId (user s))"

text \<open>This holds as long as the identifier of the own screen does not change while the machine is in
  server mode: of all steps, only new settings can break it.\<close>

definition keeps_role :: "act \<Rightarrow> bool" where
  "keeps_role f \<longleftrightarrow> (\<forall>s e s'. f s = (e, s') \<longrightarrow> user s' = user s \<and> (mode_ok s \<longrightarrow> mode_ok s'))"




lemma mode_ok_frame [simp]:
  "mode_ok (s\<lparr>local_profile := p\<rparr>) = mode_ok s"
  "mode_ok (s\<lparr>command := c\<rparr>) = mode_ok s"
  "mode_ok (s\<lparr>impl := i\<rparr>) = mode_ok s"
  "mode_ok (s\<lparr>retry := r\<rparr>) = mode_ok s"
  "mode_ok (s\<lparr>next_command := n\<rparr>) = mode_ok s"
  "mode_ok (s\<lparr>last_command := n\<rparr>) = mode_ok s"
  "mode_ok (s\<lparr>monitored := m\<rparr>) = mode_ok s"
  "mode_ok (s\<lparr>disabled := b\<rparr>) = mode_ok s"
  "mode_ok (s\<lparr>sproxy := q\<rparr>) = mode_ok s"
  "mode_ok (s\<lparr>tasks := ts\<rparr>) = mode_ok s"
  "mode_ok (s\<lparr>children := cs\<rparr>) = mode_ok s"
  "mode_ok (s\<lparr>outbox := os\<rparr>) = mode_ok s"
  by (simp_all add: mode_ok_def)

lemma keeps_role_andThen [inv_intros]:
  "keeps_role f \<Longrightarrow> keeps_role g \<Longrightarrow> keeps_role (andThen f g)"
  by (fastforce simp: keeps_role_def andThen_def split: prod.splits option.splits)








text \<open>A life in which the own screen keeps its identifier while it is the server.\<close>

inductive core_steady :: "environment \<Rightarrow> (string list \<Rightarrow> bool) \<Rightarrow> core \<Rightarrow> bool" for env spawns where
  Steady_init: "core_steady env spawns (init_core u)"
| Steady_step: "core_steady env spawns s \<Longrightarrow> core_step env spawns inp s = (None, s') \<Longrightarrow>
    \<forall>u. inp = SettingsUpdated u \<and> mode s = MServer \<longrightarrow> screenId u = screenId (user s) \<Longrightarrow>
    core_steady env spawns s'"

lemma core_steady_reachable: "core_steady env spawns s \<Longrightarrow> core_reachable env spawns s"
  by (induction rule: core_steady.induct) (auto intro: core_reachable.intros)


lemma switch_elects:
  assumes "core_inv s" "ready spawns s" "mode_ok s" "0 \<le> c" "c < 2 ^ 32"
  shows "\<exists>s'. switchServer env spawns c s = (None, s') \<and> server s' = c \<and>
    mode s' = (if c = screenId (user s) then MServer else MClient) \<and> user s' = user s \<and> ready spawns s'"
proof (cases "mode s = MServer \<and> c = screenId (user s)")
  case True
  then have "switchServer env spawns c s = (None, s)" by (simp add: switchServer_def ok_def)
  with True assms(2,3) show ?thesis by (simp add: mode_ok_def)
next
  case False
  then have "mode s = MServer \<Longrightarrow> c \<noteq> screenId (user s)" by simp
  from switch_settles[OF assms(1,2,4,5) this, of env] show ?thesis by blast
qed




text \<open>
  Claims that cross can leave no server. When two machines detect local input before either has
  received the claim of the other, and each then receives that claim, both end as clients, each of
  the other.
\<close>

theorem crossing_claims_leave_no_server:
  assumes "core_reachable env spawns a" "core_reachable env spawns b" "ready spawns a" "ready spawns b"
    "mode_ok a" "mode_ok b" "profileId (user a) = profileId (user b)"
    "screenId (user a) \<noteq> screenId (user b)" "{screenId (user a), screenId (user b)} \<subseteq> {0..<2 ^ 32}"
  shows "\<exists>a1 b1 a2 b2.
    run_task env spawns LocalInputTask a = (None, a1) \<and> run_task env spawns LocalInputTask b = (None, b1) \<and>
    on_claim env spawns (profileId (user b)) (screenId (user b)) a1 = (None, a2) \<and>
    on_claim env spawns (profileId (user a)) (screenId (user a)) b1 = (None, b2) \<and>
    mode a2 = MClient \<and> server a2 = screenId (user b) \<and> mode b2 = MClient \<and> server b2 = screenId (user a)"
proof -
  have claim: "\<exists>s1. run_task env spawns LocalInputTask s = (None, s1) \<and> core_inv s1 \<and> ready spawns s1 \<and>
      mode_ok s1 \<and> user s1 = user s"
    if s: "core_inv s" "ready spawns s" "mode_ok s" "screenId (user s) \<in> {0..<2 ^ 32}" for s
  proof -
    from switch_elects[OF s(1-3), of "screenId (user s)" env] s(4) obtain t where
      t: "switchServer env spawns (screenId (user s)) s = (None, t)" "server t = screenId (user s)"
        "user t = user s" "ready spawns t" by auto
    let ?s1 = "t\<lparr>outbox := outbox t @ [ClaimSent (profileId (user t)) (screenId (user s))]\<rparr>"
    have "run_task env spawns LocalInputTask s = (None, ?s1)"
      using t(1) by (simp add: andThen_def notifyServerClaim_def emit_def)
    moreover have "core_inv ?s1" using keepsD[OF keeps_switch s(1) t(1)] by simp
    moreover have "mode_ok ?s1" "user ?s1 = user s" using t by (simp_all add: mode_ok_def)
    moreover have "ready spawns ?s1" using t(4) by simp
    ultimately show ?thesis by blast
  qed
  have answer: "\<exists>s2. on_claim env spawns (profileId (user s1)) c s1 = (None, s2) \<and> mode s2 = MClient \<and> server s2 = c"
    if "core_inv s1" "ready spawns s1" "mode_ok s1" "c \<in> {0..<2 ^ 32}" "c \<noteq> screenId (user s1)" for s1 c
    using switch_elects[OF that(1-3), of c env] that(4,5) by (auto simp: on_claim_def)
  from claim[OF reachable_core_inv[OF assms(1)] assms(3,5)] assms(9) obtain a1 where
    a1: "run_task env spawns LocalInputTask a = (None, a1)" "core_inv a1" "ready spawns a1" "mode_ok a1" "user a1 = user a"
    by auto
  from claim[OF reachable_core_inv[OF assms(2)] assms(4,6)] assms(9) obtain b1 where
    b1: "run_task env spawns LocalInputTask b = (None, b1)" "core_inv b1" "ready spawns b1" "mode_ok b1" "user b1 = user b"
    by auto
  from answer[OF a1(2-4), of "screenId (user b)"] answer[OF b1(2-4), of "screenId (user a)"] a1 b1 assms(7-9)
  show ?thesis by auto
qed

theorem crossing_claims_leave_no_server_witness:
  "\<exists>a1 b1 a2 b2.
    run_task demo_env (\<lambda>_. True) LocalInputTask (demo_core 1) = (None, a1) \<and>
    run_task demo_env (\<lambda>_. True) LocalInputTask (demo_core 2) = (None, b1) \<and>
    on_claim demo_env (\<lambda>_. True) (profileId (user (demo_core 2))) (screenId (user (demo_core 2))) a1 = (None, a2) \<and>
    on_claim demo_env (\<lambda>_. True) (profileId (user (demo_core 1))) (screenId (user (demo_core 1))) b1 = (None, b2) \<and>
    mode a2 = MClient \<and> server a2 = screenId (user (demo_core 2)) \<and>
    mode b2 = MClient \<and> server b2 = screenId (user (demo_core 1))"
  by (rule crossing_claims_leave_no_server[OF demo_core_reachable demo_core_reachable demo_core_ready demo_core_ready])
    (simp_all add: mode_ok_def demo_core_defs)

end
