(* ===== verification/Cloud.thy ===== *)
theory Cloud
  imports ConfigGen
begin

text \<open>
  Requests to the cloud: the job queues (\<open>service/PriorityJobQueues.h\<close>), the client that connects
  through an HTTP proxy (\<open>service/ProxyClient.h\<close>) and TLS (\<open>service/SecuredTcpClient.cpp\<close>), the session
  that sends one request at a time (\<open>service/HttpSession.cpp\<close>), and the jobs of
  \<open>service/CloudClient.cpp\<close>. A network operation in progress is the \<open>pending\<close> field of the session,
  and its completion is an input. JSON bodies are lists of named values.
\<close>

section \<open>Priority job queues\<close>

text \<open>The current index is -1 until a job was asked for. \<open>None\<close> is the rethrow without an exception, which
  terminates the program, or reading from an empty queue.\<close>

record 'j job_queues =
  queues :: "'j list list"
  qsize :: nat
  current :: int

definition init_queues :: "nat \<Rightarrow> 'j job_queues" where
  "init_queues n = \<lparr>queues = replicate n [], qsize = 0, current = -1\<rparr>"

definition appendQueue :: "'j job_queues \<Rightarrow> 'j job_queues" where
  "appendQueue q = q\<lparr>queues := queues q @ [[]]\<rparr>"

definition appendJob :: "nat \<Rightarrow> 'j \<Rightarrow> 'j job_queues \<Rightarrow> bool \<times> 'j job_queues" where
  "appendJob i job q =
     (if length (queues q) \<le> i then (False, q)
      else (True, q\<lparr>queues := (queues q)[i := queues q ! i @ [job]], qsize := qsize q + 1\<rparr>))"

definition hasJob :: "'j job_queues \<Rightarrow> bool" where
  "hasJob q \<longleftrightarrow> qsize q \<noteq> 0"

definition current_queue :: "'j job_queues \<Rightarrow> nat option" where
  "current_queue q =
     (if current q \<le> -1 \<or> int (length (queues q)) \<le> current q then None else Some (nat (current q)))"

definition currentJob :: "'j job_queues \<Rightarrow> 'j option" where
  "currentJob q =
     (case current_queue q of
        None \<Rightarrow> None
      | Some i \<Rightarrow> (case queues q ! i of [] \<Rightarrow> None | j # js \<Rightarrow> Some j))"

text \<open>The reference that \<open>currentJob\<close> returns is written through.\<close>

definition set_currentJob :: "'j \<Rightarrow> 'j job_queues \<Rightarrow> 'j job_queues" where
  "set_currentJob job q =
     (case current_queue q of
        None \<Rightarrow> q
      | Some i \<Rightarrow> q\<lparr>queues := (queues q)[i := job # tl (queues q ! i)]\<rparr>)"

fun first_nonempty :: "nat \<Rightarrow> 'j list list \<Rightarrow> (nat \<times> 'j) option" where
  "first_nonempty i [] = None"
| "first_nonempty i ([] # qs) = first_nonempty (Suc i) qs"
| "first_nonempty i ((j # js) # qs) = Some (i, j)"

definition nextJob :: "'j job_queues \<Rightarrow> ('j \<times> 'j job_queues) option" where
  "nextJob q =
     (case first_nonempty 0 (queues q) of
        None \<Rightarrow> None
      | Some (i, j) \<Rightarrow> Some (j, q\<lparr>current := int i\<rparr>))"

definition popJob :: "'j job_queues \<Rightarrow> 'j job_queues option" where
  "popJob q =
     (case current_queue q of
        None \<Rightarrow> None
      | Some i \<Rightarrow>
          (case queues q ! i of
             [] \<Rightarrow> None
           | j # js \<Rightarrow> Some (q\<lparr>queues := (queues q)[i := js], qsize := qsize q - 1\<rparr>)))"

section \<open>Connecting\<close>

type_synonym net_error = u32

record proxy_client =
  proxy_host :: string
  proxy_port :: int
  pc_open :: bool
  pc_connected :: bool

definition new_proxy_client :: proxy_client where
  "new_proxy_client = \<lparr>proxy_host = '''', proxy_port = 80, pc_open = False, pc_connected = False\<rparr>"

definition enabled :: "proxy_client \<Rightarrow> bool" where
  "enabled c \<longleftrightarrow> proxy_host c \<noteq> ''''"

definition pc_setProxy :: "string \<Rightarrow> int \<Rightarrow> proxy_client \<Rightarrow> bool \<times> proxy_client" where
  "pc_setProxy host port c =
     (if port < 0 \<or> 65535 < port then (False, c)
      else
        (let port = (if port = 0 then 80 else port)
         in if (host, port) \<noteq> (proxy_host c, proxy_port c)
            then (True, c\<lparr>proxy_host := host, proxy_port := port, pc_open := False, pc_connected := False\<rparr>)
            else (False, c)))"

text \<open>
  What the network does in one attempt: whether the server has an address, the results of the
  connection (with the lookup of the proxy), of writing the request to the proxy, of reading its
  answer, and of the TLS handshake. \<open>operation_aborted\<close> is 125.
\<close>

record network_run =
  has_address :: bool
  connect_error :: "net_error option"
  proxy_write_error :: "net_error option"
  proxy_read_error :: "net_error option"
  tls_error :: "net_error option"

definition operation_aborted :: net_error where "operation_aborted = 125"
definition host_not_found :: net_error where "host_not_found = 1"

text \<open>How an attempt ends for the caller: its handler is called, with an error if there was one, it is
  never called, or \<open>connect\<close> throws.\<close>

datatype connect_end = Called "net_error option" | NeverCalled | ConnectThrew

definition pc_connect :: "network_run \<Rightarrow> proxy_client \<Rightarrow> connect_end \<times> proxy_client" where
  "pc_connect net c =
     (if pc_connected c then (ConnectThrew, c)
      else if \<not> has_address net then (Called (Some host_not_found), c)
      else if enabled c then
        (case connect_error net of
           Some ec \<Rightarrow> (NeverCalled, c\<lparr>pc_open := True\<rparr>)
         | None \<Rightarrow>
             (case proxy_write_error net of
                Some ec \<Rightarrow> (Called (Some ec), c\<lparr>pc_open := True\<rparr>)
              | None \<Rightarrow>
                  (case proxy_read_error net of
                     Some ec \<Rightarrow> (Called (Some ec), c\<lparr>pc_open := True\<rparr>)
                   | None \<Rightarrow> (Called None, c\<lparr>pc_open := True, pc_connected := True\<rparr>))))
      else (Called (connect_error net), c\<lparr>pc_open := True, pc_connected := True\<rparr>))"

text \<open>The TLS client signals \<open>connected\<close> or \<open>connectFailed\<close>, or nothing when the attempt was aborted.\<close>

datatype tcp_signal = TcpConnected | TcpConnectFailed net_error | TcpSilent | TcpThrew

definition onSslHandshakeFinished :: "net_error option \<Rightarrow> tcp_signal" where
  "onSslHandshakeFinished ec =
     (case ec of
        Some e \<Rightarrow> if e = operation_aborted then TcpSilent else TcpConnectFailed e
      | None \<Rightarrow> TcpConnected)"

definition onConnectFinished :: "network_run \<Rightarrow> net_error option \<Rightarrow> tcp_signal" where
  "onConnectFinished net ec =
     (case ec of
        Some e \<Rightarrow> if e = operation_aborted then TcpSilent else TcpConnectFailed e
      | None \<Rightarrow> onSslHandshakeFinished (tls_error net))"

definition tcp_connect :: "network_run \<Rightarrow> proxy_client \<Rightarrow> tcp_signal \<times> proxy_client" where
  "tcp_connect net c =
     (case pc_connect net c of
        (Called ec, c') \<Rightarrow> (onConnectFinished net ec, c')
      | (NeverCalled, c') \<Rightarrow> (TcpSilent, c')
      | (ConnectThrew, c') \<Rightarrow> (TcpThrew, c'))"

section \<open>The HTTP session and the cloud client\<close>

datatype json_value = JInt int | JString string

record http_job =
  target :: string
  jcontext :: "(string \<times> json_value) list"
  retryTimes :: int

datatype pending = Idle | Connecting | Writing | Reading

text \<open>The session has a TLS client or none; its request is the job it was set up for.\<close>

record cloud =
  jobs :: "http_job job_queues"
  session :: "proxy_client option"
  session_proxy :: "string \<times> int"
  pending_op :: pending
  request :: "http_job option"
  cloud_proxy :: "string \<times> int"

definition ProfileUpdate :: nat where "ProfileUpdate = 0"
definition ScreenUpdate :: nat where "ScreenUpdate = 1"
definition MaximumSize :: nat where "MaximumSize = 3"

definition init_cloud :: cloud where
  "init_cloud = \<lparr>jobs = init_queues MaximumSize, session = None, session_proxy = ('''', 0),
     pending_op = Idle, request = None, cloud_proxy = ('''', 80)\<rparr>"

text \<open>
  Sending the next job. With a client the request is written at once. Without one it connects:
  when the name of the server cannot be resolved, which is tried first and synchronously, the
  failure sends the next job again, and now there is a client. \<open>None\<close> ends the program.
\<close>

definition setupRequest :: "cloud \<Rightarrow> cloud option" where
  "setupRequest s =
     map_option (\<lambda>(job, q). s\<lparr>jobs := q, request := Some job\<rparr>) (nextJob (jobs s))"

definition new_session :: "cloud \<Rightarrow> proxy_client" where
  "new_session s = snd (pc_setProxy (fst (session_proxy s)) (snd (session_proxy s)) new_proxy_client)"

definition sendNextHttp :: "bool \<Rightarrow> cloud \<Rightarrow> cloud option" where
  "sendNextHttp resolved s =
     (if \<not> hasJob (jobs s) then Some s
      else
        (case setupRequest s of
           None \<Rightarrow> None
         | Some s1 \<Rightarrow>
             (case session s1 of
                Some c \<Rightarrow> Some (s1\<lparr>pending_op := Writing\<rparr>)
              | None \<Rightarrow>
                  (let s2 = s1\<lparr>session := Some (new_session s1)\<rparr>
                   in if resolved then Some (s2\<lparr>pending_op := Connecting\<rparr>)
                      else map_option (\<lambda>s3. s3\<lparr>pending_op := Writing\<rparr>) (setupRequest s2)))))"

definition addHttpJob :: "bool \<Rightarrow> nat \<Rightarrow> http_job \<Rightarrow> cloud \<Rightarrow> cloud option" where
  "addHttpJob resolved cat job s =
     (let s1 = s\<lparr>jobs := snd (appendJob cat job (jobs s))\<rparr>
      in if qsize (jobs s1) = 1 then sendNextHttp resolved s1 else Some s1)"

text \<open>The answer to a request: a job that failed stays at the front of its queue as long as it has
  retries left.\<close>

definition responseReceived :: "bool \<Rightarrow> bool \<Rightarrow> cloud \<Rightarrow> cloud option" where
  "responseReceived resolved is_ok s =
     (case (if is_ok then popJob (jobs s)
            else
              (case currentJob (jobs s) of
                 None \<Rightarrow> None
               | Some job \<Rightarrow>
                   (let q = set_currentJob (job\<lparr>retryTimes := retryTimes job - 1\<rparr>) (jobs s)
                    in if retryTimes job \<le> 0 then popJob q else Some q))) of
        None \<Rightarrow> None
      | Some q \<Rightarrow> sendNextHttp resolved (s\<lparr>jobs := q, pending_op := Idle\<rparr>))"

definition requestFailed :: "bool \<Rightarrow> cloud \<Rightarrow> cloud option" where
  "requestFailed resolved s = sendNextHttp resolved (s\<lparr>pending_op := Idle\<rparr>)"

text \<open>The completions of the three operations. An exception in a handler ends the program, too.\<close>

definition onConnected :: "bool \<Rightarrow> network_run \<Rightarrow> cloud \<Rightarrow> cloud option" where
  "onConnected resolved net s =
     (case session s of
        None \<Rightarrow> Some s
      | Some c \<Rightarrow>
          (case tcp_connect net c of
             (TcpConnected, c') \<Rightarrow> Some (s\<lparr>session := Some c', pending_op := Writing\<rparr>)
           | (TcpConnectFailed e, c') \<Rightarrow> requestFailed resolved (s\<lparr>session := Some c'\<rparr>)
           | (TcpSilent, c') \<Rightarrow> Some (s\<lparr>session := Some c', pending_op := Idle\<rparr>)
           | (TcpThrew, c') \<Rightarrow> None))"

definition onWriteFinished :: "bool \<Rightarrow> net_error option \<Rightarrow> cloud \<Rightarrow> cloud option" where
  "onWriteFinished resolved ec s =
     (case ec of
        Some e \<Rightarrow> requestFailed resolved (s\<lparr>session := None\<rparr>)
      | None \<Rightarrow> Some (s\<lparr>pending_op := Reading\<rparr>))"

definition onReadFinished :: "bool \<Rightarrow> net_error option \<Rightarrow> bool \<Rightarrow> cloud \<Rightarrow> cloud option" where
  "onReadFinished resolved ec is_ok s =
     (case ec of
        Some e \<Rightarrow> requestFailed resolved (s\<lparr>session := None\<rparr>)
      | None \<Rightarrow> responseReceived resolved is_ok s)"

section \<open>Jobs\<close>

definition claim_job :: "int \<Rightarrow> int \<Rightarrow> int \<Rightarrow> http_job" where
  "claim_job serverId prof version =
     \<lparr>target = ''/profile/server/claim'',
      jcontext = [(''screen_id'', JInt serverId), (''profile_id'', JInt prof), (''profile_version'', JInt version)],
      retryTimes = 0\<rparr>"

definition ip_list_job :: "screen \<Rightarrow> http_job" where
  "ip_list_job s =
     \<lparr>target = ''/screen/update'', jcontext = [(''id'', JInt (sid s)), (''ipList'', JString (sip_list s))],
      retryTimes = 0\<rparr>"

definition status_job :: "screen \<Rightarrow> http_job" where
  "status_job s =
     \<lparr>target = ''/screen/update'',
      jcontext = [(''id'', JInt (sid s)), (''status'', JString (screenStatusToString (sstatus s)))],
      retryTimes = 0\<rparr>"

section \<open>The proxy setting\<close>

fun split_on :: "char \<Rightarrow> string \<Rightarrow> string list" where
  "split_on c [] = [[]]"
| "split_on c (x # xs) =
     (if x = c then [] # split_on c xs
      else (case split_on c xs of [] \<Rightarrow> [[x]] | p # ps \<Rightarrow> (x # p) # ps))"

text \<open>\<open>to_port\<close> is the conversion of the library to a 16-bit number; a text that is none raises.\<close>

definition cloud_setProxy :: "(string \<Rightarrow> int option) \<Rightarrow> string \<Rightarrow> string \<Rightarrow> cloud \<Rightarrow> (bool \<times> cloud) option" where
  "cloud_setProxy to_port protocol config s =
     (if protocol \<noteq> ''http'' then Some (False, s)
      else
        (let parts = split_on (CHR '':'') config
         in if 2 < length parts then Some (False, s)
            else
              (case (if 1 < length parts then to_port (parts ! 1) else Some 80) of
                 None \<Rightarrow> None
               | Some p \<Rightarrow>
                   (let port = (if p = 0 then 80 else p)
                    in if (parts ! 0, port) \<noteq> cloud_proxy s
                       then Some (True, s\<lparr>cloud_proxy := (parts ! 0, port), session_proxy := (parts ! 0, port),
                              session := map_option (\<lambda>c. snd (pc_setProxy (parts ! 0) port c)) (session s)\<rparr>)
                       else Some (False, s)))))"

section \<open>Steps\<close>

text \<open>An input carries the result of the name lookup that it may lead to.\<close>

datatype cloud_input =
    AddJob nat http_job
  | ConnectDone network_run
  | WriteDone "net_error option"
  | ReadDone "net_error option" bool
  | ProxyChanged string int

definition cloud_step :: "bool \<Rightarrow> cloud_input \<Rightarrow> cloud \<Rightarrow> cloud option" where
  "cloud_step resolved inp s =
     (case inp of
        AddJob cat job \<Rightarrow> addHttpJob resolved cat job s
      | ConnectDone net \<Rightarrow> if pending_op s = Connecting then onConnected resolved net s else Some s
      | WriteDone ec \<Rightarrow> if pending_op s = Writing then onWriteFinished resolved ec s else Some s
      | ReadDone ec is_ok \<Rightarrow> if pending_op s = Reading then onReadFinished resolved ec is_ok s else Some s
      | ProxyChanged host port \<Rightarrow> Some (s\<lparr>session_proxy := (host, port),
          session := map_option (\<lambda>c. snd (pc_setProxy host port c)) (session s)\<rparr>))"

fun cloud_run :: "(bool \<times> cloud_input) list \<Rightarrow> cloud \<Rightarrow> cloud option" where
  "cloud_run [] s = Some s"
| "cloud_run ((r, i) # is) s = (case cloud_step r i s of None \<Rightarrow> None | Some s' \<Rightarrow> cloud_run is s')"

end
