(* ===== verification/Cloud_Props.thy ===== *)
theory Cloud_Props
  imports Cloud
begin

text \<open>
  What the cloud client guarantees about its requests: the one in progress is always the current
  job, so that an answer removes the job it belongs to; jobs of a category finish in the order in
  which they were added, and none is lost. One failure breaks it: a proxy that cannot be reached.
\<close>

section \<open>The queues\<close>

definition queues_ok :: "'j job_queues \<Rightarrow> bool" where
  "queues_ok q \<longleftrightarrow> length (queues q) = MaximumSize \<and> qsize q = sum_list (map length (queues q))"

lemma current_queue_iff:
  "current_queue q = Some i \<longleftrightarrow> current q = int i \<and> i < length (queues q)"
  by (auto simp: current_queue_def)

lemma first_nonempty_Some:
  "first_nonempty k qs = Some (i, j) \<Longrightarrow>
    k \<le> i \<and> i - k < length qs \<and> (\<exists>js. qs ! (i - k) = j # js) \<and> (\<forall>n<i - k. qs ! n = [])"
proof (induction k qs rule: first_nonempty.induct)
  case (2 k qs)
  then have IH: "Suc k \<le> i" "i - Suc k < length qs" "\<exists>js. qs ! (i - Suc k) = j # js" "\<forall>n<i - Suc k. qs ! n = []"
    by simp_all
  then have "i - k = Suc (i - Suc k)" by simp
  with IH show ?case by (auto simp: less_Suc_eq_0_disj)
qed simp_all

lemma first_nonempty_None: "first_nonempty k qs = None \<longleftrightarrow> (\<forall>q\<in>set qs. q = [])"
  by (induction k qs rule: first_nonempty.induct) auto

lemma nextJob_Some:
  assumes "nextJob q = Some (j, q')"
  shows "\<exists>i js. q' = q\<lparr>current := int i\<rparr> \<and> i < length (queues q) \<and> queues q ! i = j # js \<and>
    (\<forall>n<i. queues q ! n = [])"
  using assms first_nonempty_Some[of 0 "queues q"]
  by (fastforce simp: nextJob_def split: option.splits prod.splits)

lemma nextJob_exists:
  assumes "queues_ok q" "hasJob q"
  shows "\<exists>j q'. nextJob q = Some (j, q')"
proof -
  have "\<not> (\<forall>js\<in>set (queues q). js = [])"
  proof
    assume "\<forall>js\<in>set (queues q). js = []"
    then have "sum_list (map length (queues q)) = 0" by simp
    with assms show False by (simp add: queues_ok_def hasJob_def)
  qed
  then have "first_nonempty 0 (queues q) \<noteq> None" using first_nonempty_None by blast
  then show ?thesis by (auto simp: nextJob_def split: option.splits)
qed

lemma currentJob_Some_iff:
  "currentJob q = Some j \<longleftrightarrow> (\<exists>i js. current_queue q = Some i \<and> queues q ! i = j # js)"
  by (auto simp: currentJob_def split: option.splits list.splits)

lemma sum_list_update:
  "i < length qs \<Longrightarrow> sum_list (map length (qs[i := ys])) + length (qs ! i) = sum_list (map length qs) + length ys"
  by (induction qs arbitrary: i) (auto simp: nth_Cons split: nat.splits)

lemma queues_ok_append:
  "queues_ok q \<Longrightarrow> queues_ok (snd (appendJob k j q))"
  using sum_list_update[of k "queues q" "queues q ! k @ [j]"]
  by (auto simp: appendJob_def queues_ok_def)

lemma popJob_current:
  assumes "queues_ok q" "current_queue q = Some i" "queues q ! i = j # js"
  shows "\<exists>q'. popJob q = Some q' \<and> queues_ok q' \<and> queues q' = (queues q)[i := js]"
proof -
  have i: "i < length (queues q)" using assms(2) by (simp add: current_queue_iff)
  have "sum_list (map length ((queues q)[i := js])) = sum_list (map length (queues q)) - 1"
    using sum_list_update[OF i, of js] assms(3) by simp
  with assms show ?thesis by (simp add: popJob_def queues_ok_def)
qed

text \<open>
  What the client relies on: queues by category with a current one; adding a job appends it to its
  category and moves nothing else, and removing takes the front of the current queue.
\<close>

locale fifo_queues =
  fixes inv :: "'q \<Rightarrow> bool"
    and width :: nat
    and items :: "'q \<Rightarrow> nat \<Rightarrow> 'j list"
    and selected :: "'q \<Rightarrow> nat option"
    and add :: "nat \<Rightarrow> 'j \<Rightarrow> 'q \<Rightarrow> 'q"
    and front :: "'q \<Rightarrow> 'j option"
    and pop :: "'q \<Rightarrow> 'q option"
  assumes inv_add: "inv q \<Longrightarrow> inv (add k j q)"
    and selected_add: "selected (add k j q) = selected q"
    and selected_width: "inv q \<Longrightarrow> selected q = Some i \<Longrightarrow> i < width"
    and items_add: "inv q \<Longrightarrow> k < width \<Longrightarrow> i < width \<Longrightarrow>
      items (add k j q) i = (if i = k then items q k @ [j] else items q i)"
    and front_iff: "front q = Some j \<longleftrightarrow> (\<exists>i js. selected q = Some i \<and> items q i = j # js)"
    and pop_front: "inv q \<Longrightarrow> selected q = Some i \<Longrightarrow> items q i = j # js \<Longrightarrow>
      \<exists>q'. pop q = Some q' \<and> inv q' \<and> items q' i = js \<and> (\<forall>k<width. k \<noteq> i \<longrightarrow> items q' k = items q k)"
begin

lemma front_add:
  assumes "inv q" "k < width" "front q = Some j"
  shows "front (add k job q) = Some j"
proof -
  from assms(3) obtain i js where i: "selected q = Some i" "items q i = j # js" by (auto simp: front_iff)
  have "items (add k job q) i = (if i = k then items q k @ [job] else items q i)"
    by (rule items_add[OF assms(1,2) selected_width[OF assms(1) i(1)]])
  with i show ?thesis by (auto simp: front_iff selected_add)
qed

text \<open>The job that an answer removes does not depend on what is added meanwhile.\<close>

lemma pop_after_add:
  assumes "inv q" "k < width" "front q = Some j"
  shows "\<exists>q' i. pop (add k job q) = Some q' \<and> inv q' \<and> selected q = Some i \<and>
    items (add k job q) i = j # items q' i"
proof -
  from assms(3) obtain i js where i: "selected q = Some i" "items q i = j # js" by (auto simp: front_iff)
  from front_add[OF assms, of job] obtain ys where ys: "items (add k job q) i = j # ys"
    using i by (auto simp: front_iff selected_add)
  from pop_front[OF inv_add[OF assms(1)] _ ys] i(1) show ?thesis by (auto simp: selected_add ys)
qed

end

interpretation jq: fifo_queues queues_ok MaximumSize "\<lambda>q i. queues q ! i" current_queue
  "\<lambda>k j q. snd (appendJob k j q)" currentJob popJob
proof unfold_locales
  fix q :: "'a job_queues" and k i :: nat and j :: 'a and js
  show "queues_ok q \<Longrightarrow> queues_ok (snd (appendJob k j q))" by (rule queues_ok_append)
  show "current_queue (snd (appendJob k j q)) = current_queue q"
    by (simp add: appendJob_def current_queue_def)
  show "queues_ok q \<Longrightarrow> current_queue q = Some i \<Longrightarrow> i < MaximumSize"
    by (simp add: current_queue_iff queues_ok_def)
  show "queues_ok q \<Longrightarrow> k < MaximumSize \<Longrightarrow> i < MaximumSize \<Longrightarrow>
      queues (snd (appendJob k j q)) ! i = (if i = k then queues q ! k @ [j] else queues q ! i)"
    by (auto simp: appendJob_def queues_ok_def)
  show "currentJob q = Some j \<longleftrightarrow> (\<exists>i js. current_queue q = Some i \<and> queues q ! i = j # js)"
    by (rule currentJob_Some_iff)
  show "\<exists>q'. popJob q = Some q' \<and> queues_ok q' \<and> queues q' ! i = js \<and>
      (\<forall>k<MaximumSize. k \<noteq> i \<longrightarrow> queues q' ! k = queues q ! k)"
    if a: "queues_ok q" "current_queue q = Some i" "queues q ! i = j # js"
    using popJob_current[OF a] a(2) by (auto simp: current_queue_iff)
qed

lemma set_currentJob_current:
  assumes "queues_ok q" "current_queue q = Some i" "queues q ! i = j # js"
  shows "queues_ok (set_currentJob j' q) \<and> current_queue (set_currentJob j' q) = Some i \<and>
    queues (set_currentJob j' q) = (queues q)[i := j' # js]"
proof -
  have i: "i < length (queues q)" using assms(2) by (simp add: current_queue_iff)
  have "sum_list (map length ((queues q)[i := j' # js])) = sum_list (map length (queues q))"
    using sum_list_update[OF i, of "j' # js"] assms(3) by simp
  moreover have "set_currentJob j' q = q\<lparr>queues := (queues q)[i := j' # js]\<rparr>"
    using assms(2,3) by (simp add: set_currentJob_def)
  ultimately show ?thesis using assms(1,2) by (simp add: queues_ok_def current_queue_iff)
qed

section \<open>The invariant\<close>

definition cloud_inv :: "cloud \<Rightarrow> bool" where
  "cloud_inv s \<longleftrightarrow> queues_ok (jobs s) \<and>
     (pending_op s \<noteq> Idle \<longrightarrow> request s \<noteq> None \<and> currentJob (jobs s) = request s \<and> session s \<noteq> None) \<and>
     (pending_op s = Connecting \<longrightarrow> (\<forall>c. session s = Some c \<longrightarrow> \<not> pc_connected c))"

lemma setupRequest_ok:
  assumes "queues_ok (jobs s)" "hasJob (jobs s)"
  shows "\<exists>job i. setupRequest s = Some (s\<lparr>jobs := (jobs s)\<lparr>current := int i\<rparr>, request := Some job\<rparr>) \<and>
    currentJob ((jobs s)\<lparr>current := int i\<rparr>) = Some job"
proof -
  from nextJob_exists[OF assms] obtain j q' where n: "nextJob (jobs s) = Some (j, q')" by blast
  from nextJob_Some[OF n] obtain i js where
    i: "q' = (jobs s)\<lparr>current := int i\<rparr>" "i < length (queues (jobs s))" "queues (jobs s) ! i = j # js" by blast
  then have "currentJob ((jobs s)\<lparr>current := int i\<rparr>) = Some j"
    by (simp add: currentJob_def current_queue_def)
  with n i show ?thesis by (auto simp: setupRequest_def)
qed

lemma new_session_unconnected: "\<not> pc_connected (new_session s)"
  by (simp add: new_session_def pc_setProxy_def new_proxy_client_def Let_def)

lemma sendNextHttp_ok:
  assumes "queues_ok (jobs s)" "pending_op s = Idle"
  shows "\<exists>s'. sendNextHttp r s = Some s' \<and> cloud_inv s' \<and> queues (jobs s') = queues (jobs s)"
proof (cases "hasJob (jobs s)")
  case False
  with assms show ?thesis by (simp add: sendNextHttp_def cloud_inv_def)
next
  case True
  from setupRequest_ok[OF assms(1) True] obtain job i where
    j: "setupRequest s = Some (s\<lparr>jobs := (jobs s)\<lparr>current := int i\<rparr>, request := Some job\<rparr>)"
      "currentJob ((jobs s)\<lparr>current := int i\<rparr>) = Some job" by blast
  let ?s1 = "s\<lparr>jobs := (jobs s)\<lparr>current := int i\<rparr>, request := Some job\<rparr>"
  have q: "queues_ok ((jobs s)\<lparr>current := int i\<rparr>)" using assms(1) by (simp add: queues_ok_def)
  show ?thesis
  proof (cases "session s")
    case (Some c)
    with True j q show ?thesis by (simp add: sendNextHttp_def cloud_inv_def)
  next
    case None
    let ?s2 = "?s1\<lparr>session := Some (new_session ?s1)\<rparr>"
    show ?thesis
    proof (cases r)
      case r: True
      have "sendNextHttp r s = Some (?s2\<lparr>pending_op := Connecting\<rparr>)"
        using True None j r by (simp add: sendNextHttp_def Let_def)
      with j q show ?thesis by (simp add: cloud_inv_def new_session_unconnected)
    next
      case r: False
      have "hasJob (jobs ?s2)" "queues_ok (jobs ?s2)" using True q by (simp_all add: hasJob_def)
      from setupRequest_ok[OF this(2,1)] obtain job' i' where
        j': "setupRequest ?s2 = Some (?s2\<lparr>jobs := (jobs ?s2)\<lparr>current := int i'\<rparr>, request := Some job'\<rparr>)"
          "currentJob ((jobs ?s2)\<lparr>current := int i'\<rparr>) = Some job'" by blast
      have "sendNextHttp r s = Some (?s2\<lparr>jobs := (jobs ?s2)\<lparr>current := int i'\<rparr>, request := Some job',
          pending_op := Writing\<rparr>)"
        using True None j j'(1) r by (simp add: sendNextHttp_def Let_def)
      with j' q show ?thesis by (simp add: cloud_inv_def queues_ok_def)
    qed
  qed
qed

section \<open>Steps\<close>

text \<open>What identifies a job, without its count of retries.\<close>

definition strip :: "http_job \<Rightarrow> string \<times> (string \<times> json_value) list" where
  "strip j = (target j, jcontext j)"

definition content :: "nat \<Rightarrow> cloud \<Rightarrow> (string \<times> (string \<times> json_value) list) list" where
  "content k s = map strip (queues (jobs s) ! k)"

text \<open>The job of category \<open>k\<close> that an input adds, and the one that it finishes.\<close>

definition step_adds :: "nat \<Rightarrow> cloud_input \<Rightarrow> (string \<times> (string \<times> json_value) list) list" where
  "step_adds k inp = (case inp of AddJob cat job \<Rightarrow> if cat = k then [strip job] else [] | _ \<Rightarrow> [])"

definition step_finishes :: "nat \<Rightarrow> cloud_input \<Rightarrow> cloud \<Rightarrow> (string \<times> (string \<times> json_value) list) list" where
  "step_finishes k inp s =
     (case inp of
        ReadDone None is_ok \<Rightarrow>
          (case currentJob (jobs s) of
             None \<Rightarrow> []
           | Some j \<Rightarrow>
               if pending_op s = Reading \<and> current (jobs s) = int k \<and> (is_ok \<or> retryTimes j \<le> 0)
               then [strip j] else [])
      | _ \<Rightarrow> [])"

fun valid_input :: "cloud_input \<Rightarrow> bool" where
  "valid_input (AddJob cat job) = (cat < MaximumSize)"
| "valid_input _ = True"

definition step_ok :: "bool \<Rightarrow> cloud_input \<Rightarrow> cloud \<Rightarrow> bool" where
  "step_ok r inp s \<longleftrightarrow>
     (\<exists>s'. cloud_step r inp s = Some s' \<and> cloud_inv s' \<and>
        (\<forall>k<MaximumSize. content k s @ step_adds k inp = step_finishes k inp s @ content k s'))"

lemma content_same: "queues (jobs s') = queues (jobs s) \<Longrightarrow> content k s' = content k s"
  by (simp add: content_def)

lemma qsize_pos:
  assumes "queues_ok q" "currentJob q = Some j"
  shows "0 < qsize q"
proof -
  from assms(2) obtain i js where i: "current_queue q = Some i" "queues q ! i = j # js"
    by (auto simp: currentJob_Some_iff)
  have "length (queues q ! i) \<le> sum_list (map length (queues q))"
    using i(1) elem_le_sum_list[of i "map length (queues q)"] by (simp add: current_queue_iff)
  with assms(1) i(2) show ?thesis by (simp add: queues_ok_def)
qed

lemma add_step:
  assumes "cloud_inv s" "cat < MaximumSize"
  shows "step_ok r (AddJob cat job) s"
proof -
  let ?q = "snd (appendJob cat job (jobs s))"
  let ?s1 = "s\<lparr>jobs := ?q\<rparr>"
  have q: "queues_ok (jobs s)" using assms(1) by (simp add: cloud_inv_def)
  then have q1: "queues_ok ?q" by (rule queues_ok_append)
  have qs: "queues ?q = (queues (jobs s))[cat := queues (jobs s) ! cat @ [job]]" "qsize ?q = qsize (jobs s) + 1"
    using q assms(2) by (simp_all add: appendJob_def queues_ok_def)
  have c: "content k s @ step_adds k (AddJob cat job) = content k ?s1" if "k < MaximumSize" for k
    using qs(1) q that by (cases "k = cat") (auto simp: content_def step_adds_def queues_ok_def)
  have "\<exists>s'. addHttpJob r cat job s = Some s' \<and> cloud_inv s' \<and> queues (jobs s') = queues ?q"
  proof (cases "qsize ?q = 1")
    case True
    have "pending_op s = Idle"
    proof (rule ccontr)
      assume "pending_op s \<noteq> Idle"
      with assms(1) obtain j where "currentJob (jobs s) = Some j" by (auto simp: cloud_inv_def)
      from qsize_pos[OF q this] qs(2) True show False by simp
    qed
    with sendNextHttp_ok[of ?s1 r] q1 True show ?thesis by (simp add: addHttpJob_def)
  next
    case False
    have "cloud_inv ?s1"
      using assms(1) q1 jq.front_add[OF q assms(2)] by (auto simp: cloud_inv_def)
    with False show ?thesis by (simp add: addHttpJob_def)
  qed
  with c content_same show ?thesis
    by (fastforce simp: step_ok_def cloud_step_def step_finishes_def content_def)
qed

lemma failed_step:
  assumes "queues_ok (jobs s)"
  shows "\<exists>s'. requestFailed r s = Some s' \<and> cloud_inv s' \<and> queues (jobs s') = queues (jobs s)"
  using sendNextHttp_ok[of "s\<lparr>pending_op := Idle\<rparr>" r] assms by (simp add: requestFailed_def)

lemma pc_connect_returns: "\<not> pc_connected c \<Longrightarrow> fst (tcp_connect net c) \<noteq> TcpThrew"
  by (auto simp: tcp_connect_def pc_connect_def onConnectFinished_def onSslHandshakeFinished_def split: option.splits)

lemma connect_step:
  assumes "cloud_inv s"
  shows "step_ok r (ConnectDone net) s"
proof (cases "pending_op s = Connecting")
  case True
  with assms obtain c where c: "session s = Some c" "\<not> pc_connected c" by (auto simp: cloud_inv_def)
  obtain sig c' where t: "tcp_connect net c = (sig, c')" by fastforce
  with pc_connect_returns[OF c(2), of net] have "sig \<noteq> TcpThrew" by simp
  moreover have q: "queues_ok (jobs s)" using assms by (simp add: cloud_inv_def)
  ultimately have "\<exists>s'. onConnected r net s = Some s' \<and> cloud_inv s' \<and> queues (jobs s') = queues (jobs s)"
    using assms c t True failed_step[of "s\<lparr>session := Some c'\<rparr>" r]
    by (cases sig) (auto simp: onConnected_def cloud_inv_def)
  with True show ?thesis
    by (auto simp: step_ok_def cloud_step_def step_adds_def step_finishes_def content_def)
qed (use assms in \<open>simp add: step_ok_def cloud_step_def step_adds_def step_finishes_def\<close>)

lemma write_step:
  assumes "cloud_inv s"
  shows "step_ok r (WriteDone ec) s"
proof (cases "pending_op s = Writing")
  case True
  have "queues_ok (jobs s)" using assms by (simp add: cloud_inv_def)
  then have "\<exists>s'. onWriteFinished r ec s = Some s' \<and> cloud_inv s' \<and> queues (jobs s') = queues (jobs s)"
    using assms True failed_step[of "s\<lparr>session := None\<rparr>" r]
    by (cases ec) (auto simp: onWriteFinished_def cloud_inv_def)
  with True show ?thesis
    by (auto simp: step_ok_def cloud_step_def step_adds_def step_finishes_def content_def)
qed (use assms in \<open>simp add: step_ok_def cloud_step_def step_adds_def step_finishes_def\<close>)

lemma response_step:
  assumes inv: "cloud_inv s" and reading: "pending_op s = Reading"
  shows "\<exists>s'. responseReceived r is_ok s = Some s' \<and> cloud_inv s' \<and>
    (\<forall>k<MaximumSize. content k s = step_finishes k (ReadDone None is_ok) s @ content k s')"
proof -
  from inv reading obtain j where "currentJob (jobs s) = Some j" by (auto simp: cloud_inv_def)
  then obtain i js where i: "current_queue (jobs s) = Some i" "queues (jobs s) ! i = j # js"
    by (auto simp: currentJob_Some_iff)
  have q: "queues_ok (jobs s)" using inv by (simp add: cloud_inv_def)
  have cur: "currentJob (jobs s) = Some j" "current (jobs s) = int i" "i < length (queues (jobs s))"
    using i by (auto simp: currentJob_Some_iff current_queue_iff)
  let ?j = "j\<lparr>retryTimes := retryTimes j - 1\<rparr>"
  let ?q = "set_currentJob ?j (jobs s)"
  note sc = set_currentJob_current[OF q i, of ?j]
  define fin where "fin = (is_ok \<or> retryTimes j \<le> 0)"
  have "\<exists>q'. (if is_ok then popJob (jobs s)
      else (case currentJob (jobs s) of None \<Rightarrow> None
        | Some job \<Rightarrow> (let q = set_currentJob (job\<lparr>retryTimes := retryTimes job - 1\<rparr>) (jobs s)
                       in if retryTimes job \<le> 0 then popJob q else Some q))) = Some q' \<and>
      queues_ok q' \<and> queues q' = (queues (jobs s))[i := (if fin then js else ?j # js)]"
  proof (cases is_ok)
    case True
    with popJob_current[OF q i] show ?thesis by (simp add: fin_def)
  next
    case False
    have "queues ?q ! i = ?j # js" using sc cur(3) by simp
    with popJob_current[of ?q i ?j js] sc False cur(1) show ?thesis by (auto simp: fin_def)
  qed
  then obtain q' where q': "responseReceived r is_ok s = sendNextHttp r (s\<lparr>jobs := q', pending_op := Idle\<rparr>)"
      "queues_ok q'" "queues q' = (queues (jobs s))[i := (if fin then js else ?j # js)]"
    by (auto simp: responseReceived_def)
  have "content k s = step_finishes k (ReadDone None is_ok) s @ map strip (queues q' ! k)" if "k < MaximumSize" for k
    using that q q'(3) i(2) cur reading
    by (cases "k = i") (auto simp: content_def step_finishes_def fin_def strip_def queues_ok_def)
  with sendNextHttp_ok[of "s\<lparr>jobs := q', pending_op := Idle\<rparr>" r] q' show ?thesis
    by (fastforce simp: content_def)
qed

lemma read_step:
  assumes "cloud_inv s"
  shows "step_ok r (ReadDone ec is_ok) s"
proof (cases "pending_op s = Reading")
  case True
  show ?thesis
  proof (cases ec)
    case None
    with response_step[OF assms True, of r is_ok] True show ?thesis
      by (simp add: step_ok_def cloud_step_def onReadFinished_def step_adds_def)
  next
    case (Some e)
    have "queues_ok (jobs s)" using assms by (simp add: cloud_inv_def)
    with failed_step[of "s\<lparr>session := None\<rparr>" r] Some True show ?thesis
      by (auto simp: step_ok_def cloud_step_def onReadFinished_def step_adds_def step_finishes_def content_def)
  qed
next
  case False
  then have "step_finishes k (ReadDone ec is_ok) s = []" for k
    by (simp add: step_finishes_def split: option.splits)
  with False assms show ?thesis by (simp add: step_ok_def cloud_step_def step_adds_def)
qed

lemma cloud_step_ok:
  assumes "cloud_inv s" "valid_input inp"
  shows "step_ok r inp s"
proof (cases inp)
  case (ProxyChanged host port)
  have "\<not> pc_connected c \<Longrightarrow> \<not> pc_connected (snd (pc_setProxy host port c))" for c
    by (simp add: pc_setProxy_def Let_def)
  with ProxyChanged assms(1) show ?thesis
    by (auto simp: step_ok_def cloud_step_def step_adds_def step_finishes_def content_def cloud_inv_def)
qed (use assms add_step connect_step write_step read_step in auto)

section \<open>Runs\<close>

fun run_adds :: "nat \<Rightarrow> (bool \<times> cloud_input) list \<Rightarrow> (string \<times> (string \<times> json_value) list) list" where
  "run_adds k [] = []"
| "run_adds k ((r, i) # is) = step_adds k i @ run_adds k is"

fun run_finishes :: "nat \<Rightarrow> (bool \<times> cloud_input) list \<Rightarrow> cloud \<Rightarrow> (string \<times> (string \<times> json_value) list) list" where
  "run_finishes k [] s = []"
| "run_finishes k ((r, i) # is) s =
     step_finishes k i s @ (case cloud_step r i s of None \<Rightarrow> [] | Some s' \<Rightarrow> run_finishes k is s')"

lemma cloud_run_ok:
  assumes "cloud_inv s" "\<forall>(r, i)\<in>set inps. valid_input i"
  shows "\<exists>s'. cloud_run inps s = Some s' \<and> cloud_inv s' \<and>
    (\<forall>k<MaximumSize. content k s @ run_adds k inps = run_finishes k inps s @ content k s')"
  using assms
proof (induction inps arbitrary: s)
  case (Cons ri inps)
  obtain r i where ri: "ri = (r, i)" by fastforce
  with Cons.prems have "step_ok r i s" by (auto intro: cloud_step_ok)
  then obtain t where t: "cloud_step r i s = Some t" "cloud_inv t"
      "\<forall>k<MaximumSize. content k s @ step_adds k i = step_finishes k i s @ content k t"
    by (auto simp: step_ok_def)
  from Cons.IH[OF t(2)] Cons.prems(2) obtain s' where s': "cloud_run inps t = Some s'" "cloud_inv s'"
      "\<forall>k<MaximumSize. content k t @ run_adds k inps = run_finishes k inps t @ content k s'" by auto
  have "content k s @ step_adds k i @ run_adds k inps = step_finishes k i s @ run_finishes k inps t @ content k s'"
    if "k < MaximumSize" for k
    using t(3) s'(3) that by (metis append.assoc)
  with ri t(1) s'(1,2) show ?case by simp
qed simp

lemma init_cloud_inv: "cloud_inv init_cloud"
  by (simp add: cloud_inv_def init_cloud_def queues_ok_def init_queues_def MaximumSize_def)

text \<open>
  The client never ends the program through its queues, and while an operation is in progress the
  current job exists and is the one the request was set up for, so that an answer is always
  charged to the job that was sent.
\<close>

theorem request_is_current_job:
  assumes "\<forall>(r, i)\<in>set inps. valid_input i"
  shows "\<exists>s. cloud_run inps init_cloud = Some s \<and>
    (pending_op s \<noteq> Idle \<longrightarrow> request s \<noteq> None \<and> currentJob (jobs s) = request s)"
  using cloud_run_ok[OF init_cloud_inv assms] by (auto simp: cloud_inv_def)

definition demo_jobs :: "(bool \<times> cloud_input) list" where
  "demo_jobs =
     [(True, AddJob ScreenUpdate (status_job (new_screen 1))), (True, AddJob ProfileUpdate (claim_job 2 7 1)),
      (True, ConnectDone \<lparr>has_address = True, connect_error = None, proxy_write_error = None,
                          proxy_read_error = None, tls_error = None\<rparr>),
      (True, WriteDone None), (True, ReadDone None True)]"

lemmas cloud_eval = cloud_step_def init_cloud_def init_queues_def MaximumSize_def ProfileUpdate_def ScreenUpdate_def
  addHttpJob_def appendJob_def sendNextHttp_def hasJob_def setupRequest_def nextJob_def new_session_def
  pc_setProxy_def new_proxy_client_def onConnected_def tcp_connect_def pc_connect_def onConnectFinished_def
  onSslHandshakeFinished_def enabled_def onWriteFinished_def onReadFinished_def responseReceived_def popJob_def
  current_queue_def

lemma demo_jobs_pending: "\<exists>s. cloud_run demo_jobs init_cloud = Some s \<and> pending_op s = Writing"
  by (simp add: demo_jobs_def cloud_eval numeral_3_eq_3)

theorem request_is_current_job_witness:
  "\<exists>s. cloud_run demo_jobs init_cloud = Some s \<and> request s \<noteq> None \<and> currentJob (jobs s) = request s"
  using request_is_current_job[of demo_jobs] demo_jobs_pending
  by (fastforce simp: demo_jobs_def MaximumSize_def ScreenUpdate_def ProfileUpdate_def)

text \<open>
  C36. No job is lost, repeated after it finished, or overtaken within its category: whatever the
  network does, the jobs added to a category are the ones that finished, in their order, followed
  by the ones that still wait, in their order.
\<close>

theorem jobs_finish_in_order:
  assumes "\<forall>(r, i)\<in>set inps. valid_input i" "k < MaximumSize"
  shows "\<exists>s. cloud_run inps init_cloud = Some s \<and>
    run_adds k inps = run_finishes k inps init_cloud @ map strip (queues (jobs s) ! k)"
proof -
  have "content k init_cloud = []"
    using assms(2) by (simp add: content_def init_cloud_def init_queues_def)
  with cloud_run_ok[OF init_cloud_inv assms(1)] assms(2) show ?thesis
    by (fastforce simp: content_def)
qed

theorem jobs_finish_in_order_witness:
  "\<exists>s. cloud_run demo_jobs init_cloud = Some s \<and>
    run_adds 1 demo_jobs = run_finishes 1 demo_jobs init_cloud @ map strip (queues (jobs s) ! 1)"
  by (rule jobs_finish_in_order) (simp_all add: demo_jobs_def MaximumSize_def ScreenUpdate_def ProfileUpdate_def)

section \<open>A proxy that cannot be reached\<close>

definition stalled :: "cloud \<Rightarrow> bool" where
  "stalled s \<longleftrightarrow> pending_op s = Idle \<and> hasJob (jobs s) \<and> queues_ok (jobs s)"

lemma stalled_step:
  assumes "stalled s" "valid_input i"
  shows "\<exists>s'. cloud_step r i s = Some s' \<and> stalled s' \<and> request s' = request s"
proof (cases i)
  case (AddJob cat job)
  have "queues_ok (snd (appendJob cat job (jobs s)))"
    using assms(1) by (simp add: stalled_def queues_ok_append)
  moreover have "qsize (snd (appendJob cat job (jobs s))) = qsize (jobs s) + 1"
    using assms AddJob by (simp add: stalled_def queues_ok_def appendJob_def)
  ultimately show ?thesis
    using assms(1) AddJob by (simp add: cloud_step_def stalled_def addHttpJob_def hasJob_def)
qed (use assms(1) in \<open>auto simp: cloud_step_def stalled_def\<close>)

text \<open>
  C37. When the connection to a configured proxy fails, the failure is reported to nobody: the
  request stays unsent, and from then on no input, neither further jobs nor a changed proxy, makes
  the client send anything.
\<close>

theorem proxy_failure_stalls_queue:
  assumes "cloud_run inps init_cloud = Some s" "\<forall>(r, i)\<in>set inps. valid_input i"
    "pending_op s = Connecting" "session s = Some c" "enabled c" "has_address net" "connect_error net = Some ec"
  shows "\<exists>s'. cloud_step r (ConnectDone net) s = Some s' \<and> hasJob (jobs s') \<and>
    (\<forall>inps'. (\<forall>(r, i)\<in>set inps'. valid_input i) \<longrightarrow>
       (\<exists>s''. cloud_run inps' s' = Some s'' \<and> pending_op s'' = Idle \<and> request s'' = request s))"
proof -
  from cloud_run_ok[OF init_cloud_inv assms(2)] assms(1) have inv: "cloud_inv s" by auto
  with assms(3,4) have c: "\<not> pc_connected c" by (simp add: cloud_inv_def)
  let ?s' = "s\<lparr>session := Some (c\<lparr>pc_open := True\<rparr>), pending_op := Idle\<rparr>"
  have st: "cloud_step r (ConnectDone net) s = Some ?s'"
    using assms(3-7) c by (simp add: cloud_step_def onConnected_def tcp_connect_def pc_connect_def)
  from inv assms(3) obtain j where "currentJob (jobs s) = Some j" by (auto simp: cloud_inv_def)
  with inv qsize_pos have has: "hasJob (jobs s)" by (fastforce simp: cloud_inv_def hasJob_def)
  have run: "\<exists>s''. cloud_run inps' t = Some s'' \<and> stalled s'' \<and> request s'' = request t"
    if "stalled t" "\<forall>(r, i)\<in>set inps'. valid_input i" for inps' t
    using that
  proof (induction inps' arbitrary: t)
    case (Cons ri inps')
    obtain r' i where ri: "ri = (r', i)" by fastforce
    with Cons.prems have "valid_input i" by simp
    from stalled_step[OF Cons.prems(1) this, of r'] obtain u where
      "cloud_step r' i t = Some u" "stalled u" "request u = request t" by blast
    with Cons.IH[of u] Cons.prems(2) ri show ?case by simp
  qed simp
  have "stalled ?s'" using has inv by (simp add: stalled_def cloud_inv_def)
  from run[OF this] have "(\<forall>(r, i)\<in>set inps'. valid_input i) \<longrightarrow>
      (\<exists>s''. cloud_run inps' ?s' = Some s'' \<and> pending_op s'' = Idle \<and> request s'' = request s)" for inps'
    by (fastforce simp: stalled_def)
  with st has show ?thesis by auto
qed

definition demo_proxy_run :: "(bool \<times> cloud_input) list" where
  "demo_proxy_run = [(True, ProxyChanged ''proxy'' 8080), (True, AddJob ProfileUpdate (claim_job 2 7 1))]"

definition demo_refused :: network_run where
  "demo_refused = \<lparr>has_address = True, connect_error = Some 111, proxy_write_error = None,
     proxy_read_error = None, tls_error = None\<rparr>"

lemma demo_proxy_state:
  "cloud_run demo_proxy_run init_cloud = Some
     \<lparr>jobs = \<lparr>queues = [[claim_job 2 7 1], [], []], qsize = 1, current = 0\<rparr>,
      session = Some \<lparr>proxy_host = ''proxy'', proxy_port = 8080, pc_open = False, pc_connected = False\<rparr>,
      session_proxy = (''proxy'', 8080), pending_op = Connecting, request = Some (claim_job 2 7 1),
      cloud_proxy = ('''', 80)\<rparr>"
  by (simp add: demo_proxy_run_def cloud_eval numeral_3_eq_3)

theorem proxy_failure_stalls_queue_witness:
  "\<exists>s s' s''. cloud_run demo_proxy_run init_cloud = Some s \<and>
    cloud_step True (ConnectDone demo_refused) s = Some s' \<and> hasJob (jobs s') \<and>
    cloud_run [(True, AddJob ProfileUpdate (claim_job 3 7 1))] s' = Some s'' \<and>
    pending_op s'' = Idle \<and> request s'' = request s"
proof -
  let ?more = "[(True, AddJob ProfileUpdate (claim_job 3 7 1))]"
  have v: "\<forall>(r, i)\<in>set demo_proxy_run. valid_input i" "\<forall>(r, i)\<in>set ?more. valid_input i"
    by (simp_all add: demo_proxy_run_def ProfileUpdate_def MaximumSize_def)
  from proxy_failure_stalls_queue[OF demo_proxy_state v(1), of _ demo_refused 111 True] v(2)
  show ?thesis unfolding demo_proxy_state by (auto simp: demo_refused_def enabled_def simp del: cloud_run.simps)
qed

end
