(* ===== verification/Screens.thy ===== *)
theory Screens
  imports ConfigGen
begin

text \<open>
  The screens of the configuration program: one screen (\<open>config/lib/UIScreen.cpp\<close>,
  \<open>common/ScreenError.h\<close>) and the list of them that the view shows
  (\<open>config/lib/ScreenListModel.cpp\<close>). The notifications to the Qt view are left out. The status
  image, which the code keeps in a field of its own and sets together with the status, is a
  function of the status here.
\<close>

section \<open>One screen\<close>

definition kScreenIconWidth :: int where "kScreenIconWidth = 86"
definition kScreenIconHeight :: int where "kScreenIconHeight = 58"
definition kDefaultViewWidth :: int where "kDefaultViewWidth = 600"
definition kDefaultViewHeight :: int where "kDefaultViewHeight = 380"

lemmas icon_defs = kScreenIconWidth_def kScreenIconHeight_def kDefaultViewWidth_def
  kDefaultViewHeight_def

record ui_screen =
  ui_id :: int
  ui_posX :: int
  ui_posY :: int
  ui_name :: string
  ui_status :: screen_status
  ui_locked :: bool
  ui_errorCode :: u32
  ui_errorMessage :: string
  ui_version :: int

definition UIScreen :: "string \<Rightarrow> ui_screen" where
  "UIScreen name =
     \<lparr>ui_id = -1, ui_posX = -1, ui_posY = -1, ui_name = name, ui_status = SInactive,
      ui_locked = False, ui_errorCode = 0, ui_errorMessage = '''', ui_version = -1\<rparr>"

fun statusImage :: "screen_status \<Rightarrow> string" where
  "statusImage SConnected = ''qrc:/res/image/screen-active.png''"
| "statusImage SConnecting = ''qrc:/res/image/screen-inactive.png''"
| "statusImage SDisconnected = ''qrc:/res/image/screen-inactive.png''"
| "statusImage SInactive = ''qrc:/res/image/screen-inactive.png''"

definition setPosX :: "int \<Rightarrow> ui_screen \<Rightarrow> ui_screen" where
  "setPosX x s =
     (if x \<le> - kScreenIconWidth \<or> x \<ge> kDefaultViewWidth then s else s\<lparr>ui_posX := x\<rparr>)"

definition setPosY :: "int \<Rightarrow> ui_screen \<Rightarrow> ui_screen" where
  "setPosY y s =
     (if y \<le> - kScreenIconHeight \<or> y \<ge> kDefaultViewHeight then s else s\<lparr>ui_posY := y\<rparr>)"

text \<open>\<open>setStatus\<close> for a text: \<open>None\<close> where the text is no status, which ends the program.\<close>

definition setStatus_text :: "string \<Rightarrow> ui_screen \<Rightarrow> ui_screen option" where
  "setStatus_text t s = map_option (\<lambda>st. s\<lparr>ui_status := st\<rparr>) (stringToScreenStatus t)"

definition touch :: "ui_screen \<Rightarrow> ui_screen" where
  "touch s = s\<lparr>ui_version := ui_version s + 1\<rparr>"

definition kSynergyHelpUrl :: string where
  "kSynergyHelpUrl = ''https://symless.com/synergy/help/''"

definition screenErrorUrlMap :: "(u32 \<times> string) list" where
  "screenErrorUrlMap =
     [(0x10000001, ''connection''), (0x20000001, ''core''), (0x20000002, ''core''),
      (0x30000000, ''general'')]"

definition getHelpUrl :: "u32 \<Rightarrow> string" where
  "getHelpUrl ec =
     ''<a href='' @ [CHR 0x27] @
     (case map_of screenErrorUrlMap ec of
        Some page \<Rightarrow> kSynergyHelpUrl @ page
      | None \<Rightarrow> kSynergyHelpUrl @ ''general'') @
     [CHR 0x27] @ ''>Help</a>''"

definition getDefaultErrorMessage :: string where
  "getDefaultErrorMessage = ''There seem to be an error in this screen''"

definition errorMessage :: "ui_screen \<Rightarrow> string" where
  "errorMessage s = (if ui_errorMessage s = [] then getDefaultErrorMessage else ui_errorMessage s)"

text \<open>\<open>operator==\<close>: two screens are the same if name and identifier are.\<close>

definition same_screen :: "ui_screen \<Rightarrow> ui_screen \<Rightarrow> bool" where
  "same_screen s t \<longleftrightarrow> ui_name s = ui_name t \<and> ui_id s = ui_id t"

section \<open>The list\<close>

record screen_list =
  m_screens :: "ui_screen list"
  m_list_scale :: rat

definition new_screen_list :: screen_list where
  "new_screen_list = \<lparr>m_screens = [], m_list_scale = 1\<rparr>"

text \<open>The loops that look for a screen: its index, or -1.\<close>

fun index_from :: "(ui_screen \<Rightarrow> bool) \<Rightarrow> int \<Rightarrow> ui_screen list \<Rightarrow> int" where
  "index_from P i [] = -1"
| "index_from P i (s # ss) = (if P s then i else index_from P (i + 1) ss)"

definition findScreen :: "int \<Rightarrow> screen_list \<Rightarrow> int" where
  "findScreen screenId m = index_from (\<lambda>s. ui_id s = screenId) 0 (m_screens m)"

definition findScreen_name :: "string \<Rightarrow> screen_list \<Rightarrow> int" where
  "findScreen_name name m = index_from (\<lambda>s. ui_name s = name) 0 (m_screens m)"

definition getModelIndex :: "int \<Rightarrow> int \<Rightarrow> screen_list \<Rightarrow> int" where
  "getModelIndex x y m =
     index_from (\<lambda>s. ui_posX s \<le> x \<and> ui_posX s + kScreenIconWidth \<ge> x \<and>
                      ui_posY s \<le> y \<and> ui_posY s + kScreenIconHeight \<ge> y) 0 (m_screens m)"

definition getScreenModeSize :: "screen_list \<Rightarrow> int" where
  "getScreenModeSize m = int (length (m_screens m))"

text \<open>\<open>getScreen\<close> asserts that the index is one of the list; so do its callers here.\<close>

definition getScreen_at :: "screen_list \<Rightarrow> int \<Rightarrow> ui_screen" where
  "getScreen_at m i = m_screens m ! nat i"

definition in_list :: "int \<Rightarrow> screen_list \<Rightarrow> bool" where
  "in_list i m \<longleftrightarrow> \<not> (i < 0 \<or> i \<ge> getScreenModeSize m)"

definition change_at :: "int \<Rightarrow> (ui_screen \<Rightarrow> ui_screen) \<Rightarrow> screen_list \<Rightarrow> screen_list" where
  "change_at i f m =
     m\<lparr>m_screens := (m_screens m)[nat i := f (m_screens m ! nat i)]\<rparr>"

definition move_by :: "int \<Rightarrow> int \<Rightarrow> ui_screen \<Rightarrow> ui_screen" where
  "move_by dx dy s = setPosY (ui_posY s + dy) (setPosX (ui_posX s + dx) s)"

definition moveModel :: "int \<Rightarrow> int \<Rightarrow> int \<Rightarrow> screen_list \<Rightarrow> screen_list" where
  "moveModel i offsetX offsetY m =
     (if in_list i m then change_at i (move_by offsetX offsetY) m else m)"

definition lockScreen :: "int \<Rightarrow> screen_list \<Rightarrow> screen_list" where
  "lockScreen i m = (if in_list i m then change_at i (\<lambda>s. s\<lparr>ui_locked := True\<rparr>) m else m)"

definition unlockScreen :: "int \<Rightarrow> screen_list \<Rightarrow> screen_list" where
  "unlockScreen i m = (if in_list i m then change_at i (\<lambda>s. s\<lparr>ui_locked := False\<rparr>) m else m)"

text \<open>
  The guard of \<open>setScreenStatus\<close> lets the index just past the end through, where the access
  asserts; \<open>touchScreen\<close> has no guard. \<open>None\<close> is the failed assertion.
\<close>

definition setScreenStatus :: "int \<Rightarrow> screen_status \<Rightarrow> screen_list \<Rightarrow> screen_list option" where
  "setScreenStatus i st m =
     (if i < 0 \<or> i > getScreenModeSize m then Some m
      else if i = getScreenModeSize m then None
      else Some (change_at i (\<lambda>s. s\<lparr>ui_status := st\<rparr>) m))"

definition touchScreen :: "int \<Rightarrow> screen_list \<Rightarrow> screen_list option" where
  "touchScreen i m = (if in_list i m then Some (change_at i touch m) else None)"

definition addScreen_list :: "ui_screen \<Rightarrow> screen_list \<Rightarrow> screen_list" where
  "addScreen_list s m = m\<lparr>m_screens := m_screens m @ [s]\<rparr>"

text \<open>\<open>QList::removeAt\<close> leaves the list alone for an index out of range.\<close>

definition removeScreen_list :: "int \<Rightarrow> screen_list \<Rightarrow> screen_list" where
  "removeScreen_list i m =
     (let index = findScreen i m in
      if in_list index m
      then m\<lparr>m_screens := take (nat index) (m_screens m) @ drop (Suc (nat index)) (m_screens m)\<rparr>
      else m)"

definition update_one :: "ui_screen \<Rightarrow> screen_list \<Rightarrow> screen_list" where
  "update_one s m =
     (let r = findScreen (ui_id s) m in
      if r \<noteq> -1 then change_at r (\<lambda>_. s) m else addScreen_list s m)"

definition update_list :: "ui_screen list \<Rightarrow> screen_list \<Rightarrow> screen_list" where
  "update_list ss m = fold update_one ss m"

definition getScreenPos :: "string \<Rightarrow> screen_list \<Rightarrow> int \<times> int \<Rightarrow> int \<times> int" where
  "getScreenPos name m old =
     (case find (\<lambda>s. ui_name s = name) (m_screens m) of
        Some s \<Rightarrow> (ui_posX s, ui_posY s)
      | None \<Rightarrow> old)"

definition adjustAll :: "int \<Rightarrow> int \<Rightarrow> screen_list \<Rightarrow> screen_list" where
  "adjustAll disX disY m = m\<lparr>m_screens := map (move_by disX disY) (m_screens m)\<rparr>"

text \<open>What the view reads: one cell of a row.\<close>

datatype cell = CInt int | CString string | CNone

datatype role =
    PosXRole | PosYRole | NameRole | StatusImageRole | ScreenStatusRole | ErrorMessageRole
  | HelpLinkRole | ScreenErrorCode | IdRole | OtherRole

fun cell_of :: "role \<Rightarrow> ui_screen \<Rightarrow> cell" where
  "cell_of PosXRole s = CInt (ui_posX s)"
| "cell_of PosYRole s = CInt (ui_posY s)"
| "cell_of NameRole s = CString (ui_name s)"
| "cell_of StatusImageRole s = CString (statusImage (ui_status s))"
| "cell_of ScreenStatusRole s = CString (screenStatusToString (ui_status s))"
| "cell_of ScreenErrorCode s = CInt (sint (ui_errorCode s))"
| "cell_of ErrorMessageRole s = CString (errorMessage s)"
| "cell_of HelpLinkRole s = CString (getHelpUrl (ui_errorCode s))"
| "cell_of IdRole s = CInt (ui_id s)"
| "cell_of OtherRole s = CNone"

definition data_cell :: "int \<Rightarrow> role \<Rightarrow> screen_list \<Rightarrow> cell" where
  "data_cell i r m = (if in_list i m then cell_of r (getScreen_at m i) else CNone)"

end
