(* ===== verification/Float32.thy ===== *)
theory Float32
  imports Prelude Complex_Main "HOL-Library.Log_Nat"
begin

text \<open>
  Single precision numbers as the layout code uses them: a rational number, and the rounding to
  24 significant bits, ties to even, that every operation of \<open>float\<close> ends with. Exponents are not
  bounded here: the sizes of views and icons are far from overflow and from the subnormal numbers.
\<close>

section \<open>Rounding\<close>

definition round_even :: "rat \<Rightarrow> int" where
  "round_even y =
     (let f = \<lfloor>y\<rfloor>; d = y - of_int f in if d < 1 / 2 \<or> (d = 1 / 2 \<and> even f) then f else f + 1)"

text \<open>The exponent of the leading binary digit, and the distance of the neighbours.\<close>

definition lead_exp :: "rat \<Rightarrow> int" where
  "lead_exp x =
     (let (a, b) = quotient_of \<bar>x\<bar>; k = bitlen a - bitlen b
      in if \<bar>x\<bar> < 2 powi k then k - 1 else k)"

definition ulp :: "rat \<Rightarrow> rat" where
  "ulp x = 2 powi (lead_exp x - 23)"

definition fl :: "rat \<Rightarrow> rat" where
  "fl x = (if x = 0 then 0 else of_int (round_even (x / ulp x)) * ulp x)"

text \<open>The conversion from \<open>float\<close> to \<open>int\<close> drops the fraction.\<close>

definition trunc :: "rat \<Rightarrow> int" where
  "trunc x = (if x < 0 then \<lceil>x\<rceil> else \<lfloor>x\<rfloor>)"

section \<open>The error of a rounding\<close>

lemma round_even_error: "\<bar>of_int (round_even y) - y\<bar> \<le> 1 / 2"
  using of_int_floor_le [of y] floor_correct [of y]
  by (auto simp: round_even_def Let_def abs_le_iff)

lemma round_even_of_int [simp]: "round_even (of_int n) = n"
  by (simp add: round_even_def)

lemma bitlen_powi:
  assumes "0 < a"
  shows "2 powi (bitlen a - 1) \<le> (of_int a :: rat)" "(of_int a :: rat) < 2 powi bitlen a"
proof -
  have b: "1 \<le> bitlen a"
    using assms by (simp add: bitlen_alt_def)
  have "2 powi (bitlen a - 1) = (of_int (2 ^ nat (bitlen a - 1)) :: rat)"
    using b by (simp add: power_int_def)
  also have "\<dots> \<le> of_int a"
    using bitlen_bounds [OF assms] by (simp only: of_int_le_iff)
  finally show "2 powi (bitlen a - 1) \<le> (of_int a :: rat)" .
  have "(of_int a :: rat) < of_int (2 ^ nat (bitlen a))"
    using bitlen_bounds [OF assms] by (simp only: of_int_less_iff)
  also have "\<dots> = 2 powi bitlen a"
    using b by (simp add: power_int_def)
  finally show "(of_int a :: rat) < 2 powi bitlen a" .
qed

lemma lead_exp_bounds:
  assumes "x \<noteq> 0"
  shows "2 powi lead_exp x \<le> \<bar>x\<bar>" "\<bar>x\<bar> < 2 powi (lead_exp x + 1)"
proof -
  obtain a b where q: "quotient_of \<bar>x\<bar> = (a, b)"
    by fastforce
  have b: "0 < b" and xab: "\<bar>x\<bar> = of_int a / of_int b"
    using quotient_of_denom_pos [OF q] quotient_of_div [OF q] by auto
  have "0 < (of_int a :: rat) / of_int b"
    using assms unfolding xab [symmetric] by simp
  then have a: "0 < a"
    using b by (simp add: zero_less_divide_iff)
  let ?k = "bitlen a - bitlen b"
  have "2 powi (bitlen a - 1) / 2 powi bitlen b \<le> \<bar>x\<bar>"
    unfolding xab using bitlen_powi [OF a] bitlen_powi [OF b] a b
    by (intro frac_le) auto
  moreover have "(2 :: rat) powi (bitlen a - 1) / 2 powi bitlen b = 2 powi (?k - 1)"
    by (simp add: power_int_diff [symmetric] algebra_simps)
  ultimately have lo: "2 powi (?k - 1) \<le> \<bar>x\<bar>"
    by simp
  have "\<bar>x\<bar> < 2 powi bitlen a / 2 powi (bitlen b - 1)"
    unfolding xab using bitlen_powi [OF a] bitlen_powi [OF b] a
    by (intro frac_less) auto
  moreover have "(2 :: rat) powi bitlen a / 2 powi (bitlen b - 1) = 2 powi (?k + 1)"
    by (simp add: power_int_diff [symmetric] algebra_simps)
  ultimately have hi: "\<bar>x\<bar> < 2 powi (?k + 1)"
    by simp
  show "2 powi lead_exp x \<le> \<bar>x\<bar>" "\<bar>x\<bar> < 2 powi (lead_exp x + 1)"
    using lo hi by (auto simp: lead_exp_def q Let_def)
qed

lemma fl_error: "\<bar>fl x - x\<bar> \<le> \<bar>x\<bar> / 2 ^ 24"
proof (cases "x = 0")
  case False
  have pos: "0 < ulp x"
    by (simp add: ulp_def)
  have "fl x - x = (of_int (round_even (x / ulp x)) - x / ulp x) * ulp x"
    using False pos by (simp add: fl_def left_diff_distrib)
  then have "\<bar>fl x - x\<bar> \<le> 1 / 2 * ulp x"
    using round_even_error [of "x / ulp x"] pos by (simp only: abs_mult) (simp add: mult_right_mono)
  also have "1 / 2 * ulp x = 2 powi lead_exp x / 2 ^ 24"
    by (simp add: ulp_def power_int_diff)
  also have "\<dots> \<le> \<bar>x\<bar> / 2 ^ 24"
    using lead_exp_bounds [OF False] by (simp add: divide_right_mono)
  finally show ?thesis .
qed (simp add: fl_def)

text \<open>Small integers are numbers of the format.\<close>

lemma fl_of_int:
  assumes "\<bar>n\<bar> < 2 ^ 24"
  shows "fl (of_int n) = of_int n"
proof (cases "n = 0")
  case False
  let ?e = "lead_exp (of_int n)"
  have "2 powi ?e \<le> (\<bar>of_int n\<bar> :: rat)"
    using lead_exp_bounds [of "of_int n"] False by simp
  also have "\<bar>of_int n\<bar> < (of_int (2 ^ 24) :: rat)"
    using assms by (simp only: of_int_abs [symmetric] of_int_less_iff)
  finally have "(2 :: rat) powi ?e < 2 powi 24"
    by simp
  then have e: "?e \<le> 23"
    using power_int_increasing [of 24 ?e "2 :: rat"] by linarith
  have u: "inverse (ulp (of_int n)) = of_int (2 ^ nat (23 - ?e))"
    using e by (simp add: ulp_def power_int_minus [symmetric] power_int_def power_one_over)
  have "of_int n / ulp (of_int n) = of_int (n * 2 ^ nat (23 - ?e))"
    by (simp only: divide_inverse u of_int_mult)
  then have "fl (of_int n) = of_int n / ulp (of_int n) * ulp (of_int n)"
    using False by (simp only: fl_def round_even_of_int of_int_eq_0_iff if_False)
  then show ?thesis
    by (simp add: ulp_def)
qed (simp add: fl_def)

lemma fl_between:
  assumes "0 \<le> x"
  shows "x * (1 - 1 / 2 ^ 24) \<le> fl x" "fl x \<le> x * (1 + 1 / 2 ^ 24)"
proof -
  have e: "\<bar>fl x - x\<bar> \<le> x / 2 ^ 24"
    using fl_error [of x] assms by simp
  have "x * (1 - 1 / 2 ^ 24) = x - x / 2 ^ 24"
    by (simp only: right_diff_distrib mult_1_right times_divide_eq_right)
  also have "\<dots> \<le> fl x"
    using e by linarith
  finally show "x * (1 - 1 / 2 ^ 24) \<le> fl x" .
  have "fl x \<le> x + x / 2 ^ 24"
    using e by linarith
  also have "\<dots> = x * (1 + 1 / 2 ^ 24)"
    by (simp only: distrib_left mult_1_right times_divide_eq_right)
  finally show "fl x \<le> x * (1 + 1 / 2 ^ 24)" .
qed

lemma fl_nonneg: "0 \<le> x \<Longrightarrow> 0 \<le> fl x"
  using fl_between(1) [of x] by simp

end
