(* ===== verification/Arrangement.thy ===== *)
theory Arrangement
  imports Screens Float32
begin

text \<open>
  The layout of the screens in the view (\<open>config/lib/ScreenBBArrangement.cpp\<close>). The layout keeps
  the bounding box of the screens as it last computed it, the size of the view, the size that
  the scaled view stands for, and the scale. Every operation takes the layout and the list of
  screens and returns both. \<open>QVector2D\<close> holds single precision numbers; the adjustments in it
  are small integers, which it represents exactly, and are integers here. The name of this
  computer, which the code asks the system for, is a parameter.
\<close>

section \<open>State\<close>

definition kSnappingThreshold :: int where "kSnappingThreshold = 7"
definition kScaleThreshold :: rat where "kScaleThreshold = 3 / 2"

definition INT_MAX :: int where "INT_MAX = 2 ^ 31 - 1"
definition INT_MIN :: int where "INT_MIN = - (2 ^ 31)"

record arrangement =
  m_originalViewW :: int
  m_originalViewH :: int
  m_scaledViewW :: int
  m_scaledViewH :: int
  m_topLeftX :: int
  m_topLeftY :: int
  m_bottomRightX :: int
  m_bottomRightY :: int
  m_scale :: rat

definition new_arrangement :: arrangement where
  "new_arrangement =
     \<lparr>m_originalViewW = kDefaultViewWidth, m_originalViewH = kDefaultViewHeight,
      m_scaledViewW = kDefaultViewWidth, m_scaledViewH = kDefaultViewHeight,
      m_topLeftX = 0, m_topLeftY = 0, m_bottomRightX = 0, m_bottomRightY = 0, m_scale = 1\<rparr>"

type_synonym layout = "arrangement \<times> screen_list"

text \<open>Division of an \<open>int\<close> by two drops the fraction.\<close>

definition half :: "int \<Rightarrow> int" where
  "half x = (if x < 0 then - ((- x) div 2) else x div 2)"

text \<open>The loops over the list that skip one index: the indices and the screens they visit.\<close>

definition other_indices :: "int \<Rightarrow> screen_list \<Rightarrow> int list" where
  "other_indices skip m = filter (\<lambda>i. i \<noteq> skip) (map int [0..<length (m_screens m)])"

definition other_screens :: "int \<Rightarrow> screen_list \<Rightarrow> ui_screen list" where
  "other_screens skip m = map (getScreen_at m) (other_indices skip m)"

section \<open>The bounding box\<close>

definition box_add :: "ui_screen \<Rightarrow> int \<times> int \<times> int \<times> int \<Rightarrow> int \<times> int \<times> int \<times> int" where
  "box_add s = (\<lambda>(left, top, right, bottom).
     (let posX = ui_posX s; posY = ui_posY s in
      (if left < posX then left else posX,
       if top < posY then top else posY,
       if right > posX + kScreenIconWidth then right else posX + kScreenIconWidth,
       if bottom > posY + kScreenIconHeight then bottom else posY + kScreenIconHeight)))"

definition bounding_box :: "ui_screen list \<Rightarrow> int \<times> int \<times> int \<times> int" where
  "bounding_box ss =
     (let (left, top, right, bottom) = fold box_add ss (INT_MAX, INT_MAX, INT_MIN, INT_MIN) in
      (if left = INT_MAX then 0 else left, if top = INT_MAX then 0 else top,
       if right = INT_MIN then 0 else right, if bottom = INT_MIN then 0 else bottom))"

definition recalculateBoundingBox :: "int \<Rightarrow> screen_list \<Rightarrow> arrangement \<Rightarrow> arrangement" where
  "recalculateBoundingBox ignoreIndex m a =
     (let (left, top, right, bottom) = bounding_box (other_screens ignoreIndex m) in
      a\<lparr>m_topLeftX := left, m_topLeftY := top, m_bottomRightX := right, m_bottomRightY := bottom\<rparr>)"

text \<open>
  \<open>adjustToCenter\<close> works on the two axes alike: it moves the interval of the box to the middle
  of the view and then pushes it back inside. The result is the new interval and the distance.
\<close>

definition center_axis :: "int \<Rightarrow> int \<Rightarrow> int \<Rightarrow> int \<times> int \<times> int" where
  "center_axis view lo hi =
     (let dis = half view - half (hi + lo);
          lo1 = lo + dis; hi1 = hi + dis;
          dis2 = (if lo1 < 0 then dis - lo1 else dis); lo2 = (if lo1 < 0 then 0 else lo1);
          dis3 = (if hi1 > view then dis2 - (hi1 - view) else dis2);
          hi3 = (if hi1 > view then view else hi1)
      in (dis3, lo2, hi3))"

definition adjustToCenter :: "layout \<Rightarrow> layout" where
  "adjustToCenter = (\<lambda>(a, m).
     (let (disX, left, right) = center_axis (m_scaledViewW a) (m_topLeftX a) (m_bottomRightX a);
          (disY, top, bottom) = center_axis (m_scaledViewH a) (m_topLeftY a) (m_bottomRightY a)
      in (a\<lparr>m_topLeftX := left, m_topLeftY := top, m_bottomRightX := right,
            m_bottomRightY := bottom\<rparr>,
          adjustAll disX disY m)))"

text \<open>
  The scale, and the factor by which the scaled view is larger. Where the factor is zero the
  code divides by it, and the infinite scale is cut to one like every scale above one.
\<close>

definition float_of :: "int \<Rightarrow> rat" where
  "float_of n = fl (of_int n)"

definition max_times :: "arrangement \<Rightarrow> rat" where
  "max_times a =
     (let timesOnX = fl (float_of (m_bottomRightX a - m_topLeftX a) / float_of (m_originalViewW a));
          timesOnY = fl (float_of (m_bottomRightY a - m_topLeftY a) / float_of (m_originalViewH a))
      in if timesOnX > timesOnY then timesOnX else timesOnY)"

definition scale_for :: "rat \<Rightarrow> rat \<times> rat" where
  "scale_for maxTimes =
     (if maxTimes = 0 \<or> fl (1 / maxTimes) > 1 then (1, 1) else (fl (1 / maxTimes), maxTimes))"

definition rescale :: "layout \<Rightarrow> layout" where
  "rescale = (\<lambda>(a, m).
     (let (scale, maxTimes) = scale_for (max_times a) in
      (a\<lparr>m_scale := scale,
         m_scaledViewW := trunc (fl (float_of (m_originalViewW a) * maxTimes)),
         m_scaledViewH := trunc (fl (float_of (m_originalViewH a) * maxTimes))\<rparr>,
       m\<lparr>m_list_scale := scale\<rparr>)))"

definition was_outside :: "arrangement \<Rightarrow> bool" where
  "was_outside a \<longleftrightarrow>
     m_topLeftX a < 0 \<or> m_topLeftY a < 0 \<or>
     m_bottomRightX a > m_scaledViewW a \<or> m_bottomRightY a > m_scaledViewH a"

definition view_too_big :: "arrangement \<Rightarrow> bool" where
  "view_too_big a \<longleftrightarrow>
     fl (float_of (m_bottomRightX a - m_topLeftX a) * kScaleThreshold) < float_of (m_scaledViewW a) \<or>
     fl (float_of (m_bottomRightY a - m_topLeftY a) * kScaleThreshold) < float_of (m_scaledViewH a)"

definition checkAdjustment :: "bool \<Rightarrow> layout \<Rightarrow> layout" where
  "checkAdjustment forceCenter = (\<lambda>(a, m).
     (if was_outside a \<or> view_too_big a \<or> forceCenter then
        (let (a', m') = rescale (a, m) in
         if m_scale a > m_scale a' \<or> (m_scale a < 1 \<and> m_scale a' = 1) \<or>
            was_outside a \<or> forceCenter
         then adjustToCenter (a', m') else (a', m'))
      else (a, m)))"

definition update_layout :: "layout \<Rightarrow> layout" where
  "update_layout = (\<lambda>(a, m). checkAdjustment False (recalculateBoundingBox (-1) m a, m))"

section \<open>Placing a screen at the box\<close>

definition nearest_x :: "arrangement \<Rightarrow> int \<Rightarrow> int \<times> int" where
  "nearest_x a newPosX =
     (let checkPointX = newPosX + kScreenIconWidth div 2 in
      (\<bar>checkPointX - m_topLeftX a\<bar> * 200 div kScreenIconWidth,
       \<bar>checkPointX - m_bottomRightX a\<bar> * 200 div kScreenIconWidth))"

definition nearest_y :: "arrangement \<Rightarrow> int \<Rightarrow> int \<times> int" where
  "nearest_y a newPosY =
     (let checkPointY = newPosY + kScreenIconHeight div 2 in
      (\<bar>checkPointY - m_topLeftY a\<bar> * 200 div kScreenIconHeight,
       \<bar>checkPointY - m_bottomRightY a\<bar> * 200 div kScreenIconHeight))"

definition wanted_pos :: "string \<Rightarrow> arrangement \<Rightarrow> screen_list \<Rightarrow> ui_screen \<Rightarrow> int \<times> int" where
  "wanted_pos host a m s =
     (let middle = (half (m_scaledViewW a) - kScreenIconWidth div 2,
                    half (m_scaledViewH a) - kScreenIconHeight div 2)
      in if ui_posX s = -1 \<and> ui_posY s = -1 then getScreenPos host m middle
         else (ui_posX s, ui_posY s))"

definition calculateNewPos ::
    "string \<Rightarrow> arrangement \<Rightarrow> screen_list \<Rightarrow> ui_screen \<Rightarrow> ui_screen" where
  "calculateNewPos host a m s =
     (let (newPosX, newPosY) = wanted_pos host a m s in
      if m_topLeftX a - m_bottomRightX a = 0 \<or> m_topLeftY a - m_bottomRightY a = 0
      then setPosY newPosY (setPosX newPosX s)
      else
        (let (disToLeft, disToRight) = nearest_x a newPosX;
             (disToTop, disToBottom) = nearest_y a newPosY;
             minDisX = (if disToLeft < disToRight then disToLeft else disToRight);
             minDisY = (if disToTop < disToBottom then disToTop else disToBottom);
             maxDisX = (if disToLeft > disToRight then disToLeft else disToRight);
             maxDisY = (if disToTop > disToBottom then disToTop else disToBottom)
         in if minDisX < minDisY \<or> (minDisX = minDisY \<and> maxDisY \<le> maxDisX) then
              (if disToLeft < disToRight
               then setPosY newPosY (setPosX (m_topLeftX a - kScreenIconWidth) s)
               else setPosY newPosY (setPosX (m_bottomRightX a) s))
            else if minDisX > minDisY \<or> (minDisX = minDisY \<and> maxDisY > maxDisX) then
              (if disToTop < disToBottom
               then setPosY (m_topLeftY a - kScreenIconHeight) (setPosX newPosX s)
               else setPosY (m_bottomRightY a) (setPosX newPosX s))
            else s))"

definition addScreen :: "string \<Rightarrow> ui_screen \<Rightarrow> layout \<Rightarrow> layout" where
  "addScreen host s = (\<lambda>(a, m).
     update_layout (a, addScreen_list (calculateNewPos host a m s) m))"

definition removeScreen :: "int \<Rightarrow> layout \<Rightarrow> layout" where
  "removeScreen screenId = (\<lambda>(a, m). update_layout (a, removeScreen_list screenId m))"

section \<open>Collisions\<close>

definition collide_rect ::
    "int \<Rightarrow> int \<Rightarrow> int \<Rightarrow> int \<Rightarrow> int \<Rightarrow> int \<Rightarrow> int \<Rightarrow> int \<Rightarrow> bool" where
  "collide_rect srcX srcY srcW srcH desX desY desW desH \<longleftrightarrow>
     srcX < desX + desW \<and> srcY < desY + desH \<and> srcX + srcW > desX \<and> srcY + srcH > desY"

definition collide :: "ui_screen \<Rightarrow> ui_screen \<Rightarrow> bool" where
  "collide src des \<longleftrightarrow>
     collide_rect (ui_posX src) (ui_posY src) kScreenIconWidth kScreenIconHeight
       (ui_posX des) (ui_posY des) kScreenIconWidth kScreenIconHeight"

definition collideWithOthers :: "screen_list \<Rightarrow> int \<Rightarrow> int list" where
  "collideWithOthers m i =
     filter (\<lambda>j. collide (getScreen_at m i) (getScreen_at m j)) (other_indices i m)"

text \<open>The screens that meet the strip of the view on one side of a screen.\<close>

fun side_strip :: "arrangement \<Rightarrow> ui_screen \<Rightarrow> Direction \<Rightarrow> int \<times> int \<times> int \<times> int" where
  "side_strip a s Left = (0, ui_posY s, ui_posX s, kScreenIconHeight)"
| "side_strip a s Right =
     (ui_posX s + kScreenIconWidth, ui_posY s,
      m_scaledViewW a - (ui_posX s + kScreenIconWidth), kScreenIconHeight)"
| "side_strip a s Up = (ui_posX s, 0, kScreenIconWidth, ui_posY s)"
| "side_strip a s Down =
     (ui_posX s, ui_posY s + kScreenIconHeight, kScreenIconWidth,
      m_scaledViewH a - (ui_posY s + kScreenIconHeight))"

definition getScreensNextTo :: "arrangement \<Rightarrow> screen_list \<Rightarrow> int \<Rightarrow> Direction \<Rightarrow> int list" where
  "getScreensNextTo a m i dir =
     (let (x, y, w, h) = side_strip a (getScreen_at m i) dir in
      filter (\<lambda>j. collide_rect x y w h (ui_posX (getScreen_at m j)) (ui_posY (getScreen_at m j))
                    kScreenIconWidth kScreenIconHeight)
        (other_indices i m))"

section \<open>Snapping\<close>

definition testSnapToOnAxis :: "int \<Rightarrow> int \<Rightarrow> int \<Rightarrow> int \<Rightarrow> bool \<Rightarrow> bool" where
  "testSnapToOnAxis from_pos to_pos innerThreshold outsideThreshold onAxisX =
     (let icon = (if onAxisX then kScreenIconWidth else kScreenIconHeight);
          mark1 = (if INT_MIN + outsideThreshold + icon > to_pos then INT_MIN
                   else to_pos - outsideThreshold - icon);
          mark2 = to_pos + innerThreshold - icon;
          mark3 = to_pos + icon - innerThreshold;
          mark4 = (if to_pos + icon > INT_MAX - outsideThreshold then INT_MAX
                   else to_pos + icon + outsideThreshold)
      in \<not> (from_pos < mark1 \<or> (from_pos > mark2 \<and> from_pos < mark3) \<or> from_pos > mark4))"

definition testSnapTo :: "screen_list \<Rightarrow> int \<Rightarrow> int \<Rightarrow> int \<Rightarrow> int \<Rightarrow> bool" where
  "testSnapTo m i j innerThreshold outsideThreshold =
     (if innerThreshold \<le> 0 \<or> outsideThreshold \<le> 0 then False
      else
        (let s = getScreen_at m i; t = getScreen_at m j in
         \<not> (\<not> testSnapToOnAxis (ui_posX s) (ui_posX t) innerThreshold outsideThreshold True \<and>
            \<not> testSnapToOnAxis (ui_posY s) (ui_posY t) innerThreshold outsideThreshold False)))"

definition snap_axis :: "int \<Rightarrow> int \<Rightarrow> int \<Rightarrow> int" where
  "snap_axis icon from_pos to_pos =
     (if from_pos < to_pos then to_pos - icon - from_pos
      else if from_pos > to_pos then to_pos + icon - from_pos
      else 0)"

definition calculateSnapping :: "ui_screen \<Rightarrow> ui_screen \<Rightarrow> int \<times> int" where
  "calculateSnapping s t =
     (let adjustmentX = snap_axis kScreenIconWidth (ui_posX s) (ui_posX t);
          adjustmentY = snap_axis kScreenIconHeight (ui_posY s) (ui_posY t)
      in if adjustmentX = 0 \<or> adjustmentY = 0 then (adjustmentX, adjustmentY)
         else if \<bar>adjustmentX\<bar> < \<bar>adjustmentY\<bar> then (adjustmentX, 0)
         else if \<bar>adjustmentX\<bar> > \<bar>adjustmentY\<bar> then (0, adjustmentY)
         else (adjustmentX, adjustmentY))"

definition smaller_nonzero :: "int \<Rightarrow> int \<Rightarrow> int" where
  "smaller_nonzero x best = (if \<bar>best\<bar> > \<bar>x\<bar> \<and> \<bar>x\<bar> \<noteq> 0 then x else best)"

definition combineAdjustments :: "(int \<times> int) list \<Rightarrow> int \<times> int" where
  "combineAdjustments adjustments =
     (if adjustments = [] then (0, 0)
      else
        (let x = fold smaller_nonzero (map fst adjustments) INT_MAX;
             y = fold smaller_nonzero (map snd adjustments) INT_MAX;
             far = (\<bar>x\<bar> > kSnappingThreshold \<or> \<bar>y\<bar> > kSnappingThreshold);
             y1 = (if far \<and> \<bar>x\<bar> < \<bar>y\<bar> then 0 else y);
             x1 = (if far \<and> \<not> \<bar>x\<bar> < \<bar>y\<bar> \<and> \<bar>x\<bar> > \<bar>y\<bar> then 0 else x)
         in (if x1 = INT_MAX then 0 else x1, if y1 = INT_MAX then 0 else y1)))"

definition snapToOthers :: "int \<Rightarrow> screen_list \<Rightarrow> screen_list" where
  "snapToOthers i m =
     (let (dx, dy) = combineAdjustments (map (calculateSnapping (getScreen_at m i)) (other_screens i m))
      in moveModel i dx dy m)"

section \<open>Dropping a screen\<close>

text \<open>The second half of \<open>adjustModel\<close>: the screen goes to the box of the others.\<close>

definition place_at_box :: "string \<Rightarrow> int \<Rightarrow> layout \<Rightarrow> layout" where
  "place_at_box host i = (\<lambda>(a, m).
     (let a1 = recalculateBoundingBox i m a;
          original = getScreen_at m i;
          s = calculateNewPos host a1 m
                (setPosY (ui_posY original) (setPosX (ui_posX original) (UIScreen ''temp'')))
      in update_layout
           (a1, moveModel i (ui_posX s - ui_posX original) (ui_posY s - ui_posY original) m)))"

definition can_snap :: "int \<Rightarrow> screen_list \<Rightarrow> bool" where
  "can_snap i m \<longleftrightarrow>
     getScreenModeSize m \<noteq> 1 \<and>
     (\<forall>j\<in>set (other_indices i m). testSnapTo m i j kSnappingThreshold INT_MAX)"

text \<open>
  \<open>None\<close> is the failed assertion of an index out of range. When the snapped screen overlaps
  another one the code means to take the move back, and repeats it.
\<close>

definition adjustModel :: "string \<Rightarrow> int \<Rightarrow> layout \<Rightarrow> layout option" where
  "adjustModel host i = (\<lambda>(a, m).
     (if \<not> in_list i m then None
      else if can_snap i m then
        (let m1 = snapToOthers i m in
         if collideWithOthers m1 i = [] then Some (update_layout (a, m1))
         else
           (let offsetX = ui_posX (getScreen_at m1 i) - ui_posX (getScreen_at m i);
                offsetY = ui_posY (getScreen_at m1 i) - ui_posY (getScreen_at m i)
            in Some (place_at_box host i (a, moveModel i offsetX offsetY m1))))
      else Some (place_at_box host i (a, m))))"

end
