(* ===== verification/Arrangement_Props.thy ===== *)
theory Arrangement_Props
  imports Arrangement
begin

text \<open>
  What the layout promises. Positions stay in the window; the box holds its screens tightly; a
  screen placed at the box of the others lies beside it; scaling and centring move all the
  screens by the same distance, so that they keep their places relative to each other. Together:
  a screen that is dropped anywhere ends up free of the others, as long as these keep four
  pixels away from the border of the view.
\<close>

section \<open>Positions stay in the window\<close>

definition in_window :: "ui_screen \<Rightarrow> bool" where
  "in_window s \<longleftrightarrow>
     - kScreenIconWidth < ui_posX s \<and> ui_posX s < kDefaultViewWidth \<and>
     - kScreenIconHeight < ui_posY s \<and> ui_posY s < kDefaultViewHeight"

definition all_in_window :: "screen_list \<Rightarrow> bool" where
  "all_in_window m \<longleftrightarrow> (\<forall>s\<in>set (m_screens m). in_window s)"

lemma in_window_new [simp]: "in_window (UIScreen name)"
  by (simp add: in_window_def UIScreen_def icon_defs)

lemma in_window_set [simp]:
  "in_window s \<Longrightarrow> in_window (setPosX x s)" "in_window s \<Longrightarrow> in_window (setPosY y s)"
  by (auto simp: in_window_def setPosX_def setPosY_def)

lemma in_window_move [simp]: "in_window s \<Longrightarrow> in_window (move_by dx dy s)"
  by (simp add: move_by_def)

lemma all_in_window_change:
  assumes "all_in_window m" "\<And>s. in_window s \<Longrightarrow> in_window (f s)" "in_list i m"
  shows "all_in_window (change_at i f m)"
proof -
  have "nat i < length (m_screens m)"
    using assms(3) by (auto simp: in_list_def getScreenModeSize_def)
  then have "in_window (f (m_screens m ! nat i))"
    using assms(1,2) by (simp add: all_in_window_def)
  then show ?thesis
    using assms(1) set_update_subset_insert [of "m_screens m" "nat i" "f (m_screens m ! nat i)"]
    by (auto simp: all_in_window_def change_at_def)
qed

lemma all_in_window_moveModel: "all_in_window m \<Longrightarrow> all_in_window (moveModel i dx dy m)"
  by (simp add: moveModel_def all_in_window_change)

lemma all_in_window_adjustAll: "all_in_window m \<Longrightarrow> all_in_window (adjustAll dx dy m)"
  by (auto simp: all_in_window_def adjustAll_def)

lemma all_in_window_add: "all_in_window m \<Longrightarrow> in_window s \<Longrightarrow> all_in_window (addScreen_list s m)"
  by (auto simp: all_in_window_def addScreen_list_def)

lemma all_in_window_remove: "all_in_window m \<Longrightarrow> all_in_window (removeScreen_list k m)"
  by (auto simp: all_in_window_def removeScreen_list_def Let_def dest: in_set_takeD in_set_dropD)

section \<open>The bounding box holds its screens\<close>

text \<open>A tight box around a list of screens.\<close>

definition tight :: "int \<times> int \<times> int \<times> int \<Rightarrow> ui_screen list \<Rightarrow> bool" where
  "tight = (\<lambda>(l, t, r, b) ss.
     (\<forall>s\<in>set ss. l \<le> ui_posX s \<and> t \<le> ui_posY s \<and>
                 ui_posX s + kScreenIconWidth \<le> r \<and> ui_posY s + kScreenIconHeight \<le> b) \<and>
     (\<exists>s\<in>set ss. l = ui_posX s) \<and> (\<exists>s\<in>set ss. t = ui_posY s) \<and>
     (\<exists>s\<in>set ss. r = ui_posX s + kScreenIconWidth) \<and>
     (\<exists>s\<in>set ss. b = ui_posY s + kScreenIconHeight))"

lemma tight_one:
  "tight (ui_posX s, ui_posY s, ui_posX s + kScreenIconWidth, ui_posY s + kScreenIconHeight) [s]"
  by (simp add: tight_def)

lemma tight_add: "tight box ss \<Longrightarrow> tight (box_add s box) (ss @ [s])"
  by (cases box) (auto simp: tight_def box_add_def Let_def)

lemma tight_fold: "tight box ss \<Longrightarrow> tight (fold box_add rest box) (ss @ rest)"
proof (induction rest arbitrary: box ss)
  case (Cons s rest)
  show ?case
    using Cons.IH [OF tight_add [OF Cons.prems, of s]] by simp
qed simp

lemma bounding_box_tight:
  assumes "ss \<noteq> []" "\<forall>s\<in>set ss. in_window s"
  shows "tight (bounding_box ss) ss"
proof -
  obtain s rest where ss: "ss = s # rest"
    using assms(1) by (cases ss) auto
  have s: "in_window s"
    using assms(2) ss by simp
  obtain l t r b where box: "fold box_add ss (INT_MAX, INT_MAX, INT_MIN, INT_MIN) = (l, t, r, b)"
    by (metis prod.exhaust)
  have "box_add s (INT_MAX, INT_MAX, INT_MIN, INT_MIN) =
      (ui_posX s, ui_posY s, ui_posX s + kScreenIconWidth, ui_posY s + kScreenIconHeight)"
    using s by (auto simp: box_add_def Let_def in_window_def INT_MAX_def INT_MIN_def icon_defs)
  then have t: "tight (l, t, r, b) ss"
    using tight_fold [OF tight_one [of s], of rest] box ss by simp
  obtain s1 s2 s3 s4 where "s1 \<in> set ss" "l = ui_posX s1" "s2 \<in> set ss" "t = ui_posY s2"
      "s3 \<in> set ss" "r = ui_posX s3 + kScreenIconWidth"
      "s4 \<in> set ss" "b = ui_posY s4 + kScreenIconHeight"
    using t unfolding tight_def by auto
  then have "l \<noteq> INT_MAX" "t \<noteq> INT_MAX" "r \<noteq> INT_MIN" "b \<noteq> INT_MIN"
    using assms(2) by (auto simp: in_window_def INT_MAX_def INT_MIN_def icon_defs)
  then show ?thesis
    using t box by (simp add: bounding_box_def)
qed

section \<open>Beside the box\<close>

text \<open>One of the four sides of the new position lies on the opposite side of the box.\<close>

definition beside :: "int \<times> int \<times> int \<times> int \<Rightarrow> ui_screen \<Rightarrow> bool" where
  "beside = (\<lambda>(l, t, r, b) s.
     ui_posX s + kScreenIconWidth = l \<or> ui_posX s = r \<or>
     ui_posY s + kScreenIconHeight = t \<or> ui_posY s = b)"

definition box_of :: "arrangement \<Rightarrow> int \<times> int \<times> int \<times> int" where
  "box_of a = (m_topLeftX a, m_topLeftY a, m_bottomRightX a, m_bottomRightY a)"

lemma beside_setPos:
  "0 < l \<Longrightarrow> l < kDefaultViewWidth \<Longrightarrow>
     beside (l, t, r, b) (setPosY y (setPosX (l - kScreenIconWidth) s))"
  "0 < r \<Longrightarrow> r < kDefaultViewWidth \<Longrightarrow> beside (l, t, r, b) (setPosY y (setPosX r s))"
  "0 < t \<Longrightarrow> t < kDefaultViewHeight \<Longrightarrow>
     beside (l, t, r, b) (setPosY (t - kScreenIconHeight) (setPosX x s))"
  "0 < b \<Longrightarrow> b < kDefaultViewHeight \<Longrightarrow> beside (l, t, r, b) (setPosY b (setPosX x s))"
  by (simp_all add: beside_def setPosX_def setPosY_def icon_defs)

lemma calculateNewPos_beside:
  assumes "0 < m_topLeftX a" "m_topLeftX a < m_bottomRightX a" "m_bottomRightX a < kDefaultViewWidth"
    and "0 < m_topLeftY a" "m_topLeftY a < m_bottomRightY a" "m_bottomRightY a < kDefaultViewHeight"
  shows "beside (box_of a) (calculateNewPos host a m s)"
proof -
  obtain x y where "wanted_pos host a m s = (x, y)"
    by fastforce
  then show ?thesis
    using assms
    by (cases "nearest_x a x"; cases "nearest_y a y")
      (auto simp: calculateNewPos_def Let_def box_of_def beside_setPos)
qed

lemma calculateNewPos_in_window: "in_window s \<Longrightarrow> in_window (calculateNewPos host a m s)"
  by (simp add: calculateNewPos_def Let_def split: prod.split)

lemma beside_no_collision:
  assumes "tight box ss" "beside box s" "u \<in> set ss"
  shows "\<not> collide s u"
  using assms
  by (cases box) (fastforce simp: tight_def beside_def collide_def collide_rect_def)

section \<open>Scaling and centring\<close>

lemma half_bounds: "x - 1 \<le> 2 * half x \<and> 2 * half x \<le> x + 1"
  by (simp add: half_def) presburger

lemma center_axis_bounds:
  assumes "center_axis view lo hi = (d, lo', hi')" "hi - lo \<le> view + 1"
  shows "-2 \<le> lo + d \<and> hi + d \<le> view + 2"
proof -
  have "lo + d = lo + (half view - half (hi + lo)) + (d - (half view - half (hi + lo)))"
    by simp
  then show ?thesis
    using assms half_bounds [of view] half_bounds [of "hi + lo"]
    by (simp add: center_axis_def Let_def split: if_splits)
qed

lemma float_of_small: "0 \<le> n \<Longrightarrow> n < 2 ^ 24 \<Longrightarrow> float_of n = of_int n"
  by (simp add: float_of_def fl_of_int)

text \<open>The factor for a box in the default view, between its bounds without rounding.\<close>

lemma max_times_bounds:
  assumes view: "m_originalViewW a = kDefaultViewWidth" "m_originalViewH a = kDefaultViewHeight"
    and W: "0 < m_bottomRightX a - m_topLeftX a" "m_bottomRightX a - m_topLeftX a \<le> 681"
    and H: "0 < m_bottomRightY a - m_topLeftY a" "m_bottomRightY a - m_topLeftY a \<le> 433"
  shows "of_int (m_bottomRightX a - m_topLeftX a) / 600 * (1 - 1 / 2 ^ 24) \<le> max_times a"
    and "of_int (m_bottomRightY a - m_topLeftY a) / 380 * (1 - 1 / 2 ^ 24) \<le> max_times a"
    and "max_times a \<le> 433 / 380 * (1 + 1 / 2 ^ 24)"
proof -
  let ?w = "of_int (m_bottomRightX a - m_topLeftX a) :: rat"
  let ?h = "of_int (m_bottomRightY a - m_topLeftY a) :: rat"
  have f: "float_of (m_bottomRightX a - m_topLeftX a) = ?w"
      "float_of (m_bottomRightY a - m_topLeftY a) = ?h" "float_of 600 = 600" "float_of 380 = 380"
    using W H float_of_small [of 600] float_of_small [of 380] by (simp_all add: float_of_small)
  have m: "max_times a = max (fl (?w / 600)) (fl (?h / 380))"
    by (simp only: max_times_def Let_def view icon_defs f) (simp add: max_def)
  have w0: "0 \<le> ?w / 600" and h0: "0 \<le> ?h / 380"
    using W(1) H(1) by simp_all
  have wle: "?w \<le> 681" and hle: "?h \<le> 433"
    using W(2) H(2) by (metis of_int_le_iff of_int_numeral)+
  show "?w / 600 * (1 - 1 / 2 ^ 24) \<le> max_times a"
    using fl_between(1) [OF w0] unfolding m by (rule le_max_iff_disj [THEN iffD2, OF disjI1])
  show "?h / 380 * (1 - 1 / 2 ^ 24) \<le> max_times a"
    using fl_between(1) [OF h0] unfolding m by (rule le_max_iff_disj [THEN iffD2, OF disjI2])
  have "fl (?w / 600) \<le> 433 / 380 * (1 + 1 / 2 ^ 24)"
    using fl_between(2) [OF w0] wle by (simp add: field_simps)
  moreover have "fl (?h / 380) \<le> 433 / 380 * (1 + 1 / 2 ^ 24)"
    using fl_between(2) [OF h0] hle by (simp add: field_simps)
  ultimately show "max_times a \<le> 433 / 380 * (1 + 1 / 2 ^ 24)"
    unfolding m by simp
qed

text \<open>One axis of the scaled view: it is at most a pixel smaller than the box.\<close>

lemma trunc_bounds:
  assumes "0 \<le> x"
  shows "of_int n \<le> x \<Longrightarrow> n \<le> trunc x" "x < of_int n + 1 \<Longrightarrow> trunc x \<le> n"
  using assms by (simp_all add: trunc_def le_floor_iff floor_le_iff)

lemma scaled_axis_bounds:
  fixes t :: rat
  assumes o: "0 < v" "v \<le> 600" and n: "0 < n"
    and lo: "of_int n / of_int v * (1 - 1 / 2 ^ 24) \<le> t" and hi: "t \<le> 433 / 380 * (1 + 1 / 2 ^ 24)"
    and s: "scale_for t = (sc, t')"
  shows "n - 1 \<le> trunc (fl (float_of v * t'))"
    and "trunc (fl (float_of v * t')) \<le> 433 * v div 380"
proof -
  let ?v = "of_int v :: rat" and ?n = "of_int n :: rat"
  have v0: "0 < ?v" "?v \<le> 600" and n0: "1 \<le> ?n"
    using o n by (simp_all add: of_int_le_iff [where 'a = rat, of v 600, simplified] int_one_le_iff_zero_less)
  have fv: "float_of v = ?v"
    using o by (simp add: float_of_small)
  have lo': "?n * (1 - 1 / 2 ^ 24) \<le> ?v * t"
    using lo v0 by (simp add: field_simps)
  have t0: "0 < t"
  proof -
    have "0 < ?n / ?v * (1 - 1 / 2 ^ 24)"
      using n0 v0 by simp
    then show ?thesis
      using lo by linarith
  qed
  have p0: "0 \<le> ?v * t"
    using v0 t0 by simp
  have p: "?v * t \<le> ?v * (433 / 380 * (1 + 1 / 2 ^ 24))"
    using hi v0 by (simp add: mult_left_mono)
  have n700: "?n \<le> 700"
  proof -
    have "?v * (433 / 380 * (1 + 1 / 2 ^ 24)) \<le> 600 * (433 / 380 * (1 + 1 / 2 ^ 24))"
      using v0(2) by (rule mult_right_mono) simp
    then have "?n * (1 - 1 / 2 ^ 24) \<le> 600 * (433 / 380 * (1 + 1 / 2 ^ 24))"
      by (rule order_trans [OF lo' order_trans [OF p]])
    then show ?thesis
      by (simp add: field_simps)
  qed
  have K: "380 * (of_int (433 * v div 380) :: rat) = 433 * ?v - of_int (433 * v mod 380)"
  proof -
    have "(of_int (380 * (433 * v div 380) + 433 * v mod 380) :: rat) = of_int (433 * v)"
      by (simp only: mult_div_mod_eq)
    then show ?thesis
      by (simp only: of_int_add of_int_mult of_int_numeral eq_diff_eq)
  qed
  have K': "(of_int (433 * v mod 380) :: rat) \<le> 379"
  proof -
    have "433 * v mod 380 \<le> 379"
      using pos_mod_bound [of 380 "433 * v"] by linarith
    then show ?thesis
      by (metis of_int_le_iff of_int_numeral)
  qed
  have "n - 1 \<le> trunc (fl (?v * t')) \<and> trunc (fl (?v * t')) \<le> 433 * v div 380"
  proof (cases "t = 0 \<or> fl (1 / t) > 1")
    case True
    then have t': "t' = 1" and f: "1 < fl (1 / t)"
      using s t0 by (auto simp: scale_for_def)
    have "0 \<le> 1 / t"
      using t0 by simp
    then have "1 < 1 / t * (1 + 1 / 2 ^ 24)"
      by (rule less_le_trans [OF f fl_between(2)])
    then have "t < 1 + 1 / 2 ^ 24"
      using t0 by (simp add: less_divide_eq)
    then have "?v * t < ?v * (1 + 1 / 2 ^ 24)"
      by (rule mult_strict_left_mono [OF _ v0(1)])
    then have "?n * (1 - 1 / 2 ^ 24) < ?v * (1 + 1 / 2 ^ 24)"
      by (rule le_less_trans [OF lo'])
    then have "?n < ?v + 1"
      using v0(2) by (simp add: field_simps)
    then have "n < v + 1"
      by (metis of_int_1 of_int_add of_int_less_iff)
    moreover have "trunc (fl (?v * t')) = v"
      using o t' by (simp add: fl_of_int trunc_def)
    moreover have "v \<le> 433 * v div 380"
      using zdiv_mono1 [of "380 * v" "433 * v" 380] o by simp
    ultimately show ?thesis
      by simp
  next
    case False
    then have t': "t' = t"
      using s by (simp add: scale_for_def split: if_splits)
    have "?n - 1 \<le> ?n * (1 - 1 / 2 ^ 24) * (1 - 1 / 2 ^ 24)"
      using n700 n0 by (simp add: field_simps)
    also have "\<dots> \<le> ?v * t * (1 - 1 / 2 ^ 24)"
      using lo' by (rule mult_right_mono) simp
    also have "\<dots> \<le> fl (?v * t)"
      by (rule fl_between(1) [OF p0])
    finally have 1: "of_int (n - 1) \<le> fl (?v * t)"
      by simp
    have "fl (?v * t) \<le> ?v * t * (1 + 1 / 2 ^ 24)"
      by (rule fl_between(2) [OF p0])
    also have "\<dots> \<le> ?v * (433 / 380 * (1 + 1 / 2 ^ 24)) * (1 + 1 / 2 ^ 24)"
      using p by (rule mult_right_mono) simp
    also have "\<dots> < of_int (433 * v div 380) + 1"
      using K K' v0 by (simp add: field_simps)
    finally have 2: "fl (?v * t) < of_int (433 * v div 380) + 1" .
    show ?thesis
      unfolding t' using trunc_bounds [OF fl_nonneg [OF p0]] 1 2 by blast
  qed
  then show "n - 1 \<le> trunc (fl (float_of v * t'))"
      "trunc (fl (float_of v * t')) \<le> 433 * v div 380"
    by (simp_all add: fv)
qed

section \<open>The screens move together\<close>

definition shift :: "int \<Rightarrow> int \<Rightarrow> ui_screen \<Rightarrow> ui_screen" where
  "shift dx dy s = s\<lparr>ui_posX := ui_posX s + dx, ui_posY := ui_posY s + dy\<rparr>"

definition shifted :: "int \<Rightarrow> int \<Rightarrow> screen_list \<Rightarrow> screen_list \<Rightarrow> bool" where
  "shifted dx dy m m' \<longleftrightarrow> m_screens m' = map (shift dx dy) (m_screens m)"

lemma shift_0 [simp]: "shift 0 0 s = s"
  by (simp add: shift_def)

lemma shifted_refl: "m_screens m' = m_screens m \<Longrightarrow> shifted 0 0 m m'"
  by (simp add: shifted_def map_idI)

lemma move_by_shift: "in_window (shift dx dy s) \<Longrightarrow> move_by dx dy s = shift dx dy s"
  by (simp add: in_window_def shift_def move_by_def setPosX_def setPosY_def)

lemma shifted_getScreen:
  "shifted dx dy m m' \<Longrightarrow> in_list i m \<Longrightarrow> getScreen_at m' i = shift dx dy (getScreen_at m i)"
  by (auto simp: shifted_def getScreen_at_def in_list_def getScreenModeSize_def)

lemma shifted_indices: "shifted dx dy m m' \<Longrightarrow> other_indices i m' = other_indices i m"
  by (simp add: shifted_def other_indices_def)

lemma other_indices_in_list: "j \<in> set (other_indices i m) \<Longrightarrow> in_list j m \<and> j \<noteq> i"
  by (auto simp: other_indices_def in_list_def getScreenModeSize_def)

lemma collide_shift [simp]: "collide (shift dx dy s) (shift dx dy u) = collide s u"
  by (simp add: collide_def collide_rect_def shift_def)

lemma shifted_collisions:
  assumes "shifted dx dy m m'" "in_list i m"
  shows "collideWithOthers m' i = collideWithOthers m i"
  unfolding collideWithOthers_def shifted_indices [OF assms(1)]
  by (rule filter_cong [OF refl])
    (simp add: shifted_getScreen [OF assms(1)] assms(2) other_indices_in_list)

lemma all_screens: "other_screens (-1) m = m_screens m"
proof -
  have "other_indices (-1) m = map int [0..<length (m_screens m)]"
    by (simp add: other_indices_def filter_id_conv)
  then show ?thesis
    by (simp add: other_screens_def getScreen_at_def o_def map_nth)
qed

text \<open>Centring keeps all the screens in the window, so that none of them is left behind.\<close>

lemma adjustToCenter_shifts:
  assumes tight: "tight (box_of a) (m_screens m)"
    and W: "m_bottomRightX a - m_topLeftX a \<le> m_scaledViewW a + 1" "m_scaledViewW a \<le> 683"
    and H: "m_bottomRightY a - m_topLeftY a \<le> m_scaledViewH a + 1" "m_scaledViewH a \<le> 433"
  shows "\<exists>a' m' dx dy. adjustToCenter (a, m) = (a', m') \<and> shifted dx dy m m'"
proof -
  obtain dx l r where X: "center_axis (m_scaledViewW a) (m_topLeftX a) (m_bottomRightX a) = (dx, l, r)"
    by (metis prod.exhaust)
  obtain dy t b where Y: "center_axis (m_scaledViewH a) (m_topLeftY a) (m_bottomRightY a) = (dy, t, b)"
    by (metis prod.exhaust)
  have "move_by dx dy s = shift dx dy s" if "s \<in> set (m_screens m)" for s
  proof (rule move_by_shift)
    show "in_window (shift dx dy s)"
      using tight that center_axis_bounds [OF X W(1)] center_axis_bounds [OF Y H(1)] W(2) H(2)
      by (auto simp: tight_def box_of_def in_window_def shift_def icon_defs)
  qed
  then have "shifted dx dy m (adjustAll dx dy m)"
    by (simp add: shifted_def adjustAll_def)
  then show ?thesis
    by (auto simp: adjustToCenter_def X Y)
qed

lemma checkAdjustment_shifts:
  assumes view: "m_originalViewW a = kDefaultViewWidth" "m_originalViewH a = kDefaultViewHeight"
    and tight: "tight (box_of a) (m_screens m)"
    and W: "m_bottomRightX a - m_topLeftX a \<le> 681" and H: "m_bottomRightY a - m_topLeftY a \<le> 433"
  shows "\<exists>a' m' dx dy. checkAdjustment f (a, m) = (a', m') \<and> shifted dx dy m m'"
proof -
  obtain sc t where sc: "scale_for (max_times a) = (sc, t)"
    by fastforce
  let ?W = "trunc (fl (float_of 600 * t))" and ?H = "trunc (fl (float_of 380 * t))"
  let ?a = "a\<lparr>m_scale := sc, m_scaledViewW := ?W, m_scaledViewH := ?H\<rparr>"
  let ?m = "m\<lparr>m_list_scale := sc\<rparr>"
  have r: "rescale (a, m) = (?a, ?m)"
    by (simp add: rescale_def sc view icon_defs)
  have pos: "0 < m_bottomRightX a - m_topLeftX a" "0 < m_bottomRightY a - m_topLeftY a"
    using tight by (auto simp: tight_def box_of_def icon_defs)
  note t = max_times_bounds [OF view pos(1) W pos(2) H]
  have w: "m_bottomRightX a - m_topLeftX a - 1 \<le> ?W" "?W \<le> 683"
    using scaled_axis_bounds [OF _ _ pos(1) _ t(3) sc, of 600] t(1) by simp_all
  have h: "m_bottomRightY a - m_topLeftY a - 1 \<le> ?H" "?H \<le> 433"
    using scaled_axis_bounds [OF _ _ pos(2) _ t(3) sc, of 380] t(2) by simp_all
  have "\<exists>a' m' dx dy. adjustToCenter (?a, ?m) = (a', m') \<and> shifted dx dy ?m m'"
    by (rule adjustToCenter_shifts) (use tight w h in \<open>simp_all add: box_of_def\<close>)
  then obtain a' m' dx dy where "adjustToCenter (?a, ?m) = (a', m')" "shifted dx dy m m'"
    by (auto simp: shifted_def)
  moreover have "shifted 0 0 m ?m" "shifted 0 0 m m"
    by (simp_all add: shifted_refl)
  ultimately show ?thesis
    by (simp add: checkAdjustment_def r) blast
qed

section \<open>Dropping a screen\<close>

text \<open>A screen that keeps four pixels away from the border of the default view.\<close>

definition well_inside :: "ui_screen \<Rightarrow> bool" where
  "well_inside s \<longleftrightarrow>
     4 \<le> ui_posX s \<and> ui_posX s + kScreenIconWidth \<le> kDefaultViewWidth - 4 \<and>
     4 \<le> ui_posY s \<and> ui_posY s + kScreenIconHeight \<le> kDefaultViewHeight - 4"

definition default_view :: "arrangement \<Rightarrow> bool" where
  "default_view a \<longleftrightarrow>
     m_originalViewW a = kDefaultViewWidth \<and> m_originalViewH a = kDefaultViewHeight"

lemma default_view_recalculate [simp]:
  "default_view (recalculateBoundingBox i m a) = default_view a"
  by (simp add: default_view_def recalculateBoundingBox_def split: prod.split)

lemma box_of_recalculate [simp]:
  "box_of (recalculateBoundingBox i m a) = bounding_box (other_screens i m)"
  by (simp add: box_of_def recalculateBoundingBox_def split: prod.split)

lemma screen_cases:
  "s \<in> set (m_screens m) \<Longrightarrow> s = getScreen_at m i \<or> s \<in> set (other_screens i m)"
proof -
  assume "s \<in> set (m_screens m)"
  then obtain n where n: "n < length (m_screens m)" "s = m_screens m ! n"
    by (auto simp: in_set_conv_nth)
  then show ?thesis
  proof (cases "int n = i")
    case False
    then have "int n \<in> set (other_indices i m)"
      using n(1) by (simp add: other_indices_def)
    moreover have "s = getScreen_at m (int n)"
      using n(2) by (simp add: getScreen_at_def)
    ultimately show ?thesis
      by (auto simp: other_screens_def)
  qed (auto simp: getScreen_at_def)
qed

lemma other_screens_subset: "s \<in> set (other_screens i m) \<Longrightarrow> s \<in> set (m_screens m)"
  by (auto simp: other_screens_def other_indices_def getScreen_at_def)

lemma update_layout_shifts:
  assumes "default_view a" "in_list i m" "all_in_window m"
    and inside: "\<forall>s\<in>set (other_screens i m). well_inside s"
  shows "\<exists>a' m' dx dy. update_layout (a, m) = (a', m') \<and> shifted dx dy m m'"
proof -
  let ?a = "recalculateBoundingBox (-1) m a"
  have ne: "m_screens m \<noteq> []"
    using assms(2) by (auto simp: in_list_def getScreenModeSize_def)
  have i: "in_window (getScreen_at m i)"
    using assms(2,3) by (auto simp: all_in_window_def in_list_def getScreenModeSize_def getScreen_at_def)
  have tight: "tight (box_of ?a) (m_screens m)"
    using bounding_box_tight [OF ne] assms(3) by (simp add: all_screens all_in_window_def)
  then obtain s1 s2 s3 s4 where s: "s1 \<in> set (m_screens m)" "m_topLeftX ?a = ui_posX s1"
      "s2 \<in> set (m_screens m)" "m_topLeftY ?a = ui_posY s2"
      "s3 \<in> set (m_screens m)" "m_bottomRightX ?a = ui_posX s3 + kScreenIconWidth"
      "s4 \<in> set (m_screens m)" "m_bottomRightY ?a = ui_posY s4 + kScreenIconHeight"
    unfolding tight_def box_of_def by auto
  have c: "s = getScreen_at m i \<or> well_inside s" if "s \<in> set (m_screens m)" for s
    using screen_cases [OF that, of i] inside by blast
  have W: "m_bottomRightX ?a - m_topLeftX ?a \<le> 681"
    using c [OF s(1)] c [OF s(5)] i unfolding s(2) s(6)
    by (auto simp: well_inside_def in_window_def icon_defs)
  have H: "m_bottomRightY ?a - m_topLeftY ?a \<le> 433"
    using c [OF s(3)] c [OF s(7)] i unfolding s(4) s(8)
    by (auto simp: well_inside_def in_window_def icon_defs)
  have "default_view ?a"
    using assms(1) by simp
  then show ?thesis
    using checkAdjustment_shifts [OF _ _ tight W H, of False]
    by (simp add: update_layout_def default_view_def)
qed

lemma moveModel_others [simp]:
  "other_indices i (moveModel i dx dy m) = other_indices i m"
  "other_screens i (moveModel i dx dy m) = other_screens i m"
proof -
  have "j \<in> set (other_indices i m) \<Longrightarrow>
      getScreen_at (moveModel i dx dy m) j = getScreen_at m j" for j
    by (auto simp: other_indices_def getScreen_at_def moveModel_def change_at_def in_list_def
        getScreenModeSize_def nth_list_update)
  moreover show idx: "other_indices i (moveModel i dx dy m) = other_indices i m"
    by (simp add: other_indices_def moveModel_def change_at_def)
  ultimately show "other_screens i (moveModel i dx dy m) = other_screens i m"
    by (simp add: other_screens_def)
qed

lemma moveModel_in_list [simp]: "in_list j (moveModel i dx dy m) = in_list j m"
  by (simp add: in_list_def moveModel_def change_at_def getScreenModeSize_def)

lemma moveModel_getScreen:
  "in_list i m \<Longrightarrow> getScreen_at (moveModel i dx dy m) i = move_by dx dy (getScreen_at m i)"
  by (auto simp: in_list_def moveModel_def change_at_def getScreenModeSize_def getScreen_at_def)

text \<open>What dropping screen \<open>i\<close> guarantees of the layout before and after.\<close>

definition dropped_free :: "int \<Rightarrow> screen_list \<Rightarrow> screen_list \<Rightarrow> bool" where
  "dropped_free i m m' \<longleftrightarrow>
     collideWithOthers m' i = [] \<and> all_in_window m' \<and>
     (\<exists>dx dy. map (shift dx dy) (other_screens i m) = other_screens i m')"

lemma dropped_freeI:
  assumes "shifted dx dy m1 m'" "all_in_window m1" "in_list i m1" "collideWithOthers m1 i = []"
    "other_screens i m1 = other_screens i m" "all_in_window m'"
  shows "dropped_free i m m'"
proof -
  have "other_screens i m' = map (shift dx dy) (other_screens i m1)"
    unfolding other_screens_def shifted_indices [OF assms(1)]
    by (simp add: shifted_getScreen [OF assms(1)] other_indices_in_list)
  then show ?thesis
    using assms shifted_collisions [OF assms(1,3)] unfolding dropped_free_def by metis
qed

lemma all_in_window_checkAdjustment:
  "all_in_window m \<Longrightarrow> all_in_window (snd (checkAdjustment f (a, m)))"
  by (auto simp: checkAdjustment_def rescale_def adjustToCenter_def all_in_window_adjustAll
      Let_def all_in_window_def [of "m\<lparr>m_list_scale := _\<rparr>"] all_in_window_def [of m]
      intro: all_in_window_adjustAll split: prod.splits)

lemma all_in_window_update:
  "all_in_window m \<Longrightarrow> update_layout (a, m) = (a', m') \<Longrightarrow> all_in_window m'"
  using all_in_window_checkAdjustment [of m False "recalculateBoundingBox (-1) m a"]
  by (simp add: update_layout_def)

lemma update_layout_free:
  assumes "default_view a" "in_list i m" "all_in_window m"
    and "\<forall>s\<in>set (other_screens i m). well_inside s" "collideWithOthers m i = []"
  shows "\<exists>a' m'. update_layout (a, m) = (a', m') \<and> dropped_free i m m'"
proof -
  obtain a' m' dx dy where u: "update_layout (a, m) = (a', m')" "shifted dx dy m m'"
    using update_layout_shifts [OF assms(1-4)] by blast
  then have "dropped_free i m m'"
    using assms by (intro dropped_freeI [OF u(2)]) (auto intro: all_in_window_update)
  then show ?thesis
    using u(1) by blast
qed

lemma dropped_free_cong:
  "other_screens i m1 = other_screens i m \<Longrightarrow> dropped_free i m1 m' \<Longrightarrow> dropped_free i m m'"
  by (simp add: dropped_free_def)

lemma collideWithOthers_Nil_iff:
  "collideWithOthers m i = [] \<longleftrightarrow>
     (\<forall>s\<in>set (other_screens i m). \<not> collide (getScreen_at m i) s)"
  by (simp add: collideWithOthers_def other_screens_def filter_empty_conv)

text \<open>Placing a screen at the box of the others.\<close>

lemma place_at_box_free:
  assumes "default_view a" "in_list i m" "all_in_window m"
    and inside: "\<forall>s\<in>set (other_screens i m). well_inside s"
  shows "\<exists>a' m'. place_at_box host i (a, m) = (a', m') \<and> dropped_free i m m'"
proof -
  let ?a = "recalculateBoundingBox i m a" and ?o = "getScreen_at m i"
  let ?t = "setPosY (ui_posY ?o) (setPosX (ui_posX ?o) (UIScreen ''temp''))"
  let ?s = "calculateNewPos host ?a m ?t"
  let ?m = "moveModel i (ui_posX ?s - ui_posX ?o) (ui_posY ?s - ui_posY ?o) m"
  have s: "in_window ?s"
    by (simp add: calculateNewPos_in_window)
  then have at: "getScreen_at ?m i = ?o\<lparr>ui_posX := ui_posX ?s, ui_posY := ui_posY ?s\<rparr>"
    using assms(2)
    by (simp add: moveModel_getScreen move_by_def setPosX_def setPosY_def in_window_def)
  have "collideWithOthers ?m i = []"
  proof (cases "other_screens i m = []")
    case False
    have w: "\<forall>s\<in>set (other_screens i m). in_window s"
      using assms(3) other_screens_subset by (auto simp: all_in_window_def)
    note tight = bounding_box_tight [OF False w]
    have "beside (box_of ?a) ?s"
      by (rule calculateNewPos_beside)
        (use tight inside in \<open>auto simp: box_of_recalculate [symmetric, of i m a] box_of_def tight_def
           well_inside_def icon_defs simp del: box_of_recalculate\<close>)
    then have "\<not> collide (getScreen_at ?m i) u" if "u \<in> set (other_screens i m)" for u
      using beside_no_collision [OF tight, of ?s u] that
      by (simp add: at collide_def)
    then show ?thesis
      by (simp add: collideWithOthers_Nil_iff)
  qed (simp add: collideWithOthers_Nil_iff)
  then have "\<exists>a' m'. update_layout (?a, ?m) = (a', m') \<and> dropped_free i ?m m'"
    using assms by (intro update_layout_free) (simp_all add: all_in_window_moveModel)
  then show ?thesis
    by (auto simp: place_at_box_def Let_def dest: dropped_free_cong [rotated])
qed

text \<open>C8. A screen that is dropped over others ends up beside them: as long as the other screens
  lie four pixels or more inside the default view, moving a screen anywhere and adjusting the
  layout leaves it free of every other screen, with all positions in the window, and moves the
  other screens together if at all.\<close>

theorem dropped_screen_is_free:
  assumes "default_view a" "in_list i m" "all_in_window m"
    and "\<forall>s\<in>set (other_screens i m). well_inside s"
  shows "\<exists>a' m'. adjustModel host i (a, moveModel i offsetX offsetY m) = Some (a', m') \<and>
           dropped_free i m m'"
proof -
  have free: "\<exists>a' m'. place_at_box host i (a, m1) = (a', m') \<and> dropped_free i m m'"
    if "in_list i m1" "all_in_window m1" "other_screens i m1 = other_screens i m" for m1
    using place_at_box_free [OF assms(1) that(1,2), of host] assms(4) that(3) dropped_free_cong
    by metis
  let ?m = "moveModel i offsetX offsetY m"
  obtain dx dy where snap: "snapToOthers i ?m = moveModel i dx dy ?m"
    by (cases "combineAdjustments (map (calculateSnapping (getScreen_at ?m i)) (other_screens i ?m))")
      (simp add: snapToOthers_def)
  have upd: "\<exists>a' m'. update_layout (a, moveModel i dx dy ?m) = (a', m') \<and> dropped_free i m m'"
    if "collideWithOthers (moveModel i dx dy ?m) i = []"
    using update_layout_free [OF assms(1), of i "moveModel i dx dy ?m"] that assms(2-4)
      dropped_free_cong [of i "moveModel i dx dy ?m" m]
    by (auto simp: all_in_window_moveModel)
  have snapped: "\<exists>a' m'. place_at_box host i (a, moveModel i x y (moveModel i dx dy ?m)) = (a', m') \<and>
      dropped_free i m m'" for x y
    by (rule free) (simp_all add: assms(2,3) all_in_window_moveModel)
  have plain: "\<exists>a' m'. place_at_box host i (a, ?m) = (a', m') \<and> dropped_free i m m'"
    by (rule free) (simp_all add: assms(2,3) all_in_window_moveModel)
  show ?thesis
    using upd snapped plain assms(2) by (simp add: adjustModel_def snap Let_def)
qed

definition two_screens :: "int \<Rightarrow> int \<Rightarrow> int \<Rightarrow> int \<Rightarrow> screen_list" where
  "two_screens x y x' y' =
     \<lparr>m_screens = [(UIScreen ''desk'')\<lparr>ui_posX := x, ui_posY := y\<rparr>,
                   (UIScreen ''laptop'')\<lparr>ui_posX := x', ui_posY := y'\<rparr>], m_list_scale = 1\<rparr>"

theorem dropped_screen_is_free_witness:
  "\<exists>a' m'. adjustModel ''desk'' 1 (new_arrangement, moveModel 1 120 3 (two_screens 257 161 171 161)) =
       Some (a', m') \<and> dropped_free 1 (two_screens 257 161 171 161) m'"
proof (rule dropped_screen_is_free)
  show "default_view new_arrangement"
    by (simp add: default_view_def new_arrangement_def)
  show "in_list 1 (two_screens 257 161 171 161)"
    by (simp add: in_list_def getScreenModeSize_def two_screens_def)
  show "all_in_window (two_screens 257 161 171 161)"
    by (simp add: all_in_window_def two_screens_def in_window_def icon_defs)
  show "\<forall>s\<in>set (other_screens 1 (two_screens 257 161 171 161)). well_inside s"
    by (simp add: other_screens_def other_indices_def getScreen_at_def two_screens_def
        well_inside_def icon_defs UIScreen_def upt_rec)
qed

text \<open>
  At the border of the view the promise fails: the place to the left of a screen at the edge has
  the coordinate that \<open>setPosX\<close> refuses, and the dropped screen stays on top of the other one.
\<close>

lemma dropped_at_the_edge_overlaps:
  "map_option (\<lambda>(a, m). collideWithOthers m 1)
     (adjustModel ''desk'' 1 (new_arrangement, two_screens 0 161 (-40) 161)) = Some [0]"
  by code_simp

lemma snap_test_measures_overlap:
  assumes "0 < th" "th < 2 ^ 30" "\<bar>x\<bar> < 2 ^ 30" "\<bar>y\<bar> < 2 ^ 30"
  shows "testSnapToOnAxis x y th INT_MAX onX \<longleftrightarrow>
           (if onX then kScreenIconWidth else kScreenIconHeight) - th \<le> \<bar>x - y\<bar>"
  using assms
  by (simp add: testSnapToOnAxis_def Let_def INT_MAX_def INT_MIN_def icon_defs) auto

end
