(* ===== verification/ScreenManager.thy ===== *)
theory ScreenManager
  imports Arrangement_Props
begin

text \<open>
  The manager of the screens in the configuration program (\<open>config/lib/ScreenManager.cpp\<close>): it
  passes the actions of the user to the layout, merges the snapshots of the profile that the
  service sends into the list, and posts the positions back to the cloud. The signals and the
  requests to the cloud and the service are outputs. The parsed snapshot is a record whose
  absent fields have the default values of the JSON library. The order in which a set of
  identifiers is walked through, which the library leaves open, is a parameter.
\<close>

section \<open>State\<close>

text \<open>What the manager reads elsewhere: the name of this computer and the saved settings.\<close>

record app_settings =
  local_host :: string
  app_profileId :: int
  app_screenId :: int

record profile_post =
  post_profile_id :: int
  post_name :: string
  post_version :: int
  post_screens :: "(int \<times> int \<times> int) list"

datatype manager_output =
    ServerIdChanged
  | LocalHostNameChanged string
  | LocalhostUnsubscribed
  | ConfigHintChanged
  | UnsubProfile int int
  | PostProfile profile_post
  | ClaimServerCall int
  | RestartServiceCall
  | ReceivedScreensConnected
  | ScreenErrorConnected
  | SnapshotRequestCall
  | Warning string

record manager =
  m_layout :: arrangement
  m_model :: screen_list
  m_screenIdSet :: "int set"
  m_configVersion :: int
  m_serverId :: int
  m_configHint :: string
  m_out :: "manager_output list"

definition new_manager :: manager where
  "new_manager =
     \<lparr>m_layout = new_arrangement, m_model = new_screen_list, m_screenIdSet = {},
      m_configVersion = -1, m_serverId = -1, m_configHint = '''', m_out = []\<rparr>"

definition emit :: "manager_output \<Rightarrow> manager \<Rightarrow> manager" where
  "emit out g = g\<lparr>m_out := m_out g @ [out]\<rparr>"

definition with_layout :: "(layout \<Rightarrow> layout) \<Rightarrow> manager \<Rightarrow> manager" where
  "with_layout f g = (let (a, m) = f (m_layout g, m_model g) in g\<lparr>m_layout := a, m_model := m\<rparr>)"

section \<open>Actions of the user\<close>

definition onUpdateProfileConfig :: "app_settings \<Rightarrow> manager \<Rightarrow> manager" where
  "onUpdateProfileConfig e g =
     (let post = \<lparr>post_profile_id = app_profileId e, post_name = ''default'',
                  post_version = m_configVersion g,
                  post_screens = map (\<lambda>s. (ui_id s, ui_posX s, ui_posY s)) (m_screens (m_model g))\<rparr>
      in (emit (PostProfile post) g)\<lparr>m_configVersion := m_configVersion g + 1\<rparr>)"

text \<open>\<open>None\<close> is the failed assertion of an index that is not one of the list.\<close>

definition manager_moveModel ::
    "app_settings \<Rightarrow> int \<Rightarrow> int \<Rightarrow> int \<Rightarrow> manager \<Rightarrow> manager option" where
  "manager_moveModel e index offsetX offsetY g =
     (if (offsetX = 0 \<and> offsetY = 0) \<or> index = -1 then Some g
      else
        (let m = moveModel index offsetX offsetY (m_model g) in
         map_option (\<lambda>(a', m'). onUpdateProfileConfig e (g\<lparr>m_layout := a', m_model := m'\<rparr>))
           (adjustModel (local_host e) index (m_layout g, m))))"

definition setViewWidth :: "int \<Rightarrow> manager \<Rightarrow> manager" where
  "setViewWidth w g =
     (if w \<le> 0 then g
      else with_layout (\<lambda>(a, m). checkAdjustment True (a\<lparr>m_originalViewW := w\<rparr>, m)) g)"

definition setViewHeight :: "int \<Rightarrow> manager \<Rightarrow> manager" where
  "setViewHeight h g =
     (if h \<le> 0 then g
      else with_layout (\<lambda>(a, m). checkAdjustment True (a\<lparr>m_originalViewH := h\<rparr>, m)) g)"

definition manager_addScreen :: "app_settings \<Rightarrow> string \<Rightarrow> manager \<Rightarrow> bool \<times> manager" where
  "manager_addScreen e name g =
     (if findScreen_name name (m_model g) \<noteq> -1 then (False, g)
      else (True, with_layout (addScreen (local_host e) (UIScreen name)) g))"

definition setScreenModel :: "app_settings \<Rightarrow> screen_list \<Rightarrow> manager \<Rightarrow> manager" where
  "setScreenModel e m g = snd (manager_addScreen e (local_host e) (g\<lparr>m_model := m\<rparr>))"

text \<open>The proxy of the service is null when the program ends.\<close>

definition setServiceProxy :: "bool \<Rightarrow> manager \<Rightarrow> manager" where
  "setServiceProxy given g =
     (if \<not> given then g
      else emit SnapshotRequestCall (emit ScreenErrorConnected (emit ReceivedScreensConnected g)))"

definition Key_F12 :: int where "Key_F12 = 0x0100003b"

definition onKeyPressed :: "int \<Rightarrow> manager \<Rightarrow> manager" where
  "onKeyPressed key g =
     (if key = Key_F12 then emit (Warning ''F12 no longer claims server, right click a screen instead'') g else g)"

text \<open>\<open>TODO: reimplement\<close> is all that the slot for an error of a screen holds.\<close>

definition onScreenError :: "string \<Rightarrow> int \<Rightarrow> manager \<Rightarrow> manager" where
  "onScreenError name code g = g"

definition manager_lockScreen :: "int \<Rightarrow> manager \<Rightarrow> manager" where
  "manager_lockScreen i g = g\<lparr>m_model := lockScreen i (m_model g)\<rparr>"

definition manager_unlockScreen :: "int \<Rightarrow> manager \<Rightarrow> manager" where
  "manager_unlockScreen i g = g\<lparr>m_model := unlockScreen i (m_model g)\<rparr>"

definition manager_serverClaim :: "int \<Rightarrow> manager \<Rightarrow> manager option" where
  "manager_serverClaim i g =
     (if in_list i (m_model g)
      then (let s = getScreen_at (m_model g) i; g1 = emit (ClaimServerCall (ui_id s)) g
            in Some (if ui_status s \<noteq> SConnected
                     then emit (Warning ''sharing from computer that is not connected'') g1 else g1))
      else None)"

definition restartServices :: "manager \<Rightarrow> manager" where
  "restartServices g = emit RestartServiceCall g"

definition isLocalMachine :: "app_settings \<Rightarrow> int \<Rightarrow> manager \<Rightarrow> bool" where
  "isLocalMachine e index g \<longleftrightarrow>
     index = (if app_screenId e = -1 then findScreen_name (local_host e) (m_model g)
              else findScreen (app_screenId e) (m_model g))"

definition removeScreenByIndex :: "int \<Rightarrow> bool \<Rightarrow> manager \<Rightarrow> (bool \<times> manager) option" where
  "removeScreenByIndex index notify g =
     (if index = -1 then Some (False, g)
      else if \<not> in_list index (m_model g) then None
      else
        (let i = ui_id (getScreen_at (m_model g) index);
             g1 = (if i \<noteq> -1 \<and> notify
                   then (emit (UnsubProfile i (m_configVersion g)) g)
                          \<lparr>m_configVersion := m_configVersion g + 1\<rparr>
                   else g)
         in Some (True, with_layout (removeScreen i) g1)))"

text \<open>The index comes from a search, so that the assertion cannot fail.\<close>

definition removeScreenById :: "int \<Rightarrow> bool \<Rightarrow> manager \<Rightarrow> bool \<times> manager" where
  "removeScreenById i notify g =
     (let index = findScreen i (m_model g) in
      if index = -1 \<and> i = -1 then (False, g)
      else the (removeScreenByIndex index notify g))"

definition removeScreenByName :: "string \<Rightarrow> bool \<Rightarrow> manager \<Rightarrow> bool \<times> manager" where
  "removeScreenByName name notify g =
     the (removeScreenByIndex (findScreen_name name (m_model g)) notify g)"

definition setConfigHint :: "string \<Rightarrow> manager \<Rightarrow> manager" where
  "setConfigHint t g = emit ConfigHintChanged (g\<lparr>m_configHint := t\<rparr>)"

section \<open>Snapshots of the profile\<close>

record screen_json =
  sj_id :: int
  sj_name :: string
  sj_version :: int
  sj_x_pos :: int
  sj_y_pos :: int
  sj_status :: string
  sj_error_code :: int
  sj_error_message :: string
  sj_active :: bool

datatype screens_reply =
    NoObject
  | Snapshot (rep_configVersion: int) (rep_server: int) (rep_screens: "screen_json list")

definition keeps_own :: "screen_list \<Rightarrow> screen_json \<Rightarrow> bool" where
  "keeps_own m v \<longleftrightarrow>
     (let index = findScreen (sj_id v) m; s = getScreen_at m index in
      index \<noteq> -1 \<and> (ui_locked s \<or> ui_version s > sj_version v))"

definition screen_of_json :: "screen_json \<Rightarrow> ui_screen option" where
  "screen_of_json v =
     map_option
       (\<lambda>s. s\<lparr>ui_errorCode := word_of_int (sj_error_code v), ui_errorMessage := sj_error_message v,
              ui_status := (if sj_active v then ui_status s else SInactive),
              ui_version := sj_version v\<rparr>)
       (setStatus_text (sj_status v)
          (setPosY (sj_y_pos v) (setPosX (sj_x_pos v) ((UIScreen (sj_name v))\<lparr>ui_id := sj_id v\<rparr>))))"

text \<open>The loop over the screens of the snapshot; \<open>None\<close> where a status ends the program.\<close>

fun read_screens ::
    "int \<Rightarrow> screen_list \<Rightarrow> screen_json list \<Rightarrow> (ui_screen list \<times> manager_output list) option" where
  "read_screens localId m [] = Some ([], [])"
| "read_screens localId m (v # vs) =
     (if keeps_own m v then read_screens localId m vs
      else
        (case screen_of_json v of
           None \<Rightarrow> None
         | Some s \<Rightarrow>
             map_option
               (\<lambda>(ss, out). (s # ss,
                  (if sj_id v = localId then [LocalHostNameChanged (sj_name v)] else []) @ out))
               (read_screens localId m vs)))"

definition remove_unsubscribed :: "int \<Rightarrow> int list \<Rightarrow> manager \<Rightarrow> manager" where
  "remove_unsubscribed localId ids g =
     fold (\<lambda>i g. let g1 = snd (removeScreenById i False g) in
                 if i = localId then emit LocalhostUnsubscribed g1 else g1) ids g"

definition take_header :: "int \<Rightarrow> int \<Rightarrow> manager \<Rightarrow> manager" where
  "take_header version server g =
     (let g1 = g\<lparr>m_configVersion := version\<rparr> in
      if m_serverId g1 \<noteq> server then emit ServerIdChanged (g1\<lparr>m_serverId := server\<rparr>) else g1)"

text \<open>Merging a snapshot that is not old; the flag says that this computer was not in it.\<close>

definition merge_snapshot ::
    "app_settings \<Rightarrow> (int set \<Rightarrow> int list) \<Rightarrow> screen_json list \<Rightarrow> manager \<Rightarrow>
     (bool \<times> manager) option" where
  "merge_snapshot e iter screens g =
     map_option
       (\<lambda>(latest, out).
          (let ids = set (map sj_id screens);
               localId = app_screenId e;
               updateLocalHost =
                 (localId \<notin> m_screenIdSet g \<and> localId \<notin> ids \<and> app_profileId e \<noteq> -1);
               latestIds = (if updateLocalHost then insert localId ids else ids);
               g1 = g\<lparr>m_out := m_out g @ out\<rparr>;
               g2 = remove_unsubscribed localId (iter (m_screenIdSet g1 - latestIds)) g1
           in (updateLocalHost,
               g2\<lparr>m_screenIdSet := latestIds, m_model := update_list latest (m_model g2)\<rparr>)))
       (read_screens (app_screenId e) (m_model g) screens)"

definition finish_update :: "app_settings \<Rightarrow> bool \<Rightarrow> manager \<Rightarrow> manager" where
  "finish_update e updateLocalHost g =
     (let g1 = snd (removeScreenById (-1) False g);
          g2 = (if updateLocalHost
                then onUpdateProfileConfig e
                       (with_layout (addScreen (local_host e)
                          ((UIScreen (local_host e))\<lparr>ui_id := app_screenId e\<rparr>)) g1)
                else g1)
      in setConfigHint
           (if length (m_screens (m_model g2)) = 1
            then ''Next step: install Synergy 2 on another computer'' else '''') g2)"

definition updateScreens ::
    "app_settings \<Rightarrow> (int set \<Rightarrow> int list) \<Rightarrow> screens_reply \<Rightarrow> manager \<Rightarrow> manager option" where
  "updateScreens e iter reply g =
     (case reply of
        NoObject \<Rightarrow> Some (finish_update e False g)
      | Snapshot version server screens \<Rightarrow>
          (if m_configVersion g > version then Some g
           else map_option (\<lambda>(flag, g'). finish_update e flag g')
                  (merge_snapshot e iter screens (take_header version server g))))"

end
