(* ===== verification/ScreenManager_Props.thy ===== *)
theory ScreenManager_Props
  imports ScreenManager
begin

text \<open>
  The manager keeps its list well formed whatever the user and the service do: every position
  lies in the window, no identifier occurs twice, and every screen with an identifier is one
  that the last snapshots subscribed. After a snapshot the list shows exactly its screens.
\<close>

section \<open>The identifiers of the list\<close>

definition ids :: "screen_list \<Rightarrow> int list" where
  "ids m = map ui_id (m_screens m)"

lemma index_from_split:
  assumes "0 \<le> j"
  shows "(index_from P j ss = -1 \<and> (\<forall>s\<in>set ss. \<not> P s)) \<or>
    (\<exists>pre s post. ss = pre @ s # post \<and> P s \<and> (\<forall>u\<in>set pre. \<not> P u) \<and>
       index_from P j ss = j + int (length pre))"
  using assms
proof (induction ss arbitrary: j)
  case (Cons s ss)
  show ?case
  proof (cases "P s")
    case True
    then show ?thesis
      by (intro disjI2 exI [of _ "[]"]) simp
  next
    case False
    consider "index_from P (j + 1) ss = -1" "\<forall>s\<in>set ss. \<not> P s"
      | pre u post where "ss = pre @ u # post" "P u" "\<forall>u\<in>set pre. \<not> P u"
        "index_from P (j + 1) ss = j + 1 + int (length pre)"
      using Cons.IH [of "j + 1"] Cons.prems by fastforce
    then show ?thesis
    proof cases
      case 1
      then show ?thesis
        using False by simp
    next
      case (2 pre u post)
      then show ?thesis
        using False by (intro disjI2 exI [of _ "s # pre"]) simp
    qed
  qed
qed simp

lemma index_from_cases:
  obtains (absent) "index_from P 0 ss = -1" "\<forall>s\<in>set ss. \<not> P s"
  | (found) pre s post where "ss = pre @ s # post" "P s" "\<forall>u\<in>set pre. \<not> P u"
      "index_from P 0 ss = int (length pre)"
  using index_from_split [of 0 P ss] by fastforce

lemma findScreen_absent: "findScreen k m = -1 \<longleftrightarrow> k \<notin> set (ids m)"
  unfolding findScreen_def
  by (rule index_from_cases [of "\<lambda>s. ui_id s = k" "m_screens m"]) (auto simp: ids_def)

lemma findScreen_in_list: "k \<in> set (ids m) \<Longrightarrow> in_list (findScreen k m) m"
  unfolding findScreen_def
  by (rule index_from_cases [of "\<lambda>s. ui_id s = k" "m_screens m"])
    (auto simp: ids_def in_list_def getScreenModeSize_def)

lemma findScreen_getScreen: "k \<in> set (ids m) \<Longrightarrow> ui_id (getScreen_at m (findScreen k m)) = k"
  unfolding findScreen_def
  by (rule index_from_cases [of "\<lambda>s. ui_id s = k" "m_screens m"])
    (auto simp: ids_def getScreen_at_def)

lemma setPos_id [simp]: "ui_id (setPosX x s) = ui_id s" "ui_id (setPosY y s) = ui_id s"
  by (simp_all add: setPosX_def setPosY_def)

lemma move_by_id [simp]: "ui_id (move_by dx dy s) = ui_id s"
  by (simp add: move_by_def)

lemma ids_change_at: "(\<And>s. ui_id (f s) = ui_id s) \<Longrightarrow> ids (change_at i f m) = ids m"
  by (cases "nat i < length (m_screens m)")
    (simp_all add: ids_def change_at_def map_update list_update_same_conv list_update_beyond)

lemma ids_moveModel [simp]: "ids (moveModel i dx dy m) = ids m"
  by (simp add: moveModel_def ids_change_at)

lemma ids_adjustAll [simp]: "ids (adjustAll dx dy m) = ids m"
  by (simp add: ids_def adjustAll_def)

lemma ids_scale [simp]: "ids (m\<lparr>m_list_scale := s\<rparr>) = ids m"
  by (simp add: ids_def)

lemma ids_rescale: "rescale (a, m) = (a', m') \<Longrightarrow> ids m' = ids m"
  by (auto simp: rescale_def split: prod.splits)

lemma ids_adjustToCenter [simp]: "ids (snd (adjustToCenter (a, m))) = ids m"
  by (simp add: adjustToCenter_def split: prod.split)

lemma ids_checkAdjustment [simp]: "ids (snd (checkAdjustment f (a, m))) = ids m"
proof -
  obtain a' m' where "rescale (a, m) = (a', m')"
    by (metis prod.exhaust)
  then show ?thesis
    using ids_rescale [of a m a' m'] by (simp add: checkAdjustment_def)
qed

lemma ids_update_layout [simp]: "ids (snd (update_layout (a, m))) = ids m"
  by (simp add: update_layout_def)

lemma ids_add [simp]: "ids (addScreen_list s m) = ids m @ [ui_id s]"
  by (simp add: ids_def addScreen_list_def)

lemma ids_remove [simp]: "ids (removeScreen_list k m) = remove1 k (ids m)"
proof (rule index_from_cases [of "\<lambda>s. ui_id s = k" "m_screens m"])
  assume "index_from (\<lambda>s. ui_id s = k) 0 (m_screens m) = -1" "\<forall>s\<in>set (m_screens m). ui_id s \<noteq> k"
  then show ?thesis
    by (auto simp: removeScreen_list_def findScreen_def Let_def in_list_def ids_def
        intro!: remove1_idem [symmetric])
next
  fix pre s post
  assume s: "m_screens m = pre @ s # post" "ui_id s = k" "\<forall>u\<in>set pre. ui_id u \<noteq> k"
    "index_from (\<lambda>s. ui_id s = k) 0 (m_screens m) = int (length pre)"
  then have "k \<notin> ui_id ` set pre"
    by auto
  then show ?thesis
    using s by (simp add: removeScreen_list_def findScreen_def Let_def in_list_def
        getScreenModeSize_def ids_def remove1_append)
qed

lemma ids_update_one:
  "ids (update_one s m) = (if ui_id s \<in> set (ids m) then ids m else ids m @ [ui_id s])"
proof (cases "ui_id s \<in> set (ids m)")
  case True
  let ?i = "findScreen (ui_id s) m"
  have i: "nat ?i < length (m_screens m)" "ui_id (m_screens m ! nat ?i) = ui_id s"
    using findScreen_in_list [OF True] findScreen_getScreen [OF True]
    by (auto simp: in_list_def getScreenModeSize_def getScreen_at_def)
  have "ids (change_at ?i (\<lambda>_. s) m) = (ids m)[nat ?i := ui_id s]"
    by (simp add: ids_def change_at_def map_update)
  also have "\<dots> = ids m"
    using i by (simp add: ids_def list_update_same_conv)
  finally show ?thesis
    using True by (simp add: update_one_def Let_def findScreen_absent)
next
  case False
  then show ?thesis
    by (simp add: update_one_def Let_def findScreen_absent)
qed

lemma calculateNewPos_id [simp]: "ui_id (calculateNewPos host a m s) = ui_id s"
  by (simp add: calculateNewPos_def Let_def if_distrib [of ui_id] split: prod.split)

lemma ids_addScreen [simp]: "ids (snd (addScreen host s (a, m))) = ids m @ [ui_id s]"
  by (simp add: addScreen_def)

lemma ids_removeScreen [simp]: "ids (snd (removeScreen k (a, m))) = remove1 k (ids m)"
  by (simp add: removeScreen_def)

lemma ids_adjustModel: "adjustModel host i (a, m) = Some (a', m') \<Longrightarrow> ids m' = ids m"
proof -
  have p: "ids (snd (place_at_box host i (a, m1))) = ids m1" for m1
    by (simp add: place_at_box_def Let_def)
  have s: "ids (snapToOthers i m) = ids m"
    by (simp add: snapToOthers_def split: prod.split)
  assume "adjustModel host i (a, m) = Some (a', m')"
  then consider "update_layout (a, snapToOthers i m) = (a', m')"
    | dx dy where "place_at_box host i (a, moveModel i dx dy (snapToOthers i m)) = (a', m')"
    | "place_at_box host i (a, m) = (a', m')"
    unfolding adjustModel_def by (fastforce simp: Let_def split: if_splits)
  then show ?thesis
    by cases (metis ids_update_layout s snd_conv, metis p s ids_moveModel snd_conv, metis p snd_conv)
qed

section \<open>The invariant\<close>

definition manager_ok :: "manager \<Rightarrow> bool" where
  "manager_ok g \<longleftrightarrow>
     all_in_window (m_model g) \<and> distinct (filter (\<lambda>i. i \<noteq> -1) (ids (m_model g))) \<and>
     set (ids (m_model g)) - {-1} \<subseteq> m_screenIdSet g \<and> finite (m_screenIdSet g)"

text \<open>What the invariant and the proofs about it see of a state.\<close>

definition same_ids :: "manager \<Rightarrow> manager \<Rightarrow> bool" where
  "same_ids g g' \<longleftrightarrow>
     (all_in_window (m_model g) \<longrightarrow> all_in_window (m_model g')) \<and>
     ids (m_model g') = ids (m_model g) \<and> m_screenIdSet g' = m_screenIdSet g"

lemma same_ids_ok: "same_ids g g' \<Longrightarrow> manager_ok g \<Longrightarrow> manager_ok g'"
  by (auto simp: same_ids_def manager_ok_def)

lemma emit_simps [simp]:
  "m_model (emit x g) = m_model g" "m_layout (emit x g) = m_layout g"
  "m_screenIdSet (emit x g) = m_screenIdSet g" "m_configVersion (emit x g) = m_configVersion g"
  by (simp_all add: emit_def)

lemma onUpdateProfileConfig_simps [simp]:
  "m_model (onUpdateProfileConfig e g) = m_model g"
  "m_screenIdSet (onUpdateProfileConfig e g) = m_screenIdSet g"
  by (simp_all add: onUpdateProfileConfig_def Let_def)

lemma setConfigHint_simps [simp]:
  "m_model (setConfigHint t g) = m_model g" "m_screenIdSet (setConfigHint t g) = m_screenIdSet g"
  by (simp_all add: setConfigHint_def)

lemma take_header_simps [simp]:
  "m_model (take_header v s g) = m_model g" "m_screenIdSet (take_header v s g) = m_screenIdSet g"
  by (simp_all add: take_header_def Let_def)

lemma with_layout_simps [simp]:
  "m_model (with_layout f g) = snd (f (m_layout g, m_model g))"
  "m_screenIdSet (with_layout f g) = m_screenIdSet g"
  by (simp_all add: with_layout_def split: prod.split)

subsection \<open>Positions\<close>

lemma in_window_update_layout:
  "all_in_window m \<Longrightarrow> all_in_window (snd (update_layout (a, m)))"
  by (metis all_in_window_update prod.collapse)

lemma in_window_adjustModel:
  assumes "adjustModel host i (a, m) = Some (a', m')" "all_in_window m"
  shows "all_in_window m'"
proof -
  have p: "all_in_window (snd (place_at_box host i (a, m1)))" if "all_in_window m1" for m1
    using that by (simp add: place_at_box_def Let_def in_window_update_layout all_in_window_moveModel)
  have s: "all_in_window (snapToOthers i m)"
    using assms(2) by (simp add: snapToOthers_def all_in_window_moveModel split: prod.split)
  consider "update_layout (a, snapToOthers i m) = (a', m')"
    | dx dy where "place_at_box host i (a, moveModel i dx dy (snapToOthers i m)) = (a', m')"
    | "place_at_box host i (a, m) = (a', m')"
    using assms(1) unfolding adjustModel_def by (fastforce simp: Let_def split: if_splits)
  then show ?thesis
    by cases (metis in_window_update_layout s snd_conv, metis p s all_in_window_moveModel snd_conv,
        metis p assms(2) snd_conv)
qed

lemma in_window_addScreen:
  "all_in_window m \<Longrightarrow> in_window s \<Longrightarrow> all_in_window (snd (addScreen host s (a, m)))"
  by (simp add: addScreen_def in_window_update_layout all_in_window_add calculateNewPos_in_window)

lemma in_window_removeScreen: "all_in_window m \<Longrightarrow> all_in_window (snd (removeScreen k (a, m)))"
  by (simp add: removeScreen_def in_window_update_layout all_in_window_remove)

lemma in_window_update_list:
  "all_in_window m \<Longrightarrow> \<forall>s\<in>set ss. in_window s \<Longrightarrow> all_in_window (update_list ss m)"
proof (induction ss arbitrary: m)
  case (Cons s ss)
  have "all_in_window (update_one s m)"
  proof (cases "findScreen (ui_id s) m = -1")
    case False
    then have "in_list (findScreen (ui_id s) m) m"
      using findScreen_absent findScreen_in_list by blast
    then show ?thesis
      using Cons.prems False
      by (simp add: update_one_def Let_def all_in_window_change)
  qed (use Cons.prems in \<open>simp add: update_one_def Let_def all_in_window_add\<close>)
  then show ?case
    using Cons by (simp add: update_list_def)
qed (simp add: update_list_def)

lemma ids_update_list:
  "set (ids (update_list ss m)) = set (ids m) \<union> ui_id ` set ss \<and>
   (distinct (filter P (ids m)) \<longrightarrow> distinct (filter P (ids (update_list ss m))))"
proof (induction ss arbitrary: m)
  case (Cons s ss)
  show ?case
    using Cons.IH [of "update_one s m"] by (auto simp: update_list_def ids_update_one)
qed (simp add: update_list_def)

lemma filter_remove1: "filter P (remove1 k xs) = (if P k then remove1 k (filter P xs) else filter P xs)"
  by (induction xs) auto

lemma remove1_ok:
  assumes "manager_ok g" "all_in_window (m_model g')"
    "ids (m_model g') = remove1 k (ids (m_model g))" "m_screenIdSet g' = m_screenIdSet g"
  shows "manager_ok g'"
  using assms set_remove1_subset [of k "ids (m_model g)"]
  by (auto simp: manager_ok_def filter_remove1)

section \<open>The interface of the layout\<close>

text \<open>
  The manager knows the layout by the interface \<open>IScreenArrangement\<close> only. What it relies on is that
  an operation keeps the positions in the window and the identifiers in place, apart from the one
  screen that it adds or removes.
\<close>

locale screen_arrangement =
  fixes add_screen :: "string \<Rightarrow> ui_screen \<Rightarrow> layout \<Rightarrow> layout"
    and remove_screen :: "int \<Rightarrow> layout \<Rightarrow> layout"
    and check_adjustment :: "bool \<Rightarrow> layout \<Rightarrow> layout"
    and adjust_model :: "string \<Rightarrow> int \<Rightarrow> layout \<Rightarrow> layout option"
  assumes add_ids: "ids (snd (add_screen host s l)) = ids (snd l) @ [ui_id s]"
    and add_window: "all_in_window (snd l) \<Longrightarrow> in_window s \<Longrightarrow> all_in_window (snd (add_screen host s l))"
    and remove_ids: "ids (snd (remove_screen k l)) = remove1 k (ids (snd l))"
    and remove_window: "all_in_window (snd l) \<Longrightarrow> all_in_window (snd (remove_screen k l))"
    and check_ids: "ids (snd (check_adjustment f l)) = ids (snd l)"
    and check_window: "all_in_window (snd l) \<Longrightarrow> all_in_window (snd (check_adjustment f l))"
    and adjust_ids: "adjust_model host i l = Some l' \<Longrightarrow> ids (snd l') = ids (snd l)"
    and adjust_window: "adjust_model host i l = Some l' \<Longrightarrow> all_in_window (snd l) \<Longrightarrow> all_in_window (snd l')"
begin

lemma add_ok:
  assumes "manager_ok g" "in_window s" "ui_id s = -1"
  shows "manager_ok (with_layout (add_screen host s) g)"
  using assms by (auto simp: manager_ok_def add_ids add_window)

lemma remove_ok:
  assumes "manager_ok g"
  shows "manager_ok (with_layout (remove_screen k) g)"
  using assms
  by (intro remove1_ok [OF assms, of _ k]) (simp_all add: manager_ok_def remove_ids remove_window)

lemma check_ok:
  assumes "manager_ok g"
  shows "manager_ok (with_layout (\<lambda>(a, m). check_adjustment f (h a, m)) g)"
  using assms by (simp add: manager_ok_def check_ids check_window)

lemma adjust_ok:
  assumes "adjust_model host i (a, m) = Some (a', m')" "manager_ok g"
    "ids m = ids (m_model g)" "all_in_window m"
  shows "manager_ok (g\<lparr>m_layout := a', m_model := m'\<rparr>)"
  using adjust_ids [OF assms(1)] adjust_window [OF assms(1)] assms(2-4)
  by (simp add: manager_ok_def)

end

interpretation bb: screen_arrangement addScreen removeScreen checkAdjustment adjustModel
proof
  fix host s l k f i l'
  show "ids (snd (addScreen host s l)) = ids (snd l) @ [ui_id s]"
    by (cases l) simp
  show "all_in_window (snd l) \<Longrightarrow> in_window s \<Longrightarrow> all_in_window (snd (addScreen host s l))"
    by (cases l) (simp add: in_window_addScreen)
  show "ids (snd (removeScreen k l)) = remove1 k (ids (snd l))"
    by (cases l) simp
  show "all_in_window (snd l) \<Longrightarrow> all_in_window (snd (removeScreen k l))"
    by (cases l) (simp add: in_window_removeScreen)
  show "ids (snd (checkAdjustment f l)) = ids (snd l)"
    by (cases l) simp
  show "all_in_window (snd l) \<Longrightarrow> all_in_window (snd (checkAdjustment f l))"
    by (cases l) (simp add: all_in_window_checkAdjustment)
  show "adjustModel host i l = Some l' \<Longrightarrow> ids (snd l') = ids (snd l)"
    by (cases l; cases l') (simp add: ids_adjustModel)
  show "adjustModel host i l = Some l' \<Longrightarrow> all_in_window (snd l) \<Longrightarrow> all_in_window (snd l')"
    by (cases l; cases l') (simp add: in_window_adjustModel)
qed

subsection \<open>Removing\<close>

lemma remove_props:
  assumes "all_in_window (m_model g)"
  shows "all_in_window (m_model (snd (removeScreenById k b g)))"
    and "ids (m_model (snd (removeScreenById k b g))) = remove1 k (ids (m_model g))"
    and "m_screenIdSet (snd (removeScreenById k b g)) = m_screenIdSet g"
proof -
  have "all_in_window (m_model g') \<and> ids (m_model g') = remove1 k (ids (m_model g)) \<and>
      m_screenIdSet g' = m_screenIdSet g"
    if "g' = snd (removeScreenById k b g)" for g'
  proof (cases "k \<in> set (ids (m_model g))")
    case True
    then show ?thesis
      using that assms findScreen_absent [of k "m_model g"] findScreen_in_list [OF True]
        findScreen_getScreen [OF True]
      by (simp add: removeScreenById_def removeScreenByIndex_def Let_def in_window_removeScreen)
  next
    case False
    then show ?thesis
      using that assms findScreen_absent [of k "m_model g"]
      by (simp add: removeScreenById_def removeScreenByIndex_def Let_def remove1_idem)
  qed
  then show "all_in_window (m_model (snd (removeScreenById k b g)))"
    "ids (m_model (snd (removeScreenById k b g))) = remove1 k (ids (m_model g))"
    "m_screenIdSet (snd (removeScreenById k b g)) = m_screenIdSet g"
    by blast+
qed

lemma removeScreenById_ok: "manager_ok g \<Longrightarrow> manager_ok (snd (removeScreenById k b g))"
  by (rule remove1_ok) (simp_all add: remove_props manager_ok_def)

lemma emit_ok: "manager_ok g \<Longrightarrow> manager_ok ((emit x g)\<lparr>m_configVersion := v\<rparr>)"
  by (simp add: manager_ok_def)

lemma removeScreenByIndex_ok:
  assumes "removeScreenByIndex i b g = Some (r, g')" "manager_ok g"
  shows "manager_ok g'"
  using assms
  by (auto simp: removeScreenByIndex_def Let_def bb.remove_ok emit_ok split: if_splits)

subsection \<open>Snapshots\<close>

lemma screen_of_json_props:
  "screen_of_json v = Some s \<Longrightarrow> ui_id s = sj_id v \<and> in_window s"
proof -
  let ?s = "setPosY (sj_y_pos v) (setPosX (sj_x_pos v) ((UIScreen (sj_name v))\<lparr>ui_id := sj_id v\<rparr>))"
  have "in_window ((UIScreen (sj_name v))\<lparr>ui_id := sj_id v\<rparr>)"
    using in_window_new [of "sj_name v"] by (simp add: in_window_def)
  then have "in_window ?s" "ui_id ?s = sj_id v"
    by (simp_all add: in_window_set)
  then show "screen_of_json v = Some s \<Longrightarrow> ui_id s = sj_id v \<and> in_window s"
    by (auto simp: screen_of_json_def setStatus_text_def in_window_def)
qed

lemma read_screens_props:
  "read_screens l m vs = Some (ss, out) \<Longrightarrow>
     (\<forall>s\<in>set ss. in_window s) \<and> ui_id ` set ss = sj_id ` {v \<in> set vs. \<not> keeps_own m v}"
proof (induction vs arbitrary: ss out)
  case (Cons v vs)
  show ?case
  proof (cases "keeps_own m v")
    case True
    then show ?thesis
      using Cons by auto
  next
    case False
    then obtain s ss' out' where "screen_of_json v = Some s" "read_screens l m vs = Some (ss', out')"
        "ss = s # ss'"
      using Cons.prems by (auto split: option.splits)
    then show ?thesis
      using Cons.IH [of ss' out'] screen_of_json_props [of v s] False by auto
  qed
qed simp

lemma read_screens_total:
  "\<forall>v\<in>set vs. stringToScreenStatus (sj_status v) \<noteq> None \<Longrightarrow> read_screens l m vs \<noteq> None"
proof (induction vs)
  case (Cons v vs)
  then obtain x where "read_screens l m vs = Some x"
    by auto
  moreover have "screen_of_json v \<noteq> None"
    using Cons.prems by (simp add: screen_of_json_def setStatus_text_def)
  ultimately show ?case
    by auto
qed simp

lemma remove_unsubscribed_props:
  assumes "all_in_window (m_model g)" "distinct (filter (\<lambda>i. i \<noteq> -1) (ids (m_model g)))"
  shows "all_in_window (m_model (remove_unsubscribed l ks g)) \<and>
    distinct (filter (\<lambda>i. i \<noteq> -1) (ids (m_model (remove_unsubscribed l ks g)))) \<and>
    set (ids (m_model (remove_unsubscribed l ks g))) - {-1} =
      set (ids (m_model g)) - {-1} - set ks \<and>
    m_screenIdSet (remove_unsubscribed l ks g) = m_screenIdSet g"
  using assms
proof (induction ks arbitrary: g)
  case (Cons k ks)
  let ?g = "let g1 = snd (removeScreenById k False g)
            in if k = l then emit LocalhostUnsubscribed g1 else g1"
  have g: "all_in_window (m_model ?g)" "ids (m_model ?g) = remove1 k (ids (m_model g))"
      "m_screenIdSet ?g = m_screenIdSet g"
    using remove_props [OF Cons.prems(1)] by (simp_all add: Let_def)
  have "set (filter (\<lambda>i. i \<noteq> -1) (remove1 k (ids (m_model g)))) =
      set (filter (\<lambda>i. i \<noteq> -1) (ids (m_model g))) - {k}"
    using Cons.prems(2) by (auto simp: filter_remove1)
  then have "set (ids (m_model ?g)) - {-1} = set (ids (m_model g)) - {-1} - {k}"
    unfolding g(2) by auto
  moreover have "distinct (filter (\<lambda>i. i \<noteq> -1) (ids (m_model ?g)))"
    unfolding g(2) using Cons.prems(2) by (simp add: filter_remove1)
  ultimately show ?case
    using Cons.IH [OF g(1)] g(3) by (auto simp: remove_unsubscribed_def)
qed (simp add: remove_unsubscribed_def)

text \<open>The identifiers that a snapshot leaves subscribed.\<close>

definition local_missing :: "app_settings \<Rightarrow> screen_json list \<Rightarrow> manager \<Rightarrow> bool" where
  "local_missing e vs g \<longleftrightarrow>
     app_screenId e \<notin> m_screenIdSet g \<and> app_screenId e \<notin> set (map sj_id vs) \<and> app_profileId e \<noteq> -1"

definition subscribed :: "app_settings \<Rightarrow> screen_json list \<Rightarrow> manager \<Rightarrow> int set" where
  "subscribed e vs g =
     set (map sj_id vs) \<union> (if local_missing e vs g then {app_screenId e} else {})"

definition walks_sets :: "(int set \<Rightarrow> int list) \<Rightarrow> bool" where
  "walks_sets iter \<longleftrightarrow> (\<forall>S. finite S \<longrightarrow> set (iter S) = S)"

lemma keeps_own_present: "keeps_own m v \<Longrightarrow> sj_id v \<in> set (ids m)"
  by (simp add: keeps_own_def Let_def findScreen_absent)

lemma merge_props:
  assumes ok: "manager_ok g" and iter: "walks_sets iter"
    and m: "merge_snapshot e iter vs g = Some (flag, g')"
  shows "flag = local_missing e vs g" "m_screenIdSet g' = subscribed e vs g"
    "all_in_window (m_model g')" "distinct (filter (\<lambda>i. i \<noteq> -1) (ids (m_model g')))"
    "set (ids (m_model g')) - {-1} = set (map sj_id vs) - {-1}"
proof -
  obtain ss out where rs: "read_screens (app_screenId e) (m_model g) vs = Some (ss, out)"
    using m by (auto simp: merge_snapshot_def)
  define g1 where "g1 = g\<lparr>m_out := m_out g @ out\<rparr>"
  define ks where "ks = iter (m_screenIdSet g - subscribed e vs g)"
  define g2 where "g2 = remove_unsubscribed (app_screenId e) ks g1"
  have g': "g' = g2\<lparr>m_screenIdSet := subscribed e vs g, m_model := update_list ss (m_model g2)\<rparr>"
    and flag: "flag = local_missing e vs g"
    using m unfolding merge_snapshot_def rs g2_def ks_def g1_def
    by (auto simp: Let_def subscribed_def local_missing_def)
  show "flag = local_missing e vs g" "m_screenIdSet g' = subscribed e vs g"
    using flag g' by simp_all
  have ks: "set ks = m_screenIdSet g - subscribed e vs g"
    using iter ok by (simp add: ks_def walks_sets_def manager_ok_def)
  have g1: "all_in_window (m_model g1)" "distinct (filter (\<lambda>i. i \<noteq> -1) (ids (m_model g1)))"
    using ok by (simp_all add: g1_def manager_ok_def)
  note g2 = remove_unsubscribed_props [OF g1, of "app_screenId e" ks, folded g2_def]
  note r = read_screens_props [OF rs]
  show "all_in_window (m_model g')"
    using g2 r by (simp add: g' in_window_update_list)
  show "distinct (filter (\<lambda>i. i \<noteq> -1) (ids (m_model g')))"
    using g2 by (simp add: g' ids_update_list)
  let ?old = "set (ids (m_model g)) - {-1}" and ?vs = "set (map sj_id vs)"
  have old: "set (ids (m_model g2)) - {-1} = ?old - set ks"
    using g2 by (simp add: g1_def)
  have sub: "?old \<subseteq> m_screenIdSet g"
    using ok by (simp add: manager_ok_def)
  have left: "?old - set ks \<subseteq> ?vs"
    using sub by (auto simp: ks subscribed_def local_missing_def split: if_splits)
  have kept: "sj_id v \<in> ?old - set ks" if "v \<in> set vs" "keeps_own (m_model g) v" "sj_id v \<noteq> -1" for v
    using that keeps_own_present by (auto simp: ks subscribed_def)
  have "set (ids (m_model g')) - {-1} = (set (ids (m_model g2)) - {-1}) \<union> (ui_id ` set ss - {-1})"
    by (auto simp: g' ids_update_list)
  also have "\<dots> = (?old - set ks) \<union> (sj_id ` {v \<in> set vs. \<not> keeps_own (m_model g) v} - {-1})"
    using old r by simp
  also have "\<dots> = ?vs - {-1}"
    using left kept by auto
  finally show "set (ids (m_model g')) - {-1} = ?vs - {-1}" .
qed

lemma in_window_new_id [simp]: "in_window ((UIScreen name)\<lparr>ui_id := i\<rparr>)"
  using in_window_new [of name] by (simp add: in_window_def)

lemma finish_props:
  assumes w: "all_in_window (m_model g)" and d: "distinct (filter (\<lambda>i. i \<noteq> -1) (ids (m_model g)))"
    and new: "flag \<Longrightarrow> app_screenId e \<notin> set (ids (m_model g)) - {-1}"
  shows "all_in_window (m_model (finish_update e flag g))"
    and "distinct (filter (\<lambda>i. i \<noteq> -1) (ids (m_model (finish_update e flag g))))"
    and "set (ids (m_model (finish_update e flag g))) - {-1} =
           (set (ids (m_model g)) \<union> (if flag then {app_screenId e} else {})) - {-1}"
    and "m_screenIdSet (finish_update e flag g) = m_screenIdSet g"
proof -
  define g1 where "g1 = snd (removeScreenById (-1) False g)"
  have g1: "all_in_window (m_model g1)" "ids (m_model g1) = remove1 (-1) (ids (m_model g))"
      "m_screenIdSet g1 = m_screenIdSet g"
    using remove_props [OF w] by (simp_all add: g1_def)
  have f: "filter (\<lambda>i. i \<noteq> -1) (remove1 (-1) (ids (m_model g))) =
      filter (\<lambda>i. i \<noteq> -1) (ids (m_model g))"
    by (simp add: filter_remove1)
  then have s: "set (remove1 (-1) (ids (m_model g))) - {-1} = set (ids (m_model g)) - {-1}"
    by (metis set_minus_filter_out)
  have i: "ids (m_model (finish_update e flag g)) =
      remove1 (-1) (ids (m_model g)) @ (if flag then [app_screenId e] else [])"
    using g1(2) by (simp add: finish_update_def Let_def g1_def)
  show "all_in_window (m_model (finish_update e flag g))"
    using g1(1) by (simp add: finish_update_def Let_def g1_def in_window_addScreen)
  show "distinct (filter (\<lambda>i. i \<noteq> -1) (ids (m_model (finish_update e flag g))))"
    using d new by (auto simp: i f)
  show "set (ids (m_model (finish_update e flag g))) - {-1} =
      (set (ids (m_model g)) \<union> (if flag then {app_screenId e} else {})) - {-1}"
    using s unfolding i by auto
  show "m_screenIdSet (finish_update e flag g) = m_screenIdSet g"
    using g1(3) by (simp add: finish_update_def Let_def g1_def)
qed

lemma take_header_ok: "manager_ok g \<Longrightarrow> manager_ok (take_header v s g)"
  by (simp add: manager_ok_def)

lemma updateScreens_fresh:
  assumes ok: "manager_ok g" and iter: "walks_sets iter" and fresh: "m_configVersion g \<le> v"
    and u: "updateScreens e iter (Snapshot v srv vs) g = Some g'"
  shows "manager_ok g' \<and> m_screenIdSet g' = subscribed e vs g \<and>
    set (ids (m_model g')) - {-1} = subscribed e vs g - {-1}"
proof -
  let ?h = "take_header v srv g"
  obtain flag g1 where m: "merge_snapshot e iter vs ?h = Some (flag, g1)"
    and g': "g' = finish_update e flag g1"
    using u fresh by (auto simp: updateScreens_def)
  have sub: "subscribed e vs ?h = subscribed e vs g" "local_missing e vs ?h = local_missing e vs g"
    by (simp_all add: subscribed_def local_missing_def)
  note g1 = merge_props [OF take_header_ok [OF ok] iter m, unfolded sub]
  have new: "app_screenId e \<notin> set (ids (m_model g1)) - {-1}" if flag
    using that unfolding g1(1) g1(5) local_missing_def by simp
  note f = finish_props [OF g1(3,4), of flag e, OF new, folded g']
  have "set (ids (m_model g')) - {-1} = subscribed e vs g - {-1}"
    using f(3) g1(1,5) unfolding subscribed_def by auto
  moreover have "finite (subscribed e vs g)"
    by (simp add: subscribed_def)
  ultimately show ?thesis
    using f g1(2) by (simp add: manager_ok_def)
qed

lemma updateScreens_ok:
  assumes "manager_ok g" "walks_sets iter" "updateScreens e iter reply g = Some g'"
  shows "manager_ok g'"
proof (cases reply)
  case NoObject
  have "all_in_window (m_model g)" "distinct (filter (\<lambda>i. i \<noteq> -1) (ids (m_model g)))"
    using assms(1) by (simp_all add: manager_ok_def)
  note f = finish_props [OF this, of False e]
  then show ?thesis
    using assms(1,3) NoObject by (auto simp: updateScreens_def manager_ok_def)
next
  case (Snapshot v srv vs)
  then show ?thesis
    using updateScreens_fresh [OF assms(1,2)] assms
    by (cases "m_configVersion g \<le> v") (auto simp: updateScreens_def)
qed

section \<open>Everything that can happen to the manager\<close>

inductive manager_step :: "manager \<Rightarrow> manager \<Rightarrow> bool" where
  Move: "manager_moveModel e i dx dy g = Some g' \<Longrightarrow> manager_step g g'"
| Resize_Width: "manager_step g (setViewWidth w g)"
| Resize_Height: "manager_step g (setViewHeight h g)"
| Add: "manager_step g (snd (manager_addScreen e name g))"
| Lock: "manager_step g (manager_lockScreen i g)"
| Unlock: "manager_step g (manager_unlockScreen i g)"
| Claim: "manager_serverClaim i g = Some g' \<Longrightarrow> manager_step g g'"
| Restart: "manager_step g (restartServices g)"
| Service_Proxy: "manager_step g (setServiceProxy given g)"
| Key: "manager_step g (onKeyPressed key g)"
| Screen_Error: "manager_step g (onScreenError name code g)"
| Remove_Index: "removeScreenByIndex i notify g = Some (r, g') \<Longrightarrow> manager_step g g'"
| Remove_Id: "manager_step g (snd (removeScreenById k notify g))"
| Receive: "walks_sets iter \<Longrightarrow> updateScreens e iter reply g = Some g' \<Longrightarrow> manager_step g g'"

inductive manager_reachable :: "manager \<Rightarrow> bool" where
  Start: "manager_reachable (setScreenModel e new_screen_list new_manager)"
| Step: "manager_reachable g \<Longrightarrow> manager_step g g' \<Longrightarrow> manager_reachable g'"

lemma UIScreen_id: "ui_id (UIScreen name) = -1"
  by (simp add: UIScreen_def)

lemma manager_addScreen_ok: "manager_ok g \<Longrightarrow> manager_ok (snd (manager_addScreen e name g))"
  using bb.add_ok [OF _ in_window_new [of name]] UIScreen_id by (simp add: manager_addScreen_def)

lemma manager_move_ok:
  assumes "manager_moveModel e i dx dy g = Some g'" "manager_ok g"
  shows "manager_ok g'"
proof (cases "dx = 0 \<and> dy = 0 \<or> i = -1")
  case False
  then obtain a m where adj:
      "adjustModel (local_host e) i (m_layout g, moveModel i dx dy (m_model g)) = Some (a, m)"
    and g': "g' = onUpdateProfileConfig e (g\<lparr>m_layout := a, m_model := m\<rparr>)"
    using assms(1) by (auto simp: manager_moveModel_def)
  have "manager_ok (g\<lparr>m_layout := a, m_model := m\<rparr>)"
    using assms(2)
    by (intro bb.adjust_ok [OF adj]) (simp_all add: manager_ok_def all_in_window_moveModel)
  then show ?thesis
    by (simp add: manager_ok_def g')
qed (use assms in \<open>simp add: manager_moveModel_def\<close>)

lemma resize_ok:
  assumes "manager_ok g"
  shows "manager_ok (setViewWidth w g)" "manager_ok (setViewHeight h g)"
  using bb.check_ok [OF assms] assms by (simp_all add: setViewWidth_def setViewHeight_def)

lemma lock_ok:
  assumes "manager_ok g"
  shows "manager_ok (manager_lockScreen i g)" "manager_ok (manager_unlockScreen i g)"
proof -
  have f: "in_window (s\<lparr>ui_locked := b\<rparr>)" if "in_window s" for s b
    using that by (simp add: in_window_def)
  have "same_ids g (manager_lockScreen i g)" "same_ids g (manager_unlockScreen i g)"
    using f by (simp_all add: same_ids_def manager_lockScreen_def manager_unlockScreen_def
        lockScreen_def unlockScreen_def all_in_window_change ids_change_at)
  then show "manager_ok (manager_lockScreen i g)" "manager_ok (manager_unlockScreen i g)"
    using assms by (auto intro: same_ids_ok)
qed

lemma manager_step_ok: "manager_step g g' \<Longrightarrow> manager_ok g \<Longrightarrow> manager_ok g'"
proof (induction rule: manager_step.induct)
  case (Claim i g g')
  then show ?case
    by (auto simp: manager_serverClaim_def manager_ok_def Let_def split: if_splits)
next
  case (Restart g)
  then show ?case
    by (simp add: restartServices_def manager_ok_def)
next
  case (Service_Proxy given g)
  then show ?case
    by (simp add: setServiceProxy_def manager_ok_def)
next
  case (Key key g)
  then show ?case
    by (simp add: onKeyPressed_def manager_ok_def)
next
  case (Screen_Error name code g)
  then show ?case
    by (simp add: onScreenError_def)
qed (blast intro: manager_move_ok resize_ok manager_addScreen_ok lock_ok removeScreenByIndex_ok
      removeScreenById_ok updateScreens_ok)+

lemma manager_reachable_ok: "manager_reachable g \<Longrightarrow> manager_ok g"
proof (induction rule: manager_reachable.induct)
  case (Start e)
  have "manager_ok (new_manager\<lparr>m_model := new_screen_list\<rparr>)"
    by (simp add: manager_ok_def new_manager_def new_screen_list_def all_in_window_def ids_def)
  then show ?case
    by (simp add: setScreenModel_def manager_addScreen_ok)
qed (blast intro: manager_step_ok)

text \<open>C19. Whatever the user does and whatever the service sends, and in every order, the positions
  of all screens stay in the window, no identifier of a screen occurs twice in the list, and every
  identified screen of the list is one of the subscribed screens that the manager remembers.\<close>

theorem screen_list_stays_well_formed:
  assumes "manager_reachable g"
  shows "all_in_window (m_model g) \<and> distinct (filter (\<lambda>i. i \<noteq> -1) (ids (m_model g))) \<and>
    set (ids (m_model g)) - {-1} \<subseteq> m_screenIdSet g"
  using manager_reachable_ok [OF assms] by (simp add: manager_ok_def)

definition home :: app_settings where
  "home = \<lparr>local_host = ''desk'', app_profileId = 3, app_screenId = 7\<rparr>"

definition laptop :: screen_json where
  "laptop = \<lparr>sj_id = 9, sj_name = ''laptop'', sj_version = 1, sj_x_pos = 100, sj_y_pos = 100,
             sj_status = ''Connected'', sj_error_code = 0, sj_error_message = '''', sj_active = True\<rparr>"

theorem screen_list_stays_well_formed_witness:
  "all_in_window (m_model (setViewWidth 800 (setScreenModel home new_screen_list new_manager))) \<and>
   set (ids (m_model (setViewWidth 800 (setScreenModel home new_screen_list new_manager)))) - {-1} \<subseteq>
     m_screenIdSet (setViewWidth 800 (setScreenModel home new_screen_list new_manager))"
proof -
  have "manager_reachable (setViewWidth 800 (setScreenModel home new_screen_list new_manager))"
    by (rule manager_reachable.Step [OF manager_reachable.Start manager_step.Resize_Width])
  from screen_list_stays_well_formed [OF this] show ?thesis
    by blast
qed

text \<open>C15. A snapshot that is not older than the list is merged completely: when its states are
  known, the update succeeds, and afterwards the identified screens of the list are exactly those
  of the snapshot, together with this computer where the profile has not seen it yet.\<close>

theorem snapshot_settles_the_list:
  assumes "manager_reachable g" "walks_sets iter" "m_configVersion g \<le> v"
    and "\<forall>j\<in>set vs. stringToScreenStatus (sj_status j) \<noteq> None"
  shows "\<exists>g'. updateScreens e iter (Snapshot v srv vs) g = Some g' \<and>
    set (ids (m_model g')) - {-1} = subscribed e vs g - {-1} \<and> m_screenIdSet g' = subscribed e vs g"
proof -
  obtain x where "read_screens (app_screenId e) (m_model g) vs = Some x"
    using read_screens_total [OF assms(4)] by blast
  then obtain g' where "updateScreens e iter (Snapshot v srv vs) g = Some g'"
    using assms(3) by (auto simp: updateScreens_def merge_snapshot_def)
  then show ?thesis
    using updateScreens_fresh [OF manager_reachable_ok [OF assms(1)] assms(2,3)] by blast
qed

theorem snapshot_settles_the_list_witness:
  "\<exists>g'. updateScreens home sorted_list_of_set (Snapshot 4 9 [laptop])
          (setScreenModel home new_screen_list new_manager) = Some g' \<and>
        set (ids (m_model g')) - {-1} = {7, 9}"
proof -
  let ?g = "setScreenModel home new_screen_list new_manager"
  have v: "m_configVersion ?g \<le> 4"
    by (simp add: setScreenModel_def manager_addScreen_def with_layout_def new_manager_def
        split: prod.split)
  have i: "m_screenIdSet ?g = {}"
    by (simp add: setScreenModel_def manager_addScreen_def new_manager_def)
  have s: "subscribed home [laptop] ?g = {7, 9}"
    unfolding subscribed_def local_missing_def i by (simp add: home_def laptop_def insert_commute)
  have w: "walks_sets sorted_list_of_set"
    by (simp add: walks_sets_def)
  have t: "\<forall>j\<in>set [laptop]. stringToScreenStatus (sj_status j) \<noteq> None"
    by (simp add: laptop_def stringToScreenStatus_def)
  show ?thesis
    using snapshot_settles_the_list [OF manager_reachable.Start w v t, of home 9] s by auto
qed

end
