(* ===== verification/Websocket.thy ===== *)
theory Websocket
  imports Cloud UserConfig
begin

text \<open>
  The connection over which the cloud sends the snapshots of the profile: the session with its
  reconnection timer (\<open>service/WebsocketSession.cpp\<close>), and the loading of the settings in
  \<open>service/CloudClient.cpp\<close>, which chooses when to connect and with which headers. The operation
  in progress is a field, and its completion an input; starting an operation on a new socket
  abandons the one before. The name lookup is synchronous, so that an input that may connect
  carries its result, together with the random number that the delay would be drawn from. The
  options of the socket that keep it alive are left out.
\<close>

section \<open>The session\<close>

definition kMinReconnectDelaySec :: int where "kMinReconnectDelaySec = 5"
definition kMaxReconnectDelaySec :: int where "kMaxReconnectDelaySec = 30"

datatype websocket_error = KConnection | KRead | KAuth | KUnknown

datatype ws_op = WNone | WTcp | WHandshake | WRead

text \<open>What the session signals, and what it writes to the server.\<close>

datatype ws_event =
    WsConnected
  | WsError websocket_error
  | WsMessage string
  | WsHandshake string "string \<Rightarrow> string option"
  | WsWrite string

record websocket =
  ws_connected :: bool
  ws_connecting :: bool
  ws_client :: "proxy_client option"
  ws_op :: ws_op
  ws_timer :: "int option"
  ws_target :: string
  ws_headers :: "string \<Rightarrow> string option"
  ws_proxy :: "string \<times> int"
  ws_out :: "ws_event list"

definition new_websocket :: websocket where
  "new_websocket =
     \<lparr>ws_connected = False, ws_connecting = False, ws_client = None, ws_op = WNone, ws_timer = None,
      ws_target = '''', ws_headers = (\<lambda>_. None), ws_proxy = ('''', 0), ws_out = []\<rparr>"

definition ws_emit :: "ws_event \<Rightarrow> websocket \<Rightarrow> websocket" where
  "ws_emit e w = w\<lparr>ws_out := ws_out w @ [e]\<rparr>"

definition ws_initSockets :: "websocket \<Rightarrow> websocket" where
  "ws_initSockets w =
     w\<lparr>ws_client := Some (snd (pc_setProxy (fst (ws_proxy w)) (snd (ws_proxy w)) new_proxy_client)),
       ws_op := WNone\<rparr>"

text \<open>Only a connected session is shut down; its timer is cancelled with it.\<close>

definition ws_shutdown :: "websocket \<Rightarrow> websocket" where
  "ws_shutdown w =
     (if ws_connected w
      then w\<lparr>ws_timer := None, ws_op := WNone, ws_connecting := False, ws_connected := False\<rparr>
      else w)"

definition ws_reconnect :: "bool \<Rightarrow> nat \<Rightarrow> websocket \<Rightarrow> websocket" where
  "ws_reconnect now rnd w =
     (let random = int rnd mod (kMaxReconnectDelaySec - kMinReconnectDelaySec + 1);
          delay = (if now then 0 else kMinReconnectDelaySec + random)
      in (ws_shutdown w)\<lparr>ws_timer := Some delay\<rparr>)"

definition ws_handleConnectError :: "bool \<Rightarrow> websocket_error \<Rightarrow> nat \<Rightarrow> websocket \<Rightarrow> websocket" where
  "ws_handleConnectError again e rnd w =
     (let w1 = ws_emit (WsError e) (w\<lparr>ws_connecting := False\<rparr>)
      in if again then ws_reconnect False rnd w1 else w1)"

definition ws_onTcpClientConnectFailed :: "nat \<Rightarrow> websocket \<Rightarrow> websocket" where
  "ws_onTcpClientConnectFailed rnd w =
     (if ws_client w = None then w
      else ws_handleConnectError True KConnection rnd (w\<lparr>ws_client := None, ws_op := WNone\<rparr>))"

definition ws_connect :: "bool \<Rightarrow> nat \<Rightarrow> string \<Rightarrow> websocket \<Rightarrow> websocket" where
  "ws_connect resolved rnd tgt w =
     (let w1 = (ws_initSockets w)\<lparr>ws_connecting := True, ws_target := tgt\<rparr>
      in if resolved then w1\<lparr>ws_op := WTcp\<rparr> else ws_onTcpClientConnectFailed rnd w1)"

definition ws_timer_fires :: "bool \<Rightarrow> nat \<Rightarrow> websocket \<Rightarrow> websocket" where
  "ws_timer_fires resolved rnd w =
     ws_connect resolved rnd (ws_target w) (ws_initSockets (w\<lparr>ws_timer := None\<rparr>))"

definition ws_onTcpClientConnected :: "websocket \<Rightarrow> websocket" where
  "ws_onTcpClientConnected w =
     ws_emit (WsHandshake (ws_target w) (ws_headers w)) (w\<lparr>ws_op := WHandshake\<rparr>)"

text \<open>The end of the handshake: the answer of the server has a status and may have a reason.\<close>

datatype handshake_end = Upgraded | Refused int string

definition http_forbidden :: int where "http_forbidden = 403"

definition ws_onHandshakeFinished :: "nat \<Rightarrow> handshake_end \<Rightarrow> websocket \<Rightarrow> websocket" where
  "ws_onHandshakeFinished rnd r w =
     (case r of
        Refused status reason \<Rightarrow>
          if status = http_forbidden \<and> reason \<noteq> ''''
          then ws_handleConnectError False KAuth rnd (w\<lparr>ws_op := WNone\<rparr>)
          else ws_handleConnectError True KConnection rnd (w\<lparr>ws_op := WNone\<rparr>)
      | Upgraded \<Rightarrow>
          ws_emit WsConnected (w\<lparr>ws_connecting := False, ws_connected := True, ws_op := WRead\<rparr>))"

datatype read_end = Received string | ReadError net_error

definition ws_onReadFinished :: "nat \<Rightarrow> read_end \<Rightarrow> websocket \<Rightarrow> websocket" where
  "ws_onReadFinished rnd r w =
     (case r of
        ReadError e \<Rightarrow>
          if e \<noteq> operation_aborted
          then ws_handleConnectError True KRead rnd (w\<lparr>ws_op := WNone\<rparr>)
          else w\<lparr>ws_op := WNone\<rparr>
      | Received m \<Rightarrow> ws_emit (WsMessage m) w)"

definition ws_write :: "string \<Rightarrow> websocket \<Rightarrow> websocket" where
  "ws_write m w = (if ws_connected w then ws_emit (WsWrite m) w else w)"

definition ws_addHeader :: "string \<Rightarrow> string \<Rightarrow> websocket \<Rightarrow> websocket" where
  "ws_addHeader n v w = w\<lparr>ws_headers := (ws_headers w)(n \<mapsto> v)\<rparr>"

definition ws_setProxy :: "string \<Rightarrow> int \<Rightarrow> websocket \<Rightarrow> bool \<times> websocket" where
  "ws_setProxy host port w =
     (let w1 = w\<lparr>ws_proxy := (host, port)\<rparr> in
      case ws_client w1 of
        Some c \<Rightarrow> (let (changed, c') = pc_setProxy host port c in (changed, w1\<lparr>ws_client := Some c'\<rparr>))
      | None \<Rightarrow> (False, w1))"

text \<open>The end of an attempt to connect; \<open>None\<close> where the exception of a client that is connected
  already ends the program.\<close>

definition ws_tcp_done :: "network_run \<Rightarrow> nat \<Rightarrow> websocket \<Rightarrow> websocket option" where
  "ws_tcp_done net rnd w =
     (case ws_client w of
        None \<Rightarrow> Some w
      | Some c \<Rightarrow>
          (case tcp_connect net c of
             (TcpConnected, c') \<Rightarrow> Some (ws_onTcpClientConnected (w\<lparr>ws_client := Some c'\<rparr>))
           | (TcpConnectFailed e, c') \<Rightarrow>
               Some (ws_onTcpClientConnectFailed rnd (w\<lparr>ws_client := Some c'\<rparr>))
           | (TcpSilent, c') \<Rightarrow> Some (w\<lparr>ws_client := Some c', ws_op := WNone\<rparr>)
           | (TcpThrew, c') \<Rightarrow> None))"

section \<open>Steps\<close>

datatype ws_input =
    WConnect string
  | WReconnect bool
  | WShutdown
  | WTimer
  | WTcpDone network_run
  | WHandshakeDone handshake_end
  | WReadDone read_end
  | WWrite string
  | WSetProxy string int
  | WAddHeader string string

definition ws_step :: "bool \<Rightarrow> nat \<Rightarrow> ws_input \<Rightarrow> websocket \<Rightarrow> websocket option" where
  "ws_step resolved rnd i w =
     (case i of
        WConnect t \<Rightarrow> Some (ws_connect resolved rnd t w)
      | WReconnect now \<Rightarrow> Some (ws_reconnect now rnd w)
      | WShutdown \<Rightarrow> Some (ws_shutdown w)
      | WTimer \<Rightarrow> Some (if ws_timer w = None then w else ws_timer_fires resolved rnd w)
      | WTcpDone net \<Rightarrow> if ws_op w = WTcp then ws_tcp_done net rnd w else Some w
      | WHandshakeDone r \<Rightarrow>
          Some (if ws_op w = WHandshake then ws_onHandshakeFinished rnd r w else w)
      | WReadDone r \<Rightarrow> Some (if ws_op w = WRead then ws_onReadFinished rnd r w else w)
      | WWrite m \<Rightarrow> Some (ws_write m w)
      | WSetProxy host port \<Rightarrow> Some (snd (ws_setProxy host port w))
      | WAddHeader n v \<Rightarrow> Some (ws_addHeader n v w))"

fun ws_run :: "(bool \<times> nat \<times> ws_input) list \<Rightarrow> websocket \<Rightarrow> websocket option" where
  "ws_run [] w = Some w"
| "ws_run ((resolved, rnd, i) # is) w =
     (case ws_step resolved rnd i w of None \<Rightarrow> None | Some w' \<Rightarrow> ws_run is w')"

section \<open>Loading the settings\<close>

text \<open>\<open>std::to_string\<close>\<close>

fun dec_nat :: "nat \<Rightarrow> string" where
  "dec_nat n = (if n < 10 then [char_of (48 + n)] else dec_nat (n div 10) @ [char_of (48 + n mod 10)])"

declare dec_nat.simps [simp del]

definition dec :: "int \<Rightarrow> string" where
  "dec i = (if i < 0 then CHR ''-'' # dec_nat (nat (- i)) else dec_nat (nat i))"

definition kSubTarget :: string where "kSubTarget = ''/synergy/sub/auth''"

text \<open>The client: its requests, the session, the last login, the header of the requests. The last
  identifier is kept in an \<open>int\<close>.\<close>

record cloud_link =
  l_cloud :: cloud
  l_ws :: websocket
  l_lastProfileId :: "32 word"
  l_lastUserToken :: string
  l_http_token :: string

definition new_cloud_link :: cloud_link where
  "new_cloud_link =
     \<lparr>l_cloud = init_cloud, l_ws = new_websocket, l_lastProfileId = -1, l_lastUserToken = '''',
      l_http_token = ''''\<rparr>"

definition login_headers :: "string \<Rightarrow> user_config \<Rightarrow> websocket \<Rightarrow> websocket" where
  "login_headers version c w =
     (let w1 = ws_addHeader ''X-Synergy-Version'' version
                 (ws_addHeader ''X-Auth-Token'' (userToken c)
                   (ws_addHeader ''X-Channel-Id'' (dec (profileId c)) w))
      in if \<not> versionCheck c then ws_addHeader ''X-Version-Check'' ''False'' w1 else w1)"

definition link_setProxy ::
    "(string \<Rightarrow> int option) \<Rightarrow> string \<Rightarrow> string \<Rightarrow> cloud_link \<Rightarrow> (bool \<times> cloud_link) option" where
  "link_setProxy to_port protocol config l =
     map_option
       (\<lambda>(changed, cl).
          (changed,
           l\<lparr>l_cloud := cl,
             l_ws := (if changed then snd (ws_setProxy (fst (cloud_proxy cl)) (snd (cloud_proxy cl)) (l_ws l))
                      else l_ws l)\<rparr>))
       (cloud_setProxy to_port protocol config (l_cloud l))"

definition cloud_load ::
    "(string \<Rightarrow> int option) \<Rightarrow> string \<Rightarrow> bool \<Rightarrow> nat \<Rightarrow> user_config \<Rightarrow> cloud_link \<Rightarrow> cloud_link option" where
  "cloud_load to_port version resolved rnd c l =
     map_option
       (\<lambda>(_, l1).
          (let w = l_ws l1;
               fresh = (profileId c \<noteq> -1 \<and>
                        (profileId c \<noteq> sint (l_lastProfileId l1) \<or> userToken c \<noteq> l_lastUserToken l1));
               w1 = login_headers version c w;
               w2 = (if \<not> ws_connected w1 then ws_connect resolved rnd kSubTarget w1
                     else ws_reconnect False rnd w1)
           in l1\<lparr>l_ws := (if fresh then w2 else w), l_lastProfileId := word_of_int (profileId c),
                 l_lastUserToken := userToken c, l_http_token := userToken c\<rparr>))
       (link_setProxy to_port ''http'' (httpProxy c) l)"

definition reconnectWebsocket :: "nat \<Rightarrow> cloud_link \<Rightarrow> cloud_link" where
  "reconnectWebsocket rnd l = l\<lparr>l_ws := ws_reconnect True rnd (l_ws l)\<rparr>"

definition shutdownWebsocket :: "cloud_link \<Rightarrow> cloud_link" where
  "shutdownWebsocket l = l\<lparr>l_ws := ws_shutdown (l_ws l)\<rparr>"

definition isWebsocketConnected :: "cloud_link \<Rightarrow> bool" where
  "isWebsocketConnected l \<longleftrightarrow> ws_connected (l_ws l)"

end
