(* ===== verification/Websocket_Props.thy ===== *)
theory Websocket_Props
  imports Websocket
begin

text \<open>
  What the connection to the cloud promises: it keeps trying as long as the network answers its
  attempts in some way and the login is not refused; a session that is asked to connect only when
  it is idle has at most one thing under way and knows whether it is connected; and the handshake
  carries the login that was loaded last. A change of the proxy, however, closes the socket under
  a session that is connected, and the session then stays silent for good.
\<close>

section \<open>The session keeps trying\<close>

definition busy :: "websocket \<Rightarrow> bool" where
  "busy w \<longleftrightarrow> ws_op w \<noteq> WNone \<or> ws_timer w \<noteq> None"

text \<open>The client of an attempt is one that is not connected yet, so that no exception is thrown.\<close>

definition fresh_client :: "websocket \<Rightarrow> bool" where
  "fresh_client w \<longleftrightarrow>
     (ws_op w = WTcp \<longrightarrow> (\<exists>c. ws_client w = Some c \<and> \<not> pc_connected c))"

text \<open>Inputs other than a shutdown, an aborted operation, and the refusal of the login.\<close>

definition answers :: "websocket \<Rightarrow> ws_input \<Rightarrow> bool" where
  "answers w i \<longleftrightarrow>
     (case i of
        WShutdown \<Rightarrow> False
      | WTcpDone net \<Rightarrow>
          (case ws_client w of None \<Rightarrow> True | Some c \<Rightarrow> fst (tcp_connect net c) \<noteq> TcpSilent)
      | WHandshakeDone r \<Rightarrow>
          (case r of Upgraded \<Rightarrow> True | Refused st reason \<Rightarrow> st \<noteq> http_forbidden \<or> reason = '''')
      | WReadDone r \<Rightarrow>
          (case r of Received m \<Rightarrow> True | ReadError e \<Rightarrow> e \<noteq> operation_aborted)
      | _ \<Rightarrow> True)"

inductive trying :: "websocket \<Rightarrow> bool" where
  Start: "trying (ws_connect resolved rnd t w)"
| Step: "trying w \<Longrightarrow> answers w i \<Longrightarrow> ws_step resolved rnd i w = Some w' \<Longrightarrow> trying w'"

lemma new_client_not_connected [simp]: "\<not> pc_connected (snd (pc_setProxy h p new_proxy_client))"
  by (simp add: pc_setProxy_def new_proxy_client_def Let_def)

lemma setProxy_not_connected: "pc_setProxy h p c = (b, c') \<Longrightarrow> pc_connected c' \<Longrightarrow> pc_connected c"
  by (auto simp: pc_setProxy_def Let_def split: if_splits)

lemma ws_emit_simps [simp]:
  "ws_op (ws_emit e w) = ws_op w" "ws_timer (ws_emit e w) = ws_timer w"
  "ws_client (ws_emit e w) = ws_client w" "ws_connected (ws_emit e w) = ws_connected w"
  "ws_connecting (ws_emit e w) = ws_connecting w" "ws_headers (ws_emit e w) = ws_headers w"
  "ws_target (ws_emit e w) = ws_target w"
  by (simp_all add: ws_emit_def)

lemma ws_shutdown_op: "ws_op (ws_shutdown w) = (if ws_connected w then WNone else ws_op w)"
  by (simp add: ws_shutdown_def)

lemma ws_shutdown_client [simp]: "ws_client (ws_shutdown w) = ws_client w"
  by (simp add: ws_shutdown_def)

lemma ws_reconnect_busy [simp]: "busy (ws_reconnect now rnd w)"
  by (simp add: busy_def ws_reconnect_def)

lemma ws_reconnect_fresh: "fresh_client w \<Longrightarrow> fresh_client (ws_reconnect now rnd w)"
  by (auto simp: fresh_client_def ws_reconnect_def ws_shutdown_op)

lemma handleConnectError_busy [simp]: "busy (ws_handleConnectError True e rnd w)"
  by (simp add: ws_handleConnectError_def)

lemma handleConnectError_fresh:
  "ws_op w = WNone \<Longrightarrow> fresh_client (ws_handleConnectError b e rnd w)"
  by (simp add: fresh_client_def ws_handleConnectError_def ws_reconnect_def Let_def ws_shutdown_op)

lemma ws_connect_ok: "busy (ws_connect resolved rnd t w) \<and> fresh_client (ws_connect resolved rnd t w)"
  by (simp add: ws_connect_def ws_initSockets_def Let_def ws_onTcpClientConnectFailed_def
      handleConnectError_fresh) (simp add: busy_def fresh_client_def)

lemma tcp_connect_not_threw: "\<not> pc_connected c \<Longrightarrow> fst (tcp_connect net c) \<noteq> TcpThrew"
  by (auto simp: tcp_connect_def pc_connect_def onConnectFinished_def onSslHandshakeFinished_def
      split: option.splits if_splits)

lemma ws_tcp_done_ok:
  assumes "ws_op w = WTcp" "fresh_client w" "answers w (WTcpDone net)"
  shows "\<exists>w'. ws_tcp_done net rnd w = Some w' \<and> busy w' \<and> fresh_client w'"
proof -
  obtain c where c: "ws_client w = Some c" "\<not> pc_connected c"
    using assms(1,2) by (auto simp: fresh_client_def)
  obtain r c' where r: "tcp_connect net c = (r, c')"
    by fastforce
  have "r \<noteq> TcpThrew" "r \<noteq> TcpSilent"
    using tcp_connect_not_threw [OF c(2), of net] r assms(3) c(1) by (auto simp: answers_def)
  then show ?thesis
    using c r
    by (cases r) (auto simp: ws_tcp_done_def ws_onTcpClientConnected_def
        ws_onTcpClientConnectFailed_def handleConnectError_fresh busy_def [of "ws_emit _ _"]
        fresh_client_def [of "ws_emit _ _"])
qed

lemma ws_step_ok:
  assumes "busy w" "fresh_client w" "answers w i"
  shows "\<exists>w'. ws_step resolved rnd i w = Some w' \<and> busy w' \<and> fresh_client w'"
proof (cases i)
  case (WTcpDone net)
  then show ?thesis
    using assms ws_tcp_done_ok by (simp add: ws_step_def)
next
  case (WHandshakeDone r)
  then show ?thesis
    using assms
    by (cases r) (auto simp: ws_step_def ws_onHandshakeFinished_def answers_def
        handleConnectError_fresh busy_def [of "ws_emit _ _"] fresh_client_def [of "ws_emit _ _"])
next
  case (WReadDone r)
  then show ?thesis
    using assms
    by (cases r) (auto simp: ws_step_def ws_onReadFinished_def answers_def
        handleConnectError_fresh busy_def [of "ws_emit _ _"] fresh_client_def [of "ws_emit _ _"]
        busy_def [of w])
next
  case (WSetProxy h p)
  then show ?thesis
    using assms
    by (auto simp: ws_step_def ws_setProxy_def Let_def busy_def fresh_client_def
        dest: setProxy_not_connected split: option.split prod.split)
qed (use assms in \<open>auto simp: ws_step_def answers_def ws_connect_ok ws_reconnect_fresh ws_timer_fires_def
       ws_write_def ws_addHeader_def busy_def [of "ws_emit _ _"] fresh_client_def [of "ws_emit _ _"]
       busy_def [of w] fresh_client_def [of w] busy_def [of "_\<lparr>ws_headers := _\<rparr>"]
       fresh_client_def [of "_\<lparr>ws_headers := _\<rparr>"]\<close>)

text \<open>C17. The session never gets stuck: once it was asked to connect, and as long as it is not shut
  down, the login is not refused and no operation ends silently, there is always an operation in
  progress or a timer running, whatever the network answers, and no step ends the program.\<close>

theorem websocket_keeps_trying:
  assumes "trying w"
  shows "(ws_op w \<noteq> WNone \<or> ws_timer w \<noteq> None) \<and>
    (answers w i \<longrightarrow> (\<exists>w'. ws_step resolved rnd i w = Some w'))"
proof -
  have "busy w \<and> fresh_client w"
    using assms
  proof induction
    case (Start resolved rnd t w)
    show ?case
      by (rule ws_connect_ok)
  next
    case (Step w i resolved rnd w')
    then show ?case
      using ws_step_ok [of w i resolved rnd] by fastforce
  qed
  then show ?thesis
    using ws_step_ok [of w i resolved rnd] by (auto simp: busy_def)
qed

definition good_net :: network_run where
  "good_net = \<lparr>has_address = True, connect_error = None, proxy_write_error = None,
     proxy_read_error = None, tls_error = None\<rparr>"

theorem websocket_keeps_trying_witness:
  "busy (ws_connect True 0 ''/sub'' new_websocket)"
  unfolding busy_def
  using websocket_keeps_trying [OF trying.Start [of True 0 "''/sub''" new_websocket]] by blast

section \<open>One thing at a time\<close>

text \<open>Requests to connect that come only when nothing is under way, and no operation that is
  aborted under the session.\<close>

definition orderly :: "websocket \<Rightarrow> ws_input \<Rightarrow> bool" where
  "orderly w i \<longleftrightarrow>
     (case i of
        WConnect t \<Rightarrow> \<not> busy w \<and> \<not> ws_connected w
      | WReconnect now \<Rightarrow> ws_connected w \<or> ws_op w = WNone
      | WReadDone r \<Rightarrow> r \<noteq> ReadError operation_aborted
      | _ \<Rightarrow> True)"

inductive orderly_run :: "websocket \<Rightarrow> bool" where
  New: "orderly_run new_websocket"
| Next: "orderly_run w \<Longrightarrow> orderly w i \<Longrightarrow> ws_step resolved rnd i w = Some w' \<Longrightarrow> orderly_run w'"

definition consistent :: "websocket \<Rightarrow> bool" where
  "consistent w \<longleftrightarrow>
     (ws_connected w \<longleftrightarrow> ws_op w = WRead) \<and> (ws_timer w \<noteq> None \<longrightarrow> ws_op w = WNone) \<and>
     (ws_op w = WTcp \<or> ws_op w = WHandshake \<longrightarrow> ws_connecting w) \<and>
     (ws_connected w \<longrightarrow> \<not> ws_connecting w)"

lemma reconnect_consistent:
  "consistent w \<Longrightarrow> ws_connected w \<or> ws_op w = WNone \<Longrightarrow> consistent (ws_reconnect now rnd w)"
  by (auto simp: consistent_def ws_reconnect_def ws_shutdown_def Let_def)

lemma consistent_emit [simp]: "consistent (ws_emit e w) = consistent w"
  by (simp add: consistent_def)

lemma handleConnectError_consistent:
  "ws_op w = WNone \<Longrightarrow> ws_timer w = None \<Longrightarrow> consistent (ws_handleConnectError b e rnd w)"
  if "\<not> ws_connected w \<or> b"
  using that by (auto simp: consistent_def ws_handleConnectError_def ws_reconnect_def ws_shutdown_def Let_def
      ws_emit_def)

lemma connect_consistent:
  "ws_timer w = None \<Longrightarrow> \<not> ws_connected w \<Longrightarrow> consistent (ws_connect resolved rnd t w)"
  by (simp add: ws_connect_def Let_def ws_onTcpClientConnectFailed_def ws_initSockets_def
      handleConnectError_consistent) (simp add: consistent_def)

lemma consistent_frame:
  "ws_connected w' = ws_connected w \<Longrightarrow> ws_op w' = ws_op w \<Longrightarrow> ws_timer w' = ws_timer w \<Longrightarrow>
   ws_connecting w' = ws_connecting w \<Longrightarrow> consistent w' = consistent w"
  by (simp add: consistent_def)

lemma quiet_consistent:
  "consistent w \<Longrightarrow> consistent (ws_shutdown w)"
  "consistent w \<Longrightarrow> consistent (ws_write m w)"
  "consistent w \<Longrightarrow> consistent (ws_addHeader n v w)"
  by (auto simp: consistent_def ws_shutdown_def ws_write_def ws_addHeader_def)

lemma tcp_done_consistent:
  assumes "consistent w" "ws_op w = WTcp" "ws_tcp_done net rnd w = Some w'"
  shows "consistent w'"
proof (cases "ws_client w")
  case (Some c)
  have w: "ws_timer w = None" "\<not> ws_connected w" "ws_connecting w"
    using assms(1,2) by (auto simp: consistent_def)
  obtain r c' where r: "tcp_connect net c = (r, c')"
    by fastforce
  show ?thesis
    using assms(3) Some w r
    by (cases r) (auto simp: ws_tcp_done_def ws_onTcpClientConnected_def
        ws_onTcpClientConnectFailed_def handleConnectError_consistent consistent_def [of "_\<lparr>ws_op := _\<rparr>"])
qed (use assms in \<open>simp add: ws_tcp_done_def\<close>)

lemma orderly_step:
  assumes c: "consistent w" and "orderly w i" "ws_step resolved rnd i w = Some w'"
  shows "consistent w'"
proof (cases i)
  case WTimer
  show ?thesis
  proof (cases "ws_timer w = None")
    case False
    then have "\<not> ws_connected w"
      using c by (simp add: consistent_def)
    then show ?thesis
      using assms(3) WTimer False
      by (auto simp: ws_step_def ws_timer_fires_def ws_initSockets_def intro!: connect_consistent)
  qed (use assms WTimer in \<open>simp add: ws_step_def\<close>)
next
  case (WHandshakeDone r)
  show ?thesis
  proof (cases "ws_op w = WHandshake")
    case True
    then have w: "ws_timer w = None" "\<not> ws_connected w"
      using c by (auto simp: consistent_def)
    have "consistent (ws_onHandshakeFinished rnd r w)"
      using w by (cases r) (simp_all add: ws_onHandshakeFinished_def handleConnectError_consistent,
          simp add: consistent_def)
    then show ?thesis
      using assms(3) WHandshakeDone True by (auto simp: ws_step_def)
  qed (use assms WHandshakeDone in \<open>simp add: ws_step_def\<close>)
next
  case (WReadDone r)
  show ?thesis
  proof (cases "ws_op w = WRead")
    case True
    then have w: "ws_timer w = None"
      using c by (auto simp: consistent_def)
    have "consistent (ws_onReadFinished rnd r w)"
      using w c assms(2) WReadDone
      by (cases r) (auto simp: ws_onReadFinished_def orderly_def handleConnectError_consistent)
    then show ?thesis
      using assms(3) WReadDone True by (auto simp: ws_step_def)
  qed (use assms WReadDone in \<open>simp add: ws_step_def\<close>)
next
  case (WSetProxy h p)
  then show ?thesis
    using assms by (auto simp: ws_step_def ws_setProxy_def Let_def consistent_def
        split: option.splits prod.splits)
next
  case (WTcpDone net)
  then show ?thesis
    using assms tcp_done_consistent [OF c] by (auto simp: ws_step_def split: if_splits)
qed (use assms in \<open>auto simp: ws_step_def orderly_def busy_def reconnect_consistent connect_consistent
       quiet_consistent\<close>)

text \<open>When requests to connect come only while nothing is under way, and no read is aborted
  under it, the session does one thing at a time: an operation and the timer never wait together,
  and it counts itself as connected exactly while it reads messages.\<close>

theorem orderly_session_does_one_thing:
  assumes "orderly_run w"
  shows "(ws_connected w \<longleftrightarrow> ws_op w = WRead) \<and> \<not> (ws_timer w \<noteq> None \<and> ws_op w \<noteq> WNone) \<and>
    (ws_connected w \<longrightarrow> \<not> ws_connecting w)"
proof -
  have "consistent w"
    using assms
  proof induction
    case New
    show ?case
      by (simp add: consistent_def new_websocket_def)
  qed (rule orderly_step)
  then show ?thesis
    by (auto simp: consistent_def)
qed

theorem orderly_session_does_one_thing_witness:
  "ws_connected (ws_connect True 0 ''/sub'' new_websocket) \<longleftrightarrow>
     ws_op (ws_connect True 0 ''/sub'' new_websocket) = WRead"
proof -
  have "orderly new_websocket (WConnect ''/sub'')"
    by (simp add: orderly_def busy_def new_websocket_def)
  then have "orderly_run (ws_connect True 0 ''/sub'' new_websocket)"
    by (rule orderly_run.Next [OF orderly_run.New _, of _ True 0]) (simp add: ws_step_def)
  from orderly_session_does_one_thing [OF this] show ?thesis
    by blast
qed

text \<open>
  A retry that is asked for during an attempt is not orderly: its timer tears the connection down
  that the attempt has meanwhile made, and the session still counts itself as connected.
\<close>

lemma retry_tears_down_the_connection:
  "map_option (\<lambda>w. (ws_connected w, ws_op w))
     (ws_run [(True, 0, WConnect ''/sub''), (True, 0, WReconnect True), (True, 0, WTcpDone good_net),
              (True, 0, WHandshakeDone Upgraded), (True, 0, WTimer)] new_websocket) =
   Some (True, WTcp)"
  by code_simp

text \<open>A shutdown while the session waits to reconnect does nothing, and the timer connects again.\<close>

lemma shutdown_leaves_the_timer:
  "\<not> ws_connected w \<Longrightarrow> ws_timer w = Some d \<Longrightarrow>
     ws_run [(True, 0, WShutdown), (True, 0, WTimer)] w =
       Some (ws_connect True 0 (ws_target w) (ws_initSockets (w\<lparr>ws_timer := None\<rparr>)))"
  by (simp add: ws_step_def ws_shutdown_def ws_timer_fires_def)

section \<open>A change of the proxy\<close>

text \<open>An input that does not ask for a connection.\<close>

definition no_request :: "ws_input \<Rightarrow> bool" where
  "no_request i \<longleftrightarrow> (case i of WConnect t \<Rightarrow> False | WReconnect now \<Rightarrow> False | _ \<Rightarrow> True)"

definition silent :: "websocket \<Rightarrow> bool" where
  "silent w \<longleftrightarrow> ws_op w = WNone \<and> ws_timer w = None"

lemma silent_step:
  assumes "silent w" "no_request i" "ws_step resolved rnd i w = Some w'"
  shows "silent w' \<and> filter (\<lambda>e. \<forall>m. e \<noteq> WsWrite m) (ws_out w') =
                     filter (\<lambda>e. \<forall>m. e \<noteq> WsWrite m) (ws_out w)"
  using assms
  by (cases i) (auto simp: ws_step_def no_request_def silent_def ws_shutdown_def ws_write_def
      ws_emit_def ws_setProxy_def ws_addHeader_def Let_def split: option.splits prod.splits)

lemma silent_run:
  "silent w \<Longrightarrow> \<forall>x\<in>set is. no_request (snd (snd x)) \<Longrightarrow> ws_run is w = Some w' \<Longrightarrow>
     silent w' \<and> filter (\<lambda>e. \<forall>m. e \<noteq> WsWrite m) (ws_out w') =
                 filter (\<lambda>e. \<forall>m. e \<noteq> WsWrite m) (ws_out w)"
proof (induction "is" arbitrary: w)
  case (Cons x "is")
  obtain resolved rnd i where x: "x = (resolved, rnd, i)"
    by (metis prod.exhaust)
  then obtain w1 where w1: "ws_step resolved rnd i w = Some w1" "ws_run is w1 = Some w'"
    using Cons.prems(3) by (auto split: option.splits)
  show ?case
    using silent_step [OF Cons.prems(1) _ w1(1)] Cons.IH [OF _ _ w1(2)] Cons.prems(2) x by simp
qed simp

text \<open>The proxy client closes its socket when it gets another proxy.\<close>

lemma proxy_change_closes:
  "ws_client w = Some c \<Longrightarrow> fst (ws_setProxy host port w) \<Longrightarrow>
     \<exists>c'. ws_client (snd (ws_setProxy host port w)) = Some c' \<and> \<not> pc_open c'"
  by (auto simp: ws_setProxy_def pc_setProxy_def Let_def split: prod.splits if_splits)

text \<open>When the proxy changes under a connected session, the proxy client closes the socket, the
  read in progress ends as aborted, and the session stays silent for ever: it keeps counting itself
  as connected, and until it is told to connect it neither reconnects nor raises any signal,
  whatever happens, so that the service misses every later snapshot.\<close>

theorem proxy_change_silences_the_session:
  assumes "ws_connected w" "ws_op w = WRead" "ws_timer w = None" "ws_client w = Some c"
    and "fst (ws_setProxy host port w)" "\<forall>x\<in>set is. no_request (snd (snd x))"
    and "ws_run ((r1, n1, WSetProxy host port) # (r2, n2, WReadDone (ReadError operation_aborted)) # is) w =
           Some w'"
  shows "(\<exists>c'. ws_client (snd (ws_setProxy host port w)) = Some c' \<and> \<not> pc_open c') \<and>
    ws_op w' = WNone \<and> ws_timer w' = None \<and>
    filter (\<lambda>e. \<forall>m. e \<noteq> WsWrite m) (ws_out w') = filter (\<lambda>e. \<forall>m. e \<noteq> WsWrite m) (ws_out w)"
proof -
  let ?w = "snd (ws_setProxy host port w)"
  have w: "ws_op ?w = WRead" "ws_timer ?w = None" "ws_out ?w = ws_out w"
    using assms(2-4) by (auto simp: ws_setProxy_def Let_def split: prod.split)
  have "ws_run is (?w\<lparr>ws_op := WNone\<rparr>) = Some w'"
    using assms(7) w by (simp add: ws_step_def ws_onReadFinished_def)
  moreover have "silent (?w\<lparr>ws_op := WNone\<rparr>)"
    using w by (simp add: silent_def)
  ultimately have "silent w' \<and> filter (\<lambda>e. \<forall>m. e \<noteq> WsWrite m) (ws_out w') =
      filter (\<lambda>e. \<forall>m. e \<noteq> WsWrite m) (ws_out w)"
    using silent_run [OF _ assms(6)] w(3) by simp
  then show ?thesis
    using proxy_change_closes [OF assms(4,5)] by (simp add: silent_def)
qed

definition live_session :: websocket where
  "live_session =
     new_websocket\<lparr>ws_connected := True, ws_op := WRead,
       ws_client := Some \<lparr>proxy_host = '''', proxy_port = 80, pc_open = True, pc_connected = True\<rparr>\<rparr>"

definition after_proxy_change :: websocket where
  "after_proxy_change =
     the (ws_run [(True, 0, WSetProxy ''proxy'' 8080), (True, 0, WReadDone (ReadError operation_aborted)),
                  (True, 0, WWrite ''x''), (True, 0, WTimer)] live_session)"

theorem proxy_change_silences_the_session_witness:
  "ws_connected live_session \<and> ws_op after_proxy_change = WNone \<and> ws_timer after_proxy_change = None"
proof -
  have r: "ws_run [(True, 0, WSetProxy ''proxy'' 8080),
      (True, 0, WReadDone (ReadError operation_aborted)), (True, 0, WWrite ''x''), (True, 0, WTimer)]
      live_session = Some after_proxy_change"
    by (simp add: after_proxy_change_def ws_step_def ws_setProxy_def live_session_def new_websocket_def
        pc_setProxy_def ws_onReadFinished_def ws_write_def)
  have "fst (ws_setProxy ''proxy'' 8080 live_session)"
    by (simp add: ws_setProxy_def live_session_def new_websocket_def pc_setProxy_def)
  from proxy_change_silences_the_session [OF _ _ _ _ this _ r] show ?thesis
    by (simp add: live_session_def new_websocket_def no_request_def)
qed

section \<open>The login\<close>

definition carries_login :: "user_config \<Rightarrow> ws_event \<Rightarrow> bool" where
  "carries_login c e \<longleftrightarrow>
     (\<forall>t h. e = WsHandshake t h \<longrightarrow>
        t = kSubTarget \<and> h ''X-Auth-Token'' = Some (userToken c) \<and>
        h ''X-Channel-Id'' = Some (dec (profileId c)))"

definition login_set :: "user_config \<Rightarrow> websocket \<Rightarrow> bool" where
  "login_set c w \<longleftrightarrow>
     ws_target w = kSubTarget \<and> ws_headers w ''X-Auth-Token'' = Some (userToken c) \<and>
     ws_headers w ''X-Channel-Id'' = Some (dec (profileId c))"

text \<open>A step that neither sets headers nor connects somewhere else keeps the login, and what it adds
  to the output carries it.\<close>

definition adds_logins :: "user_config \<Rightarrow> websocket \<Rightarrow> websocket \<Rightarrow> bool" where
  "adds_logins c w w' \<longleftrightarrow>
     ws_target w' = ws_target w \<and> ws_headers w' = ws_headers w \<and>
     (\<exists>es. ws_out w' = ws_out w @ es \<and> (login_set c w \<longrightarrow> (\<forall>e\<in>set es. carries_login c e)))"

lemma adds_logins_refl: "adds_logins c w w"
  by (simp add: adds_logins_def)

lemma adds_logins_trans:
  "adds_logins c u v \<Longrightarrow> adds_logins c v w \<Longrightarrow> adds_logins c u w"
  by (auto simp: adds_logins_def login_set_def)

lemma adds_logins_frame:
  "ws_target w' = ws_target w \<Longrightarrow> ws_headers w' = ws_headers w \<Longrightarrow> ws_out w' = ws_out w \<Longrightarrow>
     adds_logins c w w'"
  by (simp add: adds_logins_def)

lemma adds_logins_emit: "(login_set c w \<Longrightarrow> carries_login c e) \<Longrightarrow> adds_logins c w (ws_emit e w)"
  by (simp add: adds_logins_def ws_emit_def)

lemma shutdown_adds: "adds_logins c w (ws_shutdown w)"
  by (simp add: adds_logins_def ws_shutdown_def)

lemma reconnect_adds: "adds_logins c w (ws_reconnect now rnd w)"
  by (rule adds_logins_trans [OF shutdown_adds]) (simp add: adds_logins_def ws_reconnect_def Let_def)

lemma carries_other: "carries_login c (WsError x)" "carries_login c WsConnected"
  "carries_login c (WsMessage m)" "carries_login c (WsWrite m)"
  by (simp_all add: carries_login_def)

lemma handleConnectError_adds: "adds_logins c w (ws_handleConnectError b e rnd w)"
proof -
  have "adds_logins c w (ws_emit (WsError e) (w\<lparr>ws_connecting := False\<rparr>))"
    by (simp add: adds_logins_def ws_emit_def carries_other)
  then show ?thesis
    by (auto simp: ws_handleConnectError_def Let_def intro: adds_logins_trans reconnect_adds)
qed

lemma connectFailed_adds: "adds_logins c w (ws_onTcpClientConnectFailed rnd w)"
proof -
  have "adds_logins c w (w\<lparr>ws_client := None, ws_op := WNone\<rparr>)"
    by (simp add: adds_logins_def)
  then show ?thesis
    by (auto simp: ws_onTcpClientConnectFailed_def adds_logins_refl
        intro: adds_logins_trans handleConnectError_adds)
qed

lemma connect_adds: "t = ws_target w \<Longrightarrow> adds_logins c w (ws_connect resolved rnd t w)"
proof -
  assume t: "t = ws_target w"
  let ?w = "(ws_initSockets w)\<lparr>ws_connecting := True, ws_target := t\<rparr>"
  have "adds_logins c w ?w" "adds_logins c w (?w\<lparr>ws_op := WTcp\<rparr>)"
    using t by (simp_all add: adds_logins_def ws_initSockets_def)
  then show ?thesis
    by (auto simp: ws_connect_def Let_def intro: adds_logins_trans connectFailed_adds)
qed

lemma tcp_done_adds:
  assumes "ws_tcp_done net rnd w = Some w'"
  shows "adds_logins c w w'"
proof -
  have base: "adds_logins c w (w\<lparr>ws_client := d\<rparr>)" "adds_logins c w (w\<lparr>ws_client := d, ws_op := p\<rparr>)"
      for d p
    by (simp_all add: adds_logins_def)
  have conn: "adds_logins c v (ws_onTcpClientConnected v)" for v
    by (simp add: ws_onTcpClientConnected_def adds_logins_def ws_emit_def login_set_def
        carries_login_def)
  note steps = adds_logins_trans [OF base(1) conn] adds_logins_trans [OF base(1) connectFailed_adds]
  show ?thesis
    using assms
    by (auto simp: ws_tcp_done_def adds_logins_refl base(2) steps
        split: option.splits prod.splits tcp_signal.splits)
qed

lemma op_adds: "adds_logins c w (w\<lparr>ws_op := p\<rparr>)"
  by (simp add: adds_logins_def)

lemma upgraded_adds:
  "adds_logins c w
     (ws_emit WsConnected (w\<lparr>ws_connecting := False, ws_connected := True, ws_op := WRead\<rparr>))"
  by (simp add: adds_logins_def ws_emit_def carries_other)

lemma keeps_login_step:
  assumes "ws_step resolved rnd i w = Some w'" "\<And>n v. i \<noteq> WAddHeader n v" "\<And>t. i \<noteq> WConnect t"
  shows "adds_logins c w w'"
proof (cases i)
  case WTimer
  have "adds_logins c w (ws_initSockets (w\<lparr>ws_timer := None\<rparr>))"
    by (simp add: adds_logins_def ws_initSockets_def)
  then have "adds_logins c w (ws_timer_fires resolved rnd w)"
    unfolding ws_timer_fires_def
    by (rule adds_logins_trans) (rule connect_adds, simp add: ws_initSockets_def)
  then show ?thesis
    using assms(1) WTimer by (auto simp: ws_step_def adds_logins_refl)
next
  case (WHandshakeDone r)
  have "adds_logins c w (ws_onHandshakeFinished rnd r w)"
    by (cases r) (auto simp: ws_onHandshakeFinished_def upgraded_adds
        intro: adds_logins_trans [OF op_adds handleConnectError_adds])
  then show ?thesis
    using assms(1) WHandshakeDone by (auto simp: ws_step_def adds_logins_refl)
next
  case (WReadDone r)
  have "adds_logins c w (ws_onReadFinished rnd r w)"
    by (cases r) (auto simp: ws_onReadFinished_def carries_other op_adds adds_logins_emit
        intro: adds_logins_trans [OF op_adds handleConnectError_adds])
  then show ?thesis
    using assms(1) WReadDone by (auto simp: ws_step_def adds_logins_refl)
next
  case (WSetProxy h p)
  then show ?thesis
    using assms(1)
    by (auto simp: ws_step_def ws_setProxy_def Let_def adds_logins_def split: option.splits prod.splits)
qed (use assms in \<open>auto simp: ws_step_def reconnect_adds shutdown_adds tcp_done_adds adds_logins_refl
       ws_write_def adds_logins_emit carries_other split: if_splits\<close>)

text \<open>An input that neither sets a header nor connects to a target of its own.\<close>

definition keeps_login :: "ws_input \<Rightarrow> bool" where
  "keeps_login i \<longleftrightarrow> (case i of WConnect t \<Rightarrow> False | WAddHeader n v \<Rightarrow> False | _ \<Rightarrow> True)"

lemma keeps_login_run:
  "\<forall>x\<in>set is. keeps_login (snd (snd x)) \<Longrightarrow> ws_run is w = Some w' \<Longrightarrow> adds_logins c w w'"
proof (induction "is" arbitrary: w)
  case (Cons x "is")
  obtain resolved rnd i where x: "x = (resolved, rnd, i)"
    by (metis prod.exhaust)
  then obtain w1 where w1: "ws_step resolved rnd i w = Some w1" "ws_run is w1 = Some w'"
    using Cons.prems(2) by (auto split: option.splits)
  have "adds_logins c w w1"
    using Cons.prems(1) x by (intro keeps_login_step [OF w1(1)]) (auto simp: keeps_login_def)
  then show ?case
    using Cons.IH [OF _ w1(2)] Cons.prems(1) by (auto intro: adds_logins_trans)
qed (simp add: adds_logins_refl)

lemma login_headers_props:
  "ws_headers (login_headers v c w) ''X-Auth-Token'' = Some (userToken c)"
  "ws_headers (login_headers v c w) ''X-Channel-Id'' = Some (dec (profileId c))"
  "ws_target (login_headers v c w) = ws_target w" "ws_out (login_headers v c w) = ws_out w"
  "ws_connected (login_headers v c w) = ws_connected w"
  by (simp_all add: login_headers_def ws_addHeader_def Let_def)

lemma setProxy_keeps [simp]:
  "ws_connected (snd (ws_setProxy h p w)) = ws_connected w"
  "ws_target (snd (ws_setProxy h p w)) = ws_target w" "ws_out (snd (ws_setProxy h p w)) = ws_out w"
  by (auto simp: ws_setProxy_def Let_def split: option.split prod.split)

lemma link_setProxy_keeps:
  assumes "link_setProxy f protocol config l = Some (b, l1)"
  shows "ws_connected (l_ws l1) = ws_connected (l_ws l)" "ws_target (l_ws l1) = ws_target (l_ws l)"
    "ws_out (l_ws l1) = ws_out (l_ws l)" "l_lastProfileId l1 = l_lastProfileId l"
    "l_lastUserToken l1 = l_lastUserToken l"
  using assms by (auto simp: link_setProxy_def split: if_splits)

text \<open>The session as it starts anew with the login.\<close>

lemma start_with_login:
  assumes "ws_connected w \<longrightarrow> ws_target w = kSubTarget"
    and "w' = (if \<not> ws_connected w then ws_connect resolved rnd kSubTarget (login_headers v c w)
               else ws_reconnect False rnd (login_headers v c w))"
  shows "login_set c w' \<and> (\<exists>es. ws_out w' = ws_out w @ es \<and> (\<forall>e\<in>set es. carries_login c e))"
proof -
  let ?h = "(login_headers v c w)\<lparr>ws_target := kSubTarget\<rparr>"
  have h: "login_set c ?h" "ws_out ?h = ws_out w"
    by (simp_all add: login_set_def login_headers_props)
  have "ws_connect resolved rnd kSubTarget (login_headers v c w) =
      ws_connect resolved rnd kSubTarget ?h"
    by (simp add: ws_connect_def ws_initSockets_def Let_def)
  moreover have "ws_connected w \<Longrightarrow> login_headers v c w = ?h"
    using assms(1) by (simp add: login_headers_def ws_addHeader_def Let_def)
  ultimately have "adds_logins c ?h w'"
    using assms(2) connect_adds [of kSubTarget ?h] by (auto simp: reconnect_adds)
  then show ?thesis
    using h by (auto simp: adds_logins_def login_set_def)
qed

text \<open>C22. After settings with a new login were loaded, every handshake of the session, also after any
  failures and reconnections, goes to the channel of the profile and carries the new token and
  the new channel, never those of an earlier login.\<close>

theorem handshake_carries_the_login:
  assumes "cloud_load to_port version resolved rnd c l = Some l'"
    and "profileId c \<noteq> -1"
    and "profileId c \<noteq> sint (l_lastProfileId l) \<or> userToken c \<noteq> l_lastUserToken l"
    and "ws_connected (l_ws l) \<longrightarrow> ws_target (l_ws l) = kSubTarget"
    and "\<forall>x\<in>set is. keeps_login (snd (snd x))" "ws_run is (l_ws l') = Some w"
  shows "\<exists>es. ws_out w = ws_out (l_ws l) @ es \<and> (\<forall>e\<in>set es. carries_login c e)"
proof -
  obtain b l1 where l1: "link_setProxy to_port ''http'' (httpProxy c) l = Some (b, l1)"
    using assms(1) by (auto simp: cloud_load_def)
  note k = link_setProxy_keeps [OF l1]
  have "l_ws l' = (if \<not> ws_connected (l_ws l1)
      then ws_connect resolved rnd kSubTarget (login_headers version c (l_ws l1))
      else ws_reconnect False rnd (login_headers version c (l_ws l1)))"
    using assms(1-3) k(4,5) by (auto simp: cloud_load_def l1 Let_def login_headers_props)
  then have s: "login_set c (l_ws l')"
    and "\<exists>es. ws_out (l_ws l') = ws_out (l_ws l1) @ es \<and> (\<forall>e\<in>set es. carries_login c e)"
    using start_with_login [of "l_ws l1" "l_ws l'" resolved rnd version c] assms(4) k(1,2) by auto
  then obtain es where es: "ws_out (l_ws l') = ws_out (l_ws l) @ es" "\<forall>e\<in>set es. carries_login c e"
    using k(3) by auto
  obtain es' where "ws_out w = ws_out (l_ws l') @ es'" "\<forall>e\<in>set es'. carries_login c e"
    using keeps_login_run [OF assms(5,6), of c] s by (auto simp: adds_logins_def)
  then show ?thesis
    using es by (intro exI [of _ "es @ es'"]) auto
qed

definition some_login :: user_config where
  "some_login = new_user_config\<lparr>userToken := ''t'', profileId := 3\<rparr>"

definition first_connection :: "(bool \<times> nat \<times> ws_input) list" where
  "first_connection = [(True, 0, WTcpDone good_net), (True, 0, WHandshakeDone Upgraded)]"

theorem handshake_carries_the_login_witness:
  "\<exists>l' w. cloud_load (\<lambda>_. None) ''2.0'' True 0 some_login new_cloud_link = Some l' \<and>
     ws_run first_connection (l_ws l') = Some w \<and> length (ws_out w) = 2 \<and>
     carries_login some_login (hd (ws_out w))"
proof -
  have "(case cloud_load (\<lambda>_. None) ''2.0'' True 0 some_login new_cloud_link of
           None \<Rightarrow> None
         | Some l' \<Rightarrow> map_option (\<lambda>w. length (ws_out w)) (ws_run first_connection (l_ws l'))) = Some 2"
    by code_simp
  then obtain l' w where w: "cloud_load (\<lambda>_. None) ''2.0'' True 0 some_login new_cloud_link = Some l'"
      "ws_run first_connection (l_ws l') = Some w" "length (ws_out w) = 2"
    by (auto split: option.splits)
  have "\<exists>es. ws_out w = ws_out (l_ws new_cloud_link) @ es \<and> (\<forall>e\<in>set es. carries_login some_login e)"
    by (rule handshake_carries_the_login [OF w(1) _ _ _ _ w(2)])
      (simp_all add: some_login_def new_cloud_link_def new_websocket_def first_connection_def
        keeps_login_def)
  then have "\<forall>e\<in>set (ws_out w). carries_login some_login e"
    by (simp add: new_cloud_link_def new_websocket_def)
  then have "carries_login some_login (hd (ws_out w))"
    using w(3) by (cases "ws_out w") auto
  then show ?thesis
    using w by blast
qed

text \<open>
  A header that was set once is never taken back: after settings that switched the version check
  off, the header that says so is sent although later settings switch it on again.
\<close>

lemma version_header_stays:
  "ws_headers w ''X-Version-Check'' = Some v \<Longrightarrow> versionCheck c \<Longrightarrow>
     ws_headers (login_headers version c w) ''X-Version-Check'' = Some v"
  by (simp add: login_headers_def ws_addHeader_def Let_def)

end
