(* ===== verification/Monitors.thy ===== *)
theory Monitors
  imports Profile
begin

text \<open>
  The small monitors of the service: which screens the router reaches
  (\<open>service/RouterErrorMonitor.cpp\<close>), whether the tray program is alive
  (\<open>service/TrayService.cpp\<close>), and the addresses of this computer (\<open>service/IPMonitor.cpp\<close>). A
  timer is a flag, and its expiry an input. What the first one promises: once the timer of a
  screen that is online has run out, the last report about the screen is true.
\<close>

section \<open>Reachable screens\<close>

record screen_monitor =
  sm_id :: int
  sm_reachable :: bool
  sm_running :: bool

datatype reach_signal = ScreenReachable (signal_id: int) | ScreenUnreachable (signal_id: int)

record reach =
  sm_list :: "screen_monitor list"
  reach_out :: "reach_signal list"

definition init_reach :: reach where
  "init_reach = \<lparr>sm_list = [], reach_out = []\<rparr>"

definition sm_lookup :: "int \<Rightarrow> reach \<Rightarrow> screen_monitor option" where
  "sm_lookup i r = find (\<lambda>m. sm_id m = i) (sm_list r)"

definition sm_change :: "int \<Rightarrow> (screen_monitor \<Rightarrow> screen_monitor) \<Rightarrow> reach \<Rightarrow> reach" where
  "sm_change i f r = r\<lparr>sm_list := update_first (\<lambda>m. sm_id m = i) f (sm_list r)\<rparr>"

definition sm_add :: "int \<Rightarrow> reach \<Rightarrow> reach" where
  "sm_add i r =
     r\<lparr>sm_list := sm_list r @ [\<lparr>sm_id = i, sm_reachable = False, sm_running = False\<rparr>]\<rparr>"

definition sm_start_timer :: "int \<Rightarrow> reach \<Rightarrow> reach" where
  "sm_start_timer i = sm_change i (\<lambda>m. m\<lparr>sm_running := True\<rparr>)"

definition sm_set_reachable :: "int \<Rightarrow> bool \<Rightarrow> reach \<Rightarrow> reach" where
  "sm_set_reachable i b = sm_change i (\<lambda>m. m\<lparr>sm_reachable := b\<rparr>)"

definition sm_notify :: "int \<Rightarrow> reach \<Rightarrow> reach" where
  "sm_notify i r =
     (case sm_lookup i r of
        None \<Rightarrow> r
      | Some m \<Rightarrow>
          r\<lparr>reach_out := reach_out r @
              [if sm_reachable m then ScreenReachable i else ScreenUnreachable i]\<rparr>)"

text \<open>The slots. Stopping a timer that runs lets its handler, which is aborted, clear the flag.\<close>

definition on_screen_online :: "int \<Rightarrow> reach \<Rightarrow> reach" where
  "on_screen_online i r =
     (case sm_lookup i r of
        None \<Rightarrow> sm_start_timer i (sm_add i r)
      | Some m \<Rightarrow> if \<not> sm_running m then sm_start_timer i r else r)"

text \<open>Going offline cancels the timer; a timer that has run out by then, but whose handler has not yet
  run, is taken to be cancelled too.\<close>

definition on_screen_offline :: "int \<Rightarrow> reach \<Rightarrow> reach" where
  "on_screen_offline i r =
     (case sm_lookup i r of
        None \<Rightarrow> r
      | Some m \<Rightarrow> if \<not> sm_running m then r else sm_change i (\<lambda>m. m\<lparr>sm_running := False\<rparr>) r)"

definition on_node_up :: "int \<Rightarrow> reach \<Rightarrow> reach" where
  "on_node_up i r =
     (case sm_lookup i r of
        None \<Rightarrow> sm_set_reachable i True (sm_add i r)
      | Some m \<Rightarrow>
          (let r1 = sm_set_reachable i True r in if \<not> sm_running m then sm_notify i r1 else r1))"

definition on_node_down :: "int \<Rightarrow> reach \<Rightarrow> reach" where
  "on_node_down i r =
     (case sm_lookup i r of
        None \<Rightarrow> r
      | Some m \<Rightarrow>
          (let r1 = sm_set_reachable i False r in if \<not> sm_running m then sm_start_timer i r1 else r1))"

definition on_reach_timer :: "int \<Rightarrow> reach \<Rightarrow> reach" where
  "on_reach_timer i r = sm_notify i (sm_change i (\<lambda>m. m\<lparr>sm_running := False\<rparr>) r)"

datatype reach_input =
    ScreenUp int
  | ScreenDown int
  | NodeUp int
  | NodeDown int
  | ReachTimer int

definition reach_step :: "reach_input \<Rightarrow> reach \<Rightarrow> reach" where
  "reach_step x r =
     (case x of
        ScreenUp i \<Rightarrow> on_screen_online i r
      | ScreenDown i \<Rightarrow> on_screen_offline i r
      | NodeUp i \<Rightarrow> on_node_up i r
      | NodeDown i \<Rightarrow> on_node_down i r
      | ReachTimer i \<Rightarrow>
          (case sm_lookup i r of
             None \<Rightarrow> r
           | Some m \<Rightarrow> if sm_running m then on_reach_timer i r else r))"

definition reach_run :: "reach_input list \<Rightarrow> reach" where
  "reach_run xs = fold reach_step xs init_reach"

subsection \<open>The last report is true\<close>

text \<open>What happened, without the monitor: is the screen online, and does the router reach it?\<close>

definition is_online :: "reach_input list \<Rightarrow> int \<Rightarrow> bool" where
  "is_online xs i \<longleftrightarrow> fold (\<lambda>x b. if x = ScreenUp i then True else if x = ScreenDown i then False else b) xs False"

definition is_up :: "reach_input list \<Rightarrow> int \<Rightarrow> bool" where
  "is_up xs i \<longleftrightarrow> fold (\<lambda>x b. if x = NodeUp i then True else if x = NodeDown i then False else b) xs False"

definition last_report :: "int \<Rightarrow> reach \<Rightarrow> reach_signal option" where
  "last_report i r = find (\<lambda>s. signal_id s = i) (rev (reach_out r))"

lemma happened_simps [simp]:
  "is_online [] i = False" "is_up [] i = False"
  "is_online (xs @ [x]) i =
     (if x = ScreenUp i then True else if x = ScreenDown i then False else is_online xs i)"
  "is_up (xs @ [x]) i =
     (if x = NodeUp i then True else if x = NodeDown i then False else is_up xs i)"
  by (simp_all add: is_online_def is_up_def)

lemma sm_lookup_change:
  assumes "\<And>m. sm_id (f m) = sm_id m"
  shows "sm_lookup i (sm_change j f r) = (if i = j then map_option f (sm_lookup i r) else sm_lookup i r)"
proof -
  have "find (\<lambda>m. sm_id m = i) (update_first (\<lambda>m. sm_id m = j) f ms) =
      (if i = j then map_option f (find (\<lambda>m. sm_id m = i) ms) else find (\<lambda>m. sm_id m = i) ms)" for ms
    by (induction ms) (auto simp: assms)
  then show ?thesis
    by (simp add: sm_lookup_def sm_change_def)
qed

lemma sm_lookup_ops [simp]:
  "sm_lookup i (sm_start_timer j r) =
     (if i = j then map_option (\<lambda>m. m\<lparr>sm_running := True\<rparr>) (sm_lookup i r) else sm_lookup i r)"
  "sm_lookup i (sm_set_reachable j b r) =
     (if i = j then map_option (\<lambda>m. m\<lparr>sm_reachable := b\<rparr>) (sm_lookup i r) else sm_lookup i r)"
  "sm_lookup i (sm_change j (\<lambda>m. m\<lparr>sm_running := b\<rparr>) r) =
     (if i = j then map_option (\<lambda>m. m\<lparr>sm_running := b\<rparr>) (sm_lookup i r) else sm_lookup i r)"
  "sm_lookup i (sm_notify j r) = sm_lookup i r"
  by (simp_all add: sm_start_timer_def sm_set_reachable_def sm_lookup_change)
    (simp add: sm_notify_def sm_lookup_def split: option.split)

lemma sm_lookup_add [simp]:
  "sm_lookup j r = None \<Longrightarrow>
     sm_lookup i (sm_add j r) =
       (if i = j then Some \<lparr>sm_id = j, sm_reachable = False, sm_running = False\<rparr> else sm_lookup i r)"
proof -
  have "find (\<lambda>m. sm_id m = i) (ms @ [x]) =
      (case find (\<lambda>m. sm_id m = i) ms of None \<Rightarrow> if sm_id x = i then Some x else None | Some m \<Rightarrow> Some m)"
      for ms and x :: screen_monitor
    by (induction ms) auto
  then show "sm_lookup j r = None \<Longrightarrow> sm_lookup i (sm_add j r) =
       (if i = j then Some \<lparr>sm_id = j, sm_reachable = False, sm_running = False\<rparr> else sm_lookup i r)"
    by (auto simp: sm_lookup_def sm_add_def split: option.split)
qed

lemma last_report_ops [simp]:
  "last_report i (sm_start_timer j r) = last_report i r"
  "last_report i (sm_set_reachable j b r) = last_report i r"
  "last_report i (sm_change j f r) = last_report i r"
  "last_report i (sm_add j r) = last_report i r"
  by (simp_all add: last_report_def sm_start_timer_def sm_set_reachable_def sm_change_def sm_add_def)

lemma last_report_notify [simp]:
  "sm_lookup j r = Some m \<Longrightarrow> last_report i (sm_notify j r) =
     (if i = j then Some (if sm_reachable m then ScreenReachable i else ScreenUnreachable i)
      else last_report i r)"
  by (simp add: last_report_def sm_notify_def)

text \<open>The monitor of a screen agrees with what happened.\<close>

definition agrees :: "reach_input list \<Rightarrow> int \<Rightarrow> reach \<Rightarrow> bool" where
  "agrees xs i r \<longleftrightarrow>
     (sm_lookup i r = None \<longrightarrow> \<not> is_online xs i \<and> \<not> is_up xs i) \<and>
     (\<forall>m. sm_lookup i r = Some m \<longrightarrow>
        sm_reachable m = is_up xs i \<and>
        (is_online xs i \<and> \<not> sm_running m \<longrightarrow>
           last_report i r = Some (if is_up xs i then ScreenReachable i else ScreenUnreachable i)))"

lemma agrees_step: "agrees xs i r \<Longrightarrow> agrees (xs @ [x]) i (reach_step x r)"
proof (cases x)
  case (ScreenUp j)
  then show "agrees xs i r \<Longrightarrow> ?thesis"
    by (cases "sm_lookup j r")
      (auto simp: agrees_def reach_step_def on_screen_online_def)
next
  case (ScreenDown j)
  then show "agrees xs i r \<Longrightarrow> ?thesis"
    by (cases "sm_lookup j r")
      (auto simp: agrees_def reach_step_def on_screen_offline_def)
next
  case (NodeUp j)
  then show "agrees xs i r \<Longrightarrow> ?thesis"
    by (cases "sm_lookup j r")
      (auto simp: agrees_def reach_step_def on_node_up_def Let_def)
next
  case (NodeDown j)
  then show "agrees xs i r \<Longrightarrow> ?thesis"
    by (cases "sm_lookup j r")
      (auto simp: agrees_def reach_step_def on_node_down_def Let_def)
next
  case (ReachTimer j)
  then show "agrees xs i r \<Longrightarrow> ?thesis"
    by (cases "sm_lookup j r")
      (auto simp: agrees_def reach_step_def on_reach_timer_def)
qed

text \<open>C35. Whatever order screens go online and offline, the router gains and loses nodes, and timers
  run out in: when no timer runs for a screen that is online, the last report about it says
  exactly whether the router reaches it now.\<close>

theorem settled_screen_is_reported:
  assumes "is_online xs i" "\<And>m. sm_lookup i (reach_run xs) = Some m \<Longrightarrow> \<not> sm_running m"
  shows "last_report i (reach_run xs) =
    Some (if is_up xs i then ScreenReachable i else ScreenUnreachable i)"
proof -
  have "agrees xs i (reach_run xs)" for xs
  proof (induction xs rule: rev_induct)
    case Nil
    show ?case
      by (simp add: agrees_def reach_run_def init_reach_def sm_lookup_def)
  next
    case (snoc x xs)
    then show ?case
      using agrees_step [of xs i "reach_run xs" x] by (simp add: reach_run_def)
  qed
  then show ?thesis
    using assms by (cases "sm_lookup i (reach_run xs)") (auto simp: agrees_def)
qed

theorem settled_screen_is_reported_witness:
  "last_report 7 (reach_run [NodeUp 7, ScreenUp 7, NodeDown 7, ReachTimer 7]) = Some (ScreenUnreachable 7)"
proof -
  let ?xs = "[NodeUp 7, ScreenUp 7, NodeDown 7, ReachTimer 7]"
  have "is_online ?xs 7" "\<not> is_up ?xs 7"
    by (simp_all add: is_online_def is_up_def)
  moreover have "sm_lookup 7 (reach_run ?xs) = Some \<lparr>sm_id = 7, sm_reachable = False, sm_running = False\<rparr>"
    by code_simp
  ultimately show ?thesis
    using settled_screen_is_reported [of ?xs 7] by simp
qed

section \<open>The tray program\<close>

record tray =
  m_trayRunning :: bool
  ping_timer :: bool

definition init_tray :: tray where
  "init_tray = \<lparr>m_trayRunning = False, ping_timer = False\<rparr>"

definition tray_ping :: "tray \<Rightarrow> tray" where
  "tray_ping t = t\<lparr>ping_timer := True\<rparr>"

definition tray_start :: "tray \<Rightarrow> bool \<times> tray" where
  "tray_start t =
     (if m_trayRunning t then (False, t) else (True, tray_ping (t\<lparr>m_trayRunning := True\<rparr>)))"

definition tray_stop :: "tray \<Rightarrow> tray" where
  "tray_stop t = t\<lparr>ping_timer := False, m_trayRunning := False\<rparr>"

definition tray_timeout :: "tray \<Rightarrow> tray" where
  "tray_timeout t = (if ping_timer t then t\<lparr>ping_timer := False, m_trayRunning := False\<rparr> else t)"

section \<open>The addresses of this computer\<close>

text \<open>The coroutine waits, or its wait was cancelled and it has not resumed yet.\<close>

datatype ip_wait = NotWaiting | Waiting | WaitCancelled

record 'a ip_monitor =
  m_running :: bool
  ip_wait :: ip_wait
  m_knownIPAddresses :: "'a set"

definition init_ip_monitor :: "'a ip_monitor" where
  "init_ip_monitor = \<lparr>m_running = False, ip_wait = NotWaiting, m_knownIPAddresses = {}\<rparr>"

definition ip_start :: "'a ip_monitor \<Rightarrow> 'a ip_monitor" where
  "ip_start p = (if m_running p then p else p\<lparr>m_running := True, ip_wait := Waiting\<rparr>)"

definition ip_stop :: "'a ip_monitor \<Rightarrow> 'a ip_monitor" where
  "ip_stop p =
     (if \<not> m_running p then p else p\<lparr>ip_wait := (if ip_wait p = Waiting then WaitCancelled else ip_wait p)\<rparr>)"

text \<open>The coroutine resumes: after its interval with the addresses it finds, or after a
  cancellation. The signal \<open>ipSetChanged\<close> is the second component.\<close>

definition ip_resume :: "'a set \<Rightarrow> 'a ip_monitor \<Rightarrow> 'a ip_monitor \<times> 'a set option" where
  "ip_resume found p =
     (case ip_wait p of
        NotWaiting \<Rightarrow> (p, None)
      | WaitCancelled \<Rightarrow> (p\<lparr>m_running := False, ip_wait := NotWaiting\<rparr>, None)
      | Waiting \<Rightarrow>
          if found \<noteq> m_knownIPAddresses p then (p\<lparr>m_knownIPAddresses := found\<rparr>, Some found)
          else (p, None))"

text \<open>A start between a stop and the end of the coroutine is lost: the monitor then does not run.\<close>

lemma ip_start_is_lost:
  assumes "m_running p" "ip_wait p = Waiting"
  shows "\<not> m_running (fst (ip_resume found (ip_start (ip_stop p))))"
  using assms by (simp add: ip_stop_def ip_start_def ip_resume_def)

end
