(* ===== verification/SnapshotJson.thy ===== *)
theory SnapshotJson
  imports Profile
begin

text \<open>
  Reading a snapshot of the cloud: the typed decoders of \<open>service/json.hpp\<close> over the JSON values
  of the library, and their use on the structures of \<open>common/ProfileSnapshot.h\<close>,
  \<open>ScreenSnapshot.h\<close> and \<open>ProfileConfigSnapshot.h\<close>, whose fields are read in the order in which
  \<open>BOOST_FUSION_ADAPT_STRUCT\<close> lists them. The parser of the library, from text to value, is a
  parameter of the service; an exception is the left side of a sum.

  The contract of a decoder is a relation between values and results that the decoder decides.
  It is the locale \<open>decoder\<close>; fields and arrays inherit it from the decoder they use.
\<close>

section \<open>JSON values\<close>

text \<open>A double is a rational number or one of the special values. An object is a map, as
  \<open>std::map\<close> is one; its order is never looked at.\<close>

datatype double = Finite rat | Infinite bool | NotANumber

datatype jvalue =
    JNull
  | JBool bool
  | JUnsigned u64
  | JSigned u64
  | JDouble double
  | JString string
  | JArray "jvalue list"
  | JObject "string \<Rightarrow> jvalue option"

datatype jtype = TNull | TBool | TUnsigned | TSigned | TDouble | TString | TArray | TObject

fun jtype_of :: "jvalue \<Rightarrow> jtype" where
  "jtype_of JNull = TNull"
| "jtype_of (JBool b) = TBool"
| "jtype_of (JUnsigned w) = TUnsigned"
| "jtype_of (JSigned w) = TSigned"
| "jtype_of (JDouble d) = TDouble"
| "jtype_of (JString s) = TString"
| "jtype_of (JArray vs) = TArray"
| "jtype_of (JObject m) = TObject"

datatype expected = BooleanExpected | StringExpected | ArrayExpected | IntegralExpected

datatype json_error =
    WrongType string expected jtype
  | Rounding string
  | NegativeOverflow
  | PositiveOverflow
  | MissingField string
  | NotAnObject jtype
  | NoJson

type_synonym 'a jreader = "string \<Rightarrow> jvalue \<Rightarrow> json_error + 'a"

section \<open>Values\<close>

definition read_bool :: "bool jreader" where
  "read_bool field v = (case v of JBool b \<Rightarrow> Inr b | _ \<Rightarrow> Inl (WrongType field BooleanExpected (jtype_of v)))"

definition read_string :: "string jreader" where
  "read_string field v = (case v of JString s \<Rightarrow> Inr s | _ \<Rightarrow> Inl (WrongType field StringExpected (jtype_of v)))"

text \<open>\<open>boost::numeric_cast\<close> to a type with the given bounds.\<close>

definition numeric_cast :: "int \<Rightarrow> int \<Rightarrow> int \<Rightarrow> json_error + int" where
  "numeric_cast lo hi n =
     (if n < lo then Inl NegativeOverflow else if hi < n then Inl PositiveOverflow else Inr n)"

text \<open>\<open>modf\<close> splits off the fraction of a double: it has none when it is infinite, and that of
  what is not a number is not zero.\<close>

definition cast_double :: "int \<Rightarrow> int \<Rightarrow> string \<Rightarrow> double \<Rightarrow> json_error + int" where
  "cast_double lo hi field d =
     (case d of
        Finite q \<Rightarrow> if of_int \<lfloor>q\<rfloor> \<noteq> q then Inl (Rounding field) else numeric_cast lo hi \<lfloor>q\<rfloor>
      | Infinite neg \<Rightarrow> Inl (if neg then NegativeOverflow else PositiveOverflow)
      | NotANumber \<Rightarrow> Inl (Rounding field))"

definition read_integral :: "int \<Rightarrow> int \<Rightarrow> int jreader" where
  "read_integral lo hi field v =
     (case v of
        JUnsigned w \<Rightarrow> numeric_cast lo hi (uint w)
      | JSigned w \<Rightarrow> numeric_cast lo hi (sint w)
      | JDouble d \<Rightarrow> cast_double lo hi field d
      | _ \<Rightarrow> Inl (WrongType field IntegralExpected (jtype_of v)))"

abbreviation read_int :: "int jreader" where
  "read_int \<equiv> read_integral (- (2 ^ 31)) (2 ^ 31 - 1)"

definition read_uint64 :: "u64 jreader" where
  "read_uint64 field v = bindE (read_integral 0 (2 ^ 64 - 1) field v) (\<lambda>n. Inr (word_of_int n))"

definition read_uint32 :: "u32 jreader" where
  "read_uint32 field v = bindE (read_integral 0 (2 ^ 32 - 1) field v) (\<lambda>n. Inr (word_of_int n))"

section \<open>Arrays, fields, structures\<close>

fun read_elements :: "'a jreader \<Rightarrow> jvalue list \<Rightarrow> json_error + 'a list" where
  "read_elements read [] = Inr []"
| "read_elements read (v # vs) =
     bindE (read '''' v) (\<lambda>x. bindE (read_elements read vs) (\<lambda>xs. Inr (x # xs)))"

definition read_array :: "'a jreader \<Rightarrow> 'a list jreader" where
  "read_array read field v =
     (case v of JArray vs \<Rightarrow> read_elements read vs | _ \<Rightarrow> Inl (WrongType field ArrayExpected (jtype_of v)))"

definition is_null :: "jvalue \<Rightarrow> bool" where
  "is_null v = (case v of JNull \<Rightarrow> True | _ \<Rightarrow> False)"

lemma is_null_iff [simp]: "is_null v \<longleftrightarrow> v = JNull"
  by (simp add: is_null_def split: jvalue.split)

text \<open>A pointer to a value that may be missing.\<close>

definition read_present :: "'a jreader \<Rightarrow> string \<Rightarrow> jvalue option \<Rightarrow> json_error + 'a" where
  "read_present read field src =
     (case src of
        None \<Rightarrow> Inl (MissingField field)
      | Some v \<Rightarrow> if is_null v then Inl (MissingField field) else read field v)"

definition read_optional :: "'a jreader \<Rightarrow> string \<Rightarrow> jvalue option \<Rightarrow> json_error + 'a option" where
  "read_optional read field src =
     (case src of
        None \<Rightarrow> Inr None
      | Some v \<Rightarrow> if is_null v then Inr None else bindE (read field v) (\<lambda>x. Inr (Some x)))"

definition read_member :: "'a jreader \<Rightarrow> string \<Rightarrow> (string \<Rightarrow> jvalue option) \<Rightarrow> json_error + 'a" where
  "read_member read field src = read_present read field (src field)"

definition get_object :: "jvalue \<Rightarrow> json_error + (string \<Rightarrow> jvalue option)" where
  "get_object v = (case v of JObject m \<Rightarrow> Inr m | _ \<Rightarrow> Inl (NotAnObject (jtype_of v)))"

definition read_profile :: "profile_snapshot jreader" where
  "read_profile field v =
     bindE (get_object v) (\<lambda>m.
     bindE (read_member read_int ''id'' m) (\<lambda>id.
     bindE (read_member read_string ''name'' m) (\<lambda>name.
     bindE (read_member read_int ''server'' m) (\<lambda>server.
     bindE (read_member read_int ''configVersion'' m) (\<lambda>version.
       Inr \<lparr>ps_id = id, ps_name = name, ps_server = server, ps_configVersion = version\<rparr>)))))"

definition read_screen :: "screen_snapshot jreader" where
  "read_screen field v =
     bindE (get_object v) (\<lambda>m.
     bindE (read_member read_int ''id'' m) (\<lambda>id.
     bindE (read_member read_string ''name'' m) (\<lambda>name.
     bindE (read_member read_int ''x_pos'' m) (\<lambda>x.
     bindE (read_member read_int ''y_pos'' m) (\<lambda>y.
     bindE (read_member read_bool ''active'' m) (\<lambda>active.
     bindE (read_member read_string ''status'' m) (\<lambda>status.
     bindE (read_member read_string ''ipList'' m) (\<lambda>ips.
     bindE (read_member read_uint64 ''version'' m) (\<lambda>version.
     bindE (read_member read_uint32 ''error_code'' m) (\<lambda>code.
     bindE (read_member read_string ''error_message'' m) (\<lambda>msg.
       Inr \<lparr>ss_id = id, ss_name = name, ss_x_pos = x, ss_y_pos = y, ss_active = active,
            ss_status = status, ss_ipList = ips, ss_version = version, ss_error_code = code,
            ss_error_message = msg\<rparr>)))))))))))"

definition read_profile_config :: "profile_config_snapshot jreader" where
  "read_profile_config field v =
     bindE (get_object v) (\<lambda>m.
     bindE (read_member read_profile ''profile'' m) (\<lambda>p.
     bindE (read_member (read_array read_screen) ''screens'' m) (\<lambda>ss.
       Inr \<lparr>pcs_profile = p, pcs_screens = ss\<rparr>)))"

text \<open>Reading from a text, with the parser of the library.\<close>

definition read_text :: "(string \<Rightarrow> jvalue option) \<Rightarrow> 'a jreader \<Rightarrow> string \<Rightarrow> json_error + 'a" where
  "read_text parse read txt =
     (case parse txt of None \<Rightarrow> Inl NoJson | Some v \<Rightarrow> read '''' v)"

section \<open>What the values say\<close>

text \<open>A number is an integer in any of three ways.\<close>

inductive says_int :: "jvalue \<Rightarrow> int \<Rightarrow> bool" where
  Says_Unsigned: "says_int (JUnsigned w) (uint w)"
| Says_Signed: "says_int (JSigned w) (sint w)"
| Says_Double: "says_int (JDouble (Finite (of_int n))) n"

inductive_simps says_int_simps [simp]:
  "says_int JNull n" "says_int (JBool b) n" "says_int (JUnsigned w) n" "says_int (JSigned w) n"
  "says_int (JDouble d) n" "says_int (JString s) n" "says_int (JArray vs) n" "says_int (JObject m) n"

definition says_within :: "int \<Rightarrow> int \<Rightarrow> jvalue \<Rightarrow> int \<Rightarrow> bool" where
  "says_within lo hi v n \<longleftrightarrow> says_int v n \<and> lo \<le> n \<and> n \<le> hi"

abbreviation says_int32 :: "jvalue \<Rightarrow> int \<Rightarrow> bool" where
  "says_int32 \<equiv> says_within (- (2 ^ 31)) (2 ^ 31 - 1)"

definition member_says :: "(jvalue \<Rightarrow> 'a \<Rightarrow> bool) \<Rightarrow> (string \<Rightarrow> jvalue option) \<Rightarrow> string \<Rightarrow> 'a \<Rightarrow> bool" where
  "member_says says m field x \<longleftrightarrow> (\<exists>v. m field = Some v \<and> v \<noteq> JNull \<and> says v x)"

definition says_profile :: "jvalue \<Rightarrow> profile_snapshot \<Rightarrow> bool" where
  "says_profile v p \<longleftrightarrow>
     (\<exists>m. v = JObject m \<and>
       member_says says_int32 m ''id'' (ps_id p) \<and>
       member_says (\<lambda>v s. v = JString s) m ''name'' (ps_name p) \<and>
       member_says says_int32 m ''server'' (ps_server p) \<and>
       member_says says_int32 m ''configVersion'' (ps_configVersion p))"

definition says_screen :: "jvalue \<Rightarrow> screen_snapshot \<Rightarrow> bool" where
  "says_screen v s \<longleftrightarrow>
     (\<exists>m. v = JObject m \<and>
       member_says says_int32 m ''id'' (ss_id s) \<and>
       member_says (\<lambda>v s. v = JString s) m ''name'' (ss_name s) \<and>
       member_says says_int32 m ''x_pos'' (ss_x_pos s) \<and>
       member_says says_int32 m ''y_pos'' (ss_y_pos s) \<and>
       member_says (\<lambda>v b. v = JBool b) m ''active'' (ss_active s) \<and>
       member_says (\<lambda>v s. v = JString s) m ''status'' (ss_status s) \<and>
       member_says (\<lambda>v s. v = JString s) m ''ipList'' (ss_ipList s) \<and>
       member_says (\<lambda>v w. says_int v (uint w)) m ''version'' (ss_version s) \<and>
       member_says (\<lambda>v w. says_int v (uint w)) m ''error_code'' (ss_error_code s) \<and>
       member_says (\<lambda>v s. v = JString s) m ''error_message'' (ss_error_message s))"

definition says_array :: "(jvalue \<Rightarrow> 'a \<Rightarrow> bool) \<Rightarrow> jvalue \<Rightarrow> 'a list \<Rightarrow> bool" where
  "says_array says v xs \<longleftrightarrow> (\<exists>vs. v = JArray vs \<and> list_all2 says vs xs)"

definition says_profile_config :: "jvalue \<Rightarrow> profile_config_snapshot \<Rightarrow> bool" where
  "says_profile_config v c \<longleftrightarrow>
     (\<exists>m. v = JObject m \<and> member_says says_profile m ''profile'' (pcs_profile c) \<and>
       member_says (says_array says_screen) m ''screens'' (pcs_screens c))"

section \<open>The contract of a decoder\<close>

locale decoder =
  fixes read :: "'a jreader" and says :: "jvalue \<Rightarrow> 'a \<Rightarrow> bool"
  assumes reads: "read field v = Inr x \<longleftrightarrow> says v x"
begin

lemma says_unique: "says v x \<Longrightarrow> says v y \<Longrightarrow> x = y"
  using reads by (metis sum.inject(2))

lemma reads_elements: "read_elements read vs = Inr xs \<longleftrightarrow> list_all2 says vs xs"
  by (induction vs arbitrary: xs) (auto simp: bindE_Inr_iff reads list_all2_Cons1)

lemma reads_array: "read_array read field v = Inr xs \<longleftrightarrow> says_array says v xs"
  by (cases v) (simp_all add: read_array_def says_array_def reads_elements)

lemma reads_member: "read_member read field m = Inr x \<longleftrightarrow> member_says says m field x"
  by (simp add: read_member_def read_present_def member_says_def reads split: option.split)

lemma reads_optional:
  "read_optional read field src = Inr r \<longleftrightarrow>
     (case r of None \<Rightarrow> src = None \<or> src = Some JNull
      | Some x \<Rightarrow> \<exists>v. src = Some v \<and> v \<noteq> JNull \<and> says v x)"
  by (cases src; cases r) (auto simp: read_optional_def bindE_Inr_iff reads)

end

interpretation jbool: decoder read_bool "\<lambda>v b. v = JBool b"
  by unfold_locales (simp add: read_bool_def split: jvalue.split)

interpretation jstring: decoder read_string "\<lambda>v s. v = JString s"
  by unfold_locales (simp add: read_string_def split: jvalue.split)

lemma numeric_cast_Inr: "numeric_cast lo hi n = Inr k \<longleftrightarrow> k = n \<and> lo \<le> n \<and> n \<le> hi"
  by (auto simp: numeric_cast_def)

lemma cast_double_Inr:
  "cast_double lo hi field d = Inr n \<longleftrightarrow> d = Finite (of_int n) \<and> lo \<le> n \<and> n \<le> hi"
  by (cases d) (auto simp: cast_double_def numeric_cast_Inr)

interpretation integral: decoder "read_integral lo hi" "says_within lo hi" for lo hi
  by unfold_locales
    (auto simp: read_integral_def says_within_def numeric_cast_Inr cast_double_Inr split: jvalue.split)

lemma says_word:
  "(\<exists>n. says_within 0 (2 ^ LENGTH('a) - 1) v n \<and> word_of_int n = (w :: 'a :: len word)) \<longleftrightarrow> says_int v (uint w)"
proof
  assume "says_int v (uint w)"
  then have "says_within 0 (2 ^ LENGTH('a) - 1) v (uint w)"
    using uint_lt2p [of w] by (simp add: says_within_def)
  then show "\<exists>n. says_within 0 (2 ^ LENGTH('a) - 1) v n \<and> word_of_int n = w"
    by (intro exI [of _ "uint w"]) simp
next
  assume "\<exists>n. says_within 0 (2 ^ LENGTH('a) - 1) v n \<and> word_of_int n = w"
  then show "says_int v (uint w)"
    by (auto simp: says_within_def uint_word_of_int)
qed

interpretation uint64: decoder read_uint64 "\<lambda>v w. says_int v (uint w)"
  by unfold_locales
    (use says_word [where 'a = 64] in \<open>simp add: read_uint64_def bindE_Inr_iff integral.reads\<close>)

interpretation uint32: decoder read_uint32 "\<lambda>v w. says_int v (uint w)"
  by unfold_locales
    (use says_word [where 'a = 32] in \<open>simp add: read_uint32_def bindE_Inr_iff integral.reads\<close>)

lemma get_object_Inr: "get_object v = Inr m \<longleftrightarrow> v = JObject m"
  by (simp add: get_object_def split: jvalue.split)

lemmas member_simps = bindE_Inr_iff get_object_Inr integral.reads_member jstring.reads_member jbool.reads_member
  uint64.reads_member uint32.reads_member

interpretation profile: decoder read_profile says_profile
proof
  fix field v x
  show "read_profile field v = Inr x \<longleftrightarrow> says_profile v x"
    unfolding read_profile_def says_profile_def member_simps
    by (cases x) auto
qed

interpretation screen: decoder read_screen says_screen
proof
  fix field v x
  show "read_screen field v = Inr x \<longleftrightarrow> says_screen v x"
    unfolding read_screen_def says_screen_def member_simps
    by (cases x) auto
qed

interpretation screens: decoder "read_array read_screen" "says_array says_screen"
  by unfold_locales (rule screen.reads_array)

interpretation profile_config: decoder read_profile_config says_profile_config
proof
  fix field v x
  show "read_profile_config field v = Inr x \<longleftrightarrow> says_profile_config v x"
    unfolding read_profile_config_def says_profile_config_def member_simps profile.reads_member
      screens.reads_member
    by (cases x) auto
qed

lemma snapshot_reading:
  "read_text parse read_profile_config txt = Inr c \<longleftrightarrow>
     (\<exists>v. parse txt = Some v \<and> says_profile_config v c)"
  by (simp add: read_text_def profile_config.reads split: option.split)

section \<open>Property\<close>

text \<open>C21. A text is taken for a snapshot exactly when the parser of the library accepts it and its value
  says so: objects with every field of the structures present and not null, each of its own type, a
  number written in any of the three ways as long as it is whole and fits the type of its field; what
  else the objects hold is ignored. The result is then what the value says, and otherwise an error.\<close>

theorem snapshot_is_read_exactly:
  "read_text parse read_profile_config txt = Inr c \<longleftrightarrow>
     (\<exists>v. parse txt = Some v \<and> says_profile_config v c)"
  by (rule snapshot_reading)

end
