(* ===== verification/Service.thy ===== *)
theory Service
  imports Core Websocket Monitors SnapshotJson
begin

text \<open>
  The service as a whole: \<open>service/ServiceWorker.cpp\<close> connects the signals of the components to
  their slots and provides the calls of the configuration program and the tray. The settings and
  the local profile, which several components share, are those of the core manager's state.

  A signal of the local profile goes to the slots in the order in which they were connected: the
  error monitor of the router, the core manager, the worker. A step that makes other components
  signal passes these signals on when it has finished; the code does so within the step, and the
  slots in question do not look at the component that signals. The router is seen through the
  calls it gets. An exception that leaves a handler ends the service. The parsing of JSON texts
  and of addresses belongs to libraries and is a parameter.
\<close>

section \<open>State\<close>

record world =
  w_env :: environment
  w_spawns :: "string list \<Rightarrow> bool"
  w_to_port :: "string \<Rightarrow> int option"
  w_version :: string
  w_parse_ip :: "string \<Rightarrow> string option"
  w_parse_json :: "string \<Rightarrow> jvalue option"

text \<open>The answer of the name lookup and the random number, for steps that may connect.\<close>

type_synonym luck = "bool \<times> nat"

datatype rpc_arg = NoArg | BoolArg bool | TextArg string

datatype service_output =
    Publish string rpc_arg
  | RouterStart int string
  | RouterPeer string
  | RouterShutdown
  | SettingsSaved user_config
  | TrayAnswer bool bool

datatype service_end = CoreEnd core_error | CloudEnd | StatusEnd | AddressEnd | Stopped

record service =
  sv_core :: core
  sv_remote :: profile_config
  sv_link :: cloud_link
  sv_snapshot :: string
  sv_reach :: reach
  sv_tray :: tray
  sv_ip :: "string ip_monitor"
  sv_posted :: "string list list"
  sv_out :: "service_output list"

type_synonym sact = "service \<Rightarrow> service_end option \<times> service"

abbreviation sv_user :: "service \<Rightarrow> user_config" where
  "sv_user s \<equiv> user (sv_core s)"

abbreviation sv_local :: "service \<Rightarrow> profile_config" where
  "sv_local s \<equiv> local_profile (sv_core s)"

definition sdone :: sact where "sdone s = (None, s)"

definition sthen :: "sact \<Rightarrow> sact \<Rightarrow> sact" where
  "sthen f g s = (case f s of (None, s') \<Rightarrow> g s' | (Some e, s') \<Rightarrow> (Some e, s'))"

definition say :: "service_output \<Rightarrow> sact" where
  "say x s = (None, s\<lparr>sv_out := sv_out s @ [x]\<rparr>)"

definition change_link :: "(cloud_link \<Rightarrow> cloud_link) \<Rightarrow> sact" where
  "change_link f s = (None, s\<lparr>sv_link := f (sv_link s)\<rparr>)"

definition change_user :: "(user_config \<Rightarrow> user_config) \<Rightarrow> sact" where
  "change_user f s = (None, s\<lparr>sv_core := (sv_core s)\<lparr>user := f (user (sv_core s))\<rparr>\<rparr>)"

definition change_local :: "(profile_config \<Rightarrow> profile_config) \<Rightarrow> sact" where
  "change_local f s =
     (None, s\<lparr>sv_core := (sv_core s)\<lparr>local_profile := f (local_profile (sv_core s))\<rparr>\<rparr>)"

text \<open>Steps one after another, until one ends the service.\<close>

fun s_each :: "('a \<Rightarrow> sact) \<Rightarrow> 'a list \<Rightarrow> sact" where
  "s_each f [] = sdone"
| "s_each f (x # xs) = sthen (f x) (s_each f xs)"

section \<open>The core manager and the cloud\<close>

definition send_job :: "luck \<Rightarrow> nat \<Rightarrow> http_job \<Rightarrow> sact" where
  "send_job luck cat job s =
     (case addHttpJob (fst luck) cat job (l_cloud (sv_link s)) of
        None \<Rightarrow> (Some CloudEnd, s)
      | Some cl \<Rightarrow> (None, s\<lparr>sv_link := (sv_link s)\<lparr>l_cloud := cl\<rparr>\<rparr>))"

text \<open>The local profile was modified: the remote one is compared with it, and the only slot of the
  remote one claims the server.\<close>

definition claim_event :: "luck \<Rightarrow> profile_event \<Rightarrow> sact" where
  "claim_event luck ev s =
     (case ev of
        ProfileServerChanged i \<Rightarrow>
          send_job luck ProfileUpdate
            (claim_job i (profileId (sv_user s)) (profile_version (profile_of (sv_remote s)))) s
      | _ \<Rightarrow> sdone s)"

definition local_modified :: "luck \<Rightarrow> sact" where
  "local_modified luck s = s_each (claim_event luck) (snd (compare (sv_remote s) (sv_local s))) s"

definition core_signal :: "luck \<Rightarrow> core_output \<Rightarrow> sact" where
  "core_signal luck x =
     (case x of
        CloudStatus sc st \<Rightarrow> send_job luck ScreenUpdate (status_job ((new_screen sc)\<lparr>sstatus := st\<rparr>))
      | ProfileModified \<Rightarrow> local_modified luck
      | LogPublished line \<Rightarrow> say (Publish ''synergy.core.log'' (TextArg line))
      | _ \<Rightarrow> sdone)"

text \<open>A step of the core manager, with the signals that it raises passed on.\<close>

definition on_core :: "luck \<Rightarrow> act \<Rightarrow> sact" where
  "on_core luck f s =
     (case f (sv_core s) of
        (e, c) \<Rightarrow>
          sthen (s_each (core_signal luck) (drop (length (outbox (sv_core s))) (outbox c)))
            (\<lambda>s'. (map_option CoreEnd e, s')) (s\<lparr>sv_core := c\<rparr>))"

section \<open>The settings\<close>

definition on_websocket_error :: "websocket_error \<Rightarrow> sact" where
  "on_websocket_error ec =
     sthen (\<lambda>s. say (Publish ''synergy.cloud.offline'' NoArg) (s\<lparr>sv_snapshot := ''''\<rparr>))
       (sthen (if ec = KAuth
               then sthen (say (Publish ''synergy.auth.logout'' NoArg)) (change_local clear_config)
               else sdone)
         (\<lambda>s. (None, s\<lparr>sv_ip := ip_stop (sv_ip s)\<rparr>)))"

definition connection_signal :: "ws_event \<Rightarrow> sact" where
  "connection_signal e =
     (case e of
        WsConnected \<Rightarrow> say (Publish ''synergy.cloud.online'' NoArg)
      | WsError ec \<Rightarrow> on_websocket_error ec
      | _ \<Rightarrow> sdone)"

text \<open>Saving raises \<open>updated\<close>: the cloud client loads the settings, then the core manager.\<close>

definition save_settings :: "world \<Rightarrow> luck \<Rightarrow> sact" where
  "save_settings w luck s =
     (let u = sv_user s; n = length (ws_out (l_ws (sv_link s))) in
      sthen (say (SettingsSaved u))
        (sthen
          (\<lambda>s. case cloud_load (w_to_port w) (w_version w) (fst luck) (snd luck) u (sv_link s) of
                 None \<Rightarrow> (Some CloudEnd, s)
               | Some l \<Rightarrow> s_each connection_signal (drop n (ws_out (l_ws l))) (s\<lparr>sv_link := l\<rparr>))
          (on_core luck (core_step (w_env w) (w_spawns w) (SettingsUpdated u)))) s)"

section \<open>The local profile\<close>

text \<open>A text that is no address raises.\<close>

definition peer_from_text :: "world \<Rightarrow> string \<Rightarrow> sact" where
  "peer_from_text w ip =
     (case w_parse_ip w ip of None \<Rightarrow> (\<lambda>s. (Some AddressEnd, s)) | Some a \<Rightarrow> say (RouterPeer a))"

definition add_peers :: "world \<Rightarrow> string list \<Rightarrow> sact" where
  "add_peers w ips = s_each (peer_from_text w) ips"

definition local_removed :: "world \<Rightarrow> luck \<Rightarrow> sact" where
  "local_removed w luck =
     sthen (on_core luck pause_core)
       (sthen (change_link shutdownWebsocket)
         (sthen (say RouterShutdown)
           (sthen (change_user reset_config)
             (sthen (save_settings w luck)
               (sthen (change_local clear_config)
                 (say (Publish ''synergy.auth.logout'' NoArg)))))))"

definition worker_slot :: "world \<Rightarrow> luck \<Rightarrow> profile_event \<Rightarrow> sact" where
  "worker_slot w luck ev s =
     (let me = screenId (sv_user s) in
      case ev of
        ScreenOnline scr \<Rightarrow>
          if me = sid scr then say (RouterStart me (sname scr)) s
          else (None, s\<lparr>sv_posted := sv_posted s @ [split_on (CHR '','') (sip_list scr)]\<rparr>)
      | ScreenIPSetChanged scr \<Rightarrow>
          if me = sid scr then sdone s else add_peers w (split_on (CHR '','') (sip_list scr)) s
      | ScreenSetChanged added removed \<Rightarrow>
          if list_ex (\<lambda>t. sid t = me) removed then local_removed w luck s else sdone s
      | _ \<Rightarrow> sdone s)"

definition reach_slot :: "profile_event \<Rightarrow> reach \<Rightarrow> reach" where
  "reach_slot ev r =
     (case ev of
        ScreenOnline scr \<Rightarrow> reach_step (ScreenUp (sid scr)) r
      | ScreenOffline scr \<Rightarrow> reach_step (ScreenDown (sid scr)) r
      | _ \<Rightarrow> r)"

definition local_signal :: "world \<Rightarrow> luck \<Rightarrow> profile_event \<Rightarrow> sact" where
  "local_signal w luck ev =
     sthen (\<lambda>s. (None, s\<lparr>sv_reach := reach_slot ev (sv_reach s)\<rparr>))
       (sthen (on_core luck (post (profile_tasks ev))) (worker_slot w luck ev))"

text \<open>\<open>apply\<close> raises the signals first and then takes the profile over.\<close>

definition apply_remote :: "world \<Rightarrow> luck \<Rightarrow> sact" where
  "apply_remote w luck s =
     (let remote = sv_remote s; (different, evs) = compare (sv_local s) remote in
      sthen (s_each (local_signal w luck) evs)
        (if different then change_local (\<lambda>_. remote) else sdone) s)"

definition has_screen :: "int \<Rightarrow> profile_config \<Rightarrow> bool" where
  "has_screen i p \<longleftrightarrow> (case getScreen i p of Inl e \<Rightarrow> False | Inr s \<Rightarrow> True)"

text \<open>A message of the cloud. A text that is no snapshot is logged and dropped.\<close>

definition on_websocket_message :: "world \<Rightarrow> luck \<Rightarrow> string \<Rightarrow> sact" where
  "on_websocket_message w luck json s =
     (case read_text (w_parse_json w) read_profile_config json of
        Inl e \<Rightarrow> sdone s
      | Inr snap \<Rightarrow>
          (case from_snapshot snap of
             None \<Rightarrow> (Some StatusEnd, s)
           | Some p \<Rightarrow>
               sthen (say (Publish ''synergy.profile.snapshot'' (TextArg json)))
                 (\<lambda>s. let me = screenId (sv_user s) in
                      if \<not> has_screen me (sv_remote s) \<and> \<not> has_screen me (sv_local s) then sdone s
                      else sthen (apply_remote w luck)
                             (\<lambda>s. (None, s\<lparr>sv_ip := ip_start (sv_ip s)\<rparr>)) s)
                 (s\<lparr>sv_remote := p, sv_snapshot := json\<rparr>)))"

section \<open>The network\<close>

definition websocket_signal :: "world \<Rightarrow> luck \<Rightarrow> ws_event \<Rightarrow> sact" where
  "websocket_signal w luck e =
     (case e of WsMessage m \<Rightarrow> on_websocket_message w luck m | _ \<Rightarrow> connection_signal e)"

text \<open>Something happens to the websocket. After a message the session reads on, whatever the slots
  did with it.\<close>

definition on_websocket :: "world \<Rightarrow> luck \<Rightarrow> ws_input \<Rightarrow> sact" where
  "on_websocket w luck i s =
     (let v = l_ws (sv_link s) in
      case ws_step (fst luck) (snd luck) i v of
        None \<Rightarrow> (Some CloudEnd, s)
      | Some v' \<Rightarrow>
          sthen (s_each (websocket_signal w luck) (drop (length (ws_out v)) (ws_out v')))
            (case i of
               WReadDone (Received m) \<Rightarrow>
                 (if ws_op v = WRead
                  then change_link (\<lambda>l. l\<lparr>l_ws := (l_ws l)\<lparr>ws_op := WRead\<rparr>\<rparr>) else sdone)
             | _ \<Rightarrow> sdone)
            (s\<lparr>sv_link := (sv_link s)\<lparr>l_ws := v'\<rparr>\<rparr>))"

definition on_http :: "luck \<Rightarrow> cloud_input \<Rightarrow> sact" where
  "on_http luck i s =
     (case cloud_step (fst luck) i (l_cloud (sv_link s)) of
        None \<Rightarrow> (Some CloudEnd, s)
      | Some cl \<Rightarrow> (None, s\<lparr>sv_link := (sv_link s)\<lparr>l_cloud := cl\<rparr>\<rparr>))"

text \<open>The interval of the address monitor is over. The slot works on a copy of the local screen.\<close>

definition on_addresses :: "luck \<Rightarrow> string list \<Rightarrow> sact" where
  "on_addresses luck found s =
     (let (p, signal) = ip_resume (set found) (sv_ip s); s1 = s\<lparr>sv_ip := p\<rparr> in
      case (signal, getScreen (screenId (sv_user s)) (sv_local s)) of
        (Some a, Inr scr) \<Rightarrow>
          (let (changed, scr') = set_ip_list (remdups found) scr in
           if changed then send_job luck ScreenUpdate (ip_list_job scr') s1 else sdone s1)
      | _ \<Rightarrow> sdone s1)"

section \<open>Calls\<close>

definition rpc_pause :: "luck \<Rightarrow> sact" where
  "rpc_pause luck =
     sthen (on_core luck pause_core)
       (sthen (say (Publish ''synergy.config.close'' NoArg))
         (sthen (change_link shutdownWebsocket)
           (say (Publish ''synergy.core.disabled'' (BoolArg True)))))"

definition rpc_resume :: "world \<Rightarrow> luck \<Rightarrow> sact" where
  "rpc_resume w luck =
     sthen (on_core luck (resume_core (w_env w) (w_spawns w)))
       (sthen (change_link (reconnectWebsocket (snd luck)))
         (say (Publish ''synergy.core.disabled'' (BoolArg False))))"

definition rpc_set_uid :: "world \<Rightarrow> luck \<Rightarrow> string \<Rightarrow> sact" where
  "rpc_set_uid w luck uid =
     sthen (change_user (\<lambda>u. u\<lparr>systemUid := uid\<rparr>))
       (on_core luck (set_run_as_uid (w_env w) (w_spawns w) uid))"

definition rpc_auth_update :: "world \<Rightarrow> luck \<Rightarrow> int \<Rightarrow> int \<Rightarrow> int \<Rightarrow> string \<Rightarrow> sact" where
  "rpc_auth_update w luck uid sc prof token =
     sthen (change_user (\<lambda>u. u\<lparr>userId := uid, screenId := sc, profileId := prof, userToken := token\<rparr>))
       (save_settings w luck)"

definition rpc_snapshot_request :: sact where
  "rpc_snapshot_request s =
     (if sv_snapshot s \<noteq> ''''
      then say (Publish ''synergy.profile.snapshot'' (TextArg (sv_snapshot s))) s else sdone s)"

definition rpc_hello :: "world \<Rightarrow> luck \<Rightarrow> sact" where
  "rpc_hello w luck =
     sthen
       (\<lambda>s. if disabled (sv_core s)
            then sthen (on_core luck (resume_core (w_env w) (w_spawns w)))
                   (say (Publish ''synergy.core.disabled'' (BoolArg False))) s
            else sdone s)
       (sthen
         (\<lambda>s. if \<not> isWebsocketConnected (sv_link s) \<and> profileId (sv_user s) \<noteq> -1
              then sthen (say (Publish ''synergy.cloud.offline'' NoArg))
                     (change_link (reconnectWebsocket (snd luck))) s
              else sdone s)
         (\<lambda>s. if versionCheck (sv_user s) then say (Publish ''synergy.version.check'' NoArg) s
              else sdone s))"

definition rpc_cloud_retry :: "luck \<Rightarrow> sact" where
  "rpc_cloud_retry luck = change_link (reconnectWebsocket (snd luck))"

definition rpc_tray_hello :: sact where
  "rpc_tray_hello s =
     (let (started, t) = tray_start (sv_tray s) in
      say (TrayAnswer (\<not> started) (disabled (sv_core s))) (s\<lparr>sv_tray := t\<rparr>))"

definition rpc_server_claim :: "world \<Rightarrow> luck \<Rightarrow> int \<Rightarrow> sact" where
  "rpc_server_claim w luck i =
     sthen (on_core luck (switchServer (w_env w) (w_spawns w) i)) (on_core luck (notifyServerClaim i))"

definition worker_shutdown :: "luck \<Rightarrow> sact" where
  "worker_shutdown luck = sthen (on_core luck shutdown_process) (\<lambda>s. (Some Stopped, s))"

definition rpc_proxy_update :: "world \<Rightarrow> luck \<Rightarrow> string \<Rightarrow> string \<Rightarrow> sact" where
  "rpc_proxy_update w luck protocol proxy s =
     (case link_setProxy (w_to_port w) protocol proxy (sv_link s) of
        None \<Rightarrow> (Some CloudEnd, s)
      | Some (changed, l) \<Rightarrow>
          (if changed
           then sthen (change_user (\<lambda>u. u\<lparr>httpProxy := proxy\<rparr>)) (save_settings w luck)
           else sdone) (s\<lparr>sv_link := l\<rparr>))"

section \<open>Steps\<close>

datatype service_input =
    Call_Pause | Call_Resume | Call_Set_Uid string | Call_Auth int int int string
  | Call_Snapshot | Call_Hello | Call_Retry | Call_Tray_Hello | Call_Tray_Goodbye | Call_Tray_Ping
  | Call_Claim int | Call_Restart | Call_Proxy string string
  | Active_User string | Active_Display string
  | Socket ws_input | Http cloud_input | Addresses "string list" | Posted_Peers
  | Core_Event core_input | Router_Node reach_input | Tray_Timeout

definition service_step :: "world \<Rightarrow> luck \<Rightarrow> service_input \<Rightarrow> sact" where
  "service_step w luck i =
     (case i of
        Call_Pause \<Rightarrow> rpc_pause luck
      | Call_Resume \<Rightarrow> rpc_resume w luck
      | Call_Set_Uid uid \<Rightarrow> rpc_set_uid w luck uid
      | Call_Auth uid sc prof token \<Rightarrow> rpc_auth_update w luck uid sc prof token
      | Call_Snapshot \<Rightarrow> rpc_snapshot_request
      | Call_Hello \<Rightarrow> rpc_hello w luck
      | Call_Retry \<Rightarrow> rpc_cloud_retry luck
      | Call_Tray_Hello \<Rightarrow> rpc_tray_hello
      | Call_Tray_Goodbye \<Rightarrow> (\<lambda>s. (None, s\<lparr>sv_tray := tray_stop (sv_tray s)\<rparr>))
      | Call_Tray_Ping \<Rightarrow> (\<lambda>s. (None, s\<lparr>sv_tray := tray_ping (sv_tray s)\<rparr>))
      | Call_Claim sc \<Rightarrow> rpc_server_claim w luck sc
      | Call_Restart \<Rightarrow> worker_shutdown luck
      | Call_Proxy protocol proxy \<Rightarrow> rpc_proxy_update w luck protocol proxy
      | Active_User u \<Rightarrow> on_core luck (set_run_as_uid (w_env w) (w_spawns w) u)
      | Active_Display d \<Rightarrow> on_core luck (set_display (w_env w) (w_spawns w) d)
      | Socket x \<Rightarrow> on_websocket w luck x
      | Http x \<Rightarrow> on_http luck x
      | Addresses found \<Rightarrow> on_addresses luck found
      | Posted_Peers \<Rightarrow>
          (\<lambda>s. case sv_posted s of
                 [] \<Rightarrow> sdone s
               | ips # rest \<Rightarrow> add_peers w ips (s\<lparr>sv_posted := rest\<rparr>))
      | Core_Event x \<Rightarrow> on_core luck (core_step (w_env w) (w_spawns w) x)
      | Router_Node x \<Rightarrow> (\<lambda>s. (None, s\<lparr>sv_reach := reach_step x (sv_reach s)\<rparr>))
      | Tray_Timeout \<Rightarrow> (\<lambda>s. (None, s\<lparr>sv_tray := tray_timeout (sv_tray s)\<rparr>)))"

text \<open>The constructor: the cloud client loads the settings before anybody listens to it.\<close>

definition init_service :: "world \<Rightarrow> luck \<Rightarrow> user_config \<Rightarrow> service_end option \<times> service" where
  "init_service w luck u =
     (let s = \<lparr>sv_core = init_core u, sv_remote = init_profile_config, sv_link = new_cloud_link,
               sv_snapshot = '''', sv_reach = init_reach, sv_tray = init_tray,
               sv_ip = init_ip_monitor, sv_posted = [], sv_out = []\<rparr>
      in case cloud_load (w_to_port w) (w_version w) (fst luck) (snd luck) u new_cloud_link of
           None \<Rightarrow> (Some CloudEnd, s)
         | Some l \<Rightarrow>
             (if platform (w_env w) = Linux \<and> systemUid u \<noteq> ''''
              then on_core luck (set_run_as_uid (w_env w) (w_spawns w) (systemUid u)) else sdone)
               (s\<lparr>sv_link := l\<rparr>))"

end
