(* ===== verification/Service_Props.thy ===== *)
theory Service_Props
  imports Service Websocket_Props
begin

text \<open>
  What the composition of the components does when a snapshot arrives that no longer contains this
  computer, and when another computer comes online that has no address yet.
\<close>

section \<open>Steps that succeed\<close>

lemma sthen_None: "sthen f g s = (None, s') \<longleftrightarrow> (\<exists>s1. f s = (None, s1) \<and> g s1 = (None, s'))"
  by (auto simp: sthen_def split: prod.split option.split)

lemma sdone_simp [simp]: "sdone s = (None, s') \<longleftrightarrow> s' = s"
  by (auto simp: sdone_def)

lemma s_each_rel:
  assumes "\<And>x s s'. x \<in> set xs \<Longrightarrow> f x s = (None, s') \<Longrightarrow> R s s'"
    and "\<And>s. R s s" "\<And>s t u. R s t \<Longrightarrow> R t u \<Longrightarrow> R s u" "s_each f xs s = (None, s')"
  shows "R s s'"
  using assms(1,4)
proof (induction xs arbitrary: s)
  case Nil
  then show ?case
    using assms(2) by simp
next
  case (Cons x xs)
  then obtain s1 where s1: "f x s = (None, s1)" "s_each f xs s1 = (None, s')"
    by (auto simp: sthen_None)
  have "R s s1" "R s1 s'"
    using Cons s1 by auto
  then show ?case
    by (rule assms(3))
qed

lemma s_each_append: "s_each f (xs @ ys) = sthen (s_each f xs) (s_each f ys)"
proof (induction xs)
  case Nil
  show ?case
    by (rule ext) (simp add: sthen_def sdone_def)
next
  case (Cons x xs)
  show ?case
    by (rule ext) (simp add: Cons sthen_def split: prod.split option.split)
qed

lemma on_core_post:
  "on_core luck (post ts) s =
     (None, s\<lparr>sv_core := (sv_core s)\<lparr>tasks := tasks (sv_core s) @ ts\<rparr>\<rparr>)"
  by (simp add: on_core_def post_def sthen_def sdone_def)

lemma pause_core_result:
  "\<exists>c. pause_core (sv_core s) = (None, c) \<and> disabled c \<and> user c = sv_user s \<and>
     (outbox c = outbox (sv_core s) \<or> outbox c = outbox (sv_core s) @ [Terminated])"
  by (auto simp: pause_core_def andThen_def setDisabled_def ok_def shutdown_process_def emit_def
      split: option.split)

lemma on_core_pause:
  "\<exists>c. on_core luck pause_core s = (None, s\<lparr>sv_core := c\<rparr>) \<and> disabled c \<and> user c = sv_user s"
  using pause_core_result [of s]
  by (auto simp: on_core_def sthen_def sdone_def core_signal_def)

section \<open>Losing the local screen\<close>

text \<open>What slots that do not deal with the removal leave alone.\<close>

definition undisturbed :: "service \<Rightarrow> service \<Rightarrow> bool" where
  "undisturbed s s' \<longleftrightarrow>
     sv_user s' = sv_user s \<and> disabled (sv_core s') = disabled (sv_core s) \<and>
     sv_link s' = sv_link s \<and> sv_remote s' = sv_remote s \<and> (\<exists>xs. sv_out s' = sv_out s @ xs)"

lemma undisturbed_refl: "undisturbed s s"
  by (simp add: undisturbed_def)

lemma undisturbed_trans: "undisturbed s t \<Longrightarrow> undisturbed t u \<Longrightarrow> undisturbed s u"
  by (auto simp: undisturbed_def)

lemma add_peers_undisturbed: "add_peers w ips s = (None, s') \<Longrightarrow> undisturbed s s'"
  unfolding add_peers_def
  by (rule s_each_rel [of ips "peer_from_text w" undisturbed])
    (auto simp: peer_from_text_def say_def undisturbed_def undisturbed_refl intro: undisturbed_trans
      split: option.splits)

lemma worker_slot_undisturbed:
  assumes "worker_slot w luck ev s = (None, s')" "\<And>a r. ev \<noteq> ScreenSetChanged a r"
  shows "undisturbed s s'"
  using assms
  by (cases ev) (auto simp: worker_slot_def Let_def say_def undisturbed_def [of s "_\<lparr>sv_out := _\<rparr>"]
      undisturbed_def [of s "_\<lparr>sv_posted := _\<rparr>"] undisturbed_refl add_peers_undisturbed
      split: if_splits)

lemma slots_before_worker:
  "\<exists>s1. undisturbed s s1 \<and> local_signal w luck ev s = worker_slot w luck ev s1"
proof -
  let ?s = "s\<lparr>sv_reach := reach_slot ev (sv_reach s)\<rparr>"
  let ?t = "?s\<lparr>sv_core := (sv_core ?s)\<lparr>tasks := tasks (sv_core ?s) @ profile_tasks ev\<rparr>\<rparr>"
  have "local_signal w luck ev s = worker_slot w luck ev ?t"
    by (simp add: local_signal_def sthen_def on_core_post)
  moreover have "undisturbed s ?t"
    by (simp add: undisturbed_def)
  ultimately show ?thesis
    by blast
qed

lemma local_signal_undisturbed:
  assumes "local_signal w luck ev s = (None, s')" "\<And>a r. ev \<noteq> ScreenSetChanged a r"
  shows "undisturbed s s'"
  using slots_before_worker [of s w luck ev] assms worker_slot_undisturbed undisturbed_trans by metis

lemma local_signals_undisturbed:
  assumes "s_each (local_signal w luck) evs s = (None, s')"
    "\<And>ev a r. ev \<in> set evs \<Longrightarrow> ev \<noteq> ScreenSetChanged a r"
  shows "undisturbed s s'"
  using assms(2) local_signal_undisturbed
  by (intro s_each_rel [OF _ undisturbed_refl undisturbed_trans assms(1)]) blast+

text \<open>The state after this computer was removed; the headers of the websocket are never reset.\<close>

definition logged_out :: "service \<Rightarrow> service \<Rightarrow> bool" where
  "logged_out s s' \<longleftrightarrow>
     screenId (sv_user s') = -1 \<and> profileId (sv_user s') = -1 \<and> userToken (sv_user s') = '''' \<and>
     disabled (sv_core s') \<and> \<not> isWebsocketConnected (sv_link s') \<and>
     RouterShutdown \<in> set (sv_out s') \<and> SettingsSaved (sv_user s') \<in> set (sv_out s') \<and>
     Publish ''synergy.auth.logout'' NoArg \<in> set (sv_out s') \<and>
     ws_headers (l_ws (sv_link s')) = ws_headers (l_ws (sv_link s)) \<and> sv_remote s' = sv_remote s"

lemma logged_out_undisturbed:
  "undisturbed s s1 \<Longrightarrow> logged_out s1 s2 \<Longrightarrow> undisturbed s2 s3 \<Longrightarrow> logged_out s s3"
  by (auto simp: logged_out_def undisturbed_def)

text \<open>The settings of nobody do not connect.\<close>

lemma setProxy_keeps_headers: "ws_headers (snd (ws_setProxy h p v)) = ws_headers v"
  by (auto simp: ws_setProxy_def Let_def split: option.split prod.split)

lemma cloud_load_nobody:
  assumes "cloud_load tp v r n u l = Some l'" "profileId u = -1"
  shows "ws_connected (l_ws l') = ws_connected (l_ws l) \<and> ws_out (l_ws l') = ws_out (l_ws l) \<and>
    ws_headers (l_ws l') = ws_headers (l_ws l)"
proof -
  obtain b l1 where l1: "link_setProxy tp ''http'' (httpProxy u) l = Some (b, l1)"
    using assms(1) by (auto simp: cloud_load_def)
  then have "l_ws l' = l_ws l1"
    using assms by (auto simp: cloud_load_def Let_def)
  moreover have "ws_headers (l_ws l1) = ws_headers (l_ws l)"
    using l1 by (auto simp: link_setProxy_def setProxy_keeps_headers)
  ultimately show ?thesis
    using link_setProxy_keeps [OF l1] by simp
qed

lemma on_core_settings:
  "on_core luck (core_step e sp (SettingsUpdated u)) s =
     (None, s\<lparr>sv_core := (sv_core s)\<lparr>user := u,
        client_proxy_started := client_proxy_started (sv_core s) \<or> screenId u \<noteq> -1\<rparr>\<rparr>)"
  by (simp add: on_core_def ok_def sthen_def sdone_def)

lemma save_settings_nobody:
  assumes "save_settings w luck s = (None, s')" "profileId (sv_user s) = -1"
  shows "sv_user s' = sv_user s \<and> disabled (sv_core s') = disabled (sv_core s) \<and>
    sv_remote s' = sv_remote s \<and> sv_out s' = sv_out s @ [SettingsSaved (sv_user s)] \<and>
    ws_connected (l_ws (sv_link s')) = ws_connected (l_ws (sv_link s)) \<and>
    ws_headers (l_ws (sv_link s')) = ws_headers (l_ws (sv_link s))"
proof -
  obtain l where l: "cloud_load (w_to_port w) (w_version w) (fst luck) (snd luck) (sv_user s) (sv_link s) =
      Some l"
    using assms(1) by (auto simp: save_settings_def Let_def sthen_None say_def split: option.splits)
  note k = cloud_load_nobody [OF l assms(2)]
  show ?thesis
    using assms(1) k
    by (auto simp: save_settings_def Let_def sthen_None say_def l on_core_settings)
qed

lemma local_removed_result:
  assumes "local_removed w luck s = (None, s')"
  shows "logged_out s s'"
proof -
  obtain c where c: "on_core luck pause_core s = (None, s\<lparr>sv_core := c\<rparr>)" "disabled c"
    using on_core_pause by blast
  define t where "t = s\<lparr>sv_link := shutdownWebsocket (sv_link s), sv_out := sv_out s @ [RouterShutdown],
    sv_core := c\<lparr>user := reset_config (user c)\<rparr>\<rparr>"
  obtain t' where t': "save_settings w luck t = (None, t')"
      "s' = t'\<lparr>sv_core := (sv_core t')\<lparr>local_profile := clear_config (sv_local t')\<rparr>,
              sv_out := sv_out t' @ [Publish ''synergy.auth.logout'' NoArg]\<rparr>"
    using assms c by (auto simp: local_removed_def sthen_None change_link_def say_def change_user_def
        change_local_def t_def)
  have u: "sv_user t = reset_config (user c)"
    by (simp add: t_def)
  have "profileId (sv_user t) = -1"
    by (simp add: u reset_config_def)
  note r = save_settings_nobody [OF t'(1) this]
  show ?thesis
    using r c(2) unfolding t'(2) u
    by (auto simp: logged_out_def reset_config_def t_def isWebsocketConnected_def shutdownWebsocket_def
        ws_shutdown_def)
qed

lemma has_screen_iff: "has_screen i p \<longleftrightarrow> (\<exists>s\<in>set (screens_of p). sid s = i)"
  by (auto simp: has_screen_def getScreen_def find_None_iff dest: find_SomeD split: option.splits)

text \<open>The signals of a comparison: the change of the set of screens comes near the end.\<close>

lemma compare_set_changed:
  assumes "compare this tgt = (d, evs)" "has_screen me this" "\<not> has_screen me tgt"
    "profile_version (profile_of this) \<le> profile_version (profile_of tgt)"
  obtains pre added removed where
    "d" "evs = pre @ ScreenSetChanged added removed # map ScreenOnline (filter sactive added)"
    "\<forall>ev\<in>set pre. \<forall>a r. ev \<noteq> ScreenSetChanged a r" "list_ex (\<lambda>t. sid t = me) removed"
proof -
  let ?pre = "header_events (profile_of this) (profile_of tgt) @
    concat (map (match_events (screens_of this)) (screens_of tgt))"
  let ?added = "screens_without (screens_of tgt) (screens_of this)"
  let ?removed = "screens_without (screens_of this) (screens_of tgt)"
  have r: "list_ex (\<lambda>t. sid t = me) ?removed"
    using assms(2,3) by (auto simp: has_screen_iff screens_without_def list_ex_iff)
  then have "?removed \<noteq> []"
    by auto
  then have "evs = ?pre @ ScreenSetChanged ?added ?removed # map ScreenOnline (filter sactive ?added)" "d"
    using assms(1,4) by (auto simp: compare_def set_events_def Let_def split: if_splits)
  moreover have "\<forall>ev\<in>set ?pre. \<forall>a r. ev \<noteq> ScreenSetChanged a r"
    by (auto simp: header_events_def match_events_def screen_events_def split: if_splits)
  ultimately show thesis
    using r that by blast
qed

lemma apply_remote_removed:
  assumes "apply_remote w luck s = (None, s')" "has_screen (screenId (sv_user s)) (sv_local s)"
    "\<not> has_screen (screenId (sv_user s)) (sv_remote s)"
    "profile_version (profile_of (sv_local s)) \<le> profile_version (profile_of (sv_remote s))"
  shows "logged_out s s' \<and> sv_local s' = sv_remote s"
proof -
  obtain d evs where cmp: "compare (sv_local s) (sv_remote s) = (d, evs)"
    by fastforce
  obtain pre added removed where d: d
    and evs: "evs = pre @ ScreenSetChanged added removed # map ScreenOnline (filter sactive added)"
    and pre: "\<forall>ev\<in>set pre. \<forall>a r. ev \<noteq> ScreenSetChanged a r"
    and rem: "list_ex (\<lambda>t. sid t = screenId (sv_user s)) removed"
    using compare_set_changed [OF cmp assms(2-4)] by metis
  obtain t where t: "s_each (local_signal w luck) evs s = (None, t)"
    and s': "s' = t\<lparr>sv_core := (sv_core t)\<lparr>local_profile := sv_remote s\<rparr>\<rparr>"
    using assms(1) d by (auto simp: apply_remote_def cmp Let_def sthen_None change_local_def)
  obtain s1 s2 where s1: "s_each (local_signal w luck) pre s = (None, s1)"
    and s2: "local_signal w luck (ScreenSetChanged added removed) s1 = (None, s2)"
    and s3: "s_each (local_signal w luck) (map ScreenOnline (filter sactive added)) s2 = (None, t)"
    using t unfolding evs s_each_append by (auto simp: sthen_None)
  have u1: "undisturbed s s1"
    using local_signals_undisturbed [OF s1] pre by blast
  obtain s1' where u1': "undisturbed s1 s1'"
    "worker_slot w luck (ScreenSetChanged added removed) s1' = (None, s2)"
    using slots_before_worker [of s1 w luck "ScreenSetChanged added removed"] s2 by metis
  have me: "sv_user s1' = sv_user s"
    using u1 u1'(1) by (simp add: undisturbed_def)
  have "local_removed w luck s1' = (None, s2)"
    using u1'(2) rem by (simp add: worker_slot_def Let_def me)
  then have "logged_out s1' s2"
    by (rule local_removed_result)
  moreover have "undisturbed s2 t"
    using local_signals_undisturbed [OF s3] by fastforce
  ultimately have "logged_out s t"
    using logged_out_undisturbed undisturbed_trans [OF u1 u1'(1)] by blast
  then show ?thesis
    by (simp add: logged_out_def s')
qed

text \<open>C24. A snapshot that no longer contains this computer logs it out: the core is disabled, the
  websocket and the router are shut down, the settings of the login are reset and saved, and the
  configuration program is told. But the local profile, which the slot clears, is then overwritten
  with the snapshot, and the session keeps the headers of the old login for later attempts.\<close>

theorem removal_logs_out_and_keeps_the_profile:
  assumes "read_text (w_parse_json w) read_profile_config json = Inr snap" "from_snapshot snap = Some p"
    and "has_screen (screenId (sv_user s)) (sv_local s)" "\<not> has_screen (screenId (sv_user s)) p"
    and "profile_version (profile_of (sv_local s)) \<le> profile_version (profile_of p)"
    and "on_websocket_message w luck json s = (None, s')"
  shows "screenId (sv_user s') = -1 \<and> profileId (sv_user s') = -1 \<and> userToken (sv_user s') = '''' \<and>
    disabled (sv_core s') \<and> \<not> isWebsocketConnected (sv_link s') \<and>
    RouterShutdown \<in> set (sv_out s') \<and> SettingsSaved (sv_user s') \<in> set (sv_out s') \<and>
    Publish ''synergy.auth.logout'' NoArg \<in> set (sv_out s') \<and>
    sv_local s' = p \<and> ws_headers (l_ws (sv_link s')) = ws_headers (l_ws (sv_link s))"
proof -
  define t where "t = s\<lparr>sv_remote := p, sv_snapshot := json,
    sv_out := sv_out s @ [Publish ''synergy.profile.snapshot'' (TextArg json)]\<rparr>"
  obtain t' where t': "apply_remote w luck t = (None, t')"
    "s' = t'\<lparr>sv_ip := ip_start (sv_ip t')\<rparr>"
    using assms(6,3,4) by (auto simp: on_websocket_message_def assms(1,2) sthen_None say_def Let_def t_def)
  have "logged_out t t' \<and> sv_local t' = sv_remote t"
    using apply_remote_removed [OF t'(1)] assms(3-5) by (simp add: t_def)
  then show ?thesis
    unfolding t'(2) by (simp add: logged_out_def t_def)
qed

text \<open>A text that says nothing of the kind is dropped: no signal, no change.\<close>

lemma no_snapshot_no_effect:
  assumes "\<And>v c. w_parse_json w json = Some v \<Longrightarrow> \<not> says_profile_config v c"
  shows "on_websocket_message w luck json s = (None, s)"
proof -
  have "\<nexists>c. read_text (w_parse_json w) read_profile_config json = Inr c"
    using assms by (auto simp: snapshot_reading)
  then obtain e where "read_text (w_parse_json w) read_profile_config json = Inl e"
    by (meson old.sum.exhaust)
  then show ?thesis
    by (simp add: on_websocket_message_def sdone_def)
qed

definition empty_profile_value :: jvalue where
  "empty_profile_value =
     JObject [''profile'' \<mapsto> JObject [''id'' \<mapsto> JUnsigned 3, ''name'' \<mapsto> JString ''default'',
                ''server'' \<mapsto> JUnsigned 4, ''configVersion'' \<mapsto> JUnsigned 8, ''color'' \<mapsto> JNull],
              ''screens'' \<mapsto> JArray []]"

definition empty_profile_snapshot :: profile_config_snapshot where
  "empty_profile_snapshot =
     \<lparr>pcs_profile = \<lparr>ps_id = 3, ps_name = ''default'', ps_server = 4, ps_configVersion = 8\<rparr>,
      pcs_screens = []\<rparr>"

definition sample_world :: world where
  "sample_world =
     \<lparr>w_env = \<lparr>platform = Linux, profileDir = ''p'', installDir = ''i'', systemLogDir = ''l'',
               slash = (\<lambda>a b. a @ ''/'' @ b), parent_path = (\<lambda>x. x)\<rparr>,
      w_spawns = (\<lambda>_. True), w_to_port = (\<lambda>_. None), w_version = ''2.0'',
      w_parse_ip = (\<lambda>a. if a = '''' then None else Some a),
      w_parse_json = (\<lambda>_. Some empty_profile_value)\<rparr>"

definition sample_service :: service where
  "sample_service =
     \<lparr>sv_core = (init_core (some_login\<lparr>screenId := 9\<rparr>))\<lparr>local_profile :=
        \<lparr>profile_of = \<lparr>profile_id = 3, profile_version = 7, profile_server = 9, profile_name = ''default''\<rparr>,
         screens_of = [(new_screen 9)\<lparr>sactive := True\<rparr>]\<rparr>\<rparr>,
      sv_remote = init_profile_config, sv_link = new_cloud_link, sv_snapshot = '''',
      sv_reach = init_reach, sv_tray = init_tray, sv_ip = init_ip_monitor, sv_posted = [], sv_out = []\<rparr>"

lemma empty_profile_value_says: "says_profile_config empty_profile_value empty_profile_snapshot"
  by (simp add: says_profile_config_def says_profile_def says_array_def member_says_def says_within_def
      empty_profile_value_def empty_profile_snapshot_def)

theorem removal_logs_out_and_keeps_the_profile_witness:
  "\<exists>s'. on_websocket_message sample_world (True, 0) ''{}'' sample_service = (None, s') \<and>
     screenId (sv_user s') = -1 \<and> disabled (sv_core s') \<and> profile_version (profile_of (sv_local s')) = 8"
proof -
  have "fst (on_websocket_message sample_world (True, 0) ''{}'' sample_service) = None"
    by code_simp
  then obtain s' where s': "on_websocket_message sample_world (True, 0) ''{}'' sample_service = (None, s')"
    by (metis prod.collapse)
  define p where "p = \<lparr>profile_of = \<lparr>profile_id = 3, profile_version = 8, profile_server = 4,
    profile_name = ''default''\<rparr>, screens_of = []\<rparr>"
  have p: "from_snapshot empty_profile_snapshot = Some p"
    by (simp add: p_def from_snapshot_def empty_profile_snapshot_def Let_def)
  have j: "read_text (w_parse_json sample_world) read_profile_config ''{}'' = Inr empty_profile_snapshot"
    by (simp add: snapshot_reading sample_world_def empty_profile_value_says)
  have h: "has_screen (screenId (sv_user sample_service)) (sv_local sample_service)"
      "\<not> has_screen (screenId (sv_user sample_service)) p"
    by (simp_all add: has_screen_iff sample_service_def init_core_def new_screen_def p_def)
  have v: "profile_version (profile_of (sv_local sample_service)) \<le> profile_version (profile_of p)"
    by (simp add: sample_service_def p_def)
  from removal_logs_out_and_keeps_the_profile [OF j p h v s'] s' show ?thesis
    by (simp add: p_def)
qed

section \<open>A screen without addresses\<close>

text \<open>When another computer comes online whose list of addresses is empty, as it is until that
  computer has reported them, the slot posts the addition of a peer with the empty address. If the
  library rejects the empty text, as it does any text that is no address, the exception ends the
  service as soon as the posted function runs.\<close>

theorem online_without_addresses_ends_the_service:
  assumes "w_parse_ip w '''' = None" "sid scr \<noteq> screenId (sv_user s)" "sip_list scr = ''''"
    "sv_posted s = []"
  shows "\<exists>s'. local_signal w luck (ScreenOnline scr) s = (None, s') \<and>
    fst (service_step w luck' Posted_Peers s') = Some AddressEnd"
proof -
  have "\<exists>s'. local_signal w luck (ScreenOnline scr) s = (None, s') \<and> sv_posted s' = [['''']]"
    using assms(2-4)
    by (simp add: local_signal_def sthen_def on_core_post worker_slot_def)
  then show ?thesis
    using assms(1) by (auto simp: service_step_def add_peers_def sthen_def peer_from_text_def)
qed

theorem online_without_addresses_ends_the_service_witness:
  "\<exists>s'. local_signal sample_world (True, 0) (ScreenOnline (new_screen 4)) sample_service = (None, s') \<and>
     fst (service_step sample_world (True, 0) Posted_Peers s') = Some AddressEnd"
  by (rule online_without_addresses_ends_the_service)
    (simp_all add: sample_world_def sample_service_def new_screen_def init_core_def)

end
