(* ===== verification/Rpc.thy ===== *)
theory Rpc
  imports Service
begin

text \<open>
  Remote procedure calls between the programs: the client that the configuration program and the
  tray use (\<open>common/WampClient.cpp\<close>, \<open>common/WampClient.h\<close>), and the start of the router and of the
  session of the service that provides the calls (\<open>common/RpcManager.cpp\<close>, \<open>common/WampRouter.cpp\<close>,
  \<open>common/WampServer.cpp\<close>). The protocol belongs to a library: the end of each of its operations,
  good or bad, is an input. A call is a value of \<open>rpc_call\<close>, with the name and the arguments of the
  code. Events of the client are outputs, which the programs hand to their slots.
\<close>

section \<open>Calls\<close>

datatype rpc_call =
    KeepAlive | Hello | SetUid string | CloudRetry | SnapshotRequest | ServerClaimCall int
  | ServiceRestart | LogConfig string | LogTray string
  | AuthUpdate int int int string | ProxyUpdate string string
  | TrayHello | TrayPing | TrayGoodbye | PauseCall | ResumeCall

fun rpc_name :: "rpc_call \<Rightarrow> string" where
  "rpc_name KeepAlive = ''synergy.keepalive''"
| "rpc_name Hello = ''synergy.hello''"
| "rpc_name (SetUid u) = ''synergy.core.set_uid''"
| "rpc_name CloudRetry = ''synergy.cloud.retry''"
| "rpc_name SnapshotRequest = ''synergy.snapshot.request''"
| "rpc_name (ServerClaimCall i) = ''synergy.server.claim''"
| "rpc_name ServiceRestart = ''synergy.service.restart''"
| "rpc_name (LogConfig l) = ''synergy.log.config''"
| "rpc_name (LogTray l) = ''synergy.log.tray''"
| "rpc_name (AuthUpdate u s p t) = ''synergy.auth.update''"
| "rpc_name (ProxyUpdate k h) = ''synergy.network.proxy.update''"
| "rpc_name TrayHello = ''synergy.tray.hello''"
| "rpc_name TrayPing = ''synergy.tray.ping''"
| "rpc_name TrayGoodbye = ''synergy.tray.goodbye''"
| "rpc_name PauseCall = ''synergy.pause''"
| "rpc_name ResumeCall = ''synergy.resume''"

text \<open>What a call is to the service; the calls that it only answers or logs have no step there.\<close>

fun service_input_of :: "rpc_call \<Rightarrow> service_input option" where
  "service_input_of Hello = Some Call_Hello"
| "service_input_of (SetUid u) = Some (Call_Set_Uid u)"
| "service_input_of CloudRetry = Some Call_Retry"
| "service_input_of SnapshotRequest = Some Call_Snapshot"
| "service_input_of (ServerClaimCall i) = Some (Call_Claim i)"
| "service_input_of ServiceRestart = Some Call_Restart"
| "service_input_of (AuthUpdate u s p t) = Some (Call_Auth u s p t)"
| "service_input_of (ProxyUpdate k h) = Some (Call_Proxy k h)"
| "service_input_of TrayHello = Some Call_Tray_Hello"
| "service_input_of TrayPing = Some Call_Tray_Ping"
| "service_input_of TrayGoodbye = Some Call_Tray_Goodbye"
| "service_input_of PauseCall = Some Call_Pause"
| "service_input_of ResumeCall = Some Call_Resume"
| "service_input_of KeepAlive = None"
| "service_input_of (LogConfig l) = None"
| "service_input_of (LogTray l) = None"

section \<open>The client\<close>

text \<open>The operation of the library that is under way.\<close>

datatype rpc_phase =
    NoPhase | TransportConnecting | SessionStarting | SessionJoining
  | SessionLeaving | SessionStopping | TransportClosing

datatype rpc_event =
    RpcConnecting
  | RpcConnected
  | RpcDisconnected bool
  | RpcCall rpc_call

record wamp_client =
  wc_connected :: bool
  wc_session :: bool
  wc_transport :: bool
  wc_phase :: rpc_phase
  wc_keepAliveTimer :: bool
  wc_calls :: "rpc_call list"
  wc_events :: "rpc_event list"

definition new_wamp_client :: wamp_client where
  "new_wamp_client =
     \<lparr>wc_connected = False, wc_session = False, wc_transport = False, wc_phase = NoPhase,
      wc_keepAliveTimer = False, wc_calls = [], wc_events = []\<rparr>"

definition wc_emit :: "rpc_event \<Rightarrow> wamp_client \<Rightarrow> wamp_client" where
  "wc_emit x w = w\<lparr>wc_events := wc_events w @ [x]\<rparr>"

text \<open>The signal \<open>disconnected\<close>, with the client's own slot, which is its first one.\<close>

definition wc_disconnected :: "bool \<Rightarrow> wamp_client \<Rightarrow> wamp_client" where
  "wc_disconnected wanted w =
     wc_emit (RpcDisconnected wanted) (w\<lparr>wc_connected := False, wc_keepAliveTimer := False\<rparr>)"

text \<open>A call before there is a session is undefined: the session is a null pointer.\<close>

definition wc_call :: "rpc_call \<Rightarrow> wamp_client \<Rightarrow> wamp_client option" where
  "wc_call x w =
     (if wc_session w then Some (wc_emit (RpcCall x) (w\<lparr>wc_calls := wc_calls w @ [x]\<rparr>)) else None)"

definition wc_connect :: "wamp_client \<Rightarrow> wamp_client" where
  "wc_connect w =
     (if wc_connected w then w
      else (wc_emit RpcConnecting (w\<lparr>wc_session := True, wc_transport := True\<rparr>))
             \<lparr>wc_phase := TransportConnecting, wc_keepAliveTimer := True\<rparr>)"

definition wc_disconnect :: "wamp_client \<Rightarrow> wamp_client" where
  "wc_disconnect w =
     (if \<not> wc_connected w then w
      else (let w1 = wc_disconnected True (w\<lparr>wc_connected := False\<rparr>)
            in if wc_session w1 then w1\<lparr>wc_phase := SessionLeaving\<rparr> else w1))"

text \<open>The end of the operation under way. When leaving fails, the rest is not done.\<close>

definition wc_phase_done :: "bool \<Rightarrow> wamp_client \<Rightarrow> wamp_client" where
  "wc_phase_done good w =
     (case wc_phase w of
        NoPhase \<Rightarrow> w
      | TransportConnecting \<Rightarrow>
          if good then w\<lparr>wc_phase := SessionStarting\<rparr> else wc_disconnected False (w\<lparr>wc_phase := NoPhase\<rparr>)
      | SessionStarting \<Rightarrow>
          if good then w\<lparr>wc_phase := SessionJoining\<rparr> else wc_disconnected False (w\<lparr>wc_phase := NoPhase\<rparr>)
      | SessionJoining \<Rightarrow>
          if good then wc_emit RpcConnected (w\<lparr>wc_phase := NoPhase, wc_connected := True\<rparr>)
          else wc_disconnected False (w\<lparr>wc_phase := NoPhase\<rparr>)
      | SessionLeaving \<Rightarrow> w\<lparr>wc_phase := (if good then SessionStopping else NoPhase)\<rparr>
      | SessionStopping \<Rightarrow>
          if \<not> good then w\<lparr>wc_phase := NoPhase\<rparr>
          else if wc_transport w then w\<lparr>wc_phase := TransportClosing\<rparr>
          else w\<lparr>wc_phase := NoPhase, wc_session := False\<rparr>
      | TransportClosing \<Rightarrow>
          if good then w\<lparr>wc_phase := NoPhase, wc_transport := False\<rparr> else w\<lparr>wc_phase := NoPhase\<rparr>)"

text \<open>The answer to a call; one that failed counts as the loss of the connection.\<close>

definition wc_call_done :: "nat \<Rightarrow> bool \<Rightarrow> wamp_client \<Rightarrow> wamp_client" where
  "wc_call_done k good w =
     (if k < length (wc_calls w)
      then (let w1 = w\<lparr>wc_calls := take k (wc_calls w) @ drop (Suc k) (wc_calls w)\<rparr>
            in if good then w1 else wc_disconnected False w1)
      else w)"

text \<open>The timer of \<open>keepAlive\<close>: the flag says whether it ended without an error.\<close>

definition wc_keepAlive :: "bool \<Rightarrow> wamp_client \<Rightarrow> wamp_client option" where
  "wc_keepAlive good w =
     (if \<not> wc_keepAliveTimer w then Some w
      else
        (let w1 = w\<lparr>wc_keepAliveTimer := False\<rparr> in
         if \<not> good \<or> \<not> wc_connected w1 then Some w1
         else map_option (\<lambda>w2. w2\<lparr>wc_keepAliveTimer := True\<rparr>) (wc_call KeepAlive w1)))"

datatype rpc_input =
    RpcConnect | RpcDisconnect | RpcPhase bool | RpcAnswer nat bool | RpcKeepAlive bool
  | RpcDo rpc_call

definition wamp_step :: "rpc_input \<Rightarrow> wamp_client \<Rightarrow> wamp_client option" where
  "wamp_step i w =
     (case i of
        RpcConnect \<Rightarrow> Some (wc_connect w)
      | RpcDisconnect \<Rightarrow> Some (wc_disconnect w)
      | RpcPhase good \<Rightarrow> Some (wc_phase_done good w)
      | RpcAnswer k good \<Rightarrow> Some (wc_call_done k good w)
      | RpcKeepAlive good \<Rightarrow> wc_keepAlive good w
      | RpcDo x \<Rightarrow> wc_call x w)"

section \<open>The side of the service\<close>

text \<open>The router listens; it is then that the session of the service connects to it. The procedure
  of the keep-alive is provided last; an operation that fails leaves the session as it is.\<close>

datatype server_phase = ServerIdle | ServerConnecting | ServerStarting | ServerJoining | ServerJoined

record rpc_manager =
  rm_routing :: bool
  rm_posted :: nat
  rm_transport :: bool
  rm_phase :: server_phase
  rm_provided :: "string list"
  rm_ready :: nat

definition new_rpc_manager :: rpc_manager where
  "new_rpc_manager =
     \<lparr>rm_routing = False, rm_posted = 0, rm_transport = False, rm_phase = ServerIdle,
      rm_provided = [], rm_ready = 0\<rparr>"

definition router_start :: "rpc_manager \<Rightarrow> rpc_manager" where
  "router_start m = m\<lparr>rm_routing := True, rm_posted := rm_posted m + 1\<rparr>"

definition server_start :: "rpc_manager \<Rightarrow> rpc_manager" where
  "server_start m = m\<lparr>rm_transport := True, rm_phase := ServerConnecting\<rparr>"

definition server_phase_done :: "bool \<Rightarrow> rpc_manager \<Rightarrow> rpc_manager" where
  "server_phase_done good m =
     (if \<not> good then m
      else
        (case rm_phase m of
           ServerConnecting \<Rightarrow> m\<lparr>rm_phase := ServerStarting\<rparr>
         | ServerStarting \<Rightarrow> m\<lparr>rm_phase := ServerJoining\<rparr>
         | ServerJoining \<Rightarrow>
             m\<lparr>rm_phase := ServerJoined, rm_provided := rm_provided m @ [''synergy.keepalive''],
               rm_ready := rm_ready m + 1\<rparr>
         | _ \<Rightarrow> m))"

datatype manager_input = RouterUp | PostedStart | ServerPhase bool | RouterDown

definition rpc_manager_step :: "manager_input \<Rightarrow> rpc_manager \<Rightarrow> rpc_manager" where
  "rpc_manager_step i m =
     (case i of
        RouterUp \<Rightarrow> router_start m
      | PostedStart \<Rightarrow>
          (if 0 < rm_posted m then server_start (m\<lparr>rm_posted := rm_posted m - 1\<rparr>) else m)
      | ServerPhase good \<Rightarrow> server_phase_done good m
      | RouterDown \<Rightarrow> m\<lparr>rm_routing := False\<rparr>)"

section \<open>Programs that use the client\<close>

text \<open>A client that has been connected once keeps its session, so that no call is undefined.\<close>

definition rpc_ok :: "wamp_client \<Rightarrow> bool" where
  "rpc_ok w \<longleftrightarrow> wc_session w \<and> (wc_connected w \<longrightarrow> wc_transport w) \<and>
     (wc_phase w \<noteq> NoPhase \<longrightarrow> wc_transport w \<and> \<not> wc_connected w)"

text \<open>The last signal about the connection says whether there is one.\<close>

definition signalled :: "rpc_event list \<Rightarrow> bool" where
  "signalled es = fold (\<lambda>x b. case x of RpcConnected \<Rightarrow> True | RpcDisconnected w \<Rightarrow> False | _ \<Rightarrow> b) es False"

definition signals_agree :: "wamp_client \<Rightarrow> bool" where
  "signals_agree w \<longleftrightarrow> wc_connected w = signalled (wc_events w)"

lemma signalled_append [simp]:
  "signalled [] = False" "signalled (es @ [RpcConnected]) = True"
  "signalled (es @ [RpcDisconnected b]) = False" "signalled (es @ [RpcConnecting]) = signalled es"
  "signalled (es @ [RpcCall x]) = signalled es"
  by (simp_all add: signalled_def)

lemmas wamp_defs = wc_connect_def wc_disconnect_def wc_phase_done_def wc_call_done_def wc_keepAlive_def
  wc_call_def wc_disconnected_def wc_emit_def

lemma wamp_connect_ok: "rpc_ok (wc_connect new_wamp_client)"
  by (simp add: rpc_ok_def wamp_defs new_wamp_client_def)

lemma wamp_step_ok:
  assumes "rpc_ok w"
  shows "\<exists>w'. wamp_step i w = Some w' \<and> rpc_ok w'"
  using assms
  by (cases i)
    (auto simp: wamp_step_def rpc_ok_def wamp_defs Let_def split: rpc_phase.splits)

lemma wamp_step_signals:
  assumes "wamp_step i w = Some w'" "signals_agree w" "rpc_ok w"
  shows "signals_agree w'"
  using assms
  by (cases i)
    (auto simp: wamp_step_def rpc_ok_def signals_agree_def wamp_defs Let_def
      split: rpc_phase.splits if_splits)

text \<open>The steps that a program makes with its client, in one of its own.\<close>

inductive wamp_steps :: "wamp_client \<Rightarrow> wamp_client \<Rightarrow> bool" where
  Refl: "wamp_steps w w"
| More: "wamp_steps w w' \<Longrightarrow> wamp_step i w' = Some w'' \<Longrightarrow> wamp_steps w w''"

lemma wamp_steps_ok: "wamp_steps w w' \<Longrightarrow> rpc_ok w \<Longrightarrow> rpc_ok w'"
proof (induction rule: wamp_steps.induct)
  case (More w w' i w'')
  then show ?case
    using wamp_step_ok [of w' i] by simp
qed

lemma wamp_steps_signals:
  "wamp_steps w w' \<Longrightarrow> rpc_ok w \<Longrightarrow> signals_agree w \<Longrightarrow> signals_agree w'"
  by (induction rule: wamp_steps.induct) (auto intro: wamp_step_signals wamp_steps_ok)

lemma wamp_steps_trans: "wamp_steps v w \<Longrightarrow> wamp_steps u v \<Longrightarrow> wamp_steps u w"
  by (induction rule: wamp_steps.induct) (auto intro: wamp_steps.intros)

lemma wamp_steps_one: "wamp_step i w = Some w' \<Longrightarrow> wamp_steps w w'"
  by (rule wamp_steps.More [OF wamp_steps.Refl])

text \<open>A program whose steps use the client through its operations only, and that can only fail for
  the lack of a session, never fails once it has connected.\<close>

locale rpc_user =
  fixes rpc :: "'s \<Rightarrow> wamp_client" and step :: "'i \<Rightarrow> 's \<Rightarrow> 's option"
  assumes uses_client: "step i s = Some s' \<Longrightarrow> wamp_steps (rpc s) (rpc s')"
    and needs_session: "rpc_ok (rpc s) \<Longrightarrow> step i s \<noteq> None"
begin

fun run_all :: "'i list \<Rightarrow> 's \<Rightarrow> 's option" where
  "run_all [] s = Some s"
| "run_all (i # is) s = Option.bind (step i s) (run_all is)"

lemma run_defined:
  assumes "rpc_ok (rpc s)"
  shows "\<exists>s'. run_all is s = Some s' \<and> rpc_ok (rpc s')"
  using assms
proof (induction "is" arbitrary: s)
  case (Cons i "is")
  obtain s1 where s1: "step i s = Some s1"
    using needs_session [OF Cons.prems, of i] by auto
  then have "rpc_ok (rpc s1)"
    using uses_client wamp_steps_ok Cons.prems by blast
  then show ?case
    using Cons.IH s1 by simp
qed simp

lemma run_signals:
  assumes "rpc_ok (rpc s)" "signals_agree (rpc s)" "run_all is s = Some s'"
  shows "signals_agree (rpc s')"
  using assms
proof (induction "is" arbitrary: s)
  case (Cons i "is")
  obtain s1 where s1: "step i s = Some s1" "run_all is s1 = Some s'"
    using Cons.prems(3) by (auto simp: bind_eq_Some_conv)
  then show ?case
    using Cons uses_client wamp_steps_ok wamp_steps_signals by blast
qed simp

end

end
