(* ===== verification/Tray.thy ===== *)
theory Tray
  imports Rpc
begin

text \<open>
  The tray program: its connection to the service (\<open>tray/Controls.cpp\<close>) and its menu
  (\<open>tray/Tray.cpp\<close>). When the connection comes up it says hello; the service answers whether another
  tray is there already and whether the core is disabled. The loss of the connection ends the
  program at once. The status is queued from the thread of the calls to that of the menu.
\<close>

section \<open>State\<close>

record tray_program =
  tp_rpc :: wamp_client
  tp_rpcLogger :: bool
  tp_pingTimer :: bool
  tp_ready :: bool
  tp_subscribed :: bool
  tp_controlsReady :: bool
  tp_queue :: "bool list"
  tp_disableAction :: bool
  tp_enableAction :: bool
  tp_threadEnded :: bool
  tp_exit :: "int option"

definition EXIT_FAILURE :: int where "EXIT_FAILURE = 1"

definition new_tray_program :: tray_program where
  "new_tray_program =
     \<lparr>tp_rpc = new_wamp_client, tp_rpcLogger = False, tp_pingTimer = False, tp_ready = False,
      tp_subscribed = False, tp_controlsReady = False, tp_queue = [], tp_disableAction = True,
      tp_enableAction = True, tp_threadEnded = False, tp_exit = None\<rparr>"

section \<open>Calls\<close>

definition tp_call :: "rpc_call \<Rightarrow> tray_program \<Rightarrow> tray_program option" where
  "tp_call x t = map_option (\<lambda>w. t\<lparr>tp_rpc := w\<rparr>) (wc_call x (tp_rpc t))"

text \<open>A line of the log goes to the service as well, while the logger is the one that does so.\<close>

definition tp_log :: "string \<Rightarrow> tray_program \<Rightarrow> tray_program option" where
  "tp_log line t =
     (if tp_rpcLogger t \<and> wc_connected (tp_rpc t) then tp_call (LogTray line) t else Some t)"

definition tp_pause :: "tray_program \<Rightarrow> tray_program option" where
  "tp_pause t = tp_call PauseCall t"

definition tp_resume :: "tray_program \<Rightarrow> tray_program option" where
  "tp_resume t = tp_call ResumeCall t"

section \<open>The connection\<close>

definition tp_connected :: "tray_program \<Rightarrow> tray_program option" where
  "tp_connected t = tp_call TrayHello (t\<lparr>tp_rpcLogger := True\<rparr>)"

definition tp_disconnected :: "tray_program \<Rightarrow> tray_program" where
  "tp_disconnected t = t\<lparr>tp_rpcLogger := False, tp_pingTimer := False, tp_exit := Some EXIT_FAILURE\<rparr>"

definition tp_event :: "rpc_event \<Rightarrow> tray_program \<Rightarrow> tray_program option" where
  "tp_event x t =
     (if tp_exit t \<noteq> None then Some t
      else
        (case x of
           RpcConnected \<Rightarrow> tp_connected t
         | RpcDisconnected wanted \<Rightarrow> Some (tp_disconnected t)
         | _ \<Rightarrow> Some t))"

fun tp_events :: "rpc_event list \<Rightarrow> tray_program \<Rightarrow> tray_program option" where
  "tp_events [] t = Some t"
| "tp_events (x # xs) t = Option.bind (tp_event x t) (tp_events xs)"

definition tp_wamp :: "rpc_input \<Rightarrow> tray_program \<Rightarrow> tray_program option" where
  "tp_wamp i t =
     Option.bind (wamp_step i (tp_rpc t))
       (\<lambda>w. tp_events (drop (length (wc_events (tp_rpc t))) (wc_events w)) (t\<lparr>tp_rpc := w\<rparr>))"

text \<open>Before the service has accepted the tray there is nobody to say goodbye to.\<close>

definition tp_shutdown :: "tray_program \<Rightarrow> tray_program option" where
  "tp_shutdown t =
     (let t1 = t\<lparr>tp_pingTimer := False\<rparr> in
      if \<not> tp_ready t1 then tp_wamp RpcDisconnect t1 else tp_call TrayGoodbye t1)"

definition tp_status :: "bool \<Rightarrow> tray_program \<Rightarrow> tray_program" where
  "tp_status off t = t\<lparr>tp_queue := tp_queue t @ [off]\<rparr>"

definition tp_hello_answer :: "bool \<Rightarrow> bool \<Rightarrow> tray_program \<Rightarrow> tray_program option" where
  "tp_hello_answer kill off t =
     (if kill then Option.bind (tp_log ''Received kill command from service.'' t) tp_shutdown
      else Some (tp_status off
             (t\<lparr>tp_ready := True, tp_subscribed := True, tp_pingTimer := True, tp_controlsReady := True\<rparr>)))"

definition tp_goodbye_answer :: "tray_program \<Rightarrow> tray_program option" where
  "tp_goodbye_answer t = tp_wamp RpcDisconnect (t\<lparr>tp_ready := False\<rparr>)"

text \<open>An answer to a call: first the client takes note, then the continuation of the call runs.\<close>

definition tp_answer :: "nat \<Rightarrow> bool \<Rightarrow> bool \<Rightarrow> bool \<Rightarrow> tray_program \<Rightarrow> tray_program option" where
  "tp_answer k good kill off t =
     (if k < length (wc_calls (tp_rpc t))
      then
        (let x = wc_calls (tp_rpc t) ! k in
         Option.bind (tp_wamp (RpcAnswer k good) t)
           (\<lambda>t1. if \<not> good \<or> tp_exit t1 \<noteq> None then Some t1
                 else if x = TrayHello then tp_hello_answer kill off t1
                 else if x = TrayGoodbye then tp_goodbye_answer t1
                 else Some t1))
      else Some t)"

text \<open>The timer of the ping loop; an error other than the cancellation ends the loop by an exception, and
  with it the thread of the calls.\<close>

definition tp_ping :: "bool \<Rightarrow> tray_program \<Rightarrow> tray_program option" where
  "tp_ping good t =
     (if \<not> tp_pingTimer t then Some t
      else if \<not> good
      then map_option (\<lambda>t1. t1\<lparr>tp_rpcLogger := False, tp_threadEnded := True\<rparr>) (tp_shutdown t)
      else tp_call TrayPing t)"

section \<open>The menu\<close>

definition onCoreDisabled :: "bool \<Rightarrow> tray_program \<Rightarrow> tray_program" where
  "onCoreDisabled off t =
     (if off then t\<lparr>tp_disableAction := False, tp_enableAction := True\<rparr>
      else t\<lparr>tp_disableAction := True, tp_enableAction := False\<rparr>)"

definition enableCore :: "tray_program \<Rightarrow> tray_program option" where
  "enableCore t = tp_resume t"

definition disableCore :: "tray_program \<Rightarrow> tray_program option" where
  "disableCore t = tp_pause t"

datatype tray_input =
    TrayConnect
  | TrayRpc bool
  | TrayAnswered nat bool bool bool
  | TrayKeepAlive bool
  | TrayPingTimer bool
  | CoreDisabledPublished bool
  | MenuTurn
  | EnableClicked
  | DisableClicked
  | TrayQuit

text \<open>A program that has exited does nothing. Without the thread of the calls only the menu goes on.\<close>

definition tray_step :: "tray_input \<Rightarrow> tray_program \<Rightarrow> tray_program option" where
  "tray_step i t =
     (if tp_exit t \<noteq> None then Some t
      else
        (case i of
           MenuTurn \<Rightarrow>
             (case tp_queue t of
                [] \<Rightarrow> Some t
              | off # rest \<Rightarrow> Some (onCoreDisabled off (t\<lparr>tp_queue := rest\<rparr>)))
         | _ \<Rightarrow>
             if tp_threadEnded t then Some t
             else
               (case i of
                  TrayConnect \<Rightarrow> tp_wamp RpcConnect t
                | TrayRpc good \<Rightarrow> tp_wamp (RpcPhase good) t
                | TrayAnswered k good kill off \<Rightarrow> tp_answer k good kill off t
                | TrayKeepAlive good \<Rightarrow> tp_wamp (RpcKeepAlive good) t
                | TrayPingTimer good \<Rightarrow> tp_ping good t
                | CoreDisabledPublished off \<Rightarrow> Some (if tp_subscribed t then tp_status off t else t)
                | MenuTurn \<Rightarrow> Some t
                | EnableClicked \<Rightarrow> enableCore t
                | DisableClicked \<Rightarrow> disableCore t
                | TrayQuit \<Rightarrow> tp_shutdown t)))"

fun tray_run :: "tray_input list \<Rightarrow> tray_program \<Rightarrow> tray_program option" where
  "tray_run [] t = Some t"
| "tray_run (i # is) t = Option.bind (tray_step i t) (tray_run is)"

end
