(* ===== verification/AppState.thy ===== *)
theory AppState
  imports Screens "HOL-Library.Char_ord"
begin

text \<open>
  What the configuration program keeps beside the screens: the saved login
  (\<open>config/lib/AppConfig.cpp\<close>), the version check (\<open>config/lib/VersionManager.cpp\<close>), the error page
  (\<open>config/lib/ErrorView.cpp\<close>), the list of the profiles (\<open>config/lib/ProfileListModel.cpp\<close>) and the
  last lines of the log (\<open>config/lib/LogManager.cpp\<close>). The settings store is a record whose absent
  entries are \<open>None\<close>. A parsed JSON document is a value of the type \<open>qjson\<close>; the conversions give the
  default values of the library where the value has another type.
\<close>

section \<open>Numbers and JSON values\<close>

text \<open>The conversion of a 64-bit number to the 32-bit parameter of a setter.\<close>

definition to_int32 :: "int \<Rightarrow> int" where
  "to_int32 i = signed_take_bit 31 i"

definition int32_range :: "int \<Rightarrow> bool" where
  "int32_range i \<longleftrightarrow> - (2 ^ 31) \<le> i \<and> i < 2 ^ 31"

lemma to_int32_in_range [simp]: "int32_range (to_int32 i)"
  using signed_take_bit_int_greater_eq_minus_exp [of 31 i] signed_take_bit_int_less_exp [of 31 i]
  by (simp add: to_int32_def int32_range_def)

lemma to_int32_id [simp]: "int32_range i \<Longrightarrow> to_int32 i = i"
  by (simp add: to_int32_def int32_range_def signed_take_bit_int_eq_self)

lemma int32_range_small [simp]: "int32_range (-1)" "int32_range 0"
  by (simp_all add: int32_range_def)

datatype qjson =
    QNull
  | QBool bool
  | QWhole int
  | QFraction
  | QText string
  | QArray "qjson list"
  | QObject "(string \<times> qjson) list"

fun toInt :: "qjson option \<Rightarrow> int" where
  "toInt (Some (QWhole n)) = (if int32_range n then n else 0)"
| "toInt _ = 0"

fun toText :: "qjson option \<Rightarrow> string" where
  "toText (Some (QText t)) = t"
| "toText _ = ''''"

fun toBool :: "qjson option \<Rightarrow> bool" where
  "toBool (Some (QBool b)) = b"
| "toBool _ = False"

fun toArray :: "qjson option \<Rightarrow> qjson list" where
  "toArray (Some (QArray vs)) = vs"
| "toArray _ = []"

fun toObject :: "qjson option \<Rightarrow> (string \<times> qjson) list" where
  "toObject (Some (QObject fs)) = fs"
| "toObject _ = []"

fun isDouble :: "qjson option \<Rightarrow> bool" where
  "isDouble (Some (QWhole n)) = True"
| "isDouble (Some QFraction) = True"
| "isDouble _ = False"

fun isObject :: "qjson option \<Rightarrow> bool" where
  "isObject (Some (QObject fs)) = True"
| "isObject _ = False"

lemma toInt_range [simp]: "int32_range (toInt v)"
  by (induction v rule: toInt.induct) auto

lemma isObject_iff: "isObject d \<longleftrightarrow> (\<exists>fs. d = Some (QObject fs))"
  by (induction d rule: isObject.induct) auto

section \<open>The saved login\<close>

record app_store =
  st_userToken :: "string option"
  st_userId :: "int option"
  st_profileId :: "int option"
  st_screenId :: "int option"

definition no_store :: app_store where
  "no_store = \<lparr>st_userToken = None, st_userId = None, st_profileId = None, st_screenId = None\<rparr>"

record app_config =
  ac_store :: app_store
  ac_userToken :: string
  ac_userId :: int
  ac_profileId :: int
  ac_screenId :: int

definition value_or :: "'a \<Rightarrow> 'a option \<Rightarrow> 'a" where
  "value_or d v = (case v of None \<Rightarrow> d | Some x \<Rightarrow> x)"

definition new_app_config :: "app_store \<Rightarrow> app_config" where
  "new_app_config st =
     \<lparr>ac_store = st, ac_userToken = value_or '''' (st_userToken st),
      ac_userId = value_or (-1) (st_userId st), ac_profileId = value_or (-1) (st_profileId st),
      ac_screenId = value_or (-1) (st_screenId st)\<rparr>"

definition ac_save :: "app_config \<Rightarrow> app_config" where
  "ac_save c =
     c\<lparr>ac_store := \<lparr>st_userToken = Some (ac_userToken c), st_userId = Some (ac_userId c),
         st_profileId = Some (ac_profileId c), st_screenId = Some (ac_screenId c)\<rparr>\<rparr>"

definition clearAuth :: "app_config \<Rightarrow> app_config" where
  "clearAuth c = ac_save (c\<lparr>ac_userToken := '''', ac_userId := -1\<rparr>)"

definition ac_setUserToken :: "string \<Rightarrow> app_config \<Rightarrow> app_config" where
  "ac_setUserToken t c = c\<lparr>ac_userToken := t\<rparr>"

definition ac_setUserId :: "int \<Rightarrow> app_config \<Rightarrow> app_config" where
  "ac_setUserId i c = c\<lparr>ac_userId := i\<rparr>"

definition ac_setProfileId :: "int \<Rightarrow> app_config \<Rightarrow> app_config" where
  "ac_setProfileId i c = c\<lparr>ac_profileId := i\<rparr>"

definition ac_setScreenId :: "int \<Rightarrow> app_config \<Rightarrow> app_config" where
  "ac_setScreenId i c = c\<lparr>ac_screenId := i\<rparr>"

section \<open>The version check\<close>

record version_manager =
  vm_version :: string
  vm_latestVersion :: string
  vm_updateRequired :: bool

definition new_version_manager :: "string \<Rightarrow> version_manager" where
  "new_version_manager build =
     \<lparr>vm_version = build, vm_latestVersion = '''', vm_updateRequired = False\<rparr>"

definition kNotNeededToUpdate :: string where "kNotNeededToUpdate = ''none''"
definition kOptionalUpdate :: string where "kOptionalUpdate = ''optional''"
definition kRequiredUpdate :: string where "kRequiredUpdate = ''required''"

datatype version_effect = NewVersionDetected string | ExitProgram int

definition vm_checkUpdate ::
    "qjson option \<Rightarrow> version_manager \<Rightarrow> version_manager \<times> version_effect list" where
  "vm_checkUpdate doc v =
     (case doc of
        Some (QObject obj) \<Rightarrow>
          (let result = toText (map_of obj ''update'') in
           if result = kNotNeededToUpdate then (v, [])
           else if result = kOptionalUpdate
           then (let latest = toText (map_of obj ''latestVersion'')
                 in (v\<lparr>vm_latestVersion := latest\<rparr>, [NewVersionDetected latest]))
           else if result = kRequiredUpdate
           then (v\<lparr>vm_updateRequired := True\<rparr>, [ExitProgram 1])
           else (v, []))
      | _ \<Rightarrow> (v, []))"

section \<open>The error page\<close>

datatype error_view_mode = NoErrorView | CloudErrorView | ServiceErrorView

record error_view =
  ev_mode :: error_view_mode
  ev_retrying :: bool

definition new_error_view :: error_view where
  "new_error_view = \<lparr>ev_mode = NoErrorView, ev_retrying = False\<rparr>"

definition ev_visible :: "error_view \<Rightarrow> bool" where
  "ev_visible v \<longleftrightarrow> ev_mode v \<noteq> NoErrorView"

definition setMode :: "error_view_mode \<Rightarrow> error_view \<Rightarrow> error_view" where
  "setMode md v = v\<lparr>ev_mode := md, ev_retrying := False\<rparr>"

text \<open>The mode that \<open>retryRequested\<close> carries comes with the new state.\<close>

definition ev_retry :: "error_view \<Rightarrow> error_view_mode \<times> error_view" where
  "ev_retry v = (ev_mode v, v\<lparr>ev_retrying := True\<rparr>)"

fun ev_message :: "error_view_mode \<Rightarrow> string" where
  "ev_message CloudErrorView = ''There was a problem connecting to the auto-config service.''"
| "ev_message ServiceErrorView = ''There was a problem connecting to the background service.''"
| "ev_message NoErrorView = ''''"

section \<open>The list of the profiles\<close>

text \<open>A map of the library is walked through in the order of its keys.\<close>

fun insert_key :: "string \<Rightarrow> 'a \<Rightarrow> (string \<times> 'a) list \<Rightarrow> (string \<times> 'a) list" where
  "insert_key k v [] = [(k, v)]"
| "insert_key k v ((k', v') # kvs) =
     (if k < k' then (k, v) # (k', v') # kvs
      else if k = k' then (k, v) # kvs
      else (k', v') # insert_key k v kvs)"

record config_profile =
  cp_id :: int
  cp_name :: string

definition loadFromMap :: "(string \<times> int) list \<Rightarrow> config_profile list" where
  "loadFromMap m = map (\<lambda>(k, i). \<lparr>cp_id = -1, cp_name = k\<rparr>) m"

definition pl_add :: "config_profile list \<Rightarrow> int \<times> config_profile list" where
  "pl_add ps = (let ps' = ps @ [\<lparr>cp_id = -1, cp_name = ''''\<rparr>] in (int (length ps') - 1, ps'))"

lemma map_of_insert_key: "map_of (insert_key k v m) = (map_of m)(k \<mapsto> v)"
  by (induction m) (auto simp: fun_eq_iff)

lemma keys_insert_key: "set (map fst (insert_key k v m)) = insert k (set (map fst m))"
  by (induction k v m rule: insert_key.induct) (simp_all add: insert_commute)

lemma sorted_insert_key:
  "sorted_wrt (<) (map fst m) \<Longrightarrow> sorted_wrt (<) (map fst (insert_key k v m))"
proof (induction m)
  case (Cons kv m)
  obtain k' v' where kv: "kv = (k', v')"
    by (cases kv)
  have "\<forall>x\<in>set (map fst (insert_key k v m)). k' < x" if "k' < k"
    using Cons.prems that unfolding kv keys_insert_key by simp
  then show ?case
    using Cons unfolding kv by (simp del: set_map) (auto intro: order.strict_trans)
qed simp

end
