(* ===== verification/LogView.thy ===== *)
theory LogView
  imports AppState
begin

text \<open>
  The log of the configuration program (\<open>config/lib/LogManager.cpp\<close>): the lines that its page shows
  and the dialog that uploads the file. A line that is logged is also signalled, unless it came from
  another program. The time stamp in front of a message and the moment in the name of an uploaded
  file are arguments, and so is the name of the log file.
\<close>

section \<open>Lines\<close>

definition s_maximumLogLines :: nat where "s_maximumLogLines = 100"
definition kLogPrefix :: string where "kLogPrefix = ''[ Config  ] ''"

text \<open>Splitting at line ends; what is empty between them is dropped.\<close>

fun text_lines_from :: "string \<Rightarrow> string \<Rightarrow> string list" where
  "text_lines_from acc [] = (if acc = [] then [] else [rev acc])"
| "text_lines_from acc (c # cs) =
     (if c = CHR 0x0D \<or> c = CHR 0x0A
      then (if acc = [] then [] else [rev acc]) @ text_lines_from [] cs
      else text_lines_from (c # acc) cs)"

definition text_lines :: "string \<Rightarrow> string list" where
  "text_lines t = text_lines_from [] t"

datatype log_output = LogLine string | DialogChanged | UploadFile string string

record log_manager =
  lm_lines :: "string list"
  lm_uploading :: bool
  lm_gdpr :: bool
  lm_client :: bool
  lm_dialogText :: string
  lm_dialogUrl :: string
  lm_dialogVisible :: bool
  lm_out :: "log_output list"

definition new_log_manager :: log_manager where
  "new_log_manager =
     \<lparr>lm_lines = [], lm_uploading = False, lm_gdpr = False, lm_client = False, lm_dialogText = '''',
      lm_dialogUrl = '''', lm_dialogVisible = False, lm_out = []\<rparr>"

definition append_line :: "bool \<Rightarrow> string \<Rightarrow> string \<Rightarrow> log_manager \<Rightarrow> log_manager" where
  "append_line signal prefix line m =
     (let m1 = (if signal then m\<lparr>lm_out := lm_out m @ [LogLine line]\<rparr> else m);
          old = (if s_maximumLogLines < length (lm_lines m1) then tl (lm_lines m1) else lm_lines m1)
      in m1\<lparr>lm_lines := old @ [prefix @ line]\<rparr>)"

definition appendRaw :: "string \<Rightarrow> bool \<Rightarrow> bool \<Rightarrow> log_manager \<Rightarrow> log_manager" where
  "appendRaw t signal tag m =
     fold (append_line signal (if tag then kLogPrefix else '''')) (text_lines t) m"

definition lm_raw :: "string \<Rightarrow> log_manager \<Rightarrow> log_manager" where
  "lm_raw t m = appendRaw t False False m"

definition lm_error :: "string \<Rightarrow> string \<Rightarrow> log_manager \<Rightarrow> log_manager" where
  "lm_error stamp t m = appendRaw (stamp @ '' error: '' @ t) True True m"

definition lm_warning :: "string \<Rightarrow> string \<Rightarrow> log_manager \<Rightarrow> log_manager" where
  "lm_warning stamp t m = appendRaw (stamp @ '' warning: '' @ t) True True m"

definition lm_info :: "string \<Rightarrow> string \<Rightarrow> log_manager \<Rightarrow> log_manager" where
  "lm_info stamp t m = appendRaw (stamp @ '' info: '' @ t) True True m"

definition lm_debug :: "string \<Rightarrow> string \<Rightarrow> log_manager \<Rightarrow> log_manager" where
  "lm_debug stamp t m = appendRaw (stamp @ '' debug: '' @ t) True True m"

section \<open>Uploading\<close>

text \<open>\<open>uid\<close> is the text of the user's identifier, \<open>moment\<close> the ISO text of the time.\<close>

definition generateLogFilename :: "string \<Rightarrow> string \<Rightarrow> string" where
  "generateLogFilename uid moment =
     map (\<lambda>c. if c = CHR '':'' then CHR ''-'' else c) (uid @ ''-'' @ moment @ ''.log'')"

definition lm_upload :: "string \<Rightarrow> string \<Rightarrow> log_manager \<Rightarrow> log_manager" where
  "lm_upload filename upload_name m =
     (if lm_client m then m\<lparr>lm_out := lm_out m @ [UploadFile filename upload_name]\<rparr> else m)"

definition setDialog :: "string \<Rightarrow> log_manager \<Rightarrow> log_manager" where
  "setDialog t m =
     m\<lparr>lm_dialogText := t, lm_dialogUrl := '''', lm_dialogVisible := True,
       lm_out := lm_out m @ [DialogChanged]\<rparr>"

definition privacy_text :: "string \<Rightarrow> string" where
  "privacy_text version =
     ''By clicking send, you are accepting our <a href='https://symless.com/privacy-policy?source=s2-app&version=''
     @ version @ [CHR 0x27] @ ''>privacy policy</a>.''"

definition lm_uploadLogFile ::
    "string \<Rightarrow> string \<Rightarrow> string \<Rightarrow> string \<Rightarrow> log_manager \<Rightarrow> log_manager" where
  "lm_uploadLogFile version stamp filename upload_name m =
     (if \<not> lm_uploading m \<and> lm_gdpr m
      then (lm_upload filename upload_name
             ((lm_info stamp ''Sending log file...'' (setDialog ''Uploading log...'' m))
                \<lparr>lm_uploading := True\<rparr>))
             \<lparr>lm_uploading := False\<rparr>
      else if \<not> lm_gdpr m then setDialog (privacy_text version) m
      else m)"

definition acceptGDPR ::
    "string \<Rightarrow> string \<Rightarrow> string \<Rightarrow> string \<Rightarrow> log_manager \<Rightarrow> log_manager" where
  "acceptGDPR version stamp filename upload_name m =
     lm_uploadLogFile version stamp filename upload_name (m\<lparr>lm_gdpr := True\<rparr>)"

definition dismissDialog :: "log_manager \<Rightarrow> log_manager" where
  "dismissDialog m = m\<lparr>lm_dialogVisible := False, lm_out := lm_out m @ [DialogChanged]\<rparr>"

definition setCloudClient :: "log_manager \<Rightarrow> log_manager" where
  "setCloudClient m = m\<lparr>lm_client := True\<rparr>"

text \<open>Deleting every occurrence of a text.\<close>

fun without_text :: "string \<Rightarrow> string \<Rightarrow> nat \<Rightarrow> string" where
  "without_text pat [] n = []"
| "without_text pat (c # cs) (Suc n) = without_text pat cs n"
| "without_text pat (c # cs) 0 =
     (if pat \<noteq> [] \<and> take (length pat) (c # cs) = pat
      then without_text pat cs (length pat - 1)
      else c # without_text pat cs 0)"

definition setDialogUrl :: "string \<Rightarrow> log_manager \<Rightarrow> log_manager" where
  "setDialogUrl dirty m =
     m\<lparr>lm_dialogText := ''Log uploaded.'',
       lm_dialogUrl := ''<a href='' @ [CHR 0x27] @ without_text ''Upload path: '' dirty 0 @ [CHR 0x27]
         @ ''>View log</a>'',
       lm_dialogVisible := True, lm_out := lm_out m @ [DialogChanged]\<rparr>"

end
