(* ===== verification/ConfigClient.thy ===== *)
theory ConfigClient
  imports LogView ProcessCommand
begin

text \<open>
  The cloud client of the configuration program (\<open>config/lib/CloudClient.cpp\<close>): the requests it
  sends, with their headers and bodies, and what it makes of the replies; in particular the login,
  which polls until the cloud knows the user of the token. Requests and signals are outputs. The
  replies that are awaited are a list of handlers, and a reply is an input that names one of them.
  The remaining time of the login timer is the value that \<open>QTimer::remainingTime\<close> returns and comes
  with the input; the state holds whether the timer is active. Logging is left out, and so are the
  exceptions of the network library, which every operation catches and logs.
\<close>

section \<open>State\<close>

record host_address =
  ha_ipv4 :: bool
  ha_loopback :: bool
  ha_text :: string

record client_env =
  ce_version :: string
  ce_host :: string
  ce_system :: string
  ce_addresses :: "host_address list"
  ce_parse :: "string \<Rightarrow> qjson option"
  ce_file :: "string \<Rightarrow> string"
  ce_number :: "int \<Rightarrow> string"

datatype request_body =
    NoBody
  | JsonBody qjson
  | LogBody string string string string

record http_request =
  rq_post :: bool
  rq_url :: string
  rq_version :: string
  rq_token :: "string option"
  rq_json :: bool
  rq_body :: request_body

text \<open>The handler that a request's reply goes to; some requests have none.\<close>

datatype awaiting =
    WaitIdentify | WaitUserId | WaitProfiles | WaitUnsub | WaitUpdate | WaitLog | WaitSwitch
  | WaitConfig | WaitNobody

datatype client_signal =
    LoginOk
  | LoginFail string
  | ProfileUpdated
  | ReceivedProfiles "(string \<times> int) list"
  | InvalidAuth
  | UploadLogFileSuccess string
  | VersionEffect version_effect

datatype client_output = Request awaiting http_request | Signal client_signal

record config_client =
  cc_app :: app_config
  cc_versions :: version_manager
  cc_profileId :: int
  cc_screenId :: int
  cc_cloudUri :: string
  cc_loginClientId :: string
  cc_timer :: bool
  cc_retries :: nat
  cc_pending :: "awaiting list"
  cc_versionCheck :: bool
  cc_data :: string
  cc_out :: "client_output list"

definition kLogUploadUrl :: string where
  "kLogUploadUrl = ''https://symless.com/api/client/log''"

definition kPollingTimeout :: int where "kPollingTimeout = 60000"

text \<open>The address of the cloud and the identifier of this program there.\<close>

definition setUrls :: "bool \<Rightarrow> string \<times> string" where
  "setUrls useTestCloud =
     (if useTestCloud then (''https://test-api.cloud.symless.com'', ''4'')
      else (''https://v1.api.cloud.symless.com'', ''3''))"

definition new_config_client :: "bool \<Rightarrow> string \<Rightarrow> app_config \<Rightarrow> config_client" where
  "new_config_client useTestCloud build a =
     \<lparr>cc_app = a, cc_versions = new_version_manager build, cc_profileId = ac_profileId a,
      cc_screenId = ac_screenId a, cc_cloudUri = fst (setUrls useTestCloud),
      cc_loginClientId = snd (setUrls useTestCloud), cc_timer = False, cc_retries = 0,
      cc_pending = [], cc_versionCheck = False, cc_data = '''', cc_out = []\<rparr>"

definition cc_send :: "awaiting \<Rightarrow> http_request \<Rightarrow> config_client \<Rightarrow> config_client" where
  "cc_send h r c = c\<lparr>cc_pending := cc_pending c @ [h], cc_out := cc_out c @ [Request h r]\<rparr>"

definition cc_emit :: "client_signal \<Rightarrow> config_client \<Rightarrow> config_client" where
  "cc_emit s c = c\<lparr>cc_out := cc_out c @ [Signal s]\<rparr>"

definition set_app :: "(app_config \<Rightarrow> app_config) \<Rightarrow> config_client \<Rightarrow> config_client" where
  "set_app f c = c\<lparr>cc_app := f (cc_app c)\<rparr>"

definition syncConfig :: "config_client \<Rightarrow> config_client" where
  "syncConfig c =
     set_app (\<lambda>a. ac_setScreenId (to_int32 (cc_screenId c)) (ac_setProfileId (to_int32 (cc_profileId c)) a)) c"

section \<open>Requests\<close>

definition newRequest :: "client_env \<Rightarrow> string \<Rightarrow> http_request" where
  "newRequest e url =
     \<lparr>rq_post = False, rq_url = url, rq_version = ce_version e, rq_token = None, rq_json = False,
      rq_body = NoBody\<rparr>"

definition cloud_request :: "client_env \<Rightarrow> string \<Rightarrow> config_client \<Rightarrow> http_request" where
  "cloud_request e path c = newRequest e (cc_cloudUri c @ path)"

text \<open>A request with the login and the content type of JSON.\<close>

definition authorized :: "client_env \<Rightarrow> string \<Rightarrow> config_client \<Rightarrow> http_request" where
  "authorized e path c =
     (cloud_request e path c)\<lparr>rq_token := Some (ac_userToken (cc_app c)), rq_json := True\<rparr>"

definition posting :: "qjson \<Rightarrow> http_request \<Rightarrow> http_request" where
  "posting j r = r\<lparr>rq_post := True, rq_body := JsonBody j\<rparr>"

definition getUserToken :: "client_env \<Rightarrow> config_client \<Rightarrow> config_client" where
  "getUserToken e c =
     (if ac_userToken (cc_app c) = '''' \<or> ac_userId (cc_app c) = -1
      then cc_send WaitIdentify (cloud_request e ''/user/identify'' c) c else c)"

definition verifyUser :: "config_client \<Rightarrow> bool" where
  "verifyUser c \<longleftrightarrow> ac_userToken (cc_app c) \<noteq> '''' \<and> ac_userId (cc_app c) \<noteq> -1"

definition poll_user :: "client_env \<Rightarrow> config_client \<Rightarrow> config_client" where
  "poll_user e c = cc_send WaitUserId (authorized e ''/user/identify'' c) c"

definition getUserId :: "client_env \<Rightarrow> bool \<Rightarrow> int \<Rightarrow> config_client \<Rightarrow> config_client" where
  "getUserId e initialCall remaining c =
     (if initialCall
      then (let c1 = c\<lparr>cc_timer := True\<rparr> in if remaining > 0 then c1 else poll_user e c1)
      else if remaining \<le> 0 then cc_emit (LoginFail ''Login failed. Please try again.'') c
      else poll_user e c)"

definition onRetryGetUserId :: "client_env \<Rightarrow> int \<Rightarrow> config_client \<Rightarrow> config_client" where
  "onRetryGetUserId e remaining c = getUserId e False remaining c"

definition cc_unsubProfile :: "client_env \<Rightarrow> int \<Rightarrow> int \<Rightarrow> config_client \<Rightarrow> config_client" where
  "cc_unsubProfile e screen version c =
     (if screen = -1 then c
      else cc_send WaitUnsub
             (posting (QObject [(''screen_id'', QWhole screen), (''profile_id'', QWhole (cc_profileId c)),
                (''profile_version'', QWhole version)]) (authorized e ''/profile/unsub'' c)) c)"

definition localhost_text :: string where "localhost_text = ''127.0.0.1''"

fun join_with :: "string \<Rightarrow> string list \<Rightarrow> string" where
  "join_with s [] = ''''"
| "join_with s [x] = x"
| "join_with s (x # y # xs) = x @ s @ join_with s (y # xs)"

definition ipv4_texts :: "client_env \<Rightarrow> string list" where
  "ipv4_texts e =
     map ha_text (filter (\<lambda>h. ha_ipv4 h \<and> ha_text h \<noteq> localhost_text) (ce_addresses e))"

definition switch_body :: "client_env \<Rightarrow> string \<Rightarrow> config_client \<Rightarrow> qjson" where
  "switch_body e profileName c =
     QObject
       [(''screen'', QObject
          ((if ac_screenId (cc_app c) \<noteq> -1 then [(''id'', QWhole (ac_screenId (cc_app c)))] else []) @
           [(''name'', QText (ce_host e)), (''ipList'', QText (join_with '','' (ipv4_texts e))),
            (''status'', QText ''Disconnected'')])),
        (''profile'', QObject [(''name'', QText profileName)])]"

definition switchProfile :: "client_env \<Rightarrow> string \<Rightarrow> config_client \<Rightarrow> config_client" where
  "switchProfile e profileName c =
     cc_send WaitSwitch (posting (switch_body e profileName c) (authorized e ''/profile/switch'' c)) c"

definition userProfiles :: "client_env \<Rightarrow> config_client \<Rightarrow> config_client" where
  "userProfiles e c =
     (if ac_userToken (cc_app c) = '''' then c
      else cc_send WaitProfiles (authorized e ''/user/profiles'' c) c)"

definition cc_checkUpdate :: "client_env \<Rightarrow> config_client \<Rightarrow> config_client" where
  "cc_checkUpdate e c =
     (if \<not> cc_versionCheck c \<or> vm_updateRequired (cc_versions c) then c
      else cc_send WaitUpdate
             (posting (QObject [(''currentVersion'', QText (vm_version (cc_versions c)))])
               ((cloud_request e ''/update'' c)\<lparr>rq_json := True\<rparr>)) c)"

definition cc_updateScreen :: "client_env \<Rightarrow> ui_screen \<Rightarrow> config_client \<Rightarrow> config_client" where
  "cc_updateScreen e s c =
     cc_send WaitNobody
       (posting (QObject [(''id'', QWhole (ui_id s)), (''name'', QText (ui_name s)),
          (''status'', QText (screenStatusToString (ui_status s))), (''version'', QWhole (ui_version s))])
         (authorized e ''/screen/update'' c)) c"

definition cc_report :: "client_env \<Rightarrow> int \<Rightarrow> string \<Rightarrow> string \<Rightarrow> config_client \<Rightarrow> config_client" where
  "cc_report e dest good bad c =
     cc_send WaitNobody
       (posting (QObject [(''src'', QWhole (cc_screenId c)), (''dest'', QWhole dest),
          (''successfulIpList'', QText good), (''failedIpList'', QText bad)])
         (authorized e ''/report'' c)) c"

definition cc_updateProfileConfig :: "client_env \<Rightarrow> qjson \<Rightarrow> config_client \<Rightarrow> config_client" where
  "cc_updateProfileConfig e doc c =
     cc_send WaitConfig (posting doc (authorized e ''/profile/update'' c)) c"

text \<open>The file name of a path, and what stands before its first dot.\<close>

definition fileName :: "string \<Rightarrow> string" where
  "fileName path = rev (takeWhile (\<lambda>c. c \<noteq> CHR ''/'') (rev path))"

definition before_dot :: "string \<Rightarrow> string" where
  "before_dot name = takeWhile (\<lambda>c. c \<noteq> CHR ''.'') name"

definition crlf :: string where "crlf = [CHR 0x0D, CHR 0x0A]"

definition log_addresses :: "client_env \<Rightarrow> string" where
  "log_addresses e =
     concat (map (\<lambda>h. ha_text h @ '', '') (filter (\<lambda>h. \<not> ha_loopback h \<and> ha_ipv4 h) (ce_addresses e)))"

definition log_header :: "client_env \<Rightarrow> app_config \<Rightarrow> string" where
  "log_header e a =
     ''Symless User ID: '' @ ce_number e (ac_userId a) @ crlf @
     ''Profile ID: '' @ ce_number e (ac_profileId a) @ crlf @
     ''Screen ID: '' @ ce_number e (ac_screenId a) @ crlf @
     ''Operating System: '' @ ce_system e @ crlf @
     ''Synergy Version: '' @ ce_version e @ crlf @
     ''System Name: '' @ ce_host e @ crlf @
     ''IP Addresses: '' @ log_addresses e @ crlf @ crlf"

text \<open>The parts of the form: the identifier of the log, that of the user, the file's name and its
  content.\<close>

definition cc_uploadLogFile :: "client_env \<Rightarrow> string \<Rightarrow> string \<Rightarrow> config_client \<Rightarrow> config_client" where
  "cc_uploadLogFile e source tgt c =
     (let name = fileName tgt
      in cc_send WaitLog
           ((newRequest e kLogUploadUrl)\<lparr>rq_post := True,
              rq_body := LogBody (before_dot name) (ce_number e (ac_userId (cc_app c))) name
                (log_header e (cc_app c) @ ce_file e source)\<rparr>) c)"

definition cc_enableVersionCheck :: "config_client \<Rightarrow> config_client" where
  "cc_enableVersionCheck c = c\<lparr>cc_versionCheck := True\<rparr>"

section \<open>Replies\<close>

text \<open>A reply has no status where no answer came. A header that is missing is the empty text.\<close>

record http_reply =
  rp_status :: "int option"
  rp_token :: string
  rp_body :: string

definition replyHasError :: "http_reply \<Rightarrow> config_client \<Rightarrow> bool \<times> config_client" where
  "replyHasError r c =
     (let c1 = (if rp_status r \<noteq> Some 200 then c\<lparr>cc_data := rp_body r\<rparr> else c);
          c2 = (if rp_status r = Some 403 then cc_emit InvalidAuth c1 else c1)
      in (rp_status r \<noteq> Some 200, c2))"

definition take_token :: "http_reply \<Rightarrow> config_client \<Rightarrow> config_client" where
  "take_token r c = set_app (ac_setUserToken (rp_token r)) (c\<lparr>cc_data := rp_body r\<rparr>)"

definition onGetIdentifyFinished :: "http_reply \<Rightarrow> config_client \<Rightarrow> config_client" where
  "onGetIdentifyFinished r c =
     (let (bad, c1) = replyHasError r c in if bad then c1 else take_token r c1)"

definition onGetUserIdFinished :: "client_env \<Rightarrow> http_reply \<Rightarrow> config_client \<Rightarrow> config_client" where
  "onGetUserIdFinished e r c =
     (let (bad, c1) = replyHasError r c in
      if bad then c1
      else
        (let c2 = take_token r c1;
             c3 = (case ce_parse e (cc_data c2) of
                     Some (QObject obj) \<Rightarrow> set_app (ac_setUserId (toInt (map_of obj ''user''))) c2
                   | _ \<Rightarrow> c2)
         in if ac_userId (cc_app c3) = -1 then c3\<lparr>cc_retries := cc_retries c3 + 1\<rparr>
            else (cc_emit LoginOk c3)\<lparr>cc_timer := False\<rparr>))"

definition profile_entry :: "qjson \<Rightarrow> (string \<times> int) list \<Rightarrow> (string \<times> int) list" where
  "profile_entry v m =
     (let obj = toObject (Some v)
      in insert_key (toText (map_of obj ''name'')) (toInt (map_of obj ''id'')) m)"

definition onUserProfilesFinished :: "client_env \<Rightarrow> http_reply \<Rightarrow> config_client \<Rightarrow> config_client" where
  "onUserProfilesFinished e r c =
     (let (bad, c1) = replyHasError r c in
      if bad then c1
      else
        (let c2 = take_token r c1 in
         case ce_parse e (cc_data c2) of
           Some (QObject obj) \<Rightarrow>
             cc_emit (ReceivedProfiles (fold profile_entry (toArray (map_of obj ''profiles'')) [])) c2
         | _ \<Rightarrow> c2))"

definition onUnsubProfileFinished :: "http_reply \<Rightarrow> config_client \<Rightarrow> config_client" where
  "onUnsubProfileFinished r c = snd (replyHasError r c)"

definition onUpdateProfileConfigFinished :: "http_reply \<Rightarrow> config_client \<Rightarrow> config_client" where
  "onUpdateProfileConfigFinished r c = snd (replyHasError r c)"

definition onCheckUpdateFinished :: "client_env \<Rightarrow> http_reply \<Rightarrow> config_client \<Rightarrow> config_client" where
  "onCheckUpdateFinished e r c =
     (let (bad, c1) = replyHasError r c in
      if bad then c1
      else
        (let (v, effects) = vm_checkUpdate (ce_parse e (rp_body r)) (cc_versions c1)
         in fold (\<lambda>x. cc_emit (VersionEffect x)) effects
              (c1\<lparr>cc_data := rp_body r, cc_versions := v\<rparr>)))"

definition onUploadLogFileFinished :: "client_env \<Rightarrow> http_reply \<Rightarrow> config_client \<Rightarrow> config_client" where
  "onUploadLogFileFinished e r c =
     (let (bad, c1) = replyHasError r c in
      if bad then c1
      else
        (let c2 = c1\<lparr>cc_data := rp_body r\<rparr> in
         case ce_parse e (rp_body r) of
           Some (QObject obj) \<Rightarrow>
             (if toBool (map_of obj ''success'')
              then cc_emit (UploadLogFileSuccess (toText (map_of obj ''message''))) c2 else c2)
         | _ \<Rightarrow> c2))"

definition onSwitchProfileFinished :: "client_env \<Rightarrow> http_reply \<Rightarrow> config_client \<Rightarrow> config_client" where
  "onSwitchProfileFinished e r c =
     (if rp_status r \<noteq> Some 200 then c
      else
        (case ce_parse e (rp_body r) of
           Some (QObject obj) \<Rightarrow>
             (let screen = map_of obj ''screen_id''; profile = map_of obj ''profile_id'' in
              if \<not> isDouble screen \<or> \<not> isDouble profile then c
              else cc_emit ProfileUpdated
                     (syncConfig (c\<lparr>cc_screenId := toInt screen, cc_profileId := toInt profile\<rparr>)))
         | _ \<Rightarrow> c))"

definition on_reply :: "client_env \<Rightarrow> awaiting \<Rightarrow> http_reply \<Rightarrow> config_client \<Rightarrow> config_client" where
  "on_reply e h r =
     (case h of
        WaitIdentify \<Rightarrow> onGetIdentifyFinished r
      | WaitUserId \<Rightarrow> onGetUserIdFinished e r
      | WaitProfiles \<Rightarrow> onUserProfilesFinished e r
      | WaitUnsub \<Rightarrow> onUnsubProfileFinished r
      | WaitUpdate \<Rightarrow> onCheckUpdateFinished e r
      | WaitLog \<Rightarrow> onUploadLogFileFinished e r
      | WaitSwitch \<Rightarrow> onSwitchProfileFinished e r
      | WaitConfig \<Rightarrow> onUpdateProfileConfigFinished r
      | WaitNobody \<Rightarrow> (\<lambda>c. c))"

section \<open>Steps\<close>

text \<open>The login page reacts to two signals: it saves the login, and it forgets it.\<close>

definition page_slot :: "client_output \<Rightarrow> config_client \<Rightarrow> config_client" where
  "page_slot x =
     (case x of
        Signal LoginOk \<Rightarrow> set_app ac_save
      | Signal InvalidAuth \<Rightarrow> set_app clearAuth
      | _ \<Rightarrow> (\<lambda>c. c))"

datatype client_input =
    GetUserToken
  | GetUserId int
  | UnsubProfileCall int int
  | SwitchProfile string
  | UserProfiles
  | CheckUpdate
  | UpdateScreen ui_screen
  | UploadLogFile string string
  | Report int string string
  | UpdateProfileConfig qjson
  | EnableVersionCheck
  | Retry int
  | Reply nat http_reply
  | ServiceLogout

definition client_basic :: "client_env \<Rightarrow> client_input \<Rightarrow> config_client \<Rightarrow> config_client" where
  "client_basic e i c =
     (case i of
        GetUserToken \<Rightarrow> getUserToken e c
      | GetUserId remaining \<Rightarrow> getUserId e True remaining c
      | UnsubProfileCall screen version \<Rightarrow> cc_unsubProfile e screen version c
      | SwitchProfile name \<Rightarrow> switchProfile e name c
      | UserProfiles \<Rightarrow> userProfiles e c
      | CheckUpdate \<Rightarrow> cc_checkUpdate e c
      | UpdateScreen s \<Rightarrow> cc_updateScreen e s c
      | UploadLogFile source tgt \<Rightarrow> cc_uploadLogFile e source tgt c
      | Report dest good bad \<Rightarrow> cc_report e dest good bad c
      | UpdateProfileConfig doc \<Rightarrow> cc_updateProfileConfig e doc c
      | EnableVersionCheck \<Rightarrow> cc_enableVersionCheck c
      | Retry remaining \<Rightarrow>
          (if cc_retries c = 0 then c
           else onRetryGetUserId e remaining (c\<lparr>cc_retries := cc_retries c - 1\<rparr>))
      | Reply k r \<Rightarrow>
          (if k < length (cc_pending c)
           then on_reply e (cc_pending c ! k) r
                  (c\<lparr>cc_pending := take k (cc_pending c) @ drop (Suc k) (cc_pending c)\<rparr>)
           else c)
      | ServiceLogout \<Rightarrow> cc_emit InvalidAuth c)"

definition client_step :: "client_env \<Rightarrow> client_input \<Rightarrow> config_client \<Rightarrow> config_client" where
  "client_step e i c =
     (let c1 = client_basic e i c in fold page_slot (drop (length (cc_out c)) (cc_out c1)) c1)"

fun client_run :: "client_env \<Rightarrow> client_input list \<Rightarrow> config_client \<Rightarrow> config_client" where
  "client_run e [] c = c"
| "client_run e (i # is) c = client_run e is (client_step e i c)"

end
