(* ===== verification/ConfigProgram.thy ===== *)
theory ConfigProgram
  imports Rpc ConfigClient
begin

text \<open>
  The configuration program as a whole: \<open>config/lib/App.cpp\<close> connects the cloud client, the proxy of
  the service (\<open>config/lib/ServiceProxy.cpp\<close>), the error page and the log. The calls of the service
  run in a thread of their own: what the service publishes is queued, and handled by the thread of
  the user interface in a later step, while the loss of the connection is handled at once. The
  program is what the user sees of it: the error page, the calls and the requests.
\<close>

section \<open>State\<close>

datatype published =
    ProfileSnapshot string | CoreLog string | ServiceLog string | CloudOffline | CloudOnline
  | AuthLogout | VersionCheck | ConfigClose

datatype program_output =
    ReceivedScreens string
  | ScreenErrorShown string int
  | ShowLine string
  | Quit
  | Restart string "string list"
  | Requested client_output

record config_program =
  cf_client :: config_client
  cf_rpc :: wamp_client
  cf_view :: error_view
  cf_queue :: "published list"
  cf_waiting :: nat
  cf_httpProxy :: string
  cf_uid :: "string option"
  cf_arguments :: "string list"
  cf_out :: "program_output list"

definition new_config_program ::
    "config_client \<Rightarrow> string \<Rightarrow> string option \<Rightarrow> string list \<Rightarrow> config_program" where
  "new_config_program client proxy uid argv =
     \<lparr>cf_client = client, cf_rpc = new_wamp_client, cf_view = new_error_view, cf_queue = [],
      cf_waiting = 0, cf_httpProxy = proxy, cf_uid = uid, cf_arguments = argv, cf_out = []\<rparr>"

text \<open>The proxy of the system that is used: the first one for HTTP.\<close>

record system_proxy =
  px_http :: bool
  px_host :: string
  px_port :: string

definition http_proxy :: "system_proxy list \<Rightarrow> string" where
  "http_proxy ps =
     (case find px_http ps of None \<Rightarrow> '''' | Some p \<Rightarrow> px_host p @ '':'' @ px_port p)"

definition cf_emit :: "program_output \<Rightarrow> config_program \<Rightarrow> config_program" where
  "cf_emit x p = p\<lparr>cf_out := cf_out p @ [x]\<rparr>"

definition cf_call :: "rpc_call \<Rightarrow> config_program \<Rightarrow> config_program option" where
  "cf_call x p = map_option (\<lambda>w. p\<lparr>cf_rpc := w\<rparr>) (wc_call x (cf_rpc p))"

fun cf_calls :: "rpc_call list \<Rightarrow> config_program \<Rightarrow> config_program option" where
  "cf_calls [] p = Some p"
| "cf_calls (x # xs) p = Option.bind (cf_call x p) (cf_calls xs)"

section \<open>Slots\<close>

text \<open>The two calls after a switch of the profile, with the login as it is saved at that time.\<close>

definition auth_update :: "config_program \<Rightarrow> rpc_call" where
  "auth_update p =
     (let a = cc_app (cf_client p)
      in AuthUpdate (ac_userId a) (ac_screenId a) (ac_profileId a) (ac_userToken a))"

definition login_calls :: "config_program \<Rightarrow> rpc_call list" where
  "login_calls p = [ProxyUpdate ''http'' (cf_httpProxy p), auth_update p]"

text \<open>While there is no connection, every switch leaves slots for the time when there is one.\<close>

definition on_profileUpdated :: "config_program \<Rightarrow> config_program option" where
  "on_profileUpdated p =
     (if wc_connected (cf_rpc p) then cf_calls (login_calls p) p
      else Some (p\<lparr>cf_waiting := cf_waiting p + 1\<rparr>))"

definition cf_connected :: "config_program \<Rightarrow> config_program option" where
  "cf_connected p =
     cf_calls
       ((case cf_uid p of None \<Rightarrow> [] | Some u \<Rightarrow> [SetUid u]) @ [Hello] @
        concat (replicate (cf_waiting p) (login_calls p))) p"

definition on_disconnected :: "config_program \<Rightarrow> config_program" where
  "on_disconnected p = p\<lparr>cf_view := setMode ServiceErrorView (cf_view p)\<rparr>"

definition rpc_slot :: "rpc_event \<Rightarrow> config_program \<Rightarrow> config_program option" where
  "rpc_slot x p =
     (case x of
        RpcConnected \<Rightarrow> cf_connected p
      | RpcDisconnected wanted \<Rightarrow> Some (on_disconnected p)
      | _ \<Rightarrow> Some p)"

fun each_slot :: "('a \<Rightarrow> 's \<Rightarrow> 's option) \<Rightarrow> 'a list \<Rightarrow> 's \<Rightarrow> 's option" where
  "each_slot f [] s = Some s"
| "each_slot f (x # xs) s = Option.bind (f x s) (each_slot f xs)"

definition on_rpc :: "rpc_input \<Rightarrow> config_program \<Rightarrow> config_program option" where
  "on_rpc i p =
     Option.bind (wamp_step i (cf_rpc p))
       (\<lambda>w. each_slot rpc_slot (drop (length (wc_events (cf_rpc p))) (wc_events w)) (p\<lparr>cf_rpc := w\<rparr>))"

text \<open>A step of the cloud client, with the slot that tells the service about a switch.\<close>

definition client_slot :: "client_output \<Rightarrow> config_program \<Rightarrow> config_program option" where
  "client_slot x p =
     (let p1 = cf_emit (Requested x) p
      in if x = Signal ProfileUpdated then on_profileUpdated p1 else Some p1)"

definition on_client :: "client_env \<Rightarrow> client_input \<Rightarrow> config_program \<Rightarrow> config_program option" where
  "on_client e i p =
     (let c = client_step e i (cf_client p)
      in each_slot client_slot (drop (length (cc_out (cf_client p))) (cc_out c)) (p\<lparr>cf_client := c\<rparr>))"

section \<open>What the service publishes\<close>

definition show_lines :: "string \<Rightarrow> string \<Rightarrow> config_program \<Rightarrow> config_program" where
  "show_lines prefix t p = fold (\<lambda>l. cf_emit (ShowLine (prefix @ l))) (text_lines t) p"

definition on_published :: "client_env \<Rightarrow> published \<Rightarrow> config_program \<Rightarrow> config_program option" where
  "on_published e x p =
     (case x of
        ProfileSnapshot json \<Rightarrow> Some (cf_emit (ReceivedScreens json) p)
      | CoreLog t \<Rightarrow> Some (show_lines ''[ Core    ] '' t p)
      | ServiceLog t \<Rightarrow> Some (show_lines '''' t p)
      | CloudOffline \<Rightarrow> Some (p\<lparr>cf_view := setMode CloudErrorView (cf_view p)\<rparr>)
      | CloudOnline \<Rightarrow> Some (p\<lparr>cf_view := setMode NoErrorView (cf_view p)\<rparr>)
      | AuthLogout \<Rightarrow> on_client e ServiceLogout p
      | VersionCheck \<Rightarrow> Option.bind (on_client e EnableVersionCheck p) (on_client e CheckUpdate)
      | ConfigClose \<Rightarrow> Some (cf_emit Quit p))"

text \<open>The retry of the error page: the cloud is retried by the service, for the service itself the
  program is started anew.\<close>

definition restart_program :: "config_program \<Rightarrow> config_program" where
  "restart_program p =
     (let path = hd (cf_arguments p)
      in cf_emit (Restart path (filter (\<lambda>a. a \<noteq> path) (cf_arguments p))) p)"

definition on_retry :: "config_program \<Rightarrow> config_program option" where
  "on_retry p =
     (let (md, v) = ev_retry (cf_view p); p1 = p\<lparr>cf_view := v\<rparr> in
      case md of
        CloudErrorView \<Rightarrow> cf_call CloudRetry p1
      | ServiceErrorView \<Rightarrow> Some (restart_program p1)
      | NoErrorView \<Rightarrow> Some p1)"

definition requestProfileSnapshot :: "config_program \<Rightarrow> config_program option" where
  "requestProfileSnapshot p =
     (if wc_connected (cf_rpc p) then cf_call SnapshotRequest p else Some p)"

definition proxy_serverClaim :: "int \<Rightarrow> config_program \<Rightarrow> config_program option" where
  "proxy_serverClaim i p = cf_call (ServerClaimCall i) p"

definition restartService :: "config_program \<Rightarrow> config_program option" where
  "restartService p = cf_call ServiceRestart p"

definition on_logLine :: "string \<Rightarrow> config_program \<Rightarrow> config_program option" where
  "on_logLine l p = (if wc_connected (cf_rpc p) then cf_call (LogConfig l) p else Some p)"

section \<open>Steps\<close>

datatype program_input =
    RpcHappens rpc_input
  | Published published
  | ScreenErrorPublished string int
  | UiTurn
  | Client client_input
  | RetryClicked
  | SnapshotWanted
  | ClaimClicked int
  | RestartKeys
  | Logged string

definition program_step ::
    "client_env \<Rightarrow> program_input \<Rightarrow> config_program \<Rightarrow> config_program option" where
  "program_step e i p =
     (case i of
        RpcHappens x \<Rightarrow> on_rpc x p
      | Published x \<Rightarrow> Some (p\<lparr>cf_queue := cf_queue p @ [x]\<rparr>)
      | ScreenErrorPublished name code \<Rightarrow> Some (cf_emit (ScreenErrorShown name code) p)
      | UiTurn \<Rightarrow>
          (case cf_queue p of
             [] \<Rightarrow> Some p
           | x # xs \<Rightarrow> on_published e x (p\<lparr>cf_queue := xs\<rparr>))
      | Client x \<Rightarrow> on_client e x p
      | RetryClicked \<Rightarrow> on_retry p
      | SnapshotWanted \<Rightarrow> requestProfileSnapshot p
      | ClaimClicked sc \<Rightarrow> proxy_serverClaim sc p
      | RestartKeys \<Rightarrow> restartService p
      | Logged l \<Rightarrow> on_logLine l p)"

fun program_run :: "client_env \<Rightarrow> program_input list \<Rightarrow> config_program \<Rightarrow> config_program option" where
  "program_run e [] p = Some p"
| "program_run e (i # is) p = Option.bind (program_step e i p) (program_run e is)"

text \<open>\<open>ServiceProxy::start\<close> connects.\<close>

definition start_program :: "config_program \<Rightarrow> config_program option" where
  "start_program p = on_rpc RpcConnect p"

end
