(* ===== verification/ConfigClient_Props.thy ===== *)
theory ConfigClient_Props
  imports ConfigClient
begin

text \<open>
  What the login of the configuration program does: there is one poll at a time, a poll that fails
  ends the login without a word, and the identifiers of a profile switch are saved as they came.
\<close>

section \<open>What a step leaves alone\<close>

lemma page_slot_simps [simp]:
  "cc_out (page_slot x c) = cc_out c" "cc_timer (page_slot x c) = cc_timer c"
  "cc_retries (page_slot x c) = cc_retries c" "cc_pending (page_slot x c) = cc_pending c"
  "cc_profileId (page_slot x c) = cc_profileId c" "cc_screenId (page_slot x c) = cc_screenId c"
  "cc_cloudUri (page_slot x c) = cc_cloudUri c"
  by (cases x; simp add: page_slot_def set_app_def split: client_signal.split)+

lemma page_slots_simps [simp]:
  "cc_out (fold page_slot xs c) = cc_out c" "cc_timer (fold page_slot xs c) = cc_timer c"
  "cc_retries (fold page_slot xs c) = cc_retries c"
  "cc_pending (fold page_slot xs c) = cc_pending c"
  "cc_profileId (fold page_slot xs c) = cc_profileId c"
  "cc_screenId (fold page_slot xs c) = cc_screenId c"
  by (induction xs arbitrary: c) simp_all

lemma client_step_simps [simp]:
  "cc_out (client_step e i c) = cc_out (client_basic e i c)"
  "cc_timer (client_step e i c) = cc_timer (client_basic e i c)"
  "cc_retries (client_step e i c) = cc_retries (client_basic e i c)"
  "cc_pending (client_step e i c) = cc_pending (client_basic e i c)"
  by (simp_all add: client_step_def Let_def)

lemma send_simps [simp]:
  "cc_out (cc_send h r c) = cc_out c @ [Request h r]" "cc_timer (cc_send h r c) = cc_timer c"
  "cc_retries (cc_send h r c) = cc_retries c" "cc_pending (cc_send h r c) = cc_pending c @ [h]"
  by (simp_all add: cc_send_def)

lemma cc_emit_simps [simp]:
  "cc_out (cc_emit s c) = cc_out c @ [Signal s]" "cc_timer (cc_emit s c) = cc_timer c"
  "cc_retries (cc_emit s c) = cc_retries c" "cc_pending (cc_emit s c) = cc_pending c"
  "cc_app (cc_emit s c) = cc_app c"
  by (simp_all add: cc_emit_def)

lemma set_app_simps [simp]:
  "cc_out (set_app f c) = cc_out c" "cc_timer (set_app f c) = cc_timer c"
  "cc_retries (set_app f c) = cc_retries c" "cc_pending (set_app f c) = cc_pending c"
  "cc_app (set_app f c) = f (cc_app c)" "cc_data (set_app f c) = cc_data c"
  by (simp_all add: set_app_def)

section \<open>Polling\<close>

definition polls :: "config_client \<Rightarrow> nat" where
  "polls c = count_list (cc_pending c) WaitUserId + cc_retries c"

text \<open>What the login shows to the outside: its requests and its two signals.\<close>

definition login_output :: "client_output \<Rightarrow> bool" where
  "login_output x =
     (case x of
        Request h r \<Rightarrow> h = WaitUserId
      | Signal LoginOk \<Rightarrow> True
      | Signal (LoginFail t) \<Rightarrow> True
      | _ \<Rightarrow> False)"

definition login_trace :: "config_client \<Rightarrow> client_output list" where
  "login_trace c = filter login_output (cc_out c)"

lemma login_output_simps [simp]:
  "login_output (Request h r) \<longleftrightarrow> h = WaitUserId" "login_output (Signal LoginOk)"
  "login_output (Signal (LoginFail t))" "\<not> login_output (Signal ProfileUpdated)"
  "\<not> login_output (Signal (ReceivedProfiles ps))" "\<not> login_output (Signal InvalidAuth)"
  "\<not> login_output (Signal (UploadLogFileSuccess t))" "\<not> login_output (Signal (VersionEffect v))"
  by (simp_all add: login_output_def)

text \<open>Nothing that concerns the login has changed.\<close>

definition same_login :: "config_client \<Rightarrow> config_client \<Rightarrow> bool" where
  "same_login c c' \<longleftrightarrow>
     cc_timer c' = cc_timer c \<and> cc_retries c' = cc_retries c \<and> login_trace c' = login_trace c"

lemma count_list_append [simp]: "count_list (xs @ ys) x = count_list xs x + count_list ys x"
  by (induction xs) simp_all

lemma count_list_remove:
  "k < length xs \<Longrightarrow>
   count_list (take k xs @ drop (Suc k) xs) x + (if xs ! k = x then 1 else 0) = count_list xs x"
proof -
  assume "k < length xs"
  then have "xs = take k xs @ xs ! k # drop (Suc k) xs"
    by (simp add: id_take_nth_drop)
  then have "count_list xs x = count_list (take k xs @ xs ! k # drop (Suc k) xs) x"
    by simp
  then show ?thesis
    by simp
qed

lemma replyHasError_frame:
  assumes "replyHasError r c = (bad, c1)"
  shows "bad \<longleftrightarrow> rp_status r \<noteq> Some 200" "cc_pending c1 = cc_pending c" "same_login c c1"
    "\<not> bad \<Longrightarrow> c1 = c"
  using assms
  by (auto simp: replyHasError_def same_login_def login_trace_def Let_def split: if_splits)

lemma same_login_refl [simp]: "same_login c c"
  by (simp add: same_login_def)

lemma version_effects_frame:
  "same_login c (fold (\<lambda>x. cc_emit (VersionEffect x)) xs c) \<and>
   cc_pending (fold (\<lambda>x. cc_emit (VersionEffect x)) xs c) = cc_pending c"
  by (induction xs arbitrary: c) (simp_all add: same_login_def login_trace_def)

lemma onCheckUpdateFinished_frame:
  "same_login c (onCheckUpdateFinished e r c) \<and>
   cc_pending (onCheckUpdateFinished e r c) = cc_pending c"
proof (cases "replyHasError r c")
  case (Pair bad c1)
  note frame = replyHasError_frame [OF Pair]
  show ?thesis
  proof (cases bad)
    case True
    then show ?thesis
      using Pair frame by (simp add: onCheckUpdateFinished_def)
  next
    case False
    obtain v xs where v: "vm_checkUpdate (ce_parse e (rp_body r)) (cc_versions c) = (v, xs)"
      by (cases "vm_checkUpdate (ce_parse e (rp_body r)) (cc_versions c)")
    have "same_login c (c\<lparr>cc_data := rp_body r, cc_versions := v\<rparr>)"
      by (simp add: same_login_def login_trace_def)
    then show ?thesis
      using False Pair frame v version_effects_frame [of "c\<lparr>cc_data := rp_body r, cc_versions := v\<rparr>" xs]
      by (simp add: onCheckUpdateFinished_def same_login_def)
  qed
qed

lemma other_reply_frame:
  assumes "h \<noteq> WaitUserId"
  shows "same_login c (on_reply e h r c) \<and> cc_pending (on_reply e h r c) = cc_pending c"
proof (cases "replyHasError r c")
  case (Pair bad c1)
  note frame = replyHasError_frame [OF Pair]
  show ?thesis
  proof (cases h)
    case WaitIdentify
    then show ?thesis
      using Pair frame
      by (auto simp: on_reply_def onGetIdentifyFinished_def take_token_def same_login_def login_trace_def)
  next
    case WaitUserId
    then show ?thesis
      using assms by simp
  next
    case WaitProfiles
    then show ?thesis
      using Pair frame
      by (auto simp: on_reply_def onUserProfilesFinished_def take_token_def same_login_def
          login_trace_def Let_def split: option.split qjson.split)
  next
    case WaitUpdate
    then show ?thesis
      using onCheckUpdateFinished_frame by (simp add: on_reply_def)
  next
    case WaitLog
    then show ?thesis
      using Pair frame
      by (auto simp: on_reply_def onUploadLogFileFinished_def same_login_def login_trace_def
          Let_def           split: option.split qjson.split)
  next
    case WaitSwitch
    then show ?thesis
      by (auto simp: on_reply_def onSwitchProfileFinished_def syncConfig_def Let_def same_login_def
          login_trace_def split: option.split qjson.split)
  qed (use Pair frame in \<open>simp_all add: on_reply_def onUnsubProfileFinished_def
      onUpdateProfileConfigFinished_def\<close>)
qed

text \<open>A reply to a poll that went wrong ends it; one that went well ends it or leaves a retry.\<close>

lemma poll_reply_frame:
  "rp_status r \<noteq> Some 200 \<Longrightarrow>
   same_login c (on_reply e WaitUserId r c) \<and>
   cc_pending (on_reply e WaitUserId r c) = cc_pending c"
  using replyHasError_frame [of r c]
  by (cases "replyHasError r c") (simp add: on_reply_def onGetUserIdFinished_def)

lemma poll_reply_good:
  assumes "rp_status r = Some 200"
  shows "cc_pending (on_reply e WaitUserId r c) = cc_pending c \<and>
    (cc_retries (on_reply e WaitUserId r c) = cc_retries c \<and> \<not> cc_timer (on_reply e WaitUserId r c) \<or>
     cc_retries (on_reply e WaitUserId r c) = cc_retries c + 1 \<and>
     cc_timer (on_reply e WaitUserId r c) = cc_timer c)"
  using assms
  by (simp add: on_reply_def onGetUserIdFinished_def replyHasError_def take_token_def Let_def
      split: option.split qjson.split)

definition about_login :: "client_input \<Rightarrow> bool" where
  "about_login i =
     (case i of GetUserId rem \<Rightarrow> True | Retry rem \<Rightarrow> True | Reply k r \<Rightarrow> True | _ \<Rightarrow> False)"

lemmas request_defs = getUserToken_def cc_unsubProfile_def switchProfile_def userProfiles_def
  cc_checkUpdate_def cc_updateScreen_def cc_uploadLogFile_def cc_report_def
  cc_updateProfileConfig_def cc_enableVersionCheck_def Let_def

lemma other_input_frame:
  assumes "\<not> about_login i"
  shows "same_login c (client_basic e i c) \<and>
    count_list (cc_pending (client_basic e i c)) WaitUserId = count_list (cc_pending c) WaitUserId"
  using assms
  by (cases i)
    (simp_all add: about_login_def client_basic_def onRetryGetUserId_def request_defs same_login_def login_trace_def)

lemma reply_step:
  assumes k: "k < length (cc_pending c)"
  defines "c0 \<equiv> c\<lparr>cc_pending := take k (cc_pending c) @ drop (Suc k) (cc_pending c)\<rparr>"
  shows "client_basic e (Reply k r) c = on_reply e (cc_pending c ! k) r c0" "same_login c c0"
    "polls c = polls c0 + (if cc_pending c ! k = WaitUserId then 1 else 0)"
  using k count_list_remove [OF k, of WaitUserId]
  by (simp_all add: client_basic_def onRetryGetUserId_def c0_def same_login_def login_trace_def polls_def)

text \<open>The timer of the login is only asked when it runs and is not overdue, in which case it has time
  left; one that does not run has none.\<close>

definition timer_in_time :: "config_client \<Rightarrow> client_input \<Rightarrow> bool" where
  "timer_in_time c i =
     (case i of GetUserId rem \<Rightarrow> (cc_timer c \<longleftrightarrow> rem > 0) | _ \<Rightarrow> True)"

inductive client_reach :: "client_env \<Rightarrow> config_client \<Rightarrow> bool" for e where
  New: "client_reach e (new_config_client test build a)"
| Step: "client_reach e c \<Longrightarrow> timer_in_time c i \<Longrightarrow> client_reach e (client_step e i c)"

definition single_poll :: "config_client \<Rightarrow> bool" where
  "single_poll c \<longleftrightarrow> polls c \<le> 1 \<and> (0 < polls c \<longrightarrow> cc_timer c)"

lemma single_poll_frame:
  "same_login c c' \<Longrightarrow> count_list (cc_pending c') WaitUserId \<le> count_list (cc_pending c) WaitUserId \<Longrightarrow>
   single_poll c \<Longrightarrow> single_poll c'"
  by (auto simp: single_poll_def polls_def same_login_def)

lemma getUserId_single_poll:
  "single_poll c \<Longrightarrow> (cc_timer c \<longleftrightarrow> rem > 0) \<Longrightarrow> 
   single_poll (client_basic e (GetUserId rem) c)"
  by (auto simp: client_basic_def onRetryGetUserId_def getUserId_def poll_user_def single_poll_def polls_def Let_def)

lemma retry_single_poll:
  assumes "single_poll c"
  shows "single_poll (client_basic e (Retry rem) c)"
  using assms
  by (auto simp: client_basic_def onRetryGetUserId_def getUserId_def poll_user_def single_poll_def polls_def)

lemma reply_single_poll:
  assumes "single_poll c"
  shows "single_poll (client_basic e (Reply k r) c)"
proof (cases "k < length (cc_pending c)")
  case k: True
  define c0 where "c0 = c\<lparr>cc_pending := take k (cc_pending c) @ drop (Suc k) (cc_pending c)\<rparr>"
  note step = reply_step [OF k, folded c0_def]
  have c0: "single_poll c0"
    using assms step(2,3) by (auto simp: single_poll_def same_login_def)
  show ?thesis
  proof (cases "cc_pending c ! k = WaitUserId")
    case True
    then have "polls c0 = 0" "cc_timer c"
      using assms step(3) by (simp_all add: single_poll_def)
    then show ?thesis
      using poll_reply_frame [of r c0 e] poll_reply_good [of r e c0] step True
      by (cases "rp_status r = Some 200") (auto simp: single_poll_def polls_def same_login_def)
  next
    case False
    then show ?thesis
      using other_reply_frame [OF False, of c0 e r] single_poll_frame [OF _ _ c0] step(1) by simp
  qed
qed (use assms in \<open>simp add: client_basic_def onRetryGetUserId_def\<close>)

lemma step_single_poll:
  assumes "single_poll c" "timer_in_time c i"
  shows "single_poll (client_step e i c)"
proof -
  have "single_poll (client_basic e i c)"
  proof (cases "about_login i")
    case True
    then show ?thesis
    proof (cases i)
      case (GetUserId rem)
      then show ?thesis
        using getUserId_single_poll [of c rem e] assms by (simp add: timer_in_time_def)
    qed (use assms retry_single_poll reply_single_poll in \<open>simp_all add: about_login_def\<close>)
  next
    case False
    then show ?thesis
      using other_input_frame [OF False, of c e] by (intro single_poll_frame [OF _ _ assms(1)]) simp_all
  qed
  then show ?thesis
    by (simp add: single_poll_def polls_def)
qed

lemma reach_single_poll: "client_reach e c \<Longrightarrow> single_poll c"
proof (induction rule: client_reach.induct)
  case (New test build a)
  show ?case
    by (simp add: single_poll_def polls_def new_config_client_def)
qed (simp add: step_single_poll)

text \<open>C26. The login polls the cloud with one request at a time: whatever the user clicks and in
  whatever order the replies come, at most one poll is under way or waits for its next turn, and
  while there is one the timer of the login runs.\<close>

theorem one_poll_at_a_time:
  assumes "client_reach e c"
  shows "polls c \<le> 1 \<and> (polls c = 0 \<or> cc_timer c)"
  using reach_single_poll [OF assms] by (auto simp: single_poll_def)

definition demo_client_env :: client_env where
  "demo_client_env =
     \<lparr>ce_version = ''2.0'', ce_host = ''pc'', ce_system = ''os'', ce_addresses = [],
      ce_parse = (\<lambda>t. if t = ''user 7'' then Some (QObject [(''user'', QWhole 7)])
                     else if t = ''switched''
                     then Some (QObject [(''screen_id'', QWhole 5), (''profile_id'', QWhole 3)])
                     else if t = ''no user'' then Some (QObject []) else None),
      ce_file = (\<lambda>_. ''''), ce_number = (\<lambda>_. ''0'')\<rparr>"

definition demo_client :: config_client where
  "demo_client =
     client_step demo_client_env (GetUserId (-1))
       (new_config_client False ''2.0'' (new_app_config no_store))"

lemma demo_client_reach: "client_reach demo_client_env demo_client"
  unfolding demo_client_def
  by (rule client_reach.Step [OF client_reach.New])
    (simp add: timer_in_time_def new_config_client_def)

theorem one_poll_at_a_time_witness: "polls demo_client \<le> 1"
  using one_poll_at_a_time [OF demo_client_reach] by simp

section \<open>A poll that fails\<close>

text \<open>The login has no poll under way, but its timer still runs.\<close>

definition stranded :: "config_client \<Rightarrow> bool" where
  "stranded c \<longleftrightarrow> polls c = 0 \<and> cc_timer c"

lemma stranded_step:
  assumes "stranded c" "\<And>rem. i = GetUserId rem \<Longrightarrow> rem > 0"
  shows "stranded (client_step e i c) \<and> login_trace (client_step e i c) = login_trace c"
proof (cases "about_login i")
  case False
  then show ?thesis
    using assms(1) other_input_frame [OF False, of c e]
    by (auto simp: stranded_def polls_def same_login_def login_trace_def)
next
  case True
  then consider (click) rem where "i = GetUserId rem" | (again) rem where "i = Retry rem"
    | (reply) k r where "i = Reply k r"
    by (cases i) (auto simp: about_login_def)
  then show ?thesis
  proof cases
    case click
    then show ?thesis
      using assms by (simp add: client_basic_def onRetryGetUserId_def getUserId_def stranded_def polls_def login_trace_def)
  next
    case again
    then show ?thesis
      using assms(1) by (simp add: client_basic_def onRetryGetUserId_def stranded_def polls_def login_trace_def)
  next
    case reply
    show ?thesis
    proof (cases "k < length (cc_pending c)")
      case k: True
      define c0 where "c0 = c\<lparr>cc_pending := take k (cc_pending c) @ drop (Suc k) (cc_pending c)\<rparr>"
      note step = reply_step [OF k, folded c0_def]
      have "cc_pending c ! k \<noteq> WaitUserId"
        using assms(1) step(3) by (auto simp: stranded_def)
      then show ?thesis
        using assms(1) step other_reply_frame [of "cc_pending c ! k" c0 e r] reply
        by (auto simp: stranded_def polls_def same_login_def login_trace_def)
    qed (use assms(1) reply in
        \<open>simp add: client_basic_def onRetryGetUserId_def stranded_def polls_def login_trace_def\<close>)
  qed
qed

lemma stranded_run:
  "stranded c \<Longrightarrow> (\<And>rem. GetUserId rem \<in> set is \<Longrightarrow> rem > 0) \<Longrightarrow>
   stranded (client_run e is c) \<and> login_trace (client_run e is c) = login_trace c"
proof (induction "is" arbitrary: c)
  case (Cons i "is")
  have "stranded (client_step e i c) \<and> login_trace (client_step e i c) = login_trace c"
    using Cons.prems by (intro stranded_step) auto
  moreover have "stranded (client_run e is (client_step e i c)) \<and>
      login_trace (client_run e is (client_step e i c)) = login_trace (client_step e i c)"
    using Cons.prems calculation by (intro Cons.IH) auto
  ultimately show ?case
    by simp
qed simp

text \<open>C38. A poll that fails ends the login without a word: after a reply that is not 200, no click
  while the timer of the login runs sends another request, and the login neither succeeds nor is
  reported as failed, whatever else happens. Every such click starts the timer anew.\<close>

theorem failed_poll_stops_the_login:
  assumes "client_reach e c" "k < length (cc_pending c)" "cc_pending c ! k = WaitUserId"
    and "rp_status r \<noteq> Some 200"
    and "\<And>rem. GetUserId rem \<in> set is \<Longrightarrow> rem > 0"
  shows "login_trace (client_run e (Reply k r # is) c) = login_trace c \<and>
    cc_timer (client_run e (Reply k r # is) c)"
proof -
  define c0 where "c0 = c\<lparr>cc_pending := take k (cc_pending c) @ drop (Suc k) (cc_pending c)\<rparr>"
  note step = reply_step [OF assms(2), folded c0_def]
  note reply = poll_reply_frame [OF assms(4), of c0 e]
  have "polls c0 = 0" "cc_timer c0"
    using reach_single_poll [OF assms(1)] step assms(3)
    by (auto simp: single_poll_def same_login_def)
  then have "stranded (client_step e (Reply k r) c) \<and>
      login_trace (client_step e (Reply k r) c) = login_trace c"
    using step reply assms(3) by (auto simp: stranded_def polls_def same_login_def login_trace_def)
  then show ?thesis
    using stranded_run [of "client_step e (Reply k r) c" "is" e] assms(5)
    by (simp add: stranded_def)
qed

definition refused_poll :: http_reply where
  "refused_poll = \<lparr>rp_status = Some 500, rp_token = '''', rp_body = ''''\<rparr>"

theorem failed_poll_stops_the_login_witness:
  "login_trace (client_run demo_client_env (Reply 0 refused_poll # [GetUserId 500, GetUserId 900])
     demo_client) = login_trace demo_client"
proof -
  have "0 < length (cc_pending demo_client)" "cc_pending demo_client ! 0 = WaitUserId"
    by (simp_all add: demo_client_def client_basic_def onRetryGetUserId_def getUserId_def poll_user_def
        new_config_client_def Let_def)
  then show ?thesis
    by (intro failed_poll_stops_the_login [OF demo_client_reach, THEN conjunct1])
      (auto simp: refused_poll_def)
qed

end
