(* ===== verification/ConfigProgram_Props.thy ===== *)
theory ConfigProgram_Props
  imports ConfigProgram ConfigClient_Props Service_Props
begin

text \<open>
  The login on its way from the configuration program to the cloud session of the service, and what
  the error page shows when the service is lost.
\<close>

section \<open>Calls and slots\<close>

lemma wc_call_session:
  "wc_session w \<Longrightarrow> wc_call x w =
     Some (w\<lparr>wc_calls := wc_calls w @ [x], wc_events := wc_events w @ [RpcCall x]\<rparr>)"
  by (simp add: wc_call_def wc_emit_def)

text \<open>The calls that a program has sent.\<close>

definition sent :: "config_program \<Rightarrow> rpc_call list" where
  "sent p = concat (map (\<lambda>x. case x of RpcCall c \<Rightarrow> [c] | _ \<Rightarrow> []) (wc_events (cf_rpc p)))"

lemma cf_call_session:
  assumes "wc_session (cf_rpc p)"
  shows "\<exists>p'. cf_call x p = Some p' \<and> sent p' = sent p @ [x] \<and> cf_client p' = cf_client p \<and>
    wc_session (cf_rpc p') \<and> wc_connected (cf_rpc p') = wc_connected (cf_rpc p) \<and>
    cf_view p' = cf_view p \<and> cf_queue p' = cf_queue p"
  using assms by (simp add: cf_call_def wc_call_session sent_def)

lemma cf_calls_session:
  assumes "wc_session (cf_rpc p)"
  shows "\<exists>p'. cf_calls xs p = Some p' \<and> sent p' = sent p @ xs \<and> cf_client p' = cf_client p \<and>
    wc_session (cf_rpc p') \<and> wc_connected (cf_rpc p') = wc_connected (cf_rpc p) \<and>
    cf_view p' = cf_view p \<and> cf_queue p' = cf_queue p"
  using assms
proof (induction xs arbitrary: p)
  case (Cons x xs)
  obtain p1 where p1: "cf_call x p = Some p1" "sent p1 = sent p @ [x]" "cf_client p1 = cf_client p"
      "wc_session (cf_rpc p1)" "wc_connected (cf_rpc p1) = wc_connected (cf_rpc p)"
      "cf_view p1 = cf_view p" "cf_queue p1 = cf_queue p"
    using cf_call_session [OF Cons.prems, of x] by auto
  then show ?case
    using Cons.IH [of p1] by auto
qed simp

lemma each_slot_end: "Option.bind x (each_slot f []) = x"
  by (cases x) simp_all

section \<open>From the switch of the profile to the session of the cloud\<close>

lemma switch_reply_step:
  assumes k: "k < length (cc_pending c)" "cc_pending c ! k = WaitSwitch"
    and r: "rp_status r = Some 200" "ce_parse e (rp_body r) = Some (QObject obj)"
      "map_of obj ''screen_id'' = Some (QWhole sc)" "map_of obj ''profile_id'' = Some (QWhole pr)"
      "int32_range sc" "int32_range pr"
  shows "cc_out (client_step e (Reply k r) c) = cc_out c @ [Signal ProfileUpdated]"
    "cc_app (client_step e (Reply k r) c) = (cc_app c)\<lparr>ac_profileId := pr, ac_screenId := sc\<rparr>"
  using assms
  by (simp_all add: client_step_def client_basic_def onRetryGetUserId_def on_reply_def onSwitchProfileFinished_def
      syncConfig_def ac_setProfileId_def ac_setScreenId_def page_slot_def Let_def cc_emit_def set_app_def)

text \<open>Saving the settings writes them and loads them into the cloud link, which no slot undoes.\<close>

lemma connection_slots_frame:
  "s_each connection_signal es s = (None, s') \<Longrightarrow>
   sv_link s' = sv_link s \<and> user (sv_core s') = user (sv_core s) \<and>
   set (sv_out s) \<subseteq> set (sv_out s')"
proof (induction es arbitrary: s)
  case (Cons e es)
  obtain s1 where s1: "connection_signal e s = (None, s1)" "s_each connection_signal es s1 = (None, s')"
    using Cons.prems by (auto simp: sthen_None)
  have "sv_link s1 = sv_link s \<and> user (sv_core s1) = user (sv_core s) \<and>
      set (sv_out s) \<subseteq> set (sv_out s1)"
    using s1(1)
    by (auto simp: connection_signal_def say_def sdone_def on_websocket_error_def sthen_None
        change_local_def split: ws_event.splits if_splits)
  then show ?case
    using Cons.IH [OF s1(2)] by auto
qed (simp add: sdone_def)

lemma save_settings_result:
  assumes "save_settings w luck s = (None, s')"
  shows "\<exists>l. cloud_load (w_to_port w) (w_version w) (fst luck) (snd luck) (sv_user s) (sv_link s) = Some l \<and>
    sv_link s' = l \<and> sv_user s' = sv_user s \<and> SettingsSaved (sv_user s) \<in> set (sv_out s')"
proof -
  define n where "n = length (ws_out (l_ws (sv_link s)))"
  define s1 where "s1 = s\<lparr>sv_out := sv_out s @ [SettingsSaved (sv_user s)]\<rparr>"
  obtain l where l: "cloud_load (w_to_port w) (w_version w) (fst luck) (snd luck) (sv_user s) (sv_link s) =
      Some l"
    using assms by (auto simp: save_settings_def Let_def sthen_None say_def split: option.splits)
  then obtain s2 where s2: "s_each connection_signal (drop n (ws_out (l_ws l))) (s1\<lparr>sv_link := l\<rparr>) = (None, s2)"
      "s' = s2\<lparr>sv_core := (sv_core s2)\<lparr>user := sv_user s,
        client_proxy_started := client_proxy_started (sv_core s2) \<or> screenId (sv_user s) \<noteq> -1\<rparr>\<rparr>"
    using assms
    by (auto simp: save_settings_def Let_def sthen_None say_def on_core_settings n_def s1_def)
  show ?thesis
    using l s2(2) connection_slots_frame [OF s2(1)] by (auto simp: s1_def)
qed

lemma cloud_load_login:
  assumes "cloud_load to_port v resolved rnd c l = Some l'"
    and "profileId c \<noteq> -1"
    and "profileId c \<noteq> sint (l_lastProfileId l) \<or> userToken c \<noteq> l_lastUserToken l"
    and "ws_connected (l_ws l) \<longrightarrow> ws_target (l_ws l) = kSubTarget"
  shows "login_set c (l_ws l')"
proof -
  obtain b l1 where l1: "link_setProxy to_port ''http'' (httpProxy c) l = Some (b, l1)"
    using assms(1) by (auto simp: cloud_load_def)
  note k = link_setProxy_keeps [OF l1]
  have "l_ws l' = (if \<not> ws_connected (l_ws l1)
      then ws_connect resolved rnd kSubTarget (login_headers v c (l_ws l1))
      else ws_reconnect False rnd (login_headers v c (l_ws l1)))"
    using assms(1-3) k(4,5) by (auto simp: cloud_load_def l1 Let_def login_headers_props)
  then show ?thesis
    using start_with_login [of "l_ws l1" "l_ws l'" resolved rnd v c] assms(4) k(1,2) by auto
qed

lemma auth_update_result:
  assumes "rpc_auth_update w luck uid sc pr token s = (None, s')"
  shows "userId (sv_user s') = uid \<and> screenId (sv_user s') = sc \<and> profileId (sv_user s') = pr \<and>
    userToken (sv_user s') = token \<and> SettingsSaved (sv_user s') \<in> set (sv_out s') \<and>
    (\<exists>l. cloud_load (w_to_port w) (w_version w) (fst luck) (snd luck) (sv_user s') (sv_link s) = Some l \<and>
       sv_link s' = l)"
proof -
  define s1 where "s1 = s\<lparr>sv_core := (sv_core s)\<lparr>user := (sv_user s)
    \<lparr>userId := uid, screenId := sc, profileId := pr, userToken := token\<rparr>\<rparr>\<rparr>"
  have "save_settings w luck s1 = (None, s')"
    using assms by (simp add: rpc_auth_update_def sthen_None change_user_def s1_def)
  then obtain l where "cloud_load (w_to_port w) (w_version w) (fst luck) (snd luck) (sv_user s1)
      (sv_link s1) = Some l" "sv_link s' = l" "sv_user s' = sv_user s1"
      "SettingsSaved (sv_user s1) \<in> set (sv_out s')"
    using save_settings_result by blast
  then show ?thesis
    by (simp add: s1_def)
qed

text \<open>The calls as the service takes them.\<close>

definition on_call :: "world \<Rightarrow> luck \<Rightarrow> rpc_call \<Rightarrow> sact" where
  "on_call w luck x =
     (case service_input_of x of None \<Rightarrow> sdone | Some i \<Rightarrow> service_step w luck i)"

text \<open>C12. When the cloud answers the switch of a profile with a screen and a profile, and the service
  is connected, the configuration program makes exactly two calls, the proxy and then the login
  with the new screen and profile. A service that takes that login without an error has saved it,
  and, if the login is new to its cloud client, its session with the cloud is set to the channel of
  that profile with that token.\<close>

theorem switch_reaches_the_service:
  assumes "k < length (cc_pending (cf_client p))" "cc_pending (cf_client p) ! k = WaitSwitch"
    and "rp_status r = Some 200" "ce_parse e (rp_body r) = Some (QObject obj)"
    and "map_of obj ''screen_id'' = Some (QWhole sc)" "map_of obj ''profile_id'' = Some (QWhole pr)"
    and "int32_range sc" "int32_range pr" "pr \<noteq> -1"
    and "wc_connected (cf_rpc p)" "wc_session (cf_rpc p)"
    and "login = AuthUpdate (ac_userId (cc_app (cf_client p))) sc pr (ac_userToken (cc_app (cf_client p)))"
    and "on_call w luck login s = (None, s')"
    and "pr \<noteq> sint (l_lastProfileId (sv_link s)) \<or>
      ac_userToken (cc_app (cf_client p)) \<noteq> l_lastUserToken (sv_link s)"
    and "ws_connected (l_ws (sv_link s)) \<longrightarrow> ws_target (l_ws (sv_link s)) = kSubTarget"
  shows "(\<exists>p'. program_step e (Client (Reply k r)) p = Some p' \<and>
      sent p' = sent p @ [ProxyUpdate ''http'' (cf_httpProxy p), login]) \<and>
    userId (sv_user s') = ac_userId (cc_app (cf_client p)) \<and> screenId (sv_user s') = sc \<and>
    SettingsSaved (sv_user s') \<in> set (sv_out s') \<and>
    ws_target (l_ws (sv_link s')) = kSubTarget \<and>
    ws_headers (l_ws (sv_link s')) ''X-Auth-Token'' = Some (ac_userToken (cc_app (cf_client p))) \<and>
    ws_headers (l_ws (sv_link s')) ''X-Channel-Id'' = Some (dec pr)"
proof -
  note step = switch_reply_step [OF assms(1-8)]
  define p1 where "p1 = cf_emit (Requested (Signal ProfileUpdated))
    (p\<lparr>cf_client := client_step e (Reply k r) (cf_client p)\<rparr>)"
  have p1: "cf_rpc p1 = cf_rpc p" "cf_httpProxy p1 = cf_httpProxy p" "auth_update p1 = login"
    using step(2) assms(12) by (simp_all add: p1_def cf_emit_def auth_update_def)
  have out: "drop (length (cc_out (cf_client p))) (cc_out (client_step e (Reply k r) (cf_client p))) =
      [Signal ProfileUpdated]"
    unfolding step(1) by simp
  have "program_step e (Client (Reply k r)) p = cf_calls (login_calls p1) p1"
    using assms(10) p1(1)
    by (simp add: program_step_def on_client_def Let_def out client_slot_def p1_def [symmetric]
        on_profileUpdated_def each_slot_end del: client_step_simps)
  then have "\<exists>p'. program_step e (Client (Reply k r)) p = Some p' \<and> sent p' = sent p @ login_calls p1"
    using cf_calls_session [of p1 "login_calls p1"] assms(11) p1(1) by (auto simp: sent_def)
  moreover have "rpc_auth_update w luck (ac_userId (cc_app (cf_client p))) sc pr
      (ac_userToken (cc_app (cf_client p))) s = (None, s')"
    using assms(12,13) by (simp add: on_call_def service_step_def)
  note result = auth_update_result [OF this]
  moreover have "login_set (sv_user s') (l_ws (sv_link s'))"
    using result assms(9,14,15) by (auto intro!: cloud_load_login)
  ultimately show ?thesis
    using p1(2,3) by (auto simp: login_calls_def login_set_def)
qed

definition demo_program :: config_program where
  "demo_program =
     (new_config_program
        (client_step demo_client_env (SwitchProfile ''default'')
          (new_config_client False ''2.0''
            (new_app_config (no_store\<lparr>st_userToken := Some ''t'', st_userId := Some 7\<rparr>))))
        '''' None [''config''])\<lparr>cf_rpc := new_wamp_client\<lparr>wc_connected := True, wc_session := True\<rparr>\<rparr>"

definition switched_reply :: http_reply where
  "switched_reply = \<lparr>rp_status = Some 200, rp_token = '''', rp_body = ''switched''\<rparr>"

theorem switch_reaches_the_service_witness:
  "\<exists>s'. on_call sample_world (True, 0) (AuthUpdate 7 5 3 ''t'') sample_service = (None, s') \<and>
     screenId (sv_user s') = 5 \<and> ws_headers (l_ws (sv_link s')) ''X-Auth-Token'' = Some ''t''"
proof -
  have "fst (on_call sample_world (True, 0) (AuthUpdate 7 5 3 ''t'') sample_service) = None"
    by code_simp
  then obtain s' where s': "on_call sample_world (True, 0) (AuthUpdate 7 5 3 ''t'') sample_service = (None, s')"
    by (metis prod.collapse)
  have c: "cc_pending (cf_client demo_program) = [WaitSwitch]"
      "ac_userId (cc_app (cf_client demo_program)) = 7"
      "ac_userToken (cc_app (cf_client demo_program)) = ''t''"
    by code_simp+
  have "screenId (sv_user s') = 5 \<and>
      ws_headers (l_ws (sv_link s')) ''X-Auth-Token'' = Some (ac_userToken (cc_app (cf_client demo_program)))"
    using switch_reaches_the_service [of 0 demo_program switched_reply demo_client_env
        "[(''screen_id'', QWhole 5), (''profile_id'', QWhole 3)]" 5 3, OF _ _ _ _ _ _ _ _ _ _ _ refl,
        of sample_world "(True, 0)" sample_service s'] c s'
    by (simp add: switched_reply_def demo_client_env_def int32_range_def demo_program_def
        sample_service_def new_cloud_link_def new_websocket_def)
  then show ?thesis
    using s' c(3) by auto
qed

end
