(* ===== verification/Rpc_Props.thy ===== *)
theory Rpc_Props
  imports Tray ConfigProgram_Props
begin

text \<open>
  What the two programs that use the calls have in common: with the interface \<open>rpc_user\<close>, no call of
  theirs is undefined once they have connected, and the signals about the connection are right. For
  the tray, the loss of the connection is the end of the program.
\<close>

section \<open>The configuration program as a user of the calls\<close>

lemma cf_call_steps: "cf_call x p = Some p' \<Longrightarrow> wamp_steps (cf_rpc p) (cf_rpc p')"
  by (auto simp: cf_call_def intro!: wamp_steps_one [of "RpcDo x"] simp: wamp_step_def)

lemma cf_calls_steps: "cf_calls xs p = Some p' \<Longrightarrow> wamp_steps (cf_rpc p) (cf_rpc p')"
  by (induction xs arbitrary: p)
    (auto simp: bind_eq_Some_conv intro: wamp_steps.Refl wamp_steps_trans dest!: cf_call_steps)

lemma rpc_slot_steps: "rpc_slot x p = Some p' \<Longrightarrow> wamp_steps (cf_rpc p) (cf_rpc p')"
  by (auto simp: rpc_slot_def cf_connected_def on_disconnected_def intro: wamp_steps.Refl
      split: rpc_event.splits dest: cf_calls_steps)

lemma each_slot_steps:
  "(\<And>x q q'. f x q = Some q' \<Longrightarrow> wamp_steps (cf_rpc q) (cf_rpc q')) \<Longrightarrow>
   each_slot f xs p = Some p' \<Longrightarrow> wamp_steps (cf_rpc p) (cf_rpc p')"
proof (induction xs arbitrary: p)
  case (Cons x xs)
  obtain q where q: "f x p = Some q" "each_slot f xs q = Some p'"
    using Cons.prems(2) by (auto simp: bind_eq_Some_conv)
  show ?case
    by (rule wamp_steps_trans [OF Cons.IH [OF Cons.prems(1) q(2)] Cons.prems(1) [OF q(1)]])
qed (simp add: wamp_steps.Refl)

lemma on_rpc_steps: "on_rpc i p = Some p' \<Longrightarrow> wamp_steps (cf_rpc p) (cf_rpc p')"
  by (auto simp: on_rpc_def bind_eq_Some_conv
      dest!: each_slot_steps [OF rpc_slot_steps, rotated] intro: wamp_steps_trans wamp_steps_one)

lemma client_slot_steps: "client_slot x p = Some p' \<Longrightarrow> wamp_steps (cf_rpc p) (cf_rpc p')"
  by (auto simp: client_slot_def on_profileUpdated_def cf_emit_def Let_def intro: wamp_steps.Refl
      split: if_splits dest!: cf_calls_steps)

lemma on_client_steps: "on_client e i p = Some p' \<Longrightarrow> wamp_steps (cf_rpc p) (cf_rpc p')"
  by (auto simp: on_client_def Let_def dest!: each_slot_steps [OF client_slot_steps, rotated])

lemma show_lines_rpc [simp]: "cf_rpc (show_lines pre t p) = cf_rpc p"
proof -
  have "cf_rpc (fold (\<lambda>l. cf_emit (ShowLine (pre @ l))) ls p) = cf_rpc p" for ls
    by (induction ls arbitrary: p) (simp_all add: cf_emit_def)
  then show ?thesis
    by (simp add: show_lines_def)
qed

lemma on_published_steps: "on_published e x p = Some p' \<Longrightarrow> wamp_steps (cf_rpc p) (cf_rpc p')"
  by (cases x)
    (auto simp: on_published_def cf_emit_def bind_eq_Some_conv intro: wamp_steps.Refl wamp_steps_trans
      dest!: on_client_steps)

lemma program_step_steps: "program_step e i p = Some p' \<Longrightarrow> wamp_steps (cf_rpc p) (cf_rpc p')"
  by (cases i)
    (auto simp: program_step_def cf_emit_def on_retry_def restart_program_def Let_def ev_retry_def
      requestProfileSnapshot_def proxy_serverClaim_def restartService_def on_logLine_def
      intro: wamp_steps.Refl dest!: on_rpc_steps on_client_steps on_published_steps cf_call_steps
      split: list.splits error_view_mode.splits if_splits prod.splits)

text \<open>The calls of the program are defined where there is a session.\<close>

lemma cf_calls_defined: "rpc_ok (cf_rpc p) \<Longrightarrow> cf_calls xs p \<noteq> None"
  using cf_calls_session [of p xs] by (auto simp: rpc_ok_def)

lemma cf_call_defined: "rpc_ok (cf_rpc p) \<Longrightarrow> cf_call x p \<noteq> None"
  using cf_call_session [of p x] by (auto simp: rpc_ok_def)

lemma each_slot_defined:
  assumes "\<And>x q q'. f x q = Some q' \<Longrightarrow> wamp_steps (cf_rpc q) (cf_rpc q')"
    and "\<And>x q. rpc_ok (cf_rpc q) \<Longrightarrow> f x q \<noteq> None"
  shows "rpc_ok (cf_rpc p) \<Longrightarrow> each_slot f xs p \<noteq> None"
proof (induction xs arbitrary: p)
  case (Cons x xs)
  obtain q where q: "f x p = Some q"
    using assms(2) [OF Cons.prems, of x] by auto
  then have "rpc_ok (cf_rpc q)"
    using assms(1) wamp_steps_ok Cons.prems by blast
  then show ?case
    using Cons.IH q by simp
qed simp

lemma rpc_slot_defined: "rpc_ok (cf_rpc p) \<Longrightarrow> rpc_slot x p \<noteq> None"
  using cf_calls_defined by (auto simp: rpc_slot_def cf_connected_def split: rpc_event.splits)

lemma client_slot_defined: "rpc_ok (cf_rpc p) \<Longrightarrow> client_slot x p \<noteq> None"
  using cf_calls_defined [of "cf_emit (Requested x) p"]
  by (auto simp: client_slot_def on_profileUpdated_def cf_emit_def Let_def)

lemma on_client_defined: "rpc_ok (cf_rpc p) \<Longrightarrow> on_client e i p \<noteq> None"
  unfolding on_client_def Let_def
  by (rule each_slot_defined [OF client_slot_steps client_slot_defined]) simp_all

lemma on_rpc_defined:
  assumes "rpc_ok (cf_rpc p)"
  shows "on_rpc i p \<noteq> None"
proof -
  obtain w where w: "wamp_step i (cf_rpc p) = Some w" "rpc_ok w"
    using wamp_step_ok [OF assms] by blast
  have "each_slot rpc_slot (drop (length (wc_events (cf_rpc p))) (wc_events w)) (p\<lparr>cf_rpc := w\<rparr>) \<noteq> None"
    by (rule each_slot_defined [OF rpc_slot_steps rpc_slot_defined]) (simp_all add: w(2))
  then show ?thesis
    using w(1) by (simp add: on_rpc_def)
qed

lemma on_published_defined:
  assumes "rpc_ok (cf_rpc p)"
  shows "on_published e x p \<noteq> None"
proof (cases x)
  case VersionCheck
  obtain q where q: "on_client e EnableVersionCheck p = Some q"
    using on_client_defined [OF assms] by blast
  then have "rpc_ok (cf_rpc q)"
    using on_client_steps wamp_steps_ok assms by blast
  then show ?thesis
    using VersionCheck q on_client_defined by (simp add: on_published_def)
qed (use assms on_client_defined in \<open>simp_all add: on_published_def\<close>)

lemma program_step_defined:
  assumes "rpc_ok (cf_rpc p)"
  shows "program_step e i p \<noteq> None"
proof (cases i)
  case UiTurn
  then show ?thesis
    using assms on_published_defined by (auto simp: program_step_def split: list.split)
next
  case RetryClicked
  then show ?thesis
    using assms cf_call_defined
    by (auto simp: program_step_def on_retry_def ev_retry_def Let_def split: error_view_mode.split)
qed (use assms on_rpc_defined on_client_defined cf_call_defined in
    \<open>simp_all add: program_step_def requestProfileSnapshot_def proxy_serverClaim_def
       restartService_def on_logLine_def\<close>)

interpretation config: rpc_user cf_rpc "program_step e" for e
  by unfold_locales (auto simp: program_step_steps program_step_defined)

section \<open>The tray as a user of the calls\<close>

lemma tp_call_steps: "tp_call x t = Some t' \<Longrightarrow> wamp_steps (tp_rpc t) (tp_rpc t')"
  by (auto simp: tp_call_def intro!: wamp_steps_one [of "RpcDo x"] simp: wamp_step_def)

lemma tp_event_steps: "tp_event x t = Some t' \<Longrightarrow> wamp_steps (tp_rpc t) (tp_rpc t')"
  by (auto simp: tp_event_def tp_connected_def tp_disconnected_def intro: wamp_steps.Refl
      split: rpc_event.splits if_splits dest: tp_call_steps)

lemma tp_events_steps: "tp_events xs t = Some t' \<Longrightarrow> wamp_steps (tp_rpc t) (tp_rpc t')"
proof (induction xs arbitrary: t)
  case (Cons x xs)
  obtain q where q: "tp_event x t = Some q" "tp_events xs q = Some t'"
    using Cons.prems by (auto simp: bind_eq_Some_conv)
  show ?case
    by (rule wamp_steps_trans [OF Cons.IH [OF q(2)] tp_event_steps [OF q(1)]])
qed (simp add: wamp_steps.Refl)

lemma tp_wamp_steps: "tp_wamp i t = Some t' \<Longrightarrow> wamp_steps (tp_rpc t) (tp_rpc t')"
  by (auto simp: tp_wamp_def bind_eq_Some_conv dest!: tp_events_steps
      intro: wamp_steps_trans wamp_steps_one)

lemma tp_log_steps: "tp_log l t = Some t' \<Longrightarrow> wamp_steps (tp_rpc t) (tp_rpc t')"
  by (auto simp: tp_log_def intro: wamp_steps.Refl split: if_splits dest: tp_call_steps)

lemma tp_shutdown_steps: "tp_shutdown t = Some t' \<Longrightarrow> wamp_steps (tp_rpc t) (tp_rpc t')"
  by (auto simp: tp_shutdown_def Let_def split: if_splits dest!: tp_wamp_steps tp_call_steps)

lemma tp_hello_answer_steps:
  "tp_hello_answer kill off t = Some t' \<Longrightarrow> wamp_steps (tp_rpc t) (tp_rpc t')"
  by (auto simp: tp_hello_answer_def tp_status_def bind_eq_Some_conv intro: wamp_steps.Refl
      wamp_steps_trans split: if_splits dest!: tp_log_steps tp_shutdown_steps)

lemma tp_goodbye_answer_steps: "tp_goodbye_answer t = Some t' \<Longrightarrow> wamp_steps (tp_rpc t) (tp_rpc t')"
  by (auto simp: tp_goodbye_answer_def dest!: tp_wamp_steps)

lemma tp_answer_steps:
  assumes "tp_answer k good kill off t = Some t'"
  shows "wamp_steps (tp_rpc t) (tp_rpc t')"
proof (cases "k < length (wc_calls (tp_rpc t))")
  case True
  then obtain t1 where t1: "tp_wamp (RpcAnswer k good) t = Some t1"
      "t1 = t' \<or> tp_hello_answer kill off t1 = Some t' \<or> tp_goodbye_answer t1 = Some t'"
    using assms by (auto simp: tp_answer_def Let_def bind_eq_Some_conv split: if_splits)
  have "wamp_steps (tp_rpc t1) (tp_rpc t')"
    using t1(2) tp_hello_answer_steps tp_goodbye_answer_steps by (auto intro: wamp_steps.Refl)
  then show ?thesis
    using tp_wamp_steps [OF t1(1)] wamp_steps_trans by blast
qed (use assms in \<open>simp add: tp_answer_def wamp_steps.Refl\<close>)

lemma tp_ping_steps: "tp_ping good t = Some t' \<Longrightarrow> wamp_steps (tp_rpc t) (tp_rpc t')"
  by (auto simp: tp_ping_def intro: wamp_steps.Refl split: if_splits
      dest!: tp_shutdown_steps tp_call_steps)

lemma tray_step_steps: "tray_step i t = Some t' \<Longrightarrow> wamp_steps (tp_rpc t) (tp_rpc t')"
  by (cases i)
    (auto simp: tray_step_def tp_status_def onCoreDisabled_def tp_pause_def tp_resume_def enableCore_def disableCore_def
      intro: wamp_steps.Refl split: if_splits list.splits
      dest!: tp_wamp_steps tp_answer_steps tp_ping_steps tp_shutdown_steps tp_call_steps)

lemma tp_call_defined: "rpc_ok (tp_rpc t) \<Longrightarrow> tp_call x t \<noteq> None"
  by (simp add: tp_call_def wc_call_session rpc_ok_def)

lemma tp_event_defined: "rpc_ok (tp_rpc t) \<Longrightarrow> tp_event x t \<noteq> None"
  using tp_call_defined by (auto simp: tp_event_def tp_connected_def split: rpc_event.splits)

lemma tp_events_defined: "rpc_ok (tp_rpc t) \<Longrightarrow> tp_events xs t \<noteq> None"
proof (induction xs arbitrary: t)
  case (Cons x xs)
  obtain q where q: "tp_event x t = Some q"
    using tp_event_defined [OF Cons.prems] by blast
  then have "rpc_ok (tp_rpc q)"
    using tp_event_steps wamp_steps_ok Cons.prems by blast
  then show ?case
    using Cons.IH q by simp
qed simp

lemma tp_wamp_defined:
  assumes "rpc_ok (tp_rpc t)"
  shows "tp_wamp i t \<noteq> None"
proof -
  obtain w where w: "wamp_step i (tp_rpc t) = Some w" "rpc_ok w"
    using wamp_step_ok [OF assms] by blast
  then show ?thesis
    using tp_events_defined [of "t\<lparr>tp_rpc := w\<rparr>"] by (simp add: tp_wamp_def)
qed

lemma tp_shutdown_defined: "rpc_ok (tp_rpc t) \<Longrightarrow> tp_shutdown t \<noteq> None"
  unfolding tp_shutdown_def Let_def
  using tp_wamp_defined [of "t\<lparr>tp_pingTimer := False\<rparr>"] tp_call_defined [of "t\<lparr>tp_pingTimer := False\<rparr>"]
  by auto

lemma tp_hello_answer_defined:
  assumes "rpc_ok (tp_rpc t)"
  shows "tp_hello_answer kill off t \<noteq> None"
proof -
  have "tp_log l t \<noteq> None" for l
    using tp_call_defined [OF assms] by (auto simp: tp_log_def)
  then obtain q where q: "tp_log ''Received kill command from service.'' t = Some q"
    by blast
  then have "tp_shutdown q \<noteq> None"
    using tp_log_steps wamp_steps_ok assms tp_shutdown_defined by blast
  then show ?thesis
    using q by (simp add: tp_hello_answer_def)
qed

lemma tp_answer_defined:
  assumes "rpc_ok (tp_rpc t)"
  shows "tp_answer k good kill off t \<noteq> None"
proof -
  obtain q where q: "tp_wamp (RpcAnswer k good) t = Some q"
    using tp_wamp_defined [OF assms] by blast
  then have ok: "rpc_ok (tp_rpc q)"
    using tp_wamp_steps wamp_steps_ok assms by blast
  show ?thesis
    using q tp_hello_answer_defined [OF ok] tp_wamp_defined [of "q\<lparr>tp_ready := False\<rparr>"] ok
    by (simp add: tp_answer_def Let_def tp_goodbye_answer_def)
qed

lemma tray_step_defined: "rpc_ok (tp_rpc t) \<Longrightarrow> tray_step i t \<noteq> None"
  by (cases i)
    (use tp_wamp_defined tp_answer_defined tp_shutdown_defined tp_call_defined in
      \<open>simp_all add: tray_step_def tp_ping_def tp_pause_def tp_resume_def enableCore_def disableCore_def split: list.split\<close>)

interpretation tray: rpc_user tp_rpc tray_step
  by unfold_locales (auto simp: tray_step_steps tray_step_defined)

section \<open>No undefined call\<close>

lemma program_run_all: "program_run e is p = config.run_all e is p"
proof (induction "is" arbitrary: p)
  case (Cons i "is")
  then show ?case
    by (cases "program_step e i p") simp_all
qed simp

lemma start_program_ok:
  assumes "start_program (new_config_program c proxy uid argv) = Some p"
  shows "rpc_ok (cf_rpc p) \<and> signals_agree (cf_rpc p)"
proof -
  have w: "wamp_step RpcConnect new_wamp_client = Some (wc_connect new_wamp_client)"
    "wc_events new_wamp_client = []" "wc_events (wc_connect new_wamp_client) = [RpcConnecting]"
    by (simp_all add: wamp_step_def wamp_defs new_wamp_client_def)
  have "cf_rpc p = wc_connect new_wamp_client"
    using assms
    by (auto simp: start_program_def new_config_program_def on_rpc_def w rpc_slot_def)
  moreover have "signals_agree (wc_connect new_wamp_client)"
    by (simp add: signals_agree_def wamp_defs new_wamp_client_def signalled_def)
  ultimately show ?thesis
    using wamp_connect_ok by simp
qed

text \<open>C29. The configuration program never calls over a session that does not exist: once it has been
  started, whatever happens in whatever order, each of its steps is defined, and it takes itself to
  be connected exactly when the last signal of its connection said so.\<close>

theorem program_makes_no_undefined_call:
  assumes "start_program (new_config_program c proxy uid argv) = Some p"
  shows "\<exists>p'. program_run e is p = Some p' \<and>
    wc_connected (cf_rpc p') = signalled (wc_events (cf_rpc p'))"
proof -
  note ok = start_program_ok [OF assms]
  obtain p' where p': "config.run_all e is p = Some p'"
    using config.run_defined ok by blast
  then have "signals_agree (cf_rpc p')"
    using config.run_signals ok by blast
  then show ?thesis
    using p' by (simp add: program_run_all signals_agree_def)
qed

theorem program_makes_no_undefined_call_witness:
  "\<exists>p p'. start_program (new_config_program demo_client '''' None [''config'']) = Some p \<and>
     program_run demo_client_env [RetryClicked, ClaimClicked 4, RpcHappens (RpcPhase False)] p = Some p' \<and>
     \<not> wc_connected (cf_rpc p')"
proof -
  have "map_option (\<lambda>p. map_option (\<lambda>p'. wc_connected (cf_rpc p'))
      (program_run demo_client_env [RetryClicked, ClaimClicked 4, RpcHappens (RpcPhase False)] p))
      (start_program (new_config_program demo_client '''' None [''config''])) = Some (Some False)"
    by code_simp
  then obtain p where p: "start_program (new_config_program demo_client '''' None [''config'']) = Some p"
      "map_option (\<lambda>p'. wc_connected (cf_rpc p')) (program_run demo_client_env
        [RetryClicked, ClaimClicked 4, RpcHappens (RpcPhase False)] p) = Some False"
    by (auto simp: map_option_eq_Some)
  then show ?thesis
    using program_makes_no_undefined_call [OF p(1), of demo_client_env
        "[RetryClicked, ClaimClicked 4, RpcHappens (RpcPhase False)]"] by auto
qed

section \<open>The loss of the service\<close>

text \<open>A signal of the service that waits in the queue hides the loss of the service: when a call
  fails while a notice that the cloud is online is queued, the program shows the error page for the
  service and then, when the notice is handled, takes it away, although there is no connection.\<close>

theorem queued_notice_hides_the_loss:
  assumes "k < length (wc_calls (cf_rpc p))" "cf_queue p = CloudOnline # xs"
  shows "\<exists>q p'. program_step e (RpcHappens (RpcAnswer k False)) p = Some q \<and>
    ev_mode (cf_view q) = ServiceErrorView \<and> \<not> wc_connected (cf_rpc q) \<and>
    program_step e UiTurn q = Some p' \<and> \<not> wc_connected (cf_rpc p') \<and> \<not> ev_visible (cf_view p')"
  using assms
  by (simp add: program_step_def on_rpc_def wamp_step_def wc_call_done_def wc_disconnected_def
      wc_emit_def rpc_slot_def on_disconnected_def setMode_def on_published_def ev_visible_def Let_def)

theorem queued_notice_hides_the_loss_witness:
  "\<exists>q p'. program_step demo_client_env (RpcHappens (RpcAnswer 0 False))
      (demo_program\<lparr>cf_rpc := new_wamp_client\<lparr>wc_calls := [Hello]\<rparr>, cf_queue := [CloudOnline]\<rparr>) = Some q \<and>
    program_step demo_client_env UiTurn q = Some p' \<and> \<not> ev_visible (cf_view p')"
  using queued_notice_hides_the_loss [of 0
      "demo_program\<lparr>cf_rpc := new_wamp_client\<lparr>wc_calls := [Hello]\<rparr>, cf_queue := [CloudOnline]\<rparr>" "[]"
      demo_client_env] by auto

text \<open>A connection that takes longer than the first interval of the keep-alive is not watched: the
  failure is logged, nobody is told, and no further keep-alive is sent.\<close>

lemma slow_connection_is_not_watched:
  "\<exists>w. fold (\<lambda>i w. Option.bind w (wamp_step i))
      [RpcConnect, RpcKeepAlive True, RpcPhase True, RpcPhase True, RpcPhase True]
      (Some new_wamp_client) = Some w \<and>
    wc_connected w \<and> \<not> wc_keepAliveTimer w \<and> wc_events w = [RpcConnecting, RpcConnected]"
  by (simp add: wamp_step_def wamp_defs new_wamp_client_def)

section \<open>The end of the tray\<close>

definition lost :: "tray_program \<Rightarrow> bool" where
  "lost t \<longleftrightarrow> (\<exists>b. RpcDisconnected b \<in> set (wc_events (tp_rpc t)))"

text \<open>The program has exited, or no connection was lost.\<close>

definition tray_inv :: "tray_program \<Rightarrow> bool" where
  "tray_inv t \<longleftrightarrow> tp_exit t \<noteq> None \<or> \<not> lost t"

lemma tp_call_frame:
  "tp_call x t = Some t' \<Longrightarrow>
   lost t' = lost t \<and> tp_exit t' = tp_exit t \<and> tp_pingTimer t' = tp_pingTimer t \<and>
   tp_ready t' = tp_ready t"
  by (auto simp: tp_call_def wc_call_def wc_emit_def lost_def split: if_splits)

lemma tp_event_frame:
  "tp_event x t = Some t' \<Longrightarrow>
   lost t' = lost t \<and> (tp_exit t' = None \<longrightarrow> tp_exit t = None \<and> (\<forall>b. x \<noteq> RpcDisconnected b) \<and>
     tp_pingTimer t' = tp_pingTimer t \<and> tp_ready t' = tp_ready t)"
  by (auto simp: tp_event_def tp_connected_def tp_disconnected_def lost_def dest!: tp_call_frame
      split: if_splits rpc_event.splits)

lemma tp_events_frame:
  "tp_events xs t = Some t' \<Longrightarrow>
   lost t' = lost t \<and> (tp_exit t' = None \<longrightarrow> tp_exit t = None \<and> (\<forall>b. RpcDisconnected b \<notin> set xs) \<and>
     tp_pingTimer t' = tp_pingTimer t \<and> tp_ready t' = tp_ready t)"
proof (induction xs arbitrary: t)
  case (Cons x xs)
  obtain q where q: "tp_event x t = Some q" "tp_events xs q = Some t'"
    using Cons.prems by (auto simp: bind_eq_Some_conv)
  then show ?case
    using tp_event_frame [OF q(1)] Cons.IH [OF q(2)] by auto
qed simp

lemma wamp_step_grows:
  "wamp_step i w = Some w' \<Longrightarrow> \<exists>es. wc_events w' = wc_events w @ es"
  by (cases i) (auto simp: wamp_step_def wamp_defs Let_def split: rpc_phase.splits if_splits)

lemma tp_wamp_frame:
  assumes "tp_wamp i t = Some t'" "tp_exit t' = None"
  shows "lost t' = lost t \<and> tp_exit t = None \<and> tp_pingTimer t' = tp_pingTimer t \<and>
    tp_ready t' = tp_ready t"
proof -
  obtain w where w: "wamp_step i (tp_rpc t) = Some w"
      "tp_events (drop (length (wc_events (tp_rpc t))) (wc_events w)) (t\<lparr>tp_rpc := w\<rparr>) = Some t'"
    using assms(1) by (auto simp: tp_wamp_def bind_eq_Some_conv)
  obtain es where es: "wc_events w = wc_events (tp_rpc t) @ es"
    using wamp_step_grows [OF w(1)] by blast
  show ?thesis
    using tp_events_frame [OF w(2)] assms(2) es by (auto simp: lost_def)
qed

lemma tp_wamp_inv:
  assumes "tp_wamp i t = Some t'" "tray_inv t"
  shows "tray_inv t'"
  using tp_wamp_frame [OF assms(1)] assms(2) by (auto simp: tray_inv_def)

lemma tp_shutdown_inv:
  assumes "tp_shutdown t = Some t'" "tray_inv t" "tp_exit t = None"
  shows "tray_inv t'"
proof -
  have "tray_inv (t\<lparr>tp_pingTimer := False\<rparr>)"
    using assms(2,3) by (simp add: tray_inv_def lost_def)
  then show ?thesis
    using assms(1) tp_wamp_inv [of RpcDisconnect "t\<lparr>tp_pingTimer := False\<rparr>"]
      tp_call_frame [of TrayGoodbye "t\<lparr>tp_pingTimer := False\<rparr>"]
    by (auto simp: tp_shutdown_def Let_def tray_inv_def split: if_splits)
qed

lemma tp_answer_inv:
  assumes "tp_answer k good kill off t = Some t'" "tray_inv t"
  shows "tray_inv t'"
proof (cases "k < length (wc_calls (tp_rpc t))")
  case True
  obtain q where q: "tp_wamp (RpcAnswer k good) t = Some q"
      "t' = q \<or> tp_exit q = None \<and> (tp_hello_answer kill off q = Some t' \<or> tp_goodbye_answer q = Some t')"
    using assms(1) True by (auto simp: tp_answer_def Let_def bind_eq_Some_conv split: if_splits)
  have inv: "tray_inv q"
    by (rule tp_wamp_inv [OF q(1) assms(2)])
  consider (same) "t' = q" | (hello) "tp_exit q = None" "tp_hello_answer kill off q = Some t'"
    | (goodbye) "tp_exit q = None" "tp_goodbye_answer q = Some t'"
    using q(2) by (elim disjE conjE)
  then show ?thesis
  proof cases
    case hello
    show ?thesis
    proof (cases kill)
      case True
      then obtain r where r: "tp_log ''Received kill command from service.'' q = Some r"
          "tp_shutdown r = Some t'"
        using hello by (auto simp: tp_hello_answer_def bind_eq_Some_conv)
      have "tray_inv r \<and> tp_exit r = None"
        using r(1) inv hello(1) by (auto simp: tp_log_def tray_inv_def split: if_splits dest!: tp_call_frame)
      then show ?thesis
        using tp_shutdown_inv r(2) by blast
    next
      case False
      then show ?thesis
        using hello inv by (auto simp: tp_hello_answer_def tp_status_def tray_inv_def lost_def)
    qed
  next
    case goodbye
    then show ?thesis
      using tp_wamp_frame [of RpcDisconnect "q\<lparr>tp_ready := False\<rparr>" t'] inv
      by (auto simp: tp_goodbye_answer_def tray_inv_def lost_def)
  qed (use inv in simp)
qed (use assms in \<open>simp add: tp_answer_def\<close>)

lemma tray_step_inv:
  assumes "tray_step i t = Some t'" "tray_inv t"
  shows "tray_inv t'"
proof (cases "tp_exit t")
  case None
  note frame = tp_call_frame tp_wamp_inv [OF _ assms(2)] tp_answer_inv [OF _ assms(2)]
    tp_shutdown_inv [OF _ assms(2) None]
  show ?thesis
  proof (cases i)
    case (TrayPingTimer good)
    then show ?thesis
      using assms None
      by (auto simp: tray_step_def tp_ping_def tray_inv_def lost_def split: if_splits
          dest!: tp_shutdown_inv [OF _ assms(2) None, unfolded tray_inv_def lost_def] tp_call_frame)
  next
    case MenuTurn
    then show ?thesis
      using assms None
      by (auto simp: tray_step_def onCoreDisabled_def tray_inv_def lost_def split: list.splits if_splits)
  next
    case (CoreDisabledPublished off)
    then show ?thesis
      using assms None by (auto simp: tray_step_def tp_status_def tray_inv_def lost_def split: if_splits)
  next
    case EnableClicked
    then show ?thesis
      using assms None
      by (auto simp: tray_step_def enableCore_def tp_resume_def tray_inv_def split: if_splits dest!: tp_call_frame)
  next
    case DisableClicked
    then show ?thesis
      using assms None
      by (auto simp: tray_step_def disableCore_def tp_pause_def tray_inv_def split: if_splits dest!: tp_call_frame)
  qed (use assms None frame in \<open>auto simp: tray_step_def split: if_splits\<close>)
qed (use assms in \<open>simp add: tray_step_def\<close>)

lemma tray_run_all: "tray_run is t = tray.run_all is t"
proof (induction "is" arbitrary: t)
  case (Cons i "is")
  then show ?case
    by (cases "tray_step i t") simp_all
qed simp

lemma tray_run_inv: "tray_run is t = Some t' \<Longrightarrow> tray_inv t \<Longrightarrow> tray_inv t'"
  by (induction "is" arbitrary: t) (auto simp: bind_eq_Some_conv intro: tray_step_inv)

lemma start_tray:
  assumes "tray_step TrayConnect new_tray_program = Some t"
  shows "rpc_ok (tp_rpc t) \<and> signals_agree (tp_rpc t) \<and> tray_inv t"
proof -
  have w: "wamp_step RpcConnect new_wamp_client = Some (wc_connect new_wamp_client)"
    "wc_events new_wamp_client = []" "wc_events (wc_connect new_wamp_client) = [RpcConnecting]"
    by (simp_all add: wamp_step_def wamp_defs new_wamp_client_def)
  have t: "tp_rpc t = wc_connect new_wamp_client"
    using assms by (auto simp: tray_step_def new_tray_program_def tp_wamp_def w tp_event_def)
  have "signals_agree (tp_rpc t)" "\<not> lost t"
    unfolding t lost_def
    by (simp_all add: signals_agree_def wamp_defs new_wamp_client_def signalled_def)
  then show ?thesis
    using wamp_connect_ok t by (simp add: tray_inv_def)
qed

lemma never_lost_signalled:
  "(\<forall>b. RpcDisconnected b \<notin> set es) \<Longrightarrow> signalled es \<longleftrightarrow> RpcConnected \<in> set es"
proof (induction es rule: rev_induct)
  case (snoc x es)
  then show ?case
    by (cases x) auto
qed simp

text \<open>The tray does not outlive its connection: whatever happens after it was started, every one
  of its steps is defined, and as long as the program has not exited, it is connected if it ever
  was.\<close>

theorem tray_ends_with_its_connection:
  assumes "tray_step TrayConnect new_tray_program = Some t"
  shows "\<exists>t'. tray_run is t = Some t' \<and>
    (tp_exit t' = None \<longrightarrow> wc_connected (tp_rpc t') = (RpcConnected \<in> set (wc_events (tp_rpc t'))))"
proof -
  note start = start_tray [OF assms]
  obtain t' where t': "tray.run_all is t = Some t'"
    using tray.run_defined start by blast
  have "signals_agree (tp_rpc t')" "tray_inv t'"
    using tray.run_signals t' tray_run_inv start by (auto simp: tray_run_all)
  then show ?thesis
    using t' never_lost_signalled
    by (auto simp: tray_run_all signals_agree_def tray_inv_def lost_def)
qed

definition accepted_tray :: "tray_input list" where
  "accepted_tray =
     [TrayRpc True, TrayRpc True, TrayRpc True, TrayAnswered 0 True False True, MenuTurn]"

theorem tray_ends_with_its_connection_witness:
  "\<exists>t t'. tray_step TrayConnect new_tray_program = Some t \<and> tray_run accepted_tray t = Some t' \<and>
     wc_connected (tp_rpc t') \<and> \<not> tp_disableAction t'"
proof -
  have "map_option (\<lambda>t. map_option (\<lambda>t'. (tp_exit t', RpcConnected \<in> set (wc_events (tp_rpc t')),
      tp_disableAction t')) (tray_run accepted_tray t))
      (tray_step TrayConnect new_tray_program) = Some (Some (None, True, False))"
    by code_simp
  then obtain t t' where t: "tray_step TrayConnect new_tray_program = Some t"
      "tray_run accepted_tray t = Some t'" "tp_exit t' = None"
      "RpcConnected \<in> set (wc_events (tp_rpc t'))" "\<not> tp_disableAction t'"
    by (auto simp: map_option_eq_Some)
  then show ?thesis
    using tray_ends_with_its_connection [OF t(1), of accepted_tray] by auto
qed

text \<open>A tray that the service tells to stop exits with the code of a failure, and so does one
  that says goodbye.\<close>

lemma killed_tray_fails:
  "map_option tp_exit (Option.bind (tray_step TrayConnect new_tray_program)
     (tray_run [TrayRpc True, TrayRpc True, TrayRpc True, TrayAnswered 0 True True False])) =
   Some (Some EXIT_FAILURE)"
  by code_simp

lemma tray_that_quits_fails:
  "map_option tp_exit (Option.bind (tray_step TrayConnect new_tray_program)
     (tray_run (accepted_tray @ [TrayQuit, TrayAnswered 0 True False False]))) =
   Some (Some EXIT_FAILURE)"
  by code_simp

end
