(* ===== verification/Controller.thy ===== *)
theory Controller
  imports Websocket
begin

text \<open>
  The controller of the service under Windows (\<open>service/windows/ServiceController.cpp\<close>): a system
  service that starts the service program in the session of the user, watches over it in a thread,
  and reports its own status to the service manager. The answers of the system come with each
  operation as records. A \<open>throw\<close> without an operand and outside of a handler has no exception to
  throw again and ends the program, past every handler. The handles that the code keeps are flags,
  and the processes of the machine are a list.
\<close>

section \<open>State\<close>

datatype service_state =
    START_PENDING | RUNNING | STOP_PENDING | STOPPED | PAUSE_PENDING | PAUSED | CONTINUE_PENDING

record service_status =
  dwCurrentState :: service_state
  dwWin32ExitCode :: u32
  dwCheckPoint :: u32
  dwWaitHint :: u32

record process_entry =
  pe_pid :: nat
  pe_session :: "nat option"
  pe_exe :: string
  pe_job :: bool

record controller =
  m_install :: bool
  m_uninstall :: bool
  m_foreground :: bool
  m_status :: service_status
  m_checkPoint :: u32
  m_job :: bool
  m_service :: "nat option"
  m_monitor :: bool
  m_processes :: "process_entry list"
  m_reports :: "service_status list"
  m_eventLog :: "string list"

definition kServiceProcess :: string where "kServiceProcess = ''synergy-service.exe''"
definition kCoreProcess :: string where "kCoreProcess = ''synergy-core.exe''"
definition kWinLogon :: string where "kWinLogon = ''winlogon.exe''"
definition STILL_ACTIVE :: nat where "STILL_ACTIVE = 259"

definition new_controller :: "process_entry list \<Rightarrow> controller" where
  "new_controller ps =
     \<lparr>m_install = False, m_uninstall = False, m_foreground = False,
      m_status = \<lparr>dwCurrentState = START_PENDING, dwWin32ExitCode = 0, dwCheckPoint = 0, dwWaitHint = 0\<rparr>,
      m_checkPoint = 1, m_job = False, m_service = None, m_monitor = False, m_processes = ps,
      m_reports = [], m_eventLog = []\<rparr>"

text \<open>How an operation ends: as it should, with an exception, with the end of the program by
  \<open>std::terminate\<close>, or with its exit.\<close>

datatype run_end = Fine | Threw | Terminated | Exited nat

type_synonym cact = "controller \<Rightarrow> run_end \<times> controller"

definition cfine :: cact where "cfine c = (Fine, c)"
definition cthrow :: cact where "cthrow c = (Threw, c)"
definition rethrow_nothing :: cact where "rethrow_nothing c = (Terminated, c)"

definition cthen :: "cact \<Rightarrow> cact \<Rightarrow> cact" where
  "cthen f g c = (case f c of (Fine, c') \<Rightarrow> g c' | (e, c') \<Rightarrow> (e, c'))"

text \<open>A handler for every exception.\<close>

definition catching :: "cact \<Rightarrow> cact \<Rightarrow> cact" where
  "catching f h c = (case f c of (Threw, c') \<Rightarrow> h c' | r \<Rightarrow> r)"

definition change :: "(controller \<Rightarrow> controller) \<Rightarrow> cact" where
  "change f c = (Fine, f c)"

definition writeEventErrorLog :: "string \<Rightarrow> cact" where
  "writeEventErrorLog msg = change (\<lambda>c. c\<lparr>m_eventLog := m_eventLog c @ [msg]\<rparr>)"

definition failing :: "string \<Rightarrow> cact" where
  "failing msg = cthen (writeEventErrorLog msg) rethrow_nothing"

section \<open>Arguments\<close>

definition parse_one :: "string \<Rightarrow> controller \<Rightarrow> controller" where
  "parse_one arg c =
     (if arg = ''/install'' \<or> arg = ''--install'' then c\<lparr>m_install := True\<rparr>
      else if arg = ''/uninstall'' \<or> arg = ''--uninstall'' then c\<lparr>m_uninstall := True\<rparr>
      else if arg = ''/foreground'' \<or> arg = ''--foreground'' then c\<lparr>m_foreground := True\<rparr>
      else c)"

definition parseArg :: "string list \<Rightarrow> controller \<Rightarrow> controller" where
  "parseArg argv c = fold parse_one (tl argv) c"

section \<open>Status\<close>

text \<open>The counter of the check points is one of the whole program; it wraps.\<close>

definition setServiceStatus :: "service_state \<Rightarrow> u32 \<Rightarrow> cact" where
  "setServiceStatus st code c =
     (let settled = (st = RUNNING \<or> st = STOPPED);
          status = \<lparr>dwCurrentState = st, dwWin32ExitCode = code,
                    dwCheckPoint = (if settled then 0 else m_checkPoint c), dwWaitHint = 0\<rparr>
      in (Fine, c\<lparr>m_status := status,
                  m_checkPoint := (if settled then m_checkPoint c else m_checkPoint c + 1),
                  m_reports := m_reports c @ [status]\<rparr>))"

section \<open>Processes\<close>

definition lower :: "char \<Rightarrow> char" where
  "lower c = (if 65 \<le> (of_char c :: nat) \<and> (of_char c :: nat) \<le> 90 then char_of ((of_char c :: nat) + 32) else c)"

definition stricmp_eq :: "string \<Rightarrow> string \<Rightarrow> bool" where
  "stricmp_eq a b \<longleftrightarrow> map lower a = map lower b"

text \<open>The loop over a snapshot of the processes: the first one in the session with the name. Zero is
  the system process and means that there is none.\<close>

fun find_pid :: "string \<Rightarrow> nat \<Rightarrow> process_entry list \<Rightarrow> nat" where
  "find_pid name ses [] = 0"
| "find_pid name ses (e # es) =
     (if pe_pid e \<noteq> 0
      then (case pe_session e of
              None \<Rightarrow> find_pid name ses es
            | Some s \<Rightarrow>
                if s = ses \<and> stricmp_eq (pe_exe e) name then pe_pid e
                else find_pid name ses es)
      else find_pid name ses es)"

text \<open>The flag is whether the system gave a snapshot.\<close>

definition findProcessInSession :: "bool \<Rightarrow> string \<Rightarrow> nat \<Rightarrow> process_entry list \<Rightarrow> nat option" where
  "findProcessInSession snap name ses ps =
     (if \<not> snap then None
      else (let pid = find_pid name ses ps in if pid \<noteq> 0 then Some pid else None))"

definition kill_pid :: "nat \<Rightarrow> process_entry list \<Rightarrow> process_entry list" where
  "kill_pid pid ps = filter (\<lambda>e. pe_pid e \<noteq> pid) ps"

record stop_env =
  en_snapshot :: bool
  en_session :: nat
  en_terminate :: "nat \<Rightarrow> bool"
  en_terminateJob :: bool

definition stop_one :: "stop_env \<Rightarrow> string \<Rightarrow> cact" where
  "stop_one e name c =
     (case findProcessInSession (en_snapshot e) name (en_session e) (m_processes c) of
        None \<Rightarrow> (Fine, c)
      | Some pid \<Rightarrow>
          if en_terminate e pid then (Fine, c\<lparr>m_processes := kill_pid pid (m_processes c)\<rparr>)
          else writeEventErrorLog (''Failed to shutdown '' @ name) c)"

definition stopAllUserProcesses :: "stop_env \<Rightarrow> cact" where
  "stopAllUserProcesses e = cthen (stop_one e kServiceProcess) (stop_one e kCoreProcess)"

section \<open>Starting\<close>

record start_env =
  st_session :: nat
  st_snapshot :: bool
  st_openToken :: bool
  st_duplicateToken :: bool
  st_installDir :: "string option"
  st_job :: bool
  st_environment :: bool
  st_created :: "nat option"
  st_assigned :: bool
  st_thread :: bool
  st_registered :: bool

definition getElevateTokenInSession :: "start_env \<Rightarrow> cact" where
  "getElevateTokenInSession e c =
     (case findProcessInSession (st_snapshot e) kWinLogon (st_session e) (m_processes c) of
        None \<Rightarrow> failing (''Failed to find '' @ kWinLogon @ '' in session '' @ dec (int (st_session e))) c
      | Some pid \<Rightarrow>
          if \<not> st_openToken e then failing ''Failed to open process token'' c
          else if \<not> st_duplicateToken e then failing ''Failed to duplicate process token'' c
          else (Fine, c))"

text \<open>The lookup of the installation directory is allowed to fail here, as its declaration allows; the
  implementation for Windows does not throw.\<close>

definition startSynergyServiceAsUser :: "start_env \<Rightarrow> cact" where
  "startSynergyServiceAsUser e =
     (case st_installDir e of
        None \<Rightarrow> cthrow
      | Some dir \<Rightarrow>
          cthen (change (\<lambda>c. c\<lparr>m_job := st_job e\<rparr>))
            (if \<not> st_environment e then failing ''Failed to create environment block''
             else
               (case st_created e of
                  None \<Rightarrow> failing ''Failed to create the service in user session''
                | Some pid \<Rightarrow>
                    cthen
                      (change (\<lambda>c. c\<lparr>m_processes := m_processes c @
                         [\<lparr>pe_pid = pid, pe_session = Some (st_session e), pe_exe = kServiceProcess,
                           pe_job = st_assigned e\<rparr>]\<rparr>))
                      (if \<not> st_assigned e then failing ''Failed to assign the service in a group''
                       else change (\<lambda>c. c\<lparr>m_service := Some pid\<rparr>)))))"

definition startSynergyService :: "start_env \<Rightarrow> cact" where
  "startSynergyService e =
     catching
       (cthen (getElevateTokenInSession e)
         (cthen (startSynergyServiceAsUser e)
           (\<lambda>c. if m_monitor c then (Fine, c)
                else if st_thread e then (Fine, c\<lparr>m_monitor := True\<rparr>)
                else writeEventErrorLog ''Failed to start monitor thread'' c)))
       (writeEventErrorLog ''Failed to start synergy service'')"

text \<open>\<open>start\<close> has a handler for a number as well; nothing throws one.\<close>

definition ctl_start :: "start_env \<Rightarrow> cact" where
  "ctl_start e =
     catching
       (cthen (setServiceStatus START_PENDING 0)
         (cthen (startSynergyService e) (setServiceStatus RUNNING 0)))
       (cthen (setServiceStatus STOPPED 0) (writeEventErrorLog ''Failed to start the service''))"

definition serviceMain :: "start_env \<Rightarrow> cact" where
  "serviceMain e =
     (if \<not> st_registered e then failing ''Failed to register service control handler''
      else ctl_start e)"

section \<open>Stopping\<close>

definition stopSynergyService :: "stop_env \<Rightarrow> cact" where
  "stopSynergyService e =
     cthen (change (\<lambda>c. c\<lparr>m_monitor := False\<rparr>))
       (\<lambda>c. if m_job c
            then cthen
                   (if \<not> en_terminateJob e
                    then writeEventErrorLog ''Failed to terminate synergy service group''
                    else cthen (change (\<lambda>c. c\<lparr>m_processes := filter (\<lambda>p. \<not> pe_job p) (m_processes c)\<rparr>))
                           (stopAllUserProcesses e))
                   (change (\<lambda>c. c\<lparr>m_job := False\<rparr>)) c
            else (Fine, c))"

definition ctl_stop :: "stop_env \<Rightarrow> cact" where
  "ctl_stop e c =
     (let original = dwCurrentState (m_status c) in
      catching
        (cthen (setServiceStatus STOP_PENDING 0)
          (cthen (stopSynergyService e) (setServiceStatus STOPPED 0)))
        (cthen (setServiceStatus original 0) (writeEventErrorLog ''Failed to stop the service'')) c)"

definition ctl_pause :: cact where
  "ctl_pause =
     catching (cthen (setServiceStatus PAUSE_PENDING 0) (setServiceStatus PAUSED 0))
       (cthen (setServiceStatus RUNNING 0) (writeEventErrorLog ''Failed to pause the service''))"

definition ctl_resume :: cact where
  "ctl_resume =
     catching (cthen (setServiceStatus CONTINUE_PENDING 0) (setServiceStatus RUNNING 0))
       (cthen (setServiceStatus PAUSED 0) (writeEventErrorLog ''Failed to resume the service''))"

definition ctl_shutdown :: "stop_env \<Rightarrow> cact" where
  "ctl_shutdown e =
     catching (cthen (stopSynergyService e) (setServiceStatus STOPPED 0))
       (writeEventErrorLog ''Failed to shut down the service'')"

datatype control = ControlStop | ControlPause | ControlContinue | ControlShutdown | ControlOther

definition serviceCtrlHandler :: "stop_env \<Rightarrow> control \<Rightarrow> cact" where
  "serviceCtrlHandler e k =
     (case k of
        ControlStop \<Rightarrow> ctl_stop e
      | ControlPause \<Rightarrow> ctl_pause
      | ControlContinue \<Rightarrow> ctl_resume
      | ControlShutdown \<Rightarrow> ctl_shutdown e
      | ControlOther \<Rightarrow> cfine)"

text \<open>One interval of the thread that watches: \<open>code\<close> is the exit code of the process it holds.\<close>

definition monitorService :: "stop_env \<Rightarrow> nat \<Rightarrow> cact" where
  "monitorService e code c =
     (if m_monitor c \<and> m_service c \<noteq> None \<and> code \<noteq> STILL_ACTIVE
      then cthen (writeEventErrorLog ''Detect Synergy service is not running, restarting'')
             (cthen (stopAllUserProcesses e) (\<lambda>c. (Exited 1, c))) c
      else (Fine, c))"

section \<open>Installing\<close>

text \<open>The service manager: whether it opens, whether the service is there and can be opened, and the
  results of the operations on it; \<open>None\<close> is success, a number the error. The states that the polls
  find are a list, which ends with \<open>None\<close> when a query fails.\<close>

record service_manager =
  scm_opens :: bool
  scm_exists :: bool
  scm_create :: "nat option"
  scm_open_error :: "nat option"
  scm_control :: "service_state option"
  scm_polls :: "service_state option list"
  scm_delete :: bool

definition ERROR_SERVICE_EXISTS :: nat where "ERROR_SERVICE_EXISTS = 1073"
definition ERROR_SERVICE_DOES_NOT_EXIST :: nat where "ERROR_SERVICE_DOES_NOT_EXIST = 1060"

definition isDaemonInstalled :: "service_manager \<Rightarrow> bool" where
  "isDaemonInstalled w \<longleftrightarrow> scm_opens w \<and> scm_exists w"

definition quoted :: "string \<Rightarrow> string" where
  "quoted path = [CHR 0x22] @ path @ [CHR 0x22]"

text \<open>The command line under which the service was created, if it was.\<close>

definition ctl_install :: "service_manager \<Rightarrow> string \<Rightarrow> controller \<Rightarrow> string option \<times> run_end \<times> controller" where
  "ctl_install w path c =
     (if isDaemonInstalled w then (None, Fine, c)
      else if \<not> scm_opens w then (None, failing ''Failed to open service manager for installing'' c)
      else
        (case scm_create w of
           None \<Rightarrow> (Some (quoted path), Fine, c)
         | Some err \<Rightarrow>
             if err \<noteq> ERROR_SERVICE_EXISTS
             then (None, failing (''Failed to create the service, error code: '' @ dec (int err)) c)
             else (None, Fine, c)))"

text \<open>Waiting until the service is no longer about to stop: the last state that was found. \<open>None\<close> when
  the polls do not settle.\<close>

fun poll_stop :: "service_state \<Rightarrow> service_state option list \<Rightarrow> service_state option" where
  "poll_stop st [] = None"
| "poll_stop st (None # ps) = Some st"
| "poll_stop st (Some st' # ps) = (if st' = STOP_PENDING then poll_stop st' ps else Some st')"

definition ctl_uninstall :: "service_manager \<Rightarrow> controller \<Rightarrow> (bool \<times> run_end \<times> controller) option" where
  "ctl_uninstall w c =
     (if \<not> scm_opens w
      then Some (False, failing ''Failed to open service manager for uninstalling'' c)
      else
        (case scm_open_error w of
           Some err \<Rightarrow>
             Some (False,
               failing (if err \<noteq> ERROR_SERVICE_DOES_NOT_EXIST
                        then ''Failed to uninstall the service, error code: '' @ dec (int err)
                        else ''Service doesn'' @ [CHR 0x27] @ ''t exist'') c)
         | None \<Rightarrow>
             (let remove = (if scm_delete w then (True, Fine, c)
                            else (False, failing ''Failed to delete the service'' c)) in
              case scm_control w of
                None \<Rightarrow> Some remove
              | Some st \<Rightarrow>
                  map_option
                    (\<lambda>final. if final \<noteq> STOPPED then (False, failing ''Failed to stop the service'' c)
                             else remove)
                    (poll_stop st (scm_polls w)))))"

text \<open>What the program does for its arguments; the last case hands over to the system, which calls
  \<open>serviceMain\<close>.\<close>

datatype ctl_task = TaskInstall | TaskUninstall | TaskForeground | TaskDispatch

definition ctl_run :: "controller \<Rightarrow> ctl_task" where
  "ctl_run c =
     (if m_install c then TaskInstall else if m_uninstall c then TaskUninstall
      else if m_foreground c then TaskForeground else TaskDispatch)"

section \<open>Steps\<close>

datatype ctl_input =
    CtlMain start_env
  | CtlControl stop_env control
  | CtlWatch stop_env nat
  | CtlProcesses "process_entry list"

text \<open>The processes of the machine change by themselves, too.\<close>

definition ctl_step :: "ctl_input \<Rightarrow> cact" where
  "ctl_step i =
     (case i of
        CtlMain e \<Rightarrow> serviceMain e
      | CtlControl e k \<Rightarrow> serviceCtrlHandler e k
      | CtlWatch e code \<Rightarrow> monitorService e code
      | CtlProcesses ps \<Rightarrow> change (\<lambda>c. c\<lparr>m_processes := ps\<rparr>))"

end
