(* ===== verification/Controller_Props.thy ===== *)
theory Controller_Props
  imports Controller
begin

text \<open>
  The controller of the service under Windows: what it reports when the start of the service fails,
  which processes a stop leaves, when its thread watches, and the check points of its reports.
\<close>

section \<open>Operations one after another\<close>

lemma cthen_simps:
  "cthen f g c = (r, c') \<longleftrightarrow>
     (\<exists>c1. f c = (Fine, c1) \<and> g c1 = (r, c')) \<or> (f c = (r, c') \<and> r \<noteq> Fine)"
  by (auto simp: cthen_def split: prod.splits run_end.splits)

lemma catching_simps:
  "catching f h c = (r, c') \<longleftrightarrow>
     (\<exists>c1. f c = (Threw, c1) \<and> h c1 = (r, c')) \<or> (f c = (r, c') \<and> r \<noteq> Threw)"
  by (auto simp: catching_def split: prod.splits run_end.splits)

lemmas act_simps = cthen_simps catching_simps change_def cfine_def cthrow_def rethrow_nothing_def
  writeEventErrorLog_def failing_def

text \<open>The parts that change neither the status nor what the thread watches.\<close>

definition same_status :: "controller \<Rightarrow> controller \<Rightarrow> bool" where
  "same_status c c' \<longleftrightarrow>
     m_status c' = m_status c \<and> m_checkPoint c' = m_checkPoint c \<and> m_reports c' = m_reports c"

lemma same_status_refl [simp]: "same_status c c"
  by (simp add: same_status_def)

lemma same_status_trans: "same_status b c \<Longrightarrow> same_status a b \<Longrightarrow> same_status a c"
  by (simp add: same_status_def)

lemma failing_result: "failing msg c = (r, c') \<Longrightarrow> r = Terminated \<and> same_status c c' \<and>
    m_monitor c' = m_monitor c \<and> m_service c' = m_service c"
  by (auto simp: act_simps same_status_def)

lemma stop_one_result:
  "stop_one e name c = (r, c') \<Longrightarrow> r = Fine \<and> same_status c c' \<and> m_monitor c' = m_monitor c \<and>
    m_service c' = m_service c \<and> m_job c' = m_job c"
  by (auto simp: stop_one_def writeEventErrorLog_def change_def same_status_def split: option.splits if_splits)

lemma stopAll_result:
  assumes "stopAllUserProcesses e c = (r, c')"
  shows "r = Fine \<and> same_status c c' \<and> m_monitor c' = m_monitor c \<and> m_service c' = m_service c \<and>
    m_job c' = m_job c"
proof -
  obtain r1 c1 where c1: "stop_one e kServiceProcess c = (r1, c1)"
    by fastforce
  note one = stop_one_result [OF c1]
  then have "stop_one e kCoreProcess c1 = (r, c')"
    using assms c1 by (auto simp: stopAllUserProcesses_def cthen_simps)
  then show ?thesis
    using one stop_one_result [of e kCoreProcess c1 r c'] same_status_trans by auto
qed

lemma stopService_result:
  assumes "stopSynergyService e c = (r, c')"
  shows "r = Fine \<and> same_status c c' \<and> \<not> m_monitor c' \<and> m_service c' = m_service c \<and> \<not> m_job c'"
proof -
  define c1 where "c1 = c\<lparr>m_monitor := False\<rparr>"
  have c1: "same_status c c1" "\<not> m_monitor c1" "m_service c1 = m_service c" "m_job c1 = m_job c"
    by (simp_all add: c1_def same_status_def)
  show ?thesis
  proof (cases "m_job c")
    case False
    then show ?thesis
      using assms c1 by (auto simp: stopSynergyService_def act_simps c1_def)
  next
    case True
    define c2 where "c2 = c1\<lparr>m_processes := filter (\<lambda>p. \<not> pe_job p) (m_processes c1)\<rparr>"
    obtain r3 c3 where c3: "stopAllUserProcesses e c2 = (r3, c3)"
      by fastforce
    note stop = stopAll_result [OF c3]
    show ?thesis
    proof (cases "en_terminateJob e")
      case False
      then show ?thesis
        using True assms c1
        by (auto simp: stopSynergyService_def act_simps c1_def same_status_def)
    next
      case job: True
      have "c' = c3\<lparr>m_job := False\<rparr> \<and> r = Fine"
        using True job assms c3 stop
        by (auto simp: stopSynergyService_def cthen_simps change_def c1_def c2_def)
      then show ?thesis
        using stop c1 by (simp add: same_status_def c2_def)
    qed
  qed
qed

lemma token_result:
  "getElevateTokenInSession e c = (r, c') \<Longrightarrow>
   (r = Fine \<and> c' = c \<or> r = Terminated) \<and> same_status c c' \<and> m_monitor c' = m_monitor c \<and>
   m_service c' = m_service c"
  by (auto simp: getElevateTokenInSession_def act_simps same_status_def split: option.splits if_splits)

lemma startAsUser_result:
  "startSynergyServiceAsUser e c = (r, c') \<Longrightarrow>
   (r = Fine \<and> m_service c' = st_created e \<and> m_service c' \<noteq> None \<or>
    r = Threw \<and> st_installDir e = None \<and> c' = c \<or> r = Terminated) \<and>
   same_status c c' \<and> m_monitor c' = m_monitor c"
  by (auto simp: startSynergyServiceAsUser_def act_simps same_status_def split: option.splits if_splits)

definition watch_start :: "start_env \<Rightarrow> cact" where
  "watch_start e c =
     (if m_monitor c then (Fine, c)
      else if st_thread e then (Fine, c\<lparr>m_monitor := True\<rparr>)
      else writeEventErrorLog ''Failed to start monitor thread'' c)"

lemma watch_start_result:
  "watch_start e c = (r, c') \<Longrightarrow> r = Fine \<and> same_status c c' \<and> m_service c' = m_service c"
  by (auto simp: watch_start_def writeEventErrorLog_def change_def same_status_def split: if_splits)

lemma startService_unfold:
  "startSynergyService e =
     catching (cthen (getElevateTokenInSession e) (cthen (startSynergyServiceAsUser e) (watch_start e)))
       (writeEventErrorLog ''Failed to start synergy service'')"
  unfolding startSynergyService_def watch_start_def [abs_def] ..

lemma startService_cases:
  assumes "startSynergyService e c = (r, c')"
  shows "r = Terminated \<and> (getElevateTokenInSession e c = (r, c') \<or> startSynergyServiceAsUser e c = (r, c')) \<or>
    r = Fine \<and> (\<exists>c1. startSynergyServiceAsUser e c = (Fine, c1) \<and> watch_start e c1 = (Fine, c')) \<or>
    r = Fine \<and> st_installDir e = None \<and>
      c' = c\<lparr>m_eventLog := m_eventLog c @ [''Failed to start synergy service'']\<rparr>"
proof -
  obtain r1 c1 where c1: "getElevateTokenInSession e c = (r1, c1)"
    by fastforce
  obtain r2 c2 where c2: "startSynergyServiceAsUser e c = (r2, c2)"
    by fastforce
  obtain r3 c3 where c3: "watch_start e c2 = (r3, c3)"
    by fastforce
  consider "r1 = Terminated" | (went) "r1 = Fine" "c1 = c"
    using token_result [OF c1] by blast
  then show ?thesis
  proof cases
    case 1
    then show ?thesis
      using assms c1 by (simp add: startService_unfold catching_def cthen_def)
  next
    case went
    then show ?thesis
      using assms c1 c2 c3 startAsUser_result [OF c2] watch_start_result [OF c3]
      by (auto simp: startService_unfold catching_def cthen_def writeEventErrorLog_def change_def)
  qed
qed

lemma startService_result:
  assumes "startSynergyService e c = (r, c')"
  shows "(r = Fine \<or> r = Terminated) \<and> same_status c c' \<and>
    (r = Fine \<longrightarrow> m_service c' = st_created e \<and> m_service c' \<noteq> None \<or>
       m_service c' = m_service c \<and> m_monitor c' = m_monitor c)"
  using startService_cases [OF assms]
proof (elim disjE conjE exE)
  fix c1 assume "r = Fine" "startSynergyServiceAsUser e c = (Fine, c1)" "watch_start e c1 = (Fine, c')"
  then show ?thesis
    using startAsUser_result [of e c Fine c1] watch_start_result [of e c1 Fine c']
    by (auto intro: same_status_trans)
qed (auto simp: same_status_def dest: token_result startAsUser_result)

section \<open>A start that fails\<close>

lemma setServiceStatus_result:
  "setServiceStatus st code c = (r, c') \<Longrightarrow>
   r = Fine \<and> dwCurrentState (m_status c') = st \<and> m_reports c' = m_reports c @ [m_status c'] \<and>
   m_monitor c' = m_monitor c \<and> m_service c' = m_service c \<and> m_job c' = m_job c \<and>
   m_processes c' = m_processes c"
  by (auto simp: setServiceStatus_def Let_def)

lemma ctl_start_cases:
  assumes "ctl_start e c = (r, c')"
  shows "\<exists>c1 r2 c2. setServiceStatus START_PENDING 0 c = (Fine, c1) \<and>
    startSynergyService e c1 = (r2, c2) \<and>
    (r2 = Terminated \<and> r = Terminated \<and> c' = c2 \<or>
     r2 = Fine \<and> r = Fine \<and> setServiceStatus RUNNING 0 c2 = (Fine, c'))"
proof -
  obtain c1 where c1: "setServiceStatus START_PENDING 0 c = (Fine, c1)"
    using setServiceStatus_result by (metis prod.collapse)
  obtain r2 c2 where c2: "startSynergyService e c1 = (r2, c2)"
    by fastforce
  obtain c3 where c3: "setServiceStatus RUNNING 0 c2 = (Fine, c3)"
    using setServiceStatus_result by (metis prod.collapse)
  show ?thesis
    using assms c1 c2 c3 startService_result [OF c2]
    by (auto simp: ctl_start_def catching_def cthen_def)
qed

text \<open>C39. The service manager never hears of a start that fails: the start of the controller reports no
  stopped state in any case. It ends the whole program, with the start still pending, or it reports
  that the service runs, even where the directory of the programs could not be found, no process
  was created and nothing is watched.\<close>

theorem failed_start_is_never_reported:
  assumes "serviceMain e c = (r, c')"
  shows "\<exists>new. m_reports c' = m_reports c @ new \<and> STOPPED \<notin> dwCurrentState ` set new \<and>
    (r = Terminated \<or> r = Fine \<and> dwCurrentState (m_status c') = RUNNING \<and>
       (st_installDir e \<noteq> None \<or> m_service c' = m_service c \<and> m_monitor c' = m_monitor c))"
proof (cases "st_registered e")
  case False
  then have "r = Terminated \<and> same_status c c'"
    using assms failing_result by (auto simp: serviceMain_def)
  then show ?thesis
    by (simp add: same_status_def)
next
  case True
  then have "ctl_start e c = (r, c')"
    using assms by (simp add: serviceMain_def)
  from ctl_start_cases [OF this] obtain c1 r2 c2 where *: "setServiceStatus START_PENDING 0 c = (Fine, c1)"
    "startSynergyService e c1 = (r2, c2)"
    "r2 = Terminated \<and> r = Terminated \<and> c' = c2 \<or>
     r2 = Fine \<and> r = Fine \<and> setServiceStatus RUNNING 0 c2 = (Fine, c')"
    by blast
  have "m_service c2 = m_service c1 \<and> m_monitor c2 = m_monitor c1"
    if "r2 = Fine" "st_installDir e = None"
    using startService_cases [OF *(2)] that
    by (auto simp: startSynergyServiceAsUser_def cthrow_def)
  then show ?thesis
    using *(3) setServiceStatus_result [OF *(1)] startService_result [OF *(2)]
      setServiceStatus_result [of RUNNING 0 c2 Fine c']
    by (auto simp: same_status_def)
qed

definition lost_start :: start_env where
  "lost_start =
     \<lparr>st_session = 1, st_snapshot = True, st_openToken = True, st_duplicateToken = True,
      st_installDir = None, st_job = True, st_environment = True, st_created = Some 44,
      st_assigned = True, st_thread = True, st_registered = True\<rparr>"

definition logon_process :: process_entry where
  "logon_process = \<lparr>pe_pid = 8, pe_session = Some 1, pe_exe = ''WinLogon.exe'', pe_job = False\<rparr>"

theorem failed_start_is_never_reported_witness:
  "\<exists>c'. serviceMain lost_start (new_controller [logon_process]) = (Fine, c') \<and>
     dwCurrentState (m_status c') = RUNNING \<and> m_service c' = None"
proof -
  have "fst (serviceMain lost_start (new_controller [logon_process])) = Fine"
    by code_simp
  then obtain c' where c': "serviceMain lost_start (new_controller [logon_process]) = (Fine, c')"
    by (metis prod.collapse)
  then show ?thesis
    using failed_start_is_never_reported [OF c'] by (auto simp: lost_start_def new_controller_def)
qed

section \<open>The processes after a stop\<close>

definition matches :: "string \<Rightarrow> nat \<Rightarrow> process_entry \<Rightarrow> bool" where
  "matches name ses e \<longleftrightarrow> pe_pid e \<noteq> 0 \<and> pe_session e = Some ses \<and> stricmp_eq (pe_exe e) name"

lemma find_pid_none: "find_pid name ses ps = 0 \<longleftrightarrow> filter (matches name ses) ps = []"
  by (induction ps) (auto simp: matches_def split: option.splits)

lemma find_pid_some:
  "find_pid name ses ps \<noteq> 0 \<Longrightarrow> \<exists>e\<in>set ps. matches name ses e \<and> pe_pid e = find_pid name ses ps"
  by (induction ps) (auto simp: matches_def split: option.splits if_splits)

lemma single_filter:
  "length (filter P xs) \<le> 1 \<Longrightarrow> x \<in> set xs \<Longrightarrow> P x \<Longrightarrow> y \<in> set xs \<Longrightarrow> P y \<Longrightarrow> x = y"
proof -
  assume "length (filter P xs) \<le> 1" "x \<in> set xs" "P x" "y \<in> set xs" "P y"
  moreover from this have "x \<in> set (filter P xs)" "y \<in> set (filter P xs)"
    by simp_all
  ultimately show "x = y"
    by (cases "filter P xs") auto
qed

lemma kill_found:
  assumes "length (filter (matches name ses) ps) \<le> 1" "find_pid name ses ps \<noteq> 0"
  shows "filter (matches name ses) (kill_pid (find_pid name ses ps) ps) = []"
proof -
  obtain e where e: "e \<in> set ps" "matches name ses e" "pe_pid e = find_pid name ses ps"
    using find_pid_some [OF assms(2)] by blast
  have "pe_pid y = find_pid name ses ps" if "y \<in> set ps" "matches name ses y" for y
    using single_filter [OF assms(1) e(1,2) that] e(3) by simp
  then show ?thesis
    by (auto simp: kill_pid_def filter_empty_conv)
qed

lemma filter_kill: "length (filter P (kill_pid pid ps)) \<le> length (filter P ps)"
  by (induction ps) (auto simp: kill_pid_def)

lemma stop_one_clears:
  assumes "stop_one e name c = (r, c')" "en_snapshot e" "\<forall>pid. en_terminate e pid"
    "length (filter (matches name (en_session e)) (m_processes c)) \<le> 1"
  shows "filter (matches name (en_session e)) (m_processes c') = [] \<and>
    set (m_processes c') \<subseteq> set (m_processes c) \<and>
    (\<forall>P. length (filter P (m_processes c')) \<le> length (filter P (m_processes c)))"
proof (cases "find_pid name (en_session e) (m_processes c) = 0")
  case True
  then show ?thesis
    using assms(1,2) find_pid_none [of name "en_session e" "m_processes c"]
    by (simp add: stop_one_def findProcessInSession_def)
next
  case False
  then have "c' = c\<lparr>m_processes := kill_pid (find_pid name (en_session e) (m_processes c)) (m_processes c)\<rparr>"
    using assms(1-3) by (simp add: stop_one_def findProcessInSession_def Let_def)
  then show ?thesis
    using kill_found [OF assms(4) False] filter_kill by (auto simp: kill_pid_def)
qed

text \<open>Only a process of the name is killed, as long as no two processes share an identifier.\<close>

lemma stop_one_kills:
  assumes "stop_one e name c = (r, c')"
  shows "set (m_processes c') \<subseteq> set (m_processes c)"
    and "distinct (map pe_pid (m_processes c)) \<Longrightarrow> distinct (map pe_pid (m_processes c'))"
    and "distinct (map pe_pid (m_processes c)) \<Longrightarrow> p \<in> set (m_processes c) \<Longrightarrow>
      \<not> matches name (en_session e) p \<Longrightarrow> p \<in> set (m_processes c')"
proof -
  let ?pid = "find_pid name (en_session e) (m_processes c)"
  have or: "m_processes c' = m_processes c \<or> (?pid \<noteq> 0 \<and> m_processes c' = kill_pid ?pid (m_processes c))"
    using assms
    by (auto simp: stop_one_def findProcessInSession_def writeEventErrorLog_def change_def Let_def
        split: if_splits option.splits)
  then show "set (m_processes c') \<subseteq> set (m_processes c)"
    by (auto simp: kill_pid_def)
  from or show "distinct (map pe_pid (m_processes c'))" if "distinct (map pe_pid (m_processes c))"
    using that by (auto simp: kill_pid_def distinct_map_filter)
  show "p \<in> set (m_processes c')"
    if "distinct (map pe_pid (m_processes c))" "p \<in> set (m_processes c)" "\<not> matches name (en_session e) p"
  proof -
    have "pe_pid p \<noteq> ?pid" if "?pid \<noteq> 0"
      using find_pid_some [OF that] \<open>distinct _\<close> \<open>p \<in> _\<close> \<open>\<not> matches _ _ p\<close>
      by (auto simp: distinct_map inj_on_def)
    with or that(2) show ?thesis
      by (auto simp: kill_pid_def)
  qed
qed

lemma stopService_refused:
  "\<not> (m_job c \<and> en_terminateJob e) \<Longrightarrow> m_processes (snd (stopSynergyService e c)) = m_processes c"
  by (cases "m_job c") (simp_all add: stopSynergyService_def cthen_def change_def writeEventErrorLog_def)

text \<open>C30. A stop always ends in the reported state stopped, with no job held and no thread watching.
  Without a job, or when the system refuses to end it, no process is touched. When the job is ended,
  no process of it is left, and, unless two processes share an identifier, every process outside of it
  that is neither the service nor the core in the session is left alone; when the system also lists
  and ends the processes, and at most one service and one core process run in the session outside of
  the job, no process of either name is left there.\<close>

theorem stop_leaves_no_process:
  assumes "ctl_stop e c = (r, c')"
  shows "r = Fine \<and> dwCurrentState (m_status c') = STOPPED \<and> \<not> m_job c' \<and> \<not> m_monitor c' \<and>
    (\<not> (m_job c \<and> en_terminateJob e) \<longrightarrow> m_processes c' = m_processes c) \<and>
    (m_job c \<and> en_terminateJob e \<longrightarrow>
      (\<forall>p\<in>set (m_processes c'). p \<in> set (m_processes c) \<and> \<not> pe_job p) \<and>
      (distinct (map pe_pid (m_processes c)) \<longrightarrow>
        (\<forall>p\<in>set (m_processes c). \<not> pe_job p \<and> \<not> matches kServiceProcess (en_session e) p \<and>
          \<not> matches kCoreProcess (en_session e) p \<longrightarrow> p \<in> set (m_processes c'))) \<and>
      (en_snapshot e \<and> (\<forall>pid. en_terminate e pid) \<and>
       length (filter (\<lambda>p. matches kServiceProcess (en_session e) p \<and> \<not> pe_job p) (m_processes c)) \<le> 1 \<and>
       length (filter (\<lambda>p. matches kCoreProcess (en_session e) p \<and> \<not> pe_job p) (m_processes c)) \<le> 1 \<longrightarrow>
        filter (\<lambda>p. matches kServiceProcess (en_session e) p \<or> matches kCoreProcess (en_session e) p)
          (m_processes c') = []))"
proof -
  obtain c1 where c1: "setServiceStatus STOP_PENDING 0 c = (Fine, c1)"
    using setServiceStatus_result by (metis prod.collapse)
  obtain r2 c2 where c2: "stopSynergyService e c1 = (r2, c2)"
    by fastforce
  note stop = stopService_result [OF c2]
  obtain c3 where c3: "setServiceStatus STOPPED 0 c2 = (Fine, c3)"
    using setServiceStatus_result by (metis prod.collapse)
  have end_state: "r = Fine \<and> c' = c3"
    using assms(1) c1 c2 c3 stop by (auto simp: ctl_stop_def catching_def cthen_def)
  have c': "m_processes c' = m_processes c2" "r = Fine" "dwCurrentState (m_status c') = STOPPED"
    "\<not> m_job c'" "\<not> m_monitor c'"
    using end_state setServiceStatus_result [OF c3] stop by simp_all
  have none: "m_processes c2 = m_processes c" if "\<not> (m_job c \<and> en_terminateJob e)"
    using stopService_refused [of c1 e] that setServiceStatus_result [OF c1] by (simp add: c2)
  define d where "d = c1\<lparr>m_monitor := False,
    m_processes := filter (\<lambda>p. \<not> pe_job p) (m_processes c1)\<rparr>"
  obtain r4 d1 where d1: "stop_one e kServiceProcess d = (r4, d1)"
    by fastforce
  obtain r5 d2 where d2: "stop_one e kCoreProcess d1 = (r5, d2)"
    by fastforce
  have ps: "m_processes d = filter (\<lambda>p. \<not> pe_job p) (m_processes c)"
    using setServiceStatus_result [OF c1] by (simp add: d_def)
  have ended: "c2 = d2\<lparr>m_job := False\<rparr>" if "m_job c" "en_terminateJob e"
    using c2 that setServiceStatus_result [OF c1] stop_one_result [OF d1] stop_one_result [OF d2]
      d1 d2
    by (auto simp: stopSynergyService_def stopAllUserProcesses_def cthen_def change_def d_def)
  note kills = stop_one_kills [OF d1] stop_one_kills [OF d2]
  have members: "\<forall>p\<in>set (m_processes d2). p \<in> set (m_processes c) \<and> \<not> pe_job p"
    using kills(1,4) by (auto simp: ps)
  have others: "p \<in> set (m_processes d2)"
    if "distinct (map pe_pid (m_processes c))" "p \<in> set (m_processes c)" "\<not> pe_job p"
      "\<not> matches kServiceProcess (en_session e) p" "\<not> matches kCoreProcess (en_session e) p" for p
    using kills(2) kills(3) [of p] kills(6) [of p] that by (simp add: ps distinct_map_filter)
  have clear: "filter (\<lambda>p. matches kServiceProcess (en_session e) p \<or> matches kCoreProcess (en_session e) p)
      (m_processes d2) = []"
    if able: "en_snapshot e" "\<forall>pid. en_terminate e pid"
      and one: "length (filter (\<lambda>p. matches kServiceProcess (en_session e) p \<and> \<not> pe_job p) (m_processes c)) \<le> 1"
        "length (filter (\<lambda>p. matches kCoreProcess (en_session e) p \<and> \<not> pe_job p) (m_processes c)) \<le> 1"
  proof -
    have "length (filter (matches kServiceProcess (en_session e)) (m_processes d)) \<le> 1"
      "length (filter (matches kCoreProcess (en_session e)) (m_processes d)) \<le> 1"
      using one by (simp_all add: ps conj_commute)
    note service = stop_one_clears [OF d1 able this(1)] and few = this(2)
    have "length (filter (matches kCoreProcess (en_session e)) (m_processes d1)) \<le> 1"
      using service few le_trans by blast
    note core = stop_one_clears [OF d2 able this]
    show ?thesis
      using service core by (auto simp: filter_empty_conv)
  qed
  show ?thesis
  proof (cases "m_job c \<and> en_terminateJob e")
    case True
    then have left: "m_processes c' = m_processes d2"
      using c'(1) ended by simp
    show ?thesis
      unfolding left using True c'(2-5) members others clear by blast
  next
    case False
    then have "m_processes c' = m_processes c"
      using c'(1) none by simp
    then show ?thesis
      using False c'(2-5) by blast
  qed
qed

definition granting :: stop_env where
  "granting = \<lparr>en_snapshot = True, en_session = 1, en_terminate = (\<lambda>_. True), en_terminateJob = True\<rparr>"

definition running_controller :: controller where
  "running_controller =
     (new_controller
        [logon_process, logon_process\<lparr>pe_pid := 44, pe_exe := kServiceProcess, pe_job := True\<rparr>,
         logon_process\<lparr>pe_pid := 45, pe_exe := ''SYNERGY-CORE.EXE''\<rparr>])\<lparr>m_job := True, m_monitor := True,
       m_service := Some 44\<rparr>"

theorem stop_leaves_no_process_witness:
  "\<exists>c'. ctl_stop granting running_controller = (Fine, c') \<and> dwCurrentState (m_status c') = STOPPED \<and>
     filter (\<lambda>p. matches kServiceProcess 1 p \<or> matches kCoreProcess 1 p) (m_processes c') = []"
proof -
  obtain r c' where c': "ctl_stop granting running_controller = (r, c')"
    by fastforce
  have "length (filter (\<lambda>p. matches kServiceProcess (en_session granting) p \<and> \<not> pe_job p)
        (m_processes running_controller)) \<le> 1"
    "length (filter (\<lambda>p. matches kCoreProcess (en_session granting) p \<and> \<not> pe_job p)
        (m_processes running_controller)) \<le> 1"
    by code_simp+
  then show ?thesis
    using c' stop_leaves_no_process [OF c'] by (simp add: running_controller_def granting_def)
qed

section \<open>The check points\<close>

definition pending :: "service_status \<Rightarrow> bool" where
  "pending s \<longleftrightarrow> dwCurrentState s \<noteq> RUNNING \<and> dwCurrentState s \<noteq> STOPPED"

definition counted :: "controller \<Rightarrow> bool" where
  "counted c \<longleftrightarrow>
     m_checkPoint c = of_nat (length (filter pending (m_reports c)) + 1) \<and>
     map dwCheckPoint (filter pending (m_reports c)) =
       map (\<lambda>i. of_nat (i + 1)) [0..<length (filter pending (m_reports c))] \<and>
     (\<forall>s\<in>set (m_reports c). \<not> pending s \<longrightarrow> dwCheckPoint s = 0)"

definition keeps_count :: "cact \<Rightarrow> bool" where
  "keeps_count f \<longleftrightarrow> (\<forall>c. counted c \<longrightarrow> counted (snd (f c)))"

lemma keeps_cthen [inv_intros]: "keeps_count f \<Longrightarrow> keeps_count g \<Longrightarrow> keeps_count (cthen f g)"
  by (auto simp: keeps_count_def cthen_def split: prod.splits run_end.splits)

lemma keeps_catching [inv_intros]: "keeps_count f \<Longrightarrow> keeps_count h \<Longrightarrow> keeps_count (catching f h)"
  by (auto simp: keeps_count_def catching_def split: prod.splits run_end.splits)

lemma keeps_status [inv_intros]: "keeps_count (setServiceStatus st code)"
  by (auto simp: keeps_count_def counted_def setServiceStatus_def pending_def Let_def)

lemma keeps_same:
  assumes "\<And>c r c'. f c = (r, c') \<Longrightarrow> same_status c c'"
  shows "keeps_count f"
  unfolding keeps_count_def
proof (intro allI impI)
  fix c assume "counted c"
  moreover have "same_status c (snd (f c))"
    using assms [of c "fst (f c)"] by simp
  ultimately show "counted (snd (f c))"
    by (simp add: counted_def same_status_def)
qed

lemma keeps_log [inv_intros]: "keeps_count (writeEventErrorLog msg)"
  by (rule keeps_same) (auto simp: writeEventErrorLog_def change_def same_status_def)

lemma keeps_stop [inv_intros]: "keeps_count (stopSynergyService e)"
  by (rule keeps_same) (use stopService_result in blast)

lemma keeps_start [inv_intros]: "keeps_count (startSynergyService e)"
  by (rule keeps_same) (use startService_result in blast)

lemma keeps_failing [inv_intros]: "keeps_count (failing msg)"
  by (rule keeps_same) (use failing_result in blast)

lemma keeps_watch [inv_intros]: "keeps_count (monitorService e code)"
proof (rule keeps_same)
  fix c r c' assume "monitorService e code c = (r, c')"
  then show "same_status c c'"
    using stopAll_result [of e "c\<lparr>m_eventLog := m_eventLog c @
        [''Detect Synergy service is not running, restarting'']\<rparr>"]
    by (auto simp: monitorService_def cthen_def writeEventErrorLog_def change_def same_status_def
        split: if_splits prod.splits run_end.splits)
qed

lemma keeps_ctl_stop [inv_intros]: "keeps_count (ctl_stop e)"
proof -
  have "keeps_count (catching
      (cthen (setServiceStatus STOP_PENDING 0) (cthen (stopSynergyService e) (setServiceStatus STOPPED 0)))
      (cthen (setServiceStatus st 0) (writeEventErrorLog ''Failed to stop the service'')))" for st
    by (intro inv_intros)
  then show ?thesis
    by (simp add: keeps_count_def ctl_stop_def Let_def)
qed

lemma ctl_keeps_step: "keeps_count (ctl_step i)"
proof (cases i)
  case (CtlMain e)
  have "keeps_count (ctl_start e)"
    unfolding ctl_start_def by (intro inv_intros)
  then show ?thesis
    using keeps_failing CtlMain by (simp add: ctl_step_def serviceMain_def keeps_count_def)
next
  case (CtlControl e k)
  have "keeps_count ctl_pause" "keeps_count ctl_resume" "keeps_count (ctl_shutdown e)"
    unfolding ctl_pause_def ctl_resume_def ctl_shutdown_def by (intro inv_intros)+
  moreover have "keeps_count cfine"
    by (simp add: keeps_count_def cfine_def)
  ultimately show ?thesis
    using CtlControl keeps_ctl_stop by (cases k) (simp_all add: ctl_step_def serviceCtrlHandler_def)
next
  case (CtlWatch e code)
  then show ?thesis
    using keeps_watch by (simp add: ctl_step_def)
next
  case (CtlProcesses ps)
  then show ?thesis
    by (simp add: ctl_step_def keeps_count_def change_def counted_def)
qed

inductive ctl_reach :: "controller \<Rightarrow> bool" where
  New: "ctl_reach (new_controller ps)"
| Step: "ctl_reach c \<Longrightarrow> ctl_step i c = (Fine, c') \<Longrightarrow> ctl_reach c'"

lemma ctl_reach_counted: "ctl_reach c \<Longrightarrow> counted c"
proof (induction rule: ctl_reach.induct)
  case (New ps)
  show ?case
    by (simp add: counted_def new_controller_def)
next
  case (Step c i c')
  then show ?case
    using ctl_keeps_step [of i] by (metis keeps_count_def snd_conv)
qed

lemma check_point_value: "m < 2 ^ 32 \<Longrightarrow> unat (of_nat m :: u32) = m"
  by (simp add: unat_of_nat take_bit_nat_eq_self)

lemma sorted_check_points:
  assumes "n < 2 ^ 32 - 1"
  shows "sorted_wrt (<) (0 # map (\<lambda>i. of_nat (i + 1) :: u32) [0..<n])"
proof -
  have "(of_nat (i + 1) :: u32) < of_nat (j + 1)" if "i < j" "j < n" for i j
    unfolding word_less_nat_alt using that assms
    by (subst check_point_value, simp) (subst check_point_value, simp_all del: of_nat_add of_nat_Suc)
  moreover have "(0 :: u32) < of_nat (i + 1)" if "i < n" for i
    unfolding word_less_nat_alt using that assms
    by (subst check_point_value) simp_all
  ultimately show ?thesis
    unfolding sorted_wrt.simps sorted_wrt_map
    by (auto simp: sorted_wrt_iff_nth_less simp del: of_nat_add of_nat_Suc)
qed

text \<open>While fewer than \<open>2 ^ 32 - 1\<close> reports were made, the check points that the controller reports
  with pending operations are positive and increase with every report, and every report of a
  running or stopped service carries zero.\<close>

theorem check_points_increase:
  assumes "ctl_reach c" "length (m_reports c) < 2 ^ 32 - 1"
  shows "sorted_wrt (<) (0 # map dwCheckPoint (filter pending (m_reports c))) \<and>
    dwCheckPoint ` set (filter (\<lambda>s. \<not> pending s) (m_reports c)) \<subseteq> {0}"
proof -
  define n where "n = length (filter pending (m_reports c))"
  have n: "n < 2 ^ 32 - 1"
    using assms(2) length_filter_le [of pending "m_reports c"] unfolding n_def by linarith
  have cps: "map dwCheckPoint (filter pending (m_reports c)) = map (\<lambda>i. of_nat (i + 1)) [0..<n]"
    using ctl_reach_counted [OF assms(1)] by (simp add: counted_def n_def)
  show ?thesis
    using sorted_check_points [OF n] ctl_reach_counted [OF assms(1)]
    unfolding cps by (auto simp: counted_def)
qed

theorem check_points_increase_witness:
  "\<exists>c. ctl_reach c \<and> map dwCheckPoint (filter pending (m_reports c)) \<noteq> [] \<and>
     sorted_wrt (<) (0 # map dwCheckPoint (filter pending (m_reports c)))"
proof -
  have "fst (ctl_step (CtlMain lost_start) (new_controller [logon_process])) = Fine"
    "length (m_reports (snd (ctl_step (CtlMain lost_start) (new_controller [logon_process])))) = 2"
    "map dwCheckPoint (filter pending (m_reports (snd (ctl_step (CtlMain lost_start)
       (new_controller [logon_process]))))) = [1]"
    by code_simp+
  then obtain c where c: "ctl_step (CtlMain lost_start) (new_controller [logon_process]) = (Fine, c)"
      "length (m_reports c) = 2" "map dwCheckPoint (filter pending (m_reports c)) = [1]"
    by (metis prod.collapse)
  have reach: "ctl_reach c"
    by (rule ctl_reach.Step [OF ctl_reach.New c(1)])
  then show ?thesis
    using check_points_increase [OF reach] c(2,3) by (intro exI [of _ c]) simp
qed

section \<open>What the thread watches\<close>

text \<open>The handle of the service process has no value until the service was started; the thread that
  reads it only runs when it has one.\<close>

lemma step_watched:
  assumes "ctl_step i c = (Fine, c')" "m_monitor c \<longrightarrow> m_service c \<noteq> None"
  shows "m_monitor c' \<longrightarrow> m_service c' \<noteq> None"
proof (cases i)
  case (CtlMain e)
  then have "st_registered e \<and> ctl_start e c = (Fine, c')"
    using assms(1) failing_result by (fastforce simp: ctl_step_def serviceMain_def split: if_splits)
  from ctl_start_cases [OF this [THEN conjunct2]] obtain c1 c2 where
    *: "setServiceStatus START_PENDING 0 c = (Fine, c1)" "startSynergyService e c1 = (Fine, c2)"
      "setServiceStatus RUNNING 0 c2 = (Fine, c')"
    by auto
  then show ?thesis
    using startService_result [OF *(2)] setServiceStatus_result [OF *(1)]
      setServiceStatus_result [OF *(3)] assms(2) by auto
next
  case (CtlControl e k)
  have "\<not> m_monitor c' \<or> (m_monitor c' = m_monitor c \<and> m_service c' = m_service c)"
  proof (cases k)
    case ControlStop
    then show ?thesis
      using assms(1) CtlControl
      by (auto simp: ctl_step_def serviceCtrlHandler_def ctl_stop_def Let_def catching_simps cthen_simps
          dest!: stopService_result setServiceStatus_result)
  next
    case ControlShutdown
    then show ?thesis
      using assms(1) CtlControl
      by (auto simp: ctl_step_def serviceCtrlHandler_def ctl_shutdown_def catching_simps cthen_simps
          dest!: stopService_result setServiceStatus_result)
  qed (use assms(1) CtlControl in \<open>auto simp: ctl_step_def serviceCtrlHandler_def ctl_pause_def
      ctl_resume_def catching_simps cthen_simps cfine_def dest!: setServiceStatus_result\<close>)
  then show ?thesis
    using assms(2) by auto
next
  case (CtlWatch e code)
  then have "c' = c"
    using assms(1)
    by (auto simp: ctl_step_def monitorService_def cthen_def split: if_splits prod.splits run_end.splits)
  then show ?thesis
    using assms(2) by simp
next
  case (CtlProcesses ps)
  then show ?thesis
    using assms by (auto simp: ctl_step_def change_def)
qed

lemma watcher_holds_a_process: "ctl_reach c \<Longrightarrow> m_monitor c \<longrightarrow> m_service c \<noteq> None"
proof (induction rule: ctl_reach.induct)
  case (New ps)
  show ?case
    by (simp add: new_controller_def)
next
  case (Step c i c')
  then show ?case
    using step_watched by blast
qed

end
