(* ===== verification/Sessions.thy ===== *)
theory Sessions
  imports AppState
begin

text \<open>
  The sessions of the system under Linux: the monitor that reports the user and the display of the
  active session (\<open>service/linux/SessionMonitor.cpp\<close>), and the search for the display that the
  processes of the active terminal use (\<open>service/linux/ActiveXDisplay.cpp\<close>), for systems that do not
  name it. The answers of the login service and the files of \<open>/proc\<close> are arguments; an answer that is
  an error is \<open>None\<close>. The conversion of a text to a number belongs to the library and is a parameter.
\<close>

section \<open>The display of the active terminal\<close>

text \<open>Splitting at a character; adjacent separators may count as one.\<close>

fun split_at :: "char \<Rightarrow> string \<Rightarrow> string list" where
  "split_at d [] = [[]]"
| "split_at d (c # cs) =
     (if c = d then [] # split_at d cs
      else (case split_at d cs of [] \<Rightarrow> [[c]] | w # ws \<Rightarrow> (c # w) # ws))"

fun compress :: "char \<Rightarrow> string \<Rightarrow> string" where
  "compress d [] = []"
| "compress d [c] = [c]"
| "compress d (c # c' # cs) =
     (if c = d \<and> c' = d then compress d (c' # cs) else c # compress d (c' # cs))"

text \<open>A process directory: its name, the line of its \<open>stat\<close> file, which may be unreadable, and the
  entries of its environment.\<close>

record proc_dir =
  pd_name :: string
  pd_stat :: "string option"
  pd_environ :: "string list"

definition env_pair :: "string \<Rightarrow> (string \<times> string) option" where
  "env_pair l = (case split_at (CHR ''='') l of [k, v] \<Rightarrow> Some (k, v) | _ \<Rightarrow> None)"

definition env_one ::
    "string \<Rightarrow> string option \<times> string option \<Rightarrow> string option \<times> string option" where
  "env_one l vars =
     (case env_pair l of
        None \<Rightarrow> vars
      | Some (k, v) \<Rightarrow>
          if k = ''DISPLAY'' then (Some v, snd vars)
          else if k = ''XAUTHORITY'' then (fst vars, Some v) else vars)"

definition getProcessXDisplayVars :: "string list \<Rightarrow> string option \<times> string option" where
  "getProcessXDisplayVars ls = fold env_one ls (None, None)"

record display_info =
  useCount :: nat
  authority :: "string option"

definition display_used ::
    "string \<Rightarrow> string option \<Rightarrow> (string \<times> display_info) list \<Rightarrow> (string \<times> display_info) list" where
  "display_used d auth m =
     (let info = value_or \<lparr>useCount = 0, authority = None\<rparr> (map_of m d)
      in insert_key d
           \<lparr>useCount = useCount info + 1,
            authority = (if authority info = None then auth else authority info)\<rparr> m)"

text \<open>The display of a process of the terminal; \<open>None\<close> outside is the exception of a file that cannot be
  read, \<open>None\<close> inside a process that does not count.\<close>

definition proc_display ::
    "(string \<Rightarrow> int option) \<Rightarrow> int \<Rightarrow> proc_dir \<Rightarrow> (string \<times> string option) option option" where
  "proc_display stoi rdev p =
     (if stoi (pd_name p) = None then Some None
      else
        (case pd_stat p of
           None \<Rightarrow> None
         | Some line \<Rightarrow>
             (let stats = split_at (CHR '' '') (compress (CHR '' '') line) in
              if length stats < 7 then Some None
              else
                (case stoi (stats ! 6) of
                   None \<Rightarrow> Some None
                 | Some tty \<Rightarrow>
                     if tty = 0 \<or> tty \<noteq> rdev then Some None
                     else
                       (case getProcessXDisplayVars (pd_environ p) of
                          (None, auth) \<Rightarrow> Some None
                        | (Some d, auth) \<Rightarrow> Some (Some (d, auth)))))))"

fun displays_from ::
    "(string \<Rightarrow> int option) \<Rightarrow> int \<Rightarrow> proc_dir list \<Rightarrow> (string \<times> display_info) list \<Rightarrow>
     (string \<times> display_info) list option" where
  "displays_from stoi rdev [] m = Some m"
| "displays_from stoi rdev (p # ps) m =
     (case proc_display stoi rdev p of
        None \<Rightarrow> None
      | Some None \<Rightarrow> displays_from stoi rdev ps m
      | Some (Some (d, auth)) \<Rightarrow> displays_from stoi rdev ps (display_used d auth m))"

text \<open>\<open>rdev\<close> is the number of the terminal's device, if there is one.\<close>

definition getXDisplaysOnTTY ::
    "(string \<Rightarrow> int option) \<Rightarrow> int option \<Rightarrow> proc_dir list \<Rightarrow> (string \<times> display_info) list option" where
  "getXDisplaysOnTTY stoi rdev ps =
     (case rdev of None \<Rightarrow> Some [] | Some n \<Rightarrow> displays_from stoi n ps [])"

text \<open>The first greatest element.\<close>

fun max_used :: "(string \<times> display_info) \<Rightarrow> (string \<times> display_info) list \<Rightarrow> string \<times> display_info" where
  "max_used x [] = x"
| "max_used x (y # ys) = max_used (if useCount (snd x) < useCount (snd y) then y else x) ys"

text \<open>\<open>tty\<close> is \<open>None\<close> when the name of the terminal cannot be read. Every exception means no display.\<close>

definition getActiveTTYXDisplay ::
    "(string \<Rightarrow> int option) \<Rightarrow> string option \<Rightarrow> (string \<Rightarrow> int option) \<Rightarrow> proc_dir list \<Rightarrow> string option" where
  "getActiveTTYXDisplay stoi tty device ps =
     (case tty of
        None \<Rightarrow> None
      | Some name \<Rightarrow>
          (case getXDisplaysOnTTY stoi (device name) ps of
             None \<Rightarrow> None
           | Some [] \<Rightarrow> None
           | Some (x # xs) \<Rightarrow> Some (fst (max_used x xs))))"

section \<open>The monitor\<close>

text \<open>A session as the login service describes it. The test for an active one is an integer, of which
  only zero counts as inactive.\<close>

record sd_session =
  sd_id :: string
  sd_active :: int
  sd_type :: "string option"
  sd_class :: "string option"
  sd_uid :: "int option"
  sd_display :: "string option"

datatype session_signal = ActiveUserChanged int | ActiveDisplayChanged string

record session_monitor =
  mon_session :: "string option"
  mon_display :: "string option"
  mon_user :: "int option"
  mon_stopped :: bool
  mon_waiting :: bool
  mon_signals :: "session_signal list"

definition new_session_monitor :: session_monitor where
  "new_session_monitor =
     \<lparr>mon_session = None, mon_display = None, mon_user = None, mon_stopped = True,
      mon_waiting = False, mon_signals = []\<rparr>"

text \<open>What is taken from an active session: nothing where something about it is missing or it is not
  the X session of a user. \<open>tty\<close> is the display of the active terminal.\<close>

definition session_user :: "string option \<Rightarrow> sd_session \<Rightarrow> (int \<times> string) option" where
  "session_user tty s =
     (if sd_type s \<noteq> Some ''x11'' \<or> sd_class s \<noteq> Some ''user'' then None
      else
        (case sd_uid s of
           None \<Rightarrow> None
         | Some u \<Rightarrow>
             (case sd_display s of
                Some d \<Rightarrow> Some (u, d)
              | None \<Rightarrow> (case tty of None \<Rightarrow> None | Some d \<Rightarrow> Some (u, d)))))"

definition take_session :: "string \<Rightarrow> int \<Rightarrow> string \<Rightarrow> session_monitor \<Rightarrow> session_monitor" where
  "take_session i u d m =
     (let m1 = (if mon_session m \<noteq> Some i then m\<lparr>mon_session := Some i\<rparr> else m);
          m2 = (if mon_user m1 \<noteq> Some u
                then m1\<lparr>mon_user := Some u, mon_signals := mon_signals m1 @ [ActiveUserChanged u]\<rparr>
                else m1)
      in if mon_display m2 \<noteq> Some d
         then m2\<lparr>mon_display := Some d, mon_signals := mon_signals m2 @ [ActiveDisplayChanged d]\<rparr>
         else m2)"

text \<open>The first active session decides, even if nothing is taken from it.\<close>

fun mon_poll :: "string option \<Rightarrow> sd_session list \<Rightarrow> session_monitor \<Rightarrow> session_monitor" where
  "mon_poll tty [] m = m"
| "mon_poll tty (s # ss) m =
     (if sd_active s \<noteq> 0
      then (case session_user tty s of
              None \<Rightarrow> m
            | Some (u, d) \<Rightarrow> take_session (sd_id s) u d m)
      else mon_poll tty ss m)"

text \<open>The coroutine polls and waits; it ends with the cancellation or another error, of which only the
  first counts as stopped.\<close>

definition mon_ended :: "session_monitor \<Rightarrow> session_monitor" where
  "mon_ended m = m\<lparr>mon_waiting := False, mon_session := None, mon_display := None, mon_user := None\<rparr>"

datatype wait_end = WaitReadable | WaitAborted | WaitFailed

datatype monitor_input =
    MonStart "string option" "sd_session list"
  | MonWait wait_end "string option" "sd_session list"
  | MonStop

text \<open>\<open>None\<close> is the failed assertion of \<open>stop\<close>.\<close>

definition monitor_step :: "monitor_input \<Rightarrow> session_monitor \<Rightarrow> session_monitor option" where
  "monitor_step i m =
     (case i of
        MonStart tty ss \<Rightarrow>
          Some (if mon_stopped m then (mon_poll tty ss (m\<lparr>mon_stopped := False\<rparr>))\<lparr>mon_waiting := True\<rparr>
                else m)
      | MonWait w tty ss \<Rightarrow>
          Some (if \<not> mon_waiting m then m
                else (case w of
                        WaitReadable \<Rightarrow> mon_poll tty ss m
                      | WaitAborted \<Rightarrow> mon_ended (m\<lparr>mon_stopped := True\<rparr>)
                      | WaitFailed \<Rightarrow> mon_ended m))
      | MonStop \<Rightarrow>
          (if mon_stopped m then Some m
           else if mon_waiting m then Some (mon_ended (m\<lparr>mon_stopped := True\<rparr>))
           else None))"

end
