(* ===== verification/Sessions_Props.thy ===== *)
theory Sessions_Props
  imports Sessions
begin

text \<open>
  The display that the search on the terminal finds is the one that most of its processes use, and
  the monitor holds what it has signalled last.
\<close>

section \<open>Counting the uses of a display\<close>

definition uses :: "(string \<Rightarrow> int option) \<Rightarrow> int \<Rightarrow> proc_dir list \<Rightarrow> string \<Rightarrow> nat" where
  "uses stoi n ps d = length (filter (\<lambda>p. \<exists>a. proc_display stoi n p = Some (Some (d, a))) ps)"

definition counted_uses :: "(string \<times> display_info) list \<Rightarrow> string \<Rightarrow> nat" where
  "counted_uses m d = (case map_of m d of None \<Rightarrow> 0 | Some i \<Rightarrow> useCount i)"

definition uses_ok :: "(string \<times> display_info) list \<Rightarrow> bool" where
  "uses_ok m \<longleftrightarrow> sorted_wrt (<) (map fst m) \<and> (\<forall>(d, i)\<in>set m. 0 < useCount i)"

lemma set_insert_key: "set (insert_key k v m) \<subseteq> insert (k, v) (set m)"
  by (induction k v m rule: insert_key.induct) auto

lemma display_used_ok:
  assumes "uses_ok m"
  shows "uses_ok (display_used d a m)"
    "counted_uses (display_used d a m) x = counted_uses m x + (if x = d then 1 else 0)"
proof -
  obtain i where i: "display_used d a m = insert_key d i m" "useCount i = counted_uses m d + 1"
    by (auto simp: display_used_def Let_def counted_uses_def value_or_def split: option.split)
  show "uses_ok (display_used d a m)"
    using assms i sorted_insert_key [of m d i] set_insert_key [of d i m]
    by (fastforce simp: uses_ok_def)
  show "counted_uses (display_used d a m) x = counted_uses m x + (if x = d then 1 else 0)"
    using i by (auto simp: counted_uses_def map_of_insert_key)
qed

lemma displays_from_ok:
  "displays_from stoi n ps m = Some m' \<Longrightarrow> uses_ok m \<Longrightarrow>
   uses_ok m' \<and> counted_uses m' x = counted_uses m x + uses stoi n ps x"
proof (induction ps arbitrary: m)
  case Nil
  then show ?case
    by (simp add: uses_def)
next
  case (Cons p ps)
  obtain q where q: "proc_display stoi n p = Some q"
    using Cons.prems(1) by (auto split: option.splits)
  show ?case
  proof (cases q)
    case None
    then show ?thesis
      using Cons q by (simp add: uses_def)
  next
    case (Some da)
    obtain d a where da: "da = (d, a)"
      by fastforce
    have "displays_from stoi n ps (display_used d a m) = Some m'"
      using Cons.prems(1) q Some da by simp
    from Cons.IH [OF this display_used_ok(1) [OF Cons.prems(2)]] show ?thesis
      using q Some da display_used_ok(2) [OF Cons.prems(2), of d a x] by (auto simp: uses_def)
  qed
qed

lemma max_used_greatest:
  "sorted_wrt (<) (map fst (x # xs)) \<Longrightarrow>
   max_used x xs \<in> set (x # xs) \<and>
   (\<forall>y\<in>set (x # xs). useCount (snd y) \<le> useCount (snd (max_used x xs)) \<and>
      (useCount (snd y) = useCount (snd (max_used x xs)) \<longrightarrow> fst (max_used x xs) \<le> fst y))"
proof (induction xs arbitrary: x)
  case (Cons z zs)
  define w where "w = (if useCount (snd x) < useCount (snd z) then z else x)"
  have "sorted_wrt (<) (map fst (w # zs))"
    using Cons.prems by (auto simp: w_def)
  note IH = Cons.IH [OF this]
  have m: "max_used x (z # zs) = max_used w zs"
    by (simp add: w_def)
  have w: "useCount (snd w) \<le> useCount (snd (max_used w zs))"
    using IH by simp
  have later: "fst x < fst z" "fst x < fst v" "fst z < fst v" if "v \<in> set zs" for v
    using Cons.prems that by auto
  have "useCount (snd y) \<le> useCount (snd (max_used w zs)) \<and>
      (useCount (snd y) = useCount (snd (max_used w zs)) \<longrightarrow> fst (max_used w zs) \<le> fst y)"
    if y: "y \<in> {x, z}" for y
  proof (cases "y = w")
    case True
    then show ?thesis
      using IH by simp
  next
    case False
    then consider "w = z" "y = x" "useCount (snd x) < useCount (snd z)"
      | "w = x" "y = z" "useCount (snd z) \<le> useCount (snd x)"
      using y by (auto simp: w_def split: if_splits)
    then show ?thesis
    proof cases
      case 2
      have "fst (max_used w zs) \<le> fst x" if "useCount (snd z) = useCount (snd (max_used w zs))"
        using IH w 2 that by auto
      moreover have "fst x < fst z"
        using Cons.prems by simp
      ultimately show ?thesis
        using w 2 by auto
    qed (use w in auto)
  qed
  then show ?case
    using IH unfolding m by (auto simp: w_def split: if_splits)
qed simp

text \<open>C31. The display that is found for a terminal whose device exists is one that its processes use,
  none is used by more of them, and of those that are used equally it is the first.\<close>

theorem terminal_display_is_most_used:
  assumes "getActiveTTYXDisplay stoi (Some tty) device ps = Some d" "device tty = Some n"
  shows "0 < uses stoi n ps d \<and>
    (\<forall>x. uses stoi n ps x < uses stoi n ps d \<or> uses stoi n ps x = uses stoi n ps d \<and> (0 < uses stoi n ps x \<longrightarrow> d \<le> x))"
proof -
  obtain e es where m: "displays_from stoi n ps [] = Some (e # es)" "d = fst (max_used e es)"
    using assms by (auto simp: getActiveTTYXDisplay_def getXDisplaysOnTTY_def split: option.splits list.splits)
  have ok: "uses_ok (e # es)" and count: "\<And>x. counted_uses (e # es) x = uses stoi n ps x"
    using displays_from_ok [OF m(1)] by (simp_all add: uses_ok_def counted_uses_def)
  have sorted: "sorted_wrt (<) (map fst (e # es))"
    using ok by (simp add: uses_ok_def)
  then have distinct: "distinct (map fst (e # es))"
    using strict_sorted_iff by blast
  note best = max_used_greatest [OF sorted]
  have lookup: "map_of (e # es) (fst y) = Some (snd y)" if "y \<in> set (e # es)" for y
    using that distinct by (metis map_of_eq_Some_iff prod.collapse)
  have d: "uses stoi n ps d = useCount (snd (max_used e es))"
    using lookup [of "max_used e es"] best m(2) count [of d] by (simp add: counted_uses_def)
  have "0 < useCount (snd (max_used e es))"
    using ok best by (metis case_prod_unfold uses_ok_def)
  moreover have "uses stoi n ps x < uses stoi n ps d \<or>
      uses stoi n ps x = uses stoi n ps d \<and> (0 < uses stoi n ps x \<longrightarrow> d \<le> x)" for x
  proof (cases "map_of (e # es) x")
    case None
    then show ?thesis
      using count [of x] d calculation unfolding counted_uses_def by simp
  next
    case (Some i)
    then have "(x, i) \<in> set (e # es)"
      by (rule map_of_SomeD)
    then show ?thesis
      using best m(2) d count [of x] Some unfolding counted_uses_def by fastforce
  qed
  ultimately show ?thesis
    using d by auto
qed

definition demo_proc :: "string \<Rightarrow> string \<Rightarrow> string \<Rightarrow> proc_dir" where
  "demo_proc name tty d =
     \<lparr>pd_name = name, pd_stat = Some (''1 (x) S 1 1  1 '' @ tty @ '' 0''),
      pd_environ = [''PATH=/bin'', ''DISPLAY='' @ d, ''A=b=c'']\<rparr>"

definition demo_stoi :: "string \<Rightarrow> int option" where
  "demo_stoi t = (if t = ''7'' \<or> t = ''12'' \<or> t = ''13'' then Some 7 else None)"

theorem terminal_display_is_most_used_witness:
  "getActiveTTYXDisplay demo_stoi (Some ''tty2'') (\<lambda>_. Some 7)
     [demo_proc ''7'' ''7'' '':2'', demo_proc ''12'' ''7'' '':1'', demo_proc ''self'' ''7'' '':2'',
      demo_proc ''13'' ''7'' '':1''] = Some '':1'' \<and>
   0 < uses demo_stoi 7 [demo_proc ''7'' ''7'' '':2'', demo_proc ''12'' ''7'' '':1'',
      demo_proc ''self'' ''7'' '':2'', demo_proc ''13'' ''7'' '':1''] '':1''"
proof -
  have "getActiveTTYXDisplay demo_stoi (Some ''tty2'') (\<lambda>_. Some 7)
     [demo_proc ''7'' ''7'' '':2'', demo_proc ''12'' ''7'' '':1'', demo_proc ''self'' ''7'' '':2'',
      demo_proc ''13'' ''7'' '':1''] = Some '':1''"
    by code_simp
  from terminal_display_is_most_used [OF this refl] this show ?thesis
    by simp
qed

section \<open>The monitor\<close>

text \<open>The last user and the last display that were signalled.\<close>

definition last_user :: "session_signal list \<Rightarrow> int option" where
  "last_user xs = fold (\<lambda>x r. case x of ActiveUserChanged u \<Rightarrow> Some u | _ \<Rightarrow> r) xs None"

definition last_display :: "session_signal list \<Rightarrow> string option" where
  "last_display xs = fold (\<lambda>x r. case x of ActiveDisplayChanged d \<Rightarrow> Some d | _ \<Rightarrow> r) xs None"

lemma last_signal_append [simp]:
  "last_user (xs @ [ActiveUserChanged u]) = Some u"
  "last_user (xs @ [ActiveDisplayChanged d]) = last_user xs"
  "last_display (xs @ [ActiveUserChanged u]) = last_display xs"
  "last_display (xs @ [ActiveDisplayChanged d]) = Some d"
  by (simp_all add: last_user_def last_display_def)

inductive monitor_reach :: "session_monitor \<Rightarrow> bool" where
  New: "monitor_reach new_session_monitor"
| Step: "monitor_reach m \<Longrightarrow> monitor_step i m = Some m' \<Longrightarrow> monitor_reach m'"

definition signals_current :: "session_monitor \<Rightarrow> bool" where
  "signals_current m \<longleftrightarrow>
     (mon_user m \<noteq> None \<longrightarrow> last_user (mon_signals m) = mon_user m) \<and>
     (mon_display m \<noteq> None \<longrightarrow> last_display (mon_signals m) = mon_display m) \<and>
     (mon_waiting m \<longrightarrow> \<not> mon_stopped m)"

lemma take_session_current:
  assumes "signals_current m"
  shows "signals_current (take_session i u d m) \<and> mon_user (take_session i u d m) = Some u \<and>
    mon_display (take_session i u d m) = Some d \<and>
    mon_stopped (take_session i u d m) = mon_stopped m \<and>
    mon_waiting (take_session i u d m) = mon_waiting m"
  using assms by (auto simp: take_session_def signals_current_def Let_def)

lemma mon_poll_current:
  "signals_current m \<Longrightarrow> signals_current (mon_poll tty ss m) \<and>
   mon_stopped (mon_poll tty ss m) = mon_stopped m \<and> mon_waiting (mon_poll tty ss m) = mon_waiting m"
  by (induction ss) (use take_session_current in \<open>auto split: option.split\<close>)

lemma monitor_step_current:
  assumes "monitor_step i m = Some m'" "signals_current m"
  shows "signals_current m'"
proof -
  have ended: "signals_current (mon_ended n)" for n
    by (simp add: signals_current_def mon_ended_def)
  show ?thesis
  proof (cases i)
    case (MonStart tty ss)
    have "signals_current (m\<lparr>mon_stopped := False\<rparr>)"
      using assms(2) by (simp add: signals_current_def)
    from mon_poll_current [OF this, of tty ss] show ?thesis
      using assms MonStart by (auto simp: monitor_step_def signals_current_def split: if_splits)
  next
    case (MonWait w tty ss)
    then show ?thesis
      using assms mon_poll_current [OF assms(2), of tty ss] ended
      by (auto simp: monitor_step_def split: if_splits wait_end.splits)
  next
    case MonStop
    then show ?thesis
      using assms ended by (auto simp: monitor_step_def split: if_splits)
  qed
qed

text \<open>The service always knows the active session: after every poll that finds a complete session
  of a user first among the active ones, the user and the display that were signalled last are
  those of this session, whatever was signalled before.\<close>

theorem signals_name_the_active_session:
  assumes "monitor_reach m" "mon_waiting m"
    and "\<forall>s\<in>set before. sd_active s = 0" "sd_active s \<noteq> 0" "session_user tty s = Some (u, d)"
    and "monitor_step (MonWait WaitReadable tty (before @ s # after)) m = Some m'"
  shows "last_user (mon_signals m') = Some u \<and> last_display (mon_signals m') = Some d"
proof -
  have "signals_current m"
    using assms(1)
  proof induction
    case New
    show ?case
      by (simp add: signals_current_def new_session_monitor_def)
  qed (rule monitor_step_current)
  moreover have "mon_poll tty (before @ s # after) m = take_session (sd_id s) u d m"
    using assms(3-5) by (induction before) auto
  ultimately show ?thesis
    using take_session_current [of m "sd_id s" u d] assms(2,6)
    by (auto simp: monitor_step_def signals_current_def)
qed

definition demo_session :: sd_session where
  "demo_session =
     \<lparr>sd_id = ''c2'', sd_active = 1, sd_type = Some ''x11'', sd_class = Some ''user'', sd_uid = Some 1000,
      sd_display = None\<rparr>"

definition started_monitor :: session_monitor where
  "started_monitor = the (monitor_step (MonStart None []) new_session_monitor)"

theorem signals_name_the_active_session_witness:
  "\<exists>m'. monitor_step (MonWait WaitReadable (Some '':1'') [demo_session\<lparr>sd_active := 0\<rparr>, demo_session])
      started_monitor = Some m' \<and> last_user (mon_signals m') = Some 1000"
proof -
  have reach: "monitor_reach started_monitor"
    by (rule monitor_reach.Step [OF monitor_reach.New, of "MonStart None []"])
      (simp add: started_monitor_def monitor_step_def new_session_monitor_def)
  have step: "monitor_step (MonWait WaitReadable (Some '':1'')
      ([demo_session\<lparr>sd_active := 0\<rparr>] @ demo_session # [])) started_monitor \<noteq> None"
    by (simp add: monitor_step_def)
  then obtain m' where m': "monitor_step (MonWait WaitReadable (Some '':1'')
      ([demo_session\<lparr>sd_active := 0\<rparr>] @ demo_session # [])) started_monitor = Some m'"
    by blast
  have "mon_waiting started_monitor"
    by (simp add: started_monitor_def monitor_step_def new_session_monitor_def)
  from signals_name_the_active_session [OF reach this _ _ _ m', of 1000 "'':1''"] m' show ?thesis
    by (simp add: demo_session_def session_user_def)
qed

text \<open>After a wait that failed, the monitor is neither running nor stopped: it does not start again,
  and stopping it runs into the failed assertion.\<close>

lemma failed_wait_is_final:
  assumes "mon_waiting m" "\<not> mon_stopped m"
  shows "\<exists>m'. monitor_step (MonWait WaitFailed tty ss) m = Some m' \<and>
    monitor_step (MonStart tty' ss') m' = Some m' \<and> monitor_step MonStop m' = None"
  using assms by (simp add: monitor_step_def mon_ended_def)

end
