(* ===== verification/Helper.thy ===== *)
theory Helper
  imports Prelude
begin

text \<open>
  The privileged helper of the macOS package, \<open>config/helper/main.cpp\<close>: launched by the system when
  the package is installed, and again when the application has been deleted. The disk is the list
  of its files with their contents; what the system permits, the home directory of the owner of the
  application and the revision of the helper are given by an environment. The log is the list of
  what is logged about the files.
\<close>

section \<open>Paths\<close>

definition kSharedConfigPath :: string where
  "kSharedConfigPath = ''/Users/Shared/Synergy''"

definition kSharedUserData :: string where
  "kSharedUserData = kSharedConfigPath @ ''/user.cfg''"

definition kAppPath :: string where
  "kAppPath = ''/Applications/Synergy.app''"

definition kAppResourcePath :: string where
  "kAppResourcePath = kAppPath @ ''/Contents/Resources''"

definition kAppVersionFilePath :: string where
  "kAppVersionFilePath = kAppResourcePath @ ''/Version.txt''"

definition kHelperName :: string where
  "kHelperName = ''com.symless.synergy.v2.ServiceHelper''"

definition kHelperPListPath :: string where
  "kHelperPListPath = ''/Library/LaunchDaemons/'' @ kHelperName @ ''.plist''"

definition kHelperExecPath :: string where
  "kHelperExecPath = ''/Library/PrivilegedHelperTools/'' @ kHelperName"

definition kServiceUserAgentFilename :: string where
  "kServiceUserAgentFilename = ''com.symless.synergy.synergy-service.plist''"

definition kServiceUserAgentPListTargetPath :: string where
  "kServiceUserAgentPListTargetPath = ''/Library/LaunchAgents/'' @ kServiceUserAgentFilename"

definition kServiceUserAgentPListSourcePath :: string where
  "kServiceUserAgentPListSourcePath = kAppResourcePath @ ''/'' @ kServiceUserAgentFilename"

definition kServiceLegacyUserAgentPListPath :: string where
  "kServiceLegacyUserAgentPListPath = ''/Library/LaunchAgents/com.symless.synergy.v2.synergyd.plist''"

lemmas helper_paths = kSharedConfigPath_def kSharedUserData_def kAppPath_def kAppResourcePath_def
  kAppVersionFilePath_def kHelperName_def kHelperPListPath_def kHelperExecPath_def
  kServiceUserAgentFilename_def kServiceUserAgentPListTargetPath_def kServiceUserAgentPListSourcePath_def
  kServiceLegacyUserAgentPListPath_def

section \<open>State\<close>

datatype helper_log =
    AlreadyInstalled
  | SourceMissing
  | CopyFailed
  | InstallOutcome bool
  | Removing string bool
  | UserHome string
  | ExceptionThrown

record helper_state =
  files :: "(string \<times> string) list"
  hlog :: "helper_log list"

text \<open>\<open>he_may\<close> tells which files may be written and removed, \<open>he_stats\<close> for which paths a look at
  the directory succeeds, and \<open>he_asserts\<close> whether the assertions are compiled in.\<close>

record helper_env =
  he_may :: "string \<Rightarrow> bool"
  he_stats :: "string \<Rightarrow> bool"
  he_shared :: bool
  he_asserts :: bool
  he_home :: string
  he_revision :: string

datatype helper_result = ExitSuccess | ExitFailure | Aborted

definition hsay :: "helper_log \<Rightarrow> helper_state \<Rightarrow> helper_state" where
  "hsay l s = s\<lparr>hlog := hlog s @ [l]\<rparr>"

definition file_exists :: "string \<Rightarrow> helper_state \<Rightarrow> bool" where
  "file_exists p s \<longleftrightarrow> map_of (files s) p \<noteq> None"

definition put_file :: "string \<Rightarrow> string \<Rightarrow> helper_state \<Rightarrow> helper_state" where
  "put_file p c s = s\<lparr>files := (p, c) # filter (\<lambda>f. fst f \<noteq> p) (files s)\<rparr>"

definition keep_files :: "(string \<Rightarrow> bool) \<Rightarrow> helper_state \<Rightarrow> helper_state" where
  "keep_files P s = s\<lparr>files := filter (\<lambda>f. P (fst f)) (files s)\<rparr>"

section \<open>Removing\<close>

text \<open>\<open>boost::filesystem::remove\<close> and \<open>remove_all\<close> with an error code: there is none when there is
  nothing to remove. A file that may not be removed stays.\<close>

definition remove_file :: "helper_env \<Rightarrow> string \<Rightarrow> helper_state \<Rightarrow> bool \<times> helper_state" where
  "remove_file env p s =
     (if file_exists p s \<and> \<not> he_may env p then (False, s) else (True, keep_files (\<lambda>q. q \<noteq> p) s))"

definition in_tree :: "string \<Rightarrow> string \<Rightarrow> bool" where
  "in_tree d p \<longleftrightarrow> p = d \<or> take (Suc (length d)) p = d @ ''/''"

definition remove_tree :: "helper_env \<Rightarrow> string \<Rightarrow> helper_state \<Rightarrow> bool \<times> helper_state" where
  "remove_tree env d s =
     (\<forall>f\<in>set (files s). in_tree d (fst f) \<longrightarrow> he_may env (fst f),
      keep_files (\<lambda>p. \<not> (in_tree d p \<and> he_may env p)) s)"

definition logged_removal :: "(string \<Rightarrow> helper_state \<Rightarrow> bool \<times> helper_state) \<Rightarrow> string \<Rightarrow> helper_state \<Rightarrow> helper_state" where
  "logged_removal rm p s = (let (ok, s) = rm p s in hsay (Removing p ok) s)"

section \<open>Installing the service\<close>

text \<open>\<open>copy_file\<close> without an option fails when there is a file at the target already.\<close>

definition copy_new_file :: "helper_env \<Rightarrow> string \<Rightarrow> string \<Rightarrow> helper_state \<Rightarrow> bool \<times> helper_state" where
  "copy_new_file env from to s =
     (case map_of (files s) from of
        None \<Rightarrow> (False, s)
      | Some c \<Rightarrow> if file_exists to s \<or> \<not> he_may env to then (False, s) else (True, put_file to c s))"

text \<open>\<open>None\<close> is an exception of \<open>boost::filesystem::exists\<close>.\<close>

definition installSynergyService :: "helper_env \<Rightarrow> bool \<Rightarrow> helper_state \<Rightarrow> bool option \<times> helper_state" where
  "installSynergyService env force s =
     (let target = kServiceUserAgentPListTargetPath; source = kServiceUserAgentPListSourcePath in
      if \<not> force \<and> \<not> he_stats env target then (None, s)
      else if \<not> force \<and> file_exists target s then (Some True, hsay AlreadyInstalled s)
      else if \<not> he_stats env source then (None, s)
      else if \<not> file_exists source s then (Some False, hsay SourceMissing s)
      else let (ok, s) = copy_new_file env source target s in
        if ok then (Some True, s) else (Some False, hsay CopyFailed s))"

section \<open>The program\<close>

text \<open>\<open>operator>>\<close> for strings reads a word, \<open>getline\<close> a line.\<close>

definition is_blank :: "char \<Rightarrow> bool" where
  "is_blank c \<longleftrightarrow> c \<in> set [CHR '' '', CHR 0x09, CHR 0x0A, CHR 0x0B, CHR 0x0C, CHR 0x0D]"

definition first_word :: "string \<Rightarrow> string" where
  "first_word cs = takeWhile (\<lambda>c. \<not> is_blank c) (dropWhile is_blank cs)"

definition first_line :: "string \<Rightarrow> string" where
  "first_line cs = takeWhile (\<lambda>c. c \<noteq> CHR 0x0A) cs"

definition remove_user_files :: "helper_env \<Rightarrow> string \<Rightarrow> helper_state \<Rightarrow> helper_state" where
  "remove_user_files env home s =
     logged_removal (remove_file env) (home @ ''/Library/Preferences/com.https-symless-com.Synergy.plist'')
      (logged_removal (remove_tree env) (home @ ''/Library/Preferences/Symless'')
        (logged_removal (remove_tree env) (home @ ''/Library/Synergy'') (hsay (UserHome home) s)))"

definition uninstall :: "helper_env \<Rightarrow> helper_state \<Rightarrow> helper_result \<times> helper_state" where
  "uninstall env s =
     (let s = logged_removal (remove_file env) kServiceUserAgentPListTargetPath s;
          s = logged_removal (remove_file env) kHelperPListPath s;
          s = logged_removal (remove_file env) kHelperExecPath s in
      case map_of (files s) kSharedUserData of
        None \<Rightarrow> if he_asserts env then (Aborted, s) else (ExitSuccess, remove_user_files env [] s)
      | Some c \<Rightarrow> (ExitSuccess, remove_user_files env (first_word c) s))"

definition store_home :: "helper_env \<Rightarrow> helper_state \<Rightarrow> helper_result option \<times> helper_state" where
  "store_home env s =
     (if he_may env kSharedUserData then (None, put_file kSharedUserData (he_home env) s)
      else (if he_asserts env then Some Aborted else None, s))"

definition helper_install :: "helper_env \<Rightarrow> string \<Rightarrow> helper_state \<Rightarrow> helper_result \<times> helper_state" where
  "helper_install env version_text s =
     (case store_home env s of
        (Some r, s) \<Rightarrow> (r, s)
      | (None, s) \<Rightarrow>
          (case installSynergyService env (first_line version_text \<noteq> he_revision env) s of
             (None, s) \<Rightarrow> (ExitFailure, hsay ExceptionThrown s)
           | (Some ok, s) \<Rightarrow> (ExitSuccess, hsay (InstallOutcome ok) s)))"

definition helper_main :: "helper_env \<Rightarrow> helper_state \<Rightarrow> helper_result \<times> helper_state" where
  "helper_main env s =
     (if \<not> he_shared env then (Aborted, s)
      else let s = snd (remove_file env kServiceLegacyUserAgentPListPath s) in
        case map_of (files s) kAppVersionFilePath of
          None \<Rightarrow> uninstall env s
        | Some version_text \<Rightarrow> helper_install env version_text s)"

section \<open>Facts\<close>

lemma map_of_keep: "map_of (filter (\<lambda>f. P (fst f)) xs) k = (if P k then map_of xs k else None)"
  by (induction xs) auto

lemma keep_files_simps [simp]:
  "map_of (files (keep_files P s)) k = (if P k then map_of (files s) k else None)"
  "files (keep_files P s) = filter (\<lambda>f. P (fst f)) (files s)"
  "hlog (keep_files P s) = hlog s"
  by (simp_all add: keep_files_def map_of_keep)

lemma hsay_files [simp]: "files (hsay l s) = files s" "hlog (hsay l s) = hlog s @ [l]"
  by (simp_all add: hsay_def)

lemma put_file_lookup [simp]:
  "map_of (files (put_file p c s)) k = (if k = p then Some c else map_of (files s) k)"
  by (simp add: put_file_def map_of_keep [of "\<lambda>q. q \<noteq> p"])

lemma put_file_hlog [simp]: "hlog (put_file p c s) = hlog s"
  by (simp add: put_file_def)

text \<open>When everything may be removed, a removal takes exactly what it names.\<close>

lemma removal_permitted:
  assumes "\<forall>p. he_may env p"
  shows "files (snd (remove_file env p s)) = filter (\<lambda>f. fst f \<noteq> p) (files s)"
    "files (logged_removal (remove_file env) p s) = filter (\<lambda>f. fst f \<noteq> p) (files s)"
    "files (logged_removal (remove_tree env) p s) = filter (\<lambda>f. \<not> in_tree p (fst f)) (files s)"
  using assms by (simp_all add: remove_file_def remove_tree_def logged_removal_def)

text \<open>A removal leaves the contents of every other file alone.\<close>

lemma remove_file_lookup: "q \<noteq> p \<Longrightarrow> map_of (files (snd (remove_file env p s))) q = map_of (files s) q"
  by (simp add: remove_file_def map_of_keep [of "\<lambda>q. q \<noteq> p"])

lemma first_word_whole: "\<forall>c\<in>set cs. \<not> is_blank c \<Longrightarrow> first_word cs = cs"
  by (cases cs) (simp_all add: first_word_def)

lemma install_keeps:
  "q \<noteq> kServiceUserAgentPListTargetPath \<Longrightarrow>
   map_of (files (snd (installSynergyService env force s))) q = map_of (files s) q"
  by (simp add: installSynergyService_def copy_new_file_def Let_def split: option.split)

text \<open>A run with the application in place leaves the home directory in the shared file.\<close>

lemma install_stores_home:
  assumes "he_shared env" "he_may env kSharedUserData" "map_of (files s) kAppVersionFilePath = Some v"
  shows "map_of (files (snd (helper_main env s))) kSharedUserData = Some (he_home env)"
proof -
  let ?s = "snd (remove_file env kServiceLegacyUserAgentPListPath s)"
  have "map_of (files ?s) kAppVersionFilePath = Some v"
    using assms(3) by (subst remove_file_lookup) (simp_all add: helper_paths)
  moreover have "kSharedUserData \<noteq> kServiceUserAgentPListTargetPath"
    by (simp add: helper_paths)
  ultimately show ?thesis
    using assms(1,2) install_keeps
    by (simp add: helper_main_def helper_install_def store_home_def Let_def split: prod.split option.split)
      (metis snd_conv put_file_lookup)
qed

text \<open>What a run without the application removes.\<close>

definition helper_removes :: "string \<Rightarrow> string \<Rightarrow> bool" where
  "helper_removes home p \<longleftrightarrow>
     p \<in> {kServiceLegacyUserAgentPListPath, kServiceUserAgentPListTargetPath, kHelperPListPath, kHelperExecPath,
          home @ ''/Library/Preferences/com.https-symless-com.Synergy.plist''} \<or>
     in_tree (home @ ''/Library/Synergy'') p \<or> in_tree (home @ ''/Library/Preferences/Symless'') p"

lemma uninstall_removes:
  assumes "he_shared env" "\<forall>p. he_may env p" "map_of (files t) kAppVersionFilePath = None"
    "map_of (files t) kSharedUserData = Some c"
  shows "fst (helper_main env t) = ExitSuccess"
    "files (snd (helper_main env t)) = filter (\<lambda>f. \<not> helper_removes (first_word c) (fst f)) (files t)"
proof -
  note rm = removal_permitted [OF assms(2)]
  let ?gone = "[kServiceLegacyUserAgentPListPath, kServiceUserAgentPListTargetPath, kHelperPListPath, kHelperExecPath]"
  define t' where "t' = logged_removal (remove_file env) kHelperExecPath
    (logged_removal (remove_file env) kHelperPListPath
      (logged_removal (remove_file env) kServiceUserAgentPListTargetPath
        (snd (remove_file env kServiceLegacyUserAgentPListPath t))))"
  have f: "files t' = filter (\<lambda>f. fst f \<notin> set ?gone) (files t)"
    by (simp add: t'_def rm conj_ac)
  have "kSharedUserData \<notin> set ?gone"
    by (simp add: helper_paths)
  then have "map_of (files t') kSharedUserData = Some c"
    unfolding f map_of_keep [of "\<lambda>p. p \<notin> set ?gone"] using assms(4) by (simp only: if_True not_False_eq_True)
  moreover have "map_of (files (snd (remove_file env kServiceLegacyUserAgentPListPath t))) kAppVersionFilePath = None"
    using assms(3) by (subst remove_file_lookup) (simp_all add: helper_paths)
  ultimately have main: "helper_main env t = (ExitSuccess, remove_user_files env (first_word c) t')"
    using assms(1) by (simp add: helper_main_def uninstall_def t'_def Let_def)
  show "fst (helper_main env t) = ExitSuccess"
    by (simp add: main)
  show "files (snd (helper_main env t)) = filter (\<lambda>f. \<not> helper_removes (first_word c) (fst f)) (files t)"
    by (simp add: main remove_user_files_def rm f helper_removes_def)
      (rule filter_cong [OF refl], auto)
qed

section \<open>Properties\<close>

text \<open>C34. The helper cleans up after itself and touches nothing else: when the application was in place
  at one run and is gone at a later one, then the later run removes exactly the files of the service
  and of the helper and those that the owner of the application had under his home directory,
  provided that the shared file still holds that directory, its name is free of white space, and the
  system permits the removals.\<close>

theorem uninstall_cleans_up:
  assumes "he_shared env" "\<forall>p. he_may env p" "\<forall>c\<in>set (he_home env). \<not> is_blank c"
    and "map_of (files s) kAppVersionFilePath = Some v"
    and "map_of (files t) kSharedUserData = map_of (files (snd (helper_main env s))) kSharedUserData"
    and "map_of (files t) kAppVersionFilePath = None"
  shows "fst (helper_main env t) = ExitSuccess \<and>
    files (snd (helper_main env t)) = filter (\<lambda>f. \<not> helper_removes (he_home env) (fst f)) (files t)"
  using uninstall_removes [OF assms(1,2,6)] install_stores_home [OF assms(1) _ assms(4)] assms(2,3,5)
  by (simp add: first_word_whole)

definition demo_helper :: helper_env where
  "demo_helper = \<lparr>he_may = (\<lambda>_. True), he_stats = (\<lambda>_. True), he_shared = True, he_asserts = True,
     he_home = ''/Users/ann'', he_revision = ''r1''\<rparr>"

definition demo_disk :: helper_state where
  "demo_disk = \<lparr>files = [(kAppVersionFilePath, ''r1''), (kServiceUserAgentPListSourcePath, ''plist'')], hlog = []\<rparr>"

definition left_disk :: helper_state where
  "left_disk = \<lparr>files = [(''/Users/ann/Library/Synergy/log'', ''''), (''/Users/bob/Library/Synergy/log'', ''''),
     (kSharedUserData, ''/Users/ann''), (kServiceUserAgentPListTargetPath, ''plist'')], hlog = []\<rparr>"

theorem uninstall_cleans_up_witness:
  "fst (helper_main demo_helper left_disk) = ExitSuccess \<and>
   files (snd (helper_main demo_helper left_disk)) =
     [(''/Users/bob/Library/Synergy/log'', ''''), (kSharedUserData, ''/Users/ann'')]"
proof -
  have "map_of (files demo_disk) kAppVersionFilePath = Some ''r1''"
    by code_simp
  moreover have "map_of (files left_disk) kSharedUserData =
      map_of (files (snd (helper_main demo_helper demo_disk))) kSharedUserData"
    by code_simp
  moreover have "map_of (files left_disk) kAppVersionFilePath = None"
    by code_simp
  moreover have "\<forall>c\<in>set (he_home demo_helper). \<not> is_blank c"
    by code_simp
  moreover have "filter (\<lambda>f. \<not> helper_removes ''/Users/ann'' (fst f)) (files left_disk) =
      [(''/Users/bob/Library/Synergy/log'', ''''), (kSharedUserData, ''/Users/ann'')]"
    by code_simp
  ultimately show ?thesis
    using uninstall_cleans_up [of demo_helper demo_disk "''r1''" left_disk] by (simp add: demo_helper_def)
qed

text \<open>An update never replaces the description of the service: the file that is there makes the copy
  fail, forced or not, and the helper reports that the service was not installed.\<close>

theorem update_keeps_the_old_service:
  assumes "he_shared env" "he_may env kSharedUserData" "he_stats env kServiceUserAgentPListSourcePath"
    and "map_of (files s) kAppVersionFilePath = Some v" "first_line v \<noteq> he_revision env"
    and "map_of (files s) kServiceUserAgentPListTargetPath = Some old"
  shows "map_of (files (snd (helper_main env s))) kServiceUserAgentPListTargetPath = Some old \<and>
    last (hlog (snd (helper_main env s))) = InstallOutcome False"
proof -
  let ?s = "snd (remove_file env kServiceLegacyUserAgentPListPath s)"
  have v: "map_of (files ?s) kAppVersionFilePath = Some v"
    using assms(4) by (subst remove_file_lookup) (simp_all add: helper_paths)
  have "map_of (files ?s) kServiceUserAgentPListTargetPath = Some old"
    using assms(6) by (subst remove_file_lookup) (simp_all add: helper_paths)
  then have o: "map_of (files (put_file kSharedUserData (he_home env) ?s)) kServiceUserAgentPListTargetPath = Some old"
    by (simp add: helper_paths)
  then show ?thesis
    using assms(1-3,5) v
    by (simp add: helper_main_def helper_install_def store_home_def installSynergyService_def copy_new_file_def
        file_exists_def Let_def split: option.split)
qed

end
