(* ===== verification/MacProcesses.thy ===== *)
theory MacProcesses
  imports Prelude
begin

text \<open>
  How a configuration program of macOS that is started from elsewhere ends what runs of the installed
  application before it replaces it (\<open>config/lib/OSXProcessList.cpp\<close>). A path is the list of its components. The answers of the system
  are inputs: for each round of \<open>GetBSDProcessList\<close> the length it reports, whether memory can be had,
  and the outcome of the second call; for each process its path, if it can be had.
\<close>

section \<open>The list of processes\<close>

text \<open>A call of \<open>sysctl\<close> ends with an error, or with a length and, the second time, the processes.\<close>

datatype errno = ENOMEM | OtherError

record sysctl_round =
  first_call :: "errno option"
  has_memory :: bool
  second_call :: "errno + int list"

text \<open>The loop asks again when the list has grown in between. \<open>None\<close>: it is still asking.\<close>

fun GetBSDProcessList :: "sysctl_round list \<Rightarrow> (errno + int list) option" where
  "GetBSDProcessList [] = None"
| "GetBSDProcessList (r # rs) =
     (case first_call r of
        Some e \<Rightarrow> Some (Inl e)
      | None \<Rightarrow>
          if \<not> has_memory r then Some (Inl ENOMEM)
          else (case second_call r of
              Inr procs \<Rightarrow> Some (Inr procs)
            | Inl e \<Rightarrow> if e = ENOMEM then GetBSDProcessList rs else Some (Inl e)))"

section \<open>Installed components\<close>

fun mismatch_first :: "'a list \<Rightarrow> 'a list \<Rightarrow> 'a list" where
  "mismatch_first (x # xs) (y # ys) = (if x = y then mismatch_first xs ys else x # xs)"
| "mismatch_first xs ys = xs"

definition kInstallPath :: "string list" where
  "kInstallPath = [''/'', ''Applications'', ''Synergy.app'']"

definition isInstalledComponent :: "string list \<Rightarrow> bool" where
  "isInstalledComponent path \<longleftrightarrow> mismatch_first kInstallPath path = []"

text \<open>\<open>getPidPath\<close> throws when there is no path.\<close>

definition iAmInstalled :: "string list option \<Rightarrow> bool option" where
  "iAmInstalled own = map_option isInstalledComponent own"

text \<open>The processes that are sent the signal, in order. An error leaves the list empty.\<close>

definition killInstalledComponents ::
  "sysctl_round list \<Rightarrow> (int \<Rightarrow> string list option) \<Rightarrow> int list option" where
  "killInstalledComponents rounds pid_path =
     map_option
       (\<lambda>res. case res of
          Inl e \<Rightarrow> []
        | Inr procs \<Rightarrow>
            filter (\<lambda>pid. case pid_path pid of None \<Rightarrow> False | Some p \<Rightarrow> isInstalledComponent p) procs)
       (GetBSDProcessList rounds)"

section \<open>Facts\<close>

lemma mismatch_first_Nil: "mismatch_first xs ys = [] \<longleftrightarrow> (\<exists>zs. ys = xs @ zs)"
  by (induction xs ys rule: mismatch_first.induct) auto

text \<open>Only what lies below the directory of the application is one of its components, not what merely
  has a name that begins alike.\<close>

lemma installed_iff: "isInstalledComponent path \<longleftrightarrow> (\<exists>rest. path = kInstallPath @ rest)"
  by (simp add: isInstalledComponent_def mismatch_first_Nil)

lemma killed_is_component:
  assumes "killInstalledComponents rounds pid_path = Some pids" "pid \<in> set pids"
  shows "\<exists>p. pid_path pid = Some p \<and> isInstalledComponent p"
proof -
  obtain res where res: "GetBSDProcessList rounds = Some res"
    using assms(1) by (auto simp: killInstalledComponents_def)
  show ?thesis
    using assms by (cases res) (auto simp: killInstalledComponents_def res split: option.splits)
qed

lemma kills_only_components:
  assumes "killInstalledComponents rounds pid_path = Some pids" "pid \<in> set pids"
  shows "\<exists>rest. pid_path pid = Some (kInstallPath @ rest)"
  using killed_is_component [OF assms] by (auto simp: installed_iff)

text \<open>The loop ends as soon as a round does not run out of room in its second call.\<close>

lemma process_list_ends:
  assumes "r \<in> set rounds" "second_call r \<noteq> Inl ENOMEM"
  shows "\<exists>res. GetBSDProcessList rounds = Some res"
  using assms by (induction rounds) (auto split: option.split sum.split)

text \<open>A program that is not installed itself survives.\<close>

lemma not_installed_survives:
  assumes "iAmInstalled (pid_path own) = Some False" "killInstalledComponents rounds pid_path = Some pids"
  shows "own \<notin> set pids"
  using killed_is_component [OF assms(2), of own] assms(1) by (auto simp: iAmInstalled_def)

end
