(* ===== verification/MacInstall.thy ===== *)
theory MacInstall
  imports MacProcesses Core Controller
begin

text \<open>
  How the configuration program of macOS installs the application when it is started from elsewhere,
  and starts the service otherwise (\<open>config/lib/App.cpp\<close>). A file system is a tree; paths are lists of
  names. The actions on the system are listed in the order in which they are taken, and what the
  system answers is given by an environment.
\<close>

section \<open>Copying the bundle\<close>

datatype node = File string | Dir "(string \<times> node) list" | Other

text \<open>A node appears in a directory.\<close>

definition put_node :: "string \<Rightarrow> node option \<Rightarrow> (string \<times> node) list \<Rightarrow> (string \<times> node) list" where
  "put_node n x es =
     (case x of None \<Rightarrow> es | Some y \<Rightarrow> if map_of es n = None then es @ [(n, y)] else es)"

text \<open>What is there afterwards, and whether an exception left the function. \<open>create_directories\<close> is
  called without the error code and throws, \<open>copy\<close> is called with it.\<close>

fun recursiveCopy :: "(string list \<Rightarrow> bool) \<Rightarrow> string list \<Rightarrow> node \<Rightarrow> node option \<Rightarrow> bool \<times> node option"
  and copy_items :: "(string list \<Rightarrow> bool) \<Rightarrow> string list \<Rightarrow> (string \<times> node) list \<Rightarrow> (string \<times> node) list \<Rightarrow>
    bool \<times> (string \<times> node) list" where
  "recursiveCopy may dst src (Some there) = (False, Some there)"
| "recursiveCopy may dst (File c) None = (False, if may dst then Some (File c) else None)"
| "recursiveCopy may dst Other None = (False, None)"
| "recursiveCopy may dst (Dir items) None =
     (if \<not> may dst then (True, None)
      else (let (threw, es) = copy_items may dst items [] in (threw, Some (Dir es))))"
| "copy_items may dst [] es = (False, es)"
| "copy_items may dst ((n, x) # items) es =
     (let (threw, r) = recursiveCopy may (dst @ [n]) x (map_of es n); es = put_node n r es in
      if threw then (True, es) else copy_items may dst items es)"

text \<open>\<open>remove_all\<close> with an error code: what it leaves, nothing when it succeeds.\<close>

definition uninstallBundle :: "(node \<Rightarrow> node option) \<Rightarrow> node option \<Rightarrow> node option" where
  "uninstallBundle remove there = Option.bind there remove"

text \<open>Without the file with the version in the running bundle there is nothing to install from.\<close>

definition reinstallBundle ::
  "(string list \<Rightarrow> bool) \<Rightarrow> (node \<Rightarrow> node option) \<Rightarrow> node option \<Rightarrow> node option \<Rightarrow> bool \<times> node option" where
  "reinstallBundle may remove bundle there =
     (case bundle of
        None \<Rightarrow> (False, there)
      | Some src \<Rightarrow> recursiveCopy may kInstallPath src (uninstallBundle remove there))"

section \<open>Installing and starting\<close>

datatype mac_action =
    AuthorizeHelper
  | RunCommand string
  | KillComponents
  | ReinstallBundle
  | InstallHelper
  | Sleep nat
  | Unmount string
  | StartDetached string
  | ExitProgram bool

record mac_env =
  me_installed :: bool
  me_authorized :: bool
  me_helper_installs :: bool
  me_helper_listed :: bool
  me_volumes :: "(string \<times> bool) list"

definition startService :: "mac_action list" where
  "startService = [RunCommand ''launchctl load /Library/LaunchAgents/com.symless.synergy.synergy-service.plist'']"

definition stopService :: "mac_action list" where
  "stopService =
     [RunCommand ''launchctl unload /Library/LaunchAgents/com.symless.synergy.v2.synergyd.plist'',
      RunCommand ''launchctl unload /Library/LaunchAgents/com.symless.synergy.synergy-service.plist'']"

text \<open>\<open>icontains\<close> in the classic locale, over the directories in \<open>/Volumes\<close>.\<close>

definition unmountVolumes :: "(string \<times> bool) list \<Rightarrow> mac_action list" where
  "unmountVolumes vs =
     map (Unmount \<circ> fst) (filter (\<lambda>(name, is_dir). is_dir \<and> contains (map lower name) ''synergy'') vs)"

definition installAndStartService :: "mac_env \<Rightarrow> mac_action list" where
  "installAndStartService env =
     (if \<not> me_installed env then
        AuthorizeHelper #
        (if \<not> me_authorized env then [ExitProgram False]
         else stopService @ [KillComponents, ReinstallBundle, InstallHelper] @
           (if me_helper_installs env then [Sleep 3] else []) @
           startService @
           [Sleep 1, StartDetached ''/Applications/Synergy.app/Contents/MacOS/synergy-config'', ExitProgram True])
      else
        (if \<not> me_helper_listed env
         then InstallHelper # (if me_helper_installs env then [Sleep 3] else []) else []) @
        unmountVolumes (me_volumes env) @ startService)"

text \<open>The options of the command line, as far as they decide how the program starts: the actions, and
  whether the user interface follows.\<close>

definition run_start :: "string list \<Rightarrow> mac_env \<Rightarrow> mac_action list \<times> bool" where
  "run_start options env =
     (if ''help'' \<in> set options then ([], False)
      else if ''service'' \<in> set options
        then ([RunCommand ''/Applications/Synergy.app/Contents/MacOS/synergy-service''], False)
      else if ''disable-install'' \<in> set options then ([], True)
      else (let as = installAndStartService env in (as, \<forall>a\<in>set as. \<forall>b. a \<noteq> ExitProgram b)))"

section \<open>Facts\<close>

text \<open>What a copy should be: the files and directories of the source.\<close>

fun plain :: "node \<Rightarrow> node option" where
  "plain (File c) = Some (File c)"
| "plain Other = None"
| "plain (Dir items) = Some (Dir (concat (map (\<lambda>(n, x). case plain x of None \<Rightarrow> [] | Some y \<Rightarrow> [(n, y)]) items)))"

fun distinct_names :: "node \<Rightarrow> bool" where
  "distinct_names (Dir items) \<longleftrightarrow> distinct (map fst items) \<and> (\<forall>(n, x)\<in>set items. distinct_names x)"
| "distinct_names _ \<longleftrightarrow> True"

abbreviation plain_items :: "(string \<times> node) list \<Rightarrow> (string \<times> node) list" where
  "plain_items items \<equiv> concat (map (\<lambda>(n, x). case plain x of None \<Rightarrow> [] | Some y \<Rightarrow> [(n, y)]) items)"

text \<open>Copied to a place where nothing is, everything arrives.\<close>

lemma fresh_copy:
  "(\<forall>p. may p) \<Longrightarrow> distinct_names src \<Longrightarrow> there = None \<Longrightarrow> recursiveCopy may dst src there = (False, plain src)"
  "(\<forall>p. may p) \<Longrightarrow> distinct (map fst items) \<Longrightarrow> \<forall>(n, x)\<in>set items. distinct_names x \<Longrightarrow>
     \<forall>n\<in>fst ` set items. map_of es n = None \<Longrightarrow> copy_items may dst items es = (False, es @ plain_items items)"
proof (induction may dst src there and may dst items es rule: recursiveCopy_copy_items.induct)
  case (6 may dst n x items es)
  have n: "map_of es n = None"
    using 6(6) by simp
  then have x: "recursiveCopy may (dst @ [n]) x (map_of es n) = (False, plain x)"
    using 6(5) by (intro 6(1) [OF 6(3) _ n]) simp
  let ?es = "put_node n (plain x) es"
  have "map_of ?es k = None" if "k \<in> fst ` set items" for k
  proof -
    have "k \<noteq> n" "map_of es k = None"
      using that 6(4,6) by auto
    then show ?thesis
      by (auto simp: put_node_def map_add_def split: option.split)
  qed
  then have "copy_items may dst items ?es = (False, ?es @ plain_items items)"
    by (intro 6(2) [OF refl x [symmetric] refl] 6(3)) (use 6(4,5) in auto)
  then show ?case
    using n x by (auto simp: put_node_def split: option.split)
qed auto

text \<open>A new installation is the running bundle; but when the old one cannot be removed altogether, what
  is left of it stays and nothing is copied, and nobody is told.\<close>

lemma reinstalled:
  assumes "\<forall>p. may p" "distinct_names src" "uninstallBundle remove there = None"
  shows "reinstallBundle may remove (Some src) there = (False, plain src)"
  by (simp add: reinstallBundle_def assms(3) fresh_copy(1) [OF assms(1,2)])

lemma leftover_blocks_the_installation:
  assumes "uninstallBundle remove there = Some rest"
  shows "reinstallBundle may remove (Some src) there = (False, Some rest)"
  by (simp add: reinstallBundle_def assms)

text \<open>The user interface appears only in an installed program, and the service is started before.\<close>

lemma interface_of_installed:
  assumes "snd (run_start options env)" "''disable-install'' \<notin> set options"
  shows "me_installed env \<and> last (fst (run_start options env)) = last startService"
  using assms by (auto simp: run_start_def installAndStartService_def startService_def Let_def split: if_splits)

end
