(* ===== verification/ErrorReports.thy ===== *)
theory ErrorReports
  imports Core Screens
begin

text \<open>
  Errors of screens: their codes (\<open>common/ScreenError.h\<close>; the help pages are in \<open>Screens\<close>), the monitor of the
  output of the core (\<open>service/CoreErrorMonitor.cpp\<close>) and the notifier that reacts to the monitors
  (\<open>service/ErrorNotifier.cpp\<close>). The cloud client ignores the update that the notifier asks for.
\<close>

section \<open>Codes\<close>

definition kNone :: u32 where "kNone = 0"
definition kRouterUnreachableNode :: u32 where "kRouterUnreachableNode = 0x10000001"
definition kCoreZombieProcess :: u32 where "kCoreZombieProcess = 0x20000001"
definition kCoreDuplicateName :: u32 where "kCoreDuplicateName = 0x20000002"
definition kGeneral :: u32 where "kGeneral = 0x30000000"

lemmas error_codes = kNone_def kRouterUnreachableNode_def kCoreZombieProcess_def kCoreDuplicateName_def
  kGeneral_def

section \<open>The output of the core\<close>

text \<open>A search for the expression \<open>duplicate screen name "(.*)"$\<close> in a line. The leftmost match
  counts, and its group is what stands between the opening quote and the last character of the
  line, which must be a quote. A line holds no line break.\<close>

definition duplicate_prefix :: string where
  "duplicate_prefix = ''duplicate screen name \"''"

fun search_duplicate :: "string \<Rightarrow> string option" where
  "search_duplicate [] = None"
| "search_duplicate (c # cs) =
     (let rest = drop (length duplicate_prefix) (c # cs) in
      if take (length duplicate_prefix) (c # cs) = duplicate_prefix \<and> rest \<noteq> [] \<and> last rest = CHR 0x22
      then Some (butlast rest) else search_duplicate cs)"

text \<open>The two slots in the order in which they are connected: the errors they signal for a line.\<close>

definition zombie_slot :: "string \<Rightarrow> string \<Rightarrow> (string \<times> u32 \<times> string) list" where
  "zombie_slot local line =
     (if contains line ''cannot bind address: Address already in use''
      then [(local, kCoreZombieProcess, ''There seems to be a zombie core process'')] else [])"

definition duplicate_slot :: "string \<Rightarrow> string \<Rightarrow> (string \<times> u32 \<times> string) list" where
  "duplicate_slot local line =
     (case search_duplicate line of
        None \<Rightarrow> []
      | Some name \<Rightarrow>
          if name = [] then []
          else [(local, kCoreDuplicateName, ''Found a duplicate screen: '' @ name @ '' in configure file.'')])"

definition core_errors :: "string \<Rightarrow> string \<Rightarrow> (string \<times> u32 \<times> string) list" where
  "core_errors local line = zombie_slot local line @ duplicate_slot local line"

section \<open>The notifier\<close>

text \<open>The slot for the status of a screen: an exception, or the screen for which the cloud client is
  asked to report that the error is over. The slots for the other monitors do nothing.\<close>

definition on_screen_status :: "profile_config \<Rightarrow> int \<Rightarrow> screen_status \<Rightarrow> string + screen option" where
  "on_screen_status p i st =
     (if st = SConnected
      then bindE (getScreen i p) (\<lambda>s. Inr
        (if serror_code s \<noteq> kRouterUnreachableNode \<and> serror_code s \<noteq> kNone
         then Some (s\<lparr>serror_code := kNone, serror_message := ''''\<rparr>) else None))
      else Inr None)"

section \<open>Facts\<close>

lemma help_pages: "map_of screenErrorUrlMap ec = None \<Longrightarrow> getHelpUrl ec = getHelpUrl kGeneral"
  by (simp add: getHelpUrl_def screenErrorUrlMap_def error_codes)

lemma search_duplicate_Some:
  "search_duplicate line = Some name \<Longrightarrow> \<exists>before. line = before @ duplicate_prefix @ name @ [CHR 0x22]"
proof (induction line rule: search_duplicate.induct)
  case (2 c cs)
  let ?n = "length duplicate_prefix"
  show ?case
  proof (cases "take ?n (c # cs) = duplicate_prefix \<and> drop ?n (c # cs) \<noteq> [] \<and> last (drop ?n (c # cs)) = CHR 0x22")
    case True
    then have "name = butlast (drop ?n (c # cs))"
      using 2(2) by (simp add: Let_def)
    then have "drop ?n (c # cs) = name @ [CHR 0x22]"
      using True append_butlast_last_id by metis
    then show ?thesis
      using True append_take_drop_id by (metis append_Nil)
  next
    case False
    then have "search_duplicate cs = Some name"
      using 2(2) unfolding search_duplicate.simps Let_def by (simp only: if_False)
    then obtain before where "cs = before @ duplicate_prefix @ name @ [CHR 0x22]"
      using 2(1) [OF refl False] by blast
    then show ?thesis
      by (metis append_Cons)
  qed
qed simp

text \<open>Every line that ends in the phrase and a quoted name is found.\<close>

lemma search_duplicate_of:
  assumes "line = before @ duplicate_prefix @ name @ [CHR 0x22]"
  shows "search_duplicate line \<noteq> None"
  using assms
proof (induction before arbitrary: line)
  case Nil
  then obtain c cs where line: "line = c # cs"
    by (cases line) (auto simp: duplicate_prefix_def)
  with Nil have eq: "c # cs = duplicate_prefix @ name @ [CHR 0x22]"
    by simp
  show ?case
    unfolding line search_duplicate.simps Let_def
    unfolding eq by simp
next
  case (Cons c before)
  then show ?case
    by (simp add: Let_def)
qed

lemma cleared_errors:
  assumes "on_screen_status p i st = Inr (Some s)"
  shows "serror_code s = kNone \<and> (\<exists>t. getScreen i p = Inr t \<and> serror_code t \<noteq> kRouterUnreachableNode)"
  using assms by (auto simp: on_screen_status_def bindE_Inr_iff split: if_splits)

end
