(* ===== verification/Encoding.thy ===== *)
theory Encoding
  imports Connection
begin

text \<open>
  The version 2 encoding of the bodies: the headers that the flatbuffer compiler generated and
  that are kept in the repository (\<open>protocol/v2/Hello_generated.h\<close>, \<open>Route_generated.h\<close>,
  \<open>Claim_generated.h\<close>, \<open>Core_generated.h\<close>, \<open>Proxy_generated.h\<close>), and the way in which the writer and
  the reader of messages use them.

  The flatbuffer library is not in the repository. What the generated code uses of it is the record
  \<open>flatbuffers\<close>, an argument of every definition: a table is built field by field, and what it
  refers to is built before it. Its documented behaviour is the locale \<open>flatbuffer_library\<close>.
\<close>

section \<open>What the generated code uses of the library\<close>

type_synonym voffset = u16

text \<open>
  \<open>'t\<close> is a table and \<open>'p\<close> what an offset or a pointer refers to. A null pointer or offset is \<open>None\<close>.
  The buffer in which a builder puts everything is not mentioned: what was put there never changes.
\<close>

record ('t, 'p) flatbuffers =
  fb_start :: 't
  fb_add8 :: "voffset \<Rightarrow> u8 \<Rightarrow> u8 \<Rightarrow> 't \<Rightarrow> 't"
  fb_add32 :: "voffset \<Rightarrow> u32 \<Rightarrow> u32 \<Rightarrow> 't \<Rightarrow> 't"
  fb_add_offset :: "voffset \<Rightarrow> 'p option \<Rightarrow> 't \<Rightarrow> 't"
  fb_end :: "'t \<Rightarrow> 'p"
  fb_string :: "string \<Rightarrow> 'p"
  fb_vector8 :: "bytes \<Rightarrow> 'p"
  fb_vector32 :: "u32 list \<Rightarrow> 'p"
  fb_vector_offsets :: "'p list \<Rightarrow> 'p"
  fb_finish :: "'p \<Rightarrow> bytes"
  fb_check :: "'t \<Rightarrow> voffset \<Rightarrow> bool"
  fb_get8 :: "'t \<Rightarrow> voffset \<Rightarrow> u8 \<Rightarrow> u8"
  fb_get32 :: "'t \<Rightarrow> voffset \<Rightarrow> u32 \<Rightarrow> u32"
  fb_pointer :: "'t \<Rightarrow> voffset \<Rightarrow> 'p option"
  fb_table :: "'p \<Rightarrow> 't"
  fb_str :: "'p \<Rightarrow> string"
  fb_items8 :: "'p \<Rightarrow> bytes"
  fb_items32 :: "'p \<Rightarrow> u32 list"
  fb_tables :: "'p \<Rightarrow> 't list"
  fb_root :: "bytes \<Rightarrow> 't"
  fb_verify_start :: "'t \<Rightarrow> bool"
  fb_verify8 :: "'t \<Rightarrow> voffset \<Rightarrow> bool"
  fb_verify32 :: "'t \<Rightarrow> voffset \<Rightarrow> bool"
  fb_verify_offset :: "'t \<Rightarrow> voffset \<Rightarrow> bool"
  fb_verify_string :: "'p option \<Rightarrow> bool"
  fb_verify_vector8 :: "'p option \<Rightarrow> bool"
  fb_verify_vector32 :: "'p option \<Rightarrow> bool"
  fb_verify_vector :: "'p option \<Rightarrow> bool"
  fb_verify_table :: "('t \<Rightarrow> bool) \<Rightarrow> 'p option \<Rightarrow> bool"
  fb_verify_tables :: "('t \<Rightarrow> bool) \<Rightarrow> 'p option \<Rightarrow> bool"
  fb_verify_end :: "'t \<Rightarrow> bool"
  fb_verify_buffer :: "('t \<Rightarrow> bool) \<Rightarrow> bytes \<Rightarrow> bool"

section \<open>Unpacking a vector\<close>

text \<open>\<open>resize\<close> and the loop of \<open>UnPackTo\<close> that assigns every element.\<close>

definition resize :: "nat \<Rightarrow> 'a \<Rightarrow> 'a list \<Rightarrow> 'a list" where
  "resize n x xs = take n xs @ replicate (n - length xs) x"

definition unpack_items :: "('e \<Rightarrow> 'a) \<Rightarrow> 'a \<Rightarrow> 'e list \<Rightarrow> 'a list \<Rightarrow> 'a list" where
  "unpack_items f x es xs = fold (\<lambda>i ys. ys[i := f (es ! i)]) [0..<length es] (resize (length es) x xs)"

lemma length_resize [simp]: "length (resize n x xs) = n"
  by (simp add: resize_def)

lemma fold_updates:
  "n \<le> length ys \<Longrightarrow> fold (\<lambda>i ys. ys[i := g i]) [0..<n] ys = map g [0..<n] @ drop n ys"
proof (induction n)
  case (Suc n)
  then show ?case by (simp add: list_update_append Cons_nth_drop_Suc [symmetric])
qed simp

lemma unpack_items [simp]: "unpack_items f x es xs = map f es"
proof -
  have "map (\<lambda>i. f (es ! i)) [0..<length es] = map f es" by (rule nth_equalityI) simp_all
  then show ?thesis by (simp add: unpack_items_def fold_updates)
qed

section \<open>Versions\<close>

definition VT_MAJOR_NUM :: voffset where "VT_MAJOR_NUM = 4"
definition VT_MINOR_NUM :: voffset where "VT_MINOR_NUM = 6"
definition VT_PATCH_NUM :: voffset where "VT_PATCH_NUM = 8"
definition VT_TAG :: voffset where "VT_TAG = 10"
definition VT_REVISION :: voffset where "VT_REVISION = 12"

lemmas VT_version [simp] =
  VT_MAJOR_NUM_def VT_MINOR_NUM_def VT_PATCH_NUM_def VT_TAG_def VT_REVISION_def

definition VersionT :: hello_version where
  "VersionT = \<lparr>major_num = 0, minor_num = 0, patch_num = 0, vtag = '''', revision = ''''\<rparr>"

definition Version_major_num :: "('t, 'p) flatbuffers \<Rightarrow> 't \<Rightarrow> u8" where
  "Version_major_num L t = fb_get8 L t VT_MAJOR_NUM 0"

definition Version_minor_num :: "('t, 'p) flatbuffers \<Rightarrow> 't \<Rightarrow> u8" where
  "Version_minor_num L t = fb_get8 L t VT_MINOR_NUM 0"

definition Version_patch_num :: "('t, 'p) flatbuffers \<Rightarrow> 't \<Rightarrow> u8" where
  "Version_patch_num L t = fb_get8 L t VT_PATCH_NUM 0"

definition Version_tag :: "('t, 'p) flatbuffers \<Rightarrow> 't \<Rightarrow> 'p option" where
  "Version_tag L t = fb_pointer L t VT_TAG"

definition Version_revision :: "('t, 'p) flatbuffers \<Rightarrow> 't \<Rightarrow> 'p option" where
  "Version_revision L t = fb_pointer L t VT_REVISION"

definition Version_Verify :: "('t, 'p) flatbuffers \<Rightarrow> 't \<Rightarrow> bool" where
  "Version_Verify L t \<longleftrightarrow>
     fb_verify_start L t
     \<and> fb_verify8 L t VT_MAJOR_NUM
     \<and> fb_verify8 L t VT_MINOR_NUM
     \<and> fb_verify8 L t VT_PATCH_NUM
     \<and> fb_verify_offset L t VT_TAG \<and> fb_verify_string L (Version_tag L t)
     \<and> fb_verify_offset L t VT_REVISION \<and> fb_verify_string L (Version_revision L t)
     \<and> fb_verify_end L t"

definition Version_add_major_num :: "('t, 'p) flatbuffers \<Rightarrow> u8 \<Rightarrow> 't \<Rightarrow> 't" where
  "Version_add_major_num L x = fb_add8 L VT_MAJOR_NUM x 0"

definition Version_add_minor_num :: "('t, 'p) flatbuffers \<Rightarrow> u8 \<Rightarrow> 't \<Rightarrow> 't" where
  "Version_add_minor_num L x = fb_add8 L VT_MINOR_NUM x 0"

definition Version_add_patch_num :: "('t, 'p) flatbuffers \<Rightarrow> u8 \<Rightarrow> 't \<Rightarrow> 't" where
  "Version_add_patch_num L x = fb_add8 L VT_PATCH_NUM x 0"

definition Version_add_tag :: "('t, 'p) flatbuffers \<Rightarrow> 'p option \<Rightarrow> 't \<Rightarrow> 't" where
  "Version_add_tag L p = fb_add_offset L VT_TAG p"

definition Version_add_revision :: "('t, 'p) flatbuffers \<Rightarrow> 'p option \<Rightarrow> 't \<Rightarrow> 't" where
  "Version_add_revision L p = fb_add_offset L VT_REVISION p"

definition CreateVersion ::
  "('t, 'p) flatbuffers \<Rightarrow> u8 \<Rightarrow> u8 \<Rightarrow> u8 \<Rightarrow> 'p option \<Rightarrow> 'p option \<Rightarrow> 'p" where
  "CreateVersion L major minor patch tg rv =
     (let b = fb_start L;
          b = Version_add_revision L rv b;
          b = Version_add_tag L tg b;
          b = Version_add_patch_num L patch b;
          b = Version_add_minor_num L minor b;
          b = Version_add_major_num L major b
      in fb_end L b)"

definition CreateVersionDirect ::
  "('t, 'p) flatbuffers \<Rightarrow> u8 \<Rightarrow> u8 \<Rightarrow> u8 \<Rightarrow> string option \<Rightarrow> string option \<Rightarrow> 'p" where
  "CreateVersionDirect L major minor patch tg rv =
     CreateVersion L major minor patch (map_option (fb_string L) tg) (map_option (fb_string L) rv)"

definition Version_Pack :: "('t, 'p) flatbuffers \<Rightarrow> hello_version \<Rightarrow> 'p" where
  "Version_Pack L v =
     (let tg = (if vtag v = '''' then None else Some (fb_string L (vtag v)));
          rv = (if revision v = '''' then None else Some (fb_string L (revision v)))
      in CreateVersion L (major_num v) (minor_num v) (patch_num v) tg rv)"

definition Version_UnPackTo :: "('t, 'p) flatbuffers \<Rightarrow> 't \<Rightarrow> hello_version \<Rightarrow> hello_version" where
  "Version_UnPackTo L t v =
     (let v = v\<lparr>major_num := Version_major_num L t\<rparr>;
          v = v\<lparr>minor_num := Version_minor_num L t\<rparr>;
          v = v\<lparr>patch_num := Version_patch_num L t\<rparr>;
          v = (case Version_tag L t of None \<Rightarrow> v | Some p \<Rightarrow> v\<lparr>vtag := fb_str L p\<rparr>)
      in case Version_revision L t of None \<Rightarrow> v | Some p \<Rightarrow> v\<lparr>revision := fb_str L p\<rparr>)"

definition Version_UnPack :: "('t, 'p) flatbuffers \<Rightarrow> 't \<Rightarrow> hello_version" where
  "Version_UnPack L t = Version_UnPackTo L t VersionT"

section \<open>Hellos\<close>

definition VT_ID :: voffset where "VT_ID = 4"
definition VT_NAME :: voffset where "VT_NAME = 6"
definition VT_VERSION :: voffset where "VT_VERSION = 8"
definition VT_OS :: voffset where "VT_OS = 10"

lemmas VT_hello [simp] = VT_ID_def VT_NAME_def VT_VERSION_def VT_OS_def

text \<open>The systems, by the number of the enumeration; a table may hold any other number.\<close>

definition EnumValuesOS :: "u8 list" where
  "EnumValuesOS = [0, 32, 64, 128]"

definition HelloT :: hello_message where
  "HelloT = \<lparr>hello_id = 0, hello_name = '''', hello_version = None, hello_os = 0\<rparr>"

definition Hello_id :: "('t, 'p) flatbuffers \<Rightarrow> 't \<Rightarrow> u32" where
  "Hello_id L t = fb_get32 L t VT_ID 0"

definition Hello_name :: "('t, 'p) flatbuffers \<Rightarrow> 't \<Rightarrow> 'p option" where
  "Hello_name L t = fb_pointer L t VT_NAME"

definition Hello_version :: "('t, 'p) flatbuffers \<Rightarrow> 't \<Rightarrow> 'p option" where
  "Hello_version L t = fb_pointer L t VT_VERSION"

definition Hello_os :: "('t, 'p) flatbuffers \<Rightarrow> 't \<Rightarrow> u8" where
  "Hello_os L t = fb_get8 L t VT_OS 0"

definition Hello_Verify :: "('t, 'p) flatbuffers \<Rightarrow> 't \<Rightarrow> bool" where
  "Hello_Verify L t \<longleftrightarrow>
     fb_verify_start L t
     \<and> fb_verify32 L t VT_ID
     \<and> fb_verify_offset L t VT_NAME \<and> fb_verify_string L (Hello_name L t)
     \<and> fb_verify_offset L t VT_VERSION \<and> fb_verify_table L (Version_Verify L) (Hello_version L t)
     \<and> fb_verify8 L t VT_OS
     \<and> fb_verify_end L t"

definition Hello_add_id :: "('t, 'p) flatbuffers \<Rightarrow> u32 \<Rightarrow> 't \<Rightarrow> 't" where
  "Hello_add_id L x = fb_add32 L VT_ID x 0"

definition Hello_add_name :: "('t, 'p) flatbuffers \<Rightarrow> 'p option \<Rightarrow> 't \<Rightarrow> 't" where
  "Hello_add_name L p = fb_add_offset L VT_NAME p"

definition Hello_add_version :: "('t, 'p) flatbuffers \<Rightarrow> 'p option \<Rightarrow> 't \<Rightarrow> 't" where
  "Hello_add_version L p = fb_add_offset L VT_VERSION p"

definition Hello_add_os :: "('t, 'p) flatbuffers \<Rightarrow> u8 \<Rightarrow> 't \<Rightarrow> 't" where
  "Hello_add_os L x = fb_add8 L VT_OS x 0"

definition CreateHello ::
  "('t, 'p) flatbuffers \<Rightarrow> u32 \<Rightarrow> 'p option \<Rightarrow> 'p option \<Rightarrow> u8 \<Rightarrow> 'p" where
  "CreateHello L i n v os =
     (let b = fb_start L;
          b = Hello_add_version L v b;
          b = Hello_add_name L n b;
          b = Hello_add_id L i b;
          b = Hello_add_os L os b
      in fb_end L b)"

definition CreateHelloDirect ::
  "('t, 'p) flatbuffers \<Rightarrow> u32 \<Rightarrow> string option \<Rightarrow> 'p option \<Rightarrow> u8 \<Rightarrow> 'p" where
  "CreateHelloDirect L i n v os = CreateHello L i (map_option (fb_string L) n) v os"

definition Hello_Pack :: "('t, 'p) flatbuffers \<Rightarrow> hello_message \<Rightarrow> 'p" where
  "Hello_Pack L h =
     (let n = (if hello_name h = '''' then None else Some (fb_string L (hello_name h)));
          v = (case hello_version h of None \<Rightarrow> None | Some v \<Rightarrow> Some (Version_Pack L v))
      in CreateHello L (hello_id h) n v (hello_os h))"

definition Hello_UnPackTo :: "('t, 'p) flatbuffers \<Rightarrow> 't \<Rightarrow> hello_message \<Rightarrow> hello_message" where
  "Hello_UnPackTo L t h =
     (let h = h\<lparr>hello_id := Hello_id L t\<rparr>;
          h = (case Hello_name L t of None \<Rightarrow> h | Some p \<Rightarrow> h\<lparr>hello_name := fb_str L p\<rparr>);
          h = (case Hello_version L t of
                 None \<Rightarrow> h
               | Some p \<Rightarrow> h\<lparr>hello_version := Some (Version_UnPack L (fb_table L p))\<rparr>)
      in h\<lparr>hello_os := Hello_os L t\<rparr>)"

definition Hello_UnPack :: "('t, 'p) flatbuffers \<Rightarrow> 't \<Rightarrow> hello_message" where
  "Hello_UnPack L t = Hello_UnPackTo L t HelloT"

section \<open>Routes\<close>

definition VT_DEST :: voffset where "VT_DEST = 4"
definition VT_COST :: voffset where "VT_COST = 6"
definition VT_PATH :: voffset where "VT_PATH = 8"

lemmas VT_route [simp] = VT_DEST_def VT_COST_def VT_PATH_def

definition RouteT :: route where
  "RouteT = \<lparr>dest = 0, cost = 0, path = []\<rparr>"

definition Route_dest :: "('t, 'p) flatbuffers \<Rightarrow> 't \<Rightarrow> u32" where
  "Route_dest L t = fb_get32 L t VT_DEST 0"

definition Route_cost :: "('t, 'p) flatbuffers \<Rightarrow> 't \<Rightarrow> u32" where
  "Route_cost L t = fb_get32 L t VT_COST 0"

definition Route_path :: "('t, 'p) flatbuffers \<Rightarrow> 't \<Rightarrow> 'p option" where
  "Route_path L t = fb_pointer L t VT_PATH"

definition Route_Verify :: "('t, 'p) flatbuffers \<Rightarrow> 't \<Rightarrow> bool" where
  "Route_Verify L t \<longleftrightarrow>
     fb_verify_start L t
     \<and> fb_verify32 L t VT_DEST
     \<and> fb_verify32 L t VT_COST
     \<and> fb_verify_offset L t VT_PATH \<and> fb_verify_vector32 L (Route_path L t)
     \<and> fb_verify_end L t"

definition Route_add_dest :: "('t, 'p) flatbuffers \<Rightarrow> u32 \<Rightarrow> 't \<Rightarrow> 't" where
  "Route_add_dest L x = fb_add32 L VT_DEST x 0"

definition Route_add_cost :: "('t, 'p) flatbuffers \<Rightarrow> u32 \<Rightarrow> 't \<Rightarrow> 't" where
  "Route_add_cost L x = fb_add32 L VT_COST x 0"

definition Route_add_path :: "('t, 'p) flatbuffers \<Rightarrow> 'p option \<Rightarrow> 't \<Rightarrow> 't" where
  "Route_add_path L p = fb_add_offset L VT_PATH p"

definition CreateRoute :: "('t, 'p) flatbuffers \<Rightarrow> u32 \<Rightarrow> u32 \<Rightarrow> 'p option \<Rightarrow> 'p" where
  "CreateRoute L d c p =
     (let b = fb_start L;
          b = Route_add_path L p b;
          b = Route_add_cost L c b;
          b = Route_add_dest L d b
      in fb_end L b)"

definition CreateRouteDirect :: "('t, 'p) flatbuffers \<Rightarrow> u32 \<Rightarrow> u32 \<Rightarrow> u32 list option \<Rightarrow> 'p" where
  "CreateRouteDirect L d c p = CreateRoute L d c (map_option (fb_vector32 L) p)"

definition Route_Pack :: "('t, 'p) flatbuffers \<Rightarrow> route \<Rightarrow> 'p" where
  "Route_Pack L r =
     (let p = (if length (path r) \<noteq> 0 then Some (fb_vector32 L (path r)) else None)
      in CreateRoute L (dest r) (cost r) p)"

definition Route_UnPackTo :: "('t, 'p) flatbuffers \<Rightarrow> 't \<Rightarrow> route \<Rightarrow> route" where
  "Route_UnPackTo L t r =
     (let r = r\<lparr>dest := Route_dest L t\<rparr>;
          r = r\<lparr>cost := Route_cost L t\<rparr>
      in case Route_path L t of
           None \<Rightarrow> r
         | Some p \<Rightarrow> r\<lparr>path := unpack_items (\<lambda>x. x) 0 (fb_items32 L p) (path r)\<rparr>)"

definition Route_UnPack :: "('t, 'p) flatbuffers \<Rightarrow> 't \<Rightarrow> route" where
  "Route_UnPack L t = Route_UnPackTo L t RouteT"

text \<open>
  Advertisements, and revocations, which are the same structure under another name. The native
  structure is the sender with the routes. The pointers to its routes are not null, as in the
  bodies of the model.
\<close>

definition VT_SENDER :: voffset where "VT_SENDER = 4"
definition VT_ROUTES :: voffset where "VT_ROUTES = 6"

lemmas VT_advertisement [simp] = VT_SENDER_def VT_ROUTES_def

definition RouteAdvertisementT :: "u32 \<times> route list" where
  "RouteAdvertisementT = (0, [])"

definition RouteAdvertisement_sender :: "('t, 'p) flatbuffers \<Rightarrow> 't \<Rightarrow> u32" where
  "RouteAdvertisement_sender L t = fb_get32 L t VT_SENDER 0"

definition RouteAdvertisement_routes :: "('t, 'p) flatbuffers \<Rightarrow> 't \<Rightarrow> 'p option" where
  "RouteAdvertisement_routes L t = fb_pointer L t VT_ROUTES"

definition RouteAdvertisement_Verify :: "('t, 'p) flatbuffers \<Rightarrow> 't \<Rightarrow> bool" where
  "RouteAdvertisement_Verify L t \<longleftrightarrow>
     fb_verify_start L t
     \<and> fb_verify32 L t VT_SENDER
     \<and> fb_verify_offset L t VT_ROUTES \<and> fb_verify_vector L (RouteAdvertisement_routes L t)
     \<and> fb_verify_tables L (Route_Verify L) (RouteAdvertisement_routes L t)
     \<and> fb_verify_end L t"

definition RouteAdvertisement_add_sender :: "('t, 'p) flatbuffers \<Rightarrow> u32 \<Rightarrow> 't \<Rightarrow> 't" where
  "RouteAdvertisement_add_sender L x = fb_add32 L VT_SENDER x 0"

definition RouteAdvertisement_add_routes :: "('t, 'p) flatbuffers \<Rightarrow> 'p option \<Rightarrow> 't \<Rightarrow> 't" where
  "RouteAdvertisement_add_routes L p = fb_add_offset L VT_ROUTES p"

definition CreateRouteAdvertisement :: "('t, 'p) flatbuffers \<Rightarrow> u32 \<Rightarrow> 'p option \<Rightarrow> 'p" where
  "CreateRouteAdvertisement L s rs =
     (let b = fb_start L;
          b = RouteAdvertisement_add_routes L rs b;
          b = RouteAdvertisement_add_sender L s b
      in fb_end L b)"

definition CreateRouteAdvertisementDirect ::
  "('t, 'p) flatbuffers \<Rightarrow> u32 \<Rightarrow> 'p list option \<Rightarrow> 'p" where
  "CreateRouteAdvertisementDirect L s rs =
     CreateRouteAdvertisement L s (map_option (fb_vector_offsets L) rs)"

definition RouteAdvertisement_Pack :: "('t, 'p) flatbuffers \<Rightarrow> u32 \<times> route list \<Rightarrow> 'p" where
  "RouteAdvertisement_Pack L a =
     (case a of (s, rs) \<Rightarrow>
        (let os = (if length rs \<noteq> 0
                   then Some (fb_vector_offsets L (map (\<lambda>i. Route_Pack L (rs ! i)) [0..<length rs]))
                   else None)
         in CreateRouteAdvertisement L s os))"

definition RouteAdvertisement_UnPackTo ::
  "('t, 'p) flatbuffers \<Rightarrow> 't \<Rightarrow> u32 \<times> route list \<Rightarrow> u32 \<times> route list" where
  "RouteAdvertisement_UnPackTo L t a =
     (let a = (RouteAdvertisement_sender L t, snd a)
      in case RouteAdvertisement_routes L t of
           None \<Rightarrow> a
         | Some p \<Rightarrow> (fst a, unpack_items (Route_UnPack L) RouteT (fb_tables L p) (snd a)))"

definition RouteAdvertisement_UnPack :: "('t, 'p) flatbuffers \<Rightarrow> 't \<Rightarrow> u32 \<times> route list" where
  "RouteAdvertisement_UnPack L t = RouteAdvertisement_UnPackTo L t RouteAdvertisementT"

section \<open>Proxy connections, claims and core messages\<close>

definition VT_SCREEN :: voffset where "VT_SCREEN = 4"
definition VT_PROFILE_ID :: voffset where "VT_PROFILE_ID = 4"
definition VT_SCREEN_ID :: voffset where "VT_SCREEN_ID = 6"
definition VT_DATA :: voffset where "VT_DATA = 4"

lemmas VT_others [simp] = VT_SCREEN_def VT_PROFILE_ID_def VT_SCREEN_ID_def VT_DATA_def

definition ProxyClientConnectT :: string where
  "ProxyClientConnectT = ''''"

definition ProxyClientConnect_screen :: "('t, 'p) flatbuffers \<Rightarrow> 't \<Rightarrow> 'p option" where
  "ProxyClientConnect_screen L t = fb_pointer L t VT_SCREEN"

definition ProxyClientConnect_Verify :: "('t, 'p) flatbuffers \<Rightarrow> 't \<Rightarrow> bool" where
  "ProxyClientConnect_Verify L t \<longleftrightarrow>
     fb_verify_start L t
     \<and> fb_verify_offset L t VT_SCREEN \<and> fb_verify_string L (ProxyClientConnect_screen L t)
     \<and> fb_verify_end L t"

definition ProxyClientConnect_add_screen :: "('t, 'p) flatbuffers \<Rightarrow> 'p option \<Rightarrow> 't \<Rightarrow> 't" where
  "ProxyClientConnect_add_screen L p = fb_add_offset L VT_SCREEN p"

definition CreateProxyClientConnect :: "('t, 'p) flatbuffers \<Rightarrow> 'p option \<Rightarrow> 'p" where
  "CreateProxyClientConnect L p =
     (let b = fb_start L;
          b = ProxyClientConnect_add_screen L p b
      in fb_end L b)"

definition CreateProxyClientConnectDirect :: "('t, 'p) flatbuffers \<Rightarrow> string option \<Rightarrow> 'p" where
  "CreateProxyClientConnectDirect L s = CreateProxyClientConnect L (map_option (fb_string L) s)"

definition ProxyClientConnect_Pack :: "('t, 'p) flatbuffers \<Rightarrow> string \<Rightarrow> 'p" where
  "ProxyClientConnect_Pack L s =
     (let p = (if s = '''' then None else Some (fb_string L s))
      in CreateProxyClientConnect L p)"

definition ProxyClientConnect_UnPackTo :: "('t, 'p) flatbuffers \<Rightarrow> 't \<Rightarrow> string \<Rightarrow> string" where
  "ProxyClientConnect_UnPackTo L t s =
     (case ProxyClientConnect_screen L t of None \<Rightarrow> s | Some p \<Rightarrow> fb_str L p)"

definition ProxyClientConnect_UnPack :: "('t, 'p) flatbuffers \<Rightarrow> 't \<Rightarrow> string" where
  "ProxyClientConnect_UnPack L t = ProxyClientConnect_UnPackTo L t ProxyClientConnectT"

text \<open>The claim of a server: the profile with the screen.\<close>

definition ServerClaimT :: "u32 \<times> u32" where
  "ServerClaimT = (0, 0)"

definition ServerClaim_profile_id :: "('t, 'p) flatbuffers \<Rightarrow> 't \<Rightarrow> u32" where
  "ServerClaim_profile_id L t = fb_get32 L t VT_PROFILE_ID 0"

definition ServerClaim_screen_id :: "('t, 'p) flatbuffers \<Rightarrow> 't \<Rightarrow> u32" where
  "ServerClaim_screen_id L t = fb_get32 L t VT_SCREEN_ID 0"

definition ServerClaim_Verify :: "('t, 'p) flatbuffers \<Rightarrow> 't \<Rightarrow> bool" where
  "ServerClaim_Verify L t \<longleftrightarrow>
     fb_verify_start L t
     \<and> fb_verify32 L t VT_PROFILE_ID
     \<and> fb_verify32 L t VT_SCREEN_ID
     \<and> fb_verify_end L t"

definition ServerClaim_add_profile_id :: "('t, 'p) flatbuffers \<Rightarrow> u32 \<Rightarrow> 't \<Rightarrow> 't" where
  "ServerClaim_add_profile_id L x = fb_add32 L VT_PROFILE_ID x 0"

definition ServerClaim_add_screen_id :: "('t, 'p) flatbuffers \<Rightarrow> u32 \<Rightarrow> 't \<Rightarrow> 't" where
  "ServerClaim_add_screen_id L x = fb_add32 L VT_SCREEN_ID x 0"

definition CreateServerClaim :: "('t, 'p) flatbuffers \<Rightarrow> u32 \<Rightarrow> u32 \<Rightarrow> 'p" where
  "CreateServerClaim L prof screen =
     (let b = fb_start L;
          b = ServerClaim_add_screen_id L screen b;
          b = ServerClaim_add_profile_id L prof b
      in fb_end L b)"

definition ServerClaim_Pack :: "('t, 'p) flatbuffers \<Rightarrow> u32 \<times> u32 \<Rightarrow> 'p" where
  "ServerClaim_Pack L c = CreateServerClaim L (fst c) (snd c)"

definition ServerClaim_UnPackTo :: "('t, 'p) flatbuffers \<Rightarrow> 't \<Rightarrow> u32 \<times> u32 \<Rightarrow> u32 \<times> u32" where
  "ServerClaim_UnPackTo L t c =
     (let c = (ServerClaim_profile_id L t, snd c)
      in (fst c, ServerClaim_screen_id L t))"

definition ServerClaim_UnPack :: "('t, 'p) flatbuffers \<Rightarrow> 't \<Rightarrow> u32 \<times> u32" where
  "ServerClaim_UnPack L t = ServerClaim_UnPackTo L t ServerClaimT"

definition CoreMessageT :: bytes where
  "CoreMessageT = []"

definition CoreMessage_data :: "('t, 'p) flatbuffers \<Rightarrow> 't \<Rightarrow> 'p option" where
  "CoreMessage_data L t = fb_pointer L t VT_DATA"

definition CoreMessage_Verify :: "('t, 'p) flatbuffers \<Rightarrow> 't \<Rightarrow> bool" where
  "CoreMessage_Verify L t \<longleftrightarrow>
     fb_verify_start L t
     \<and> fb_verify_offset L t VT_DATA \<and> fb_verify_vector8 L (CoreMessage_data L t)
     \<and> fb_verify_end L t"

definition CoreMessage_add_data :: "('t, 'p) flatbuffers \<Rightarrow> 'p option \<Rightarrow> 't \<Rightarrow> 't" where
  "CoreMessage_add_data L p = fb_add_offset L VT_DATA p"

definition CreateCoreMessage :: "('t, 'p) flatbuffers \<Rightarrow> 'p option \<Rightarrow> 'p" where
  "CreateCoreMessage L p =
     (let b = fb_start L;
          b = CoreMessage_add_data L p b
      in fb_end L b)"

definition CreateCoreMessageDirect :: "('t, 'p) flatbuffers \<Rightarrow> bytes option \<Rightarrow> 'p" where
  "CreateCoreMessageDirect L p = CreateCoreMessage L (map_option (fb_vector8 L) p)"

definition CoreMessage_Pack :: "('t, 'p) flatbuffers \<Rightarrow> bytes \<Rightarrow> 'p" where
  "CoreMessage_Pack L bs =
     (let p = (if length bs \<noteq> 0 then Some (fb_vector8 L bs) else None)
      in CreateCoreMessage L p)"

definition CoreMessage_UnPackTo :: "('t, 'p) flatbuffers \<Rightarrow> 't \<Rightarrow> bytes \<Rightarrow> bytes" where
  "CoreMessage_UnPackTo L t bs =
     (case CoreMessage_data L t of
        None \<Rightarrow> bs
      | Some p \<Rightarrow> unpack_items (\<lambda>x. x) 0 (fb_items8 L p) bs)"

definition CoreMessage_UnPack :: "('t, 'p) flatbuffers \<Rightarrow> 't \<Rightarrow> bytes" where
  "CoreMessage_UnPack L t = CoreMessage_UnPackTo L t CoreMessageT"

section \<open>The bodies of messages\<close>

text \<open>\<open>do_write\<close>: the finished buffer for a body.\<close>

definition fb_pack :: "('t, 'p) flatbuffers \<Rightarrow> message_body \<Rightarrow> bytes" where
  "fb_pack L b =
     (case b of
        UnknownMessage bs \<Rightarrow> bs
      | HelloMessage h \<Rightarrow> fb_finish L (Hello_Pack L h)
      | RouteAdvertisement s rs \<Rightarrow> fb_finish L (RouteAdvertisement_Pack L (s, rs))
      | RouteRevocation s rs \<Rightarrow> fb_finish L (RouteAdvertisement_Pack L (s, rs))
      | ProxyClientConnect s \<Rightarrow> fb_finish L (ProxyClientConnect_Pack L s)
      | ServerClaim p s \<Rightarrow> fb_finish L (ServerClaim_Pack L (p, s))
      | CoreMessage bs \<Rightarrow> fb_finish L (CoreMessage_Pack L bs))"

text \<open>
  \<open>read_body\<close>, when the bytes have been read: the verifier of the type, then unpacking the root
  table into the body that has just been constructed.
\<close>

definition read_root ::
  "('t, 'p) flatbuffers \<Rightarrow> ('t \<Rightarrow> bool) \<Rightarrow> ('t \<Rightarrow> 'b \<Rightarrow> 'b) \<Rightarrow> 'b \<Rightarrow> bytes \<Rightarrow> 'b option" where
  "read_root L verify unpack_to b bs =
     (if \<not> fb_verify_buffer L verify bs then None else Some (unpack_to (fb_root L bs) b))"

definition fb_unpack :: "('t, 'p) flatbuffers \<Rightarrow> nat \<Rightarrow> bytes \<Rightarrow> message_body option" where
  "fb_unpack L i bs =
     (if i = 1 then map_option HelloMessage (read_root L (Hello_Verify L) (Hello_UnPackTo L) HelloT bs)
      else if i = 2 then
        map_option (\<lambda>(s, rs). RouteAdvertisement s rs)
          (read_root L (RouteAdvertisement_Verify L) (RouteAdvertisement_UnPackTo L) RouteAdvertisementT bs)
      else if i = 3 then
        map_option (\<lambda>(s, rs). RouteRevocation s rs)
          (read_root L (RouteAdvertisement_Verify L) (RouteAdvertisement_UnPackTo L) RouteAdvertisementT bs)
      else if i = 4 then
        map_option ProxyClientConnect
          (read_root L (ProxyClientConnect_Verify L) (ProxyClientConnect_UnPackTo L) ProxyClientConnectT bs)
      else if i = 5 then
        map_option (\<lambda>(p, s). ServerClaim p s)
          (read_root L (ServerClaim_Verify L) (ServerClaim_UnPackTo L) ServerClaimT bs)
      else if i = 6 then
        map_option CoreMessage
          (read_root L (CoreMessage_Verify L) (CoreMessage_UnPackTo L) CoreMessageT bs)
      else None)"

lemmas Version_defs =
  VersionT_def Version_major_num_def Version_minor_num_def Version_patch_num_def Version_tag_def
  Version_revision_def Version_add_major_num_def Version_add_minor_num_def
  Version_add_patch_num_def Version_add_tag_def Version_add_revision_def Version_Verify_def
  Version_UnPackTo_def Version_UnPack_def

lemmas Hello_defs =
  HelloT_def Hello_id_def Hello_name_def Hello_version_def Hello_os_def Hello_add_id_def
  Hello_add_name_def Hello_add_version_def Hello_add_os_def Hello_Verify_def Hello_UnPackTo_def
  Hello_UnPack_def

lemmas Route_defs =
  RouteT_def Route_dest_def Route_cost_def Route_path_def Route_add_dest_def Route_add_cost_def
  Route_add_path_def Route_Verify_def Route_UnPackTo_def Route_UnPack_def

lemmas RouteAdvertisement_defs =
  RouteAdvertisementT_def RouteAdvertisement_sender_def RouteAdvertisement_routes_def
  RouteAdvertisement_add_sender_def RouteAdvertisement_add_routes_def
  RouteAdvertisement_Verify_def RouteAdvertisement_UnPackTo_def RouteAdvertisement_UnPack_def

lemmas ProxyClientConnect_defs =
  ProxyClientConnectT_def ProxyClientConnect_screen_def ProxyClientConnect_add_screen_def
  ProxyClientConnect_Verify_def ProxyClientConnect_UnPackTo_def ProxyClientConnect_UnPack_def

lemmas ServerClaim_defs =
  ServerClaimT_def ServerClaim_profile_id_def ServerClaim_screen_id_def
  ServerClaim_add_profile_id_def ServerClaim_add_screen_id_def ServerClaim_Verify_def
  ServerClaim_UnPackTo_def ServerClaim_UnPack_def

lemmas CoreMessage_defs =
  CoreMessageT_def CoreMessage_data_def CoreMessage_add_data_def CoreMessage_Verify_def
  CoreMessage_UnPackTo_def CoreMessage_UnPack_def

lemmas pack_defs =
  Hello_Pack_def CreateHello_def Version_Pack_def CreateVersion_def Route_Pack_def CreateRoute_def
  RouteAdvertisement_Pack_def CreateRouteAdvertisement_def ProxyClientConnect_Pack_def
  CreateProxyClientConnect_def ServerClaim_Pack_def CreateServerClaim_def CoreMessage_Pack_def
  CreateCoreMessage_def Version_defs Hello_defs Route_defs RouteAdvertisement_defs
  ProxyClientConnect_defs ServerClaim_defs CoreMessage_defs Let_def

section \<open>What the library promises\<close>

text \<open>
  The documented behaviour of the library. A field whose value is the default is not stored and
  reads as the default, a null offset is not stored and reads as a null pointer, and a field that
  was added reads as it was added, whatever the other fields are; \<open>fb_check\<close> says whether a field is
  stored. What a pointer refers to is what was put there. A finished buffer below two gigabytes is
  accepted by the verifier when its tables are, which are at most a million, and its root is the
  table that was finished.
\<close>

locale flatbuffer_library =
  fixes L :: "('t, 'p) flatbuffers"
  assumes check_start [simp]: "\<not> fb_check L (fb_start L) f"
    and check_add8 [simp]: "fb_check L (fb_add8 L f x d t) g \<longleftrightarrow> (g = f \<and> x \<noteq> d) \<or> fb_check L t g"
    and check_add32 [simp]: "fb_check L (fb_add32 L f y e t) g \<longleftrightarrow> (g = f \<and> y \<noteq> e) \<or> fb_check L t g"
    and check_add_offset [simp]: "fb_check L (fb_add_offset L f p t) g \<longleftrightarrow> (g = f \<and> p \<noteq> None) \<or> fb_check L t g"
    and get8_absent: "\<not> fb_check L t f \<Longrightarrow> fb_get8 L t f d = d"
    and get32_absent: "\<not> fb_check L t f \<Longrightarrow> fb_get32 L t f e = e"
    and pointer_absent: "\<not> fb_check L t f \<Longrightarrow> fb_pointer L t f = None"
    and get8_added: "\<not> fb_check L t f \<Longrightarrow> fb_get8 L (fb_add8 L f x d t) f d = x"
    and get32_added: "\<not> fb_check L t f \<Longrightarrow> fb_get32 L (fb_add32 L f y e t) f e = y"
    and pointer_added: "\<not> fb_check L t f \<Longrightarrow> fb_pointer L (fb_add_offset L f p t) f = p"
    and get8_others [simp]:
      "g \<noteq> f \<Longrightarrow> fb_get8 L (fb_add8 L f x d t) g d' = fb_get8 L t g d'"
      "g \<noteq> f \<Longrightarrow> fb_get8 L (fb_add32 L f y e t) g d' = fb_get8 L t g d'"
      "g \<noteq> f \<Longrightarrow> fb_get8 L (fb_add_offset L f p t) g d' = fb_get8 L t g d'"
    and get32_others [simp]:
      "g \<noteq> f \<Longrightarrow> fb_get32 L (fb_add8 L f x d t) g e' = fb_get32 L t g e'"
      "g \<noteq> f \<Longrightarrow> fb_get32 L (fb_add32 L f y e t) g e' = fb_get32 L t g e'"
      "g \<noteq> f \<Longrightarrow> fb_get32 L (fb_add_offset L f p t) g e' = fb_get32 L t g e'"
    and pointer_others [simp]:
      "g \<noteq> f \<Longrightarrow> fb_pointer L (fb_add8 L f x d t) g = fb_pointer L t g"
      "g \<noteq> f \<Longrightarrow> fb_pointer L (fb_add32 L f y e t) g = fb_pointer L t g"
      "g \<noteq> f \<Longrightarrow> fb_pointer L (fb_add_offset L f p t) g = fb_pointer L t g"
    and table_end [simp]: "fb_table L (fb_end L t) = t"
    and str_string [simp]: "fb_str L (fb_string L s) = s"
    and items8_vector8 [simp]: "fb_items8 L (fb_vector8 L bs) = bs"
    and items32_vector32 [simp]: "fb_items32 L (fb_vector32 L ws) = ws"
    and tables_vector [simp]: "fb_tables L (fb_vector_offsets L (map (fb_end L) ts)) = ts"
    and root_finish: "length (fb_finish L (fb_end L t)) < 2 ^ 31 \<Longrightarrow> fb_root L (fb_finish L (fb_end L t)) = t"
    and verify_start [simp]:
      "fb_verify_start L (fb_start L)"
      "fb_verify_start L (fb_add8 L f x d t) = fb_verify_start L t"
      "fb_verify_start L (fb_add32 L f y e t) = fb_verify_start L t"
      "fb_verify_start L (fb_add_offset L f p t) = fb_verify_start L t"
    and verify_absent:
      "\<not> fb_check L t f \<Longrightarrow> fb_verify8 L t f"
      "\<not> fb_check L t f \<Longrightarrow> fb_verify32 L t f"
      "\<not> fb_check L t f \<Longrightarrow> fb_verify_offset L t f"
    and verify_added:
      "\<not> fb_check L t f \<Longrightarrow> fb_verify8 L (fb_add8 L f x d t) f"
      "\<not> fb_check L t f \<Longrightarrow> fb_verify32 L (fb_add32 L f y e t) f"
      "\<not> fb_check L t f \<Longrightarrow> fb_verify_offset L (fb_add_offset L f p t) f"
    and verify8_others [simp]:
      "g \<noteq> f \<Longrightarrow> fb_verify8 L (fb_add8 L f x d t) g = fb_verify8 L t g"
      "g \<noteq> f \<Longrightarrow> fb_verify8 L (fb_add32 L f y e t) g = fb_verify8 L t g"
      "g \<noteq> f \<Longrightarrow> fb_verify8 L (fb_add_offset L f p t) g = fb_verify8 L t g"
    and verify32_others [simp]:
      "g \<noteq> f \<Longrightarrow> fb_verify32 L (fb_add8 L f x d t) g = fb_verify32 L t g"
      "g \<noteq> f \<Longrightarrow> fb_verify32 L (fb_add32 L f y e t) g = fb_verify32 L t g"
      "g \<noteq> f \<Longrightarrow> fb_verify32 L (fb_add_offset L f p t) g = fb_verify32 L t g"
    and verify_offset_others [simp]:
      "g \<noteq> f \<Longrightarrow> fb_verify_offset L (fb_add8 L f x d t) g = fb_verify_offset L t g"
      "g \<noteq> f \<Longrightarrow> fb_verify_offset L (fb_add32 L f y e t) g = fb_verify_offset L t g"
      "g \<noteq> f \<Longrightarrow> fb_verify_offset L (fb_add_offset L f p t) g = fb_verify_offset L t g"
    and verify_null [simp]:
      "fb_verify_string L None" "fb_verify_vector8 L None" "fb_verify_vector32 L None"
      "fb_verify_vector L None" "fb_verify_table L v None" "fb_verify_tables L v None"
    and verify_built [simp]:
      "fb_verify_string L (Some (fb_string L s))" "fb_verify_vector8 L (Some (fb_vector8 L bs))"
      "fb_verify_vector32 L (Some (fb_vector32 L ws))" "fb_verify_vector L (Some (fb_vector_offsets L ps))"
    and verify_table [simp]: "fb_verify_table L v (Some (fb_end L t)) = v t"
    and verify_tables:
      "length ts < 1000000 \<Longrightarrow>
        fb_verify_tables L v (Some (fb_vector_offsets L (map (fb_end L) ts))) = (\<forall>t\<in>set ts. v t)"
    and verify_end [simp]: "fb_verify_end L t"
    and verify_buffer:
      "length (fb_finish L (fb_end L t)) < 2 ^ 31 \<Longrightarrow> fb_verify_buffer L v (fb_finish L (fb_end L t)) = v t"
begin

lemmas fields =
  get8_absent get32_absent pointer_absent get8_added get32_added pointer_added verify_absent verify_added

text \<open>Each structure is packed into a table that verifies and unpacks to the structure.\<close>

lemma Version_packed: "\<exists>t. Version_Pack L v = fb_end L t \<and> Version_Verify L t \<and> Version_UnPack L t = v"
  unfolding Version_Pack_def CreateVersion_def Let_def
  by (intro exI conjI, rule refl)
    (simp_all add: Version_defs fields)

lemma Hello_packed:
  "\<exists>t. Hello_Pack L h = fb_end L t \<and> Hello_Verify L t \<and> Hello_UnPackTo L t HelloT = h"
proof -
  obtain tv where tv: "hello_version h = Some v \<Longrightarrow> Version_Pack L v = fb_end L (tv v)
      \<and> Version_Verify L (tv v) \<and> Version_UnPack L (tv v) = v" for v
    using Version_packed by metis
  then have "(case hello_version h of None \<Rightarrow> None | Some v \<Rightarrow> Some (Version_Pack L v))
      = map_option (\<lambda>v. fb_end L (tv v)) (hello_version h)"
    by (simp split: option.split)
  with tv show ?thesis
    unfolding Hello_Pack_def CreateHello_def Let_def
    by - (intro exI conjI, rule refl,
      (cases "hello_version h"; simp add: Hello_defs fields)+)
qed

lemma Route_packed: "\<exists>t. Route_Pack L r = fb_end L t \<and> Route_Verify L t \<and> Route_UnPack L t = r"
  unfolding Route_Pack_def CreateRoute_def Let_def
  by (intro exI conjI, rule refl) (simp_all add: Route_defs fields)

lemma Routes_packed:
  "\<exists>ts. map (Route_Pack L) rs = map (fb_end L) ts \<and> list_all (Route_Verify L) ts \<and> map (Route_UnPack L) ts = rs"
proof (induction rs)
  case (Cons r rs)
  then obtain ts t where "map (Route_Pack L) rs = map (fb_end L) ts" "list_all (Route_Verify L) ts"
    "map (Route_UnPack L) ts = rs" "Route_Pack L r = fb_end L t" "Route_Verify L t" "Route_UnPack L t = r"
    using Route_packed [of r] by blast
  then show ?case by (intro exI [of _ "t # ts"]) simp
qed simp

lemma RouteAdvertisement_packed:
  assumes "length rs < 1000000"
  shows "\<exists>t. RouteAdvertisement_Pack L (s, rs) = fb_end L t \<and> RouteAdvertisement_Verify L t
    \<and> RouteAdvertisement_UnPackTo L t RouteAdvertisementT = (s, rs)"
proof -
  obtain ts where ts: "map (Route_Pack L) rs = map (fb_end L) ts" "list_all (Route_Verify L) ts"
    "map (Route_UnPack L) ts = rs"
    using Routes_packed by blast
  have "map (\<lambda>i. Route_Pack L (rs ! i)) [0..<length rs] = map (fb_end L) ts"
    unfolding ts(1) [symmetric] by (rule nth_equalityI) simp_all
  moreover have "length ts < 1000000" using assms ts(3) by (metis length_map)
  ultimately show ?thesis
    unfolding RouteAdvertisement_Pack_def CreateRouteAdvertisement_def Let_def prod.case
    using ts(2,3)
    by - (intro exI conjI, rule refl,
      (cases "rs = []"; simp add: RouteAdvertisement_defs fields verify_tables list_all_iff)+)
qed

lemma ProxyClientConnect_packed:
  "\<exists>t. ProxyClientConnect_Pack L s = fb_end L t \<and> ProxyClientConnect_Verify L t
    \<and> ProxyClientConnect_UnPackTo L t ProxyClientConnectT = s"
  unfolding ProxyClientConnect_Pack_def CreateProxyClientConnect_def Let_def
  by (intro exI conjI, rule refl) (simp_all add: ProxyClientConnect_defs fields)

lemma ServerClaim_packed:
  "\<exists>t. ServerClaim_Pack L c = fb_end L t \<and> ServerClaim_Verify L t
    \<and> ServerClaim_UnPackTo L t ServerClaimT = c"
  unfolding ServerClaim_Pack_def CreateServerClaim_def Let_def
  by (intro exI conjI, rule refl) (simp_all add: ServerClaim_defs fields)

lemma CoreMessage_packed:
  "\<exists>t. CoreMessage_Pack L bs = fb_end L t \<and> CoreMessage_Verify L t
    \<and> CoreMessage_UnPackTo L t CoreMessageT = bs"
  unfolding CoreMessage_Pack_def CreateCoreMessage_def Let_def
  by (intro exI conjI, rule refl) (simp_all add: CoreMessage_defs fields)

text \<open>So does the reader read a buffer that the writer finished.\<close>

lemma read_root_packed:
  assumes "\<exists>t. p = fb_end L t \<and> v t \<and> u t b = x" "length (fb_finish L p) < 2 ^ 31"
  shows "read_root L v u b (fb_finish L p) = Some x"
  using assms by (auto simp: read_root_def verify_buffer root_finish)

end

end
