(* ===== verification/Encoding_Props.thy ===== *)
theory Encoding_Props
  imports Encoding
begin

text \<open>
  Messages over a stream, with their bodies packed and unpacked by the generated code; and a
  library that keeps the promises of the locale \<open>flatbuffer_library\<close>, which shows that they can be kept.
\<close>

section \<open>A library that keeps the promises\<close>

text \<open>
  A table is a sequence of fields, each with its number, its length and its bytes; numbers and
  lengths are written in unary.
\<close>

definition unary :: "nat \<Rightarrow> bytes" where
  "unary n = replicate n 1 @ [0]"

definition read_unary :: "bytes \<Rightarrow> nat \<times> bytes" where
  "read_unary bs = (length (takeWhile ((=) 1) bs), tl (dropWhile ((=) 1) bs))"

definition field_bytes :: "voffset \<Rightarrow> bytes \<Rightarrow> bytes" where
  "field_bytes f p = unary (unat f) @ unary (length p) @ p"

lemma read_unary [simp]: "read_unary (unary n @ bs) = (n, bs)"
  by (induction n) (simp_all add: read_unary_def unary_def)

lemma unary_not_Nil [simp]: "unary n \<noteq> []"
  by (simp add: unary_def)

lemma read_unary_le:
  assumes "read_unary bs = (n, r)"
  shows "length r \<le> length bs - 1"
  using assms length_dropWhile_le [of "(=) 1" bs] by (auto simp: read_unary_def)

lemma read_unary_less:
  assumes "read_unary bs = (n, r)" "bs \<noteq> []"
  shows "length r < length bs"
  using read_unary_le [OF assms(1)] assms(2) by (cases bs) simp_all

function find_field :: "voffset \<Rightarrow> bytes \<Rightarrow> bytes option" where
  "find_field f bs =
     (if bs = [] then None
      else
        (let (g, r) = read_unary bs;
             (n, r') = read_unary r
         in if g = unat f then Some (take n r') else find_field f (drop n r')))"
  by pat_completeness auto
termination
proof (relation "measure (\<lambda>(f, bs). length bs)")
  fix f bs x g r y n r'
  assume a: "bs \<noteq> []" "x = read_unary bs" "(g, r) = x" "y = read_unary r" "(n, r') = y"
  then have "length r < length bs" "length r' \<le> length r - 1"
    using read_unary_less [of bs g r] read_unary_le [of r n r'] by metis+
  then show "((f, drop n r'), f, bs) \<in> measure (\<lambda>(f, bs). length bs)" by simp
qed simp

declare find_field.simps [simp del]

lemma find_field_Nil [simp]: "find_field f [] = None"
  by (simp add: find_field.simps)

lemma find_field_bytes [simp]:
  "find_field g (field_bytes f p @ t) = (if g = f then Some p else find_field g t)"
  by (subst find_field.simps) (auto simp: field_bytes_def word_unat_eq_iff)

function items_of :: "bytes \<Rightarrow> bytes list" where
  "items_of bs =
     (if bs = [] then []
      else (let (n, r) = read_unary bs in take n r # items_of (drop n r)))"
  by pat_completeness auto
termination
proof (relation "measure length")
  fix bs x n and r :: bytes
  assume a: "bs \<noteq> []" "x = read_unary bs" "(n, r) = x"
  then have "length r < length bs" using read_unary_less [of bs n r] by metis
  then show "(drop n r, bs) \<in> measure length" by simp
qed simp

declare items_of.simps [simp del]

lemma items_of [simp]: "items_of (concat (map (\<lambda>p. unary (length p) @ p) ps)) = ps"
proof (induction ps)
  case (Cons p ps)
  then show ?case by (subst items_of.simps) simp
qed (simp add: items_of.simps)

fun words_of :: "bytes \<Rightarrow> u32 list" where
  "words_of (a # b # c # d # bs) = of_le32 [a, b, c, d] # words_of bs"
| "words_of _ = []"

lemma words_of [simp]: "words_of (concat (map le32 ws)) = ws"
proof (induction ws)
  case (Cons w ws)
  have "words_of (le32 w @ bs) = of_le32 (le32 w) # words_of bs" for bs
    by (simp add: le32_def)
  with Cons show ?case by simp
qed simp

definition chars_bytes :: "string \<Rightarrow> bytes" where
  "chars_bytes s = map (\<lambda>c. of_nat (of_char c)) s"

definition bytes_chars :: "bytes \<Rightarrow> string" where
  "bytes_chars bs = map (\<lambda>b. char_of (unat b)) bs"

lemma bytes_chars [simp]: "bytes_chars (chars_bytes s) = s"
proof -
  have "char_of (unat (of_nat (of_char c) :: u8)) = c" for c
    using nat_of_char_less_256 [of c] by (simp add: unat_of_nat)
  then show ?thesis by (simp add: bytes_chars_def chars_bytes_def comp_def)
qed

definition byte_tables :: "(bytes, bytes) flatbuffers" where
  "byte_tables =
     \<lparr>fb_start = [],
      fb_add8 = (\<lambda>f x d t. if x = d then t else field_bytes f [x] @ t),
      fb_add32 = (\<lambda>f x d t. if x = d then t else field_bytes f (le32 x) @ t),
      fb_add_offset = (\<lambda>f p t. case p of None \<Rightarrow> t | Some p \<Rightarrow> field_bytes f p @ t),
      fb_end = (\<lambda>t. t),
      fb_string = chars_bytes,
      fb_vector8 = (\<lambda>bs. bs),
      fb_vector32 = (\<lambda>ws. concat (map le32 ws)),
      fb_vector_offsets = (\<lambda>ps. concat (map (\<lambda>p. unary (length p) @ p) ps)),
      fb_finish = (\<lambda>p. p),
      fb_check = (\<lambda>t f. find_field f t \<noteq> None),
      fb_get8 = (\<lambda>t f d. case find_field f t of None \<Rightarrow> d | Some p \<Rightarrow> hd p),
      fb_get32 = (\<lambda>t f d. case find_field f t of None \<Rightarrow> d | Some p \<Rightarrow> of_le32 p),
      fb_pointer = (\<lambda>t f. find_field f t),
      fb_table = (\<lambda>p. p),
      fb_str = bytes_chars,
      fb_items8 = (\<lambda>p. p),
      fb_items32 = words_of,
      fb_tables = items_of,
      fb_root = (\<lambda>bs. bs),
      fb_verify_start = (\<lambda>t. True),
      fb_verify8 = (\<lambda>t f. True),
      fb_verify32 = (\<lambda>t f. True),
      fb_verify_offset = (\<lambda>t f. True),
      fb_verify_string = (\<lambda>p. True),
      fb_verify_vector8 = (\<lambda>p. True),
      fb_verify_vector32 = (\<lambda>p. True),
      fb_verify_vector = (\<lambda>p. True),
      fb_verify_table = (\<lambda>v p. case p of None \<Rightarrow> True | Some t \<Rightarrow> v t),
      fb_verify_tables = (\<lambda>v p. case p of None \<Rightarrow> True | Some q \<Rightarrow> list_all v (items_of q)),
      fb_verify_end = (\<lambda>t. True),
      fb_verify_buffer = (\<lambda>v bs. v bs)\<rparr>"

interpretation bt: flatbuffer_library byte_tables
  by unfold_locales (auto simp: byte_tables_def list_all_iff split: option.splits)

section \<open>Messages over a stream\<close>

text \<open>What the limits of the library leave of the bodies.\<close>

definition packable :: "('t, 'p) flatbuffers \<Rightarrow> message_body \<Rightarrow> bool" where
  "packable L b \<longleftrightarrow>
     (case b of
        UnknownMessage bs \<Rightarrow> length bs < 2 ^ 32
      | RouteAdvertisement s rs \<Rightarrow> length rs < 1000000 \<and> length (fb_pack L b) < 2 ^ 31
      | RouteRevocation s rs \<Rightarrow> length rs < 1000000 \<and> length (fb_pack L b) < 2 ^ 31
      | _ \<Rightarrow> length (fb_pack L b) < 2 ^ 31)"

context flatbuffer_library
begin

lemma read_packed:
  "length (fb_finish L (Hello_Pack L h)) < 2 ^ 31 \<Longrightarrow>
    read_root L (Hello_Verify L) (Hello_UnPackTo L) HelloT (fb_finish L (Hello_Pack L h)) = Some h"
  "length (fb_finish L (RouteAdvertisement_Pack L (s, rs))) < 2 ^ 31 \<Longrightarrow> length rs < 1000000 \<Longrightarrow>
    read_root L (RouteAdvertisement_Verify L) (RouteAdvertisement_UnPackTo L) RouteAdvertisementT
      (fb_finish L (RouteAdvertisement_Pack L (s, rs))) = Some (s, rs)"
  "length (fb_finish L (ProxyClientConnect_Pack L x)) < 2 ^ 31 \<Longrightarrow>
    read_root L (ProxyClientConnect_Verify L) (ProxyClientConnect_UnPackTo L) ProxyClientConnectT
      (fb_finish L (ProxyClientConnect_Pack L x)) = Some x"
  "length (fb_finish L (ServerClaim_Pack L c)) < 2 ^ 31 \<Longrightarrow>
    read_root L (ServerClaim_Verify L) (ServerClaim_UnPackTo L) ServerClaimT
      (fb_finish L (ServerClaim_Pack L c)) = Some c"
  "length (fb_finish L (CoreMessage_Pack L bs)) < 2 ^ 31 \<Longrightarrow>
    read_root L (CoreMessage_Verify L) (CoreMessage_UnPackTo L) CoreMessageT
      (fb_finish L (CoreMessage_Pack L bs)) = Some bs"
  by (rule read_root_packed;
      simp add: Hello_packed RouteAdvertisement_packed ProxyClientConnect_packed ServerClaim_packed
        CoreMessage_packed)+

lemma unpack_pack:
  assumes "packable L b" "which b \<noteq> 0"
  shows "fb_unpack L (unat (which b)) (fb_pack L b) = Some b"
  using assms
  by (cases b)
    (simp_all add: packable_def fb_pack_def fb_unpack_def read_packed)

lemma packable_sendable:
  assumes "packable L (body m)" "variant_index (htype h) = unat (which (body m))"
  shows "sendable (fb_pack L) (fb_unpack L) (h, m)"
proof -
  have "length (body_bytes (fb_pack L) (body m)) < 2 ^ 32"
    using assms(1) by (cases "body m") (simp_all add: packable_def body_bytes_def)
  with assms unpack_pack show ?thesis by (simp add: sendable_def)
qed

end

text \<open>
  C6. Whatever the sizes of the pieces in which the bytes of some written messages arrive, the
  receive loop hands exactly these messages to \<open>on_message\<close>, in order, with the TTL decremented
  and the size filled in, and then waits for more. The bodies are packed, verified and unpacked by
  the generated code, over any library of tables that behaves as documented.
\<close>

theorem written_messages_are_received:
  assumes "flatbuffer_library L" "data_only as"
    and "stream as = concat (map (\<lambda>(h, m). write_bytes (fb_pack L) h m) ms)"
    and "\<forall>(h, m)\<in>set ms. variant_index (htype h) = unat (which (body m)) \<and> packable L (body m)"
    and "\<forall>k. en k"
  shows "receive_loop (fb_unpack L) en 0 init_reader as = (map (received (fb_pack L)) ms, WaitingForData)"
  using assms flatbuffer_library.packable_sendable [OF assms(1)]
  by (intro wire_round_trip) auto

text \<open>At a hello with a version and an advertisement of a route, whose bytes arrive one by one.\<close>

theorem written_messages_are_received_witness:
  "(let h = HelloMessage \<lparr>hello_id = 7, hello_name = ''a'',
              hello_version = Some \<lparr>major_num = 2, minor_num = 0, patch_num = 1, vtag = '''', revision = ''r''\<rparr>,
              hello_os = 32\<rparr>;
        a = RouteAdvertisement 7 [\<lparr>dest = 8, cost = 1, path = [9]\<rparr>];
        ms = map (\<lambda>b. (header_of (message_of b), message_of b)) [h, a]
    in receive_loop (fb_unpack byte_tables) (\<lambda>_. True) 0 init_reader
         (map (\<lambda>b. Data [b]) (concat (map (\<lambda>(h, m). write_bytes (fb_pack byte_tables) h m) ms)))
       = (map (received (fb_pack byte_tables)) ms, WaitingForData))"
  unfolding Let_def
proof (rule written_messages_are_received)
  have "data_only (map (\<lambda>b. Data [b]) bs) \<and> stream (map (\<lambda>b. Data [b]) bs) = bs" for bs
    by (induction bs) simp_all
  then show "data_only (map (\<lambda>b. Data [b]) bs)" "stream (map (\<lambda>b. Data [b]) bs) = bs" for bs
    by simp_all
  show "flatbuffer_library byte_tables" by (rule bt.flatbuffer_library_axioms)
qed (simp_all add: packable_def variant_index_eq fb_pack_def pack_defs
    byte_tables_def field_bytes_def unary_def chars_bytes_def)

end
