(* ===== verification/CopyPtr.thy ===== *)
theory CopyPtr
  imports Prelude
begin

text \<open>
  The smart pointer that copies what it points to (\<open>router/utils/copy_ptr.hpp\<close>), in which the
  router keeps the routes of an advertisement. Objects live in cells of a heap, pointers are named
  variables. Deleting a cell that is not there, reading through a pointer to one, and using a variable
  that is no pointer are \<open>None\<close>, the undefined behaviour of the language.
\<close>

section \<open>State\<close>

datatype ptr = Null | At nat

text \<open>\<open>ptrs\<close> is \<open>None\<close> for a variable that has not been constructed or has been destroyed. A new cell
  is taken at \<open>fresh\<close>.\<close>

record ('k, 'v) cp_state =
  cells :: "nat \<Rightarrow> 'v option"
  fresh :: nat
  ptrs :: "'k \<Rightarrow> ptr option"

definition cp_empty :: "('k, 'v) cp_state" where
  "cp_empty = \<lparr>cells = (\<lambda>_. None), fresh = 0, ptrs = (\<lambda>_. None)\<rparr>"

definition set_ptr :: "'k \<Rightarrow> ptr \<Rightarrow> ('k, 'v) cp_state \<Rightarrow> ('k, 'v) cp_state" where
  "set_ptr p x s = s\<lparr>ptrs := (ptrs s)(p \<mapsto> x)\<rparr>"

text \<open>\<open>new T (...)\<close>, assigned to the pointer.\<close>

definition new_cell :: "'k \<Rightarrow> 'v \<Rightarrow> ('k, 'v) cp_state \<Rightarrow> ('k, 'v) cp_state" where
  "new_cell p v s = set_ptr p (At (fresh s)) (s\<lparr>cells := (cells s)(fresh s \<mapsto> v), fresh := Suc (fresh s)\<rparr>)"

definition destroy_cell :: "nat \<Rightarrow> ('k, 'v) cp_state \<Rightarrow> ('k, 'v) cp_state option" where
  "destroy_cell a s = (case cells s a of None \<Rightarrow> None | Some v \<Rightarrow> Some (s\<lparr>cells := (cells s)(a := None)\<rparr>))"

section \<open>Operations\<close>

definition default_construct :: "'k \<Rightarrow> ('k, 'v) cp_state \<Rightarrow> ('k, 'v) cp_state option" where
  "default_construct p s = Some (set_ptr p Null s)"

text \<open>The constructors from a raw pointer and from a \<open>unique_ptr\<close>, to a new object.\<close>

definition adopt :: "'k \<Rightarrow> 'v \<Rightarrow> ('k, 'v) cp_state \<Rightarrow> ('k, 'v) cp_state option" where
  "adopt p v s = Some (new_cell p v s)"

definition move_construct :: "'k \<Rightarrow> 'k \<Rightarrow> ('k, 'v) cp_state \<Rightarrow> ('k, 'v) cp_state option" where
  "move_construct p src s =
     (case ptrs s src of
        None \<Rightarrow> None
      | Some x \<Rightarrow> Some (set_ptr src Null (set_ptr p x s)))"

definition copy_construct :: "'k \<Rightarrow> 'k \<Rightarrow> ('k, 'v) cp_state \<Rightarrow> ('k, 'v) cp_state option" where
  "copy_construct p src s =
     (case ptrs s src of
        None \<Rightarrow> None
      | Some Null \<Rightarrow> Some (set_ptr p Null s)
      | Some (At a) \<Rightarrow> map_option (\<lambda>v. new_cell p v s) (cells s a))"

definition release :: "'k \<Rightarrow> ('k, 'v) cp_state \<Rightarrow> (ptr \<times> ('k, 'v) cp_state) option" where
  "release p s = map_option (\<lambda>x. (x, set_ptr p Null s)) (ptrs s p)"

definition destroy_pointee :: "'k \<Rightarrow> ('k, 'v) cp_state \<Rightarrow> ('k, 'v) cp_state option" where
  "destroy_pointee p s =
     (case ptrs s p of None \<Rightarrow> None | Some Null \<Rightarrow> Some s | Some (At a) \<Rightarrow> destroy_cell a s)"

text \<open>The pointer that was assigned to is set after the source has been released.\<close>

definition move_assign :: "'k \<Rightarrow> 'k \<Rightarrow> ('k, 'v) cp_state \<Rightarrow> ('k, 'v) cp_state option" where
  "move_assign p src s =
     (case ptrs s src of
        None \<Rightarrow> None
      | Some Null \<Rightarrow> map_option (set_ptr p Null) (destroy_pointee p s)
      | Some (At _) \<Rightarrow>
          Option.bind (destroy_pointee p s) (\<lambda>s.
            map_option (\<lambda>(x, s). set_ptr p x s) (release src s)))"

definition copy_assign :: "'k \<Rightarrow> 'k \<Rightarrow> ('k, 'v) cp_state \<Rightarrow> ('k, 'v) cp_state option" where
  "copy_assign p src s =
     (case ptrs s src of
        None \<Rightarrow> None
      | Some Null \<Rightarrow> map_option (set_ptr p Null) (destroy_pointee p s)
      | Some (At a) \<Rightarrow>
          (case cells s a of
             None \<Rightarrow> None
           | Some v \<Rightarrow>
               (case ptrs s p of
                  None \<Rightarrow> None
                | Some Null \<Rightarrow> Some (new_cell p v s)
                | Some (At b) \<Rightarrow>
                    if cells s b = None then None else Some (s\<lparr>cells := (cells s)(b \<mapsto> v)\<rparr>))))"

definition destruct :: "'k \<Rightarrow> ('k, 'v) cp_state \<Rightarrow> ('k, 'v) cp_state option" where
  "destruct p s = map_option (\<lambda>s. s\<lparr>ptrs := (ptrs s)(p := None)\<rparr>) (destroy_pointee p s)"

datatype ('k, 'v) cp_op =
    Default 'k
  | Adopt 'k 'v
  | MoveConstruct 'k 'k
  | CopyConstruct 'k 'k
  | MoveAssign 'k 'k
  | CopyAssign 'k 'k
  | Destruct 'k

fun cp_step :: "('k, 'v) cp_op \<Rightarrow> ('k, 'v) cp_state \<Rightarrow> ('k, 'v) cp_state option" where
  "cp_step (Default p) s = default_construct p s"
| "cp_step (Adopt p v) s = adopt p v s"
| "cp_step (MoveConstruct p q) s = move_construct p q s"
| "cp_step (CopyConstruct p q) s = copy_construct p q s"
| "cp_step (MoveAssign p q) s = move_assign p q s"
| "cp_step (CopyAssign p q) s = copy_assign p q s"
| "cp_step (Destruct p) s = destruct p s"

fun cp_run :: "('k, 'v) cp_op list \<Rightarrow> ('k, 'v) cp_state \<Rightarrow> ('k, 'v) cp_state option" where
  "cp_run [] s = Some s"
| "cp_run (i # is) s = Option.bind (cp_step i s) (cp_run is)"

section \<open>What it stands for\<close>

text \<open>Variables that hold a value or nothing, with the copying and moving of \<open>std::optional\<close>.\<close>

type_synonym ('k, 'v) holders = "'k \<Rightarrow> 'v option option"

fun value_step :: "('k, 'v) cp_op \<Rightarrow> ('k, 'v) holders \<Rightarrow> ('k, 'v) holders" where
  "value_step (Default p) h = h(p \<mapsto> None)"
| "value_step (Adopt p v) h = h(p \<mapsto> Some v)"
| "value_step (MoveConstruct p q) h = h(p := h q, q \<mapsto> None)"
| "value_step (CopyConstruct p q) h = h(p := h q)"
| "value_step (MoveAssign p q) h = h(p := h q, q \<mapsto> None)"
| "value_step (CopyAssign p q) h = h(p := h q)"
| "value_step (Destruct p) h = h(p := None)"

text \<open>Constructors make new variables out of others, assignments and destructors take variables that
  are there, and nothing is moved to itself.\<close>

fun legal_op :: "('k, 'v) cp_op \<Rightarrow> ('k, 'v) holders \<Rightarrow> bool" where
  "legal_op (Default p) h \<longleftrightarrow> h p = None"
| "legal_op (Adopt p v) h \<longleftrightarrow> h p = None"
| "legal_op (MoveConstruct p q) h \<longleftrightarrow> h p = None \<and> h q \<noteq> None"
| "legal_op (CopyConstruct p q) h \<longleftrightarrow> h p = None \<and> h q \<noteq> None"
| "legal_op (MoveAssign p q) h \<longleftrightarrow> h p \<noteq> None \<and> h q \<noteq> None \<and> p \<noteq> q"
| "legal_op (CopyAssign p q) h \<longleftrightarrow> h p \<noteq> None \<and> h q \<noteq> None"
| "legal_op (Destruct p) h \<longleftrightarrow> h p \<noteq> None"

fun legal :: "('k, 'v) cp_op list \<Rightarrow> ('k, 'v) holders \<Rightarrow> bool" where
  "legal [] h \<longleftrightarrow> True"
| "legal (i # is) h \<longleftrightarrow> legal_op i h \<and> legal is (value_step i h)"

definition value_run :: "('k, 'v) cp_op list \<Rightarrow> ('k, 'v) holders \<Rightarrow> ('k, 'v) holders" where
  "value_run is h = fold value_step is h"

definition view :: "('k, 'v) cp_state \<Rightarrow> ('k, 'v) holders" where
  "view s = (\<lambda>p. map_option (\<lambda>x. case x of Null \<Rightarrow> None | At a \<Rightarrow> cells s a) (ptrs s p))"

text \<open>Every object has exactly one owner.\<close>

definition owned_once :: "('k, 'v) cp_state \<Rightarrow> bool" where
  "owned_once s \<longleftrightarrow>
     (\<forall>a. cells s a \<noteq> None \<longleftrightarrow> (\<exists>p. ptrs s p = Some (At a))) \<and>
     (\<forall>p q a. ptrs s p = Some (At a) \<longrightarrow> ptrs s q = Some (At a) \<longrightarrow> p = q) \<and>
     (\<forall>a\<ge>fresh s. cells s a = None)"

section \<open>Facts\<close>

lemma owned_onceI [intro?]:
  assumes "\<And>a v. cells s a = Some v \<Longrightarrow> \<exists>p. ptrs s p = Some (At a)"
    and "\<And>a p. ptrs s p = Some (At a) \<Longrightarrow> cells s a \<noteq> None"
    and "\<And>p q a. ptrs s p = Some (At a) \<Longrightarrow> ptrs s q = Some (At a) \<Longrightarrow> p = q"
    and "\<And>a. fresh s \<le> a \<Longrightarrow> cells s a = None"
  shows "owned_once s"
  using assms unfolding owned_once_def by blast

lemma owned_onceD:
  assumes "owned_once s"
  shows "cells s a = Some v \<Longrightarrow> \<exists>p. ptrs s p = Some (At a)"
    "ptrs s p = Some (At a) \<Longrightarrow> \<exists>v. cells s a = Some v"
    "ptrs s p = Some (At a) \<Longrightarrow> ptrs s q = Some (At a) \<Longrightarrow> p = q"
    "fresh s \<le> a \<Longrightarrow> cells s a = None"
  using assms unfolding owned_once_def by blast+

definition holds_nothing :: "'k \<Rightarrow> ('k, 'v) cp_state \<Rightarrow> bool" where
  "holds_nothing p s \<longleftrightarrow> ptrs s p = None \<or> ptrs s p = Some Null"

lemma holds_nothing_not_At: "holds_nothing p s \<Longrightarrow> ptrs s p \<noteq> Some (At a)"
  by (auto simp: holds_nothing_def)

lemma set_ptr_fields [simp]:
  "cells (set_ptr p x s) = cells s" "fresh (set_ptr p x s) = fresh s" "ptrs (set_ptr p x s) = (ptrs s)(p \<mapsto> x)"
  by (simp_all add: set_ptr_def)

lemma new_cell_fields [simp]:
  "cells (new_cell p v s) = (cells s)(fresh s \<mapsto> v)" "fresh (new_cell p v s) = Suc (fresh s)"
  "ptrs (new_cell p v s) = (ptrs s)(p \<mapsto> At (fresh s))"
  by (simp_all add: new_cell_def)

definition ptr_value :: "('k, 'v) cp_state \<Rightarrow> ptr \<Rightarrow> 'v option" where
  "ptr_value s x = (case x of Null \<Rightarrow> None | At a \<Rightarrow> cells s a)"

lemma ptr_value_simps [simp]: "ptr_value s Null = None" "ptr_value s (At a) = cells s a"
  by (simp_all add: ptr_value_def)

lemma ptr_value_set_ptr [simp]: "ptr_value (set_ptr p x s) = ptr_value s"
  by (simp add: ptr_value_def [abs_def])

lemma view_eq: "view s p = map_option (ptr_value s) (ptrs s p)"
  by (simp add: view_def ptr_value_def [abs_def])

text \<open>An object stays owned when a pointer is set that did not own it.\<close>

lemma other_owner:
  assumes "owned_once s" "cells s a = Some v" "ptrs s p \<noteq> Some (At a)"
  shows "\<exists>q. q \<noteq> p \<and> ptrs s q = Some (At a)"
  using owned_onceD(1) [OF assms(1,2)] assms(3) by auto

lemma null_owned:
  assumes "owned_once s" "holds_nothing p s"
  shows "owned_once (set_ptr p Null s)" "view (set_ptr p Null s) = (view s)(p \<mapsto> None)"
proof -
  show "owned_once (set_ptr p Null s)"
  proof
    fix a v
    assume "cells (set_ptr p Null s) a = Some v"
    then obtain q where "q \<noteq> p" "ptrs s q = Some (At a)"
      using other_owner [OF assms(1) _ holds_nothing_not_At [OF assms(2)]] by (metis set_ptr_fields(1))
    then show "\<exists>q. ptrs (set_ptr p Null s) q = Some (At a)"
      by auto
  qed (use owned_onceD [OF assms(1)] in \<open>auto split: if_splits\<close>)
  show "view (set_ptr p Null s) = (view s)(p \<mapsto> None)"
    by (simp add: fun_eq_iff view_eq)
qed

lemma new_cell_owned:
  assumes "owned_once s" "holds_nothing p s"
  shows "owned_once (new_cell p v s)" "view (new_cell p v s) = (view s)(p \<mapsto> Some v)"
proof -
  note fr = owned_onceD(4) [OF assms(1) order.refl]
  have "ptrs s q \<noteq> Some (At (fresh s))" for q
    using owned_onceD(2) [OF assms(1), of q "fresh s"] fr by auto
  note nf = this
  show "owned_once (new_cell p v s)"
  proof
    fix a w
    assume "cells (new_cell p v s) a = Some w"
    then show "\<exists>q. ptrs (new_cell p v s) q = Some (At a)"
      using other_owner [OF assms(1) _ holds_nothing_not_At [OF assms(2)], of a w] by (auto split: if_splits)
  next
    fix a q
    assume "ptrs (new_cell p v s) q = Some (At a)"
    then show "cells (new_cell p v s) a \<noteq> None"
      using owned_onceD(2) [OF assms(1), of q a] by (auto split: if_splits)
  next
    fix q q' a
    assume "ptrs (new_cell p v s) q = Some (At a)" "ptrs (new_cell p v s) q' = Some (At a)"
    then show "q = q'"
      using owned_onceD(3) [OF assms(1), of q a q'] nf by (auto split: if_splits)
  next
    fix a
    assume "fresh (new_cell p v s) \<le> a"
    then show "cells (new_cell p v s) a = None"
      using owned_onceD(4) [OF assms(1), of a] by simp
  qed
  show "view (new_cell p v s) = (view s)(p \<mapsto> Some v)"
    using nf by (auto simp: fun_eq_iff view_eq ptr_value_def intro!: map_option_cong split: ptr.split)
qed

text \<open>Moving out of one pointer into another that holds nothing.\<close>

lemma moved_owned:
  assumes "owned_once s" "holds_nothing p s" "ptrs s q = Some x" "p \<noteq> q"
  shows "owned_once (set_ptr q Null (set_ptr p x s))"
    "view (set_ptr q Null (set_ptr p x s)) = (view s)(p := view s q, q \<mapsto> None)"
proof -
  let ?s = "set_ptr q Null (set_ptr p x s)"
  show "owned_once ?s"
  proof
    fix a w
    assume "cells ?s a = Some w"
    then obtain r where "ptrs s r = Some (At a)"
      using owned_onceD(1) [OF assms(1), of a w] by auto
    then have "ptrs ?s (if r = q then p else r) = Some (At a)"
      using assms(2-4) by (auto simp: holds_nothing_def)
    then show "\<exists>r. ptrs ?s r = Some (At a)" ..
  next
    fix a r
    assume "ptrs ?s r = Some (At a)"
    then show "cells ?s a \<noteq> None"
      using owned_onceD(2) [OF assms(1), of _ a] assms(3) by (auto split: if_splits)
  next
    fix r r' a
    assume "ptrs ?s r = Some (At a)" "ptrs ?s r' = Some (At a)"
    then show "r = r'"
      using owned_onceD(3) [OF assms(1), of _ a] assms(3) by (auto split: if_splits)
  next
    fix a
    assume "fresh ?s \<le> a"
    then show "cells ?s a = None"
      using owned_onceD(4) [OF assms(1)] by simp
  qed
  show "view ?s = (view s)(p := view s q, q \<mapsto> None)"
    using assms(3) by (auto simp: fun_eq_iff view_eq)
qed

text \<open>Giving up what a pointer holds.\<close>

lemma given_up:
  assumes "owned_once s" "ptrs s p = Some x"
  shows "\<exists>t. destroy_pointee p s = Some t \<and> ptrs t = ptrs s \<and> owned_once (set_ptr p Null t) \<and>
    view (set_ptr p Null t) = (view s)(p \<mapsto> None)"
proof (cases x)
  case Null
  then show ?thesis
    using assms null_owned [of s p] by (simp add: destroy_pointee_def holds_nothing_def)
next
  case (At a)
  then obtain v where v: "cells s a = Some v"
    using owned_onceD(2) [OF assms(1)] assms(2) by blast
  let ?t = "s\<lparr>cells := (cells s)(a := None)\<rparr>"
  have only: "ptrs s q = Some (At a) \<longleftrightarrow> q = p" for q
    using owned_onceD(3) [OF assms(1)] assms(2) At by blast
  have "owned_once (set_ptr p Null ?t)"
  proof
    fix b w
    assume "cells (set_ptr p Null ?t) b = Some w"
    then show "\<exists>q. ptrs (set_ptr p Null ?t) q = Some (At b)"
      using other_owner [OF assms(1), of b w p] assms(2) At by (auto split: if_splits)
  next
    fix b q
    assume "ptrs (set_ptr p Null ?t) q = Some (At b)"
    then show "cells (set_ptr p Null ?t) b \<noteq> None"
      using owned_onceD(2) [OF assms(1), of q b] only [of q] by (auto split: if_splits)
  next
    fix q q' b
    assume "ptrs (set_ptr p Null ?t) q = Some (At b)" "ptrs (set_ptr p Null ?t) q' = Some (At b)"
    then show "q = q'"
      using owned_onceD(3) [OF assms(1), of q b q'] by (auto split: if_splits)
  next
    fix b
    assume "fresh (set_ptr p Null ?t) \<le> b"
    then show "cells (set_ptr p Null ?t) b = None"
      using owned_onceD(4) [OF assms(1)] by simp
  qed
  moreover have "view (set_ptr p Null ?t) = (view s)(p \<mapsto> None)"
  proof
    fix q
    have "ptr_value ?t y = ptr_value s y" if "ptrs s q = Some y" "q \<noteq> p" for y
      using that only [of q] by (cases y) auto
    then show "view (set_ptr p Null ?t) q = ((view s)(p \<mapsto> None)) q"
      by (cases "ptrs s q") (auto simp: view_eq)
  qed
  moreover have "destroy_pointee p s = Some ?t"
    using assms(2) At v by (simp add: destroy_pointee_def destroy_cell_def)
  ultimately show ?thesis
    by simp
qed

text \<open>A pointer may be forgotten once it holds nothing.\<close>

lemma forgotten_owned:
  assumes "owned_once (set_ptr p Null t)"
  shows "owned_once (t\<lparr>ptrs := (ptrs t)(p := None)\<rparr>)"
    "view (t\<lparr>ptrs := (ptrs t)(p := None)\<rparr>) = (view (set_ptr p Null t))(p := None)"
proof -
  let ?t = "t\<lparr>ptrs := (ptrs t)(p := None)\<rparr>"
  have at: "ptrs ?t q = Some (At a) \<longleftrightarrow> ptrs (set_ptr p Null t) q = Some (At a)" for q a
    by auto
  have "cells ?t = cells (set_ptr p Null t)" "fresh ?t = fresh (set_ptr p Null t)"
    by simp_all
  then show "owned_once ?t"
    using assms unfolding owned_once_def at by metis
  show "view ?t = (view (set_ptr p Null t))(p := None)"
    by (simp add: fun_eq_iff view_def)
qed

text \<open>Assigning a value to an object that is there.\<close>

lemma overwritten_owned:
  assumes "owned_once s" "ptrs s p = Some (At b)"
  shows "owned_once (s\<lparr>cells := (cells s)(b \<mapsto> v)\<rparr>)"
    "view (s\<lparr>cells := (cells s)(b \<mapsto> v)\<rparr>) = (view s)(p \<mapsto> Some v)"
proof -
  let ?t = "s\<lparr>cells := (cells s)(b \<mapsto> v)\<rparr>"
  obtain w where w: "cells s b = Some w"
    using owned_onceD(2) [OF assms] by blast
  have only: "ptrs s q = Some (At b) \<longleftrightarrow> q = p" for q
    using owned_onceD(3) [OF assms(1)] assms(2) by blast
  have "b < fresh s"
    using owned_onceD(4) [OF assms(1), of b] w by (cases "b < fresh s") auto
  moreover have "cells ?t a \<noteq> None \<longleftrightarrow> cells s a \<noteq> None" for a
    using w by simp
  ultimately show "owned_once ?t"
    using assms(1) unfolding owned_once_def by simp
  show "view ?t = (view s)(p \<mapsto> Some v)"
  proof
    fix q
    have "ptr_value ?t y = ptr_value s y" if "ptrs s q = Some y" "q \<noteq> p" for y
      using that only [of q] by (cases y) auto
    then show "view ?t q = ((view s)(p \<mapsto> Some v)) q"
      using assms(2) by (cases "ptrs s q") (auto simp: view_eq)
  qed
qed

text \<open>Each operation does to the values what it should.\<close>

definition follows :: "('k, 'v) cp_state option \<Rightarrow> ('k, 'v) holders \<Rightarrow> bool" where
  "follows r h \<longleftrightarrow> (\<exists>t. r = Some t \<and> owned_once t \<and> view t = h)"

lemma followsI: "owned_once t \<Longrightarrow> view t = h \<Longrightarrow> follows (Some t) h"
  by (simp add: follows_def)

lemma view_None: "view s p = None \<longleftrightarrow> ptrs s p = None"
  by (simp add: view_eq)

lemma assigned_null:
  assumes "owned_once s" "ptrs s p = Some x"
  shows "follows (map_option (set_ptr p Null) (destroy_pointee p s)) ((view s)(p \<mapsto> None))"
  using given_up [OF assms] by (auto simp: follows_def)

lemma move_assigned:
  assumes "owned_once s" "ptrs s p = Some x" "ptrs s q = Some (At a)" "p \<noteq> q"
  shows "follows (move_assign p q s) ((view s)(p := view s q, q \<mapsto> None))"
proof -
  obtain t where t: "destroy_pointee p s = Some t" "ptrs t = ptrs s" "owned_once (set_ptr p Null t)"
    "view (set_ptr p Null t) = (view s)(p \<mapsto> None)"
    using given_up [OF assms(1,2)] by blast
  let ?t = "set_ptr p Null t"
  have "ptrs ?t q = Some (At a)" "holds_nothing p ?t"
    using assms(3,4) t(2) by (simp_all add: holds_nothing_def)
  from moved_owned [OF t(3) this(2,1) assms(4)]
  have "owned_once (set_ptr q Null (set_ptr p (At a) ?t))"
    "view (set_ptr q Null (set_ptr p (At a) ?t)) = (view s)(p := view s q, q \<mapsto> None)"
    using assms(4) by (simp_all add: t(4))
  moreover have "set_ptr p (At a) (set_ptr q Null t) = set_ptr q Null (set_ptr p (At a) ?t)"
    using assms(4) by (simp add: set_ptr_def fun_upd_twist)
  ultimately have "follows (Some (set_ptr p (At a) (set_ptr q Null t))) ((view s)(p := view s q, q \<mapsto> None))"
    by (intro followsI) simp_all
  then show ?thesis
    using assms(3) t(1,2) by (simp add: move_assign_def release_def)
qed

lemma step_follows:
  assumes "owned_once s" "legal_op i (view s)"
  shows "follows (cp_step i s) (value_step i (view s))"
proof (cases i)
  case (Default p)
  then show ?thesis
    using assms null_owned [of s p] by (auto simp: view_None holds_nothing_def default_construct_def intro!: followsI)
next
  case (Adopt p v)
  then show ?thesis
    using assms new_cell_owned [of s p v] by (auto simp: view_None holds_nothing_def adopt_def intro!: followsI)
next
  case (MoveConstruct p q)
  then obtain x where x: "ptrs s p = None" "ptrs s q = Some x"
    using assms(2) by (auto simp: view_None)
  then have "p \<noteq> q"
    by auto
  with x show ?thesis
    using MoveConstruct moved_owned [OF assms(1) _ x(2), of p]
    by (auto simp: holds_nothing_def move_construct_def intro!: followsI)
next
  case (CopyConstruct p q)
  then obtain x where x: "ptrs s p = None" "ptrs s q = Some x"
    using assms(2) by (auto simp: view_None)
  then have p: "holds_nothing p s"
    by (simp add: holds_nothing_def)
  show ?thesis
  proof (cases x)
    case Null
    then show ?thesis
      using CopyConstruct x null_owned [OF assms(1) p] by (auto simp: copy_construct_def view_eq intro!: followsI)
  next
    case (At a)
    then obtain v where "cells s a = Some v"
      using owned_onceD(2) [OF assms(1)] x(2) by blast
    then show ?thesis
      using CopyConstruct x At new_cell_owned [OF assms(1) p, of v]
      by (auto simp: copy_construct_def view_eq intro!: followsI)
  qed
next
  case (MoveAssign p q)
  then obtain x y where x: "ptrs s p = Some x" "ptrs s q = Some y" "p \<noteq> q"
    using assms(2) by (auto simp: view_None)
  show ?thesis
  proof (cases y)
    case Null
    have "(view s)(p := view s q, q \<mapsto> None) = (view s)(p \<mapsto> None)"
      using x Null by (auto simp: fun_eq_iff view_eq)
    then show ?thesis
      using MoveAssign x Null assigned_null [OF assms(1) x(1)] by (simp add: move_assign_def)
  next
    case (At a)
    then show ?thesis
      using MoveAssign move_assigned [OF assms(1) x(1)] x by simp
  qed
next
  case (CopyAssign p q)
  then obtain x y where x: "ptrs s p = Some x" "ptrs s q = Some y"
    using assms(2) by (auto simp: view_None)
  show ?thesis
  proof (cases y)
    case Null
    then show ?thesis
      using CopyAssign x assigned_null [OF assms(1) x(1)] by (simp add: copy_assign_def view_eq)
  next
    case (At a)
    then obtain v where v: "cells s a = Some v"
      using owned_onceD(2) [OF assms(1)] x(2) by blast
    show ?thesis
    proof (cases x)
      case Null
      then show ?thesis
        using CopyAssign x At v new_cell_owned [OF assms(1), of p v]
        by (auto simp: copy_assign_def view_eq holds_nothing_def intro!: followsI)
    next
      case (At b)
      then have b: "ptrs s p = Some (At b)"
        using x(1) by simp
      then obtain w where "cells s b = Some w"
        using owned_onceD(2) [OF assms(1)] by blast
      then show ?thesis
        using CopyAssign x \<open>y = At a\<close> v b overwritten_owned [OF assms(1) b, of v]
        by (auto simp: copy_assign_def view_eq intro!: followsI)
    qed
  qed
next
  case (Destruct p)
  then obtain x where x: "ptrs s p = Some x"
    using assms(2) by (auto simp: view_None)
  then obtain t where "destroy_pointee p s = Some t" "owned_once (set_ptr p Null t)"
    "view (set_ptr p Null t) = (view s)(p \<mapsto> None)"
    using given_up [OF assms(1)] by blast
  then show ?thesis
    using Destruct forgotten_owned [of p t] by (auto simp: destruct_def intro!: followsI)
qed

lemma run_follows:
  "owned_once s \<Longrightarrow> legal is (view s) \<Longrightarrow> follows (cp_run is s) (value_run is (view s))"
proof (induction "is" arbitrary: s)
  case (Cons i "is")
  then obtain t where t: "cp_step i s = Some t" "owned_once t" "view t = value_step i (view s)"
    using step_follows [of s i] by (auto simp: follows_def)
  then show ?case
    using Cons.IH [of t] Cons.prems(2) by (simp add: value_run_def)
qed (simp add: value_run_def follows_def)

lemma empty_owned: "owned_once cp_empty" "view cp_empty = (\<lambda>_. None)"
  by (simp_all add: owned_once_def cp_empty_def view_def)

section \<open>Property\<close>

text \<open>C28. The smart pointer is a value: whatever a program does with such pointers, as long as it moves
  none to itself, nothing is deleted twice or read after its deletion, every variable holds what a
  variable of an optional value would hold, so that no change shows through a copy, and an object
  lives exactly as long as one pointer, and only one, owns it.\<close>

theorem pointers_are_values:
  assumes "legal is (\<lambda>_. None)"
  shows "\<exists>s. cp_run is cp_empty = Some s \<and> view s = value_run is (\<lambda>_. None) \<and>
    (\<forall>a. cells s a \<noteq> None \<longleftrightarrow> (\<exists>!p. ptrs s p = Some (At a)))"
proof -
  obtain s where s: "cp_run is cp_empty = Some s" "owned_once s" "view s = value_run is (\<lambda>_. None)"
    using run_follows [of cp_empty "is"] assms by (auto simp: empty_owned follows_def)
  have "cells s a \<noteq> None \<longleftrightarrow> (\<exists>!p. ptrs s p = Some (At a))" for a
    using owned_onceD(1-3) [OF s(2)] by blast
  with s show ?thesis
    by blast
qed

definition demo_ops :: "(nat, string) cp_op list" where
  "demo_ops = [Adopt 0 ''a'', CopyConstruct 1 0, Default 2, MoveAssign 2 0, Adopt 3 ''b'', CopyAssign 1 3, Destruct 3]"

theorem pointers_are_values_witness:
  "\<exists>s. cp_run demo_ops cp_empty = Some s \<and>
     view s 0 = Some None \<and> view s 1 = Some (Some ''b'') \<and> view s 2 = Some (Some ''a'') \<and> view s 3 = None"
proof -
  have "legal demo_ops (\<lambda>_. None)"
    by (simp add: demo_ops_def)
  then obtain s where "cp_run demo_ops cp_empty = Some s" "view s = value_run demo_ops (\<lambda>_. None)"
    using pointers_are_values [of demo_ops] by blast
  then show ?thesis
    by (simp add: value_run_def demo_ops_def)
qed

text \<open>A pointer that is moved to itself deletes its object and keeps the address: when it is destroyed
  the object is deleted again.\<close>

lemma self_move_dangles:
  "Option.bind (cp_run [Adopt 0 v, MoveAssign 0 0] cp_empty) (destruct (0 :: nat)) = None"
  by (simp add: adopt_def cp_empty_def move_assign_def destroy_pointee_def destroy_cell_def release_def
      destruct_def set_ptr_def new_cell_def)

end
