(* ===== verification/CoreOutput.thy ===== *)
theory CoreOutput
  imports Core
begin

text \<open>
  How the output of the core process becomes lines (\<open>service/CoreProcessImpl.cpp\<close>): two loops read the
  pipes of the process up to the next line break and hand each line, without the white space at its
  end, to the slots of the output. Bytes arrive in pieces; a read that finds a line break in what is
  already there completes at once.
\<close>

section \<open>Reading\<close>

definition newline :: char where "newline = CHR 0x0A"

record pipe =
  po_buffer :: string
  po_reading :: bool

definition new_pipe :: pipe where
  "new_pipe = \<lparr>po_buffer = [], po_reading = True\<rparr>"

definition blank :: "char \<Rightarrow> bool" where
  "blank c \<longleftrightarrow> c \<in> set [CHR '' '', CHR 0x09, CHR 0x0A, CHR 0x0B, CHR 0x0C, CHR 0x0D]"

definition trim_right :: "string \<Rightarrow> string" where
  "trim_right s = rev (dropWhile blank (rev s))"

text \<open>The handler of a read that has completed: \<open>getline\<close> takes the line and its break from the buffer,
  and the next read starts before the line is handed on.\<close>

definition asyncReadLines :: "pipe \<Rightarrow> (string \<times> pipe) option" where
  "asyncReadLines p =
     (if po_reading p \<and> newline \<in> set (po_buffer p)
      then Some (trim_right (takeWhile (\<lambda>c. c \<noteq> newline) (po_buffer p)),
                 p\<lparr>po_buffer := tl (dropWhile (\<lambda>c. c \<noteq> newline) (po_buffer p))\<rparr>)
      else None)"

lemma asyncReadLines_shorter:
  assumes "asyncReadLines p = Some (l, q)"
  shows "length (po_buffer q) < length (po_buffer p)"
proof -
  have "newline \<in> set (po_buffer p)" "po_buffer q = tl (dropWhile (\<lambda>c. c \<noteq> newline) (po_buffer p))"
    using assms by (auto simp: asyncReadLines_def split: if_splits)
  moreover have "length (dropWhile (\<lambda>c. c \<noteq> newline) (po_buffer p)) \<le> length (po_buffer p)"
    by (rule length_dropWhile_le)
  moreover have "dropWhile (\<lambda>c. c \<noteq> newline) (po_buffer p) \<noteq> []"
    using calculation(1) by (auto simp: dropWhile_eq_Nil_conv)
  ultimately show ?thesis
    by (cases "dropWhile (\<lambda>c. c \<noteq> newline) (po_buffer p)") auto
qed

text \<open>The reads that complete one after the other.\<close>

function read_lines :: "pipe \<Rightarrow> string list \<times> pipe" where
  "read_lines p =
     (case asyncReadLines p of
        None \<Rightarrow> ([], p)
      | Some (l, q) \<Rightarrow> (let (ls, r) = read_lines q in (l # ls, r)))"
  by pat_completeness auto

termination
  by (relation "measure (\<lambda>p. length (po_buffer p))") (auto dest: asyncReadLines_shorter)

declare read_lines.simps [simp del]

text \<open>Bytes on a pipe, or its end: an error, the end of the file, or the cancellation on exit.\<close>

datatype pipe_event = Arrives string | Ends

fun pipe_step :: "pipe_event \<Rightarrow> pipe \<Rightarrow> string list \<times> pipe" where
  "pipe_step (Arrives bs) p = read_lines (p\<lparr>po_buffer := po_buffer p @ bs\<rparr>)"
| "pipe_step Ends p = ([], p\<lparr>po_reading := False\<rparr>)"

section \<open>The two pipes\<close>

datatype channel = StdOut | StdErr

type_synonym pipes = "channel \<Rightarrow> pipe"

text \<open>The lines in the order in which the slots get them, each with the pipe it came from.\<close>

fun output_run :: "(channel \<times> pipe_event) list \<Rightarrow> pipes \<Rightarrow> (channel \<times> string) list \<times> pipes" where
  "output_run [] ps = ([], ps)"
| "output_run ((c, e) # es) ps =
     (let (ls, p) = pipe_step e (ps c); (rest, ps) = output_run es (ps(c := p))
      in (map (Pair c) ls @ rest, ps))"

definition start_pipes :: pipes where
  "start_pipes = (\<lambda>_. new_pipe)"

section \<open>Facts\<close>

definition unbroken :: "string \<Rightarrow> bool" where
  "unbroken s \<longleftrightarrow> newline \<notin> set s"

definition broken_lines :: "string list \<Rightarrow> string" where
  "broken_lines ls = concat (map (\<lambda>l. l @ [newline]) ls)"

lemma asyncReadLines_line:
  assumes "po_reading p" "po_buffer p = l @ newline # rest" "unbroken l"
  shows "asyncReadLines p = Some (trim_right l, p\<lparr>po_buffer := rest\<rparr>)"
proof -
  have nl: "\<forall>c\<in>set l. c \<noteq> newline"
    using assms(3) by (auto simp: unbroken_def)
  then have "takeWhile (\<lambda>c. c \<noteq> newline) (l @ newline # rest) = l"
    "dropWhile (\<lambda>c. c \<noteq> newline) (l @ newline # rest) = newline # rest"
    by (simp_all add: takeWhile_append2 dropWhile_append2)
  then show ?thesis
    using assms(1,2) by (simp add: asyncReadLines_def)
qed

lemma asyncReadLines_none:
  "unbroken (po_buffer p) \<or> \<not> po_reading p \<Longrightarrow> asyncReadLines p = None"
  by (auto simp: asyncReadLines_def unbroken_def)

lemma read_lines_all:
  assumes "po_reading p" "po_buffer p = broken_lines ls @ rest" "\<forall>l\<in>set ls. unbroken l" "unbroken rest"
  shows "read_lines p = (map trim_right ls, p\<lparr>po_buffer := rest\<rparr>)"
  using assms
proof (induction ls arbitrary: p)
  case Nil
  then show ?case
    using asyncReadLines_none [of p] by (subst read_lines.simps) (simp add: broken_lines_def)
next
  case (Cons l ls)
  let ?q = "p\<lparr>po_buffer := broken_lines ls @ rest\<rparr>"
  have "asyncReadLines p = Some (trim_right l, ?q)"
    using Cons.prems by (intro asyncReadLines_line) (simp_all add: broken_lines_def)
  moreover have "read_lines ?q = (map trim_right ls, p\<lparr>po_buffer := rest\<rparr>)"
    using Cons.IH [of ?q] Cons.prems by simp
  ultimately show ?case
    by (subst read_lines.simps) simp
qed

text \<open>Every text is lines and a rest without a break, in one way.\<close>

lemma lines_of_text: "\<exists>ls rest. s = broken_lines ls @ rest \<and> (\<forall>l\<in>set ls. unbroken l) \<and> unbroken rest"
proof (induction "length s" arbitrary: s rule: less_induct)
  case less
  show ?case
  proof (cases "newline \<in> set s")
    case False
    then have "s = broken_lines [] @ s \<and> unbroken s"
      by (simp add: broken_lines_def unbroken_def)
    then show ?thesis
      by fastforce
  next
    case True
    then obtain l t where s: "s = l @ newline # t" "newline \<notin> set l"
      by (meson split_list_first)
    then obtain ls rest where "t = broken_lines ls @ rest" "\<forall>l\<in>set ls. unbroken l" "unbroken rest"
      using less [of t] by auto
    then have "s = broken_lines (l # ls) @ rest" "\<forall>k\<in>set (l # ls). unbroken k" "unbroken rest"
      using s by (simp_all add: broken_lines_def unbroken_def)
    then show ?thesis
      by blast
  qed
qed

lemma broken_lines_append: "broken_lines (ls @ ks) = broken_lines ls @ broken_lines ks"
  by (simp add: broken_lines_def)

lemma broken_lines_Cons: "broken_lines (l # ls) = l @ newline # broken_lines ls"
  by (simp add: broken_lines_def)

lemma first_break:
  assumes "unbroken a" "unbroken b" "a @ newline # x = b @ newline # y"
  shows "a = b \<and> x = y"
  using assms
proof (induction a arbitrary: b)
  case Nil
  then show ?case
    by (cases b) (auto simp: unbroken_def)
next
  case (Cons c a)
  then show ?case
    by (cases b) (auto simp: unbroken_def)
qed

lemma lines_unique:
  assumes "broken_lines ls @ r = broken_lines ks @ t"
    "\<forall>l\<in>set ls. unbroken l" "\<forall>l\<in>set ks. unbroken l" "unbroken r" "unbroken t"
  shows "ls = ks \<and> r = t"
  using assms
proof (induction ls arbitrary: ks)
  case Nil
  then show ?case
    by (cases ks) (auto simp: broken_lines_def unbroken_def)
next
  case (Cons l ls)
  show ?case
  proof (cases ks)
    case Nil
    then show ?thesis
      using Cons.prems by (auto simp: broken_lines_def unbroken_def)
  next
    case (Cons k ks')
    then have "l @ newline # (broken_lines ls @ r) = k @ newline # (broken_lines ks' @ t)"
      using Cons.prems(1) by (simp add: broken_lines_Cons)
    moreover have "unbroken l" "unbroken k"
      using Cons.prems(2,3) \<open>ks = k # ks'\<close> by simp_all
    ultimately have "l = k" "broken_lines ls @ r = broken_lines ks' @ t"
      using first_break by blast+
    then show ?thesis
      using Cons.IH [of ks'] Cons.prems(2-5) \<open>ks = k # ks'\<close> by simp
  qed
qed

text \<open>What a pipe holds back while it reads: the lines that are out and the rest add up to what came.\<close>

lemma pipe_arrives:
  assumes "po_reading p" "unbroken (po_buffer p)"
    and "po_buffer p @ bs = broken_lines ls @ rest" "\<forall>l\<in>set ls. unbroken l" "unbroken rest"
  shows "pipe_step (Arrives bs) p = (map trim_right ls, p\<lparr>po_buffer := rest\<rparr>)"
  using read_lines_all [of "p\<lparr>po_buffer := po_buffer p @ bs\<rparr>" ls rest] assms by simp

definition arrived :: "channel \<Rightarrow> (channel \<times> pipe_event) list \<Rightarrow> string" where
  "arrived c es = concat (map (\<lambda>(d, e). case e of Arrives bs \<Rightarrow> if d = c then bs else [] | Ends \<Rightarrow> []) es)"

definition lines_of :: "channel \<Rightarrow> (channel \<times> string) list \<Rightarrow> string list" where
  "lines_of c out = map snd (filter (\<lambda>l. fst l = c) out)"

lemma output_run_lines:
  assumes "\<forall>e\<in>set es. snd e \<noteq> Ends" "po_reading (ps c)" "unbroken (po_buffer (ps c))"
    and "po_buffer (ps c) @ arrived c es = broken_lines ls @ rest" "\<forall>l\<in>set ls. unbroken l" "unbroken rest"
  shows "lines_of c (fst (output_run es ps)) = map trim_right ls"
  using assms
proof (induction es arbitrary: ps ls rest)
  case Nil
  then have "broken_lines ls @ rest = broken_lines [] @ po_buffer (ps c)"
    by (simp add: arrived_def broken_lines_def)
  then have "ls = []"
    using lines_unique [of ls rest "[]" "po_buffer (ps c)"] Nil.prems by simp
  then show ?case
    by (simp add: lines_of_def)
next
  case (Cons e es)
  obtain d bs where e: "e = (d, Arrives bs)"
    using Cons.prems(1) by (cases e; cases "snd e") auto
  obtain new q where p: "pipe_step (Arrives bs) (ps d) = (new, q)"
    by fastforce
  obtain out ps' where run: "output_run es (ps(d := q)) = (out, ps')"
    by fastforce
  have all: "fst (output_run (e # es) ps) = map (Pair d) new @ out"
    using p run by (simp add: e)
  show ?case
  proof (cases "d = c")
    case False
    then have "lines_of c (fst (output_run es (ps(d := q)))) = map trim_right ls"
      using Cons.prems e by (intro Cons.IH [where rest = rest]) (simp_all add: arrived_def)
    then show ?thesis
      using False all run by (simp add: lines_of_def)
  next
    case True
    obtain ks t where t: "po_buffer (ps c) @ bs = broken_lines ks @ t" "\<forall>l\<in>set ks. unbroken l" "unbroken t"
      using lines_of_text by blast
    have new: "new = map trim_right ks" and q: "q = (ps c)\<lparr>po_buffer := t\<rparr>"
      using pipe_arrives [OF Cons.prems(2,3) t] p True by simp_all
    obtain js u where u: "t @ arrived c es = broken_lines js @ u" "\<forall>l\<in>set js. unbroken l" "unbroken u"
      using lines_of_text by blast
    have "broken_lines ls @ rest = po_buffer (ps c) @ bs @ arrived c es"
      using Cons.prems(4) e True by (simp add: arrived_def)
    also have "\<dots> = broken_lines (ks @ js) @ u"
      unfolding broken_lines_append append_assoc [symmetric] t(1) by (simp add: u(1))
    finally have "ls = ks @ js"
      using lines_unique [of ls rest "ks @ js" u] Cons.prems(5,6) t(2) u(2,3) by auto
    moreover have "lines_of c (fst (output_run es (ps(d := q)))) = map trim_right js"
    proof (rule Cons.IH [where rest = u])
      show "po_buffer ((ps(d := q)) c) @ arrived c es = broken_lines js @ u"
        using True q u(1) by simp
    qed (use Cons.prems(1,2) True q t(3) u(2,3) in simp_all)
    ultimately show ?thesis
      using all new True run by (simp add: lines_of_def o_def)
  qed
qed

text \<open>After its end a pipe gives no more lines; what came after the last break is lost.\<close>

lemma ended_pipe_is_silent: "\<not> po_reading p \<Longrightarrow> fst (pipe_step e p) = [] \<and> \<not> po_reading (snd (pipe_step e p))"
  by (cases e) (simp_all add: read_lines.simps asyncReadLines_none)

section \<open>Property\<close>

text \<open>C14. The slots get every line of the core, once, in order and trimmed, however the bytes of a pipe
  were cut into pieces and however the two pipes were interleaved; what follows the last line break
  is held back.\<close>

theorem output_becomes_lines:
  assumes "\<forall>e\<in>set es. snd e \<noteq> Ends"
    and "arrived c es = broken_lines ls @ rest" "\<forall>l\<in>set ls. unbroken l" "unbroken rest"
  shows "lines_of c (fst (output_run es start_pipes)) = map trim_right ls"
  using assms
  by (intro output_run_lines [where rest = rest]) (simp_all add: start_pipes_def new_pipe_def unbroken_def)

theorem output_becomes_lines_witness:
  "lines_of StdOut (fst (output_run
     [(StdOut, Arrives ''started ser''), (StdErr, Arrives ''note''), (StdOut, Arrives (''ver '' @ [newline] @ ''conn'')),
      (StdErr, Arrives [newline]), (StdOut, Arrives (''ected'' @ [newline] @ ''x''))] start_pipes)) =
   [''started server'', ''connected'']"
proof -
  let ?es = "[(StdOut, Arrives ''started ser''), (StdErr, Arrives ''note''),
    (StdOut, Arrives (''ver '' @ [newline] @ ''conn'')), (StdErr, Arrives [newline]),
    (StdOut, Arrives (''ected'' @ [newline] @ ''x''))]"
  have "lines_of StdOut (fst (output_run ?es start_pipes)) = map trim_right [''started server '', ''connected'']"
    by (rule output_becomes_lines [where rest = "''x''"])
      (simp_all add: arrived_def broken_lines_def unbroken_def newline_def)
  then show ?thesis
    by (simp add: trim_right_def blank_def)
qed

end
