(* ===== verification/LinkIterator.thy ===== *)
theory LinkIterator
  imports Prelude
begin

text \<open>
  The iterator over all links of a screen (\<open>common/ScreenLinks.h\<close>, \<open>ScreenLinks.cpp\<close>), which nothing
  uses and a comment calls broken. The four edges are lists of segments. An iterator is the index of
  its edge and a position in that edge; the end is index four with the end of the last edge. What
  the language leaves undefined is \<open>None\<close>.
\<close>

type_synonym 'a edges = "'a list list"

record link_iter =
  edge_index :: nat
  edge_pos :: nat

definition links_begin :: "'a edges \<Rightarrow> link_iter" where
  "links_begin es = \<lparr>edge_index = 0, edge_pos = 0\<rparr>"

definition links_end :: "'a edges \<Rightarrow> link_iter" where
  "links_end es = \<lparr>edge_index = 4, edge_pos = length (es ! 3)\<rparr>"

definition links_size :: "'a edges \<Rightarrow> nat" where
  "links_size es = sum_list (map length es)"

definition dereference :: "'a edges \<Rightarrow> link_iter \<Rightarrow> 'a option" where
  "dereference es it =
     (if edge_index it < 4 \<and> edge_pos it < length (es ! edge_index it)
      then Some (es ! edge_index it ! edge_pos it) else None)"

text \<open>The loop runs while the position is the end of the edge; it moves to the next edge, never within
  one. The argument counts the edges that are left.\<close>

fun skip_edges :: "nat \<Rightarrow> 'a edges \<Rightarrow> link_iter \<Rightarrow> link_iter" where
  "skip_edges 0 es it = it"
| "skip_edges (Suc n) es it =
     (if edge_pos it = length (es ! edge_index it)
      then (let i = Suc (edge_index it) in
            if i = 4 then \<lparr>edge_index = 4, edge_pos = length (es ! 3)\<rparr>
            else skip_edges n es \<lparr>edge_index = i, edge_pos = 0\<rparr>)
      else it)"

definition increment :: "'a edges \<Rightarrow> link_iter \<Rightarrow> link_iter option" where
  "increment es it = (if edge_index it < 4 then Some (skip_edges (4 - edge_index it) es it) else None)"

text \<open>A range loop: what the body has seen after at most so many rounds, and whether the loop has
  ended, is still running, or went wrong.\<close>

datatype loop_state = Ended | Running | Undefined

fun range_loop :: "nat \<Rightarrow> 'a edges \<Rightarrow> link_iter \<Rightarrow> 'a list \<times> loop_state" where
  "range_loop 0 es it = ([], if it = links_end es then Ended else Running)"
| "range_loop (Suc n) es it =
     (if it = links_end es then ([], Ended)
      else (case dereference es it of
          None \<Rightarrow> ([], Undefined)
        | Some x \<Rightarrow>
            (case increment es it of
               None \<Rightarrow> ([x], Undefined)
             | Some it' \<Rightarrow> (let (xs, r) = range_loop n es it' in (x # xs, r)))))"

section \<open>Facts\<close>

lemma increment_stays:
  assumes "dereference es it = Some x"
  shows "increment es it = Some it"
proof -
  have it: "edge_index it < 4" "edge_pos it \<noteq> length (es ! edge_index it)"
    using assms by (auto simp: dereference_def split: if_splits)
  then obtain n where "4 - edge_index it = Suc n"
    by (cases "4 - edge_index it") auto
  then show ?thesis
    using it by (simp add: increment_def)
qed

text \<open>No loop over links works: with links on the first edge it sees the first of them for ever, and
  without any it reads through the end of the edge at once.\<close>

lemma loop_sees_the_first_for_ever:
  assumes "es ! 0 = x # xs"
  shows "range_loop n es (links_begin es) = (replicate n x, Running)"
proof (induction n)
  case (Suc n)
  have d: "dereference es (links_begin es) = Some x"
    using assms by (simp add: dereference_def links_begin_def)
  have "links_begin es \<noteq> links_end es"
    by (simp add: links_begin_def links_end_def)
  with Suc d show ?case
    by (simp add: increment_stays)
qed (simp add: links_begin_def links_end_def)

lemma loop_reads_through_the_end:
  assumes "es ! 0 = []"
  shows "range_loop (Suc n) es (links_begin es) = ([], Undefined)"
  using assms by (simp add: dereference_def links_begin_def links_end_def)

end
