(* ===== verification/Adapters.thy ===== *)
theory Adapters
  imports CodecV1
begin

text \<open>
  The addresses of this computer: the list of the network interfaces as the service reads it on Unix
  (\<open>service/NetworkAdaptersUnix.cpp\<close>) and on Windows (\<open>NetworkAdaptersWindows.cpp\<close>), and the choice of
  the configuration program (\<open>config/lib/IpManager.cpp\<close>). What the system answers is an input; an
  exception is the left side of a sum.
\<close>

datatype adapter_error = ListFailed | NoInterface | ShortAddress

section \<open>Unix\<close>

text \<open>An interface may have no address. The bytes of an address are in the order of the network.\<close>

datatype sockaddr = NoAddress | Inet bytes | OtherFamily

text \<open>The loop tests for the end after its body, so that a list without an element is dereferenced:
  \<open>NoInterface\<close> stands for that. The map is the list of its entries in the order of the list.\<close>

definition unix_adapters :: "(string \<times> sockaddr) list option \<Rightarrow> adapter_error + (string \<times> u32) list" where
  "unix_adapters answer =
     (case answer of
        None \<Rightarrow> Inl ListFailed
      | Some [] \<Rightarrow> Inl NoInterface
      | Some ifs \<Rightarrow>
          Inr (concat (map (\<lambda>(name, a). case a of Inet bs \<Rightarrow> [(name, of_be32 bs)] | _ \<Rightarrow> []) ifs)))"

section \<open>Windows\<close>

datatype winerror = Success | BufferOverflow | OtherWinError

text \<open>The buffer is a vector of structures of the given size, so its size in bytes is rounded down to a
  multiple. The call answers with a result and the size that is needed. The argument bounds the
  rounds; \<open>None\<close>: still asking.\<close>

fun adapter_query :: "nat \<Rightarrow> nat \<Rightarrow> (nat \<Rightarrow> winerror \<times> nat) \<Rightarrow> nat \<Rightarrow> (winerror \<times> nat) option" where
  "adapter_query 0 unit ask sz = None"
| "adapter_query (Suc n) unit ask sz =
     (let (res, sz') = ask (sz div unit * unit) in
      if res = BufferOverflow then adapter_query n unit ask sz' else Some (res, sz'))"

definition kPreallocation :: nat where "kPreallocation = 16 * 1024"

text \<open>An adapter has a name and a list of addresses, each with its length. The name is moved into the
  map with the first address, so the others get what a move leaves behind.\<close>

definition kSockaddrIn :: nat where "kSockaddrIn = 16"

fun adapter_entries :: "(string \<Rightarrow> string) \<Rightarrow> string \<Rightarrow> (nat \<times> bytes) list \<Rightarrow> adapter_error + (string \<times> u32) list" where
  "adapter_entries moved name [] = Inr []"
| "adapter_entries moved name ((len, bs) # ips) =
     (if len < kSockaddrIn then Inl ShortAddress
      else bindE (adapter_entries moved (moved name) ips) (\<lambda>es. Inr ((name, of_be32 bs) # es)))"

fun all_entries :: "(string \<Rightarrow> string) \<Rightarrow> (string \<times> (nat \<times> bytes) list) list \<Rightarrow> adapter_error + (string \<times> u32) list" where
  "all_entries moved [] = Inr []"
| "all_entries moved ((name, ips) # as) =
     bindE (adapter_entries moved name ips) (\<lambda>es. bindE (all_entries moved as) (\<lambda>fs. Inr (es @ fs)))"

definition windows_adapters ::
  "(string \<Rightarrow> string) \<Rightarrow> nat \<Rightarrow> nat \<Rightarrow> (nat \<Rightarrow> winerror \<times> nat) \<Rightarrow> (string \<times> (nat \<times> bytes) list) list \<Rightarrow>
    (adapter_error + (string \<times> u32) list) option" where
  "windows_adapters moved rounds unit ask adapters =
     map_option
       (\<lambda>(res, sz). if res \<noteq> Success then Inl ListFailed
                      else if adapters = [] then Inl NoInterface else all_entries moved adapters)
       (adapter_query rounds unit ask kPreallocation)"

section \<open>The choice of the configuration program\<close>

record host_address =
  is_ipv4 :: bool
  is_localhost :: bool
  address_text :: string

definition getAllLocalIPAddresses :: "host_address list \<Rightarrow> string list" where
  "getAllLocalIPAddresses as = map address_text (filter (\<lambda>a. is_ipv4 a \<and> \<not> is_localhost a) as)"

definition preferredIPAddress :: "string list" where
  "preferredIPAddress = [''192.168.'', ''10.'', ''172.'']"

definition starts_with :: "string \<Rightarrow> string \<Rightarrow> bool" where
  "starts_with p s \<longleftrightarrow> take (length p) s = p"

fun first_preferred :: "string list \<Rightarrow> string list \<Rightarrow> string" where
  "first_preferred [] addresses = []"
| "first_preferred (p # ps) addresses =
     (case find (starts_with p) addresses of Some a \<Rightarrow> a | None \<Rightarrow> first_preferred ps addresses)"

definition getLocalIPAddresses :: "host_address list \<Rightarrow> string" where
  "getLocalIPAddresses as = first_preferred preferredIPAddress (getAllLocalIPAddresses as)"

section \<open>Facts\<close>

text \<open>What is documented of the call: it fails for want of room exactly when the buffer is smaller than
  what is needed, and then tells how much that is.\<close>

definition asks_for :: "nat \<Rightarrow> (nat \<Rightarrow> winerror \<times> nat) \<Rightarrow> bool" where
  "asks_for need ask \<longleftrightarrow>
     (\<forall>room. if room < need then ask room = (BufferOverflow, need) else fst (ask room) \<noteq> BufferOverflow)"

lemma asks_for_less: "asks_for need ask \<Longrightarrow> room < need \<Longrightarrow> ask room = (BufferOverflow, need)"
  and asks_for_enough: "asks_for need ask \<Longrightarrow> need \<le> room \<Longrightarrow> fst (ask room) \<noteq> BufferOverflow"
  by (auto simp: asks_for_def split: if_splits)

lemma query_stuck:
  assumes "asks_for need ask" "need div unit * unit < need" "sz div unit * unit < need"
  shows "adapter_query n unit ask sz = None"
  using assms(3)
proof (induction n arbitrary: sz)
  case (Suc n)
  have "ask (sz div unit * unit) = (BufferOverflow, need)"
    by (rule asks_for_less [OF assms(1) Suc.prems])
  then show ?case
    using Suc.IH [OF assms(2)] by simp
qed simp

lemma query_enough:
  assumes "asks_for need ask" "need \<le> sz div unit * unit"
  shows "\<exists>res. adapter_query (Suc n) unit ask sz = Some res \<and> fst res \<noteq> BufferOverflow"
  using asks_for_enough [OF assms] by (cases "ask (sz div unit * unit)") auto

text \<open>All the addresses of version 4 and no others are kept, with the bytes in the order of the network.\<close>

lemma unix_adapters_set:
  assumes "unix_adapters (Some ifs) = Inr es"
  shows "set es = {(name, of_be32 bs) | name bs. (name, Inet bs) \<in> set ifs}"
proof -
  have "es = concat (map (\<lambda>(name, a). case a of Inet bs \<Rightarrow> [(name, of_be32 bs)] | _ \<Rightarrow> []) ifs)"
    using assms by (cases ifs) (auto simp: unix_adapters_def)
  then show ?thesis
    by (force split: sockaddr.splits)
qed

lemma find_first_in: "find P xs = Some x \<Longrightarrow> x \<in> set xs \<and> P x"
  by (rule find_SomeD)

lemma first_preferred_cases:
  "first_preferred ps as = [] \<or> (\<exists>p\<in>set ps. first_preferred ps as \<in> set as \<and> starts_with p (first_preferred ps as))"
proof (induction ps)
  case (Cons p ps)
  then show ?case
    by (cases "find (starts_with p) as") (auto dest: find_first_in)
qed simp

lemma local_address_is_local:
  "getLocalIPAddresses as \<noteq> [] \<Longrightarrow>
   \<exists>a\<in>set as. is_ipv4 a \<and> \<not> is_localhost a \<and> address_text a = getLocalIPAddresses as"
  using first_preferred_cases [of preferredIPAddress "getAllLocalIPAddresses as"]
  by (auto simp: getLocalIPAddresses_def getAllLocalIPAddresses_def)

lemma rounded_down: "\<not> unit dvd need \<Longrightarrow> need div unit * unit < (need :: nat)"
  using div_times_less_eq_dividend [of need unit] by (metis dvd_triv_right le_neq_implies_less)

section \<open>Property\<close>

text \<open>C33. When the recommended buffer is too small for the adapters of a Windows computer, the loop that
  asks for them ends only if the size that is needed is a multiple of the size of the structure: the
  vector rounds the buffer down, so with any other size the call fails again, for ever.\<close>

theorem adapter_query_ends:
  assumes "asks_for need ask"
  shows "(\<exists>rounds res. adapter_query rounds unit ask kPreallocation = Some res) \<longleftrightarrow>
    need \<le> kPreallocation div unit * unit \<or> unit dvd need"
proof
  assume "need \<le> kPreallocation div unit * unit \<or> unit dvd need"
  then show "\<exists>rounds res. adapter_query rounds unit ask kPreallocation = Some res"
  proof
    assume "need \<le> kPreallocation div unit * unit"
    then show ?thesis
      using query_enough [OF assms] by blast
  next
    assume "unit dvd need"
    then have "need \<le> need div unit * unit"
      by simp
    then obtain res where res: "adapter_query (Suc 0) unit ask need = Some res"
      using query_enough [OF assms] by blast
    show ?thesis
    proof (cases "kPreallocation div unit * unit < need")
      case True
      then have "adapter_query (Suc (Suc 0)) unit ask kPreallocation = adapter_query (Suc 0) unit ask need"
        by (simp only: adapter_query.simps(2) asks_for_less [OF assms True]) (simp add: Let_def)
      then show ?thesis
        using res by metis
    next
      case False
      then have "need \<le> kPreallocation div unit * unit"
        by simp
      then show ?thesis
        using query_enough [OF assms] by blast
    qed
  qed
next
  assume "\<exists>rounds res. adapter_query rounds unit ask kPreallocation = Some res"
  then obtain rounds res where r: "adapter_query rounds unit ask kPreallocation = Some res"
    by blast
  show "need \<le> kPreallocation div unit * unit \<or> unit dvd need"
  proof (rule ccontr)
    assume "\<not> (need \<le> kPreallocation div unit * unit \<or> unit dvd need)"
    then have "kPreallocation div unit * unit < need" "need div unit * unit < need"
      using rounded_down by simp_all
    then have "adapter_query rounds unit ask kPreallocation = None"
      using query_stuck [OF assms] by blast
    then show False
      using r by simp
  qed
qed

theorem adapter_query_ends_witness:
  "(\<nexists>rounds res. adapter_query rounds 376 (\<lambda>room. if room < 17000 then (BufferOverflow, 17000) else (Success, 17000))
     kPreallocation = Some res)"
proof -
  have "asks_for 17000 (\<lambda>room. if room < 17000 then (BufferOverflow, 17000) else (Success, 17000))"
    by (simp add: asks_for_def)
  from adapter_query_ends [OF this, of 376] show ?thesis
    by (simp add: kPreallocation_def)
qed

end
