(* ===== verification/Startup.thy ===== *)
theory Startup
  imports Service UserConfig
begin

text \<open>
  How the service starts: its directories (\<open>common/DirectoryManager.cpp\<close> and its three platforms), the
  place of its settings (\<open>UserConfig.cpp\<close>), the order of the steps (\<open>service/App.cpp\<close>), the names of
  the servers (\<open>service/CloudClient.cpp\<close>), and the signals that end it
  (\<open>service/TerminationSignalListener.cpp\<close>). What the system answers is given by a record; paths are
  joined and cut by functions of the library.
\<close>

section \<open>Directories\<close>

datatype dir_error = NoHome | NoFolder string | NoExecutable | CannotCreate string

text \<open>\<open>sy_exe\<close> is the link of the process on Linux and the name of the module on Windows.\<close>

record system =
  sy_platform :: platform
  sy_home :: "string option"
  sy_common_appdata :: "string option"
  sy_local_appdata :: "string option"
  sy_exe :: "string option"
  sy_canonical :: "string \<Rightarrow> string"
  sy_complete :: "string \<Rightarrow> string"
  sy_slash :: "string \<Rightarrow> string \<Rightarrow> string"
  sy_parent :: "string \<Rightarrow> string"
  sy_creates :: "string \<Rightarrow> bool"

definition userDir :: "system \<Rightarrow> dir_error + string" where
  "userDir sys = (case sy_home sys of None \<Rightarrow> Inl NoHome | Some h \<Rightarrow> Inr h)"

definition below :: "system \<Rightarrow> string list \<Rightarrow> string \<Rightarrow> string" where
  "below sys names d = fold (\<lambda>n d. sy_slash sys d n) names d"

definition windows_dir :: "system \<Rightarrow> string \<Rightarrow> string option \<Rightarrow> dir_error + string" where
  "windows_dir sys what folder =
     (case folder of None \<Rightarrow> Inl (NoFolder what) | Some d \<Rightarrow> Inr (below sys [''Symless'', ''Synergy''] d))"

definition profile_dir :: "system \<Rightarrow> dir_error + string" where
  "profile_dir sys =
     (case sy_platform sys of
        Linux \<Rightarrow> Inr ''/var/lib/synergy''
      | Windows \<Rightarrow> windows_dir sys ''users'' (sy_local_appdata sys)
      | MacOS \<Rightarrow> bindE (userDir sys) (\<lambda>h. Inr (below sys [''Library'', ''Synergy''] h)))"

definition system_app_dir :: "system \<Rightarrow> dir_error + string" where
  "system_app_dir sys =
     (case sy_platform sys of
        Linux \<Rightarrow> Inr ''/etc/synergy''
      | Windows \<Rightarrow> windows_dir sys ''system'' (sy_common_appdata sys)
      | MacOS \<Rightarrow> profile_dir sys)"

definition system_log_dir :: "system \<Rightarrow> dir_error + string" where
  "system_log_dir sys =
     (case sy_platform sys of
        Linux \<Rightarrow> Inr ''/var/log/synergy''
      | Windows \<Rightarrow> system_app_dir sys
      | MacOS \<Rightarrow> profile_dir sys)"

definition crash_dump_dir :: "system \<Rightarrow> dir_error + string" where
  "crash_dump_dir sys = bindE (profile_dir sys) (\<lambda>d. Inr (sy_slash sys d ''dumps''))"

text \<open>The buffer for the link holds 1024 characters; a link that fills it counts as a failure.\<close>

definition install_dir :: "system \<Rightarrow> string \<Rightarrow> dir_error + string" where
  "install_dir sys argv0 =
     (case sy_platform sys of
        Linux \<Rightarrow>
          (case sy_exe sys of
             None \<Rightarrow> Inl NoExecutable
           | Some p \<Rightarrow> if p = [] \<or> 1024 \<le> length p then Inl NoExecutable
                       else Inr (sy_parent sys (sy_canonical sys p)))
      | Windows \<Rightarrow> Inr (sy_parent sys (case sy_exe sys of None \<Rightarrow> [] | Some p \<Rightarrow> p))
      | MacOS \<Rightarrow> Inr (sy_parent sys (sy_complete sys argv0)))"

fun persist :: "system \<Rightarrow> string list \<Rightarrow> string list \<Rightarrow> dir_error + string list" where
  "persist sys [] there = Inr there"
| "persist sys (d # ds) there =
     (if d \<in> set there then persist sys ds there
      else if sy_creates sys d then persist sys ds (d # there) else Inl (CannotCreate d))"

text \<open>The directories that exist before and after.\<close>

definition init_dirs :: "system \<Rightarrow> string \<Rightarrow> string list \<Rightarrow> dir_error + string list" where
  "init_dirs sys argv0 there =
     bindE (install_dir sys argv0) (\<lambda>_.
     bindE (crash_dump_dir sys) (\<lambda>crash.
     bindE (system_app_dir sys) (\<lambda>app.
     bindE (profile_dir sys) (\<lambda>prof.
     bindE (system_log_dir sys) (\<lambda>log.
       persist sys [crash, app, prof, log] there)))))"

section \<open>Names\<close>

definition kUserConfigFilename :: string where
  "kUserConfigFilename = ''synergy-user.cfg''"

definition defaultFilePath :: "system \<Rightarrow> dir_error + string" where
  "defaultFilePath sys =
     bindE (if sy_platform sys = Windows then system_app_dir sys else profile_dir sys)
       (\<lambda>d. Inr (sy_slash sys d kUserConfigFilename))"

definition kGlobalConfigFilename :: string where
  "kGlobalConfigFilename = ''synergy-system.cfg''"

definition global_config_path :: "system \<Rightarrow> dir_error + string" where
  "global_config_path sys = bindE (system_app_dir sys) (\<lambda>d. Inr (sy_slash sys d kGlobalConfigFilename))"

definition pubSubServerHostname :: "string list \<Rightarrow> string" where
  "pubSubServerHostname options =
     (if ''use-test-cloud'' \<in> set options then ''test-pubsub.cloud.symless.com'' else ''pubsub1.cloud.symless.com'')"

definition cloudServerHostname :: "string list \<Rightarrow> string" where
  "cloudServerHostname options =
     (if ''use-test-cloud'' \<in> set options then ''test-api.cloud.symless.com'' else ''v1.api.cloud.symless.com'')"

section \<open>Starting\<close>

text \<open>A result of the program, an exception that leaves it, or the service that runs. A failure of the
  crash handler is logged only.\<close>

datatype 's launch = Returns nat | Leaves "dir_error + (config_error + service_end)" | Runs 's

definition service_run ::
  "system \<Rightarrow> ('f \<Rightarrow> toml option) \<Rightarrow> (string \<Rightarrow> 'f option) \<Rightarrow> world \<Rightarrow> luck \<Rightarrow> string list \<Rightarrow> string \<Rightarrow> string list \<Rightarrow>
    service launch" where
  "service_run sys parse files w luck options argv0 there =
     (if ''help'' \<in> set options then Returns 0
      else case init_dirs sys argv0 there of
        Inl e \<Rightarrow> Returns 1
      | Inr there \<Rightarrow>
          (case defaultFilePath sys of
             Inl e \<Rightarrow> Leaves (Inl e)
           | Inr file \<Rightarrow>
               (case load_path parse (files file) new_user_config of
                  (Some e, u) \<Rightarrow> Leaves (Inr (Inl e))
                | (None, u) \<Rightarrow>
                    (case init_service w luck u of
                       (Some e, s) \<Rightarrow> Leaves (Inr (Inr e))
                     | (None, s) \<Rightarrow> Runs s))))"

text \<open>The end of the worker: its destructor saves the settings, which signals the change once more. The
  file is emptied and written; one that cannot be opened is silently left as it is. An error of
  the place of the settings ends the program.\<close>

definition worker_destroyed ::
  "system \<Rightarrow> (toml \<Rightarrow> 'f) \<Rightarrow> (string \<Rightarrow> bool) \<Rightarrow> world \<Rightarrow> luck \<Rightarrow> (string \<Rightarrow> 'f option) \<Rightarrow> service \<Rightarrow>
    (dir_error + service_end option) \<times> (string \<Rightarrow> 'f option)" where
  "worker_destroyed sys print opens w luck files s =
     (case defaultFilePath sys of
        Inl e \<Rightarrow> (Inl e, files)
      | Inr file \<Rightarrow>
          (Inr (fst (save_settings w luck s)),
           if opens file then files(file \<mapsto> save print (sv_user s)) else files))"

section \<open>Signals\<close>

text \<open>The wait for a signal is started once. The handler is called for the signals it waits for, and
  not when the wait was cancelled.\<close>

datatype os_signal = SigTerm | SigInt | SigQuit | OtherSignal

definition terminates :: "bool \<Rightarrow> os_signal \<Rightarrow> bool" where
  "terminates has_quit n \<longleftrightarrow> n = SigInt \<or> n = SigTerm \<or> (has_quit \<and> n = SigQuit)"

definition on_signal :: "bool \<Rightarrow> bool \<Rightarrow> os_signal \<Rightarrow> bool \<Rightarrow> bool \<times> bool" where
  "on_signal has_quit aborted n waiting =
     (if \<not> waiting then (False, False) else (\<not> aborted \<and> terminates has_quit n, False))"

fun signal_run :: "bool \<Rightarrow> (bool \<times> os_signal) list \<Rightarrow> bool \<Rightarrow> nat" where
  "signal_run has_quit [] waiting = 0"
| "signal_run has_quit ((aborted, n) # ns) waiting =
     (let (called, waiting) = on_signal has_quit aborted n waiting
      in (if called then 1 else 0) + signal_run has_quit ns waiting)"

section \<open>Facts\<close>

lemma persist_all:
  "persist sys ds there = Inr there' \<Longrightarrow> set ds \<union> set there \<subseteq> set there'"
  by (induction sys ds there rule: persist.induct) (auto split: if_splits)

text \<open>When the directories were set up, every directory the programs use is there.\<close>

lemma init_dirs_persist:
  assumes "init_dirs sys argv0 there = Inr there'"
  shows "\<exists>crash app prof log. crash_dump_dir sys = Inr crash \<and> system_app_dir sys = Inr app \<and>
    profile_dir sys = Inr prof \<and> system_log_dir sys = Inr log \<and> {crash, app, prof, log} \<subseteq> set there'"
  using assms by (auto simp: init_dirs_def bindE_Inr_iff simp del: persist.simps dest!: persist_all)

lemma settings_path_known:
  assumes "init_dirs sys argv0 there = Inr there'"
  shows "\<exists>p. defaultFilePath sys = Inr p"
  using init_dirs_persist [OF assms] by (auto simp: defaultFilePath_def)

text \<open>Only the first signal is handled: a second one finds no wait.\<close>

lemma one_signal_only: "signal_run has_quit ns waiting \<le> 1"
proof (cases ns)
  case (Cons n ns')
  have idle: "signal_run has_quit ms False = 0" for ms
    by (induction ms) (auto simp: on_signal_def)
  show ?thesis
    by (cases n) (simp add: Cons on_signal_def idle)
qed simp

end
