(* ===== verification/Startup_Props.thy ===== *)
theory Startup_Props
  imports Startup Websocket_Props
begin

text \<open>
  A service that is started again comes back with the login that was saved: the place of the settings,
  their reading, the constructor of the worker and the first connection of the websocket together.
\<close>

lemma setProxy_none: "\<exists>b l1. link_setProxy to_port ''http'' '''' l = Some (b, l1)"
  by (cases "([], 80) = cloud_proxy (l_cloud l)") (auto simp: link_setProxy_def cloud_setProxy_def Let_def)

text \<open>Loading settings with a login into a client that has none connects it with that login, through
  the proxy of the settings.\<close>

lemma first_load:
  assumes "link_setProxy to_port ''http'' (httpProxy c) new_cloud_link = Some (b, l1)" "profileId c \<noteq> -1"
  shows "\<exists>l. cloud_load to_port ver resolved rnd c new_cloud_link = Some l \<and>
    login_set c (l_ws l) \<and> busy (l_ws l) \<and> l_cloud l = l_cloud l1"
proof -
  note l1 = assms(1)
  note k = link_setProxy_keeps [OF l1]
  have off: "\<not> ws_connected (l_ws l1)"
    using k by (simp add: new_cloud_link_def new_websocket_def)
  have old: "sint (l_lastProfileId l1) = -1"
    using k by (simp add: new_cloud_link_def)
  obtain l where l: "cloud_load to_port ver resolved rnd c new_cloud_link = Some l"
    by (simp add: cloud_load_def l1)
  then have w: "l_ws l = (if \<not> ws_connected (l_ws l1)
      then ws_connect resolved rnd kSubTarget (login_headers ver c (l_ws l1))
      else ws_reconnect False rnd (login_headers ver c (l_ws l1)))" and p: "l_cloud l = l_cloud l1"
    using assms(2) old by (auto simp: cloud_load_def l1 Let_def login_headers_props)
  then have "login_set c (l_ws l)"
    using start_with_login [of "l_ws l1" "l_ws l" resolved rnd ver c] off by simp
  moreover have "busy (l_ws l)"
    using w off ws_connect_ok by simp
  ultimately show ?thesis
    using l p by blast
qed

text \<open>The worker is set up, on Linux with the user of the core program.\<close>

lemma init_service_login:
  assumes "link_setProxy (w_to_port w) ''http'' (httpProxy u) new_cloud_link = Some (b, l1)" "profileId u \<noteq> -1"
  shows "\<exists>s. init_service w luck u = (None, s) \<and> sv_user s = u \<and>
    login_set u (l_ws (sv_link s)) \<and> busy (l_ws (sv_link s)) \<and> l_cloud (sv_link s) = l_cloud l1 \<and>
    (platform (w_env w) = Linux \<longrightarrow> runAsUid (command (sv_core s)) = systemUid u)"
proof -
  obtain l where l: "cloud_load (w_to_port w) (w_version w) (fst luck) (snd luck) u new_cloud_link = Some l"
      "login_set u (l_ws l)" "busy (l_ws l)" "l_cloud l = l_cloud l1"
    using first_load [OF assms] by blast
  have "set_run_as_uid env spawns uid (init_core u) =
      (None, (init_core u)\<lparr>command := snd (setRunAsUid uid init_process_command)\<rparr>)" for env spawns uid
    by (simp add: set_run_as_uid_def setRunAsUid_def restart_core_def init_core_def ok_def)
  then show ?thesis
    using l by (simp add: init_service_def Let_def on_core_def sthen_def sdone_def init_core_def
        setRunAsUid_def init_process_command_def)
qed

text \<open>C16. A restart restores the login: when a service with a login has ended, its settings could be
  written, the library reads what it prints, the directories can be set up again, and a port in the
  saved proxy is one that can be read (no proxy is fine), the service that is started next, with any
  option but help, runs with exactly the settings of the first one (the version check aside, which is
  only saved with a developer section); it is connecting to the channel of the saved profile with the
  saved token, its requests go through the saved proxy, and on Linux it starts core programs as the
  saved user.\<close>

theorem restart_restores_the_login:
  assumes "\<And>doc. parse (print doc) = Some doc"
    and "worker_destroyed sys print opens w0 luck0 files0 s0 = (r, files)"
    and "init_dirs sys argv0 there = Inr there'" "\<And>file. defaultFilePath sys = Inr file \<Longrightarrow> opens file"
    and "''help'' \<notin> set options" "profileId (sv_user s0) \<noteq> -1"
    and "link_setProxy (w_to_port w) ''http'' (httpProxy (sv_user s0)) new_cloud_link = Some (b, through)"
  shows "\<exists>s. service_run sys parse files w luck options argv0 there = Runs s \<and>
    sv_user s = (sv_user s0)\<lparr>versionCheck := (hasDeveloperConfig (sv_user s0) \<longrightarrow> versionCheck (sv_user s0))\<rparr> \<and>
    login_set (sv_user s0) (l_ws (sv_link s)) \<and> busy (l_ws (sv_link s)) \<and>
    l_cloud (sv_link s) = l_cloud through \<and>
    (platform (w_env w) = Linux \<longrightarrow> runAsUid (command (sv_core s)) = systemUid (sv_user s0))"
proof -
  let ?u = "sv_user s0"
  obtain p where p: "defaultFilePath sys = Inr p"
    using settings_path_known [OF assms(3)] by blast
  with assms(2,4) have saved: "files p = Some (save print ?u)"
    by (auto simp: worker_destroyed_def)
  define u' where "u' = ?u\<lparr>versionCheck := (hasDeveloperConfig ?u \<longrightarrow> versionCheck ?u)\<rparr>"
  have "httpProxy new_user_config = ''''" "versionCheck new_user_config"
    by (simp_all add: new_user_config_def reset_config_def)
  then have u': "load_path parse (files p) new_user_config = (None, u')"
    by (cases "httpProxy ?u = ''''")
       (simp_all add: saved load_path_def load_saved [of parse print, OF assms(1)] u'_def)
  have "link_setProxy (w_to_port w) ''http'' (httpProxy u') new_cloud_link = Some (b, through)" "profileId u' \<noteq> -1"
    using assms(6,7) by (simp_all add: u'_def)
  from init_service_login [OF this, of luck]
  obtain s where s: "init_service w luck u' = (None, s)" "sv_user s = u'" "login_set u' (l_ws (sv_link s))"
      "busy (l_ws (sv_link s))" "l_cloud (sv_link s) = l_cloud through"
      "platform (w_env w) = Linux \<longrightarrow> runAsUid (command (sv_core s)) = systemUid u'"
    by blast
  have "service_run sys parse files w luck options argv0 there = Runs s"
    using assms(5) by (simp add: service_run_def assms(3) p u' s(1))
  moreover have "login_set ?u (l_ws (sv_link s))" "systemUid u' = systemUid ?u"
    using s(3) by (simp_all add: login_set_def u'_def)
  ultimately show ?thesis
    using s u'_def by metis
qed

definition linux_system :: system where
  "linux_system =
     \<lparr>sy_platform = Linux, sy_home = None, sy_common_appdata = None, sy_local_appdata = None,
      sy_exe = Some ''/usr/bin/synergy-service'', sy_canonical = (\<lambda>p. p), sy_complete = (\<lambda>p. p),
      sy_slash = (\<lambda>a b. a @ ''/'' @ b), sy_parent = (\<lambda>p. ''/usr/bin''), sy_creates = (\<lambda>p. True)\<rparr>"

definition plain_world :: world where
  "plain_world =
     \<lparr>w_env = \<lparr>platform = Linux, profileDir = ''/var/lib/synergy'', installDir = ''/usr/bin'',
               systemLogDir = ''/var/log/synergy'', slash = (\<lambda>a b. a @ ''/'' @ b), parent_path = (\<lambda>x. x)\<rparr>,
      w_spawns = (\<lambda>_. True), w_to_port = (\<lambda>t. if t = ''3128'' then Some 3128 else None), w_version = ''2.0'',
      w_parse_ip = (\<lambda>a. None), w_parse_json = (\<lambda>_. None)\<rparr>"

definition saved_login :: user_config where
  "saved_login = new_user_config\<lparr>userToken := ''t'', userId := 4, profileId := 3, screenId := 9,
     systemUid := ''1000'', httpProxy := ''proxy:3128''\<rparr>"

definition logged_in :: service where
  "logged_in = snd (init_service plain_world (True, 0) saved_login)"

theorem restart_restores_the_login_witness:
  "\<exists>s. service_run linux_system Some
      (snd (worker_destroyed linux_system (\<lambda>doc. doc) (\<lambda>_. True) plain_world (True, 0) (\<lambda>_. None) logged_in))
      plain_world (True, 0) [] ''synergy-service'' [] = Runs s \<and>
    screenId (sv_user s) = 9 \<and> login_set (sv_user logged_in) (l_ws (sv_link s)) \<and> busy (l_ws (sv_link s)) \<and>
    cloud_proxy (l_cloud (sv_link s)) = (''proxy'', 3128) \<and> runAsUid (command (sv_core s)) = ''1000''"
proof -
  have "isl (init_dirs linux_system ''synergy-service'' []) = False"
    by code_simp
  then obtain there where dirs: "init_dirs linux_system ''synergy-service'' [] = Inr there"
    by (cases "init_dirs linux_system ''synergy-service'' []") auto
  have "map_option (cloud_proxy \<circ> l_cloud \<circ> snd)
      (link_setProxy (w_to_port plain_world) ''http'' (httpProxy saved_login) new_cloud_link) = Some (''proxy'', 3128)"
    by code_simp
  then obtain b through where proxy:
    "link_setProxy (w_to_port plain_world) ''http'' (httpProxy saved_login) new_cloud_link = Some (b, through)"
    "cloud_proxy (l_cloud through) = (''proxy'', 3128)"
    by auto
  have fields: "profileId saved_login = 3" "screenId saved_login = 9" "systemUid saved_login = ''1000''"
    "platform (w_env plain_world) = Linux"
    by (simp_all add: saved_login_def plain_world_def)
  then have u: "sv_user logged_in = saved_login"
    using init_service_login [OF proxy(1), of "(True, 0)"] by (auto simp: logged_in_def)
  show ?thesis
    using restart_restores_the_login [of Some "\<lambda>doc. doc" linux_system "\<lambda>_. True" plain_world "(True, 0)" "\<lambda>_. None"
        logged_in _ _ "''synergy-service''" "[]" there "[]" plain_world b through "(True, 0)", OF _ surjective_pairing dirs]
      proxy fields unfolding u by auto
qed

end
