(* ===== verification/Logs.thy ===== *)
theory Logs
  imports CoreOutput ProcessCommand
begin

text \<open>
  Where the log lines of the service and of the tray go (\<open>service/ServiceLogs.cpp\<close>): five loggers with their sinks, the
  signal through which the worker forwards lines to the configuration program, and the calls that
  bring lines of the other programs (\<open>service/ServiceWorker.cpp\<close>); the two loggers of the tray (\<open>tray/Controls.cpp\<close>,
  \<open>common/RpcLogSink.cpp\<close>). The time and the level, which the
  library writes into a line, are left out; the rotation of the files is the library's.
\<close>

datatype logger = ServiceLog | CoreLog | RouterLog | ConfigLog | TrayLog

datatype sink = LogFile string | Console | SignalSink

definition combinedLogSink :: sink where
  "combinedLogSink = LogFile ''synergy-combined.log''"

definition initServiceLog :: "sink list" where
  "initServiceLog = [combinedLogSink, Console, LogFile ''synergy-service.log'', SignalSink]"

definition initCoreLog :: "sink list" where
  "initCoreLog = [combinedLogSink, Console]"

definition initRouterLog :: "sink list" where
  "initRouterLog = [combinedLogSink, Console, LogFile ''synergy-router.log'', SignalSink]"

definition initConfigLog :: "sink list" where
  "initConfigLog = [combinedLogSink, Console, LogFile ''synergy-config.log'']"

definition initTrayLog :: "sink list" where
  "initTrayLog = [combinedLogSink, Console]"

fun sinks_of :: "logger \<Rightarrow> sink list" where
  "sinks_of ServiceLog = initServiceLog"
| "sinks_of CoreLog = initCoreLog"
| "sinks_of RouterLog = initRouterLog"
| "sinks_of ConfigLog = initConfigLog"
| "sinks_of TrayLog = initTrayLog"

text \<open>\<open>lg_sender\<close> is the connection of the worker to the signal.\<close>

record log_state =
  lg_sender :: bool
  lg_written :: "(sink \<times> string) list"
  lg_published :: "string list"

definition write_plain :: "string \<Rightarrow> sink \<Rightarrow> log_state \<Rightarrow> log_state" where
  "write_plain line snk s = (if snk = SignalSink then s else s\<lparr>lg_written := lg_written s @ [(snk, line)]\<rparr>)"

text \<open>A line that cannot be published cuts the connection before the error is logged, so that the error
  itself is not forwarded.\<close>

definition send_failed :: "log_state \<Rightarrow> log_state" where
  "send_failed s =
     fold (write_plain ''failed to send log to config ui'') (sinks_of ServiceLog) (s\<lparr>lg_sender := False\<rparr>)"

definition on_log_line :: "(string \<Rightarrow> bool) \<Rightarrow> string \<Rightarrow> log_state \<Rightarrow> log_state" where
  "on_log_line posts line s =
     (if \<not> lg_sender s then s
      else if posts line then s\<lparr>lg_published := lg_published s @ [line]\<rparr> else send_failed s)"

definition write_sink :: "(string \<Rightarrow> bool) \<Rightarrow> string \<Rightarrow> sink \<Rightarrow> log_state \<Rightarrow> log_state" where
  "write_sink posts line snk s =
     (if snk = SignalSink then on_log_line posts line s else write_plain line snk s)"

definition log_line :: "(string \<Rightarrow> bool) \<Rightarrow> logger \<Rightarrow> string \<Rightarrow> log_state \<Rightarrow> log_state" where
  "log_line posts l line s = fold (write_sink posts line) (sinks_of l) s"

text \<open>The calls of the other programs, and the connection when the RPC server is ready.\<close>

definition rpc_log_tray :: "(string \<Rightarrow> bool) \<Rightarrow> string \<Rightarrow> log_state \<Rightarrow> log_state" where
  "rpc_log_tray posts line = log_line posts TrayLog (trim_right line)"

definition rpc_log_config :: "(string \<Rightarrow> bool) \<Rightarrow> string \<Rightarrow> log_state \<Rightarrow> log_state" where
  "rpc_log_config posts line = log_line posts ConfigLog line"

definition rpc_ready :: "log_state \<Rightarrow> log_state" where
  "rpc_ready s = s\<lparr>lg_sender := True\<rparr>"

section \<open>The tray\<close>

datatype tray_sink = TrayFile string | TrayNull | TrayRpc string

text \<open>A file that cannot be opened, because another tray has it or there is no directory for it, is
  replaced by nothing.\<close>

definition initlogFileSink :: "('e + string) \<Rightarrow> (string \<Rightarrow> string \<Rightarrow> string) \<Rightarrow> (string \<Rightarrow> bool) \<Rightarrow> tray_sink" where
  "initlogFileSink dir joins opens =
     (case dir of
        Inl e \<Rightarrow> TrayNull
      | Inr d \<Rightarrow> (let file = joins d ''synergy-tray.log'' in if opens file then TrayFile file else TrayNull))"

definition fileLogger :: "tray_sink \<Rightarrow> tray_sink list" where
  "fileLogger file = [file]"

definition rpc_log_sink :: "string \<Rightarrow> tray_sink" where
  "rpc_log_sink name = TrayRpc (''synergy.log.'' @ name)"

definition rpcLogger :: "tray_sink \<Rightarrow> tray_sink list" where
  "rpcLogger file = [file, rpc_log_sink ''tray'']"

text \<open>What one line becomes: lines of files, and calls, which are made only while there is a connection.\<close>

fun tray_sink_log :: "bool \<Rightarrow> string \<Rightarrow> tray_sink \<Rightarrow> (string \<times> string) list \<times> (string \<times> string) list" where
  "tray_sink_log up line (TrayFile file) = ([(file, line)], [])"
| "tray_sink_log up line TrayNull = ([], [])"
| "tray_sink_log up line (TrayRpc name) = ([], if up then [(name, line)] else [])"

definition tray_log :: "bool \<Rightarrow> string \<Rightarrow> tray_sink list \<Rightarrow> (string \<times> string) list \<times> (string \<times> string) list" where
  "tray_log up line ss =
     (concat (map (fst \<circ> tray_sink_log up line) ss), concat (map (snd \<circ> tray_sink_log up line) ss))"

section \<open>Facts\<close>

text \<open>With a connection the logger of the tray sends every line to the service, whatever became of the
  file; without one it writes to the file alone.\<close>

lemma tray_line_sent:
  "snd (tray_log up line (rpcLogger (initlogFileSink dir joins opens))) =
    (if up then [(''synergy.log.tray'', line)] else [])"
  "snd (tray_log up line (fileLogger (initlogFileSink dir joins opens))) = []"
  by (simp_all add: tray_log_def rpcLogger_def fileLogger_def rpc_log_sink_def initlogFileSink_def Let_def
      split: sum.split)

lemma tray_line_written:
  "fst (tray_log up line (rpcLogger file)) = fst (tray_log up line (fileLogger file))"
  by (simp add: tray_log_def rpcLogger_def fileLogger_def rpc_log_sink_def)


lemma write_plain_fields [simp]:
  "lg_sender (write_plain line snk s) = lg_sender s" "lg_published (write_plain line snk s) = lg_published s"
  by (simp_all add: write_plain_def)

lemma fold_plain_fields [simp]:
  "lg_sender (fold (write_plain line) ss s) = lg_sender s"
  "lg_published (fold (write_plain line) ss s) = lg_published s"
  by (induction ss arbitrary: s) simp_all

text \<open>Lines that came from the configuration program or the tray are never sent back to it.\<close>

lemma no_echo: "lg_published (rpc_log_tray posts line s) = lg_published s"
  "lg_published (rpc_log_config posts line s) = lg_published s"
  by (simp_all add: rpc_log_tray_def rpc_log_config_def log_line_def write_sink_def initTrayLog_def initConfigLog_def
      combinedLogSink_def)

text \<open>Every line of the service and of the router is published while the connection stands; once a line
  cannot be sent, none is any more.\<close>

lemma forwarded:
  assumes "lg_sender s" "posts line" "l = ServiceLog \<or> l = RouterLog"
  shows "lg_published (log_line posts l line s) = lg_published s @ [line] \<and> lg_sender (log_line posts l line s)"
  using assms
  by (auto simp: log_line_def write_sink_def on_log_line_def initServiceLog_def initRouterLog_def combinedLogSink_def)

lemma cut_off:
  assumes "lg_sender s \<longrightarrow> \<not> posts line" "SignalSink \<in> set (sinks_of l)"
  shows "lg_published (log_line posts l line s) = lg_published s \<and> \<not> lg_sender (log_line posts l line s)"
  using assms
  by (cases l) (auto simp: log_line_def write_sink_def on_log_line_def send_failed_def initServiceLog_def initCoreLog_def
      initRouterLog_def initConfigLog_def initTrayLog_def combinedLogSink_def)

text \<open>The combined file gets every line of every logger.\<close>

lemma combined_gets_all: "combinedLogSink \<in> set (sinks_of l)"
  by (cases l) (simp_all add: initServiceLog_def initCoreLog_def initRouterLog_def initConfigLog_def initTrayLog_def)

end
