(* ===== verification/SocketOpts.thy ===== *)
theory SocketOpts
  imports ProcessCommand
begin

text \<open>
  The options of the sockets: how soon a dead connection is noticed (\<open>common/SocketOptions.hpp\<close> and
  \<open>service/WebsocketSession.cpp\<close>), and that a child process does not inherit a socket. Each call of
  the system succeeds or fails; the calls are listed in their order.
\<close>

datatype sock_opt = KeepAlive | KeepIdle int | KeepInterval int | KeepCount int | WinKeepAlive int int

text \<open>All options are tried; the result says whether all were set. Windows takes milliseconds and always
  sends ten probes.\<close>

definition keep_alive_calls :: "platform \<Rightarrow> int \<Rightarrow> int \<Rightarrow> int \<Rightarrow> sock_opt list" where
  "keep_alive_calls pf idle interval count =
     KeepAlive #
     (if pf = Windows then [WinKeepAlive (1000 * idle) (100 * interval * count)]
      else [KeepIdle idle, KeepInterval interval, KeepCount count])"

definition set_tcp_keep_alive_options ::
  "platform \<Rightarrow> (sock_opt \<Rightarrow> bool) \<Rightarrow> int \<Rightarrow> int \<Rightarrow> int \<Rightarrow> sock_opt list \<times> bool" where
  "set_tcp_keep_alive_options pf sets idle interval count =
     (let calls = keep_alive_calls pf idle interval count in (calls, list_all sets calls))"

text \<open>The websocket stops at the first option that cannot be set.\<close>

definition kTcpKeepAliveIdleSec :: int where "kTcpKeepAliveIdleSec = 5"
definition kTcpKeepAliveIntervalSec :: int where "kTcpKeepAliveIntervalSec = 1"
definition kTcpKeepAliveCount :: int where "kTcpKeepAliveCount = 2"

fun until_failure :: "(sock_opt \<Rightarrow> bool) \<Rightarrow> sock_opt list \<Rightarrow> sock_opt list" where
  "until_failure sets [] = []"
| "until_failure sets (c # cs) = c # (if sets c then until_failure sets cs else [])"

definition setTcpKeepAliveTimeout :: "platform \<Rightarrow> (sock_opt \<Rightarrow> bool) \<Rightarrow> sock_opt list" where
  "setTcpKeepAliveTimeout pf sets =
     until_failure sets
       (KeepAlive #
        (if pf = Windows then [WinKeepAlive (kTcpKeepAliveIdleSec * 1000) (kTcpKeepAliveIntervalSec * 1000)]
         else [KeepIdle kTcpKeepAliveIdleSec, KeepInterval kTcpKeepAliveIntervalSec, KeepCount kTcpKeepAliveCount]))"

text \<open>The flags of the descriptor are read and written back with the flag for \<open>exec\<close>. The result is
  whether it worked, and the flags that were written.\<close>

definition FD_CLOEXEC :: u32 where "FD_CLOEXEC = 1"

definition set_socket_to_close_on_exec :: "platform \<Rightarrow> u32 option \<Rightarrow> (u32 \<Rightarrow> bool) \<Rightarrow> bool \<times> u32 option" where
  "set_socket_to_close_on_exec pf flags sets =
     (if pf = Windows then (True, None)
      else case flags of
          None \<Rightarrow> (False, None)
        | Some f \<Rightarrow> (let f = or f FD_CLOEXEC in (sets f, Some f)))"

section \<open>Facts\<close>

text \<open>The time in milliseconds after which a dead peer is given up: the idle time and the probes.\<close>

fun gives_up_after :: "sock_opt list \<Rightarrow> int" where
  "gives_up_after [KeepAlive, WinKeepAlive idle interval] = idle + 10 * interval"
| "gives_up_after [KeepAlive, KeepIdle idle, KeepInterval interval, KeepCount count] =
     1000 * idle + 1000 * interval * count"
| "gives_up_after _ = 0"

text \<open>The common options give up after the same time on every platform; the websocket, which sets the
  interval of the other platforms on Windows too, waits for fifteen seconds there instead of seven.\<close>

lemma same_time_everywhere:
  "gives_up_after (keep_alive_calls pf idle interval count) = 1000 * idle + 1000 * interval * count"
  by (simp add: keep_alive_calls_def)

lemma websocket_time:
  "gives_up_after (setTcpKeepAliveTimeout pf (\<lambda>_. True)) = (if pf = Windows then 15000 else 7000)"
  by (simp add: setTcpKeepAliveTimeout_def kTcpKeepAliveIdleSec_def kTcpKeepAliveIntervalSec_def kTcpKeepAliveCount_def)

text \<open>The flag is set and no other is touched.\<close>

lemma closes_on_exec:
  assumes "set_socket_to_close_on_exec pf (Some f) sets = (ok, Some f')"
  shows "bit f' 0 \<and> (\<forall>n>0. bit f' n = bit f n)"
  using assms by (auto simp: set_socket_to_close_on_exec_def FD_CLOEXEC_def bit_or_iff bit_1_iff Let_def split: if_splits)

end
