(* ===== verification/Listening.thy ===== *)
theory Listening
  imports SocketOpts
begin

text \<open>
  How the service begins to listen: the constructors of the router (\<open>router/Router.cpp\<close>) and of the
  server proxy (\<open>router/ServerProxy.cpp\<close>), and the sizes of the buffers (\<open>router/utils/tcp.hpp\<close>). The
  calls of the system succeed or fail; they are listed in their order, with what is logged. A call
  that must succeed ends the constructor by an exception when it fails.
\<close>

datatype listen_call =
    CertificateOptions | CertificateChain | PrivateKey | DHParameters | PasswordCallback
  | OpenSocket | ReuseAddress | CloseOnExec | BindTo string u16
  | ReceiveBuffer nat | SendBuffer nat | StartListening

datatype listen_log =
    NotCloseOnExec | Binding string u16 | BuffersNotRestricted | Initialized | NotInitialized

datatype listen_step = Must listen_call | Attempt listen_call "listen_log option" | Say listen_log

text \<open>The calls that were made, what was logged, and whether no exception was thrown.\<close>

fun perform :: "(listen_call \<Rightarrow> bool) \<Rightarrow> listen_step list \<Rightarrow> listen_call list \<times> listen_log list \<times> bool" where
  "perform works [] = ([], [], True)"
| "perform works (Must c # ss) =
     (if works c then (let (cs, ls, fine) = perform works ss in (c # cs, ls, fine)) else ([c], [], False))"
| "perform works (Attempt c l # ss) =
     (let (cs, ls, fine) = perform works ss
      in (c # cs, (case l of Some x \<Rightarrow> if works c then [] else [x] | None \<Rightarrow> []) @ ls, fine))"
| "perform works (Say l # ss) = (let (cs, ls, fine) = perform works ss in (cs, l # ls, fine))"

text \<open>Both calls write to the same error code, so that only the second one is looked at.\<close>

definition restrict_tcp_socket_buffer_sizes :: "listen_step list" where
  "restrict_tcp_socket_buffer_sizes =
     [Attempt (ReceiveBuffer (64 * 1024)) None,
      Attempt (SendBuffer (64 * 1024)) (Some BuffersNotRestricted)]"

definition loadRawCertificate :: "listen_step list" where
  "loadRawCertificate =
     [Must CertificateOptions, Must CertificateChain, Must PrivateKey, Must DHParameters,
      Must PasswordCallback]"

definition router_steps :: "u16 \<Rightarrow> listen_step list" where
  "router_steps port =
     loadRawCertificate @
     [Must OpenSocket, Must ReuseAddress, Attempt CloseOnExec (Some NotCloseOnExec),
      Say (Binding ''0.0.0.0'' port), Must (BindTo ''0.0.0.0'' port)] @
     restrict_tcp_socket_buffer_sizes @
     [Must StartListening, Say Initialized]"

text \<open>Any failure is logged before the exception goes on.\<close>

definition open_router :: "(listen_call \<Rightarrow> bool) \<Rightarrow> u16 \<Rightarrow> listen_call list \<times> listen_log list \<times> bool" where
  "open_router works port =
     (let (cs, ls, fine) = perform works (router_steps port)
      in (cs, if fine then ls else ls @ [NotInitialized], fine))"

definition server_proxy_steps :: "u16 \<Rightarrow> listen_step list" where
  "server_proxy_steps port =
     [Must OpenSocket, Attempt CloseOnExec (Some NotCloseOnExec), Must ReuseAddress,
      Must (BindTo ''127.0.0.1'' port)] @
     restrict_tcp_socket_buffer_sizes @
     [Must StartListening]"

definition open_server_proxy :: "(listen_call \<Rightarrow> bool) \<Rightarrow> u16 \<Rightarrow> listen_call list \<times> listen_log list \<times> bool" where
  "open_server_proxy works port = perform works (server_proxy_steps port)"

section \<open>Facts\<close>

fun step_calls :: "listen_step list \<Rightarrow> listen_call list" where
  "step_calls [] = []"
| "step_calls (Must c # ss) = c # step_calls ss"
| "step_calls (Attempt c l # ss) = c # step_calls ss"
| "step_calls (Say l # ss) = step_calls ss"

lemma perform_fine: "snd (snd (perform works ss)) \<longleftrightarrow> (\<forall>c. Must c \<in> set ss \<longrightarrow> works c)"
  by (induction works ss rule: perform.induct) (auto simp: Let_def split_beta)

lemma perform_calls: "snd (snd (perform works ss)) \<Longrightarrow> fst (perform works ss) = step_calls ss"
  by (induction works ss rule: perform.induct) (auto simp: Let_def split_beta split: if_splits)

lemma perform_stops:
  assumes "perform works ss = (cs, ls, False)"
  shows "\<exists>n<length (step_calls ss). cs = take (Suc n) (step_calls ss) \<and> \<not> works (step_calls ss ! n)"
  using assms
proof (induction works ss arbitrary: cs ls rule: perform.induct)
  case (2 works c ss)
  show ?case
  proof (cases "works c")
    case True
    with 2 obtain cs' where "perform works ss = (cs', ls, False)" "cs = c # cs'" by (auto split: prod.splits)
    with 2(1) [OF True] obtain n where "n < length (step_calls ss)" "cs' = take (Suc n) (step_calls ss)"
      "\<not> works (step_calls ss ! n)" by blast
    with \<open>cs = c # cs'\<close> show ?thesis by (intro exI [of _ "Suc n"]) simp
  qed (use 2 in auto)
next
  case (3 works c l ss)
  then obtain cs' ls' where "perform works ss = (cs', ls', False)" "cs = c # cs'" by (auto split: prod.splits)
  with 3(1) obtain n where "n < length (step_calls ss)" "cs' = take (Suc n) (step_calls ss)"
    "\<not> works (step_calls ss ! n)" by blast
  with \<open>cs = c # cs'\<close> show ?case by (intro exI [of _ "Suc n"]) simp
qed (auto split: prod.splits)

text \<open>
  The router listens on every address, the proxy for the core only on this computer; the address
  is free for reuse before it is bound, and the buffers are small before anyone can connect. A
  failure of the flag for \<open>exec\<close> or of the buffers does not keep them from listening.
\<close>

lemma router_listens:
  assumes "open_router works port = (cs, ls, fine)" "\<And>c. c \<notin> {CloseOnExec, ReceiveBuffer 65536, SendBuffer 65536} \<Longrightarrow> works c"
  shows "fine \<and> cs = [CertificateOptions, CertificateChain, PrivateKey, DHParameters, PasswordCallback, OpenSocket,
    ReuseAddress, CloseOnExec, BindTo ''0.0.0.0'' port, ReceiveBuffer 65536, SendBuffer 65536, StartListening]"
  using assms
  by (auto simp: open_router_def router_steps_def loadRawCertificate_def restrict_tcp_socket_buffer_sizes_def Let_def)

lemma proxy_listens:
  assumes "open_server_proxy works port = (cs, ls, fine)" "\<And>c. c \<notin> {CloseOnExec, ReceiveBuffer 65536, SendBuffer 65536} \<Longrightarrow> works c"
  shows "fine \<and> cs = [OpenSocket, CloseOnExec, ReuseAddress, BindTo ''127.0.0.1'' port, ReceiveBuffer 65536,
    SendBuffer 65536, StartListening]"
  using assms by (auto simp: open_server_proxy_def server_proxy_steps_def restrict_tcp_socket_buffer_sizes_def Let_def)

text \<open>Nothing listens when an exception was thrown before, and the router has logged it.\<close>

lemma router_failure:
  assumes "open_router works port = (cs, ls, False)" "works StartListening"
  shows "StartListening \<notin> set cs \<and> NotInitialized \<in> set ls"
  using assms
  by (auto simp: open_router_def router_steps_def loadRawCertificate_def restrict_tcp_socket_buffer_sizes_def Let_def
      split: if_splits)

text \<open>A receive buffer that could not be set goes unnoticed.\<close>

lemma receive_buffer_unnoticed:
  "snd (perform works restrict_tcp_socket_buffer_sizes) =
    snd (perform (works(ReceiveBuffer 65536 := True)) restrict_tcp_socket_buffer_sizes)"
  by (simp add: restrict_tcp_socket_buffer_sizes_def)

end
