(* ===== verification/RpcCalls.thy ===== *)
theory RpcCalls
  imports Prelude
begin

text \<open>
  How the functions of the programs become procedures that others can call (\<open>common/WampServer.h\<close>),
  and how answers and events become typed values again (\<open>common/WampClient.h\<close>); and the executor on
  which the continuations run (\<open>common/AsioExecutor.h\<close>). The values on the wire and their conversion
  are the library's: \<open>convert\<close> is the conversion of the arguments of one function, \<open>encode\<close> that of its
  result.
\<close>

section \<open>Calls\<close>

datatype 'e call_error = BadArguments | Thrown 'e

text \<open>A callee: the arguments are converted before the function runs, and the result is sent after it.
  A function without a result has \<open>encode_void\<close>.\<close>

definition encode_void :: "unit \<Rightarrow> 'v list" where
  "encode_void u = []"

definition wamp_callee ::
  "('v list \<Rightarrow> 'a option) \<Rightarrow> ('r \<Rightarrow> 'v list) \<Rightarrow> ('a \<Rightarrow> 's \<Rightarrow> ('e + 'r) \<times> 's) \<Rightarrow> 'v list \<Rightarrow> 's \<Rightarrow>
    ('e call_error + 'v list) \<times> 's" where
  "wamp_callee convert encode f vs s =
     (case convert vs of
        None \<Rightarrow> (Inl BadArguments, s)
      | Some a \<Rightarrow>
          (case f a s of
             (Inl e, s') \<Rightarrow> (Inl (Thrown e), s')
           | (Inr r, s') \<Rightarrow> (Inr (encode r), s')))"

text \<open>A handler of an event is the same without a result; an exception goes to the library.\<close>

definition wamp_event_handler ::
  "('v list \<Rightarrow> 'a option) \<Rightarrow> ('a \<Rightarrow> 's \<Rightarrow> ('e + unit) \<times> 's) \<Rightarrow> 'v list \<Rightarrow> 's \<Rightarrow> 'e call_error option \<times> 's" where
  "wamp_event_handler convert f vs s =
     (case convert vs of
        None \<Rightarrow> (Some BadArguments, s)
      | Some a \<Rightarrow> (case f a s of (Inl e, s') \<Rightarrow> (Some (Thrown e), s') | (Inr _, s') \<Rightarrow> (None, s')))"

text \<open>The completion of a call. The value of the promise is that of the first argument of the answer;
  when the call or the conversion fails the promise has the exception, and the client takes the
  connection for lost.\<close>

datatype 'r completion = Value 'r | Failed "string list"

definition complete_call ::
  "('v list \<Rightarrow> 'r option) \<Rightarrow> string \<Rightarrow> ('e call_error + 'v list) \<Rightarrow> 'r completion \<times> bool" where
  "complete_call decode name answer =
     (case answer of
        Inl e \<Rightarrow> (Failed [''RPC call failed: '' @ name], True)
      | Inr vs \<Rightarrow> (case decode vs of None \<Rightarrow> (Failed [''RPC call failed: '' @ name], True) | Some r \<Rightarrow> (Value r, False)))"

section \<open>The executor\<close>

text \<open>The work that waits in the event loop, and whether the loop was stopped. \<open>ex_kept\<close> says that
  something keeps the loop waiting when there is no work.\<close>

record 's executor =
  ex_queue :: "('s \<Rightarrow> 's) list"
  ex_stopped :: bool
  ex_kept :: bool

text \<open>Work that is dispatched within the loop runs at once. The executor takes none when the loop was
  stopped.\<close>

definition ex_dispatch :: "bool \<Rightarrow> ('s \<Rightarrow> 's) \<Rightarrow> 's executor \<times> 's \<Rightarrow> 's executor \<times> 's" where
  "ex_dispatch inside work xs =
     (let (x, s) = xs in if inside then (x, work s) else (x\<lparr>ex_queue := ex_queue x @ [work]\<rparr>, s))"

definition ex_submit :: "bool \<Rightarrow> ('s \<Rightarrow> 's) \<Rightarrow> 's executor \<times> 's \<Rightarrow> 's executor \<times> 's" where
  "ex_submit inside work xs = (if ex_stopped (fst xs) then xs else ex_dispatch inside work xs)"

text \<open>The server and the client hand their requests to the session within the loop.\<close>

datatype 'v session_request = Provide string | Publish string "'v list" | Subscribe string

definition server_provide ::
  "bool \<Rightarrow> string \<Rightarrow> 'v session_request list executor \<times> 'v session_request list \<Rightarrow>
    'v session_request list executor \<times> 'v session_request list" where
  "server_provide inside name = ex_dispatch inside (\<lambda>rs. rs @ [Provide name])"

definition server_publish ::
  "bool \<Rightarrow> string \<Rightarrow> 'v list \<Rightarrow> 'v session_request list executor \<times> 'v session_request list \<Rightarrow>
    'v session_request list executor \<times> 'v session_request list" where
  "server_publish inside topic vs = ex_dispatch inside (\<lambda>rs. rs @ [Publish topic vs])"

definition client_subscribe ::
  "bool \<Rightarrow> string \<Rightarrow> 'v session_request list executor \<times> 'v session_request list \<Rightarrow>
    'v session_request list executor \<times> 'v session_request list" where
  "client_subscribe inside topic = ex_dispatch inside (\<lambda>rs. rs @ [Subscribe topic])"

definition try_executing_one :: "'s executor \<times> 's \<Rightarrow> bool \<times> 's executor \<times> 's" where
  "try_executing_one xs =
     (let (x, s) = xs in
      if ex_stopped x then (False, x, s)
      else case ex_queue x of [] \<Rightarrow> (False, if ex_kept x then x else x\<lparr>ex_stopped := True\<rparr>, s)
        | w # ws \<Rightarrow> (True, x\<lparr>ex_queue := ws\<rparr>, w s))"

definition ex_close :: "'s executor \<Rightarrow> 's executor" where
  "ex_close x = x\<lparr>ex_stopped := True\<rparr>"

text \<open>\<open>reschedule_until\<close> runs one piece of work after the other until the predicate holds or the loop was
  stopped. \<open>run_one\<close> on a loop without work waits for ever when something keeps the loop, which is
  \<open>None\<close>, and stops the loop otherwise.\<close>

function reschedule_until ::
  "('s \<Rightarrow> bool) \<Rightarrow> bool \<Rightarrow> 's executor \<Rightarrow> 's \<Rightarrow> (bool \<times> 's executor \<times> 's) option" where
  "reschedule_until p done_work x s =
     (if ex_stopped x then Some (done_work, x, s)
      else case ex_queue x of
          [] \<Rightarrow> if ex_kept x then None else Some (done_work, ex_close x, s)
        | w # ws \<Rightarrow>
            (let s' = w s; x' = x\<lparr>ex_queue := ws\<rparr>
             in if p s' then Some (True, x', s') else reschedule_until p True x' s'))"
  by pat_completeness auto
termination
  by (relation "measure (\<lambda>(p, d, x, s). length (ex_queue x))") auto

declare reschedule_until.simps [simp del]

section \<open>Facts\<close>

text \<open>A call with arguments of the wrong kind does nothing, and the caller is told.\<close>

lemma bad_call_is_harmless:
  assumes "convert vs = None"
  shows "wamp_callee convert encode f vs s = (Inl BadArguments, s)"
  using assms by (simp add: wamp_callee_def)

text \<open>A call from end to end: when both sides agree about the values, the caller gets what the function
  returned, and the connection stands; otherwise it counts as lost.\<close>

lemma call_end_to_end:
  assumes "convert (pack_args a) = Some a" "\<And>r. decode (encode r) = Some r"
  shows "complete_call decode name (fst (wamp_callee convert encode f (pack_args a) s)) =
    (case fst (f a s) of Inl e \<Rightarrow> (Failed [''RPC call failed: '' @ name], True) | Inr r \<Rightarrow> (Value r, False))"
  using assms by (auto simp: complete_call_def wamp_callee_def split: sum.splits prod.splits)

text \<open>What has run is a prefix of the queue, the work is done in order, and it ends early only at
  the predicate or when the loop was stopped.\<close>

lemma reschedule_until_runs:
  assumes "reschedule_until p d x s = Some (d', x', s')" "\<not> ex_stopped x"
  shows "\<exists>n. n \<le> length (ex_queue x) \<and> ex_queue x' = drop n (ex_queue x)
    \<and> s' = fold (\<lambda>w. w) (take n (ex_queue x)) s \<and> d' = (d \<or> 0 < n)
    \<and> (0 < n \<and> p s' \<or> n = length (ex_queue x) \<and> ex_stopped x')"
  using assms
proof (induction p d x s rule: reschedule_until.induct)
  case (1 p d x s)
  show ?case
  proof (cases "ex_queue x")
    case Nil
    with 1 show ?thesis by (subst (asm) reschedule_until.simps) (auto simp: ex_close_def split: if_splits)
  next
    case (Cons w ws)
    show ?thesis
    proof (cases "p (w s)")
      case True
      with 1 Cons show ?thesis by (subst (asm) reschedule_until.simps) (auto intro!: exI [of _ "Suc 0"])
    next
      case False
      with 1(2,3) Cons have "reschedule_until p True (x\<lparr>ex_queue := ws\<rparr>) (w s) = Some (d', x', s')"
        by (subst (asm) reschedule_until.simps) simp
      with 1(1) [OF 1(3) Cons refl refl False] 1(3) obtain n where "n \<le> length ws" "ex_queue x' = drop n ws"
        "s' = fold (\<lambda>w. w) (take n ws) (w s)" "d'" "0 < n \<and> p s' \<or> n = length ws \<and> ex_stopped x'"
        by auto
      with Cons show ?thesis by (intro exI [of _ "Suc n"]) auto
    qed
  qed
qed

text \<open>It comes to an end unless the work runs out while the loop is kept.\<close>

lemma reschedule_until_ends:
  assumes "\<not> ex_kept x"
  shows "reschedule_until p d x s \<noteq> None"
  using assms
  by (induction p d x s rule: reschedule_until.induct)
    (subst reschedule_until.simps, auto simp: Let_def split: list.split)

end
