(* ===== verification/HttpRequests.thy ===== *)
theory HttpRequests
  imports Cloud
begin

text \<open>
  What the session of the cloud client sends (\<open>service/HttpSession.cpp\<close>): one request object, which is
  filled again for every job, with the headers of the session. The fields of a request are a map;
  a field that is set replaces the one of its name. The text of a number and the JSON text of a job
  are the library's.
\<close>

datatype http_verb = GetVerb | PostVerb

record http_request_state =
  hq_version :: nat
  hq_method :: http_verb
  hq_target :: string
  hq_fields :: "string \<Rightarrow> string option"
  hq_body :: string

record http_session =
  hs_hostname :: string
  hs_port :: string
  hs_headers :: "(string \<times> string) list"
  hs_request :: http_request_state
  hs_response :: "string option"

definition kHttpVersion :: nat where "kHttpVersion = 11"

text \<open>The headers are a map that is read in the order of the names.\<close>

definition addHeader :: "string \<Rightarrow> string \<Rightarrow> http_session \<Rightarrow> http_session" where
  "addHeader name content s =
     s\<lparr>hs_headers := (name, content) # filter (\<lambda>(n, _). n \<noteq> name) (hs_headers s)\<rparr>"

definition empty_request :: http_request_state where
  "empty_request = \<lparr>hq_version = 11, hq_method = GetVerb, hq_target = '''', hq_fields = (\<lambda>_. None), hq_body = ''''\<rparr>"

definition new_http_session :: "string \<Rightarrow> string \<Rightarrow> string \<Rightarrow> http_session" where
  "new_http_session program_version hostname port =
     addHeader ''X-Synergy-Version'' program_version
       \<lparr>hs_hostname = hostname, hs_port = port, hs_headers = [], hs_request = empty_request,
        hs_response = None\<rparr>"

definition set_field :: "string \<Rightarrow> string \<Rightarrow> http_request_state \<Rightarrow> http_request_state" where
  "set_field name content q = q\<lparr>hq_fields := (hq_fields q)(name \<mapsto> content)\<rparr>"

text \<open>With a body, \<open>prepare_payload\<close> sets the length of the content.\<close>

definition prepare_payload :: "(nat \<Rightarrow> string) \<Rightarrow> http_request_state \<Rightarrow> http_request_state" where
  "prepare_payload number q = set_field ''Content-Length'' (number (length (hq_body q))) q"

definition setup_request ::
  "(nat \<Rightarrow> string) \<Rightarrow> http_verb \<Rightarrow> string \<Rightarrow> string \<Rightarrow> http_session \<Rightarrow> http_session" where
  "setup_request number verb tgt content s =
     (let q = (hs_request s)\<lparr>hq_version := kHttpVersion, hq_method := verb, hq_target := tgt\<rparr>;
          q = set_field ''Host'' (hs_hostname s) q;
          q = set_field ''Connection'' ''keep-alive'' q;
          s = s\<lparr>hs_response := None\<rparr>
      in if content = '''' then s\<lparr>hs_request := q\<rparr>
         else
           (let q = set_field ''Content-Type'' ''application/json'' q;
                q = q\<lparr>hq_body := content\<rparr>;
                q = fold (\<lambda>(n, c). set_field n c) (hs_headers s) q
            in s\<lparr>hs_request := prepare_payload number q\<rparr>))"

definition http_get :: "(nat \<Rightarrow> string) \<Rightarrow> string \<Rightarrow> http_session \<Rightarrow> http_session" where
  "http_get number tgt = setup_request number GetVerb tgt ''''"

definition http_post :: "(nat \<Rightarrow> string) \<Rightarrow> string \<Rightarrow> string \<Rightarrow> http_session \<Rightarrow> http_session" where
  "http_post number tgt content = setup_request number PostVerb tgt content"

text \<open>The request for a job of the cloud client, and the header that is set whenever the settings are
  loaded.\<close>

definition job_request ::
  "(nat \<Rightarrow> string) \<Rightarrow> ((string \<times> json_value) list \<Rightarrow> string) \<Rightarrow> http_job \<Rightarrow> http_session \<Rightarrow> http_session" where
  "job_request number json job = setup_request number PostVerb (target job) (json (jcontext job))"

definition login_header :: "string \<Rightarrow> http_session \<Rightarrow> http_session" where
  "login_header token = addHeader ''X-Auth-Token'' token"

section \<open>Facts\<close>

text \<open>The fields that the session sets itself.\<close>

definition own_fields :: "string list" where
  "own_fields = [''Host'', ''Connection'', ''Content-Type'', ''Content-Length'']"

definition headers_ok :: "http_session \<Rightarrow> bool" where
  "headers_ok s \<longleftrightarrow> distinct (map fst (hs_headers s)) \<and> set (map fst (hs_headers s)) \<inter> set own_fields = {}"

lemma headers_ok_new: "headers_ok (new_http_session v h p)"
  by (simp add: headers_ok_def new_http_session_def addHeader_def own_fields_def)

lemma headers_ok_add: "headers_ok s \<Longrightarrow> name \<notin> set own_fields \<Longrightarrow> headers_ok (addHeader name c s)"
  by (auto simp: headers_ok_def addHeader_def distinct_map inj_on_def)

lemma headers_ok_setup: "headers_ok (setup_request number verb tgt c s) = headers_ok s"
  by (simp add: headers_ok_def setup_request_def Let_def)

lemma map_of_rev_distinct:
  assumes "distinct (map fst hs)"
  shows "map_of (rev hs) = map_of hs"
proof
  fix n
  have "distinct (map fst (rev hs))" using assms by (simp flip: rev_map)
  then show "map_of (rev hs) n = map_of hs n"
    using assms map_of_eq_None_iff [of "rev hs" n] map_of_eq_None_iff [of hs n]
    by (cases "map_of hs n") (simp, auto dest: map_of_SomeD)
qed

lemma fold_fields:
  "hq_fields (fold (\<lambda>(n, c). set_field n c) hs q) = hq_fields q ++ map_of (rev hs)"
  by (induction hs arbitrary: q) (auto simp: set_field_def map_add_def fun_eq_iff split: option.split)

lemma fold_set_field_simps [simp]:
  "hq_body (fold (\<lambda>(n, c). set_field n c) hs q) = hq_body q"
  "hq_method (fold (\<lambda>(n, c). set_field n c) hs q) = hq_method q"
  "hq_target (fold (\<lambda>(n, c). set_field n c) hs q) = hq_target q"
  by (induction hs arbitrary: q) (auto simp: set_field_def)

text \<open>The request of a job carries the target and the body of that job and every header of the session,
  whatever was sent before.\<close>

lemma request_carries_job:
  assumes "headers_ok s" "json (jcontext job) \<noteq> ''''" "q = hs_request (job_request number json job s)"
  shows "hq_method q = PostVerb \<and> hq_target q = target job \<and> hq_body q = json (jcontext job)
    \<and> hq_fields q ''Host'' = Some (hs_hostname s)
    \<and> hq_fields q ''Content-Length'' = Some (number (length (json (jcontext job))))
    \<and> (\<forall>(n, c)\<in>set (hs_headers s). hq_fields q n = Some c)"
proof -
  have rev: "map_of (rev (hs_headers s)) = map_of (hs_headers s)"
    using assms(1) by (simp add: headers_ok_def map_of_rev_distinct)
  have own: "map_of (hs_headers s) n = None" if "n \<in> set own_fields" for n
    using assms(1) that by (auto simp: headers_ok_def map_of_eq_None_iff)
  have "n \<noteq> ''Content-Length''" if "(n, c) \<in> set (hs_headers s)" for n c
    using assms(1) that by (force simp: headers_ok_def own_fields_def)
  moreover have "map_of (hs_headers s) n = Some c" if "(n, c) \<in> set (hs_headers s)" for n c
    using assms(1) that by (simp add: headers_ok_def)
  ultimately show ?thesis
    using assms(2,3) own [of "''Host''"]
    by (auto simp: job_request_def setup_request_def prepare_payload_def set_field_def fold_fields rev
        own_fields_def Let_def map_add_def)
qed

text \<open>The last login that was set is the one that is sent.\<close>

lemma request_carries_login:
  assumes "headers_ok s" "json (jcontext job) \<noteq> ''''"
  shows "hq_fields (hs_request (job_request number json job (login_header token s))) ''X-Auth-Token'' = Some token"
proof -
  have "headers_ok (login_header token s)"
    using assms(1) by (simp add: login_header_def headers_ok_add own_fields_def)
  from request_carries_job [where json = json, OF this assms(2) refl, of number] show ?thesis
    by (simp add: login_header_def addHeader_def)
qed

text \<open>A request without a body keeps the body of the one before, with its length.\<close>

lemma get_sends_the_old_body:
  "hq_body (hs_request (http_get number tgt (http_post number tgt' c s))) =
    (if c = '''' then hq_body (hs_request s) else c)"
  by (simp add: http_get_def http_post_def setup_request_def prepare_payload_def set_field_def Let_def)

end
