(* ===== verification/ProgramStart.thy ===== *)
theory ProgramStart
  imports Startup MacInstall ConfigProgram Tray
begin

text \<open>
  How the configuration program (\<open>config/lib/App.cpp\<close>) and the tray (\<open>tray/main.cpp\<close>) start: their
  options, the directories, the crash handler (\<open>common/CrashHandler.cpp\<close>), the fonts
  (\<open>config/lib/FontManager.cpp\<close>), the permission of macOS (\<open>config/lib/AccessibilityManager.cpp\<close>) and the
  directories of the user interface (\<open>config/lib/DirectoryManager.cpp\<close>).
\<close>

section \<open>Fonts\<close>

definition kFontList :: "string list" where
  "kFontList = ['':/Raleway-Regular.ttf'', '':/Museo.otf'', '':/AlternateGotNo3D.otf'', '':/SourceCodePro-Regular.ttf'']"

text \<open>\<open>lastIndexOf\<close> of the library counts from the left; no dot is \<open>-1\<close>, and a negative length means the rest.\<close>

definition last_dot :: "string \<Rightarrow> int" where
  "last_dot s = (if CHR ''.'' \<in> set s then int (length s) - 1 - int (length (takeWhile (\<lambda>c. c \<noteq> CHR ''.'') (rev s))) else -1)"

definition mid :: "nat \<Rightarrow> int \<Rightarrow> string \<Rightarrow> string" where
  "mid k n s = (if n < 0 then drop k s else take (nat n) (drop k s))"

text \<open>The warnings: for a font that is not there, and for one that the library does not take.\<close>

definition load_font :: "(string \<Rightarrow> bool) \<Rightarrow> (string \<Rightarrow> int) \<Rightarrow> string \<Rightarrow> string list" where
  "load_font there add file =
     (if \<not> there file then [''no font file: '' @ mid 2 (-1) file]
      else if add file = -1 then [''failed to load embeded font: '' @ mid 2 (last_dot file - 2) file]
      else [])"

definition loadAll :: "(string \<Rightarrow> bool) \<Rightarrow> (string \<Rightarrow> int) \<Rightarrow> string list" where
  "loadAll there add = concat (map (load_font there add) kFontList)"

section \<open>Directories and permissions of the user interface\<close>

text \<open>The path, and the directories that are there afterwards.\<close>

definition make_path :: "string \<Rightarrow> string list \<Rightarrow> string list" where
  "make_path d there = (if d \<in> set there then there else d # there)"

definition gui_profile_dir :: "string list \<Rightarrow> string list \<Rightarrow> string \<times> string list" where
  "gui_profile_dir locations there = (let d = hd locations in (d, make_path d there))"

definition gui_crash_dump_dir :: "string list \<Rightarrow> string list \<Rightarrow> string \<times> string list" where
  "gui_crash_dump_dir locations there =
     (let (p, there) = gui_profile_dir locations there; d = p @ ''/dumps/'' in (d, make_path d there))"

definition processHasAccessibility :: "platform \<Rightarrow> bool \<Rightarrow> bool" where
  "processHasAccessibility pf answer = (if pf = MacOS then answer else True)"

section \<open>The crash handler\<close>

text \<open>What is passed to the library, where it is built in; there is no handler on Linux.\<close>

record crash_setup =
  cr_database :: string
  cr_handler :: string
  cr_url :: string
  cr_annotations :: "(string \<times> string) list"
  cr_restartable :: bool
  cr_asynchronous :: bool

definition CRASHPAD_TOKEN :: string where
  "CRASHPAD_TOKEN = ''cc4db6ef2d4731b276b0a111979336443dc0372624effb79d8b29b26a200e1c6''"

definition crash_handler_path :: "system \<Rightarrow> string \<Rightarrow> string" where
  "crash_handler_path sys dir =
     (if sy_platform sys = Windows then sy_slash sys dir ''crashpad_handler.exe''
      else below sys [''Resources'', ''crashpad_handler''] (sy_parent sys dir))"

definition startCrashHandler ::
  "bool \<Rightarrow> system \<Rightarrow> string \<Rightarrow> (string \<times> string) list \<Rightarrow> (crash_setup \<Rightarrow> bool) \<Rightarrow>
    dir_error + bool \<times> crash_setup option" where
  "startCrashHandler built_in sys argv0 build_facts starts =
     (if \<not> built_in then Inr (False, None)
      else bindE (crash_dump_dir sys) (\<lambda>db. bindE (install_dir sys argv0) (\<lambda>dir.
        (let c = \<lparr>cr_database = db, cr_handler = crash_handler_path sys dir,
                  cr_url = ''https://synergy.sp.backtrace.io:6098'',
                  cr_annotations = [(''token'', CRASHPAD_TOKEN), (''format'', ''minidump'')] @ build_facts,
                  cr_restartable = True, cr_asynchronous = False\<rparr>
         in Inr (starts c, Some c)))))"

section \<open>The configuration program\<close>

text \<open>
  The result of the program or the running program. On macOS the installation may come first, which
  may end the program; the service is run by the program itself when it is asked to. An error of
  the directories leaves the program as an exception, one of the crash handler is only logged.
\<close>

datatype run_end = Result nat | Exception dir_error | Running "config_program option"

definition tray_path :: "platform \<Rightarrow> string" where
  "tray_path pf =
     (if pf = MacOS then ''/Applications/Synergy.app/Contents/Resources/synergy-tray'' else ''synergy-tray'')"

record ui_env =
  ue_system :: system
  ue_mac :: mac_env
  ue_client :: client_env
  ue_crashpad :: bool
  ue_build_facts :: "(string \<times> string) list"
  ue_crash_starts :: "crash_setup \<Rightarrow> bool"
  ue_font_there :: "string \<Rightarrow> bool"
  ue_font_add :: "string \<Rightarrow> int"
  ue_proxies :: "system_proxy list"
  ue_uid :: "string option"

definition config_run ::
  "ui_env \<Rightarrow> config_client \<Rightarrow> string list \<Rightarrow> string list \<Rightarrow> string list \<Rightarrow>
    mac_action list \<times> string list \<times> run_end" where
  "config_run env client options argv there =
     (let sys = ue_system env;
          (acts, go) = (if sy_platform sys = MacOS then run_start options (ue_mac env)
                        else ([], ''help'' \<notin> set options))
      in if \<not> go then (acts, [], Result (if mac_action.ExitProgram False \<in> set acts then 1 else 0))
         else case init_dirs sys (hd argv) there of
             Inl e \<Rightarrow> (acts, [''failed to init dirs''], Exception e)
           | Inr there' \<Rightarrow>
               (let crash = startCrashHandler (ue_crashpad env) sys (hd argv) (ue_build_facts env) (ue_crash_starts env);
                    p = new_config_program client (http_proxy (ue_proxies env)) (ue_uid env) argv;
                    started = Option.bind (on_client (ue_client env) CheckUpdate p) start_program
                in (acts @ [StartDetached (tray_path (sy_platform sys))],
                    (case crash of Inl e \<Rightarrow> [''failed to start crash handler''] | Inr r \<Rightarrow> []) @
                    loadAll (ue_font_there env) (ue_font_add env), Running started)))"

section \<open>The tray\<close>

text \<open>
  A failure of the directories or of the crash handler is ignored. What happens within five seconds
  decides whether the icon is shown.
\<close>

datatype tray_end = TrayExits int | TrayShown tray_program

definition tray_main :: "tray_input list \<Rightarrow> tray_end option" where
  "tray_main is =
     map_option
       (\<lambda>t. case tp_exit t of
              Some e \<Rightarrow> TrayExits e
            | None \<Rightarrow> if tp_controlsReady t then TrayShown t else TrayExits EXIT_FAILURE)
       (tray_run (TrayConnect # is) new_tray_program)"

section \<open>Facts\<close>

text \<open>The names in the warnings.\<close>

lemma font_warnings:
  "loadAll (\<lambda>f. False) add =
    [''no font file: Raleway-Regular.ttf'', ''no font file: Museo.otf'',
     ''no font file: AlternateGotNo3D.otf'', ''no font file: SourceCodePro-Regular.ttf'']"
  "loadAll (\<lambda>f. True) (\<lambda>f. -1) =
    [''failed to load embeded font: Raleway-Regular'', ''failed to load embeded font: Museo'',
     ''failed to load embeded font: AlternateGotNo3D'', ''failed to load embeded font: SourceCodePro-Regular'']"
  by (simp_all add: loadAll_def kFontList_def load_font_def mid_def last_dot_def)

text \<open>The check for an update is asked for before anything is connected to the cloud client, and the
  program then is connecting to the service.\<close>

lemma started_program:
  assumes "wc_connected (cf_rpc p) = False"
  shows "\<exists>p'. Option.bind (on_client e CheckUpdate p) start_program = Some p'
    \<and> wc_phase (cf_rpc p') = TransportConnecting \<and> wc_session (cf_rpc p')"
  using assms
  by (auto simp: on_client_def client_step_def client_basic_def page_slot_def cc_checkUpdate_def cc_send_def client_slot_def cf_emit_def
      start_program_def on_rpc_def wamp_step_def wc_connect_def wc_emit_def rpc_slot_def Let_def)

lemma config_runs:
  assumes "config_run env client options argv there = (acts, warnings, Running r)"
  shows "\<exists>p. r = Some p \<and> wc_phase (cf_rpc p) = TransportConnecting \<and> wc_session (cf_rpc p)"
proof -
  let ?p = "new_config_program client (http_proxy (ue_proxies env)) (ue_uid env) argv"
  have "r = Option.bind (on_client (ue_client env) CheckUpdate ?p) start_program"
    using assms by (auto simp: config_run_def Let_def split: prod.splits sum.splits if_splits)
  then show ?thesis
    using started_program [of ?p "ue_client env"] by (simp add: new_config_program_def new_wamp_client_def)
qed

text \<open>The icon of the tray is shown only when the service accepted it.\<close>

lemma tp_call_ready: "tp_call x t = Some t' \<Longrightarrow> tp_controlsReady t' = tp_controlsReady t"
  by (auto simp: tp_call_def)

lemma tp_event_ready: "tp_event x t = Some t' \<Longrightarrow> tp_controlsReady t' = tp_controlsReady t"
  by (auto simp: tp_event_def tp_connected_def tp_disconnected_def dest: tp_call_ready
      split: rpc_event.splits if_splits)

lemma tp_events_ready: "tp_events xs t = Some t' \<Longrightarrow> tp_controlsReady t' = tp_controlsReady t"
  by (induction xs arbitrary: t) (auto simp: bind_eq_Some_conv dest: tp_event_ready)

lemma tp_wamp_ready: "tp_wamp i t = Some t' \<Longrightarrow> tp_controlsReady t' = tp_controlsReady t"
  by (auto simp: tp_wamp_def bind_eq_Some_conv dest: tp_events_ready)

lemma tp_log_ready: "tp_log l t = Some t' \<Longrightarrow> tp_controlsReady t' = tp_controlsReady t"
  by (auto simp: tp_log_def dest: tp_call_ready split: if_splits)

lemma tp_shutdown_ready: "tp_shutdown t = Some t' \<Longrightarrow> tp_controlsReady t' = tp_controlsReady t"
  by (auto simp: tp_shutdown_def Let_def dest: tp_call_ready tp_wamp_ready split: if_splits)

lemma tp_goodbye_ready: "tp_goodbye_answer t = Some t' \<Longrightarrow> tp_controlsReady t' = tp_controlsReady t"
  by (auto simp: tp_goodbye_answer_def dest: tp_wamp_ready)

lemmas tp_keeps_ready = tp_call_ready tp_wamp_ready tp_log_ready tp_shutdown_ready tp_goodbye_ready

lemma tp_hello_ready:
  assumes "tp_hello_answer kill off t = Some t'" "tp_controlsReady t'" "\<not> tp_controlsReady t"
  shows "\<not> kill"
  using assms by (auto simp: tp_hello_answer_def bind_eq_Some_conv dest: tp_keeps_ready split: if_splits)

lemma tp_answer_ready:
  assumes "tp_answer k good kill off t = Some t'" "tp_controlsReady t'" "\<not> tp_controlsReady t"
  shows "good \<and> \<not> kill"
proof -
  obtain t1 where t1: "tp_wamp (RpcAnswer k good) t = Some t1"
    using assms by (auto simp: tp_answer_def Let_def bind_eq_Some_conv split: if_splits)
  then have "\<not> tp_controlsReady t1" using assms(3) tp_wamp_ready by simp
  with assms t1 show ?thesis
    by (auto simp: tp_answer_def Let_def dest: tp_hello_ready tp_goodbye_ready split: if_splits)
qed

lemma ready_when_accepted:
  assumes "tray_step i t = Some t'" "tp_controlsReady t'" "\<not> tp_controlsReady t"
  shows "\<exists>k off. i = TrayAnswered k True False off"
  using assms
  by (cases i)
    (auto simp: tray_step_def tp_ping_def enableCore_def disableCore_def tp_resume_def tp_pause_def tp_status_def
      onCoreDisabled_def dest: tp_keeps_ready tp_answer_ready split: if_splits list.splits)

lemma tray_shown_when_accepted:
  assumes "tray_main is = Some (TrayShown t)"
  shows "\<exists>k off. TrayAnswered k True False off \<in> set is"
proof -
  have run: "tray_run js t0 = Some t1 \<Longrightarrow> tp_controlsReady t1 \<Longrightarrow> \<not> tp_controlsReady t0 \<Longrightarrow>
      \<exists>k off. TrayAnswered k True False off \<in> set js" for js t0 t1
  proof (induction js arbitrary: t0)
    case (Cons i js)
    then obtain t where "tray_step i t0 = Some t" "tray_run js t = Some t1" by (auto simp: bind_eq_Some_conv)
    note t = this
    show ?case
    proof (cases "tp_controlsReady t")
      case True
      then show ?thesis using ready_when_accepted [OF t(1) True Cons.prems(3)] by auto
    next
      case False
      then show ?thesis using Cons.IH [OF t(2) Cons.prems(2)] by auto
    qed
  qed simp
  obtain t1 where "tray_run (TrayConnect # is) new_tray_program = Some t1" "tp_controlsReady t1"
    using assms by (auto simp: tray_main_def split: option.splits if_splits)
  with run show ?thesis by (fastforce simp: new_tray_program_def)
qed

end
