(* ===== verification/Spec2Isabelle.thy ===== *)
theory Spec2Isabelle
  imports Relay ConfigGen_Props Core_Props Cloud_Props ScreenManager_Props
    Websocket_Props Service_Props Rpc_Props Controller_Props Sessions_Props
    Helper MacInstall ErrorReports Encoding_Props CopyPtr CoreOutput LinkIterator Adapters Startup_Props Logs Listening
    RpcCalls HttpRequests ProgramStart
begin

text \<open>
  A verification of Synergy 2 (Hogsback): its background service, its configuration program, its
  tray, the Windows controller of the service, and the installation of its macOS package with its
  helper. The service runs on every computer of a user. It finds the services on the other computers through a small routed network, starts and stops the
  core process, which shares the mouse and the keyboard, as a server or as a client, carries the
  traffic of the core processes over that network, and keeps the profile of the user in step with
  the cloud. The configuration program logs the user in, chooses the profile and arranges the screens.

  How the parts interact. A \<^emph>\<open>connection\<close> reads and writes framed messages on a socket and hands them
  to the \<^emph>\<open>router\<close>, which keeps the table of routes, floods advertisements and revocations, and
  forwards or delivers everything else. The \<^emph>\<open>server proxy\<close> and the \<^emph>\<open>client proxy\<close> speak the wire
  protocol of the core processes with the help of the \<^emph>\<open>scanner\<close> and the \<^emph>\<open>codec\<close>, and send their bytes as
  core messages through the router. The \<^emph>\<open>core manager\<close> reacts to server claims that arrive through
  the router, to the signals of the local \<^emph>\<open>profile\<close>, and to the output of the \<^emph>\<open>core process\<close>, whose
  \<^emph>\<open>configuration\<close> is generated from the screens of the profile. The \<^emph>\<open>cloud client\<close> sends status
  changes and claims as HTTP requests and listens to a \<^emph>\<open>websocket\<close> for new profiles; the \<^emph>\<open>service
  worker\<close> wires all of these together and serves the calls of the other programs. The \<^emph>\<open>configuration
  program\<close> and the \<^emph>\<open>tray\<close> make these calls through the \<^emph>\<open>RPC client\<close>. The \<^emph>\<open>controller\<close> starts and
  watches the service on Windows, the \<^emph>\<open>session monitor\<close> finds the user and the display on Linux.

  \<^bold>\<open>Which theory models what.\<close>
    \<^item> \<open>Prelude\<close>: machine integers, results, lists. \<open>Ordered_Index\<close>: the locale \<open>unique_index\<close>, the
      contract of an ordered container with a unique key, interpreted on sorted lists.
    \<^item> \<open>Messages\<close>: \<open>router/Message.hpp\<close>, \<open>MessageHeader.hpp\<close>, \<open>protocol/v2/MessageTypes.hpp\<close>.
    \<^item> \<open>RouteTable\<close>: the multi-index table of routes in \<open>router/Router.hpp\<close>, its queries and updates.
    \<^item> \<open>Router\<close>, \<open>Router_Facts\<close>, \<open>Best_Routes\<close>, \<open>Router_Props\<close>: \<open>router/Router.cpp\<close>, one function per
      operation, handler and coroutine; events are the signals and the messages it sends. \<open>Best_Routes\<close>
      says exactly what a whole advertisement leaves in the table.
    \<^item> \<open>Network\<close>: several routers and the messages between them, as a step relation.
    \<^item> \<open>Wire\<close>: \<open>router/MessageReader.hpp\<close>, \<open>MessageWriter.hpp\<close>, \<open>utils/make_variant_of_nth.hpp\<close>.
      \<open>Connection\<close>: the receive loop and the send queue of \<open>router/Connection.cpp\<close>. \<open>Encoding\<close>,
      \<open>Encoding_Props\<close>: the generated code of \<open>protocol/v2\<close>, which packs, verifies and unpacks the bodies,
      over the locale \<open>flatbuffer_library\<close>, the contract of the library of tables. \<open>CopyPtr\<close>:
      \<open>router/utils/copy_ptr.hpp\<close>, the pointers in these structures, over an explicit heap.
    \<^item> \<open>CodecV1\<close>: \<open>protocol/v1/MessageCodec.hpp\<close> and \<open>MessageTypes.cpp\<close>. \<open>ScannerV1\<close>, \<open>ScannerV1_Facts\<close>,
      \<open>ScannerV1_Props\<close>: the generated state machine \<open>protocol/v1/Scanner.cpp\<close>, state by state, and
      the grammar it implements.
    \<^item> \<open>Proxy\<close>, \<open>Proxy_Props\<close>: \<open>router/ServerProxy.cpp\<close>, \<open>ClientProxy.cpp\<close>, \<open>protocol/v1/Scanner.hpp\<close>.
    \<^item> \<open>Delivery\<close>: routers whose connections join two nodes, in a network that only grows, and the way of
      a message through it. \<open>Streams\<close>: the connections as queues, under any interleaving of traffic, and the
      order of what one node sends to another. \<open>Relay\<close>: the proxies of two nodes and the network between
      them.
    \<^item> \<open>SocketOpts\<close>: \<open>common/SocketOptions.hpp\<close> and the options of the websocket. \<open>Listening\<close>: the
      constructors of \<open>router/Router.cpp\<close> and \<open>ServerProxy.cpp\<close>, \<open>router/utils/tcp.hpp\<close>.
    \<^item> \<open>ConfigGen\<close>, \<open>ConfigGen_Props\<close>: \<open>common/Screen.cpp\<close>, \<open>ScreenStatus.h\<close>, \<open>ConfigGen.cpp\<close>.
      \<open>LinkIterator\<close>: the iterator over links of \<open>common/ScreenLinks.cpp\<close>.
    \<^item> \<open>Profile\<close>: \<open>common/Profile.h\<close>, \<open>ProfileConfig.cpp\<close>. \<open>UserConfig\<close>: \<open>common/UserConfig.cpp\<close>,
      \<open>ConfigParser.cpp\<close>. \<open>ProcessCommand\<close>: \<open>common/ProcessCommand.cpp\<close>.
    \<^item> \<open>SnapshotJson\<close>: the decoders of \<open>service/json.hpp\<close> and the snapshots of \<open>common/ScreenSnapshot.h\<close>,
      \<open>ProfileSnapshot.h\<close>, \<open>ProfileConfigSnapshot.h\<close>. Its locale \<open>decoder\<close> is the contract of a decoder,
      interpreted on every one of them.
    \<^item> \<open>Core\<close>, \<open>Core_Props\<close>: \<open>service/CoreProcess.cpp\<close>, \<open>CoreProcessImpl.cpp\<close>, \<open>CoreStatusMonitor.cpp\<close>,
      \<open>CoreManager.cpp\<close>. \<open>CoreOutput\<close>: the pipes of \<open>service/CoreProcessImpl.cpp\<close>.
    \<^item> \<open>Cloud\<close>, \<open>Cloud_Props\<close>: \<open>service/PriorityJobQueues.h\<close>, \<open>ProxyClient.h\<close>, \<open>SecuredTcpClient.cpp\<close>,
      \<open>HttpSession.cpp\<close>, \<open>CloudClient.cpp\<close>. The locale \<open>fifo_queues\<close> is the contract of the queues
      and is interpreted on \<open>PriorityJobQueues\<close>. \<open>HttpRequests\<close>: the requests of \<open>HttpSession.cpp\<close>.
    \<^item> \<open>Websocket\<close>, \<open>Websocket_Props\<close>: \<open>service/WebsocketSession.cpp\<close> with its reconnections, and the
      loading of the settings into the cloud client. \<open>Monitors\<close>: \<open>service/RouterErrorMonitor.cpp\<close>,
      \<open>TrayService.cpp\<close>, \<open>IPMonitor.cpp\<close>. \<open>Adapters\<close>: \<open>service/NetworkAdaptersUnix.cpp\<close>,
      \<open>NetworkAdaptersWindows.cpp\<close>, \<open>config/lib/IpManager.cpp\<close>.
    \<^item> \<open>Service\<close>, \<open>Service_Props\<close>: \<open>service/ServiceWorker.cpp\<close>, the composition of the profile, the
      settings, the core manager, the cloud client and the websocket, with the calls it provides.
      \<open>Startup\<close>, \<open>Startup_Props\<close>: \<open>service/App.cpp\<close>, \<open>common/DirectoryManager.cpp\<close> on three platforms,
      \<open>TerminationSignalListener.cpp\<close>, the places of the settings and the end of the worker. \<open>Logs\<close>:
      \<open>service/ServiceLogs.cpp\<close> and the loggers of \<open>tray/Controls.cpp\<close>.
    \<^item> \<open>Screens\<close>: \<open>config/lib/UIScreen.cpp\<close>, \<open>ScreenListModel.cpp\<close>, \<open>ScreenListSnapshotManager.cpp\<close>.
      \<open>Float32\<close>: arithmetic in single precision. \<open>Arrangement\<close>, \<open>Arrangement_Props\<close>:
      \<open>config/lib/ScreenBBArrangement.cpp\<close>. \<open>ScreenManager\<close>, \<open>ScreenManager_Props\<close>:
      \<open>config/lib/ScreenManager.cpp\<close>, which uses an arrangement through the locale
      \<open>screen_arrangement\<close>, interpreted on that of the bounding box as \<open>bb\<close>.
    \<^item> \<open>AppState\<close>: \<open>config/lib/AppConfig.cpp\<close>, \<open>VersionManager.cpp\<close>, \<open>ErrorView.cpp\<close>,
      \<open>ProfileListModel.cpp\<close>. \<open>LogView\<close>: \<open>config/lib/LogManager.cpp\<close>. \<open>ConfigClient\<close>, \<open>ConfigClient_Props\<close>:
      \<open>config/lib/CloudClient.cpp\<close>.
    \<^item> \<open>Rpc\<close>: \<open>common/WampClient.cpp\<close>, \<open>WampServer.cpp\<close>, \<open>WampRouter.cpp\<close>, \<open>RpcManager.cpp\<close>, and the locale
      \<open>rpc_user\<close>, the contract of a program that uses the client. \<open>RpcCalls\<close>: the values of a call in
      \<open>common/WampServer.h\<close> and \<open>WampClient.h\<close>, and the executor \<open>AsioExecutor.h\<close>. \<open>ConfigProgram\<close>, \<open>ConfigProgram_Props\<close>:
      \<open>config/lib/ServiceProxy.cpp\<close>, \<open>App.cpp\<close>. \<open>Tray\<close>: \<open>tray/Controls.cpp\<close>, \<open>Tray.cpp\<close>. \<open>Rpc_Props\<close>
      interprets the locale on both programs, as \<open>config\<close> and \<open>tray\<close>. \<open>ProgramStart\<close>: the start of both,
      \<open>config/lib/App.cpp\<close>, \<open>FontManager.cpp\<close>, \<open>tray/main.cpp\<close>, \<open>common/CrashHandler.cpp\<close>.
    \<^item> \<open>Controller\<close>, \<open>Controller_Props\<close>: \<open>service/windows/ServiceController.cpp\<close>. \<open>Sessions\<close>,
      \<open>Sessions_Props\<close>: \<open>service/linux/SessionMonitor.cpp\<close>, \<open>ActiveXDisplay.cpp\<close>.
    \<^item> \<open>Helper\<close>: \<open>config/helper/main.cpp\<close>. \<open>MacProcesses\<close>: \<open>config/lib/OSXProcessList.cpp\<close>. \<open>MacInstall\<close>:
      the installation on macOS in \<open>config/lib/App.cpp\<close>. \<open>ErrorReports\<close>:
      \<open>common/ScreenError.h\<close>, \<open>service/CoreErrorMonitor.cpp\<close>, \<open>ErrorNotifier.cpp\<close>.

  \<^bold>\<open>How state and operations correspond to the code.\<close> Each class is a record with its members as
  fields, and each method, slot or coroutine a function on it. Signals and asynchronous requests
  are returned as lists of events, or appended to a list of outputs in the state, and what the
  environment answers (bytes that arrive, results of network operations, replies, timers, exits) is
  an input. An exception is a value: \<open>Inl\<close>, \<open>None\<close>, or the error component of the result, together
  with the state at the point where it was thrown. Behaviour that the language leaves undefined and
  failed assertions are \<open>None\<close>.

  \<^bold>\<open>What the lemmas show.\<close> Of the router: the table keeps the best routes per destination, at most
  three; a revocation undoes an advertisement, but for the routes that the advertised ones displaced; in every reachable state of every network the routes
  are simple paths whose cost is their length; while the network only grows, a message that is sent
  arrives. Of the protocols: what is written is read back,
  packed and unpacked by the generated code, whatever the chunks in which it arrives; the pointers
  in the structures behave like values; the state machine of the scanner accepts exactly the
  grammar of the codec's messages; the proxies relay the bytes unchanged and in order, whatever
  the frames hold, and with the network between them a session of a core client, from its hello back
  on, reaches the core server. Of the configuration: every point of an edge is linked to the nearest screen across it. Of profiles and
  settings: the comparison reports exactly the visible differences and accounts for the screens that
  are online; settings survive saving and loading; a text is taken for a snapshot exactly when its value
  says so. Of the core manager: at most one core process
  runs, a switch takes effect, a pause holds, a claim that all receive elects one server and makes all others its clients, and what the
  core writes becomes lines, however it is cut. Of the
  cloud client: the request in progress is the current job, jobs finish in order, the websocket
  always keeps trying and carries the login of its settings. Of the service: a snapshot without this
  computer logs it out, with the profile kept, and a service that ends and is started again comes
  back with its login. Of the system: the loop over the Windows adapters ends exactly when the
  buffer can become large enough. Of the screens: a dropped screen is free and the list
  stays well formed. Of the configuration program: one poll for the login at a time, no undefined
  call of the service, and a switch of the profile reaches the service. Of the tray: it ends with its
  connection. Of the controller: which processes a stop ends and
  which it leaves alone, and the check points increase. Of the
  sessions: the display that is found is the one most used, and the signals name the active session.
  Of the helper: it removes what it and the application left, and nothing else.
  Where the code does not do what it means to, the theorem states what it does:
  \<open>late_connection_breaks_loop_freedom\<close>, \<open>crossing_claims_leave_no_server\<close>,
  \<open>proxy_failure_stalls_queue\<close>, \<open>proxy_change_silences_the_session\<close>,
  \<open>online_without_addresses_ends_the_service\<close>, \<open>failed_poll_stops_the_login\<close>,
  \<open>queued_notice_hides_the_loss\<close>, \<open>failed_start_is_never_reported\<close>, \<open>failed_wait_is_final\<close>,
  \<open>update_keeps_the_old_service\<close>, \<open>leftover_blocks_the_installation\<close>, \<open>loop_sees_the_first_for_ever\<close>,
  \<open>receive_buffer_unnoticed\<close>, \<open>get_sends_the_old_body\<close>.

  \<^bold>\<open>Bounds.\<close> The scanner has a fuel, \<open>5 * length + 8\<close> steps: every byte is scanned at
  most once for a match and backed up over by at most the four bytes of a tag, and
  \<open>scanner_implements_grammar\<close> shows that the fuel never runs out. All other loops are structural
  or terminate by a measure: the bytes that have not yet arrived, the attempts that are left. The
  fuel of \<open>travel\<close> is the number of hops, and \<open>sent_message_arrives\<close> shows that the length of any known
  route is enough. Loops of the code that may not end take the number of their rounds:
  \<open>adapter_query_ends\<close> says exactly when some number is enough, and \<open>loop_sees_the_first_for_ever\<close>
  that none is.

  \<^bold>\<open>Assumptions.\<close> Code that is not in the repository is a parameter with its documented behaviour as a
  hypothesis: the library of flatbuffer tables, the interval map and the sorting of the
  configuration, the TOML parser and printer, the JSON parser, the conversion of texts to numbers and
  addresses, the look-up of names, the clock, the random numbers, the remaining time of a timer and
  the file system paths. Coordinates and identifiers of 64 bits are integers without overflow. The
  range of the exponents of single precision is unlimited, a TCP connection delivers in order, and the order of an unordered set is that
  of the list that models it.

  \<^bold>\<open>Not modelled.\<close> The D-Bus and Windows calls themselves, the WAMP library, the rotation of the log
  files, the text of the embedded certificate, the printing of protocol messages for the log, the
  views of the user interface and the registration of their types, which hold no decision of the
  program or only call libraries. Overlapping asynchronous writes on one socket, and handlers that
  \<open>poll\<close> runs early, are outside the model.
\<close>

end
